(* ===== verification/Prelude.thy ===== *)
theory Prelude
  imports Main "HOL-Library.Word" "HOL-Library.Multiset"
begin

text \<open>
  Shared vocabulary of the development. The engine is compiled C++ whose failures are aborts
  (a failed \<open>FML_CHECK\<close>, a failed \<open>FML_DCHECK\<close> of a build with checks on), exceptions of the
  standard library (\<open>std::map::at\<close>) or undefined behaviour (reading a null pointer, popping an
  empty heap). Each is a value of \<open>fault\<close>; an operation that can fail returns \<open>fault + 'a\<close>.
  The rest of the theory holds the run of an operation over a list of arguments, with the
  locale that lifts a one-step invariant to runs, and the containers \<open>std::set\<close> and \<open>std::map\<close>
  as sorted lists, in the order in which C++ iterates over them.
\<close>

named_theorems res_simps \<open>unfolding of the result monad\<close>
named_theorems omap_simps \<open>lookups in ordered maps and sets\<close>

section \<open>Results\<close>

datatype fault =
    Out_Of_Range      \<comment> \<open>\<open>std::map::at\<close> on a missing key\<close>
  | Check_Failed      \<comment> \<open>a failed \<open>FML_CHECK\<close>\<close>
  | DCheck_Failed     \<comment> \<open>a failed \<open>FML_DCHECK\<close> (or \<open>assert\<close>), in a build with checks on\<close>
  | Bad_Variant_Access \<comment> \<open>\<open>std::get\<close> of another alternative\<close>
  | Undefined         \<comment> \<open>undefined behaviour of C++\<close>

type_synonym 'a res = "fault + 'a"

definition bindr :: "'e + 'a \<Rightarrow> ('a \<Rightarrow> 'e + 'b) \<Rightarrow> 'e + 'b" where
  "bindr m f = (case m of Inl e \<Rightarrow> Inl e | Inr a \<Rightarrow> f a)"

definition ensure :: "'e \<Rightarrow> bool \<Rightarrow> 'e + unit" where
  "ensure e b = (if b then Inr () else Inl e)"

definition at :: "('k \<rightharpoonup> 'v) \<Rightarrow> 'k \<Rightarrow> 'v res" where
  "at m k = (case m k of None \<Rightarrow> Inl Out_Of_Range | Some v \<Rightarrow> Inr v)"

lemma bindr_simps [simp]:
  "bindr (Inl e) f = Inl e"
  "bindr (Inr a) f = f a"
  by (simp_all add: bindr_def)

lemma bindr_cong [fundef_cong]:
  "m = m' \<Longrightarrow> (\<And>a. m' = Inr a \<Longrightarrow> f a = f' a) \<Longrightarrow> bindr m f = bindr m' f'"
  by (cases m') auto

lemma bindr_weak_cong: "m = m' \<Longrightarrow> bindr m f = bindr m' f"
  by simp

lemma bindr_eq_Inr [res_simps]: "bindr m f = Inr b \<longleftrightarrow> (\<exists>a. m = Inr a \<and> f a = Inr b)"
  by (cases m) auto

lemma bindrE:
  assumes "bindr m f = Inr b"
  obtains a where "m = Inr a" "f a = Inr b"
  using assms by (auto simp: bindr_eq_Inr)

lemma bindr_eq_Inl [res_simps]:
  "bindr m f = Inl e \<longleftrightarrow> m = Inl e \<or> (\<exists>a. m = Inr a \<and> f a = Inl e)"
  by (cases m) auto

lemma bindr_assoc: "bindr (bindr m f) g = bindr m (\<lambda>x. bindr (f x) g)"
  by (cases m) auto

lemma bindr_Inr [simp]: "bindr m Inr = m"
  by (cases m) auto

lemma ensure_simps [simp]: "ensure e True = Inr ()" "ensure e False = Inl e"
  by (simp_all add: ensure_def)

lemma ensure_eq_Inr [res_simps]: "ensure e b = Inr u \<longleftrightarrow> b"
  by (simp add: ensure_def)

lemma ensure_eq_Inl [res_simps]: "ensure e b = Inl e' \<longleftrightarrow> \<not> b \<and> e' = e"
  by (auto simp: ensure_def)

lemma at_Some [simp]: "m k = Some v \<Longrightarrow> at m k = Inr v"
  by (simp add: at_def)

lemma at_None [simp]: "m k = None \<Longrightarrow> at m k = Inl Out_Of_Range"
  by (simp add: at_def)

lemma at_eq_Inr [res_simps]: "at m k = Inr v \<longleftrightarrow> m k = Some v"
  by (simp add: at_def split: option.splits)

section \<open>Runs of an operation\<close>

fun run_ops :: "('s \<Rightarrow> 'e \<Rightarrow> 'x + 's) \<Rightarrow> 's \<Rightarrow> 'e list \<Rightarrow> 'x + 's" where
  "run_ops step s [] = Inr s"
| "run_ops step s (e # es) = bindr (step s e) (\<lambda>s'. run_ops step s' es)"

lemma run_ops_append:
  "run_ops step s (xs @ ys) = bindr (run_ops step s xs) (\<lambda>s'. run_ops step s' ys)"
  by (induction xs arbitrary: s) (simp_all add: bindr_assoc)

text \<open>
  The interface of a component seen as a machine: its step and an invariant every successful step
  keeps. The invariant then holds along every run, and at every prefix of it.
\<close>

locale guarded_machine =
  fixes step :: "'s \<Rightarrow> 'e \<Rightarrow> 'x + 's"
    and inv :: "'s \<Rightarrow> bool"
  assumes step_inv: "inv s \<Longrightarrow> step s e = Inr s' \<Longrightarrow> inv s'"
begin

lemma run_inv: "inv s \<Longrightarrow> run_ops step s es = Inr s' \<Longrightarrow> inv s'"
  by (induction es arbitrary: s) (auto simp: res_simps dest: step_inv)

lemma run_prefix_inv:
  assumes "inv s" and "run_ops step s (xs @ ys) = Inr s'"
  obtains t where "run_ops step s xs = Inr t" and "inv t" and "run_ops step t ys = Inr s'"
  using assms by (auto simp: run_ops_append res_simps dest: run_inv)

end

text \<open>A machine that moreover never fails on a state of its invariant.\<close>

locale total_machine = guarded_machine +
  assumes step_total: "inv s \<Longrightarrow> \<exists>s'. step s e = Inr s'"
begin

lemma run_total: "inv s \<Longrightarrow> \<exists>s'. run_ops step s es = Inr s' \<and> inv s'"
proof (induction es arbitrary: s)
  case (Cons e es)
  obtain t where t: "step s e = Inr t" using step_total [OF Cons.prems] by blast
  with Cons.prems have "inv t" by (rule step_inv)
  from Cons.IH [OF this] t show ?case by simp
qed simp

end

section \<open>Lists\<close>

definition remove_nth :: "nat \<Rightarrow> 'a list \<Rightarrow> 'a list" where
  "remove_nth i xs = take i xs @ drop (Suc i) xs"

lemma length_remove_nth: "i < length xs \<Longrightarrow> length (remove_nth i xs) = length xs - 1"
  by (simp add: remove_nth_def)

lemma remove_nth_last [simp]: "remove_nth (length xs) (xs @ [x]) = xs"
  by (simp add: remove_nth_def)

section \<open>Ordered sets: \<open>std::set\<close>\<close>

definition oset_insert :: "'a::linorder \<Rightarrow> 'a list \<Rightarrow> 'a list" where
  "oset_insert x xs = (if x \<in> set xs then xs else insort x xs)"

definition oset_erase :: "'a \<Rightarrow> 'a list \<Rightarrow> 'a list" where
  "oset_erase x xs = filter (\<lambda>y. y \<noteq> x) xs"

lemma set_oset_insert [simp]: "set (oset_insert x xs) = insert x (set xs)"
  by (auto simp: oset_insert_def set_insort_key)

lemma set_oset_erase [simp]: "set (oset_erase x xs) = set xs - {x}"
  by (auto simp: oset_erase_def)

lemma oset_insert_strict: "sorted xs \<and> distinct xs \<Longrightarrow> sorted (oset_insert x xs) \<and> distinct (oset_insert x xs)"
  by (auto simp: oset_insert_def sorted_insort distinct_insort)

lemma oset_erase_strict: "sorted xs \<and> distinct xs \<Longrightarrow> sorted (oset_erase x xs) \<and> distinct (oset_erase x xs)"
  by (simp add: oset_erase_def sorted_wrt_filter)

lemma oset_erase_id [simp]: "x \<notin> set xs \<Longrightarrow> oset_erase x xs = xs"
  by (induction xs) (auto simp: oset_erase_def)

lemma oset_erase_insert [simp]: "x \<notin> set xs \<Longrightarrow> oset_erase x (oset_insert x xs) = xs"
proof -
  assume "x \<notin> set xs"
  then have "filter (\<lambda>y. y \<noteq> x) (insort x xs) = xs"
    by (induction xs) (auto simp: filter_id_conv)
  with \<open>x \<notin> set xs\<close> show ?thesis by (simp add: oset_insert_def oset_erase_def)
qed

section \<open>Ordered maps: \<open>std::map\<close>\<close>

fun omap_insert :: "'k::linorder \<Rightarrow> 'v \<Rightarrow> ('k \<times> 'v) list \<Rightarrow> ('k \<times> 'v) list" where
  "omap_insert k v [] = [(k, v)]"
| "omap_insert k v ((k', v') # m) =
     (if k < k' then (k, v) # (k', v') # m
      else if k = k' then (k, v) # m
      else (k', v') # omap_insert k v m)"

definition omap_erase :: "'k \<Rightarrow> ('k \<times> 'v) list \<Rightarrow> ('k \<times> 'v) list" where
  "omap_erase k m = filter (\<lambda>(k', _). k' \<noteq> k) m"

definition omap_ok :: "('k::linorder \<times> 'v) list \<Rightarrow> bool" where
  "omap_ok m \<longleftrightarrow> sorted_wrt (<) (map fst m)"

lemma set_omap_insert_keys [omap_simps]: "fst ` set (omap_insert k v m) = insert k (fst ` set m)"
  by (induction k v m rule: omap_insert.induct) (auto simp: image_iff)

lemma omap_insert_lookup [simp]:
  "map_of (omap_insert k v m) k' = (if k' = k then Some v else map_of m k')"
  by (induction k v m rule: omap_insert.induct) auto

lemma omap_erase_lookup [simp]:
  "map_of (omap_erase k m) k' = (if k' = k then None else map_of m k')"
  by (induction m) (auto simp: omap_erase_def)

lemma omap_ok_insert: "omap_ok m \<Longrightarrow> omap_ok (omap_insert k v m)"
proof (induction k v m rule: omap_insert.induct)
  case (2 k v k' v' m)
  then show ?case
    using set_omap_insert_keys [of k v m] by (auto simp: omap_ok_def image_iff)
qed (simp add: omap_ok_def)

lemma omap_ok_erase: "omap_ok m \<Longrightarrow> omap_ok (omap_erase k m)"
  by (induction m) (auto simp: omap_ok_def omap_erase_def)

lemma omap_ok_Nil [simp]: "omap_ok []"
  by (simp add: omap_ok_def)

lemma omap_erase_insert [simp]: "k \<notin> fst ` set m \<Longrightarrow> omap_erase k (omap_insert k v m) = m"
proof (induction k v m rule: omap_insert.induct)
  case (2 k v k' v' m)
  have "k \<notin> fst ` set m \<Longrightarrow> filter (\<lambda>(k', _). k' \<noteq> k) m = m"
    by (induction m) auto
  with 2 show ?case by (auto simp: omap_erase_def)
qed (simp add: omap_erase_def)

lemma mset_omap_insert: "k \<notin> fst ` set m \<Longrightarrow> mset (map snd (omap_insert k v m)) = add_mset v (mset (map snd m))"
  by (induction k v m rule: omap_insert.induct) auto

lemma mset_omap_erase:
  "omap_ok m \<Longrightarrow> map_of m k = Some v \<Longrightarrow> mset (map snd m) = add_mset v (mset (map snd (omap_erase k m)))"
proof (induction m)
  case (Cons p m)
  obtain k' v' where [simp]: "p = (k', v')" by (cases p)
  have "k' \<notin> fst ` set m" using Cons.prems(1) by (auto simp: omap_ok_def)
  then have "omap_erase k' m = m" by (force simp: omap_erase_def filter_id_conv)
  moreover have "omap_ok m" using Cons.prems(1) by (simp add: omap_ok_def)
  ultimately show ?case using Cons by (cases "k = k'") (auto simp: omap_erase_def)
qed simp

text \<open>The contract of \<open>std::map\<close>, for clients that only insert, erase and look up.\<close>

locale ordered_map =
  fixes empty :: 'm
    and ins :: "'k \<Rightarrow> 'v \<Rightarrow> 'm \<Rightarrow> 'm"
    and del :: "'k \<Rightarrow> 'm \<Rightarrow> 'm"
    and lkp :: "'m \<Rightarrow> 'k \<rightharpoonup> 'v"
    and ok :: "'m \<Rightarrow> bool"
  assumes lkp_empty: "lkp empty k = None"
    and lkp_ins: "ok m \<Longrightarrow> lkp (ins k v m) k' = (if k' = k then Some v else lkp m k')"
    and lkp_del: "ok m \<Longrightarrow> lkp (del k m) k' = (if k' = k then None else lkp m k')"
    and ok_empty: "ok empty"
    and ok_ins: "ok m \<Longrightarrow> ok (ins k v m)"
    and ok_del: "ok m \<Longrightarrow> ok (del k m)"
begin

lemma dom_ins: "ok m \<Longrightarrow> dom (lkp (ins k v m)) = insert k (dom (lkp m))"
  by (auto simp: dom_def lkp_ins)

lemma dom_del: "ok m \<Longrightarrow> dom (lkp (del k m)) = dom (lkp m) - {k}"
  by (auto simp: dom_def lkp_del split: if_splits)

lemma del_ins_lkp: "ok m \<Longrightarrow> lkp m k = None \<Longrightarrow> lkp (del k (ins k v m)) = lkp m"
  by (rule ext) (simp add: lkp_del lkp_ins ok_ins)

end

interpretation omap: ordered_map "[]" omap_insert omap_erase map_of omap_ok
  by unfold_locales (simp_all add: omap_ok_insert omap_ok_erase)

end
