(* ===== verification/Fml_Task_Source.thy ===== *)
theory Fml_Task_Source
  imports Prelude
begin

text \<open>
  \<open>fml/time/time_point.h\<close>, \<open>fml/task_source_grade.h\<close>, \<open>fml/delayed_task\<close> and \<open>fml/task_source\<close>:
  time points, delayed tasks with their order, the heap \<open>DelayedTaskQueue\<close> and the \<open>TaskSource\<close>
  with its primary and its pausable secondary heap. A closure is an opaque value of type \<open>'c\<close>.
\<close>

section \<open>Time points and delayed tasks\<close>

text \<open>A time point is a signed 64-bit count of nanoseconds; its order is the signed one.\<close>

(* map: fml/time/time_point.h 22 77 TimePoint *)
datatype time_point = TimePoint (ticks: "64 word")

instantiation time_point :: linorder
begin

definition less_eq_time_point :: "time_point \<Rightarrow> time_point \<Rightarrow> bool" where
  "less_eq_time_point a b \<longleftrightarrow> sint (ticks a) \<le> sint (ticks b)"

definition less_time_point :: "time_point \<Rightarrow> time_point \<Rightarrow> bool" where
  "less_time_point a b \<longleftrightarrow> sint (ticks a) < sint (ticks b)"

instance
  by standard
    (auto simp: less_eq_time_point_def less_time_point_def word_eq_iff_signed [symmetric]
      intro: time_point.expand)

end

(* map: fml/time/time_point.h 39 41 TimePoint::Max *)
definition tp_max :: time_point where
  "tp_max = TimePoint (mask 63)"

(* map: fml/time/time_point.h 35 37 TimePoint::Min *)
definition tp_min :: time_point where
  "tp_min = TimePoint (push_bit 63 1)"

lemma tp_max_greatest: "t \<le> tp_max"
proof -
  have "sint (mask 63 :: 64 word) = 2 ^ 63 - 1" by (simp add: mask_eq_exp_minus_1)
  moreover have "sint (ticks t) < 2 ^ 63" using sint_lt [of "ticks t"] by simp
  ultimately show ?thesis by (simp add: less_eq_time_point_def tp_max_def)
qed

(* map: fml/task_source_grade.h 15 24 TaskSourceGrade *)
datatype task_source_grade = kUserInteraction | kDartMicroTasks | kUnspecified

(* map: fml/delayed_task.h 16 40 DelayedTask *)
record 'c delayed_task =
  dt_order :: "64 word"
  dt_task :: 'c
  dt_target_time :: time_point
  dt_grade :: task_source_grade

(* map: fml/delayed_task.cc 11 18 DelayedTask::DelayedTask *)
definition DelayedTask :: "64 word \<Rightarrow> 'c \<Rightarrow> time_point \<Rightarrow> task_source_grade \<Rightarrow> 'c delayed_task" where
  "DelayedTask order task target_time grade =
     \<lparr>dt_order = order, dt_task = task, dt_target_time = target_time, dt_grade = grade\<rparr>"

(* map: fml/delayed_task.cc 36 41 DelayedTask::operator> *)
definition task_gt :: "'c delayed_task \<Rightarrow> 'c delayed_task \<Rightarrow> bool" where
  "task_gt a b =
     (if dt_target_time a = dt_target_time b then dt_order a > dt_order b
      else dt_target_time a > dt_target_time b)"

lemma task_gt_irrefl [simp]: "\<not> task_gt t t"
  by (simp add: task_gt_def)

lemma task_gt_trans: "task_gt a b \<Longrightarrow> task_gt b c \<Longrightarrow> task_gt a c"
  by (auto simp: task_gt_def split: if_splits)

lemma not_task_gt_trans: "\<not> task_gt a b \<Longrightarrow> \<not> task_gt b c \<Longrightarrow> \<not> task_gt a c"
  by (auto simp: task_gt_def split: if_splits)

lemma not_task_gt_total: "\<not> task_gt a b \<or> \<not> task_gt b a"
  by (auto simp: task_gt_def)

section \<open>\<open>DelayedTaskQueue\<close>: a priority queue whose top is a least element\<close>

text \<open>
  The contract of \<open>std::priority_queue\<close> with \<open>std::greater\<close>: its contents form a multiset, and the
  element that \<open>top\<close> shows and \<open>pop\<close> removes is one that is not greater than any other.
\<close>

locale priority_queue =
  fixes gt :: "'a \<Rightarrow> 'a \<Rightarrow> bool"
    and push :: "'a \<Rightarrow> 'q \<Rightarrow> 'q"
    and top :: "'q \<Rightarrow> 'a option"
    and pop :: "'q \<Rightarrow> 'q option"
    and elems :: "'q \<Rightarrow> 'a multiset"
    and ok :: "'q \<Rightarrow> bool"
  assumes elems_push: "elems (push x q) = add_mset x (elems q)"
    and ok_push: "ok q \<Longrightarrow> ok (push x q)"
    and top_None: "top q = None \<longleftrightarrow> elems q = {#}"
    and top_in: "top q = Some x \<Longrightarrow> x \<in># elems q"
    and top_least: "ok q \<Longrightarrow> top q = Some x \<Longrightarrow> y \<in># elems q \<Longrightarrow> \<not> gt x y"
    and elems_pop: "top q = Some x \<Longrightarrow> pop q = Some q' \<Longrightarrow> elems q' = elems q - {#x#}"
    and pop_None: "pop q = None \<longleftrightarrow> elems q = {#}"
    and ok_pop: "ok q \<Longrightarrow> pop q = Some q' \<Longrightarrow> ok q'"
begin

lemma pop_partition: "pop q = Some q' \<Longrightarrow> \<exists>x. top q = Some x \<and> elems q = add_mset x (elems q')"
  using top_None pop_None elems_pop top_in by (metis insert_DiffM not_None_eq)

lemma push_top:
  assumes "ok q" "top (push x q) = Some y"
  shows "y \<in># add_mset x (elems q) \<and> (\<forall>z \<in># add_mset x (elems q). \<not> gt y z)"
  using assms top_in [of "push x q" y] top_least [of "push x q" y] ok_push [of q x]
  by (auto simp: elems_push)

lemma push_not_empty: "top (push x q) \<noteq> None"
  by (simp add: top_None elems_push)

end

text \<open>
  The queue as the list of its elements in the order in which they are popped. Elements that are
  neither greater nor less than one another (same time and same order number) leave in the order
  of their insertion; \<open>std::priority_queue\<close> leaves that unspecified.
\<close>

type_synonym 'c delayed_task_queue = "'c delayed_task list"

(* map: fml/delayed_task.h 42 44 DelayedTaskQueue *)
fun dtq_push :: "'c delayed_task \<Rightarrow> 'c delayed_task_queue \<Rightarrow> 'c delayed_task_queue" where
  "dtq_push x [] = [x]"
| "dtq_push x (y # ys) = (if task_gt y x then x # y # ys else y # dtq_push x ys)"

definition dtq_top :: "'c delayed_task_queue \<Rightarrow> 'c delayed_task option" where
  "dtq_top q = (case q of [] \<Rightarrow> None | x # _ \<Rightarrow> Some x)"

definition dtq_pop :: "'c delayed_task_queue \<Rightarrow> 'c delayed_task_queue option" where
  "dtq_pop q = (case q of [] \<Rightarrow> None | _ # q' \<Rightarrow> Some q')"

definition dtq_ok :: "'c delayed_task_queue \<Rightarrow> bool" where
  "dtq_ok = sorted_wrt (\<lambda>x y. \<not> task_gt x y)"

lemma mset_dtq_push [simp]: "mset (dtq_push x q) = add_mset x (mset q)"
  by (induction x q rule: dtq_push.induct) auto

lemma set_dtq_push [simp]: "set (dtq_push x q) = insert x (set q)"
  by (metis mset_dtq_push set_mset_add_mset_insert set_mset_mset)

lemma dtq_ok_Nil [simp]: "dtq_ok []"
  by (simp add: dtq_ok_def)

lemma dtq_ok_push: "dtq_ok q \<Longrightarrow> dtq_ok (dtq_push x q)"
proof (induction x q rule: dtq_push.induct)
  case (2 x y ys)
  show ?case
  proof (cases "task_gt y x")
    case True
    then have "\<not> task_gt x y" using not_task_gt_total by blast
    with 2 True show ?thesis by (auto simp: dtq_ok_def dest: not_task_gt_trans)
  next
    case False
    with 2 show ?thesis by (auto simp: dtq_ok_def)
  qed
qed (simp add: dtq_ok_def)

interpretation dtq: priority_queue task_gt dtq_push dtq_top dtq_pop mset dtq_ok
proof
  show "dtq_ok q \<Longrightarrow> dtq_ok (dtq_push x q)" for x :: "'c delayed_task" and q
    by (rule dtq_ok_push)
qed (auto simp: dtq_top_def dtq_pop_def dtq_ok_def split: list.splits)

lemma dtq_push_not_Nil [simp]: "dtq_push x q \<noteq> []"
  by (cases q) auto

section \<open>\<open>TaskSource\<close>\<close>

(* map: fml/task_source.h 35 81 TaskSource *)
record 'c task_source =
  ts_queue_id :: "64 word"
  primary_task_queue :: "'c delayed_task_queue"
  secondary_task_queue :: "'c delayed_task_queue"
  secondary_pause_requests :: int

(* map: fml/task_source.h 37 40 TaskSource::TopTask *)
record 'c top_task =
  task_queue_id :: "64 word"
  task :: "'c delayed_task"

(* map: fml/task_source.cc 11 12 TaskSource::TaskSource *)
definition TaskSource :: "64 word \<Rightarrow> 'c task_source" where
  "TaskSource i = \<lparr>ts_queue_id = i, primary_task_queue = [], secondary_task_queue = [],
                   secondary_pause_requests = 0\<rparr>"

(* map: fml/task_source.cc 14 21 TaskSource::ShutDown *)
definition ts_ShutDown :: "'c task_source \<Rightarrow> 'c task_source" where
  "ts_ShutDown ts = ts\<lparr>primary_task_queue := [], secondary_task_queue := []\<rparr>"

(* map: fml/task_source.cc 23 35 TaskSource::RegisterTask *)
definition ts_RegisterTask :: "'c delayed_task \<Rightarrow> 'c task_source \<Rightarrow> 'c task_source" where
  "ts_RegisterTask t ts =
     (case dt_grade t of
        kUserInteraction \<Rightarrow> ts\<lparr>primary_task_queue := dtq_push t (primary_task_queue ts)\<rparr>
      | kUnspecified \<Rightarrow> ts\<lparr>primary_task_queue := dtq_push t (primary_task_queue ts)\<rparr>
      | kDartMicroTasks \<Rightarrow> ts\<lparr>secondary_task_queue := dtq_push t (secondary_task_queue ts)\<rparr>)"

text \<open>Popping an empty \<open>std::priority_queue\<close> is undefined behaviour.\<close>

(* map: fml/task_source.cc 37 49 TaskSource::PopTask *)
definition ts_PopTask :: "task_source_grade \<Rightarrow> 'c task_source \<Rightarrow> 'c task_source res" where
  "ts_PopTask g ts =
     (case g of
        kUserInteraction \<Rightarrow> (case dtq_pop (primary_task_queue ts) of None \<Rightarrow> Inl Undefined
                             | Some q \<Rightarrow> Inr (ts\<lparr>primary_task_queue := q\<rparr>))
      | kUnspecified \<Rightarrow> (case dtq_pop (primary_task_queue ts) of None \<Rightarrow> Inl Undefined
                             | Some q \<Rightarrow> Inr (ts\<lparr>primary_task_queue := q\<rparr>))
      | kDartMicroTasks \<Rightarrow> (case dtq_pop (secondary_task_queue ts) of None \<Rightarrow> Inl Undefined
                             | Some q \<Rightarrow> Inr (ts\<lparr>secondary_task_queue := q\<rparr>)))"

(* map: fml/task_source.cc 51 57 TaskSource::GetNumPendingTasks *)
definition ts_GetNumPendingTasks :: "'c task_source \<Rightarrow> nat" where
  "ts_GetNumPendingTasks ts =
     (let size = length (primary_task_queue ts)
      in if secondary_pause_requests ts = 0 then size + length (secondary_task_queue ts) else size)"

(* map: fml/task_source.cc 59 61 TaskSource::IsEmpty *)
definition ts_IsEmpty :: "'c task_source \<Rightarrow> bool" where
  "ts_IsEmpty ts \<longleftrightarrow> ts_GetNumPendingTasks ts = 0"

definition dtq_front :: "'c delayed_task_queue \<Rightarrow> 'c delayed_task res" where
  "dtq_front q = (case dtq_top q of None \<Rightarrow> Inl Undefined | Some t \<Rightarrow> Inr t)"

(* map: fml/task_source.cc 63 92 TaskSource::Top *)
definition ts_Top :: "'c task_source \<Rightarrow> 'c top_task res" where
  "ts_Top ts =
     bindr (ensure Check_Failed (\<not> ts_IsEmpty ts)) (\<lambda>_.
       let ret = (\<lambda>t. Inr \<lparr>task_queue_id = ts_queue_id ts, task = t\<rparr>) in
       if secondary_pause_requests ts > 0 \<or> secondary_task_queue ts = [] then
         bindr (dtq_front (primary_task_queue ts)) ret
       else if primary_task_queue ts = [] then
         bindr (dtq_front (secondary_task_queue ts)) ret
       else
         bindr (dtq_front (primary_task_queue ts)) (\<lambda>primary_top.
         bindr (dtq_front (secondary_task_queue ts)) (\<lambda>secondary_top.
           if task_gt primary_top secondary_top then ret secondary_top else ret primary_top)))"

(* map: fml/task_source.cc 94 96 TaskSource::PauseSecondary *)
definition ts_PauseSecondary :: "'c task_source \<Rightarrow> 'c task_source" where
  "ts_PauseSecondary ts = ts\<lparr>secondary_pause_requests := secondary_pause_requests ts + 1\<rparr>"

(* map: fml/task_source.cc 98 101 TaskSource::ResumeSecondary *)
definition ts_ResumeSecondary :: "'c task_source \<Rightarrow> 'c task_source res" where
  "ts_ResumeSecondary ts =
     (let ts' = ts\<lparr>secondary_pause_requests := secondary_pause_requests ts - 1\<rparr>
      in bindr (ensure DCheck_Failed (secondary_pause_requests ts' \<ge> 0)) (\<lambda>_. Inr ts'))"

subsection \<open>Abstraction: the tasks a source offers\<close>

text \<open>
  \<open>ts_visible\<close> is the multiset of tasks a source offers: the primary ones, and the secondary ones
  unless they are paused. \<open>ts_ok\<close> is the invariant: both heaps are ordered, and a task's grade
  says which heap holds it.
\<close>

definition ts_visible :: "'c task_source \<Rightarrow> 'c delayed_task multiset" where
  "ts_visible ts = mset (primary_task_queue ts) +
     (if secondary_pause_requests ts = 0 then mset (secondary_task_queue ts) else {#})"

definition ts_all :: "'c task_source \<Rightarrow> 'c delayed_task multiset" where
  "ts_all ts = mset (primary_task_queue ts) + mset (secondary_task_queue ts)"

definition ts_ok :: "'c task_source \<Rightarrow> bool" where
  "ts_ok ts \<longleftrightarrow>
     dtq_ok (primary_task_queue ts) \<and> dtq_ok (secondary_task_queue ts) \<and>
     (\<forall>t \<in> set (primary_task_queue ts). dt_grade t \<noteq> kDartMicroTasks) \<and>
     (\<forall>t \<in> set (secondary_task_queue ts). dt_grade t = kDartMicroTasks) \<and>
     secondary_pause_requests ts \<ge> 0"

lemma ts_GetNumPendingTasks_size: "ts_GetNumPendingTasks ts = size (ts_visible ts)"
  by (simp add: ts_GetNumPendingTasks_def ts_visible_def)

lemma ts_IsEmpty_iff: "ts_IsEmpty ts \<longleftrightarrow> ts_visible ts = {#}"
  by (simp add: ts_IsEmpty_def ts_GetNumPendingTasks_size)

lemma ts_ok_TaskSource [simp]: "ts_ok (TaskSource i)"
  by (simp add: ts_ok_def TaskSource_def)

lemma ts_ok_ShutDown: "ts_ok ts \<Longrightarrow> ts_ok (ts_ShutDown ts)"
  by (simp add: ts_ok_def ts_ShutDown_def)

lemma ts_visible_ShutDown [simp]: "ts_visible (ts_ShutDown ts) = {#}"
  by (simp add: ts_visible_def ts_ShutDown_def)

lemma ts_ok_RegisterTask: "ts_ok ts \<Longrightarrow> ts_ok (ts_RegisterTask t ts)"
  by (auto simp: ts_ok_def ts_RegisterTask_def dtq_ok_push split: task_source_grade.splits)

lemma ts_all_RegisterTask: "ts_all (ts_RegisterTask t ts) = add_mset t (ts_all ts)"
  by (auto simp: ts_all_def ts_RegisterTask_def split: task_source_grade.splits)

lemma ts_visible_RegisterTask:
  "ts_visible (ts_RegisterTask t ts) =
     (if dt_grade t = kDartMicroTasks \<and> secondary_pause_requests ts \<noteq> 0
      then ts_visible ts else add_mset t (ts_visible ts))"
  by (auto simp: ts_visible_def ts_RegisterTask_def split: task_source_grade.splits)

lemma ts_ok_PauseSecondary: "ts_ok ts \<Longrightarrow> ts_ok (ts_PauseSecondary ts)"
  by (simp add: ts_ok_def ts_PauseSecondary_def)

lemma ts_ok_ResumeSecondary: "ts_ok ts \<Longrightarrow> ts_ResumeSecondary ts = Inr ts' \<Longrightarrow> ts_ok ts'"
  by (auto simp: ts_ok_def ts_ResumeSecondary_def res_simps Let_def)

lemma ts_all_frames [simp]:
  "ts_all (ts_PauseSecondary ts) = ts_all ts"
  "ts_ResumeSecondary ts = Inr ts' \<Longrightarrow> ts_all ts' = ts_all ts"
  by (auto simp: ts_all_def ts_PauseSecondary_def ts_ResumeSecondary_def res_simps Let_def)

text \<open>\<open>Top\<close> shows a least task among those the source offers, with the source's own id.\<close>

lemma ts_Top_spec:
  assumes "ts_ok ts" and "ts_visible ts \<noteq> {#}"
  obtains t where "ts_Top ts = Inr \<lparr>task_queue_id = ts_queue_id ts, task = t\<rparr>"
    and "t \<in># ts_visible ts" and "\<And>u. u \<in># ts_visible ts \<Longrightarrow> \<not> task_gt t u"
proof (cases "primary_task_queue ts")
  case Nil
  with assms obtain y ys where s: "secondary_task_queue ts = y # ys" "secondary_pause_requests ts = 0"
    by (cases "secondary_task_queue ts") (auto simp: ts_visible_def split: if_splits)
  show ?thesis
    by (rule that [of y]) (use assms Nil s in \<open>auto simp: ts_Top_def ts_IsEmpty_iff dtq_front_def dtq_top_def
      Let_def ts_ok_def dtq_ok_def ts_visible_def split: if_splits\<close>)
next
  case p: (Cons x xs)
  show ?thesis
  proof (cases "secondary_pause_requests ts > 0 \<or> secondary_task_queue ts = []")
    case True
    show ?thesis
      by (rule that [of x]) (use assms p True in \<open>auto simp: ts_Top_def ts_IsEmpty_iff dtq_front_def dtq_top_def
        Let_def ts_ok_def dtq_ok_def ts_visible_def split: if_splits\<close>)
  next
    case False
    then obtain y ys where s: "secondary_task_queue ts = y # ys" by (cases "secondary_task_queue ts") auto
    from False assms(1) have z: "secondary_pause_requests ts = 0" by (auto simp: ts_ok_def)
    have xs: "\<And>u. u \<in> set xs \<Longrightarrow> \<not> task_gt x u" and ys: "\<And>u. u \<in> set ys \<Longrightarrow> \<not> task_gt y u"
      using assms(1) p s by (auto simp: ts_ok_def dtq_ok_def)
    show ?thesis
    proof (cases "task_gt x y")
      case True
      then have nyx: "\<not> task_gt y x" using not_task_gt_total by blast
      show ?thesis
        by (rule that [of y]) (use assms p s z True nyx xs ys in \<open>auto simp: ts_Top_def ts_IsEmpty_iff
          dtq_front_def dtq_top_def Let_def ts_visible_def dest: not_task_gt_trans\<close>)
    next
      case nxy: False
      show ?thesis
        by (rule that [of x]) (use assms p s z nxy xs ys in \<open>auto simp: ts_Top_def ts_IsEmpty_iff
          dtq_front_def dtq_top_def Let_def ts_visible_def dest: not_task_gt_trans\<close>)
    qed
  qed
qed

text \<open>Popping by the grade of the task that \<open>Top\<close> showed removes exactly that task.\<close>

lemma ts_PopTask_Top:
  assumes "ts_ok ts" and "ts_Top ts = Inr tt"
  obtains ts' where "ts_PopTask (dt_grade (task tt)) ts = Inr ts'"
    and "ts_visible ts' = ts_visible ts - {#task tt#}" and "ts_ok ts'"
    and "ts_queue_id ts' = ts_queue_id ts"
    and "secondary_pause_requests ts' = secondary_pause_requests ts"
    and "ts_all ts' = ts_all ts - {#task tt#}"
proof -
  have ok: "dtq_ok (primary_task_queue ts)" "dtq_ok (secondary_task_queue ts)"
    and g1: "\<And>t. t \<in> set (primary_task_queue ts) \<Longrightarrow> dt_grade t \<noteq> kDartMicroTasks"
    and g2: "\<And>t. t \<in> set (secondary_task_queue ts) \<Longrightarrow> dt_grade t = kDartMicroTasks"
    using assms(1) by (auto simp: ts_ok_def)
  have ne: "\<not> ts_IsEmpty ts" using assms(2) by (auto simp: ts_Top_def res_simps)
  consider (prim) xs where "primary_task_queue ts = task tt # xs"
    | (sec) ys where "secondary_task_queue ts = task tt # ys" "secondary_pause_requests ts = 0"
    using assms ne
    by (auto simp: ts_Top_def res_simps Let_def dtq_front_def dtq_top_def ts_ok_def ts_IsEmpty_def
      ts_GetNumPendingTasks_def split: if_splits list.splits option.splits)
  then show ?thesis
  proof cases
    case prim
    then have "dt_grade (task tt) \<noteq> kDartMicroTasks" using g1 by simp
    then have "ts_PopTask (dt_grade (task tt)) ts = Inr (ts\<lparr>primary_task_queue := xs\<rparr>)"
      using prim by (cases "dt_grade (task tt)") (auto simp: ts_PopTask_def dtq_pop_def)
    then show ?thesis
      by (rule that) (use assms(1) prim in \<open>auto simp: ts_visible_def ts_ok_def dtq_ok_def ts_all_def\<close>)
  next
    case sec
    then have "dt_grade (task tt) = kDartMicroTasks" using g2 by simp
    then have "ts_PopTask (dt_grade (task tt)) ts = Inr (ts\<lparr>secondary_task_queue := ys\<rparr>)"
      using sec by (auto simp: ts_PopTask_def dtq_pop_def)
    then show ?thesis
      by (rule that) (use assms(1) sec in \<open>auto simp: ts_visible_def ts_ok_def dtq_ok_def ts_all_def\<close>)
  qed
qed

end
