(* ===== verification/Fml_Task_Queues.thy ===== *)
theory Fml_Task_Queues
  imports Fml_Task_Source
begin

text \<open>
  \<open>fml/message_loop_task_queues\<close>: the singleton that holds one entry per task queue, merges queues
  into owners and hands out the next task. \<open>wakes\<close> is the log of the calls of \<open>Wakeable::WakeUp\<close>,
  newest first; \<open>tls_grade\<close> is the thread-local grade holder of each thread. Every method runs
  under \<open>queue_mutex_\<close>, so a call is one step.
\<close>

section \<open>State\<close>

(* map: fml/task_queue_id.h 15 30 TaskQueueId *)
type_synonym queue_id = "64 word"

(* map: fml/message_loop_task_queues.cc 20 20 TaskQueueId::kUnmerged *)
definition kUnmerged :: queue_id where
  "kUnmerged = -1"

(* map: fml/message_loop_task_queues.h 32 53 TaskQueueEntry *)
record 'c task_queue_entry =
  wakeable :: "nat option"
  task_observers :: "(int \<times> 'c) list"
  task_source :: "'c task_source"
  owner_of :: "queue_id list"
  subsumed_by :: queue_id
  created_for :: queue_id

text \<open>
  The thread-local slot: empty until the constructor or \<open>GetNextTaskToRun\<close> fills it on that thread;
  \<open>Tls_Indeterminate\<close> is a grade read from an object whose lifetime has ended.
\<close>

(* map: fml/message_loop_task_queues.cc 26 32 TaskSourceGradeHolder *)
datatype tls_slot = Tls_Empty | Tls_Grade task_source_grade | Tls_Indeterminate

(* map: fml/message_loop_task_queues.h 66 163 MessageLoopTaskQueues *)
record 'c task_queues =
  queue_entries :: "queue_id \<rightharpoonup> 'c task_queue_entry"
  task_queue_id_counter :: "64 word"
  order_counter :: "32 word"
  tls_grade :: "nat \<Rightarrow> tls_slot"
  wakes :: "(nat \<times> time_point) list"

(* map: fml/message_loop_task_queues.cc 38 43 TaskQueueEntry::TaskQueueEntry *)
definition TaskQueueEntry :: "queue_id \<Rightarrow> 'c task_queue_entry" where
  "TaskQueueEntry i = \<lparr>wakeable = None, task_observers = [], task_source = TaskSource i,
     owner_of = [], subsumed_by = kUnmerged, created_for = i\<rparr>"

(* map: fml/message_loop_task_queues.cc fn MessageLoopTaskQueues::MessageLoopTaskQueues( *)
definition MessageLoopTaskQueues :: "nat \<Rightarrow> 'c task_queues" where
  "MessageLoopTaskQueues thread = \<lparr>queue_entries = Map.empty, task_queue_id_counter = 0,
     order_counter = 0, tls_grade = (\<lambda>_. Tls_Empty)(thread := Tls_Grade kUnspecified), wakes = []\<rparr>"

abbreviation set_entry :: "queue_id \<Rightarrow> 'c task_queue_entry \<Rightarrow> 'c task_queues \<Rightarrow> 'c task_queues" where
  "set_entry q e s \<equiv> s\<lparr>queue_entries := (queue_entries s)(q \<mapsto> e)\<rparr>"

section \<open>Looking at the pending tasks\<close>

fun any_source_nonempty :: "(queue_id \<rightharpoonup> 'c task_queue_entry) \<Rightarrow> queue_id list \<Rightarrow> bool res" where
  "any_source_nonempty m [] = Inr False"
| "any_source_nonempty m (x # xs) =
     bindr (at m x) (\<lambda>e. if \<not> ts_IsEmpty (task_source e) then Inr True else any_source_nonempty m xs)"

(* map: fml/message_loop_task_queues.cc fn MessageLoopTaskQueues::HasPendingTasksUnlocked( *)
definition HasPendingTasksUnlocked :: "'c task_queues \<Rightarrow> queue_id \<Rightarrow> bool res" where
  "HasPendingTasksUnlocked s q =
     bindr (at (queue_entries s) q) (\<lambda>entry.
       if subsumed_by entry \<noteq> kUnmerged then Inr False
       else if \<not> ts_IsEmpty (task_source entry) then Inr True
       else any_source_nonempty (queue_entries s) (owner_of entry))"

(* map: fml/message_loop_task_queues.cc 376 384 top_task_updater *)
definition top_task_updater :: "'c top_task option \<Rightarrow> 'c task_source \<Rightarrow> 'c top_task option res" where
  "top_task_updater top_task source =
     (if \<not> ts_IsEmpty source then
        bindr (ts_Top source) (\<lambda>other.
          case top_task of
            None \<Rightarrow> Inr (Some other)
          | Some t \<Rightarrow> Inr (if task_gt (task t) (task other) then Some other else Some t))
      else Inr top_task)"

fun top_task_loop :: "(queue_id \<rightharpoonup> 'c task_queue_entry) \<Rightarrow> 'c top_task option \<Rightarrow> queue_id list
    \<Rightarrow> 'c top_task option res" where
  "top_task_loop m top_task [] = Inr top_task"
| "top_task_loop m top_task (x # xs) =
     bindr (at m x) (\<lambda>e. bindr (top_task_updater top_task (task_source e)) (\<lambda>t. top_task_loop m t xs))"

(* map: fml/message_loop_task_queues.cc fn MessageLoopTaskQueues::PeekNextTaskUnlocked( *)
definition PeekNextTaskUnlocked :: "'c task_queues \<Rightarrow> queue_id \<Rightarrow> 'c top_task res" where
  "PeekNextTaskUnlocked s owner =
     bindr (HasPendingTasksUnlocked s owner) (\<lambda>pending.
     bindr (ensure DCheck_Failed pending) (\<lambda>_.
     bindr (at (queue_entries s) owner) (\<lambda>entry.
       if owner_of entry = [] then
         bindr (ensure Check_Failed (\<not> ts_IsEmpty (task_source entry))) (\<lambda>_. ts_Top (task_source entry))
       else
         bindr (top_task_updater None (task_source entry)) (\<lambda>top.
         bindr (top_task_loop (queue_entries s) top (owner_of entry)) (\<lambda>top'.
           case top' of None \<Rightarrow> Inl Check_Failed | Some t \<Rightarrow> Inr t)))))"

(* map: fml/message_loop_task_queues.cc fn MessageLoopTaskQueues::GetNextWakeTimeUnlocked( *)
definition GetNextWakeTimeUnlocked :: "'c task_queues \<Rightarrow> queue_id \<Rightarrow> time_point res" where
  "GetNextWakeTimeUnlocked s q = bindr (PeekNextTaskUnlocked s q) (\<lambda>t. Inr (dt_target_time (task t)))"

(* map: fml/message_loop_task_queues.cc fn MessageLoopTaskQueues::WakeUpUnlocked( *)
definition WakeUpUnlocked :: "'c task_queues \<Rightarrow> queue_id \<Rightarrow> time_point \<Rightarrow> 'c task_queues res" where
  "WakeUpUnlocked s q time =
     bindr (at (queue_entries s) q) (\<lambda>e.
       case wakeable e of None \<Rightarrow> Inr s | Some w \<Rightarrow> Inr (s\<lparr>wakes := (w, time) # wakes s\<rparr>))"

definition wake_if_pending :: "'c task_queues \<Rightarrow> queue_id \<Rightarrow> 'c task_queues res" where
  "wake_if_pending s q =
     bindr (HasPendingTasksUnlocked s q) (\<lambda>p.
       if p then bindr (GetNextWakeTimeUnlocked s q) (\<lambda>t. WakeUpUnlocked s q t) else Inr s)"

section \<open>Operations\<close>

(* map: fml/message_loop_task_queues.cc fn MessageLoopTaskQueues::CreateTaskQueue( *)
definition CreateTaskQueue :: "'c task_queues \<Rightarrow> queue_id \<times> 'c task_queues" where
  "CreateTaskQueue s =
     (let loop_id = task_queue_id_counter s in
      (loop_id, (set_entry loop_id (TaskQueueEntry loop_id) s)\<lparr>task_queue_id_counter := loop_id + 1\<rparr>))"

definition erase_entries :: "queue_id list \<Rightarrow> 'c task_queues \<Rightarrow> 'c task_queues" where
  "erase_entries qs s = s\<lparr>queue_entries := (\<lambda>k. if k \<in> set qs then None else queue_entries s k)\<rparr>"

(* map: fml/message_loop_task_queues.cc fn MessageLoopTaskQueues::Dispose( *)
definition Dispose :: "'c task_queues \<Rightarrow> queue_id \<Rightarrow> 'c task_queues res" where
  "Dispose s q =
     bindr (at (queue_entries s) q) (\<lambda>e.
     bindr (ensure DCheck_Failed (subsumed_by e = kUnmerged)) (\<lambda>_.
       Inr (erase_entries [q] (erase_entries (owner_of e) s))))"

fun shut_down_all :: "'c task_queues \<Rightarrow> queue_id list \<Rightarrow> 'c task_queues res" where
  "shut_down_all s [] = Inr s"
| "shut_down_all s (x # xs) =
     bindr (at (queue_entries s) x) (\<lambda>e.
       shut_down_all (set_entry x (e\<lparr>task_source := ts_ShutDown (task_source e)\<rparr>) s) xs)"

(* map: fml/message_loop_task_queues.cc fn MessageLoopTaskQueues::DisposeTasks( *)
definition DisposeTasks :: "'c task_queues \<Rightarrow> queue_id \<Rightarrow> 'c task_queues res" where
  "DisposeTasks s q =
     bindr (at (queue_entries s) q) (\<lambda>e.
     bindr (ensure DCheck_Failed (subsumed_by e = kUnmerged)) (\<lambda>_.
       shut_down_all s (q # owner_of e)))"

(* map: fml/message_loop_task_queues.cc fn MessageLoopTaskQueues::GetCurrentTaskSourceGrade( *)
definition GetCurrentTaskSourceGrade :: "'c task_queues \<Rightarrow> nat \<Rightarrow> task_source_grade res" where
  "GetCurrentTaskSourceGrade s thread =
     (case tls_grade s thread of Tls_Grade g \<Rightarrow> Inr g | _ \<Rightarrow> Inl Undefined)"

text \<open>
  \<open>order_\<close> is an \<open>atomic_int\<close> that wraps, and \<open>size_t order = order_++\<close> sign-extends it.
\<close>

(* map: fml/message_loop_task_queues.cc fn MessageLoopTaskQueues::RegisterTask( *)
definition RegisterTask ::
  "'c task_queues \<Rightarrow> queue_id \<Rightarrow> 'c \<Rightarrow> time_point \<Rightarrow> task_source_grade \<Rightarrow> 'c task_queues res" where
  "RegisterTask s q c target_time grade =
     (let order = scast (order_counter s); s1 = s\<lparr>order_counter := order_counter s + 1\<rparr> in
      bindr (at (queue_entries s1) q) (\<lambda>e.
        let s2 = set_entry q (e\<lparr>task_source :=
                   ts_RegisterTask (DelayedTask order c target_time grade) (task_source e)\<rparr>) s1;
            loop_to_wake = (if subsumed_by e \<noteq> kUnmerged then subsumed_by e else q)
        in wake_if_pending s2 loop_to_wake))"

(* map: fml/message_loop_task_queues.cc fn MessageLoopTaskQueues::HasPendingTasks( *)
definition HasPendingTasks :: "'c task_queues \<Rightarrow> queue_id \<Rightarrow> bool res" where
  "HasPendingTasks s q = HasPendingTasksUnlocked s q"

text \<open>
  \<open>top.task\<close> is a reference to the front element of the popped heap. After \<open>PopTask\<close> the front
  holds the heap's new top; when the heap became empty the referenced object is gone.
\<close>

definition grade_through_top_reference :: "task_source_grade \<Rightarrow> 'c task_source \<Rightarrow> tls_slot" where
  "grade_through_top_reference g popped =
     (case dtq_top (case g of kDartMicroTasks \<Rightarrow> secondary_task_queue popped
                            | _ \<Rightarrow> primary_task_queue popped) of
        None \<Rightarrow> Tls_Indeterminate
      | Some t \<Rightarrow> Tls_Grade (dt_grade t))"

(* map: fml/message_loop_task_queues.cc fn MessageLoopTaskQueues::GetNextTaskToRun( *)
definition GetNextTaskToRun ::
  "'c task_queues \<Rightarrow> nat \<Rightarrow> queue_id \<Rightarrow> time_point \<Rightarrow> ('c option \<times> 'c task_queues) res" where
  "GetNextTaskToRun s thread q from_time =
     bindr (HasPendingTasksUnlocked s q) (\<lambda>pending.
     if \<not> pending then Inr (None, s) else
     bindr (PeekNextTaskUnlocked s q) (\<lambda>top.
     bindr (HasPendingTasksUnlocked s q) (\<lambda>pending'.
     bindr (if \<not> pending' then WakeUpUnlocked s q tp_max
            else bindr (GetNextWakeTimeUnlocked s q) (\<lambda>t. WakeUpUnlocked s q t)) (\<lambda>s1.
     if dt_target_time (task top) > from_time then Inr (None, s1) else
     bindr (at (queue_entries s1) (task_queue_id top)) (\<lambda>e.
     bindr (ts_PopTask (dt_grade (task top)) (task_source e)) (\<lambda>popped.
       let slot = grade_through_top_reference (dt_grade (task top)) popped;
           s2 = set_entry (task_queue_id top) (e\<lparr>task_source := popped\<rparr>) s1
       in Inr (Some (dt_task (task top)), s2\<lparr>tls_grade := (tls_grade s2)(thread := slot)\<rparr>)))))))"

fun sum_pending :: "(queue_id \<rightharpoonup> 'c task_queue_entry) \<Rightarrow> nat \<Rightarrow> queue_id list \<Rightarrow> nat res" where
  "sum_pending m tot [] = Inr tot"
| "sum_pending m tot (x # xs) =
     bindr (at m x) (\<lambda>e. sum_pending m (tot + ts_GetNumPendingTasks (task_source e)) xs)"

(* map: fml/message_loop_task_queues.cc fn MessageLoopTaskQueues::GetNumPendingTasks( *)
definition GetNumPendingTasks :: "'c task_queues \<Rightarrow> queue_id \<Rightarrow> nat res" where
  "GetNumPendingTasks s q =
     bindr (at (queue_entries s) q) (\<lambda>e.
       if subsumed_by e \<noteq> kUnmerged then Inr 0
       else sum_pending (queue_entries s) (ts_GetNumPendingTasks (task_source e)) (owner_of e))"

(* map: fml/message_loop_task_queues.cc fn MessageLoopTaskQueues::AddTaskObserver( *)
definition AddTaskObserver :: "'c task_queues \<Rightarrow> queue_id \<Rightarrow> int \<Rightarrow> 'c option \<Rightarrow> 'c task_queues res" where
  "AddTaskObserver s q key callback =
     (case callback of None \<Rightarrow> Inl DCheck_Failed
      | Some cb \<Rightarrow> bindr (at (queue_entries s) q) (\<lambda>e.
          Inr (set_entry q (e\<lparr>task_observers := omap_insert key cb (task_observers e)\<rparr>) s)))"

(* map: fml/message_loop_task_queues.cc fn MessageLoopTaskQueues::RemoveTaskObserver( *)
definition RemoveTaskObserver :: "'c task_queues \<Rightarrow> queue_id \<Rightarrow> int \<Rightarrow> 'c task_queues res" where
  "RemoveTaskObserver s q key =
     bindr (at (queue_entries s) q) (\<lambda>e.
       Inr (set_entry q (e\<lparr>task_observers := omap_erase key (task_observers e)\<rparr>) s))"

fun collect_observers :: "(queue_id \<rightharpoonup> 'c task_queue_entry) \<Rightarrow> 'c list \<Rightarrow> queue_id list \<Rightarrow> 'c list res" where
  "collect_observers m acc [] = Inr acc"
| "collect_observers m acc (x # xs) =
     bindr (at m x) (\<lambda>e. collect_observers m (acc @ map snd (task_observers e)) xs)"

(* map: fml/message_loop_task_queues.cc fn MessageLoopTaskQueues::GetObserversToNotify( *)
definition GetObserversToNotify :: "'c task_queues \<Rightarrow> queue_id \<Rightarrow> 'c list res" where
  "GetObserversToNotify s q =
     bindr (at (queue_entries s) q) (\<lambda>e.
       if subsumed_by e \<noteq> kUnmerged then Inr []
       else collect_observers (queue_entries s) (map snd (task_observers e)) (owner_of e))"

(* map: fml/message_loop_task_queues.cc fn MessageLoopTaskQueues::SetWakeable( *)
definition SetWakeable :: "'c task_queues \<Rightarrow> queue_id \<Rightarrow> nat option \<Rightarrow> 'c task_queues res" where
  "SetWakeable s q w =
     bindr (at (queue_entries s) q) (\<lambda>e.
     bindr (ensure Check_Failed (wakeable e = None)) (\<lambda>_. Inr (set_entry q (e\<lparr>wakeable := w\<rparr>) s)))"

(* map: fml/message_loop_task_queues.cc fn MessageLoopTaskQueues::Merge( *)
definition Merge :: "'c task_queues \<Rightarrow> queue_id \<Rightarrow> queue_id \<Rightarrow> (bool \<times> 'c task_queues) res" where
  "Merge s owner subsumed =
     (if owner = subsumed then Inr (True, s) else
      bindr (at (queue_entries s) owner) (\<lambda>owner_entry.
      bindr (at (queue_entries s) subsumed) (\<lambda>subsumed_entry.
      if subsumed \<in> set (owner_of owner_entry) then Inr (True, s)
      else if subsumed_by owner_entry \<noteq> kUnmerged then Inr (False, s)
      else if owner_of subsumed_entry \<noteq> [] then Inr (False, s)
      else if subsumed_by subsumed_entry \<noteq> kUnmerged then Inr (False, s)
      else
        let s1 = set_entry owner (owner_entry\<lparr>owner_of := oset_insert subsumed (owner_of owner_entry)\<rparr>) s;
            s2 = set_entry subsumed (subsumed_entry\<lparr>subsumed_by := owner\<rparr>) s1
        in bindr (wake_if_pending s2 owner) (\<lambda>s3. Inr (True, s3)))))"

(* map: fml/message_loop_task_queues.cc fn MessageLoopTaskQueues::Unmerge( *)
definition Unmerge :: "'c task_queues \<Rightarrow> queue_id \<Rightarrow> queue_id \<Rightarrow> (bool \<times> 'c task_queues) res" where
  "Unmerge s owner subsumed =
     bindr (at (queue_entries s) owner) (\<lambda>owner_entry.
     if owner_of owner_entry = [] then Inr (False, s)
     else if subsumed_by owner_entry \<noteq> kUnmerged then Inr (False, s)
     else bindr (at (queue_entries s) subsumed) (\<lambda>subsumed_entry.
     if subsumed_by subsumed_entry = kUnmerged then Inr (False, s)
     else if subsumed \<notin> set (owner_of owner_entry) then Inr (False, s)
     else
       let s1 = set_entry subsumed (subsumed_entry\<lparr>subsumed_by := kUnmerged\<rparr>) s in
       bindr (at (queue_entries s1) owner) (\<lambda>owner_entry'.
         let s2 = set_entry owner (owner_entry'\<lparr>owner_of := oset_erase subsumed (owner_of owner_entry')\<rparr>) s1
         in bindr (wake_if_pending s2 owner) (\<lambda>s3.
            bindr (wake_if_pending s3 subsumed) (\<lambda>s4. Inr (True, s4))))))"

(* map: fml/message_loop_task_queues.cc fn MessageLoopTaskQueues::Owns( *)
definition Owns :: "'c task_queues \<Rightarrow> queue_id \<Rightarrow> queue_id \<Rightarrow> bool res" where
  "Owns s owner subsumed =
     (if owner = kUnmerged \<or> subsumed = kUnmerged then Inr False
      else bindr (at (queue_entries s) owner) (\<lambda>e. Inr (subsumed \<in> set (owner_of e))))"

(* map: fml/message_loop_task_queues.cc fn MessageLoopTaskQueues::GetSubsumedTaskQueueId( *)
definition GetSubsumedTaskQueueId :: "'c task_queues \<Rightarrow> queue_id \<Rightarrow> queue_id list res" where
  "GetSubsumedTaskQueueId s owner = bindr (at (queue_entries s) owner) (\<lambda>e. Inr (owner_of e))"

(* map: fml/message_loop_task_queues.cc fn MessageLoopTaskQueues::PauseSecondarySource( *)
definition PauseSecondarySource :: "'c task_queues \<Rightarrow> queue_id \<Rightarrow> 'c task_queues res" where
  "PauseSecondarySource s q =
     bindr (at (queue_entries s) q) (\<lambda>e.
       Inr (set_entry q (e\<lparr>task_source := ts_PauseSecondary (task_source e)\<rparr>) s))"

(* map: fml/message_loop_task_queues.cc fn MessageLoopTaskQueues::ResumeSecondarySource( *)
definition ResumeSecondarySource :: "'c task_queues \<Rightarrow> queue_id \<Rightarrow> 'c task_queues res" where
  "ResumeSecondarySource s q =
     bindr (at (queue_entries s) q) (\<lambda>e.
     bindr (ts_ResumeSecondary (task_source e)) (\<lambda>ts.
       wake_if_pending (set_entry q (e\<lparr>task_source := ts\<rparr>) s) q))"

section \<open>The machine\<close>

text \<open>
  One call of the public interface. The step of \<open>CreateTaskQueue\<close> is taken while the 64-bit id
  counter has not reached \<open>kUnmerged\<close>: after $2^{64} - 1$ queues the id would be the sentinel.
\<close>

datatype 'c tq_op =
    Op_Create | Op_Dispose queue_id | Op_DisposeTasks queue_id
  | Op_Register queue_id 'c time_point task_source_grade
  | Op_GetNext nat queue_id time_point
  | Op_AddObserver queue_id int "'c option" | Op_RemoveObserver queue_id int
  | Op_SetWakeable queue_id "nat option"
  | Op_Merge queue_id queue_id | Op_Unmerge queue_id queue_id
  | Op_Pause queue_id | Op_Resume queue_id

fun tq_step :: "'c task_queues \<Rightarrow> 'c tq_op \<Rightarrow> 'c task_queues res" where
  "tq_step s Op_Create =
     (if task_queue_id_counter s = kUnmerged then Inl Undefined else Inr (snd (CreateTaskQueue s)))"
| "tq_step s (Op_Dispose q) = Dispose s q"
| "tq_step s (Op_DisposeTasks q) = DisposeTasks s q"
| "tq_step s (Op_Register q c t g) = RegisterTask s q c t g"
| "tq_step s (Op_GetNext th q t) = bindr (GetNextTaskToRun s th q t) (\<lambda>r. Inr (snd r))"
| "tq_step s (Op_AddObserver q k cb) = AddTaskObserver s q k cb"
| "tq_step s (Op_RemoveObserver q k) = RemoveTaskObserver s q k"
| "tq_step s (Op_SetWakeable q w) = SetWakeable s q w"
| "tq_step s (Op_Merge q x) = bindr (Merge s q x) (\<lambda>r. Inr (snd r))"
| "tq_step s (Op_Unmerge q x) = bindr (Unmerge s q x) (\<lambda>r. Inr (snd r))"
| "tq_step s (Op_Pause q) = PauseSecondarySource s q"
| "tq_step s (Op_Resume q) = ResumeSecondarySource s q"


section \<open>The invariant\<close>

text \<open>
  \<open>entry_ok\<close> is the header's list of states a queue can be in, with the pointers between owners
  and subsumed queues agreeing in both directions, and the invariant of the entry's task source.
\<close>

definition entry_ok :: "'c task_queues \<Rightarrow> queue_id \<Rightarrow> 'c task_queue_entry \<Rightarrow> bool" where
  "entry_ok s q e \<longleftrightarrow>
     q < task_queue_id_counter s \<and> created_for e = q \<and> ts_queue_id (task_source e) = q \<and>
     ts_ok (task_source e) \<and> omap_ok (task_observers e) \<and> sorted (owner_of e) \<and> distinct (owner_of e) \<and>
     (\<forall>x \<in> set (owner_of e). \<exists>e'. queue_entries s x = Some e' \<and> subsumed_by e' = q) \<and>
     (subsumed_by e \<noteq> kUnmerged \<longrightarrow> owner_of e = [] \<and>
        (\<exists>o'. queue_entries s (subsumed_by e) = Some o' \<and> q \<in> set (owner_of o')))"

definition tq_inv :: "'c task_queues \<Rightarrow> bool" where
  "tq_inv s \<longleftrightarrow> (\<forall>q e. queue_entries s q = Some e \<longrightarrow> entry_ok s q e)"

lemma tq_invD: "tq_inv s \<Longrightarrow> queue_entries s q = Some e \<Longrightarrow> entry_ok s q e"
  by (simp add: tq_inv_def)

lemma tq_inv_init: "tq_inv (MessageLoopTaskQueues thread)"
  by (simp add: tq_inv_def MessageLoopTaskQueues_def)

lemma queue_id_not_kUnmerged:
  assumes "tq_inv s" "queue_entries s q = Some e"
  shows "q \<noteq> kUnmerged"
proof
  assume "q = kUnmerged"
  moreover have "q < task_queue_id_counter s" using tq_invD [OF assms] by (simp add: entry_ok_def)
  ultimately show False by (simp add: kUnmerged_def)
qed

text \<open>The fields other than the entries and the counter do not matter for the invariant.\<close>

lemma tq_inv_cong:
  "queue_entries t = queue_entries s \<Longrightarrow> task_queue_id_counter t = task_queue_id_counter s \<Longrightarrow>
   tq_inv t \<longleftrightarrow> tq_inv s"
  by (simp add: tq_inv_def entry_ok_def)

lemma tq_inv_frames [simp]:
  "tq_inv (s\<lparr>order_counter := a\<rparr>) \<longleftrightarrow> tq_inv s"
  "tq_inv (s\<lparr>tls_grade := b\<rparr>) \<longleftrightarrow> tq_inv s"
  "tq_inv (s\<lparr>wakes := c\<rparr>) \<longleftrightarrow> tq_inv s"
  by (rule tq_inv_cong; simp)+

lemma not_self_owned:
  assumes "tq_inv s" "queue_entries s q = Some e"
  shows "q \<notin> set (owner_of e)" and "subsumed_by e \<noteq> q"
proof -
  note ok = tq_invD [OF assms] queue_id_not_kUnmerged [OF assms]
  show "q \<notin> set (owner_of e)"
  proof
    assume "q \<in> set (owner_of e)"
    with ok(1) assms(2) have "subsumed_by e = q" by (auto simp: entry_ok_def)
    with ok have "owner_of e = []" by (auto simp: entry_ok_def)
    with \<open>q \<in> set (owner_of e)\<close> show False by simp
  qed
  with ok assms(2) show "subsumed_by e \<noteq> q" by (auto simp: entry_ok_def)
qed

text \<open>An update that leaves the merge pointers of an entry alone keeps the invariant.\<close>

definition same_links :: "'c task_queue_entry \<Rightarrow> 'c task_queue_entry \<Rightarrow> bool" where
  "same_links e e' \<longleftrightarrow> owner_of e' = owner_of e \<and> subsumed_by e' = subsumed_by e \<and> created_for e' = created_for e"

lemma entry_ok_mono:
  assumes "entry_ok s k v" and "task_queue_id_counter t = task_queue_id_counter s"
    and "\<And>x e. queue_entries s x = Some e \<Longrightarrow> \<exists>e'. queue_entries t x = Some e' \<and> same_links e e'"
  shows "entry_ok t k v"
  using assms unfolding entry_ok_def same_links_def by metis

lemma entry_ok_other:
  assumes "entry_ok s k v" and "task_queue_id_counter t = task_queue_id_counter s"
    and "\<forall>y \<in> set (owner_of v). queue_entries t y = queue_entries s y"
    and "subsumed_by v \<noteq> kUnmerged \<Longrightarrow> \<exists>o'. queue_entries t (subsumed_by v) = Some o' \<and> k \<in> set (owner_of o')"
  shows "entry_ok t k v"
  using assms by (auto simp: entry_ok_def)

lemma tq_inv_update:
  assumes inv: "tq_inv s" and e: "queue_entries s q = Some e" and l: "same_links e e'"
    and src: "ts_ok (task_source e')" "ts_queue_id (task_source e') = q" "omap_ok (task_observers e')"
  shows "tq_inv (set_entry q e' s)"
proof -
  have "entry_ok (set_entry q e' s) k v" if "queue_entries (set_entry q e' s) k = Some v" for k v
  proof (cases "k = q")
    case True
    with that tq_invD [OF inv e] not_self_owned [OF inv e] l src show ?thesis
      by (fastforce simp: entry_ok_def same_links_def e)
  next
    case False
    with that have "queue_entries s k = Some v" by simp
    from tq_invD [OF inv this] show ?thesis
      by (rule entry_ok_mono) (use e l in \<open>auto simp: same_links_def\<close>)
  qed
  then show ?thesis by (simp add: tq_inv_def)
qed

lemma WakeUpUnlocked_frame:
  "WakeUpUnlocked s q t = Inr s' \<Longrightarrow>
     queue_entries s' = queue_entries s \<and> task_queue_id_counter s' = task_queue_id_counter s \<and>
     tls_grade s' = tls_grade s \<and> order_counter s' = order_counter s"
  by (auto simp: WakeUpUnlocked_def res_simps split: option.splits)

lemma wake_if_pending_frame:
  "wake_if_pending s q = Inr s' \<Longrightarrow>
     queue_entries s' = queue_entries s \<and> task_queue_id_counter s' = task_queue_id_counter s \<and>
     tls_grade s' = tls_grade s \<and> order_counter s' = order_counter s"
  by (auto simp: wake_if_pending_def res_simps dest!: WakeUpUnlocked_frame split: if_splits)

lemma wake_if_pending_inv: "wake_if_pending s q = Inr s' \<Longrightarrow> tq_inv s' \<longleftrightarrow> tq_inv s"
  by (intro tq_inv_cong) (auto dest: wake_if_pending_frame)

section \<open>The pending tasks of a queue\<close>

definition src_visible :: "(queue_id \<rightharpoonup> 'c task_queue_entry) \<Rightarrow> queue_id \<Rightarrow> 'c delayed_task multiset" where
  "src_visible m x = (case m x of None \<Rightarrow> {#} | Some e \<Rightarrow> ts_visible (task_source e))"

definition pending :: "'c task_queues \<Rightarrow> queue_id \<Rightarrow> 'c delayed_task multiset" where
  "pending s q =
     (case queue_entries s q of None \<Rightarrow> {#}
      | Some e \<Rightarrow> if subsumed_by e \<noteq> kUnmerged then {#}
          else src_visible (queue_entries s) q + sum_list (map (src_visible (queue_entries s)) (owner_of e)))"

lemma src_visible_Some [simp]: "m x = Some e \<Longrightarrow> src_visible m x = ts_visible (task_source e)"
  by (simp add: src_visible_def)

lemma pending_cong: "queue_entries t = queue_entries s \<Longrightarrow> pending t q = pending s q"
  by (cases "queue_entries s q") (simp_all add: pending_def)

lemma entry_ok_owned:
  "tq_inv s \<Longrightarrow> queue_entries s q = Some e \<Longrightarrow> x \<in> set (owner_of e) \<Longrightarrow>
     \<exists>e'. queue_entries s x = Some e' \<and> subsumed_by e' = q \<and> x \<noteq> q"
  using tq_invD [of s q e] not_self_owned [of s q e] by (auto simp: entry_ok_def)

lemma sum_list_multiset_empty: "sum_list (map f xs) = {#} \<longleftrightarrow> (\<forall>x \<in> set xs. f x = {#})"
  by (induction xs) auto

lemma in_sum_list_multiset: "u \<in># sum_list (map f xs) \<longleftrightarrow> (\<exists>x \<in> set xs. u \<in># f x)"
  by (induction xs) auto

lemma any_source_nonempty_eq:
  "\<forall>x \<in> set xs. \<exists>e. m x = Some e \<Longrightarrow>
     any_source_nonempty m xs = Inr (\<exists>x \<in> set xs. src_visible m x \<noteq> {#})"
  by (induction xs) (auto simp: ts_IsEmpty_iff)

lemma sum_pending_eq:
  "\<forall>x \<in> set xs. \<exists>e. m x = Some e \<Longrightarrow>
     sum_pending m n xs = Inr (n + size (sum_list (map (src_visible m) xs)))"
  by (induction xs arbitrary: n) (auto simp: ts_GetNumPendingTasks_size)

lemma HasPendingTasks_eq:
  assumes "tq_inv s" "queue_entries s q = Some e"
  shows "HasPendingTasksUnlocked s q = Inr (pending s q \<noteq> {#})"
proof -
  have "\<forall>x \<in> set (owner_of e). \<exists>e'. queue_entries s x = Some e'"
    using entry_ok_owned [OF assms] by blast
  then show ?thesis
    using assms(2) by (auto simp: HasPendingTasksUnlocked_def pending_def any_source_nonempty_eq
      ts_IsEmpty_iff sum_list_multiset_empty)
qed

lemma GetNumPendingTasks_eq:
  assumes "tq_inv s" "queue_entries s q = Some e"
  shows "GetNumPendingTasks s q = Inr (size (pending s q))"
proof -
  have "\<forall>x \<in> set (owner_of e). \<exists>e'. queue_entries s x = Some e'"
    using entry_ok_owned [OF assms] by blast
  then show ?thesis
    using assms(2) by (simp add: GetNumPendingTasks_def pending_def sum_pending_eq ts_GetNumPendingTasks_size)
qed

subsection \<open>The next task\<close>

text \<open>
  \<open>top_of s A M t\<close>: the candidate \<open>t\<close> is absent when \<open>M\<close> is empty, and otherwise a least task of
  \<open>M\<close> that is at the top of the source of one of the queues in \<open>A\<close>.
\<close>

definition top_of :: "(queue_id \<rightharpoonup> 'c task_queue_entry) \<Rightarrow> queue_id set \<Rightarrow> 'c delayed_task multiset
    \<Rightarrow> 'c top_task option \<Rightarrow> bool" where
  "top_of m A M t \<longleftrightarrow>
     (case t of None \<Rightarrow> M = {#}
      | Some t \<Rightarrow> task t \<in># M \<and> (\<forall>u \<in># M. \<not> task_gt (task t) u) \<and>
          task_queue_id t \<in> A \<and>
          (\<exists>e. m (task_queue_id t) = Some e \<and> ts_Top (task_source e) = Inr t \<and> ts_ok (task_source e)))"

lemma top_task_updater_top_of:
  assumes t: "top_of m A M t" and e: "m x = Some e" and ok: "ts_ok (task_source e)"
    and i: "ts_queue_id (task_source e) = x"
  shows "\<exists>t'. top_task_updater t (task_source e) = Inr t' \<and>
    top_of m (insert x A) (M + src_visible m x) t'"
proof (cases "ts_visible (task_source e) = {#}")
  case True
  then have "top_task_updater t (task_source e) = Inr t"
    by (simp add: top_task_updater_def ts_IsEmpty_iff)
  moreover have "top_of m (insert x A) (M + src_visible m x) t"
    using t e True by (auto simp: top_of_def split: option.splits)
  ultimately show ?thesis by blast
next
  case False
  then obtain o' where top: "ts_Top (task_source e) = Inr \<lparr>task_queue_id = x, task = o'\<rparr>"
      and mem: "o' \<in># ts_visible (task_source e)"
      and least: "\<And>u. u \<in># ts_visible (task_source e) \<Longrightarrow> \<not> task_gt o' u"
    using ts_Top_spec [OF ok] i by metis
  have other: "top_of m (insert x A) (M + src_visible m x) (Some \<lparr>task_queue_id = x, task = o'\<rparr>)"
    if "\<And>u. u \<in># M \<Longrightarrow> \<not> task_gt o' u"
    using that top mem least e ok by (auto simp: top_of_def)
  show ?thesis
  proof (cases t)
    case None
    with False top have "top_task_updater t (task_source e) = Inr (Some \<lparr>task_queue_id = x, task = o'\<rparr>)"
      by (simp add: top_task_updater_def ts_IsEmpty_iff)
    moreover have "\<And>u. u \<in># M \<Longrightarrow> \<not> task_gt o' u" using t None by (simp add: top_of_def)
    ultimately show ?thesis using other by blast
  next
    case (Some tt)
    have M: "\<And>u. u \<in># M \<Longrightarrow> \<not> task_gt (task tt) u" using t Some by (simp add: top_of_def)
    show ?thesis
    proof (cases "task_gt (task tt) o'")
      case True
      with False top Some have "top_task_updater t (task_source e) = Inr (Some \<lparr>task_queue_id = x, task = o'\<rparr>)"
        by (simp add: top_task_updater_def ts_IsEmpty_iff)
      moreover have "\<And>u. u \<in># M \<Longrightarrow> \<not> task_gt o' u" using M True task_gt_trans by blast
      ultimately show ?thesis using other by blast
    next
      case False': False
      with False top Some have "top_task_updater t (task_source e) = Inr (Some tt)"
        by (simp add: top_task_updater_def ts_IsEmpty_iff)
      moreover have "\<And>u. u \<in># ts_visible (task_source e) \<Longrightarrow> \<not> task_gt (task tt) u"
        using least False' not_task_gt_trans by blast
      then have "top_of m (insert x A) (M + src_visible m x) (Some tt)"
        using t Some e by (auto simp: top_of_def)
      ultimately show ?thesis by blast
    qed
  qed
qed

lemma top_task_loop_top_of:
  assumes "top_of m A M t"
    and "\<And>x. x \<in> set xs \<Longrightarrow> \<exists>e. m x = Some e \<and> ts_ok (task_source e) \<and> ts_queue_id (task_source e) = x"
  shows "\<exists>t'. top_task_loop m t xs = Inr t' \<and> top_of m (A \<union> set xs) (M + sum_list (map (src_visible m) xs)) t'"
  using assms
proof (induction xs arbitrary: t A M)
  case Nil
  then show ?case by simp
next
  case (Cons x xs)
  obtain e where e: "m x = Some e" "ts_ok (task_source e)" "ts_queue_id (task_source e) = x"
    using Cons.prems(2) [of x] by auto
  obtain t1 where t1: "top_task_updater t (task_source e) = Inr t1"
      "top_of m (insert x A) (M + src_visible m x) t1"
    using top_task_updater_top_of [OF Cons.prems(1) e] by blast
  from Cons.IH [OF t1(2)] Cons.prems(2) obtain t' where
    "top_task_loop m t1 xs = Inr t'"
    "top_of m (insert x A \<union> set xs) (M + src_visible m x + sum_list (map (src_visible m) xs)) t'"
    by auto
  with e t1(1) show ?case by (auto simp: add.assoc)
qed

lemma PeekNextTaskUnlocked_spec:
  assumes inv: "tq_inv s" and e: "queue_entries s q = Some e" and ne: "pending s q \<noteq> {#}"
  shows "\<exists>t. PeekNextTaskUnlocked s q = Inr t \<and>
    top_of (queue_entries s) (insert q (set (owner_of e))) (pending s q) (Some t)"
proof -
  let ?m = "queue_entries s"
  have un: "subsumed_by e = kUnmerged" using e ne by (auto simp: pending_def split: if_splits)
  have ok: "ts_ok (task_source e)" "ts_queue_id (task_source e) = q"
    using tq_invD [OF inv e] by (auto simp: entry_ok_def)
  have owned: "\<exists>e'. ?m x = Some e' \<and> ts_ok (task_source e') \<and> ts_queue_id (task_source e') = x"
    if "x \<in> set (owner_of e)" for x
    using entry_ok_owned [OF inv e that] tq_invD [OF inv] by (fastforce simp: entry_ok_def)
  show ?thesis
  proof (cases "owner_of e = []")
    case True
    with e un ne have v: "pending s q = ts_visible (task_source e)" by (simp add: pending_def)
    then obtain t where t: "ts_Top (task_source e) = Inr \<lparr>task_queue_id = q, task = t\<rparr>"
      "t \<in># ts_visible (task_source e)" "\<And>u. u \<in># ts_visible (task_source e) \<Longrightarrow> \<not> task_gt t u"
      using ts_Top_spec [OF ok(1)] ne ok(2) by metis
    with True e v ne ok show ?thesis
      by (auto simp: PeekNextTaskUnlocked_def HasPendingTasks_eq [OF inv e] ts_IsEmpty_iff top_of_def)
  next
    case False
    have "top_of ?m {} {#} None" by (simp add: top_of_def)
    from top_task_updater_top_of [OF this e ok] obtain t1 where
      t1: "top_task_updater None (task_source e) = Inr t1" "top_of ?m {q} (src_visible ?m q) t1"
      by auto
    from top_task_loop_top_of [OF t1(2) owned] obtain t' where
      t': "top_task_loop ?m t1 (owner_of e) = Inr t'"
      "top_of ?m (insert q (set (owner_of e))) (src_visible ?m q + sum_list (map (src_visible ?m) (owner_of e))) t'"
      by auto
    then have top: "top_of ?m (insert q (set (owner_of e))) (pending s q) t'"
      using e un by (simp add: pending_def)
    then obtain t'' where "t' = Some t''" using ne by (cases t') (auto simp: top_of_def)
    with False e t1(1) t'(1) top ne show ?thesis
      by (auto simp: PeekNextTaskUnlocked_def HasPendingTasks_eq [OF inv e])
  qed
qed


subsection \<open>Waking up\<close>

text \<open>The wake-up of a queue with pending tasks is at the earliest of their target times.\<close>

definition wakes_at :: "'c task_queues \<Rightarrow> 'c delayed_task multiset \<Rightarrow> 'c task_queue_entry
    \<Rightarrow> (nat \<times> time_point) list \<Rightarrow> bool" where
  "wakes_at s M e ws \<longleftrightarrow>
     (if M = {#} \<or> wakeable e = None then ws = wakes s
      else \<exists>t \<in># M. (\<forall>u \<in># M. dt_target_time t \<le> dt_target_time u) \<and>
             ws = (the (wakeable e), dt_target_time t) # wakes s)"

lemma not_task_gt_time: "\<not> task_gt a b \<Longrightarrow> dt_target_time a \<le> dt_target_time b"
  by (auto simp: task_gt_def split: if_splits)

lemma wake_if_pending_spec:
  assumes inv: "tq_inv s" and e: "queue_entries s q = Some e"
  shows "\<exists>s'. wake_if_pending s q = Inr s' \<and> wakes_at s (pending s q) e (wakes s')"
proof (cases "pending s q = {#}")
  case True
  then show ?thesis
    by (simp add: wake_if_pending_def HasPendingTasks_eq [OF inv e] wakes_at_def)
next
  case False
  from PeekNextTaskUnlocked_spec [OF inv e False] obtain t where
    "PeekNextTaskUnlocked s q = Inr t" "task t \<in># pending s q"
    "\<And>u. u \<in># pending s q \<Longrightarrow> dt_target_time (task t) \<le> dt_target_time u"
    by (auto simp: top_of_def dest: not_task_gt_time)
  with False e show ?thesis
    by (auto simp: wake_if_pending_def HasPendingTasks_eq [OF inv e] wakes_at_def
      GetNextWakeTimeUnlocked_def WakeUpUnlocked_def split: option.splits)
qed

section \<open>Every operation keeps the invariant\<close>

lemma CreateTaskQueue_inv:
  assumes inv: "tq_inv s" and c: "task_queue_id_counter s \<noteq> kUnmerged"
  shows "tq_inv (snd (CreateTaskQueue s))"
proof -
  let ?i = "task_queue_id_counter s"
  from c have "1 + ?i \<noteq> 0" by (simp add: kUnmerged_def add_eq_0_iff)
  then have "unat (1 + ?i) = Suc (unat ?i)" by (rule unatSuc)
  then have up: "x < ?i + 1" if "x \<le> ?i" for x
    using that by (simp add: word_less_nat_alt word_le_nat_alt add.commute)
  have none: "queue_entries s ?i = None"
    using tq_invD [OF inv] by (cases "queue_entries s ?i") (auto simp: entry_ok_def)
  have "entry_ok (snd (CreateTaskQueue s)) k v" if v: "queue_entries (snd (CreateTaskQueue s)) k = Some v" for k v
  proof (cases "k = ?i")
    case True
    with v up show ?thesis
      by (auto simp: entry_ok_def CreateTaskQueue_def Let_def TaskQueueEntry_def TaskSource_def ts_ok_def)
  next
    case False
    with v have v': "queue_entries s k = Some v" by (simp add: CreateTaskQueue_def Let_def)
    have "k < ?i" using tq_invD [OF inv v'] by (simp add: entry_ok_def)
    with tq_invD [OF inv v'] up [of k] none show ?thesis
      by (auto simp: entry_ok_def CreateTaskQueue_def Let_def)
  qed
  then show ?thesis by (simp add: tq_inv_def)
qed

lemma Dispose_inv:
  assumes inv: "tq_inv s" and d: "Dispose s q = Inr s'"
  shows "tq_inv s'"
proof -
  from d obtain e where e: "queue_entries s q = Some e" and un: "subsumed_by e = kUnmerged"
    and s': "s' = erase_entries [q] (erase_entries (owner_of e) s)"
    by (auto simp: Dispose_def res_simps)
  have q: "q \<noteq> kUnmerged" by (rule queue_id_not_kUnmerged [OF inv e])
  have sub: "subsumed_by e' = q" if "x \<in> set (owner_of e)" "queue_entries s x = Some e'" for x e'
    using entry_ok_owned [OF inv e that(1)] that(2) by auto
  have "entry_ok s' k v" if v: "queue_entries s' k = Some v" for k v
  proof -
    from v have v': "queue_entries s k = Some v" and k: "k \<noteq> q" "k \<notin> set (owner_of e)"
      by (auto simp: s' erase_entries_def split: if_splits)
    note ok = tq_invD [OF inv v']
    have kn: "k \<noteq> kUnmerged" by (rule queue_id_not_kUnmerged [OF inv v'])
    have keep: "x \<noteq> q \<and> x \<notin> set (owner_of e)" if "x \<in> set (owner_of v)" for x
      using entry_ok_owned [OF inv v' that] e un kn sub k(1) by auto
    have own: "subsumed_by v \<noteq> q \<and> subsumed_by v \<notin> set (owner_of e)" if "subsumed_by v \<noteq> kUnmerged"
    proof -
      from ok that obtain o' where o': "queue_entries s (subsumed_by v) = Some o'" "k \<in> set (owner_of o')"
        by (auto simp: entry_ok_def)
      then have "subsumed_by o' = kUnmerged"
        using tq_invD [OF inv o'(1)] by (auto simp: entry_ok_def)
      with o' e k q sub show ?thesis by auto
    qed
    from ok keep own show ?thesis
      by (auto simp: entry_ok_def s' erase_entries_def)
  qed
  then show ?thesis by (simp add: tq_inv_def)
qed

lemma source_update_inv:
  assumes "tq_inv s" "queue_entries s q = Some e" "ts_ok ts" "ts_queue_id ts = q"
  shows "tq_inv (set_entry q (e\<lparr>task_source := ts\<rparr>) s)"
  using assms tq_invD [OF assms(1,2)] by (intro tq_inv_update) (auto simp: same_links_def entry_ok_def)

lemma ts_queue_id_frames [simp]:
  "ts_queue_id (ts_ShutDown ts) = ts_queue_id ts"
  "ts_queue_id (ts_RegisterTask t ts) = ts_queue_id ts"
  "ts_queue_id (ts_PauseSecondary ts) = ts_queue_id ts"
  "ts_ResumeSecondary ts = Inr ts' \<Longrightarrow> ts_queue_id ts' = ts_queue_id ts"
  by (auto simp: ts_ShutDown_def ts_RegisterTask_def ts_PauseSecondary_def ts_ResumeSecondary_def
    Let_def res_simps split: task_source_grade.splits)

lemma entry_source_ok:
  "tq_inv s \<Longrightarrow> queue_entries s q = Some e \<Longrightarrow> ts_ok (task_source e) \<and> ts_queue_id (task_source e) = q"
  by (drule (1) tq_invD) (simp add: entry_ok_def)

lemma shut_down_all_inv: "tq_inv s \<Longrightarrow> shut_down_all s xs = Inr s' \<Longrightarrow> tq_inv s'"
proof (induction xs arbitrary: s)
  case (Cons x xs)
  then obtain e where e: "queue_entries s x = Some e"
    and r: "shut_down_all (set_entry x (e\<lparr>task_source := ts_ShutDown (task_source e)\<rparr>) s) xs = Inr s'"
    by (auto simp: res_simps)
  from Cons.prems(1) e entry_source_ok [of s x e]
  have "tq_inv (set_entry x (e\<lparr>task_source := ts_ShutDown (task_source e)\<rparr>) s)"
    by (intro source_update_inv) (auto simp: ts_ok_ShutDown)
  then show ?case using r by (rule Cons.IH)
qed simp

lemma DisposeTasks_inv: "tq_inv s \<Longrightarrow> DisposeTasks s q = Inr s' \<Longrightarrow> tq_inv s'"
  unfolding DisposeTasks_def by (auto simp only: res_simps intro: shut_down_all_inv)

definition register_state :: "'c task_queues \<Rightarrow> queue_id \<Rightarrow> 'c task_queue_entry \<Rightarrow> 'c \<Rightarrow> time_point
    \<Rightarrow> task_source_grade \<Rightarrow> 'c task_queues" where
  "register_state s q e c t g =
     set_entry q (e\<lparr>task_source :=
       ts_RegisterTask (DelayedTask (scast (order_counter s)) c t g) (task_source e)\<rparr>)
       (s\<lparr>order_counter := order_counter s + 1\<rparr>)"

lemma register_state_inv:
  assumes "tq_inv s" "queue_entries s q = Some e"
  shows "tq_inv (register_state s q e c t g)"
  unfolding register_state_def using entry_source_ok [OF assms] assms
  by (intro source_update_inv) (auto simp: ts_ok_RegisterTask)

lemma RegisterTask_eq:
  "queue_entries s q = Some e \<Longrightarrow>
     RegisterTask s q c t g = wake_if_pending (register_state s q e c t g)
       (if subsumed_by e \<noteq> kUnmerged then subsumed_by e else q)"
  by (simp add: RegisterTask_def register_state_def Let_def)

lemma RegisterTask_inv: "tq_inv s \<Longrightarrow> RegisterTask s q c t g = Inr s' \<Longrightarrow> tq_inv s'"
proof (cases "queue_entries s q")
  case (Some e)
  assume "tq_inv s" "RegisterTask s q c t g = Inr s'"
  with Some show ?thesis
    using wake_if_pending_inv register_state_inv by (metis RegisterTask_eq)
qed (simp add: RegisterTask_def Let_def)

lemma AddTaskObserver_inv: "tq_inv s \<Longrightarrow> AddTaskObserver s q k cb = Inr s' \<Longrightarrow> tq_inv s'"
  by (auto simp: AddTaskObserver_def res_simps entry_ok_def same_links_def split: option.splits
    dest: tq_invD intro!: tq_inv_update omap_ok_insert)

lemma RemoveTaskObserver_inv: "tq_inv s \<Longrightarrow> RemoveTaskObserver s q k = Inr s' \<Longrightarrow> tq_inv s'"
  by (auto simp: RemoveTaskObserver_def res_simps entry_ok_def same_links_def
    dest: tq_invD intro!: tq_inv_update omap_ok_erase)

lemma SetWakeable_inv: "tq_inv s \<Longrightarrow> SetWakeable s q w = Inr s' \<Longrightarrow> tq_inv s'"
  by (auto simp: SetWakeable_def res_simps entry_ok_def same_links_def
    dest: tq_invD intro!: tq_inv_update)

lemma PauseSecondarySource_inv: "tq_inv s \<Longrightarrow> PauseSecondarySource s q = Inr s' \<Longrightarrow> tq_inv s'"
  using entry_source_ok [of s q]
  by (auto simp: PauseSecondarySource_def res_simps intro!: source_update_inv ts_ok_PauseSecondary)

lemma ResumeSecondarySource_inv: "tq_inv s \<Longrightarrow> ResumeSecondarySource s q = Inr s' \<Longrightarrow> tq_inv s'"
  using entry_source_ok [of s q]
  by (auto simp: ResumeSecondarySource_def res_simps wake_if_pending_inv
    intro!: source_update_inv intro: ts_ok_ResumeSecondary)

subsection \<open>Merging and unmerging\<close>

lemma link_inv:
  assumes inv: "tq_inv s" and o': "queue_entries s ow = Some eo" and x: "queue_entries s x = Some ex"
    and ne: "ow \<noteq> x" and un: "subsumed_by eo = kUnmerged" "owner_of ex = []" "subsumed_by ex = kUnmerged"
  shows "tq_inv (set_entry x (ex\<lparr>subsumed_by := ow\<rparr>)
           (set_entry ow (eo\<lparr>owner_of := oset_insert x (owner_of eo)\<rparr>) s))" (is "tq_inv ?t")
proof -
  note own = queue_id_not_kUnmerged [OF inv o']
  have "entry_ok ?t k v" if v: "queue_entries ?t k = Some v" for k v
  proof -
    consider "k = x" | "k = ow" | (other) "k \<noteq> x" "k \<noteq> ow" by blast
    then show ?thesis
    proof cases
      case 1
      with v tq_invD [OF inv x] un ne show ?thesis by (auto simp: entry_ok_def)
    next
      case 2
      with v ne have v: "v = eo\<lparr>owner_of := oset_insert x (owner_of eo)\<rparr>" by simp
      have "x \<notin> set (owner_of eo)"
        using entry_ok_owned [OF inv o', of x] x un own by auto
      with 2 v tq_invD [OF inv o'] not_self_owned [OF inv o'] un ne
      show ?thesis by (auto simp: entry_ok_def oset_insert_strict)
    next
      case other
      with v have v': "queue_entries s k = Some v" by simp
      note ok = tq_invD [OF inv v']
      have nox: "x \<notin> set (owner_of v)"
        using entry_ok_owned [OF inv v', of x] x un queue_id_not_kUnmerged [OF inv v'] by auto
      have noo: "ow \<notin> set (owner_of v)"
        using entry_ok_owned [OF inv v', of ow] o' un queue_id_not_kUnmerged [OF inv v'] by auto
      have nsx: "subsumed_by v \<noteq> kUnmerged \<Longrightarrow> subsumed_by v \<noteq> x"
        using ok x un by (auto simp: entry_ok_def)
      show ?thesis
      proof (rule entry_ok_other [OF ok])
        show "\<forall>y \<in> set (owner_of v). queue_entries ?t y = queue_entries s y" using nox noo by auto
        assume "subsumed_by v \<noteq> kUnmerged"
        with ok nsx o' other show "\<exists>o'. queue_entries ?t (subsumed_by v) = Some o' \<and> k \<in> set (owner_of o')"
          by (cases "subsumed_by v = ow") (auto simp: entry_ok_def)
      qed simp
    qed
  qed
  then show ?thesis by (simp add: tq_inv_def)
qed

lemma unlink_inv:
  assumes inv: "tq_inv s" and o': "queue_entries s ow = Some eo" and x: "queue_entries s x = Some ex"
    and own: "x \<in> set (owner_of eo)"
  shows "tq_inv (set_entry ow (eo\<lparr>owner_of := oset_erase x (owner_of eo)\<rparr>)
           (set_entry x (ex\<lparr>subsumed_by := kUnmerged\<rparr>) s))" (is "tq_inv ?t")
proof -
  have ex: "subsumed_by ex = ow" and ne: "x \<noteq> ow" using entry_ok_owned [OF inv o' own] x by auto
  have un: "subsumed_by eo = kUnmerged" using tq_invD [OF inv o'] own by (auto simp: entry_ok_def)
  have "entry_ok ?t k v" if v: "queue_entries ?t k = Some v" for k v
  proof -
    consider "k = x" | "k = ow" | (other) "k \<noteq> x" "k \<noteq> ow" by blast
    then show ?thesis
    proof cases
      case 1
      with v tq_invD [OF inv x] ex ne queue_id_not_kUnmerged [OF inv o'] show ?thesis
        by (auto simp: entry_ok_def)
    next
      case 2
      with v tq_invD [OF inv o'] not_self_owned [OF inv o'] un ne show ?thesis
        by (auto simp: entry_ok_def oset_erase_strict)
    next
      case other
      with v have v': "queue_entries s k = Some v" by simp
      note ok = tq_invD [OF inv v']
      have nox: "x \<notin> set (owner_of v)"
        using entry_ok_owned [OF inv v', of x] x ex other by auto
      have noo: "ow \<notin> set (owner_of v)"
        using entry_ok_owned [OF inv v', of ow] o' un queue_id_not_kUnmerged [OF inv v'] by auto
      have nsx: "subsumed_by v \<noteq> kUnmerged \<Longrightarrow> subsumed_by v \<noteq> x"
        using ok x tq_invD [OF inv x] ex queue_id_not_kUnmerged [OF inv o'] by (auto simp: entry_ok_def)
      show ?thesis
      proof (rule entry_ok_other [OF ok])
        show "\<forall>y \<in> set (owner_of v). queue_entries ?t y = queue_entries s y" using nox noo by auto
        assume "subsumed_by v \<noteq> kUnmerged"
        with ok nsx o' other show "\<exists>o'. queue_entries ?t (subsumed_by v) = Some o' \<and> k \<in> set (owner_of o')"
          by (cases "subsumed_by v = ow") (auto simp: entry_ok_def)
      qed simp
    qed
  qed
  then show ?thesis by (simp add: tq_inv_def)
qed

lemma Merge_inv: "tq_inv s \<Longrightarrow> Merge s ow x = Inr (b, s') \<Longrightarrow> tq_inv s'"
  by (auto simp: Merge_def res_simps Let_def wake_if_pending_inv link_inv [simplified] split: if_splits)

lemma Unmerge_inv: "tq_inv s \<Longrightarrow> Unmerge s ow x = Inr (b, s') \<Longrightarrow> tq_inv s'"
  by (auto simp: Unmerge_def res_simps Let_def wake_if_pending_inv unlink_inv [simplified] split: if_splits)


section \<open>Running the next task\<close>

lemma sum_list_update_multiset:
  assumes "x \<in> set xs" "distinct xs" "t \<in># f x" "f' x = f x - {#t#}" "\<And>y. y \<noteq> x \<Longrightarrow> f' y = f y"
  shows "sum_list (map f' xs) = sum_list (map f xs) - {#t#}"
  using assms(1,2)
proof (induction xs)
  case (Cons y ys)
  show ?case
  proof (cases "y = x")
    case True
    with Cons.prems have "sum_list (map f' ys) = sum_list (map f ys)"
      by (intro arg_cong [where f = sum_list] map_cong refl assms(5)) auto
    with True assms(3,4) show ?thesis by simp
  next
    case False
    with Cons have "sum_list (map f' ys) = sum_list (map f ys) - {#t#}" by simp
    moreover have "t \<in># sum_list (map f ys)"
      using Cons.prems False assms(3) by (auto simp: in_sum_list_multiset)
    moreover have "f' y = f y" using False by (rule assms(5))
    ultimately show ?thesis by (simp only: list.map sum_list.Cons diff_union_single_conv)
  qed
qed simp

text \<open>Removing the least task from the source that holds it removes it from the queue's pending tasks.\<close>

lemma pending_pop:
  assumes inv: "tq_inv s" and e: "queue_entries s q = Some e" and un: "subsumed_by e = kUnmerged"
    and x: "x \<in> insert q (set (owner_of e))" and ex: "queue_entries s x = Some ex"
    and t: "t \<in># ts_visible (task_source ex)" and v: "ts_visible ts = ts_visible (task_source ex) - {#t#}"
    and m: "queue_entries s' = (queue_entries s)(x \<mapsto> ex\<lparr>task_source := ts\<rparr>)"
  shows "pending s' q = pending s q - {#t#}"
proof -
  let ?f = "src_visible (queue_entries s)" and ?f' = "src_visible (queue_entries s')"
  have f: "t \<in># ?f x" "?f' x = ?f x - {#t#}" "\<And>y. y \<noteq> x \<Longrightarrow> ?f' y = ?f y"
    using t v ex m by (auto simp: src_visible_def)
  have q: "q \<notin> set (owner_of e)" and d: "distinct (owner_of e)"
    using not_self_owned [OF inv e] tq_invD [OF inv e] by (auto simp: entry_ok_def)
  show ?thesis
  proof (cases "x = q")
    case True
    with q have "sum_list (map ?f' (owner_of e)) = sum_list (map ?f (owner_of e))"
      by (intro arg_cong [where f = sum_list] map_cong refl f(3)) auto
    moreover have "pending s' q = ?f' q + sum_list (map ?f' (owner_of e))"
      using True m e ex un by (simp add: pending_def)
    moreover have "pending s q = ?f q + sum_list (map ?f (owner_of e))"
      using e un by (simp add: pending_def)
    moreover have "?f q = add_mset t (?f' q)" using True f(1,2) by simp
    ultimately show ?thesis by simp
  next
    case False
    with x have xo: "x \<in> set (owner_of e)" by simp
    have "sum_list (map ?f' (owner_of e)) = sum_list (map ?f (owner_of e)) - {#t#}"
      by (rule sum_list_update_multiset [where f = ?f and f' = ?f' and x = x]) (use xo d f in auto)
    moreover have "t \<in># sum_list (map ?f (owner_of e))" using xo f(1) by (auto simp: in_sum_list_multiset)
    moreover have "pending s' q = ?f' q + sum_list (map ?f' (owner_of e))"
      using False m e un by (simp add: pending_def)
    moreover have "pending s q = ?f q + sum_list (map ?f (owner_of e))"
      using e un by (simp add: pending_def)
    moreover have "?f' q = ?f q" using False by (intro f(3)) simp
    ultimately show ?thesis by (simp only: diff_union_single_conv)
  qed
qed

text \<open>
  \<open>run_post s q e now r s'\<close>: what \<open>GetNextTaskToRun\<close> promises. Either no task of the queue and its
  subsumed queues is due and nothing but the wake log changes, or the closure returned is that
  of a least pending task, which is due and is removed from the one source that holds it.
\<close>

definition run_post :: "'c task_queues \<Rightarrow> queue_id \<Rightarrow> 'c task_queue_entry \<Rightarrow> time_point
    \<Rightarrow> 'c option \<Rightarrow> 'c task_queues \<Rightarrow> bool" where
  "run_post s q e now r s' \<longleftrightarrow>
     (case r of
        None \<Rightarrow> queue_entries s' = queue_entries s \<and> (\<forall>u \<in># pending s q. now < dt_target_time u)
      | Some c \<Rightarrow> \<exists>t \<in># pending s q. dt_task t = c \<and> dt_target_time t \<le> now \<and>
          (\<forall>u \<in># pending s q. \<not> task_gt t u) \<and>
          pending s' q = pending s q - {#t#} \<and>
          (\<exists>x ex ts. x \<in> insert q (set (owner_of e)) \<and> queue_entries s x = Some ex \<and>
             queue_entries s' = (queue_entries s)(x \<mapsto> ex\<lparr>task_source := ts\<rparr>) \<and>
             ts_all ts = ts_all (task_source ex) - {#t#}))"

lemma ts_Top_visible:
  assumes "ts_ok ts" "ts_Top ts = Inr t"
  shows "task t \<in># ts_visible ts"
proof -
  have "ts_visible ts \<noteq> {#}" using assms(2) by (auto simp: ts_Top_def res_simps ts_IsEmpty_iff)
  from ts_Top_spec [OF assms(1) this] assms(2) show ?thesis by (metis Inr_inject top_task.select_convs(2))
qed

lemma GetNextTaskToRun_post:
  assumes inv: "tq_inv s" and e: "queue_entries s q = Some e"
  shows "\<exists>r s'. GetNextTaskToRun s thread q now = Inr (r, s') \<and> tq_inv s' \<and> run_post s q e now r s' \<and>
           wakes_at s (pending s q) e (wakes s')"
proof (cases "pending s q = {#}")
  case True
  with inv show ?thesis
    by (auto simp: GetNextTaskToRun_def HasPendingTasks_eq [OF inv e] run_post_def wakes_at_def)
next
  case ne: False
  have un: "subsumed_by e = kUnmerged" using e ne by (auto simp: pending_def split: if_splits)
  from PeekNextTaskUnlocked_spec [OF inv e ne] obtain t ex where
    peek: "PeekNextTaskUnlocked s q = Inr t" and mem: "task t \<in># pending s q"
    and least: "\<And>u. u \<in># pending s q \<Longrightarrow> \<not> task_gt (task t) u"
    and x: "task_queue_id t \<in> insert q (set (owner_of e))"
    and ex: "queue_entries s (task_queue_id t) = Some ex"
    and top: "ts_Top (task_source ex) = Inr t" and ok: "ts_ok (task_source ex)"
    by (auto simp: top_of_def)
  define s1 where "s1 = s\<lparr>wakes := (case wakeable e of None \<Rightarrow> wakes s
      | Some w \<Rightarrow> (w, dt_target_time (task t)) # wakes s)\<rparr>"
  have wake: "WakeUpUnlocked s q (dt_target_time (task t)) = Inr s1"
    using e by (auto simp: WakeUpUnlocked_def s1_def split: option.splits)
  have wa: "wakes_at s (pending s q) e (wakes s1)"
    using mem not_task_gt_time [OF least] by (auto simp: wakes_at_def s1_def intro!: bexI [of _ "task t"])
  have entries: "queue_entries s1 = queue_entries s" by (simp add: s1_def)
  show ?thesis
  proof (cases "dt_target_time (task t) > now")
    case True
    then have "GetNextTaskToRun s thread q now = Inr (None, s1)"
      by (simp add: GetNextTaskToRun_def HasPendingTasks_eq [OF inv e] ne peek
        GetNextWakeTimeUnlocked_def wake)
    moreover have "tq_inv s1" using inv by (simp add: s1_def)
    moreover have "run_post s q e now None s1"
      using True least by (force simp: run_post_def entries dest: not_task_gt_time)
    ultimately show ?thesis using wa by blast
  next
    case False
    obtain ts where pop: "ts_PopTask (dt_grade (task t)) (task_source ex) = Inr ts"
      and v: "ts_visible ts = ts_visible (task_source ex) - {#task t#}" and tsok: "ts_ok ts"
      and i: "ts_queue_id ts = ts_queue_id (task_source ex)" and all: "ts_all ts = ts_all (task_source ex) - {#task t#}"
      using ts_PopTask_Top [OF ok top] by metis
    define s2 where "s2 = set_entry (task_queue_id t) (ex\<lparr>task_source := ts\<rparr>) s1"
    define s3 where "s3 = s2\<lparr>tls_grade := (tls_grade s2)(thread := grade_through_top_reference (dt_grade (task t)) ts)\<rparr>"
    have run: "GetNextTaskToRun s thread q now = Inr (Some (dt_task (task t)), s3)"
      using False by (simp add: GetNextTaskToRun_def HasPendingTasks_eq [OF inv e] ne peek
        GetNextWakeTimeUnlocked_def wake entries ex pop s3_def s2_def Let_def)
    have m: "queue_entries s3 = (queue_entries s)(task_queue_id t \<mapsto> ex\<lparr>task_source := ts\<rparr>)"
      by (simp add: s3_def s2_def entries)
    have "tq_inv s2" unfolding s2_def
      using inv ex entries tsok i entry_source_ok [OF inv ex]
      by (intro source_update_inv) (simp_all add: s1_def)
    then have "tq_inv s3" by (simp add: s3_def)
    moreover have "pending s3 q = pending s q - {#task t#}"
      by (rule pending_pop [OF inv e un x ex ts_Top_visible [OF ok top] v m])
    then have "run_post s q e now (Some (dt_task (task t))) s3"
      unfolding run_post_def using False mem least m x ex all by (auto intro!: bexI [of _ "task t"])
    moreover have "wakes s3 = wakes s1" by (simp add: s3_def s2_def)
    ultimately show ?thesis using run wa by auto
  qed
qed

lemma GetNextTaskToRun_inv: "tq_inv s \<Longrightarrow> GetNextTaskToRun s th q t = Inr (r, s') \<Longrightarrow> tq_inv s'"
proof (cases "queue_entries s q")
  case (Some e)
  assume "tq_inv s" "GetNextTaskToRun s th q t = Inr (r, s')"
  with GetNextTaskToRun_post [OF this(1) Some, of th t] show ?thesis by auto
qed (simp add: GetNextTaskToRun_def HasPendingTasksUnlocked_def)

section \<open>The task queues as a machine\<close>

interpretation tq: guarded_machine tq_step tq_inv
proof
  show "tq_inv s'" if "tq_inv s" "tq_step s e = Inr s'" for s s' :: "'c task_queues" and e
    using that
  proof (cases e)
    case Op_Create
    with that show ?thesis by (auto simp: CreateTaskQueue_inv split: if_splits)
  next
    case (Op_Dispose q)
    with that show ?thesis by (auto simp: bindr_eq_Inr dest: Dispose_inv)
  next
    case (Op_DisposeTasks q)
    with that show ?thesis by (auto simp: bindr_eq_Inr dest: DisposeTasks_inv)
  next
    case (Op_Register q c t g)
    with that show ?thesis by (auto simp: bindr_eq_Inr dest: RegisterTask_inv)
  next
    case (Op_GetNext th q t)
    with that show ?thesis by (auto simp: bindr_eq_Inr dest: GetNextTaskToRun_inv)
  next
    case (Op_AddObserver q k cb)
    with that show ?thesis by (auto simp: bindr_eq_Inr dest: AddTaskObserver_inv)
  next
    case (Op_RemoveObserver q k)
    with that show ?thesis by (auto simp: bindr_eq_Inr dest: RemoveTaskObserver_inv)
  next
    case (Op_SetWakeable q w)
    with that show ?thesis by (auto simp: bindr_eq_Inr dest: SetWakeable_inv)
  next
    case (Op_Merge q x)
    with that show ?thesis by (auto simp: bindr_eq_Inr dest: Merge_inv)
  next
    case (Op_Unmerge q x)
    with that show ?thesis by (auto simp: bindr_eq_Inr dest: Unmerge_inv)
  next
    case (Op_Pause q)
    with that show ?thesis by (auto simp: bindr_eq_Inr dest: PauseSecondarySource_inv)
  next
    case (Op_Resume q)
    with that show ?thesis by (auto simp: bindr_eq_Inr dest: ResumeSecondarySource_inv)
  qed
qed

subsection \<open>Merged queues\<close>

lemma Merge_fresh:
  assumes inv: "tq_inv s" and o': "queue_entries s ow = Some eo" and x: "queue_entries s x = Some ex"
    and ne: "ow \<noteq> x" and un: "subsumed_by eo = kUnmerged" "owner_of ex = []" "subsumed_by ex = kUnmerged"
    and nm: "x \<notin> set (owner_of eo)"
  shows "\<exists>s'. Merge s ow x = Inr (True, s') \<and> tq_inv s' \<and>
    queue_entries s' = (queue_entries s)(ow \<mapsto> eo\<lparr>owner_of := oset_insert x (owner_of eo)\<rparr>,
                                         x \<mapsto> ex\<lparr>subsumed_by := ow\<rparr>)"
proof -
  let ?t = "set_entry x (ex\<lparr>subsumed_by := ow\<rparr>)
              (set_entry ow (eo\<lparr>owner_of := oset_insert x (owner_of eo)\<rparr>) s)"
  have inv': "tq_inv ?t" by (rule link_inv [OF inv o' x ne un])
  have "queue_entries ?t ow = Some (eo\<lparr>owner_of := oset_insert x (owner_of eo)\<rparr>)" using ne by simp
  from wake_if_pending_spec [OF inv' this] obtain s' where s': "wake_if_pending ?t ow = Inr s'" by blast
  then have "Merge s ow x = Inr (True, s')"
    using o' x ne un nm by (simp add: Merge_def Let_def)
  with s' inv' show ?thesis using wake_if_pending_frame [OF s'] wake_if_pending_inv [OF s'] by auto
qed

lemma Unmerge_owned:
  assumes inv: "tq_inv s" and o': "queue_entries s ow = Some eo" and x: "queue_entries s x = Some ex"
    and own: "x \<in> set (owner_of eo)"
  shows "\<exists>s'. Unmerge s ow x = Inr (True, s') \<and> tq_inv s' \<and>
    queue_entries s' = (queue_entries s)(x \<mapsto> ex\<lparr>subsumed_by := kUnmerged\<rparr>,
                                         ow \<mapsto> eo\<lparr>owner_of := oset_erase x (owner_of eo)\<rparr>)"
proof -
  let ?t = "set_entry ow (eo\<lparr>owner_of := oset_erase x (owner_of eo)\<rparr>)
              (set_entry x (ex\<lparr>subsumed_by := kUnmerged\<rparr>) s)"
  have inv': "tq_inv ?t" by (rule unlink_inv [OF inv o' x own])
  have ex: "subsumed_by ex = ow" and ne: "x \<noteq> ow" using entry_ok_owned [OF inv o' own] x by auto
  have un: "subsumed_by eo = kUnmerged" using tq_invD [OF inv o'] own by (auto simp: entry_ok_def)
  have "queue_entries ?t ow = Some (eo\<lparr>owner_of := oset_erase x (owner_of eo)\<rparr>)" by simp
  from wake_if_pending_spec [OF inv' this] obtain s1 where s1: "wake_if_pending ?t ow = Inr s1" by blast
  then have inv1: "tq_inv s1" using wake_if_pending_inv inv' by blast
  have "queue_entries s1 x = Some (ex\<lparr>subsumed_by := kUnmerged\<rparr>)"
    using wake_if_pending_frame [OF s1] ne by simp
  from wake_if_pending_spec [OF inv1 this] obtain s2 where s2: "wake_if_pending s1 x = Inr s2" by blast
  have "Unmerge s ow x = Inr (True, s2)"
    using o' x ne un own ex s1 s2 queue_id_not_kUnmerged [OF inv o'] by (auto simp: Unmerge_def Let_def)
  with inv1 show ?thesis using wake_if_pending_frame [OF s1] wake_if_pending_frame [OF s2]
    wake_if_pending_inv [OF s2] by auto
qed


lemma sum_list_grow_multiset:
  fixes f f' :: "'a \<Rightarrow> 'b multiset"
  assumes "x \<in> set xs" "distinct xs" "f' x = M + f x" "\<And>y. y \<noteq> x \<Longrightarrow> f' y = f y"
  shows "sum_list (map f' xs) = M + sum_list (map f xs)"
  using assms(1,2)
proof (induction xs)
  case (Cons y ys)
  show ?case
  proof (cases "y = x")
    case True
    with Cons.prems have "sum_list (map f' ys) = sum_list (map f ys)"
      by (intro arg_cong [where f = sum_list] map_cong refl assms(4)) auto
    with True assms(3) show ?thesis by (simp add: add.assoc)
  next
    case False
    with Cons have "sum_list (map f' ys) = M + sum_list (map f ys)" by simp
    moreover have "f' y = f y" using False by (rule assms(4))
    ultimately show ?thesis by (simp add: union_lcomm)
  qed
qed simp

lemma ts_visible_RegisterTask_grow:
  obtains M where "ts_visible (ts_RegisterTask t ts) = M + ts_visible ts"
    and "M = (if dt_grade t = kDartMicroTasks \<and> secondary_pause_requests ts \<noteq> 0 then {#} else {#t#})"
  by (simp add: ts_visible_RegisterTask)

text \<open>Growing the source of a queue grows the pending tasks of the queue that serves it.\<close>

lemma pending_grow:
  assumes inv: "tq_inv s" and e: "queue_entries s q = Some e"
    and sv: "sv = (if subsumed_by e \<noteq> kUnmerged then subsumed_by e else q)"
    and v: "ts_visible ts = M + ts_visible (task_source e)"
    and m: "queue_entries s' = (queue_entries s)(q \<mapsto> e\<lparr>task_source := ts\<rparr>)"
  shows "pending s' sv = M + pending s sv"
proof -
  let ?f = "src_visible (queue_entries s)" and ?f' = "src_visible (queue_entries s')"
  have f: "?f' q = M + ?f q" "\<And>y. y \<noteq> q \<Longrightarrow> ?f' y = ?f y"
    using v e m by (auto simp: src_visible_def)
  show ?thesis
  proof (cases "subsumed_by e = kUnmerged")
    case True
    have "sum_list (map ?f' (owner_of e)) = sum_list (map ?f (owner_of e))"
      using not_self_owned [OF inv e] by (intro arg_cong [where f = sum_list] map_cong refl f(2)) auto
    moreover have "pending s' q = ?f' q + sum_list (map ?f' (owner_of e))"
      using True m e by (simp add: pending_def)
    moreover have "pending s q = ?f q + sum_list (map ?f (owner_of e))"
      using True e by (simp add: pending_def)
    ultimately show ?thesis using True sv f(1) by simp
  next
    case False
    then obtain eo where eo: "queue_entries s sv = Some eo" "q \<in> set (owner_of eo)"
      using tq_invD [OF inv e] sv by (auto simp: entry_ok_def)
    have un: "subsumed_by eo = kUnmerged" and d: "distinct (owner_of eo)"
      using tq_invD [OF inv eo(1)] eo(2) by (auto simp: entry_ok_def)
    have ne: "q \<noteq> sv" using not_self_owned [OF inv eo(1)] eo(2) by auto
    have "sum_list (map ?f' (owner_of eo)) = M + sum_list (map ?f (owner_of eo))"
      by (rule sum_list_grow_multiset [where x = q]) (use eo(2) d f in auto)
    moreover have "pending s' sv = ?f' sv + sum_list (map ?f' (owner_of eo))"
      using m eo(1) un ne by (simp add: pending_def)
    moreover have "pending s sv = ?f sv + sum_list (map ?f (owner_of eo))"
      using eo(1) un by (simp add: pending_def)
    moreover have "?f' sv = ?f sv" using ne by (intro f(2)) simp
    ultimately show ?thesis by (simp add: union_lcomm)
  qed
qed

section \<open>Properties of the task queues\<close>

abbreviation tq_reached :: "nat \<Rightarrow> 'c tq_op list \<Rightarrow> 'c task_queues \<Rightarrow> bool" where
  "tq_reached thread ops s \<equiv> run_ops tq_step (MessageLoopTaskQueues thread) ops = Inr s"

lemma tq_reached_inv: "tq_reached thread ops s \<Longrightarrow> tq_inv s"
  by (rule tq.run_inv [OF tq_inv_init])

text \<open>
  C2: After any sequence of calls of the public interface, every queue is in exactly one of the
  three states that the header of the class lists (owner, subsumed, independent): an owner is
  never subsumed, the queues it owns are other live queues that point back to it and own nothing
  themselves, a subsumed queue is in its owner's set, and no queue has two owners.
\<close>

theorem merged_queue_states:
  assumes "tq_reached thread ops s" and "queue_entries s q = Some e"
  shows "(owner_of e \<noteq> [] \<longrightarrow> subsumed_by e = kUnmerged) \<and>
    (\<forall>x \<in> set (owner_of e). x \<noteq> q \<and>
       (\<exists>ex. queue_entries s x = Some ex \<and> subsumed_by ex = q \<and> owner_of ex = [])) \<and>
    (subsumed_by e \<noteq> kUnmerged \<longrightarrow>
       (\<exists>eo. queue_entries s (subsumed_by e) = Some eo \<and> q \<in> set (owner_of eo) \<and> subsumed_by eo = kUnmerged)) \<and>
    (\<forall>q' e'. queue_entries s q' = Some e' \<and> q' \<noteq> q \<longrightarrow> set (owner_of e) \<inter> set (owner_of e') = {})"
proof -
  have inv: "tq_inv s" by (rule tq_reached_inv [OF assms(1)])
  note ok = tq_invD [OF inv]
  have owned: "owner_of ex = []" if "queue_entries s x = Some ex" "subsumed_by ex = q" for x ex
    using ok [OF that(1)] that(2) queue_id_not_kUnmerged [OF inv assms(2)] by (auto simp: entry_ok_def)
  have "subsumed_by eo = kUnmerged" if "queue_entries s o' = Some eo" "q \<in> set (owner_of eo)" for o' eo
    using ok [OF that(1)] that(2) by (auto simp: entry_ok_def)
  moreover have "set (owner_of e) \<inter> set (owner_of e') = {}" if "queue_entries s q' = Some e'" "q' \<noteq> q" for q' e'
    using entry_ok_owned [OF inv assms(2)] entry_ok_owned [OF inv that(1)] that(2) by fastforce
  ultimately show ?thesis
    using ok [OF assms(2)] owned entry_ok_owned [OF inv assms(2)] by (fastforce simp: entry_ok_def)
qed

text \<open>
  C1: \<open>GetNextTaskToRun\<close> on a live queue never fails, and hands out a least task, by target time
  and then by order of registration, among all tasks that the queue and the queues it owns offer;
  that task is due, is removed from exactly the source that held it and nothing else is removed;
  no task is handed out exactly when none is due. The loop is woken at the earliest target time.
\<close>

theorem GetNextTaskToRun_least:
  assumes "tq_reached thread ops s" and "queue_entries s q = Some e"
  shows "\<exists>r s'. GetNextTaskToRun s th q now = Inr (r, s') \<and> run_post s q e now r s' \<and>
           wakes_at s (pending s q) e (wakes s')"
  using GetNextTaskToRun_post [OF tq_reached_inv [OF assms(1)] assms(2)] by blast

text \<open>
  C11: Registering a task on a queue adds it to that queue's source, makes it pending on the queue
  that serves it (the owner when the queue is subsumed), unless it is a micro task of a paused
  secondary source, and wakes that queue's loop at the earliest pending target time.
\<close>

theorem RegisterTask_wakes_server:
  assumes "tq_reached thread ops s" and "queue_entries s q = Some e"
    and "sv = (if subsumed_by e \<noteq> kUnmerged then subsumed_by e else q)"
  shows "\<exists>s' es t. RegisterTask s q c time g = Inr s' \<and> queue_entries s' sv = Some es \<and>
    t = DelayedTask (scast (order_counter s)) c time g \<and>
    queue_entries s' = (queue_entries s)(q \<mapsto> e\<lparr>task_source := ts_RegisterTask t (task_source e)\<rparr>) \<and>
    pending s' sv = (if g = kDartMicroTasks \<and> secondary_pause_requests (task_source e) \<noteq> 0
                     then pending s sv else add_mset t (pending s sv)) \<and>
    wakes_at s (pending s' sv) es (wakes s')"
proof -
  have inv: "tq_inv s" by (rule tq_reached_inv [OF assms(1)])
  let ?t = "DelayedTask (scast (order_counter s)) c time g"
  let ?r = "register_state s q e c time g"
  have inv': "tq_inv ?r" by (rule register_state_inv [OF inv assms(2)])
  have entries: "queue_entries ?r = (queue_entries s)(q \<mapsto> e\<lparr>task_source := ts_RegisterTask ?t (task_source e)\<rparr>)"
    by (simp add: register_state_def)
  have "queue_entries s sv \<noteq> None"
    using assms(2,3) tq_invD [OF inv assms(2)] by (auto simp: entry_ok_def)
  then have "queue_entries ?r sv \<noteq> None" by (simp add: entries)
  then obtain es where es: "queue_entries ?r sv = Some es" by blast
  from wake_if_pending_spec [OF inv' es] obtain s' where
    s': "wake_if_pending ?r sv = Inr s'" "wakes_at ?r (pending ?r sv) es (wakes s')" by blast
  have "queue_entries s' = queue_entries ?r" using wake_if_pending_frame [OF s'(1)] by simp
  then have same: "pending s' sv = pending ?r sv" by (rule pending_cong)
  define M where "M = (if g = kDartMicroTasks \<and> secondary_pause_requests (task_source e) \<noteq> 0 then {#} else {#?t#})"
  have "ts_visible (ts_RegisterTask ?t (task_source e)) = M + ts_visible (task_source e)"
    by (simp add: ts_visible_RegisterTask M_def DelayedTask_def)
  from pending_grow [OF inv assms(2,3) this entries] have "pending ?r sv = M + pending s sv" .
  moreover have "wakes_at s M es ws = wakes_at ?r M es ws" for M ws
    by (simp add: wakes_at_def register_state_def)
  ultimately show ?thesis
    using s' same \<open>queue_entries s' = queue_entries ?r\<close> entries es assms(2,3)
    by (auto simp: RegisterTask_eq M_def)
qed

text \<open>
  C12: Merging an independent queue into one that nobody owns succeeds; the owner then serves the
  tasks of both, the subsumed queue serves none, and unmerging it again succeeds and restores
  every entry of the two queues and of all others.
\<close>

theorem Merge_Unmerge_roundtrip:
  assumes "tq_reached thread ops s" and "queue_entries s ow = Some eo" and "queue_entries s x = Some ex"
    and "ow \<noteq> x" and "subsumed_by eo = kUnmerged" and "owner_of ex = []" and "subsumed_by ex = kUnmerged"
  shows "\<exists>s1 s2. Merge s ow x = Inr (True, s1) \<and> pending s1 ow = pending s ow + pending s x \<and>
    pending s1 x = {#} \<and> HasPendingTasks s1 x = Inr False \<and> Owns s1 ow x = Inr True \<and>
    Unmerge s1 ow x = Inr (True, s2) \<and> queue_entries s2 = queue_entries s"
proof -
  have inv: "tq_inv s" by (rule tq_reached_inv [OF assms(1)])
  have nm: "x \<notin> set (owner_of eo)"
    using entry_ok_owned [OF inv assms(2), of x] assms(3,7) queue_id_not_kUnmerged [OF inv assms(2)] by auto
  obtain s1 where s1: "Merge s ow x = Inr (True, s1)" and inv1: "tq_inv s1"
    and m1: "queue_entries s1 = (queue_entries s)(ow \<mapsto> eo\<lparr>owner_of := oset_insert x (owner_of eo)\<rparr>,
                                                  x \<mapsto> ex\<lparr>subsumed_by := ow\<rparr>)"
    using Merge_fresh [OF inv assms(2-7) nm] by blast
  have own: "queue_entries s1 ow = Some (eo\<lparr>owner_of := oset_insert x (owner_of eo)\<rparr>)"
    and sub: "queue_entries s1 x = Some (ex\<lparr>subsumed_by := ow\<rparr>)" using m1 assms(4) by auto
  obtain s2 where s2: "Unmerge s1 ow x = Inr (True, s2)"
    and m2: "queue_entries s2 = (queue_entries s1)(x \<mapsto> ex\<lparr>subsumed_by := kUnmerged\<rparr>,
                                                   ow \<mapsto> eo\<lparr>owner_of := owner_of eo\<rparr>)"
    using Unmerge_owned [OF inv1 own sub] nm by auto
  have "queue_entries s2 = queue_entries s"
    unfolding m2 m1 using assms(2-7) by (auto simp: fun_eq_iff)
  moreover have px: "pending s1 x = {#}"
    using sub queue_id_not_kUnmerged [OF inv assms(2)] by (simp add: pending_def)
  moreover have "HasPendingTasks s1 x = Inr False"
    using HasPendingTasks_eq [OF inv1 sub] px by (simp add: HasPendingTasks_def)
  moreover have "Owns s1 ow x = Inr True"
    using own queue_id_not_kUnmerged [OF inv assms(2)] queue_id_not_kUnmerged [OF inv assms(3)]
    by (simp add: Owns_def)
  moreover have "pending s1 ow = pending s ow + pending s x"
  proof -
    have "src_visible (queue_entries s1) = src_visible (queue_entries s)"
      using assms(2,3) by (auto simp: m1 src_visible_def fun_eq_iff)
    moreover have "sum_list (map f (oset_insert x (owner_of eo))) = f x + sum_list (map f (owner_of eo))"
      for f :: "queue_id \<Rightarrow> 'a delayed_task multiset"
      using nm by (simp add: oset_insert_def flip: sum_mset_sum_list)
    ultimately show ?thesis using own assms(2-7) by (simp add: pending_def ac_simps)
  qed
  ultimately show ?thesis using s1 s2 by blast
qed

text \<open>
  The grade that \<open>GetNextTaskToRun\<close> publishes is read through a reference into the heap it
  has just popped. In a reachable state in which an unspecified task runs and a user-interaction
  task is behind it in the heap, the published grade is the one of the task that has not run.
\<close>

theorem published_grade_is_stale:
  "\<exists>s s'. tq_reached 0 [Op_Create, Op_Register 0 ''work'' (TimePoint 1) kUnspecified,
                        Op_Register 0 ''tap'' (TimePoint 2) kUserInteraction] s \<and>
     GetNextTaskToRun s 0 0 (TimePoint 1) = Inr (Some ''work'', s') \<and>
     GetCurrentTaskSourceGrade s' 0 = Inr kUserInteraction"
proof -
  let ?ops = "[Op_Create, Op_Register 0 ''work'' (TimePoint 1) kUnspecified,
               Op_Register 0 ''tap'' (TimePoint 2) kUserInteraction]"
  have "case run_ops tq_step (MessageLoopTaskQueues 0) ?ops of Inl _ \<Rightarrow> False
        | Inr s \<Rightarrow> (case GetNextTaskToRun s 0 0 (TimePoint 1) of Inl _ \<Rightarrow> False
          | Inr (r, s') \<Rightarrow> r = Some ''work'' \<and> GetCurrentTaskSourceGrade s' 0 = Inr kUserInteraction)"
    by code_simp
  then show ?thesis by (auto split: sum.splits)
qed

subsection \<open>Witnesses\<close>

text \<open>A run with a merged queue, a micro task on it and a later task on its owner.\<close>

definition demo_ops :: "string tq_op list" where
  "demo_ops = [Op_Create, Op_Create, Op_Create, Op_SetWakeable 0 (Some 7),
     Op_Register 0 ''late'' (TimePoint 5) kUnspecified,
     Op_Register 1 ''micro'' (TimePoint 3) kDartMicroTasks, Op_Merge 0 1]"

lemma demo_run:
  obtains s e0 e1 e2 where "tq_reached 0 demo_ops s" and "queue_entries s 0 = Some e0"
    and "queue_entries s 1 = Some e1" and "queue_entries s 2 = Some e2"
    and "owner_of e0 = [1]" and "subsumed_by e0 = kUnmerged" and "subsumed_by e1 = 0"
    and "owner_of e2 = []" and "subsumed_by e2 = kUnmerged"
    and "map_prod id (\<lambda>_. ()) (projr (GetNextTaskToRun s 0 0 (TimePoint 4))) = (Some ''micro'', ())"
proof -
  have "case run_ops tq_step (MessageLoopTaskQueues 0) demo_ops of Inl _ \<Rightarrow> False
     | Inr s \<Rightarrow> (case (queue_entries s 0, queue_entries s 1, queue_entries s 2) of
         (Some e0, Some e1, Some e2) \<Rightarrow> owner_of e0 = [1] \<and> subsumed_by e0 = kUnmerged \<and> subsumed_by e1 = 0 \<and>
            owner_of e2 = [] \<and> subsumed_by e2 = kUnmerged \<and>
            map_prod id (\<lambda>_. ()) (projr (GetNextTaskToRun s 0 0 (TimePoint 4))) = (Some ''micro'', ())
       | _ \<Rightarrow> False)"
    unfolding demo_ops_def by code_simp
  then show ?thesis by (auto split: sum.splits option.splits intro: that)
qed

theorem merged_queue_states_witness:
  "\<exists>s e0 e1. tq_reached 0 demo_ops s \<and> queue_entries s 0 = Some e0 \<and> owner_of e0 = [1] \<and>
     queue_entries s 1 = Some e1 \<and> subsumed_by e1 = 0 \<and> owner_of e1 = []"
proof -
  obtain s e0 where s: "tq_reached 0 demo_ops s" "queue_entries s 0 = Some e0" "owner_of e0 = [1]"
    using demo_run by metis
  from merged_queue_states [OF s(1,2)] s show ?thesis by fastforce
qed

theorem GetNextTaskToRun_least_witness:
  "\<exists>s e r s'. tq_reached 0 demo_ops s \<and> queue_entries s 0 = Some e \<and>
     GetNextTaskToRun s 0 0 (TimePoint 4) = Inr (r, s') \<and> r = Some ''micro'' \<and> run_post s 0 e (TimePoint 4) r s'"
proof -
  obtain s e where s: "tq_reached 0 demo_ops s" "queue_entries s 0 = Some e"
    "map_prod id (\<lambda>_. ()) (projr (GetNextTaskToRun s 0 0 (TimePoint 4))) = (Some ''micro'', ())"
    using demo_run by metis
  from GetNextTaskToRun_least [OF s(1,2), of 0 "TimePoint 4"] s show ?thesis by fastforce
qed

theorem RegisterTask_wakes_server_witness:
  "\<exists>s e s' es. tq_reached 0 demo_ops s \<and> queue_entries s 1 = Some e \<and> subsumed_by e = 0 \<and>
     RegisterTask s 1 ''x'' (TimePoint 9) kUnspecified = Inr s' \<and> queue_entries s' 0 = Some es \<and>
     wakes_at s (pending s' 0) es (wakes s')"
proof -
  obtain s e where s: "tq_reached 0 demo_ops s" "queue_entries s 1 = Some e" "subsumed_by e = 0"
    using demo_run by metis
  then have "0 = (if subsumed_by e \<noteq> kUnmerged then subsumed_by e else 1)" by (simp add: kUnmerged_def)
  from RegisterTask_wakes_server [OF s(1,2) this, of "''x''" "TimePoint 9" kUnspecified] s
  show ?thesis by blast
qed

theorem Merge_Unmerge_roundtrip_witness:
  "\<exists>s s1 s2. tq_reached 0 demo_ops s \<and> Merge s 0 2 = Inr (True, s1) \<and>
     Unmerge s1 0 2 = Inr (True, s2) \<and> queue_entries s2 = queue_entries s"
proof -
  obtain s e0 e2 where s: "tq_reached 0 demo_ops s" "queue_entries s 0 = Some e0" "queue_entries s 2 = Some e2"
    "subsumed_by e0 = kUnmerged" "owner_of e2 = []" "subsumed_by e2 = kUnmerged"
    using demo_run by metis
  from Merge_Unmerge_roundtrip [OF s(1-3) _ s(4-6)] s(1) show ?thesis by fastforce
qed

end
