(* ===== verification/Fml_Mergers.thy ===== *)
theory Fml_Mergers
  imports Fml_Task_Queues
begin

text \<open>
  \<open>fml/shared_thread_merger\<close> and \<open>fml/raster_thread_merger\<close>: leases that merge the raster queue
  into the platform queue. Several \<open>RasterThreadMerger\<close> objects (callers) share one
  \<open>SharedThreadMerger\<close>; each holds its own lease in \<open>lease_term_by_caller_\<close>. The world has the
  shared mergers by address, the task queues they act on, and a log of the callbacks that ran and
  of the notifications of the condition variable, newest first.
\<close>

section \<open>State\<close>

(* map: fml/shared_thread_merger.h 24 74 SharedThreadMerger *)
record shared_merger =
  sm_owner :: queue_id
  sm_subsumed :: queue_id
  sm_enabled :: bool
  lease_term_by_caller :: "(nat \<times> nat) list"

(* map: fml/raster_thread_merger.h 20 24 RasterThreadStatus *)
datatype raster_thread_status = kRemainsMerged | kRemainsUnmerged | kUnmergedNow

(* map: fml/raster_thread_merger.h 31 142 RasterThreadMerger *)
record raster_merger =
  rm_this :: nat
  platform_queue_id :: queue_id
  gpu_queue_id :: queue_id
  rm_shared :: nat
  has_merge_unmerge_callback :: bool

datatype merger_event = Callback nat | Notify nat

record 'c merger_world =
  shareds :: "nat \<rightharpoonup> shared_merger"
  queues :: "'c task_queues"
  merger_log :: "merger_event list"

section \<open>\<open>SharedThreadMerger\<close>\<close>

(* map: fml/shared_thread_merger.cc fn SharedThreadMerger::SharedThreadMerger( *)
definition SharedThreadMerger :: "queue_id \<Rightarrow> queue_id \<Rightarrow> shared_merger" where
  "SharedThreadMerger ow x =
     \<lparr>sm_owner = ow, sm_subsumed = x, sm_enabled = True, lease_term_by_caller = []\<rparr>"

(* map: fml/shared_thread_merger.cc fn SharedThreadMerger::IsAllLeaseTermsZeroUnSafe( *)
definition IsAllLeaseTermsZeroUnSafe :: "shared_merger \<Rightarrow> bool" where
  "IsAllLeaseTermsZeroUnSafe sm \<longleftrightarrow> list_all (\<lambda>(_, lease). lease = 0) (lease_term_by_caller sm)"

(* map: fml/shared_thread_merger.cc fn SharedThreadMerger::IsMergedUnSafe( *)
definition sm_IsMergedUnSafe :: "shared_merger \<Rightarrow> bool" where
  "sm_IsMergedUnSafe sm \<longleftrightarrow> \<not> IsAllLeaseTermsZeroUnSafe sm"

(* map: fml/shared_thread_merger.cc fn SharedThreadMerger::SetEnabledUnSafe( *)
definition SetEnabledUnSafe :: "bool \<Rightarrow> shared_merger \<Rightarrow> shared_merger" where
  "SetEnabledUnSafe b sm = sm\<lparr>sm_enabled := b\<rparr>"

(* map: fml/shared_thread_merger.cc fn SharedThreadMerger::MergeWithLease( *)
definition sm_MergeWithLease :: "nat \<Rightarrow> nat \<Rightarrow> shared_merger \<Rightarrow> 'c task_queues
    \<Rightarrow> (bool \<times> shared_merger \<times> 'c task_queues) res" where
  "sm_MergeWithLease caller lease_term sm tq =
     bindr (ensure DCheck_Failed (lease_term > 0)) (\<lambda>_.
     if sm_IsMergedUnSafe sm then Inr (True, sm, tq)
     else bindr (Merge tq (sm_owner sm) (sm_subsumed sm)) (\<lambda>(success, tq').
       bindr (ensure Check_Failed success) (\<lambda>_.
         Inr (success,
              sm\<lparr>lease_term_by_caller := omap_insert caller lease_term (lease_term_by_caller sm)\<rparr>, tq'))))"

(* map: fml/shared_thread_merger.cc fn SharedThreadMerger::UnMergeNowUnSafe( *)
definition sm_UnMergeNowUnSafe :: "shared_merger \<Rightarrow> 'c task_queues \<Rightarrow> (bool \<times> 'c task_queues) res" where
  "sm_UnMergeNowUnSafe sm tq =
     bindr (ensure Check_Failed (IsAllLeaseTermsZeroUnSafe sm)) (\<lambda>_.
     bindr (Unmerge tq (sm_owner sm) (sm_subsumed sm)) (\<lambda>(success, tq').
     bindr (ensure Check_Failed success) (\<lambda>_. Inr (success, tq'))))"

(* map: fml/shared_thread_merger.cc fn SharedThreadMerger::UnMergeNowIfLastOne( *)
definition sm_UnMergeNowIfLastOne :: "nat \<Rightarrow> shared_merger \<Rightarrow> 'c task_queues
    \<Rightarrow> (bool \<times> shared_merger \<times> 'c task_queues) res" where
  "sm_UnMergeNowIfLastOne caller sm tq =
     (let sm' = sm\<lparr>lease_term_by_caller := omap_erase caller (lease_term_by_caller sm)\<rparr> in
      if lease_term_by_caller sm' \<noteq> [] then Inr (True, sm', tq)
      else bindr (sm_UnMergeNowUnSafe sm' tq) (\<lambda>(success, tq'). Inr (success, sm', tq')))"

(* map: fml/shared_thread_merger.cc fn SharedThreadMerger::DecrementLease( *)
definition sm_DecrementLease :: "nat \<Rightarrow> shared_merger \<Rightarrow> 'c task_queues
    \<Rightarrow> (bool \<times> shared_merger \<times> 'c task_queues) res" where
  "sm_DecrementLease caller sm tq =
     bindr (case map_of (lease_term_by_caller sm) caller of
              Some lease \<Rightarrow> bindr (ensure Check_Failed (lease > 0)) (\<lambda>_.
                Inr (sm\<lparr>lease_term_by_caller := omap_insert caller (lease - 1) (lease_term_by_caller sm)\<rparr>))
            | None \<Rightarrow> Inr sm) (\<lambda>sm'.
       if IsAllLeaseTermsZeroUnSafe sm' then
         bindr (sm_UnMergeNowUnSafe sm' tq) (\<lambda>(_, tq'). Inr (True, sm', tq'))
       else Inr (False, sm', tq))"

(* map: fml/shared_thread_merger.cc fn SharedThreadMerger::ExtendLeaseTo( *)
definition sm_ExtendLeaseTo :: "nat \<Rightarrow> nat \<Rightarrow> shared_merger \<Rightarrow> shared_merger res" where
  "sm_ExtendLeaseTo caller lease_term sm =
     bindr (ensure DCheck_Failed (lease_term > 0)) (\<lambda>_.
     bindr (ensure DCheck_Failed (sm_IsMergedUnSafe sm)) (\<lambda>_.
       Inr (sm\<lparr>lease_term_by_caller := omap_insert caller lease_term (lease_term_by_caller sm)\<rparr>)))"

section \<open>\<open>RasterThreadMerger\<close>\<close>

text \<open>The shared merger behind the \<open>RefPtr\<close> of a raster merger; a null pointer is undefined.\<close>

definition shared_of :: "raster_merger \<Rightarrow> 'c merger_world \<Rightarrow> shared_merger res" where
  "shared_of rm w = (case shareds w (rm_shared rm) of None \<Rightarrow> Inl Undefined | Some sm \<Rightarrow> Inr sm)"

definition put_shared :: "raster_merger \<Rightarrow> shared_merger \<Rightarrow> 'c task_queues \<Rightarrow> 'c merger_world \<Rightarrow> 'c merger_world" where
  "put_shared rm sm tq w = w\<lparr>shareds := (shareds w)(rm_shared rm \<mapsto> sm), queues := tq\<rparr>"

definition log_event :: "merger_event \<Rightarrow> 'c merger_world \<Rightarrow> 'c merger_world" where
  "log_event e w = w\<lparr>merger_log := e # merger_log w\<rparr>"

definition run_callback :: "raster_merger \<Rightarrow> bool \<Rightarrow> 'c merger_world \<Rightarrow> 'c merger_world" where
  "run_callback rm success w =
     (if success \<and> has_merge_unmerge_callback rm then log_event (Callback (rm_this rm)) w else w)"

(* map: fml/raster_thread_merger.cc fn RasterThreadMerger::TaskQueuesAreSame( *)
definition TaskQueuesAreSame :: "raster_merger \<Rightarrow> bool" where
  "TaskQueuesAreSame rm \<longleftrightarrow> platform_queue_id rm = gpu_queue_id rm"

(* map: fml/raster_thread_merger.cc fn RasterThreadMerger::IsMergedUnSafe( *)
definition IsMergedUnSafe :: "raster_merger \<Rightarrow> 'c merger_world \<Rightarrow> bool res" where
  "IsMergedUnSafe rm w =
     (if TaskQueuesAreSame rm then Inr True else bindr (shared_of rm w) (\<lambda>sm. Inr (sm_IsMergedUnSafe sm)))"

(* map: fml/raster_thread_merger.cc fn RasterThreadMerger::IsEnabledUnSafe( *)
definition IsEnabledUnSafe :: "raster_merger \<Rightarrow> 'c merger_world \<Rightarrow> bool res" where
  "IsEnabledUnSafe rm w = bindr (shared_of rm w) (\<lambda>sm. Inr (sm_enabled sm))"

(* map: fml/raster_thread_merger.cc 15 28 RasterThreadMerger::RasterThreadMerger *)
definition RasterThreadMerger :: "nat \<Rightarrow> nat \<Rightarrow> queue_id \<Rightarrow> queue_id \<Rightarrow> raster_merger" where
  "RasterThreadMerger this shared platform gpu =
     \<lparr>rm_this = this, platform_queue_id = platform, gpu_queue_id = gpu, rm_shared = shared,
      has_merge_unmerge_callback = False\<rparr>"

(* map: fml/raster_thread_merger.cc fn RasterThreadMerger::SetMergeUnmergeCallback( *)
definition SetMergeUnmergeCallback :: "bool \<Rightarrow> raster_merger \<Rightarrow> raster_merger" where
  "SetMergeUnmergeCallback cb rm = rm\<lparr>has_merge_unmerge_callback := cb\<rparr>"

text \<open>\<open>this\<close> and \<open>fresh\<close> are the addresses of the new raster merger and of a new shared merger.\<close>

(* map: fml/raster_thread_merger.cc fn RasterThreadMerger::CreateOrShareThreadMerger( *)
definition CreateOrShareThreadMerger :: "nat \<Rightarrow> nat \<Rightarrow> raster_merger option \<Rightarrow> queue_id \<Rightarrow> queue_id
    \<Rightarrow> 'c merger_world \<Rightarrow> raster_merger \<times> 'c merger_world" where
  "CreateOrShareThreadMerger this fresh parent platform_id raster_id w =
     (case parent of
        Some p \<Rightarrow> if platform_queue_id p = platform_id \<and> gpu_queue_id p = raster_id
          then (RasterThreadMerger this (rm_shared p) platform_id raster_id, w)
          else (RasterThreadMerger this fresh platform_id raster_id,
                w\<lparr>shareds := (shareds w)(fresh \<mapsto> SharedThreadMerger platform_id raster_id)\<rparr>)
      | None \<Rightarrow> (RasterThreadMerger this fresh platform_id raster_id,
                w\<lparr>shareds := (shareds w)(fresh \<mapsto> SharedThreadMerger platform_id raster_id)\<rparr>))"

(* map: fml/raster_thread_merger.cc fn RasterThreadMerger::MergeWithLease( *)
definition MergeWithLease :: "raster_merger \<Rightarrow> nat \<Rightarrow> 'c merger_world \<Rightarrow> 'c merger_world res" where
  "MergeWithLease rm lease_term w =
     (if TaskQueuesAreSame rm then Inr w else
      bindr (IsEnabledUnSafe rm w) (\<lambda>enabled. if \<not> enabled then Inr w else
      bindr (ensure DCheck_Failed (lease_term > 0)) (\<lambda>_.
      bindr (IsMergedUnSafe rm w) (\<lambda>merged.
        if merged then Inr (log_event (Notify (rm_this rm)) w) else
        bindr (shared_of rm w) (\<lambda>sm.
        bindr (sm_MergeWithLease (rm_this rm) lease_term sm (queues w)) (\<lambda>(success, sm', tq').
          Inr (log_event (Notify (rm_this rm)) (run_callback rm success (put_shared rm sm' tq' w)))))))))"

(* map: fml/raster_thread_merger.cc fn RasterThreadMerger::UnMergeNowIfLastOne( *)
definition UnMergeNowIfLastOne :: "raster_merger \<Rightarrow> 'c merger_world \<Rightarrow> 'c merger_world res" where
  "UnMergeNowIfLastOne rm w =
     (if TaskQueuesAreSame rm then Inr w else
      bindr (IsEnabledUnSafe rm w) (\<lambda>enabled. if \<not> enabled then Inr w else
      bindr (shared_of rm w) (\<lambda>sm.
      bindr (sm_UnMergeNowIfLastOne (rm_this rm) sm (queues w)) (\<lambda>(success, sm', tq').
        Inr (run_callback rm success (put_shared rm sm' tq' w))))))"

(* map: fml/raster_thread_merger.cc fn RasterThreadMerger::IsOnPlatformThread( *)
definition IsOnPlatformThread :: "queue_id \<Rightarrow> raster_merger \<Rightarrow> bool" where
  "IsOnPlatformThread current rm \<longleftrightarrow> current = platform_queue_id rm"

(* map: fml/raster_thread_merger.cc fn RasterThreadMerger::IsOnRasterizingThread( *)
definition IsOnRasterizingThread :: "queue_id \<Rightarrow> raster_merger \<Rightarrow> 'c merger_world \<Rightarrow> bool res" where
  "IsOnRasterizingThread current rm w =
     bindr (IsMergedUnSafe rm w) (\<lambda>merged.
       if merged then Inr (IsOnPlatformThread current rm) else Inr (\<not> IsOnPlatformThread current rm))"

(* map: fml/raster_thread_merger.cc fn RasterThreadMerger::ExtendLeaseTo( *)
definition ExtendLeaseTo :: "raster_merger \<Rightarrow> nat \<Rightarrow> 'c merger_world \<Rightarrow> 'c merger_world res" where
  "ExtendLeaseTo rm lease_term w =
     bindr (ensure DCheck_Failed (lease_term > 0)) (\<lambda>_.
     if TaskQueuesAreSame rm then Inr w else
      bindr (IsEnabledUnSafe rm w) (\<lambda>enabled. if \<not> enabled then Inr w else
      bindr (shared_of rm w) (\<lambda>sm.
      bindr (sm_ExtendLeaseTo (rm_this rm) lease_term sm) (\<lambda>sm'. Inr (put_shared rm sm' (queues w) w)))))"

(* map: fml/raster_thread_merger.cc fn RasterThreadMerger::Enable( *)
definition Enable :: "raster_merger \<Rightarrow> 'c merger_world \<Rightarrow> 'c merger_world res" where
  "Enable rm w = bindr (shared_of rm w) (\<lambda>sm. Inr (put_shared rm (SetEnabledUnSafe True sm) (queues w) w))"

(* map: fml/raster_thread_merger.cc fn RasterThreadMerger::Disable( *)
definition Disable :: "raster_merger \<Rightarrow> 'c merger_world \<Rightarrow> 'c merger_world res" where
  "Disable rm w = bindr (shared_of rm w) (\<lambda>sm. Inr (put_shared rm (SetEnabledUnSafe False sm) (queues w) w))"

(* map: fml/raster_thread_merger.cc fn RasterThreadMerger::IsMerged( *)
definition IsMerged :: "raster_merger \<Rightarrow> 'c merger_world \<Rightarrow> bool res" where
  "IsMerged rm w = IsMergedUnSafe rm w"

text \<open>\<open>Inr False\<close>: the platform thread is still waiting on the condition variable.\<close>

(* map: fml/raster_thread_merger.cc fn RasterThreadMerger::WaitUntilMerged( *)
definition WaitUntilMerged :: "queue_id \<Rightarrow> raster_merger \<Rightarrow> 'c merger_world \<Rightarrow> bool res" where
  "WaitUntilMerged current rm w =
     (if TaskQueuesAreSame rm then Inr True else
      bindr (ensure Check_Failed (IsOnPlatformThread current rm)) (\<lambda>_. IsMergedUnSafe rm w))"

(* map: fml/raster_thread_merger.cc fn RasterThreadMerger::DecrementLease( *)
definition DecrementLease :: "raster_merger \<Rightarrow> 'c merger_world \<Rightarrow> (raster_thread_status \<times> 'c merger_world) res" where
  "DecrementLease rm w =
     (if TaskQueuesAreSame rm then Inr (kRemainsMerged, w) else
      bindr (IsMergedUnSafe rm w) (\<lambda>merged. if \<not> merged then Inr (kRemainsUnmerged, w) else
      bindr (IsEnabledUnSafe rm w) (\<lambda>enabled. if \<not> enabled then Inr (kRemainsMerged, w) else
      bindr (shared_of rm w) (\<lambda>sm.
      bindr (sm_DecrementLease (rm_this rm) sm (queues w)) (\<lambda>(unmerged, sm', tq').
        let w' = put_shared rm sm' tq' w in
        if unmerged then Inr (kUnmergedNow, run_callback rm True w') else Inr (kRemainsMerged, w'))))))"

section \<open>The merger and the queues agree\<close>

text \<open>
  \<open>agree sm tq\<close>: the leases say "merged" exactly when the task queues are merged. When they are
  not, the two queues are independent, so that a later merge succeeds.
\<close>

definition agree :: "shared_merger \<Rightarrow> 'c task_queues \<Rightarrow> bool" where
  "agree sm tq \<longleftrightarrow> tq_inv tq \<and> omap_ok (lease_term_by_caller sm) \<and> sm_owner sm \<noteq> sm_subsumed sm \<and>
     (\<exists>eo ex. queue_entries tq (sm_owner sm) = Some eo \<and> queue_entries tq (sm_subsumed sm) = Some ex \<and>
        subsumed_by eo = kUnmerged \<and> owner_of ex = [] \<and>
        (if sm_IsMergedUnSafe sm then sm_subsumed sm \<in> set (owner_of eo)
         else sm_subsumed sm \<notin> set (owner_of eo) \<and> subsumed_by ex = kUnmerged))"

lemma agree_Owns:
  assumes "agree sm tq"
  shows "Owns tq (sm_owner sm) (sm_subsumed sm) = Inr (sm_IsMergedUnSafe sm)"
proof -
  from assms obtain eo ex where inv: "tq_inv tq" and e: "queue_entries tq (sm_owner sm) = Some eo"
    "queue_entries tq (sm_subsumed sm) = Some ex"
    and m: "if sm_IsMergedUnSafe sm then sm_subsumed sm \<in> set (owner_of eo)
            else sm_subsumed sm \<notin> set (owner_of eo) \<and> subsumed_by ex = kUnmerged"
    by (auto simp: agree_def)
  from m show ?thesis
    using e queue_id_not_kUnmerged [OF inv e(1)] queue_id_not_kUnmerged [OF inv e(2)]
    by (auto simp: Owns_def split: if_splits)
qed

lemma all_zero_iff: "omap_ok m \<Longrightarrow> list_all (\<lambda>(_, l). l = 0) m \<longleftrightarrow> (\<forall>k l. map_of m k = Some l \<longrightarrow> l = (0::nat))"
proof -
  assume "omap_ok m"
  then have "distinct (map fst m)" by (simp add: omap_ok_def strict_sorted_iff)
  then show ?thesis by (fastforce simp: list_all_iff map_of_eq_Some_iff)
qed

lemma merged_iff:
  "omap_ok (lease_term_by_caller sm) \<Longrightarrow>
     sm_IsMergedUnSafe sm \<longleftrightarrow> (\<exists>k l. map_of (lease_term_by_caller sm) k = Some l \<and> 0 < l)"
  by (auto simp: sm_IsMergedUnSafe_def IsAllLeaseTermsZeroUnSafe_def all_zero_iff)

lemma merged_insert:
  "omap_ok (lease_term_by_caller sm) \<Longrightarrow> 0 < l \<Longrightarrow>
     sm_IsMergedUnSafe (sm\<lparr>lease_term_by_caller := omap_insert c l (lease_term_by_caller sm)\<rparr>)"
  by (subst merged_iff) (auto simp: omap_ok_insert)

lemma sm_MergeWithLease_agree:
  assumes ag: "agree sm tq" and l: "0 < l"
  shows "\<exists>sm' tq'. sm_MergeWithLease c l sm tq = Inr (True, sm', tq') \<and> agree sm' tq' \<and> sm_IsMergedUnSafe sm' \<and>
    sm_owner sm' = sm_owner sm \<and> sm_subsumed sm' = sm_subsumed sm \<and> sm_enabled sm' = sm_enabled sm \<and>
    (if sm_IsMergedUnSafe sm then sm' = sm
     else lease_term_by_caller sm' = omap_insert c l (lease_term_by_caller sm))"
proof (cases "sm_IsMergedUnSafe sm")
  case True
  with ag l show ?thesis by (simp add: sm_MergeWithLease_def)
next
  case False
  with ag obtain eo ex where inv: "tq_inv tq" and ok: "omap_ok (lease_term_by_caller sm)"
    and ne: "sm_owner sm \<noteq> sm_subsumed sm" and e: "queue_entries tq (sm_owner sm) = Some eo"
    "queue_entries tq (sm_subsumed sm) = Some ex" and un: "subsumed_by eo = kUnmerged" "owner_of ex = []"
    "subsumed_by ex = kUnmerged" "sm_subsumed sm \<notin> set (owner_of eo)"
    by (auto simp: agree_def)
  from Merge_fresh [OF inv e ne un] obtain tq' where
    tq': "Merge tq (sm_owner sm) (sm_subsumed sm) = Inr (True, tq')" "tq_inv tq'"
    "queue_entries tq' = (queue_entries tq)
       (sm_owner sm \<mapsto> eo\<lparr>owner_of := oset_insert (sm_subsumed sm) (owner_of eo)\<rparr>,
        sm_subsumed sm \<mapsto> ex\<lparr>subsumed_by := sm_owner sm\<rparr>)" by blast
  let ?sm = "sm\<lparr>lease_term_by_caller := omap_insert c l (lease_term_by_caller sm)\<rparr>"
  have merged: "sm_IsMergedUnSafe ?sm" by (rule merged_insert [OF ok l])
  then have "agree ?sm tq'"
    using tq' ok ne un by (auto simp: agree_def omap_ok_insert)
  with False l tq'(1) merged show ?thesis by (simp add: sm_MergeWithLease_def)
qed

lemma sm_ExtendLeaseTo_agree:
  assumes ag: "agree sm tq" and r: "sm_ExtendLeaseTo c l sm = Inr sm'"
  shows "agree sm' tq \<and> sm_IsMergedUnSafe sm' \<and> sm_owner sm' = sm_owner sm \<and> sm_subsumed sm' = sm_subsumed sm"
proof -
  from r have l: "0 < l" and m: "sm_IsMergedUnSafe sm"
    and sm': "sm' = sm\<lparr>lease_term_by_caller := omap_insert c l (lease_term_by_caller sm)\<rparr>"
    by (auto simp: sm_ExtendLeaseTo_def res_simps)
  have ok: "omap_ok (lease_term_by_caller sm)" using ag by (simp add: agree_def)
  have "sm_IsMergedUnSafe sm'" unfolding sm' by (rule merged_insert [OF ok l])
  with ag m ok show ?thesis by (auto simp: agree_def sm' omap_ok_insert)
qed

text \<open>Unmerging when the queues are merged and every lease is zero.\<close>

lemma unmerge_agree:
  assumes ag: "agree sm tq" and m: "sm_IsMergedUnSafe sm"
    and own: "sm_owner sm' = sm_owner sm" "sm_subsumed sm' = sm_subsumed sm"
    and ok: "omap_ok (lease_term_by_caller sm')" and z: "\<not> sm_IsMergedUnSafe sm'"
  shows "\<exists>tq'. sm_UnMergeNowUnSafe sm' tq = Inr (True, tq') \<and> agree sm' tq'"
proof -
  from ag m obtain eo ex where inv: "tq_inv tq"
    and ne: "sm_owner sm \<noteq> sm_subsumed sm" and e: "queue_entries tq (sm_owner sm) = Some eo"
    "queue_entries tq (sm_subsumed sm) = Some ex" and un: "subsumed_by eo = kUnmerged" "owner_of ex = []"
    and o': "sm_subsumed sm \<in> set (owner_of eo)"
    by (auto simp: agree_def)
  from Unmerge_owned [OF inv e o'] obtain tq' where
    tq': "Unmerge tq (sm_owner sm) (sm_subsumed sm) = Inr (True, tq')" "tq_inv tq'"
    "queue_entries tq' = (queue_entries tq)(sm_subsumed sm \<mapsto> ex\<lparr>subsumed_by := kUnmerged\<rparr>,
        sm_owner sm \<mapsto> eo\<lparr>owner_of := oset_erase (sm_subsumed sm) (owner_of eo)\<rparr>)" by blast
  have "sm_UnMergeNowUnSafe sm' tq = Inr (True, tq')"
    using z tq'(1) by (simp add: sm_UnMergeNowUnSafe_def sm_IsMergedUnSafe_def own)
  moreover have "agree sm' tq'"
    using z own ok ne un tq' by (auto simp: agree_def)
  ultimately show ?thesis by blast
qed

lemma sm_DecrementLease_agree:
  assumes ag: "agree sm tq" and m: "sm_IsMergedUnSafe sm"
    and r: "sm_DecrementLease c sm tq = Inr (b, sm', tq')"
  shows "agree sm' tq' \<and> b = (\<not> sm_IsMergedUnSafe sm') \<and>
    sm_owner sm' = sm_owner sm \<and> sm_subsumed sm' = sm_subsumed sm \<and> sm_enabled sm' = sm_enabled sm"
proof -
  let ?dec = "case map_of (lease_term_by_caller sm) c of
      Some lease \<Rightarrow> bindr (ensure Check_Failed (lease > 0)) (\<lambda>_.
        Inr (sm\<lparr>lease_term_by_caller := omap_insert c (lease - 1) (lease_term_by_caller sm)\<rparr>))
    | None \<Rightarrow> Inr sm"
  from r obtain sm1 where sm1: "?dec = Inr sm1"
    and rest: "(if IsAllLeaseTermsZeroUnSafe sm1 then
         bindr (sm_UnMergeNowUnSafe sm1 tq) (\<lambda>(_, tq'). Inr (True, sm1, tq'))
       else Inr (False, sm1, tq)) = Inr (b, sm', tq')"
    by (auto simp: sm_DecrementLease_def bindr_eq_Inr)
  have ok: "omap_ok (lease_term_by_caller sm)" using ag by (simp add: agree_def)
  have s1: "sm_owner sm1 = sm_owner sm" "sm_subsumed sm1 = sm_subsumed sm" "sm_enabled sm1 = sm_enabled sm"
    "omap_ok (lease_term_by_caller sm1)"
    using sm1 ok by (auto simp: res_simps omap_ok_insert split: option.splits)
  show ?thesis
  proof (cases "IsAllLeaseTermsZeroUnSafe sm1")
    case True
    then have z: "\<not> sm_IsMergedUnSafe sm1" by (simp add: sm_IsMergedUnSafe_def)
    from unmerge_agree [OF ag m s1(1,2,4) z] True rest z s1 show ?thesis by auto
  next
    case False
    then have mm: "sm_IsMergedUnSafe sm1" by (simp add: sm_IsMergedUnSafe_def)
    have "agree sm1 tq" using ag m mm s1 by (auto simp: agree_def)
    with False rest mm s1 show ?thesis by auto
  qed
qed


section \<open>Several raster mergers on one shared merger\<close>

text \<open>
  The callers \<open>c\<close> share the merger at address \<open>sh\<close> between the queues \<open>p\<close> and \<open>g\<close>; one step is
  one call by one of them.
\<close>

datatype lease_op = L_Merge nat nat | L_Extend nat nat | L_Decrement nat | L_Enable nat | L_Disable nat

abbreviation caller :: "nat \<Rightarrow> queue_id \<Rightarrow> queue_id \<Rightarrow> nat \<Rightarrow> raster_merger" where
  "caller sh p g c \<equiv> RasterThreadMerger c sh p g"

fun lease_step :: "nat \<Rightarrow> queue_id \<Rightarrow> queue_id \<Rightarrow> 'c merger_world \<Rightarrow> lease_op \<Rightarrow> 'c merger_world res" where
  "lease_step sh p g w (L_Merge c n) = MergeWithLease (caller sh p g c) n w"
| "lease_step sh p g w (L_Extend c n) = ExtendLeaseTo (caller sh p g c) n w"
| "lease_step sh p g w (L_Decrement c) = bindr (DecrementLease (caller sh p g c) w) (\<lambda>(_, w'). Inr w')"
| "lease_step sh p g w (L_Enable c) = Enable (caller sh p g c) w"
| "lease_step sh p g w (L_Disable c) = Disable (caller sh p g c) w"

definition world_agree :: "nat \<Rightarrow> queue_id \<Rightarrow> queue_id \<Rightarrow> 'c merger_world \<Rightarrow> bool" where
  "world_agree sh p g w \<longleftrightarrow>
     (\<exists>sm. shareds w sh = Some sm \<and> sm_owner sm = p \<and> sm_subsumed sm = g \<and> agree sm (queues w))"

lemma RasterThreadMerger_sel [simp]:
  "rm_this (RasterThreadMerger c sh p g) = c"
  "platform_queue_id (RasterThreadMerger c sh p g) = p"
  "gpu_queue_id (RasterThreadMerger c sh p g) = g"
  "rm_shared (RasterThreadMerger c sh p g) = sh"
  "TaskQueuesAreSame (RasterThreadMerger c sh p g) \<longleftrightarrow> p = g"
  "has_merge_unmerge_callback (RasterThreadMerger c sh p g) = False"
  by (simp_all add: RasterThreadMerger_def TaskQueuesAreSame_def)

lemma world_frames [simp]:
  "shareds (log_event e w) = shareds w" "queues (log_event e w) = queues w"
  "shareds (run_callback rm b w) = shareds w" "queues (run_callback rm b w) = queues w"
  "shareds (put_shared rm sm tq w) = (shareds w)(rm_shared rm \<mapsto> sm)" "queues (put_shared rm sm tq w) = tq"
  by (simp_all add: log_event_def run_callback_def put_shared_def)

lemma agree_enabled [simp]: "agree (SetEnabledUnSafe b sm) tq \<longleftrightarrow> agree sm tq"
  by (simp add: agree_def SetEnabledUnSafe_def sm_IsMergedUnSafe_def IsAllLeaseTermsZeroUnSafe_def)

lemma SetEnabledUnSafe_sel [simp]:
  "sm_owner (SetEnabledUnSafe b sm) = sm_owner sm" "sm_subsumed (SetEnabledUnSafe b sm) = sm_subsumed sm"
  by (simp_all add: SetEnabledUnSafe_def)

lemma DecrementLease_world:
  assumes "shareds w sh = Some sm" and "p \<noteq> g" and "DecrementLease (caller sh p g c) w = Inr (st, w')"
  shows "w' = w \<or> (\<exists>b sm' tq'. sm_IsMergedUnSafe sm \<and> sm_DecrementLease c sm (queues w) = Inr (b, sm', tq') \<and>
    shareds w' = (shareds w)(sh \<mapsto> sm') \<and> queues w' = tq')"
  using assms
  by (cases "sm_IsMergedUnSafe sm"; cases "sm_enabled sm"; cases "sm_DecrementLease c sm (queues w)")
    (auto simp: DecrementLease_def shared_of_def IsEnabledUnSafe_def IsMergedUnSafe_def Let_def split: if_splits)

interpretation lease: guarded_machine "lease_step sh p g" "world_agree sh p g" for sh p g
proof
  fix w w' :: "'c merger_world" and e
  assume "world_agree sh p g w" and r: "lease_step sh p g w e = Inr w'"
  then obtain sm where sm: "shareds w sh = Some sm" "sm_owner sm = p" "sm_subsumed sm = g"
    and ag: "agree sm (queues w)" by (auto simp: world_agree_def)
  have pg: "p \<noteq> g" using ag sm by (auto simp: agree_def)
  note defs = shared_of_def IsEnabledUnSafe_def IsMergedUnSafe_def pg world_agree_def
  show "world_agree sh p g w'"
  proof (cases e)
    case (L_Merge c n)
    with r sm ag sm_MergeWithLease_agree [OF ag, of n c] show ?thesis
      by (cases "0 < n") (auto simp: MergeWithLease_def defs split: if_splits)
  next
    case (L_Extend c n)
    with r sm ag show ?thesis
      by (auto simp: ExtendLeaseTo_def defs bindr_eq_Inr dest: sm_ExtendLeaseTo_agree [OF ag] split: if_splits)
  next
    case (L_Decrement c)
    with r obtain st where "DecrementLease (caller sh p g c) w = Inr (st, w')"
      by (auto simp: bindr_eq_Inr)
    from DecrementLease_world [OF sm(1) pg this] show ?thesis
    proof (elim disjE exE conjE)
      fix b sm1 tq1
      assume m: "sm_IsMergedUnSafe sm" "sm_DecrementLease c sm (queues w) = Inr (b, sm1, tq1)"
        and w': "shareds w' = (shareds w)(sh \<mapsto> sm1)" "queues w' = tq1"
      from sm_DecrementLease_agree [OF ag m] sm w' show ?thesis by (simp add: world_agree_def)
    qed (use sm ag in \<open>simp add: world_agree_def\<close>)
  next
    case (L_Enable c)
    with r sm ag show ?thesis by (auto simp: Enable_def defs)
  next
    case (L_Disable c)
    with r sm ag show ?thesis by (auto simp: Disable_def defs)
  qed
qed

subsection \<open>Counting a lease down\<close>

fun decrements :: "nat \<Rightarrow> raster_merger \<Rightarrow> 'c merger_world \<Rightarrow> (raster_thread_status list \<times> 'c merger_world) res" where
  "decrements 0 rm w = Inr ([], w)"
| "decrements (Suc n) rm w =
     bindr (DecrementLease rm w) (\<lambda>(st, w'). bindr (decrements n rm w') (\<lambda>(sts, w''). Inr (st # sts, w'')))"

definition only_lease :: "nat \<Rightarrow> nat \<Rightarrow> shared_merger \<Rightarrow> bool" where
  "only_lease c k sm \<longleftrightarrow> map_of (lease_term_by_caller sm) c = Some k \<and>
     (\<forall>d l. d \<noteq> c \<longrightarrow> map_of (lease_term_by_caller sm) d = Some l \<longrightarrow> l = 0)"

lemma only_lease_merged:
  "omap_ok (lease_term_by_caller sm) \<Longrightarrow> only_lease c k sm \<Longrightarrow> sm_IsMergedUnSafe sm \<longleftrightarrow> 0 < k"
  by (subst merged_iff) (auto simp: only_lease_def, metis less_numeral_extra(3) option.inject)

lemma sm_DecrementLease_only:
  assumes ag: "agree sm tq" and o': "only_lease c (Suc k) sm"
  shows "\<exists>sm' tq'. sm_DecrementLease c sm tq = Inr (k = 0, sm', tq') \<and> agree sm' tq' \<and> only_lease c k sm' \<and>
    sm_owner sm' = sm_owner sm \<and> sm_subsumed sm' = sm_subsumed sm \<and> sm_enabled sm' = sm_enabled sm"
proof -
  have ok: "omap_ok (lease_term_by_caller sm)" using ag by (simp add: agree_def)
  have m: "sm_IsMergedUnSafe sm" using only_lease_merged [OF ok o'] by simp
  let ?sm = "sm\<lparr>lease_term_by_caller := omap_insert c k (lease_term_by_caller sm)\<rparr>"
  have ok': "omap_ok (lease_term_by_caller ?sm)" using ok by (simp add: omap_ok_insert)
  have o1: "only_lease c k ?sm" using o' by (auto simp: only_lease_def)
  have m': "sm_IsMergedUnSafe ?sm \<longleftrightarrow> 0 < k" by (rule only_lease_merged [OF ok' o1])
  have "\<exists>tq'. sm_DecrementLease c sm tq = Inr (k = 0, ?sm, tq')"
  proof (cases "k = 0")
    case True
    have "\<exists>tq'. sm_UnMergeNowUnSafe ?sm tq = Inr (True, tq') \<and> agree ?sm tq'"
      by (rule unmerge_agree [OF ag m]) (use ok' m' True in simp_all)
    then show ?thesis using o' m' True
      by (auto simp: sm_DecrementLease_def only_lease_def sm_IsMergedUnSafe_def)
  next
    case False
    then show ?thesis using o' m' by (simp add: sm_DecrementLease_def only_lease_def sm_IsMergedUnSafe_def)
  qed
  then show ?thesis using sm_DecrementLease_agree [OF ag m] o1 by fastforce
qed

lemma decrements_only:
  assumes "shareds w sh = Some sm" "sm_owner sm = p" "sm_subsumed sm = g" "sm_enabled sm"
    and "agree sm (queues w)" and "only_lease c (Suc k) sm"
  shows "\<exists>w'. decrements (Suc k) (caller sh p g c) w = Inr (replicate k kRemainsMerged @ [kUnmergedNow], w') \<and>
    (\<exists>sm'. shareds w' sh = Some sm' \<and> sm_owner sm' = p \<and> sm_subsumed sm' = g \<and> agree sm' (queues w') \<and>
       \<not> sm_IsMergedUnSafe sm')"
  using assms
proof (induction k arbitrary: w sm)
  case (0 w sm)
  have ok: "omap_ok (lease_term_by_caller sm)" and pg: "p \<noteq> g" using 0 by (auto simp: agree_def)
  have m: "sm_IsMergedUnSafe sm" using only_lease_merged [OF ok 0(6)] by simp
  from sm_DecrementLease_only [OF 0(5,6)] obtain sm' tq' where
    d: "sm_DecrementLease c sm (queues w) = Inr (True, sm', tq')" "agree sm' tq'" "only_lease c 0 sm'"
       "sm_owner sm' = p" "sm_subsumed sm' = g"
    using 0(2,3) by auto
  then have "\<not> sm_IsMergedUnSafe sm'" using only_lease_merged [of sm' c 0] by (simp add: agree_def)
  with d 0 pg m show ?case
    by (auto simp: DecrementLease_def IsMergedUnSafe_def IsEnabledUnSafe_def shared_of_def Let_def)
next
  case (Suc k w sm)
  have ok: "omap_ok (lease_term_by_caller sm)" and pg: "p \<noteq> g" using Suc.prems by (auto simp: agree_def)
  have m: "sm_IsMergedUnSafe sm" using only_lease_merged [OF ok Suc.prems(6)] by simp
  from sm_DecrementLease_only [OF Suc.prems(5,6)] obtain sm' tq' where
    d: "sm_DecrementLease c sm (queues w) = Inr (False, sm', tq')" "agree sm' tq'" "only_lease c (Suc k) sm'"
       "sm_owner sm' = p" "sm_subsumed sm' = g" "sm_enabled sm'"
    using Suc.prems(2-4) by auto
  let ?w = "put_shared (caller sh p g c) sm' tq' w"
  have step: "DecrementLease (caller sh p g c) w = Inr (kRemainsMerged, ?w)"
    using d(1) Suc.prems pg m
    by (simp add: DecrementLease_def IsMergedUnSafe_def IsEnabledUnSafe_def shared_of_def Let_def)
  have "shareds ?w sh = Some sm'" "agree sm' (queues ?w)" using d by simp_all
  from Suc.IH [OF this(1) d(4-6) this(2) d(3)] step show ?case by auto
qed

section \<open>Properties of the mergers\<close>

text \<open>
  C13: However the callers that share a merger interleave \<open>MergeWithLease\<close>, \<open>ExtendLeaseTo\<close>,
  \<open>DecrementLease\<close>, \<open>Enable\<close> and \<open>Disable\<close>, as long as no check fails each of them sees \<open>IsMerged\<close>
  true exactly when the platform queue owns the raster queue in the task queues.
\<close>

theorem IsMerged_iff_Owns:
  assumes "world_agree sh p g w" and "run_ops (lease_step sh p g) w ops = Inr w'"
  shows "IsMerged (caller sh p g c) w' = Owns (queues w') p g"
proof -
  have "world_agree sh p g w'" using assms by (rule lease.run_inv)
  then obtain sm where sm: "shareds w' sh = Some sm" "sm_owner sm = p" "sm_subsumed sm = g" "agree sm (queues w')"
    by (auto simp: world_agree_def)
  moreover have "p \<noteq> g" using sm by (auto simp: agree_def)
  ultimately show ?thesis using agree_Owns [OF sm(4)]
    by (simp add: IsMerged_def IsMergedUnSafe_def shared_of_def)
qed

text \<open>
  A lease of \<open>n\<close> lasts exactly \<open>n\<close> decrements: merging with lease \<open>n\<close> from an unmerged, enabled
  state merges the queues, the first \<open>n - 1\<close> calls of \<open>DecrementLease\<close> report \<open>kRemainsMerged\<close>, the
  \<open>n\<close>th reports \<open>kUnmergedNow\<close>, and then the platform queue no longer owns the raster queue.
\<close>

theorem lease_lasts_n_decrements:
  assumes "shareds w sh = Some sm" and "sm_owner sm = p" and "sm_subsumed sm = g" and "sm_enabled sm"
    and "agree sm (queues w)" and "\<not> sm_IsMergedUnSafe sm" and "0 < n"
  shows "\<exists>w1 w2. MergeWithLease (caller sh p g c) n w = Inr w1 \<and> Owns (queues w1) p g = Inr True \<and>
    decrements n (caller sh p g c) w1 = Inr (replicate (n - 1) kRemainsMerged @ [kUnmergedNow], w2) \<and>
    Owns (queues w2) p g = Inr False"
proof -
  have ok: "omap_ok (lease_term_by_caller sm)" and pg: "p \<noteq> g" using assms by (auto simp: agree_def)
  from sm_MergeWithLease_agree [OF assms(5,7), of c] assms(2-4,6) obtain sm' tq' where
    m: "sm_MergeWithLease c n sm (queues w) = Inr (True, sm', tq')" "agree sm' tq'" "sm_IsMergedUnSafe sm'"
       "sm_owner sm' = p" "sm_subsumed sm' = g" "sm_enabled sm'"
       "lease_term_by_caller sm' = omap_insert c n (lease_term_by_caller sm)" by auto
  let ?w = "log_event (Notify c) (put_shared (caller sh p g c) sm' tq' w)"
  have step: "MergeWithLease (caller sh p g c) n w = Inr ?w"
    using m(1) assms pg
    by (simp add: MergeWithLease_def IsEnabledUnSafe_def IsMergedUnSafe_def shared_of_def run_callback_def)
  have "only_lease c (Suc (n - 1)) sm'"
    using m(7) assms(6,7) ok by (auto simp: only_lease_def merged_iff)
  moreover have "shareds ?w sh = Some sm'" "agree sm' (queues ?w)" using m by simp_all
  ultimately obtain w2 sm2 where
    "decrements (Suc (n - 1)) (caller sh p g c) ?w = Inr (replicate (n - 1) kRemainsMerged @ [kUnmergedNow], w2)"
    "sm_owner sm2 = p" "sm_subsumed sm2 = g" "agree sm2 (queues w2)" "\<not> sm_IsMergedUnSafe sm2"
    using decrements_only m(4-6) by blast
  then show ?thesis using step assms(7) agree_Owns [OF m(2)] agree_Owns [of sm2 "queues w2"] m by auto
qed

text \<open>Two queues created first, and a merger between them.\<close>

definition demo_world :: "string merger_world" where
  "demo_world = \<lparr>shareds = [0 \<mapsto> SharedThreadMerger 0 1],
     queues = snd (CreateTaskQueue (snd (CreateTaskQueue (MessageLoopTaskQueues 0)))), merger_log = []\<rparr>"

text \<open>
  \<open>UnMergeNowIfLastOne\<close> can leave the queues merged behind a merger that reports them unmerged:
  when the only other recorded caller has let its lease run out, its zero record keeps the record
  map non-empty, so nothing is unmerged although every lease is gone.
\<close>

theorem UnMergeNowIfLastOne_leaves_queues_merged:
  "\<exists>w. run_ops (lease_step 0 0 1) demo_world [L_Merge 10 2, L_Extend 20 1, L_Decrement 20] = Inr w \<and>
     (\<exists>w'. UnMergeNowIfLastOne (caller 0 0 1 10) w = Inr w' \<and>
        IsMerged (caller 0 0 1 10) w' = Inr False \<and> Owns (queues w') 0 1 = Inr True)"
proof -
  have "case run_ops (lease_step 0 0 1) demo_world [L_Merge 10 2, L_Extend 20 1, L_Decrement 20] of
      Inl _ \<Rightarrow> False
    | Inr w \<Rightarrow> (case UnMergeNowIfLastOne (caller 0 0 1 10) w of Inl _ \<Rightarrow> False
        | Inr w' \<Rightarrow> IsMerged (caller 0 0 1 10) w' = Inr False \<and> Owns (queues w') 0 1 = Inr True)"
    unfolding demo_world_def by code_simp
  then show ?thesis by (auto split: sum.splits)
qed

text \<open>
  A caller whose own lease has run out while another caller still holds one aborts the process
  with its next \<open>DecrementLease\<close>: the shared merger checks that the caller's lease is positive.
\<close>

theorem expired_lease_aborts:
  "bindr (run_ops (lease_step 0 0 1) demo_world [L_Merge 10 2, L_Extend 20 1, L_Decrement 20])
     (DecrementLease (caller 0 0 1 20)) = Inl Check_Failed"
proof -
  have "case bindr (run_ops (lease_step 0 0 1) demo_world [L_Merge 10 2, L_Extend 20 1, L_Decrement 20])
     (DecrementLease (caller 0 0 1 20)) of Inl e \<Rightarrow> e = Check_Failed | Inr _ \<Rightarrow> False"
    unfolding demo_world_def by code_simp
  then show ?thesis by (auto split: sum.splits)
qed

lemma demo_agree: "agree (SharedThreadMerger 0 1) (queues demo_world)"
proof -
  have inv: "tq_inv (queues demo_world)"
    unfolding demo_world_def merger_world.select_convs
    by (intro CreateTaskQueue_inv tq_inv_init)
      (simp_all add: CreateTaskQueue_def MessageLoopTaskQueues_def Let_def kUnmerged_def)
  have "queue_entries (queues demo_world) 0 = Some (TaskQueueEntry 0)"
    "queue_entries (queues demo_world) 1 = Some (TaskQueueEntry 1)"
    by (simp_all add: demo_world_def CreateTaskQueue_def MessageLoopTaskQueues_def Let_def)
  with inv show ?thesis
    by (auto simp: agree_def SharedThreadMerger_def TaskQueueEntry_def sm_IsMergedUnSafe_def
      IsAllLeaseTermsZeroUnSafe_def)
qed

lemma demo_world_agree: "world_agree 0 0 1 demo_world"
  using demo_agree by (auto simp: world_agree_def demo_world_def SharedThreadMerger_def)

theorem IsMerged_iff_Owns_witness:
  "\<exists>w. run_ops (lease_step 0 0 1) demo_world [L_Merge 10 2, L_Decrement 10] = Inr w \<and>
     IsMerged (caller 0 0 1 10) w = Owns (queues w) 0 1 \<and> Owns (queues w) 0 1 = Inr True"
proof -
  have "case run_ops (lease_step 0 0 1) demo_world [L_Merge 10 2, L_Decrement 10] of Inl _ \<Rightarrow> False
    | Inr w \<Rightarrow> Owns (queues w) 0 1 = Inr True"
    unfolding demo_world_def by code_simp
  then obtain w where w: "run_ops (lease_step 0 0 1) demo_world [L_Merge 10 2, L_Decrement 10] = Inr w"
    "Owns (queues w) 0 1 = Inr True" by (auto simp del: run_ops.simps split: sum.splits)
  from IsMerged_iff_Owns [OF demo_world_agree w(1), of 10] w show ?thesis by blast
qed

theorem lease_lasts_n_decrements_witness:
  "\<exists>w1 w2. MergeWithLease (caller 0 0 1 10) 3 demo_world = Inr w1 \<and>
    decrements 3 (caller 0 0 1 10) w1 = Inr ([kRemainsMerged, kRemainsMerged, kUnmergedNow], w2)"
proof -
  have "shareds demo_world 0 = Some (SharedThreadMerger 0 1)" by (simp add: demo_world_def)
  from lease_lasts_n_decrements [OF this _ _ _ demo_agree, of 0 1 3 10] show ?thesis
    by (auto simp: SharedThreadMerger_def sm_IsMergedUnSafe_def IsAllLeaseTermsZeroUnSafe_def numeral_3_eq_3)
qed

end
