(* ===== verification/Fml_Message_Loop.thy ===== *)
theory Fml_Message_Loop
  imports Fml_Task_Queues
begin

text \<open>
  \<open>fml/message_loop_impl\<close> and \<open>fml/task_runner\<close>: a message loop posts tasks to its queue and
  flushes the expired ones. Running a closure is the parameter \<open>exec\<close>: what the closure does to
  the task queues (it may register tasks, merge queues, fail). The list returned by a flush is the
  closures that ran, tasks and observers, in order. The platform's \<open>Run\<close> is the parameter \<open>run\<close>.
\<close>

(* map: fml/message_loop_task_queues.h 55 58 FlushType *)
datatype flush_type = kSingle | kAll

(* map: fml/message_loop_impl.h 31 75 MessageLoopImpl *)
record message_loop =
  loop_queue_id :: queue_id
  terminated :: bool

type_synonym 'c exec = "'c \<Rightarrow> 'c task_queues \<Rightarrow> 'c task_queues res"

text \<open>The \<open>Wakeable\<close> of a loop is its address \<open>this\<close>.\<close>

(* map: fml/message_loop_impl.cc 49 54 MessageLoopImpl::MessageLoopImpl *)
definition MessageLoopImpl :: "nat \<Rightarrow> 'c task_queues \<Rightarrow> (message_loop \<times> 'c task_queues) res" where
  "MessageLoopImpl this tq =
     (let (i, tq1) = CreateTaskQueue tq in
      bindr (SetWakeable tq1 i (Some this)) (\<lambda>tq2. Inr (\<lparr>loop_queue_id = i, terminated = False\<rparr>, tq2)))"

(* map: fml/message_loop_impl.cc 56 58 MessageLoopImpl::~MessageLoopImpl *)
definition loop_destroy :: "message_loop \<Rightarrow> 'c task_queues \<Rightarrow> 'c task_queues res" where
  "loop_destroy l tq = Dispose tq (loop_queue_id l)"

(* map: fml/message_loop_impl.cc 60 69 MessageLoopImpl::PostTask *)
definition PostTask :: "message_loop \<Rightarrow> 'c option \<Rightarrow> time_point \<Rightarrow> 'c task_queues \<Rightarrow> 'c task_queues res" where
  "PostTask l tk target_time tq =
     (case tk of None \<Rightarrow> Inl DCheck_Failed
      | Some c \<Rightarrow> if terminated l then Inr tq
                  else RegisterTask tq (loop_queue_id l) c target_time kUnspecified)"

text \<open>\<open>on_loop\<close>: the calling thread's current loop is this one.\<close>

(* map: fml/message_loop_impl.cc 71 82 MessageLoopImpl::AddTaskObserver *)
definition loop_AddTaskObserver ::
  "bool \<Rightarrow> message_loop \<Rightarrow> int \<Rightarrow> 'c option \<Rightarrow> 'c task_queues \<Rightarrow> 'c task_queues res" where
  "loop_AddTaskObserver on_loop l key callback tq =
     (case callback of None \<Rightarrow> Inl DCheck_Failed
      | Some cb \<Rightarrow> bindr (ensure DCheck_Failed on_loop) (\<lambda>_.
          AddTaskObserver tq (loop_queue_id l) key (Some cb)))"

(* map: fml/message_loop_impl.cc 84 89 MessageLoopImpl::RemoveTaskObserver *)
definition loop_RemoveTaskObserver ::
  "bool \<Rightarrow> message_loop \<Rightarrow> int \<Rightarrow> 'c task_queues \<Rightarrow> 'c task_queues res" where
  "loop_RemoveTaskObserver on_loop l key tq =
     bindr (ensure DCheck_Failed on_loop) (\<lambda>_. RemoveTaskObserver tq (loop_queue_id l) key)"

fun exec_all :: "'c exec \<Rightarrow> 'c list \<Rightarrow> 'c task_queues \<Rightarrow> 'c task_queues res" where
  "exec_all exec [] tq = Inr tq"
| "exec_all exec (c # cs) tq = bindr (exec c tq) (\<lambda>tq'. exec_all exec cs tq')"

text \<open>
  The flush loop need not end (a task may register another that is due); \<open>None\<close> is a loop that
  does not. \<open>log\<close> holds what has run so far.
\<close>

(* map: fml/message_loop_impl.cc 122 140 MessageLoopImpl::FlushTasks *)
partial_function (option) FlushTasks ::
  "'c exec \<Rightarrow> nat \<Rightarrow> queue_id \<Rightarrow> time_point \<Rightarrow> flush_type \<Rightarrow> 'c list \<Rightarrow> 'c task_queues
     \<Rightarrow> ('c list \<times> 'c task_queues) res option" where
  "FlushTasks exec thread q now type log tq =
     (case GetNextTaskToRun tq thread q now of
        Inl e \<Rightarrow> Some (Inl e)
      | Inr (invocation, tq1) \<Rightarrow>
        (case invocation of
           None \<Rightarrow> Some (Inr (log, tq1))
         | Some c \<Rightarrow>
           (case exec c tq1 of
              Inl e \<Rightarrow> Some (Inl e)
            | Inr tq2 \<Rightarrow>
              (case GetObserversToNotify tq2 q of
                 Inl e \<Rightarrow> Some (Inl e)
               | Inr observers \<Rightarrow>
                 (case exec_all exec observers tq2 of
                    Inl e \<Rightarrow> Some (Inl e)
                  | Inr tq3 \<Rightarrow>
                    if type = kSingle then Some (Inr (log @ c # observers, tq3))
                    else FlushTasks exec thread q now type (log @ c # observers) tq3)))))"

(* map: fml/message_loop_impl.cc 142 144 MessageLoopImpl::RunExpiredTasksNow *)
definition RunExpiredTasksNow where
  "RunExpiredTasksNow exec thread l now tq = FlushTasks exec thread (loop_queue_id l) now kAll [] tq"

(* map: fml/message_loop_impl.cc 146 148 MessageLoopImpl::RunSingleExpiredTaskNow *)
definition RunSingleExpiredTaskNow where
  "RunSingleExpiredTaskNow exec thread l now tq = FlushTasks exec thread (loop_queue_id l) now kSingle [] tq"

text \<open>\<open>run\<close> is the platform's event loop: the tasks it ran and the queues it left.\<close>

(* map: fml/message_loop_impl.cc 91 115 MessageLoopImpl::DoRun *)
definition DoRun :: "'c exec \<Rightarrow> (message_loop \<Rightarrow> 'c task_queues \<Rightarrow> 'c list \<times> 'c task_queues)
    \<Rightarrow> nat \<Rightarrow> time_point \<Rightarrow> message_loop \<Rightarrow> 'c task_queues
    \<Rightarrow> (message_loop \<times> 'c list \<times> 'c task_queues) res option" where
  "DoRun exec run thread now l tq =
     (if terminated l then Some (Inr (l, [], tq)) else
      let (ran, tq1) = run l tq; l' = l\<lparr>terminated := True\<rparr> in
      case RunExpiredTasksNow exec thread l' now tq1 of
        None \<Rightarrow> None
      | Some (Inl e) \<Rightarrow> Some (Inl e)
      | Some (Inr (log, tq2)) \<Rightarrow>
          Some (bindr (DisposeTasks tq2 (loop_queue_id l')) (\<lambda>tq3. Inr (l', ran @ log, tq3))))"

(* map: fml/message_loop_impl.cc 117 120 MessageLoopImpl::DoTerminate *)
definition DoTerminate :: "message_loop \<Rightarrow> message_loop" where
  "DoTerminate l = l\<lparr>terminated := True\<rparr>"

section \<open>\<open>TaskRunner\<close>\<close>

(* map: fml/task_runner.cc 24 26 TaskRunner::PostTask *)
definition runner_PostTask where
  "runner_PostTask l tk now tq = PostTask l tk now tq"

(* map: fml/task_runner.cc 28 31 TaskRunner::PostTaskForTime *)
definition PostTaskForTime where
  "PostTaskForTime l tk target_time tq = PostTask l tk target_time tq"

text \<open>\<open>TimePoint + TimeDelta\<close> wraps at 64 bits; a delay is a count of nanoseconds.\<close>

(* map: fml/task_runner.cc 33 36 TaskRunner::PostDelayedTask *)
definition PostDelayedTask where
  "PostDelayedTask l tk delay now tq = PostTask l tk (TimePoint (ticks now + delay)) tq"

text \<open>
  \<open>TaskRunnerChecker::RunsOnTheSameThread\<close>: the same queue, or one owns the other.
\<close>

(* map: fml/memory/task_runner_checker.cc fn TaskRunnerChecker::RunsOnTheSameThread( *)
definition RunsOnTheSameThread :: "queue_id \<Rightarrow> queue_id \<Rightarrow> 'c task_queues \<Rightarrow> bool res" where
  "RunsOnTheSameThread a b tq =
     (if a = b then Inr True
      else bindr (Owns tq a b) (\<lambda>o1. if o1 then Inr True
      else bindr (Owns tq b a) (\<lambda>o2. if o2 then Inr True else Inr False)))"

text \<open>\<open>current\<close> is the queue of the calling thread's loop, if the thread has one.\<close>

(* map: fml/task_runner.cc 43 53 TaskRunner::RunsTasksOnCurrentThread *)
definition RunsTasksOnCurrentThread :: "queue_id option \<Rightarrow> message_loop \<Rightarrow> 'c task_queues \<Rightarrow> bool res" where
  "RunsTasksOnCurrentThread current l tq =
     (case current of None \<Rightarrow> Inr False | Some c \<Rightarrow> RunsOnTheSameThread c (loop_queue_id l) tq)"

(* map: fml/task_runner.cc 55 63 TaskRunner::RunNowOrPostTask *)
definition RunNowOrPostTask where
  "RunNowOrPostTask exec current l c now tq =
     bindr (RunsTasksOnCurrentThread current l tq) (\<lambda>here.
       if here then exec c tq else runner_PostTask l (Some c) now tq)"

section \<open>Flushing quiet closures\<close>

text \<open>What \<open>GetObserversToNotify\<close> depends on.\<close>

definition obs_view :: "'c task_queue_entry \<Rightarrow> (int \<times> 'c) list \<times> queue_id list \<times> queue_id" where
  "obs_view e = (task_observers e, owner_of e, subsumed_by e)"

lemma collect_observers_cong:
  "(\<And>x. map_option obs_view (m' x) = map_option obs_view (m x)) \<Longrightarrow>
     collect_observers m' acc xs = collect_observers m acc xs"
proof (induction xs arbitrary: acc)
  case (Cons x xs)
  from Cons.prems [of x] Cons.IH [OF Cons.prems] show ?case
    by (cases "m x"; cases "m' x") (auto simp: obs_view_def)
qed simp

lemma GetObserversToNotify_cong:
  assumes "\<And>x. map_option obs_view (queue_entries t x) = map_option obs_view (queue_entries s x)"
  shows "GetObserversToNotify t q = GetObserversToNotify s q"
  using assms [of q] collect_observers_cong [OF assms]
  by (cases "queue_entries s q"; cases "queue_entries t q") (auto simp: GetObserversToNotify_def obs_view_def)

lemma collect_observers_total:
  "\<forall>x \<in> set xs. \<exists>e. m x = Some e \<Longrightarrow> \<exists>r. collect_observers m acc xs = Inr r"
  by (induction xs arbitrary: acc) auto

lemma GetObserversToNotify_total:
  assumes "tq_inv s" "queue_entries s q = Some e"
  shows "\<exists>os. GetObserversToNotify s q = Inr os"
proof -
  have "\<forall>x \<in> set (owner_of e). \<exists>e'. queue_entries s x = Some e'"
    using entry_ok_owned [OF assms] by blast
  from collect_observers_total [OF this] show ?thesis
    using assms(2) by (auto simp: GetObserversToNotify_def)
qed

definition quiet :: "'c exec \<Rightarrow> bool" where
  "quiet exec \<longleftrightarrow> (\<forall>c tq. exec c tq = Inr tq)"

lemma quiet_all: "quiet exec \<Longrightarrow> exec_all exec cs tq = Inr tq"
  by (induction cs) (auto simp: quiet_def)

definition due :: "time_point \<Rightarrow> 'c delayed_task multiset \<Rightarrow> 'c delayed_task multiset" where
  "due now M = {#t \<in># M. dt_target_time t \<le> now#}"

definition not_due :: "time_point \<Rightarrow> 'c delayed_task multiset \<Rightarrow> 'c delayed_task multiset" where
  "not_due now M = {#t \<in># M. now < dt_target_time t#}"

lemma flush_quiet:
  assumes q: "quiet exec" and inv: "tq_inv s" and e: "queue_entries s q = Some e"
    and os: "GetObserversToNotify s q = Inr os"
  shows "\<exists>ts s'. FlushTasks exec thread q now kAll log s =
        Some (Inr (log @ concat (map (\<lambda>t. dt_task t # os) ts), s')) \<and>
      mset ts = due now (pending s q) \<and> sorted_wrt (\<lambda>t u. \<not> task_gt t u) ts \<and>
      pending s' q = not_due now (pending s q) \<and> tq_inv s'"
  using inv e os
proof (induction "size (due now (pending s q))" arbitrary: s e log rule: less_induct)
  case less
  from GetNextTaskToRun_post [OF less.prems(1,2), of thread now] obtain r s1 where
    step: "GetNextTaskToRun s thread q now = Inr (r, s1)" and inv1: "tq_inv s1" and post: "run_post s q e now r s1"
    by blast
  show ?case
  proof (cases r)
    case None
    with post have nd: "\<forall>u \<in># pending s q. now < dt_target_time u" and same: "queue_entries s1 = queue_entries s"
      by (simp_all add: run_post_def)
    have "due now (pending s q) = {#}" "not_due now (pending s q) = pending s q"
      using nd by (auto simp: due_def not_due_def filter_mset_eq_conv not_le)
    moreover have "pending s1 q = pending s q" by (rule pending_cong [OF same])
    moreover have "FlushTasks exec thread q now kAll log s = Some (Inr (log, s1))"
      by (subst FlushTasks.simps) (simp add: step None)
    ultimately show ?thesis using inv1 by (intro exI [of _ "[]"] exI [of _ s1]) simp
  next
    case (Some c)
    with post obtain t x ex ts0 where t: "t \<in># pending s q" "dt_task t = c" "dt_target_time t \<le> now"
      "\<forall>u \<in># pending s q. \<not> task_gt t u" and p1: "pending s1 q = pending s q - {#t#}"
      and m: "queue_entries s x = Some ex" "queue_entries s1 = (queue_entries s)(x \<mapsto> ex\<lparr>task_source := ts0\<rparr>)"
      by (auto simp: run_post_def)
    obtain e1 where e1: "queue_entries s1 q = Some e1" using less.prems(2) m by (cases "x = q") auto
    have os1: "GetObserversToNotify s1 q = Inr os"
      by (subst GetObserversToNotify_cong [where s = s]) (use m less.prems(3) in \<open>auto simp: obs_view_def\<close>)
    have d: "due now (pending s q) = add_mset t (due now (pending s1 q))"
      using t(1,3) p1 by (auto simp: due_def multiset_eq_iff)
    have nd: "not_due now (pending s1 q) = not_due now (pending s q)"
      using t(3) p1 by (auto simp: not_due_def multiset_eq_iff)
    have "size (due now (pending s1 q)) < size (due now (pending s q))" using d by simp
    from less.hyps [OF this inv1 e1 os1, of "log @ c # os"] obtain ts s' where
      ih: "FlushTasks exec thread q now kAll (log @ c # os) s1 =
             Some (Inr ((log @ c # os) @ concat (map (\<lambda>t. dt_task t # os) ts), s'))"
        "mset ts = due now (pending s1 q)" "sorted_wrt (\<lambda>t u. \<not> task_gt t u) ts"
        "pending s' q = not_due now (pending s1 q)" "tq_inv s'" by blast
    have "exec c s1 = Inr s1" using q by (simp add: quiet_def)
    then have run: "FlushTasks exec thread q now kAll log s = FlushTasks exec thread q now kAll (log @ c # os) s1"
      by (subst FlushTasks.simps) (simp add: step Some os1 quiet_all [OF q])
    have "\<forall>u \<in> set ts. \<not> task_gt t u"
    proof
      fix u assume "u \<in> set ts"
      then have "u \<in># pending s1 q" using ih(2) by (metis due_def filter_mset_eq_conv mset_subset_eqD
            multiset_filter_subset set_mset_mset)
      then have "u \<in># pending s q" unfolding p1 by (rule in_diffD)
      with t(4) show "\<not> task_gt t u" by blast
    qed
    with ih run d nd t(2) show ?thesis by (intro exI [of _ "t # ts"] exI [of _ s']) simp
  qed
qed

section \<open>Properties of the message loop\<close>

text \<open>
  C15: On a live queue, \<open>FlushTasks(kAll)\<close> with closures that leave the queues alone returns; it runs
  exactly the due tasks that the queue serves, each once, in the order of target time and then of
  registration, each followed by the observers; the tasks that are not yet due stay pending.
\<close>

theorem FlushTasks_runs_due_tasks_in_order:
  assumes "quiet exec" and "tq_reached thread0 ops s" and "queue_entries s q = Some e"
  shows "\<exists>os ts s'. GetObserversToNotify s q = Inr os \<and>
    FlushTasks exec thread q now kAll [] s = Some (Inr (concat (map (\<lambda>t. dt_task t # os) ts), s')) \<and>
    mset ts = due now (pending s q) \<and> sorted_wrt (\<lambda>t u. \<not> task_gt t u) ts \<and>
    pending s' q = not_due now (pending s q)"
proof -
  have inv: "tq_inv s" by (rule tq_reached_inv [OF assms(2)])
  obtain os where "GetObserversToNotify s q = Inr os" using GetObserversToNotify_total [OF inv assms(3)] by blast
  with flush_quiet [OF assms(1) inv assms(3) this, of thread now "[]"] show ?thesis by auto
qed

theorem FlushTasks_runs_due_tasks_in_order_witness:
  "\<exists>s s'. tq_reached 0 demo_ops s \<and>
     FlushTasks (\<lambda>_ tq. Inr tq) 0 0 (TimePoint 9) kAll [] s = Some (Inr ([''micro'', ''late''], s'))"
proof -
  obtain s e where s: "tq_reached 0 demo_ops s" "queue_entries s 0 = Some e" using demo_run by metis
  have q: "quiet (\<lambda>_ tq. Inr tq)" by (simp add: quiet_def)
  have "case run_ops tq_step (MessageLoopTaskQueues 0) demo_ops of Inl _ \<Rightarrow> False
    | Inr s \<Rightarrow> GetObserversToNotify s 0 = Inr [] \<and>
       image_mset (\<lambda>t. (dt_task t, ticks (dt_target_time t))) (pending s 0) =
         {#(''micro'', 3), (''late'', 5)#}"
    unfolding demo_ops_def by code_simp
  then have os: "GetObserversToNotify s 0 = Inr []" and
    im: "image_mset (\<lambda>t. (dt_task t, ticks (dt_target_time t))) (pending s 0) = {#(''micro'', 3), (''late'', 5)#}"
    using s(1) by (auto simp del: run_ops.simps)
  obtain ts s' where f: "FlushTasks (\<lambda>_ tq. Inr tq) 0 0 (TimePoint 9) kAll [] s =
      Some (Inr (concat (map (\<lambda>t. [dt_task t]) ts), s'))"
    "mset ts = due (TimePoint 9) (pending s 0)" "sorted_wrt (\<lambda>t u. \<not> task_gt t u) ts"
    using FlushTasks_runs_due_tasks_in_order [OF q s, of 0 "TimePoint 9"] os by auto
  from im obtain a b where ab: "pending s 0 = {#a, b#}" "dt_task a = ''micro''" "ticks (dt_target_time a) = 3"
    "dt_task b = ''late''" "ticks (dt_target_time b) = 5"
    by (auto dest!: msed_map_invR)
  have "dt_target_time a = TimePoint 3" "dt_target_time b = TimePoint 5"
    using ab by (metis time_point.collapse)+
  then have le: "dt_target_time a \<le> TimePoint 9" "dt_target_time b \<le> TimePoint 9" "task_gt b a"
    by (simp_all add: less_eq_time_point_def less_time_point_def task_gt_def)
  then have "mset ts = {#a, b#}" using f(2) ab(1) by (simp add: due_def)
  then have "ts = [a, b]" using f(3) le(3)
    by (cases ts; cases "tl ts"; cases "tl (tl ts)") (auto simp: add_eq_conv_ex)
  with f(1) ab s(1) show ?thesis by auto
qed

end
