(* ===== verification/Ieee_Double.thy ===== *)
theory Ieee_Double
  imports Prelude
begin

text \<open>
  Floating-point values as their bits, with the comparisons of IEEE 754: a NaN differs from
  everything and is not ordered, the two zeros are equal.
\<close>

unbundle bit_operations_syntax

section \<open>Doubles as bits\<close>

type_synonym double = "64 word"

definition double_is_nan :: "double \<Rightarrow> bool" where
  "double_is_nan d \<longleftrightarrow> d AND mask 63 > push_bit 52 (mask 11)"

definition double_eq :: "double \<Rightarrow> double \<Rightarrow> bool" where
  "double_eq a b \<longleftrightarrow> \<not> double_is_nan a \<and> \<not> double_is_nan b \<and>
     (a = b \<or> a AND mask 63 = 0 \<and> b AND mask 63 = 0)"

definition double_zero :: double where
  "double_zero = 0"

definition double_one :: double where
  "double_one = 0x3FF0000000000000"

text \<open>The order: the magnitude below the sign bit, with the sign; nothing is less than or above a NaN.\<close>

definition float_is_nan :: "32 word \<Rightarrow> bool" where
  "float_is_nan f \<longleftrightarrow> f AND mask 31 > push_bit 23 (mask 8)"

definition signed_magnitude :: "'a::len word \<Rightarrow> int" where
  "signed_magnitude d =
     (let m = int (unat (take_bit (LENGTH('a) - 1) d)) in if bit d (LENGTH('a) - 1) then - m else m)"

definition double_less :: "double \<Rightarrow> double \<Rightarrow> bool" where
  "double_less a b \<longleftrightarrow> \<not> double_is_nan a \<and> \<not> double_is_nan b \<and> signed_magnitude a < signed_magnitude b"

definition float_less :: "32 word \<Rightarrow> 32 word \<Rightarrow> bool" where
  "float_less a b \<longleftrightarrow> \<not> float_is_nan a \<and> \<not> float_is_nan b \<and> signed_magnitude a < signed_magnitude b"

text \<open>Equality of \<open>float\<close> values, and the test that neither an infinity nor a NaN passes.\<close>

type_synonym SkScalar = "32 word"

definition float_eq :: "SkScalar \<Rightarrow> SkScalar \<Rightarrow> bool" where
  "float_eq a b \<longleftrightarrow> \<not> float_is_nan a \<and> \<not> float_is_nan b \<and>
     (a = b \<or> a AND mask 31 = 0 \<and> b AND mask 31 = 0)"

definition SkScalarIsFinite :: "SkScalar \<Rightarrow> bool" where
  "SkScalarIsFinite f \<longleftrightarrow> f AND mask 31 < push_bit 23 (mask 8)"

definition float_one :: SkScalar where
  "float_one = 0x3F800000"

lemma float_eq_sym: "float_eq a b \<longleftrightarrow> float_eq b a"
  by (auto simp: float_eq_def)

text \<open>Two values that the code takes to be the same position: the same bits, or IEEE-equal.\<close>

definition double_same :: "double \<Rightarrow> double \<Rightarrow> bool" where
  "double_same a b \<longleftrightarrow> a = b \<or> double_eq a b"

lemma double_same_refl [simp]: "double_same a a"
  by (simp add: double_same_def)

end
