(* ===== verification/Pointer_Data.thy ===== *)
theory Pointer_Data
  imports Ieee_Double
begin

text \<open>
  \<open>lib/ui/window/pointer_data\<close> and \<open>pointer_data_packet\<close>: the pointer events of the embedding.
  The result of a floating-point subtraction is a parameter of the operations that subtract. The values of an \<open>int64_t\<close> field are integers.
\<close>

section \<open>Pointer data\<close>

text \<open>\<open>Change_Other\<close> and \<open>Signal_Other\<close> are integers of the field that name no enumerator.\<close>

(* map: lib/ui/window/pointer_data.h 38 49 PointerData::Change *)
datatype change =
    kCancel | kAdd | kRemove | kHover | kDown | kMove | kUp
  | kPanZoomStart | kPanZoomUpdate | kPanZoomEnd | Change_Other int

(* map: lib/ui/window/pointer_data.h 52 58 PointerData::DeviceKind *)
datatype device_kind = kTouch | kMouse | kStylus | kInvertedStylus | kTrackpad | Kind_Other int

(* map: lib/ui/window/pointer_data.h 61 66 PointerData::SignalKind *)
datatype signal_kind = kNone | kScroll | kScrollInertiaCancel | kScale | Signal_Other int

(* map: lib/ui/window/pointer_data.h 36 105 PointerData *)
record pointer_data =
  embedder_id :: int
  time_stamp :: int
  change :: change
  kind :: device_kind
  signal_kind :: signal_kind
  device :: int
  pointer_identifier :: int
  physical_x :: double
  physical_y :: double
  physical_delta_x :: double
  physical_delta_y :: double
  buttons :: int
  obscured :: int
  synthesized :: int
  pressure :: double
  pressure_min :: double
  pressure_max :: double
  distance :: double
  distance_max :: double
  pd_size :: double
  radius_major :: double
  radius_minor :: double
  radius_min :: double
  radius_max :: double
  orientation :: double
  tilt :: double
  platformData :: int
  scroll_delta_x :: double
  scroll_delta_y :: double
  pan_x :: double
  pan_y :: double
  pan_delta_x :: double
  pan_delta_y :: double
  scale :: double
  rotation :: double

(* map: lib/ui/window/pointer_data.cc 14 16 PointerData::Clear *)
definition pointer_data_zero :: pointer_data where
  "pointer_data_zero =
     \<lparr>embedder_id = 0, time_stamp = 0, change = kCancel, kind = kTouch, signal_kind = kNone, device = 0,
      pointer_identifier = 0, physical_x = 0, physical_y = 0, physical_delta_x = 0, physical_delta_y = 0,
      buttons = 0, obscured = 0, synthesized = 0, pressure = 0, pressure_min = 0, pressure_max = 0,
      distance = 0, distance_max = 0, pd_size = 0, radius_major = 0, radius_minor = 0, radius_min = 0,
      radius_max = 0, orientation = 0, tilt = 0, platformData = 0, scroll_delta_x = 0, scroll_delta_y = 0,
      pan_x = 0, pan_y = 0, pan_delta_x = 0, pan_delta_y = 0, scale = 0, rotation = 0\<rparr>"

section \<open>Packets\<close>

text \<open>
  The byte buffer of a packet is the sequence of its whole \<open>PointerData\<close> records; bytes beyond the
  last whole record are never read.
\<close>

(* map: lib/ui/window/pointer_data_packet.h 16 31 PointerDataPacket *)
type_synonym pointer_packet = "pointer_data list"

(* map: lib/ui/window/pointer_data_packet.cc 12 13 PointerDataPacket::PointerDataPacket *)
definition PointerDataPacket :: "nat \<Rightarrow> pointer_packet" where
  "PointerDataPacket n = replicate n pointer_data_zero"

(* map: lib/ui/window/pointer_data_packet.cc 32 34 PointerDataPacket::GetLength *)
definition GetLength :: "pointer_packet \<Rightarrow> nat" where
  "GetLength p = length p"

(* map: lib/ui/window/pointer_data_packet.cc 20 23 PointerDataPacket::SetPointerData *)
definition SetPointerData :: "nat \<Rightarrow> pointer_data \<Rightarrow> pointer_packet \<Rightarrow> pointer_packet res" where
  "SetPointerData i d p = bindr (ensure DCheck_Failed (i < GetLength p)) (\<lambda>_. Inr (p[i := d]))"

(* map: lib/ui/window/pointer_data_packet.cc 25 30 PointerDataPacket::GetPointerData *)
definition GetPointerData :: "nat \<Rightarrow> pointer_packet \<Rightarrow> pointer_data res" where
  "GetPointerData i p = bindr (ensure DCheck_Failed (i < GetLength p)) (\<lambda>_. Inr (p ! i))"

text \<open>Writing a list of records into a fresh packet, slot by slot, gives the list back.\<close>

fun write_packet :: "nat \<Rightarrow> pointer_data list \<Rightarrow> pointer_packet \<Rightarrow> pointer_packet res" where
  "write_packet i [] p = Inr p"
| "write_packet i (d # ds) p = bindr (SetPointerData i d p) (\<lambda>p'. write_packet (Suc i) ds p')"

lemma write_packet_eq:
  "length done' + length ds = length p \<Longrightarrow> take (length done') p = done' \<Longrightarrow>
     write_packet (length done') ds p = Inr (done' @ ds)"
proof (induction ds arbitrary: done' p)
  case (Cons d ds)
  have "write_packet (length (done' @ [d])) ds (p[length done' := d]) = Inr ((done' @ [d]) @ ds)"
    using Cons.prems by (intro Cons.IH) (auto simp: take_Suc_conv_app_nth take_update_cancel)
  with Cons.prems show ?case by (simp add: SetPointerData_def GetLength_def)
qed simp

lemma write_packet_fresh: "write_packet 0 ds (PointerDataPacket (length ds)) = Inr ds"
  using write_packet_eq [of "[]" ds "PointerDataPacket (length ds)"] by (simp add: PointerDataPacket_def)

end
