(* ===== verification/Pointer_Converter.thy ===== *)
theory Pointer_Converter
  imports Pointer_Data
begin

text \<open>
  \<open>lib/ui/window/pointer_data_packet_converter\<close>: fills in the pointer identifiers and deltas of the
  events the embedding sends and synthesizes the events that make the stream legal. \<open>sub\<close> is the
  floating-point subtraction. \<open>EnsurePointerState\<close> leaves \<open>scale\<close>, \<open>rotation\<close> and \<open>buttons\<close> of the
  new state uninitialised: \<open>junk\<close> gives whatever they hold.
\<close>

section \<open>State\<close>

(* map: lib/ui/window/pointer_data_packet_converter.h 30 41 PointerState *)
record pointer_state =
  ps_identifier :: int
  is_down :: bool
  is_pan_zoom_active :: bool
  ps_x :: double
  ps_y :: double
  ps_pan_x :: double
  ps_pan_y :: double
  ps_scale :: double
  ps_rotation :: double
  ps_buttons :: int

(* map: lib/ui/window/pointer_data_packet_converter.h 76 119 PointerDataPacketConverter *)
record converter =
  states :: "int \<rightharpoonup> pointer_state"
  last_pointer :: int

(* map: lib/ui/window/pointer_data_packet_converter.cc 14 14 PointerDataPacketConverter::PointerDataPacketConverter *)
definition PointerDataPacketConverter :: converter where
  "PointerDataPacketConverter = \<lparr>states = Map.empty, last_pointer = 0\<rparr>"

section \<open>Helpers\<close>

abbreviation store :: "int \<Rightarrow> pointer_state \<Rightarrow> converter \<Rightarrow> converter" where
  "store d st c \<equiv> c\<lparr>states := (states c)(d \<mapsto> st)\<rparr>"

(* map: lib/ui/window/pointer_data_packet_converter.cc fn PointerDataPacketConverter::EnsurePointerState( *)
definition EnsurePointerState ::
  "(pointer_data \<Rightarrow> pointer_state) \<Rightarrow> pointer_data \<Rightarrow> converter \<Rightarrow> pointer_state \<times> converter" where
  "EnsurePointerState junk pd c =
     (let st = (junk pd)\<lparr>ps_identifier := 0, is_down := False, is_pan_zoom_active := False,
                 ps_x := physical_x pd, ps_y := physical_y pd, ps_pan_x := 0, ps_pan_y := 0\<rparr>
      in (st, store (device pd) st c))"

(* map: lib/ui/window/pointer_data_packet_converter.cc fn PointerDataPacketConverter::UpdateDeltaAndState( *)
definition UpdateDeltaAndState ::
  "(double \<Rightarrow> double \<Rightarrow> double) \<Rightarrow> pointer_data \<Rightarrow> pointer_state \<Rightarrow> converter
     \<Rightarrow> pointer_data \<times> pointer_state \<times> converter" where
  "UpdateDeltaAndState sub pd st c =
     (let pd' = pd\<lparr>physical_delta_x := sub (physical_x pd) (ps_x st),
                   physical_delta_y := sub (physical_y pd) (ps_y st),
                   pan_delta_x := sub (pan_x pd) (ps_pan_x st),
                   pan_delta_y := sub (pan_y pd) (ps_pan_y st)\<rparr>;
          st' = st\<lparr>ps_x := physical_x pd, ps_y := physical_y pd, ps_pan_x := pan_x pd,
                   ps_pan_y := pan_y pd, ps_scale := scale pd, ps_rotation := rotation pd\<rparr>
      in (pd', st', store (device pd) st' c))"

(* map: lib/ui/window/pointer_data_packet_converter.cc fn PointerDataPacketConverter::LocationNeedsUpdate( *)
definition LocationNeedsUpdate :: "pointer_data \<Rightarrow> pointer_state \<Rightarrow> bool" where
  "LocationNeedsUpdate pd st \<longleftrightarrow>
     \<not> double_eq (ps_x st) (physical_x pd) \<or> \<not> double_eq (ps_y st) (physical_y pd)"

(* map: lib/ui/window/pointer_data_packet_converter.cc fn PointerDataPacketConverter::UpdatePointerIdentifier( *)
definition UpdatePointerIdentifier ::
  "pointer_data \<Rightarrow> pointer_state \<Rightarrow> bool \<Rightarrow> converter \<Rightarrow> pointer_data \<times> pointer_state \<times> converter" where
  "UpdatePointerIdentifier pd st start_new_pointer c =
     (let (st', c') = (if start_new_pointer
            then let p = last_pointer c + 1; st' = st\<lparr>ps_identifier := p\<rparr>
                 in (st', store (device pd) st' (c\<lparr>last_pointer := p\<rparr>))
            else (st, c))
      in (pd\<lparr>pointer_identifier := ps_identifier st'\<rparr>, st', c'))"

text \<open>The synthesized events: a copy of the event with another change, marked as synthesized.\<close>

(* map: lib/ui/window/pointer_data_packet_converter.cc 55 57 ConvertPointerData:synthesized *)
definition synthesize :: "change \<Rightarrow> pointer_data \<Rightarrow> pointer_data" where
  "synthesize ch pd = pd\<lparr>change := ch, synthesized := 1\<rparr>"

text \<open>
  The block that several cases share: look the device up, and add it with a synthesized
  \<open>kAdd\<close> when it is not known.
\<close>

(* map: lib/ui/window/pointer_data_packet_converter.cc 110 122 ConvertPointerData:synthesized_add_event *)
definition find_or_add :: "(pointer_data \<Rightarrow> pointer_state) \<Rightarrow> pointer_data \<Rightarrow> converter
    \<Rightarrow> pointer_state \<times> converter \<times> pointer_data list" where
  "find_or_add junk pd c =
     (case states c (device pd) of
        None \<Rightarrow> let add = (synthesize kAdd pd)\<lparr>buttons := 0\<rparr>; (st, c') = EnsurePointerState junk add c
                in (st, c', [add])
      | Some st \<Rightarrow> (st, c, []))"

text \<open>Dereferencing the end iterator after the failed \<open>FML_DCHECK\<close>.\<close>

(* map: lib/ui/window/pointer_data_packet_converter.cc 79 81 ConvertPointerData:iter *)
definition find_checked :: "pointer_data \<Rightarrow> converter \<Rightarrow> pointer_state res" where
  "find_checked pd c = (case states c (device pd) of None \<Rightarrow> Inl DCheck_Failed | Some st \<Rightarrow> Inr st)"

text \<open>A synthesized event that moves the pointer, when the location of the event is not the known one.\<close>

(* map: lib/ui/window/pointer_data_packet_converter.cc 53 61 ConvertPointerData:synthesized_move_event *)
definition sync_location :: "(double \<Rightarrow> double \<Rightarrow> double) \<Rightarrow> pointer_data \<Rightarrow> pointer_data \<Rightarrow> pointer_state
    \<Rightarrow> converter \<Rightarrow> pointer_state \<times> converter \<times> pointer_data list" where
  "sync_location sub pd syn st c =
     (if LocationNeedsUpdate pd st
      then let (syn', st', c') = UpdateDeltaAndState sub syn st c in (st', c', [syn'])
      else (st, c, []))"

section \<open>Converting one event\<close>

type_synonym converted = "(converter \<times> pointer_data list) res"

(* map: lib/ui/window/pointer_data_packet_converter.cc 44 70 ConvertPointerData:cancel *)
definition convert_cancel where
  "convert_cancel sub pd c =
     (case states c (device pd) of
        None \<Rightarrow> Inr (c, [])
      | Some st \<Rightarrow>
          bindr (ensure DCheck_Failed (is_down st)) (\<lambda>_.
            let (pd1, st1, c1) = UpdatePointerIdentifier pd st False c;
                (st2, c2, syn) = sync_location sub pd1 (synthesize kMove pd1) st1 c1
            in Inr (store (device pd1) (st2\<lparr>is_down := False\<rparr>) c2, syn @ [pd1])))"

(* map: lib/ui/window/pointer_data_packet_converter.cc 71 76 ConvertPointerData:add *)
definition convert_add where
  "convert_add junk pd c =
     bindr (ensure DCheck_Failed (states c (device pd) = None)) (\<lambda>_.
       Inr (snd (EnsurePointerState junk pd c), [pd]))"

(* map: lib/ui/window/pointer_data_packet_converter.cc 77 108 ConvertPointerData:remove *)
definition convert_remove where
  "convert_remove sub pd c =
     bindr (find_checked pd c) (\<lambda>st.
       let (st1, c1, cancelled) =
             (if is_down st
              then let (syn, st', c') = UpdatePointerIdentifier (synthesize kCancel pd) st False c;
                       st'' = st'\<lparr>is_down := False\<rparr>
                   in (st'', store (device syn) st'' c', [syn])
              else (st, c, []));
           (st2, c2, hovered) = sync_location sub pd (synthesize kHover pd) st1 c1
       in Inr (c2\<lparr>states := (states c2)(device pd := None)\<rparr>, cancelled @ hovered @ [pd]))"

(* map: lib/ui/window/pointer_data_packet_converter.cc 109 131 ConvertPointerData:hover *)
definition convert_hover where
  "convert_hover sub junk pd c =
     (let (st, c1, added) = find_or_add junk pd c in
      bindr (ensure DCheck_Failed (\<not> is_down st)) (\<lambda>_.
        let st1 = st\<lparr>ps_buttons := buttons pd\<rparr> in
        if LocationNeedsUpdate pd st1
        then let (pd', _, c2) = UpdateDeltaAndState sub pd st1 c1 in Inr (c2, added @ [pd'])
        else Inr (c1, added)))"

(* map: lib/ui/window/pointer_data_packet_converter.cc 132 165 ConvertPointerData:down *)
definition convert_down where
  "convert_down sub junk pd c =
     (let (st, c1, added) = find_or_add junk pd c in
      bindr (ensure DCheck_Failed (\<not> is_down st)) (\<lambda>_.
        let (st1, c2, hovered) = sync_location sub pd ((synthesize kHover pd)\<lparr>buttons := 0\<rparr>) st c1;
            (pd', st2, c3) = UpdatePointerIdentifier pd st1 True c2
        in Inr (store (device pd') (st2\<lparr>is_down := True, ps_buttons := buttons pd'\<rparr>) c3,
                added @ hovered @ [pd'])))"

text \<open>\<open>state.buttons = pointer_data.buttons\<close> comes after the state was stored and is lost.\<close>

(* map: lib/ui/window/pointer_data_packet_converter.cc 166 178 ConvertPointerData:move *)
definition convert_move where
  "convert_move sub pd c =
     bindr (find_checked pd c) (\<lambda>st.
     bindr (ensure DCheck_Failed (is_down st)) (\<lambda>_.
       let (pd1, st1, c1) = UpdatePointerIdentifier pd st False c;
           (pd2, st2, c2) = UpdateDeltaAndState sub pd1 st1 c1
       in Inr (c2, [pd2])))"

(* map: lib/ui/window/pointer_data_packet_converter.cc 179 204 ConvertPointerData:up *)
definition convert_up where
  "convert_up sub pd c =
     bindr (find_checked pd c) (\<lambda>st.
     bindr (ensure DCheck_Failed (is_down st)) (\<lambda>_.
       let (pd1, st1, c1) = UpdatePointerIdentifier pd st False c;
           (st2, c2, moved) = sync_location sub pd1 ((synthesize kMove pd1)\<lparr>buttons := ps_buttons st1\<rparr>) st1 c1
       in Inr (store (device pd1) (st2\<lparr>is_down := False, ps_buttons := buttons pd1\<rparr>) c2, moved @ [pd1])))"

(* map: lib/ui/window/pointer_data_packet_converter.cc 205 242 ConvertPointerData:pan_zoom_start *)
definition convert_pan_zoom_start where
  "convert_pan_zoom_start sub junk pd c =
     (let (st, c1, added) = find_or_add junk pd c in
      bindr (ensure DCheck_Failed (\<not> is_down st)) (\<lambda>_.
      bindr (ensure DCheck_Failed (\<not> is_pan_zoom_active st)) (\<lambda>_.
        let (st1, c2, hovered) = sync_location sub pd ((synthesize kHover pd)\<lparr>buttons := 0\<rparr>) st c1;
            (pd', st2, c3) = UpdatePointerIdentifier pd st1 True c2
        in Inr (store (device pd') (st2\<lparr>is_pan_zoom_active := True, ps_pan_x := double_zero, ps_pan_y := double_zero,
                                       ps_scale := double_one, ps_rotation := double_zero\<rparr>) c3,
                added @ hovered @ [pd']))))"

(* map: lib/ui/window/pointer_data_packet_converter.cc 243 256 ConvertPointerData:pan_zoom_update *)
definition convert_pan_zoom_update where
  "convert_pan_zoom_update sub pd c =
     bindr (find_checked pd c) (\<lambda>st.
     bindr (ensure DCheck_Failed (\<not> is_down st)) (\<lambda>_.
     bindr (ensure DCheck_Failed (is_pan_zoom_active st)) (\<lambda>_.
       let (pd1, st1, c1) = UpdatePointerIdentifier pd st False c;
           (pd2, st2, c2) = UpdateDeltaAndState sub pd1 st1 c1
       in Inr (c2, [pd2]))))"

(* map: lib/ui/window/pointer_data_packet_converter.cc 257 286 ConvertPointerData:pan_zoom_end *)
definition convert_pan_zoom_end where
  "convert_pan_zoom_end sub pd c =
     bindr (find_checked pd c) (\<lambda>st.
     bindr (ensure DCheck_Failed (is_pan_zoom_active st)) (\<lambda>_.
       let (pd1, st1, c1) = UpdatePointerIdentifier pd st False c;
           syn = (synthesize kPanZoomUpdate pd1)
             \<lparr>pan_x := ps_pan_x st1, pan_y := ps_pan_y st1, pan_delta_x := double_zero, pan_delta_y := double_zero,
              scale := ps_scale st1, rotation := ps_rotation st1\<rparr>;
           (st2, c2, updated) = sync_location sub pd1 syn st1 c1
       in Inr (store (device pd1) (st2\<lparr>is_pan_zoom_active := False\<rparr>) c2, updated @ [pd1])))"

(* map: lib/ui/window/pointer_data_packet_converter.cc 294 341 ConvertPointerData:signal *)
definition convert_signal where
  "convert_signal sub junk pd c =
     (let (st, c1, added) =
           (case states c (device pd) of
              None \<Rightarrow> let add = (synthesize kAdd pd)\<lparr>signal_kind := kNone, buttons := 0\<rparr>;
                          (st, c') = EnsurePointerState junk add c
                      in (st, c', [add])
            | Some st \<Rightarrow> (st, c, []));
          syn = (if is_down st
                 then (synthesize kMove pd)\<lparr>signal_kind := kNone, buttons := ps_buttons st\<rparr>
                 else (synthesize kHover pd)\<lparr>signal_kind := kNone, buttons := 0\<rparr>);
          (_, c2, moved) = sync_location sub pd syn st c1
      in Inr (c2, added @ moved @ [pd]))"

(* map: lib/ui/window/pointer_data_packet_converter.cc 39 348 PointerDataPacketConverter::ConvertPointerData *)
definition ConvertPointerData :: "(double \<Rightarrow> double \<Rightarrow> double) \<Rightarrow> (pointer_data \<Rightarrow> pointer_state)
    \<Rightarrow> pointer_data \<Rightarrow> converter \<Rightarrow> converted" where
  "ConvertPointerData sub junk pd c =
     (case signal_kind pd of
        kNone \<Rightarrow>
          (case change pd of
             kCancel \<Rightarrow> convert_cancel sub pd c
           | kAdd \<Rightarrow> convert_add junk pd c
           | kRemove \<Rightarrow> convert_remove sub pd c
           | kHover \<Rightarrow> convert_hover sub junk pd c
           | kDown \<Rightarrow> convert_down sub junk pd c
           | kMove \<Rightarrow> convert_move sub pd c
           | kUp \<Rightarrow> convert_up sub pd c
           | kPanZoomStart \<Rightarrow> convert_pan_zoom_start sub junk pd c
           | kPanZoomUpdate \<Rightarrow> convert_pan_zoom_update sub pd c
           | kPanZoomEnd \<Rightarrow> convert_pan_zoom_end sub pd c
           | Change_Other _ \<Rightarrow> Inr (c, [pd]))
      | Signal_Other _ \<Rightarrow> Inr (c, [])
      | _ \<Rightarrow> convert_signal sub junk pd c)"

(* map: lib/ui/window/pointer_data_packet_converter.cc 22 26 PointerDataPacketConverter::Convert:loop *)
fun convert_all :: "(double \<Rightarrow> double \<Rightarrow> double) \<Rightarrow> (pointer_data \<Rightarrow> pointer_state)
    \<Rightarrow> pointer_data list \<Rightarrow> pointer_data list \<Rightarrow> converter \<Rightarrow> converted" where
  "convert_all sub junk [] out c = Inr (c, out)"
| "convert_all sub junk (pd # pds) out c =
     bindr (ConvertPointerData sub junk pd c) (\<lambda>(c', evs). convert_all sub junk pds (out @ evs) c')"

(* map: lib/ui/window/pointer_data_packet_converter.cc fn PointerDataPacketConverter::Convert( *)
definition Convert :: "(double \<Rightarrow> double \<Rightarrow> double) \<Rightarrow> (pointer_data \<Rightarrow> pointer_state)
    \<Rightarrow> pointer_packet \<Rightarrow> converter \<Rightarrow> (converter \<times> pointer_packet) res" where
  "Convert sub junk packet c =
     bindr (convert_all sub junk packet [] c) (\<lambda>(c', converted_pointers).
     bindr (write_packet 0 converted_pointers (PointerDataPacket (length converted_pointers))) (\<lambda>converted_packet.
       Inr (c', converted_packet)))"


section \<open>The protocol of the framework\<close>

text \<open>
  What the framework relies on, as an automaton over the output stream: a device is added before
  it is used and removed at most once, presses and pan-zoom gestures alternate, each new gesture
  has the next identifier and the events within it carry it, an event that does not move the
  pointer is at the pointer's last reported position, and one that does carries the difference.
  With \<open>strict\<close> every move carries the identifier of its gesture; otherwise synthesized moves need not.
\<close>

record proto =
  pr_down :: bool
  pr_pan :: bool
  pr_ident :: int
  pr_x :: double
  pr_y :: double

type_synonym protocol = "(int \<rightharpoonup> proto) \<times> int"

definition in_place :: "pointer_data \<Rightarrow> proto \<Rightarrow> bool" where
  "in_place pd p \<longleftrightarrow> double_same (pr_x p) (physical_x pd) \<and> double_same (pr_y p) (physical_y pd)"

definition moves :: "(double \<Rightarrow> double \<Rightarrow> double) \<Rightarrow> pointer_data \<Rightarrow> proto \<Rightarrow> bool" where
  "moves sub pd p \<longleftrightarrow> physical_delta_x pd = sub (physical_x pd) (pr_x p) \<and>
                     physical_delta_y pd = sub (physical_y pd) (pr_y p)"

definition moved_to :: "pointer_data \<Rightarrow> proto \<Rightarrow> proto" where
  "moved_to pd p = p\<lparr>pr_x := physical_x pd, pr_y := physical_y pd\<rparr>"

definition guarded :: "bool \<Rightarrow> 'a \<Rightarrow> 'a option" where
  "guarded b x = (if b then Some x else None)"

definition proto_step :: "bool \<Rightarrow> (double \<Rightarrow> double \<Rightarrow> double) \<Rightarrow> pointer_data \<Rightarrow> protocol \<Rightarrow> protocol option" where
  "proto_step strict sub pd s =
     (let (m, n) = s; d = device pd in
      case signal_kind pd of
        kNone \<Rightarrow>
          (case change pd of
             kAdd \<Rightarrow> guarded (m d = None)
               (m(d \<mapsto> \<lparr>pr_down = False, pr_pan = False, pr_ident = 0, pr_x = physical_x pd, pr_y = physical_y pd\<rparr>), n)
           | Change_Other _ \<Rightarrow> Some (m, n)
           | ch \<Rightarrow>
             (case m d of None \<Rightarrow> None
              | Some p \<Rightarrow>
                (case ch of
                   kRemove \<Rightarrow> guarded (\<not> pr_down p \<and> in_place pd p) (m(d := None), n)
                 | kHover \<Rightarrow> guarded (\<not> pr_down p \<and> moves sub pd p) (m(d \<mapsto> moved_to pd p), n)
                 | kDown \<Rightarrow> guarded (\<not> pr_down p \<and> in_place pd p \<and> pointer_identifier pd = n + 1)
                     (m(d \<mapsto> p\<lparr>pr_down := True, pr_ident := n + 1\<rparr>), n + 1)
                 | kMove \<Rightarrow> guarded (pr_down p \<and> moves sub pd p \<and>
                       (pointer_identifier pd = pr_ident p \<or> \<not> strict \<and> synthesized pd = 1))
                     (m(d \<mapsto> moved_to pd p), n)
                 | kUp \<Rightarrow> guarded (pr_down p \<and> pointer_identifier pd = pr_ident p \<and> in_place pd p)
                     (m(d \<mapsto> p\<lparr>pr_down := False\<rparr>), n)
                 | kCancel \<Rightarrow> guarded (pr_down p \<and> pointer_identifier pd = pr_ident p)
                     (m(d \<mapsto> p\<lparr>pr_down := False\<rparr>), n)
                 | kPanZoomStart \<Rightarrow> guarded (\<not> pr_down p \<and> \<not> pr_pan p \<and> in_place pd p \<and> pointer_identifier pd = n + 1)
                     (m(d \<mapsto> p\<lparr>pr_pan := True, pr_ident := n + 1\<rparr>), n + 1)
                 | kPanZoomUpdate \<Rightarrow> guarded (pr_pan p \<and> pointer_identifier pd = pr_ident p \<and> moves sub pd p)
                     (m(d \<mapsto> moved_to pd p), n)
                 | kPanZoomEnd \<Rightarrow> guarded (pr_pan p \<and> pointer_identifier pd = pr_ident p \<and> in_place pd p)
                     (m(d \<mapsto> p\<lparr>pr_pan := False\<rparr>), n)
                 | _ \<Rightarrow> None)))
      | Signal_Other _ \<Rightarrow> None
      | _ \<Rightarrow> (case m d of None \<Rightarrow> None | Some p \<Rightarrow> guarded (in_place pd p) (m, n)))"

fun proto_run :: "bool \<Rightarrow> (double \<Rightarrow> double \<Rightarrow> double) \<Rightarrow> pointer_data list \<Rightarrow> protocol \<Rightarrow> protocol option" where
  "proto_run strict sub [] s = Some s"
| "proto_run strict sub (e # es) s = Option.bind (proto_step strict sub e s) (proto_run strict sub es)"

lemma proto_run_append:
  "proto_run strict sub (xs @ ys) s = Option.bind (proto_run strict sub xs s) (proto_run strict sub ys)"
  by (induction xs arbitrary: s) (auto split: bind_split)

section \<open>The converter refines the protocol\<close>

definition abs_state :: "pointer_state \<Rightarrow> proto" where
  "abs_state st = \<lparr>pr_down = is_down st, pr_pan = is_pan_zoom_active st, pr_ident = ps_identifier st,
                   pr_x = ps_x st, pr_y = ps_y st\<rparr>"

definition abs_converter :: "converter \<Rightarrow> protocol" where
  "abs_converter c = (\<lambda>d. map_option abs_state (states c d), last_pointer c)"

lemma abs_store [simp]:
  "abs_converter (store d st c) = ((fst (abs_converter c))(d \<mapsto> abs_state st), snd (abs_converter c))"
  by (auto simp: abs_converter_def fun_eq_iff)

lemma abs_sel [simp]:
  "fst (abs_converter c) d = map_option abs_state (states c d)"
  "snd (abs_converter c) = last_pointer c"
  by (simp_all add: abs_converter_def)

lemma abs_store_self: "states c d = Some st \<Longrightarrow> (fst (abs_converter c))(d \<mapsto> abs_state st) = fst (abs_converter c)"
  by (auto simp: abs_converter_def)

lemmas converter_defs =
  sync_location_def find_or_add_def find_checked_def EnsurePointerState_def UpdateDeltaAndState_def
  UpdatePointerIdentifier_def LocationNeedsUpdate_def synthesize_def Let_def
lemmas convert_ops =
  convert_cancel_def convert_add_def convert_remove_def convert_hover_def convert_down_def convert_move_def
  convert_up_def convert_pan_zoom_start_def convert_pan_zoom_update_def convert_pan_zoom_end_def
  convert_signal_def converter_defs
lemmas protocol_defs =
  proto_step_def guarded_def in_place_def moves_def moved_to_def abs_state_def double_same_def
  abs_converter_def fun_eq_iff


lemma convert_cancel_legal:
  assumes "signal_kind pd = kNone" "change pd = kCancel" "convert_cancel sub pd c = Inr (c', evs)"
  shows "proto_run strict sub evs (abs_converter c) = Some (abs_converter c')"
  using assms
  by (auto simp: convert_cancel_def converter_defs protocol_defs bindr_eq_Inr ensure_eq_Inr split: option.splits if_splits)

lemma convert_add_legal:
  assumes "signal_kind pd = kNone" "change pd = kAdd" "convert_add junk pd c = Inr (c', evs)"
  shows "proto_run strict sub evs (abs_converter c) = Some (abs_converter c')"
  using assms
  by (auto simp: convert_add_def converter_defs protocol_defs bindr_eq_Inr ensure_eq_Inr split: option.splits if_splits)

lemma convert_remove_legal:
  assumes "signal_kind pd = kNone" "change pd = kRemove" "convert_remove sub pd c = Inr (c', evs)"
  shows "proto_run strict sub evs (abs_converter c) = Some (abs_converter c')"
  using assms
  by (auto simp: convert_remove_def converter_defs protocol_defs bindr_eq_Inr ensure_eq_Inr split: option.splits if_splits)

lemma convert_hover_legal:
  assumes "signal_kind pd = kNone" "change pd = kHover" "convert_hover sub junk pd c = Inr (c', evs)"
  shows "proto_run strict sub evs (abs_converter c) = Some (abs_converter c')"
  using assms
  by (auto simp: convert_hover_def converter_defs protocol_defs bindr_eq_Inr ensure_eq_Inr split: option.splits if_splits)

lemma convert_down_legal:
  assumes "signal_kind pd = kNone" "change pd = kDown" "convert_down sub junk pd c = Inr (c', evs)"
  shows "proto_run strict sub evs (abs_converter c) = Some (abs_converter c')"
  using assms
  by (auto simp: convert_down_def converter_defs protocol_defs bindr_eq_Inr ensure_eq_Inr split: option.splits if_splits)

lemma convert_move_legal:
  assumes "signal_kind pd = kNone" "change pd = kMove" "convert_move sub pd c = Inr (c', evs)"
  shows "proto_run strict sub evs (abs_converter c) = Some (abs_converter c')"
  using assms
  by (auto simp: convert_move_def converter_defs protocol_defs bindr_eq_Inr ensure_eq_Inr split: option.splits if_splits)

lemma convert_up_legal:
  assumes "signal_kind pd = kNone" "change pd = kUp" "convert_up sub pd c = Inr (c', evs)"
  shows "proto_run strict sub evs (abs_converter c) = Some (abs_converter c')"
  using assms
  by (auto simp: convert_up_def converter_defs protocol_defs bindr_eq_Inr ensure_eq_Inr split: option.splits if_splits)

lemma convert_pan_zoom_start_legal:
  assumes "signal_kind pd = kNone" "change pd = kPanZoomStart" "convert_pan_zoom_start sub junk pd c = Inr (c', evs)"
  shows "proto_run strict sub evs (abs_converter c) = Some (abs_converter c')"
  using assms
  by (auto simp: convert_pan_zoom_start_def converter_defs protocol_defs bindr_eq_Inr ensure_eq_Inr split: option.splits if_splits)

lemma convert_pan_zoom_update_legal:
  assumes "signal_kind pd = kNone" "change pd = kPanZoomUpdate" "convert_pan_zoom_update sub pd c = Inr (c', evs)"
  shows "proto_run strict sub evs (abs_converter c) = Some (abs_converter c')"
  using assms
  by (auto simp: convert_pan_zoom_update_def converter_defs protocol_defs bindr_eq_Inr ensure_eq_Inr split: option.splits if_splits)

lemma convert_pan_zoom_end_legal:
  assumes "signal_kind pd = kNone" "change pd = kPanZoomEnd" "convert_pan_zoom_end sub pd c = Inr (c', evs)"
  shows "proto_run strict sub evs (abs_converter c) = Some (abs_converter c')"
  using assms
  by (auto simp: convert_pan_zoom_end_def converter_defs protocol_defs bindr_eq_Inr ensure_eq_Inr split: option.splits if_splits)

lemma convert_signal_legal:
  assumes "signal_kind pd \<in> {kScroll, kScrollInertiaCancel, kScale}" "convert_signal sub junk pd c = Inr (c', evs)"
  shows "proto_run False sub evs (abs_converter c) = Some (abs_converter c')"
  using assms
  by (auto simp: convert_signal_def converter_defs protocol_defs split: option.splits if_splits)


lemma ConvertPointerData_legal:
  assumes "ConvertPointerData sub junk pd c = Inr (c', evs)" and "strict \<longrightarrow> signal_kind pd = kNone"
  shows "proto_run strict sub evs (abs_converter c) = Some (abs_converter c')"
proof (cases "signal_kind pd")
  case kNone
  with assms show ?thesis
    by (cases "change pd")
      (auto simp: ConvertPointerData_def convert_cancel_legal convert_add_legal convert_remove_legal
        convert_hover_legal convert_down_legal convert_move_legal convert_up_legal convert_pan_zoom_start_legal
        convert_pan_zoom_update_legal convert_pan_zoom_end_legal proto_step_def)
qed (use assms in \<open>auto simp: ConvertPointerData_def intro: convert_signal_legal\<close>)

lemma convert_all_legal:
  assumes "convert_all sub junk pds out c = Inr (c', out')"
    and "strict \<longrightarrow> (\<forall>pd \<in> set pds. signal_kind pd = kNone)"
  shows "\<exists>evs. out' = out @ evs \<and> proto_run strict sub evs (abs_converter c) = Some (abs_converter c')"
  using assms
proof (induction pds arbitrary: out c)
  case (Cons pd pds)
  from Cons.prems(1) obtain c1 e1 where c1: "ConvertPointerData sub junk pd c = Inr (c1, e1)"
    and rest: "convert_all sub junk pds (out @ e1) c1 = Inr (c', out')" by (auto simp: bindr_eq_Inr)
  have "proto_run strict sub e1 (abs_converter c) = Some (abs_converter c1)"
    using c1 Cons.prems(2) by (intro ConvertPointerData_legal) auto
  with Cons.IH [OF rest] Cons.prems(2) show ?case by (auto simp: proto_run_append)
qed simp

lemma Convert_eq:
  "Convert sub junk packet c = Inr (c', out) \<longleftrightarrow> convert_all sub junk packet [] c = Inr (c', out)"
  by (auto simp: Convert_def bindr_eq_Inr write_packet_fresh)

section \<open>When a check fails\<close>

text \<open>The embedding's side of the contract, per event and state of the converter.\<close>

definition input_ok :: "pointer_data \<Rightarrow> converter \<Rightarrow> bool" where
  "input_ok pd c \<longleftrightarrow>
     (signal_kind pd = kNone \<longrightarrow>
       (case (change pd, states c (device pd)) of
          (kCancel, Some st) \<Rightarrow> is_down st
        | (kAdd, Some st) \<Rightarrow> False
        | (kRemove, None) \<Rightarrow> False
        | (kHover, Some st) \<Rightarrow> \<not> is_down st
        | (kDown, Some st) \<Rightarrow> \<not> is_down st
        | (kMove, None) \<Rightarrow> False
        | (kMove, Some st) \<Rightarrow> is_down st
        | (kUp, None) \<Rightarrow> False
        | (kUp, Some st) \<Rightarrow> is_down st
        | (kPanZoomStart, Some st) \<Rightarrow> \<not> is_down st \<and> \<not> is_pan_zoom_active st
        | (kPanZoomUpdate, None) \<Rightarrow> False
        | (kPanZoomUpdate, Some st) \<Rightarrow> \<not> is_down st \<and> is_pan_zoom_active st
        | (kPanZoomEnd, None) \<Rightarrow> False
        | (kPanZoomEnd, Some st) \<Rightarrow> is_pan_zoom_active st
        | _ \<Rightarrow> True))"

lemma ConvertPointerData_fails_iff:
  "ConvertPointerData sub junk pd c = Inl e \<longleftrightarrow> e = DCheck_Failed \<and> \<not> input_ok pd c"
proof (cases "states c (device pd)")
  case None
  then show ?thesis
    by (cases "signal_kind pd"; cases "change pd")
      (auto simp: ConvertPointerData_def input_ok_def convert_ops)
next
  case (Some st)
  then show ?thesis
    by (cases "signal_kind pd"; cases "change pd"; cases "is_down st"; cases "is_pan_zoom_active st")
      (auto simp: ConvertPointerData_def input_ok_def convert_ops)
qed

section \<open>Uninitialised fields\<close>

text \<open>
  Two states that agree on every field the code may read: the buttons of a pressed pointer, the
  scale and rotation of an active gesture, and all that \<open>EnsurePointerState\<close> initialises.
\<close>

definition known_eq :: "pointer_state \<Rightarrow> pointer_state \<Rightarrow> bool" where
  "known_eq a b \<longleftrightarrow> abs_state a = abs_state b \<and> ps_pan_x a = ps_pan_x b \<and> ps_pan_y a = ps_pan_y b \<and>
     (is_down a \<longrightarrow> ps_buttons a = ps_buttons b) \<and>
     (is_pan_zoom_active a \<longrightarrow> ps_scale a = ps_scale b \<and> ps_rotation a = ps_rotation b)"

definition conv_known_eq :: "converter \<Rightarrow> converter \<Rightarrow> bool" where
  "conv_known_eq c d \<longleftrightarrow> last_pointer c = last_pointer d \<and> (\<forall>k. rel_option known_eq (states c k) (states d k))"

lemma known_eq_refl [simp]: "known_eq a a"
  by (simp add: known_eq_def)

lemma conv_known_eq_cases:
  assumes "conv_known_eq c d"
  obtains "states c k = None" "states d k = None"
    | a b where "states c k = Some a" "states d k = Some b" "known_eq a b"
  using assms unfolding conv_known_eq_def by (metis option.rel_cases)

lemma conv_known_eq_store:
  "last_pointer c' = last_pointer d' \<Longrightarrow> conv_known_eq c d \<Longrightarrow> known_eq a b \<Longrightarrow>
     states c' = (states c)(k \<mapsto> a) \<Longrightarrow> states d' = (states d)(k \<mapsto> b) \<Longrightarrow> conv_known_eq c' d'"
  by (simp add: conv_known_eq_def)

lemma conv_known_eq_last: "conv_known_eq c d \<Longrightarrow> last_pointer c = last_pointer d"
  by (simp add: conv_known_eq_def)

definition result_eq :: "converted \<Rightarrow> converted \<Rightarrow> bool" where
  "result_eq = rel_sum (=) (rel_prod conv_known_eq (=))"

lemma ConvertPointerData_known:
  assumes "conv_known_eq c d"
  shows "result_eq (ConvertPointerData sub j1 pd c) (ConvertPointerData sub j2 pd d)"
  using conv_known_eq_last [OF assms]
proof (cases rule: conv_known_eq_cases [OF assms, of "device pd"])
  case 1
  then show ?thesis using assms
    by (cases "signal_kind pd"; cases "change pd")
      (auto simp: result_eq_def ConvertPointerData_def convert_ops
        conv_known_eq_def known_eq_def abs_state_def)
next
  case (2 a b)
  then show ?thesis using assms
    by (cases "signal_kind pd"; cases "change pd"; cases "is_down a"; cases "is_pan_zoom_active a";
        cases "LocationNeedsUpdate pd a")
      (auto simp: result_eq_def ConvertPointerData_def convert_ops
        conv_known_eq_def known_eq_def abs_state_def)
qed


lemma convert_all_known:
  assumes "conv_known_eq c d"
  shows "result_eq (convert_all sub j1 pds out c) (convert_all sub j2 pds out d)"
  using assms
proof (induction pds arbitrary: out c d)
  case (Cons pd pds)
  have "result_eq (ConvertPointerData sub j1 pd c) (ConvertPointerData sub j2 pd d)"
    by (rule ConvertPointerData_known [OF Cons.prems])
  then consider e where "ConvertPointerData sub j1 pd c = Inl e" "ConvertPointerData sub j2 pd d = Inl e"
    | c' d' evs where "ConvertPointerData sub j1 pd c = Inr (c', evs)"
        "ConvertPointerData sub j2 pd d = Inr (d', evs)" "conv_known_eq c' d'"
    unfolding result_eq_def by (auto elim!: rel_sum.cases)
  then show ?case
  proof cases
    case 1
    then show ?thesis by (simp add: result_eq_def)
  next
    case 2
    with Cons.IH [OF 2(3), of "out @ evs"] show ?thesis by simp
  qed
qed (simp add: result_eq_def)

section \<open>Every event is kept\<close>

text \<open>
  \<open>filled pd pd'\<close>: the converter only fills in the identifier and the deltas. \<open>dropped\<close>: the events
  it drops on purpose: a cancel of an unknown device, a hover that does not move, an unknown signal.
\<close>

definition unfilled :: "pointer_data \<Rightarrow> pointer_data" where
  "unfilled pd = pd\<lparr>pointer_identifier := 0, physical_delta_x := 0, physical_delta_y := 0,
                    pan_delta_x := 0, pan_delta_y := 0\<rparr>"

definition filled :: "pointer_data \<Rightarrow> pointer_data \<Rightarrow> bool" where
  "filled pd pd' \<longleftrightarrow> unfilled pd' = unfilled pd"

definition dropped :: "pointer_data \<Rightarrow> converter \<Rightarrow> bool" where
  "dropped pd c \<longleftrightarrow>
     (case signal_kind pd of
        kNone \<Rightarrow>
          change pd = kCancel \<and> states c (device pd) = None \<or>
          change pd = kHover \<and> (case states c (device pd) of
             None \<Rightarrow> double_eq (physical_x pd) (physical_x pd) \<and> double_eq (physical_y pd) (physical_y pd)
           | Some st \<Rightarrow> \<not> LocationNeedsUpdate pd st)
      | Signal_Other _ \<Rightarrow> True
      | _ \<Rightarrow> False)"

definition synthetic :: "pointer_data \<Rightarrow> pointer_data \<Rightarrow> bool" where
  "synthetic pd e \<longleftrightarrow> synthesized e = 1 \<and> signal_kind e = kNone \<and> device e = device pd \<and> time_stamp e = time_stamp pd"

definition kept :: "pointer_data \<Rightarrow> pointer_data list \<Rightarrow> bool" where
  "kept pd evs \<longleftrightarrow> evs \<noteq> [] \<and> filled pd (last evs) \<and> list_all (synthetic pd) (butlast evs)"

lemmas kept_defs = kept_def filled_def unfilled_def dropped_def synthetic_def

lemmas kept_simps = ConvertPointerData_def converter_defs kept_defs bindr_eq_Inr ensure_eq_Inr

lemma ConvertPointerData_kept:
  assumes ev: "ConvertPointerData sub junk pd c = Inr (c', evs)"
  shows "if dropped pd c then list_all (synthetic pd) evs else kept pd evs"
proof (cases "signal_kind pd")
  case kNone
  show ?thesis
  proof (cases "change pd")
    case kCancel
    with kNone ev show ?thesis
      by (auto simp: convert_cancel_def kept_simps split: option.splits if_splits)
  next
    case kAdd
    with kNone ev show ?thesis
      by (auto simp: convert_add_def kept_simps split: option.splits if_splits)
  next
    case kRemove
    with kNone ev show ?thesis
      by (auto simp: convert_remove_def kept_simps split: option.splits if_splits)
  next
    case kHover
    with kNone ev show ?thesis
      by (auto simp: convert_hover_def kept_simps split: option.splits if_splits)
  next
    case kDown
    with kNone ev show ?thesis
      by (auto simp: convert_down_def kept_simps split: option.splits if_splits)
  next
    case kMove
    with kNone ev show ?thesis
      by (auto simp: convert_move_def kept_simps split: option.splits if_splits)
  next
    case kUp
    with kNone ev show ?thesis
      by (auto simp: convert_up_def kept_simps split: option.splits if_splits)
  next
    case kPanZoomStart
    with kNone ev show ?thesis
      by (auto simp: convert_pan_zoom_start_def kept_simps split: option.splits if_splits)
  next
    case kPanZoomUpdate
    with kNone ev show ?thesis
      by (auto simp: convert_pan_zoom_update_def kept_simps split: option.splits if_splits)
  next
    case kPanZoomEnd
    with kNone ev show ?thesis
      by (auto simp: convert_pan_zoom_end_def kept_simps split: option.splits if_splits)
  next
    case (Change_Other n)
    with kNone ev show ?thesis by (auto simp: kept_simps)
  qed
next
  case kScroll
  with ev show ?thesis by (auto simp: convert_signal_def kept_simps split: option.splits if_splits)
next
  case kScrollInertiaCancel
  with ev show ?thesis by (auto simp: convert_signal_def kept_simps split: option.splits if_splits)
next
  case kScale
  with ev show ?thesis by (auto simp: convert_signal_def kept_simps split: option.splits if_splits)
next
  case (Signal_Other n)
  with ev show ?thesis by (auto simp: kept_simps)
qed

section \<open>Properties of the converter\<close>

text \<open>
  C14: Whatever the embedding sends, as long as no check fails the converted packet is legal for the
  framework: run from the state the converter stands for, the protocol accepts every event and
  ends in the state the converter then stands for. Without signal events every move moreover
  carries the identifier of its gesture.
\<close>

theorem Convert_is_legal:
  assumes "Convert sub junk packet c = Inr (c', out)"
    and "strict \<longrightarrow> (\<forall>pd \<in> set packet. signal_kind pd = kNone)"
  shows "proto_run strict sub out (abs_converter c) = Some (abs_converter c')"
  using convert_all_legal [of sub junk packet "[]" c c' out strict] assms by (simp add: Convert_eq)

text \<open>
  C16: Converting one event fails, and always with a failed debug check, exactly when the embedding
  breaks its side of the contract: it cancels, moves or lifts a pointer that is not down, adds a
  known device, removes or moves an unknown one, presses or hovers a pressed one, or starts,
  updates or ends a pan-zoom gesture in the wrong state.
\<close>

theorem ConvertPointerData_fails_exactly:
  "ConvertPointerData sub junk pd c = Inl e \<longleftrightarrow> e = DCheck_Failed \<and> \<not> input_ok pd c"
  by (rule ConvertPointerData_fails_iff)

text \<open>
  C17: The converter never lets uninitialised memory reach the framework: from a fresh converter the
  converted events and the failures are the same whatever the fields that \<open>EnsurePointerState\<close>
  leaves uninitialised hold.
\<close>

theorem output_independent_of_uninitialised_fields:
  "map_sum id snd (convert_all sub j1 pds [] PointerDataPacketConverter) =
   map_sum id snd (convert_all sub j2 pds [] PointerDataPacketConverter)"
proof -
  have "conv_known_eq PointerDataPacketConverter PointerDataPacketConverter"
    by (simp add: conv_known_eq_def PointerDataPacketConverter_def)
  from convert_all_known [OF this, of sub j1 pds "[]" j2] show ?thesis
    by (auto simp: result_eq_def elim!: rel_sum.cases)
qed

text \<open>
  A successful conversion keeps the event: it is the last one put out, with only the identifier
  and the deltas filled in, and everything before it is synthesized for the same device and time;
  only a cancel of an unknown device, a hover that does not move and an unknown signal are dropped.
\<close>

theorem converted_event_is_kept:
  assumes "ConvertPointerData sub junk pd c = Inr (c', evs)"
  shows "if dropped pd c then list_all (synthetic pd) evs else kept pd evs"
  using assms by (rule ConvertPointerData_kept)

definition demo_event :: "change \<Rightarrow> double \<Rightarrow> int \<Rightarrow> pointer_data" where
  "demo_event ch x b = pointer_data_zero\<lparr>change := ch, device := 5, physical_x := x, buttons := b\<rparr>"

definition demo_junk :: "pointer_data \<Rightarrow> pointer_state" where
  "demo_junk pd = \<lparr>ps_identifier = 9, is_down = True, is_pan_zoom_active = True, ps_x = 7, ps_y = 7, ps_pan_x = 7,
     ps_pan_y = 7, ps_scale = 7, ps_rotation = 7, ps_buttons = 7\<rparr>"

definition demo_sub :: "double \<Rightarrow> double \<Rightarrow> double" where
  "demo_sub a b = (if a = b then 0 else a)"

text \<open>
  A button that changes during a move is forgotten: after a press with button 1 and a move with
  buttons 3, lifting the pointer elsewhere synthesizes a move that reports button 1.
\<close>

theorem move_forgets_buttons:
  "\<exists>c out. Convert demo_sub demo_junk [demo_event kDown 0 1, demo_event kMove double_one 3, demo_event kUp 0 0]
     PointerDataPacketConverter = Inr (c, out) \<and>
   map (\<lambda>e. (change e, synthesized e, buttons e)) out =
     [(kAdd, 1, 0), (kDown, 0, 1), (kMove, 0, 3), (kMove, 1, 1), (kUp, 0, 0)]"
proof -
  have "case Convert demo_sub demo_junk [demo_event kDown 0 1, demo_event kMove double_one 3, demo_event kUp 0 0]
      PointerDataPacketConverter of Inl _ \<Rightarrow> False
    | Inr (c, out) \<Rightarrow> map (\<lambda>e. (change e, synthesized e, buttons e)) out =
     [(kAdd, 1, 0), (kDown, 0, 1), (kMove, 0, 3), (kMove, 1, 1), (kUp, 0, 0)]"
    by code_simp
  then show ?thesis by (auto split: sum.splits)
qed

text \<open>
  A scroll at another position while the pointer is down synthesizes a move that carries the
  embedding's own identifier (here 0) and not the one of the gesture in progress (here 1), so the
  stream is rejected by the strict protocol.
\<close>

lemma scroll_move_loses_identifier:
  "\<exists>c out. Convert demo_sub demo_junk
       [demo_event kDown 0 1, (demo_event kHover double_one 1)\<lparr>signal_kind := kScroll\<rparr>] PointerDataPacketConverter
     = Inr (c, out) \<and>
   map (\<lambda>e. (change e, pointer_identifier e)) out = [(kAdd, 0), (kDown, 1), (kMove, 0), (kHover, 0)] \<and>
   proto_run True demo_sub out (abs_converter PointerDataPacketConverter) = None"
proof -
  have "case Convert demo_sub demo_junk
       [demo_event kDown 0 1, (demo_event kHover double_one 1)\<lparr>signal_kind := kScroll\<rparr>] PointerDataPacketConverter of
      Inl _ \<Rightarrow> False
    | Inr (c, out) \<Rightarrow> map (\<lambda>e. (change e, pointer_identifier e)) out = [(kAdd, 0), (kDown, 1), (kMove, 0), (kHover, 0)] \<and>
       (case proto_run True demo_sub out (abs_converter PointerDataPacketConverter) of None \<Rightarrow> True | Some _ \<Rightarrow> False)"
    by code_simp
  then show ?thesis by (auto simp del: proto_run.simps split: sum.splits prod.splits option.splits)
qed

theorem Convert_is_legal_witness:
  "\<exists>c out. Convert demo_sub demo_junk [demo_event kDown 0 1, demo_event kUp double_one 0]
       PointerDataPacketConverter = Inr (c, out) \<and>
     map change out = [kAdd, kDown, kMove, kUp] \<and>
     proto_run True demo_sub out (abs_converter PointerDataPacketConverter) = Some (abs_converter c)"
proof -
  have "case Convert demo_sub demo_junk [demo_event kDown 0 1, demo_event kUp double_one 0]
      PointerDataPacketConverter of Inl _ \<Rightarrow> False | Inr (c, out) \<Rightarrow> map change out = [kAdd, kDown, kMove, kUp]"
    by code_simp
  then obtain c out where out: "Convert demo_sub demo_junk [demo_event kDown 0 1, demo_event kUp double_one 0]
      PointerDataPacketConverter = Inr (c, out)" "map change out = [kAdd, kDown, kMove, kUp]"
    by (auto split: sum.splits)
  have "\<forall>pd \<in> set [demo_event kDown 0 1, demo_event kUp double_one 0]. signal_kind pd = kNone"
    by (simp add: demo_event_def pointer_data_zero_def)
  then have "proto_run True demo_sub out (abs_converter PointerDataPacketConverter) = Some (abs_converter c)"
    by (intro Convert_is_legal [OF out(1)]) blast
  with out show ?thesis by (intro exI conjI)
qed

theorem converted_event_is_kept_witness:
  "\<exists>c evs. ConvertPointerData demo_sub demo_junk (demo_event kDown 0 1) PointerDataPacketConverter = Inr (c, evs) \<and>
     length evs = 2 \<and> kept (demo_event kDown 0 1) evs"
proof -
  have "case ConvertPointerData demo_sub demo_junk (demo_event kDown 0 1) PointerDataPacketConverter of
      Inl _ \<Rightarrow> False | Inr (c, evs) \<Rightarrow> length evs = 2"
    by code_simp
  then obtain c evs where c: "ConvertPointerData demo_sub demo_junk (demo_event kDown 0 1) PointerDataPacketConverter = Inr (c, evs)"
    "length evs = 2" by (auto split: sum.splits)
  moreover have "\<not> dropped (demo_event kDown 0 1) PointerDataPacketConverter"
    by (simp add: dropped_def demo_event_def pointer_data_zero_def)
  ultimately show ?thesis using converted_event_is_kept [OF c(1)] by auto
qed

end
