(* ===== verification/Shell_Vsync.thy ===== *)
theory Shell_Vsync
  imports Fml_Task_Source
begin

text \<open>
  \<open>shell/common/vsync_waiter\<close> and \<open>shell/common/pointer_data_dispatcher\<close>. A callback is opaque. What the
  waiter asks of its platform implementation and posts to the UI task runner are lists of
  actions. The iteration order of the unordered map of secondary callbacks is an argument.
\<close>

section \<open>The vsync waiter\<close>

text \<open>The map is an association list with distinct keys, in order of insertion.\<close>

(* map: shell/common/vsync_waiter.h 76 78 VsyncWaiter *)
record 'c vsync_waiter =
  callback :: "'c option"
  secondary_callbacks :: "(64 word \<times> 'c) list"

datatype 'c vsync_action =
    AwaitVSync
  | AwaitVSyncForSecondaryCallback
  | PauseDartMicroTasks
  | Post_Frame 'c time_point time_point bool
      \<comment> \<open>a UI task: record the vsync, run the callback, then resume the paused source if set\<close>
  | Post_Secondary 'c           \<comment> \<open>a UI task: run a secondary callback\<close>

(* map: shell/common/vsync_waiter.cc 22 23 VsyncWaiter::VsyncWaiter *)
definition VsyncWaiter :: "'c vsync_waiter" where
  "VsyncWaiter = \<lparr>callback = None, secondary_callbacks = []\<rparr>"

(* map: shell/common/vsync_waiter.cc fn VsyncWaiter::AsyncWaitForVsync( *)
definition AsyncWaitForVsync :: "'c option \<Rightarrow> 'c vsync_waiter \<Rightarrow> 'c vsync_waiter \<times> 'c vsync_action list" where
  "AsyncWaitForVsync cb w =
     (case cb of
        None \<Rightarrow> (w, [])
      | Some _ \<Rightarrow>
          if callback w \<noteq> None then (w, [])
          else let w' = w\<lparr>callback := cb\<rparr>
               in if secondary_callbacks w' \<noteq> [] then (w', []) else (w', [AwaitVSync]))"

(* map: shell/common/vsync_waiter.cc fn VsyncWaiter::ScheduleSecondaryCallback( *)
definition ScheduleSecondaryCallback :: "64 word \<Rightarrow> 'c option \<Rightarrow> 'c vsync_waiter
    \<Rightarrow> 'c vsync_waiter \<times> 'c vsync_action list" where
  "ScheduleSecondaryCallback key cb w =
     (case cb of
        None \<Rightarrow> (w, [])
      | Some c \<Rightarrow>
          let originally_empty = (secondary_callbacks w = []) in
          if map_of (secondary_callbacks w) key \<noteq> None then (w, [])
          else let w' = w\<lparr>secondary_callbacks := secondary_callbacks w @ [(key, c)]\<rparr>
               in if callback w' \<noteq> None then (w', [])
                  else if \<not> originally_empty then (w', [])
                  else (w', [AwaitVSyncForSecondaryCallback]))"

(* map: shell/common/vsync_waiter.cc fn VsyncWaiter::FireCallback( *)
definition FireCallback :: "('c list \<Rightarrow> 'c list) \<Rightarrow> time_point \<Rightarrow> time_point \<Rightarrow> time_point \<Rightarrow> bool \<Rightarrow> 'c vsync_waiter
    \<Rightarrow> ('c vsync_waiter \<times> 'c vsync_action list) res" where
  "FireCallback iteration now frame_start_time frame_target_time pause_secondary_tasks w =
     bindr (ensure DCheck_Failed (frame_start_time \<le> now)) (\<lambda>_.
       let cb = callback w; secondary = iteration (map snd (secondary_callbacks w));
           w' = \<lparr>callback = None, secondary_callbacks = []\<rparr>
       in Inr (if cb = None \<and> secondary = [] then (w', [])
               else (w', (case cb of
                            None \<Rightarrow> []
                          | Some c \<Rightarrow> (if pause_secondary_tasks then [PauseDartMicroTasks] else [])
                              @ [Post_Frame c frame_start_time frame_target_time pause_secondary_tasks])
                         @ map Post_Secondary secondary)))"

subsection \<open>One request per interval\<close>

datatype 'c vsync_op = V_Await "'c option" | V_Secondary "64 word" "'c option" | V_Fire time_point time_point time_point bool

fun apply_vsync :: "('c list \<Rightarrow> 'c list) \<Rightarrow> 'c vsync_op \<Rightarrow> 'c vsync_waiter
    \<Rightarrow> ('c vsync_waiter \<times> 'c vsync_action list) res" where
  "apply_vsync it (V_Await cb) w = Inr (AsyncWaitForVsync cb w)"
| "apply_vsync it (V_Secondary k cb) w = Inr (ScheduleSecondaryCallback k cb w)"
| "apply_vsync it (V_Fire now start tgt p) w = FireCallback it now start tgt p w"

text \<open>
  The waiter with its platform: \<open>requested\<close> counts the vsync requests that have not fired. The
  platform fires once per request and not before the frame starts; other fires are left out.
\<close>

record 'c vsync_system =
  waiter :: "'c vsync_waiter"
  requested :: nat
  fired :: "'c vsync_action list"

definition is_request :: "'c vsync_action \<Rightarrow> bool" where
  "is_request a \<longleftrightarrow> (case a of AwaitVSync \<Rightarrow> True | AwaitVSyncForSecondaryCallback \<Rightarrow> True | _ \<Rightarrow> False)"

fun vsync_step :: "('c list \<Rightarrow> 'c list) \<Rightarrow> 'c vsync_system \<Rightarrow> 'c vsync_op \<Rightarrow> 'c vsync_system res" where
  "vsync_step it s x =
     (if (case x of V_Fire now start _ _ \<Rightarrow> requested s = 0 \<or> now < start | _ \<Rightarrow> False) then Inr s
      else bindr (apply_vsync it x (waiter s)) (\<lambda>(w, acts).
           Inr \<lparr>waiter = w,
                requested = (case x of V_Fire _ _ _ _ \<Rightarrow> requested s - 1 | _ \<Rightarrow> requested s)
                              + length (filter is_request acts),
                fired = fired s @ filter (\<lambda>a. \<not> is_request a) acts\<rparr>))"

definition vsync_inv :: "'c vsync_system \<Rightarrow> bool" where
  "vsync_inv s \<longleftrightarrow>
     requested s = of_bool (callback (waiter s) \<noteq> None \<or> secondary_callbacks (waiter s) \<noteq> []) \<and>
     distinct (map fst (secondary_callbacks (waiter s)))"

lemmas vsync_defs = AsyncWaitForVsync_def ScheduleSecondaryCallback_def FireCallback_def is_request_def Let_def

lemma filter_request_posts [simp]:
  "filter is_request (map Post_Secondary cs) = []"
  by (induction cs) (simp_all add: is_request_def)

lemma vsync_step_inv:
  assumes "vsync_inv s"
  shows "\<exists>s'. vsync_step it s x = Inr s' \<and> vsync_inv s'"
proof (cases x)
  case (V_Await cb)
  with assms show ?thesis by (cases cb) (auto simp: vsync_inv_def vsync_defs)
next
  case (V_Secondary k cb)
  with assms show ?thesis
    by (cases cb) (auto simp: vsync_inv_def vsync_defs map_of_eq_None_iff image_iff)
next
  case (V_Fire now start tgt p)
  with assms show ?thesis
    by (cases "callback (waiter s)") (auto simp: vsync_inv_def vsync_defs not_less)
qed

interpretation vsync: total_machine "vsync_step it" vsync_inv for it
proof
  show "vsync_inv s'" if "vsync_inv s" "vsync_step it s x = Inr s'" for s s' :: "'a vsync_system" and x
    using vsync_step_inv [OF that(1), of it x] that(2) by auto
  show "\<exists>s'. vsync_step it s x = Inr s'" if "vsync_inv s" for s :: "'a vsync_system" and x
    using vsync_step_inv [OF that, of it x] by auto
qed

definition vsync_init :: "'c vsync_system" where
  "vsync_init = \<lparr>waiter = VsyncWaiter, requested = 0, fired = []\<rparr>"

lemma vsync_inv_init: "vsync_inv vsync_init"
  by (simp add: vsync_inv_def vsync_init_def VsyncWaiter_def)

text \<open>
  C22: However often frames and secondary callbacks are requested, exactly one vsync request is
  outstanding while any callback is registered and none otherwise; a vsync posts the frame
  callback and each registered secondary callback once, and clears them.
\<close>

theorem one_vsync_request_per_interval:
  "\<exists>s w acts. run_ops (vsync_step it) vsync_init ops = Inr s \<and>
     requested s = (if callback (waiter s) = None \<and> secondary_callbacks (waiter s) = [] then 0 else 1) \<and>
     FireCallback it start start tgt p (waiter s) = Inr (w, acts) \<and> w = VsyncWaiter \<and>
     filter (\<lambda>a. a \<noteq> PauseDartMicroTasks) acts =
       (case callback (waiter s) of None \<Rightarrow> [] | Some c \<Rightarrow> [Post_Frame c start tgt p]) @
       map Post_Secondary (it (map snd (secondary_callbacks (waiter s))))"
proof -
  have "filter (\<lambda>a. a \<noteq> PauseDartMicroTasks) (map Post_Secondary cs) = map Post_Secondary cs" for cs :: "'a list"
    by (induction cs) simp_all
  then show ?thesis
    using vsync.run_total [OF vsync_inv_init, of it ops]
    by (auto simp: vsync_inv_def FireCallback_def VsyncWaiter_def Let_def split: option.splits)
qed

end
