(* ===== verification/Shell_Dispatcher.thy ===== *)
theory Shell_Dispatcher
  imports Shell_Vsync
begin

text \<open>
  \<open>shell/common/pointer_data_dispatcher\<close>, run on the vsync waiter of \<open>Shell_Vsync\<close>. Packets are opaque and
  not null. The UI task queue holds what the waiter posts; its tasks run one at a time and in order.
  Other clients of the waiter register under other keys.
\<close>

section \<open>The smooth dispatcher\<close>

(* map: shell/common/pointer_data_dispatcher.h 157 159 SmoothPointerDataDispatcher *)
record 'p dispatcher =
  pending_packet :: "'p option"
  pending_trace_flow_id :: "32 word"
  is_pointer_data_in_progress :: bool

datatype ui_callback = Dispatcher_Callback | Other_Callback

text \<open>\<open>delivered\<close>: the calls of \<open>DoDispatchPacket\<close>. \<open>ui_tasks\<close>: the posted tasks of the UI thread.\<close>

record 'p dispatch_system =
  disp :: "'p dispatcher"
  vwaiter :: "ui_callback vsync_waiter"
  ui_tasks :: "ui_callback list"
  delivered :: "('p \<times> 64 word) list"

(* map: shell/common/pointer_data_dispatcher.cc 14 15 SmoothPointerDataDispatcher::SmoothPointerDataDispatcher *)
definition SmoothPointerDataDispatcher :: "'p dispatcher" where
  "SmoothPointerDataDispatcher =
     \<lparr>pending_packet = None, pending_trace_flow_id = - 1, is_pointer_data_in_progress = False\<rparr>"

(* map: shell/common/pointer_data_dispatcher.cc fn DefaultPointerDataDispatcher::DispatchPacket( *)
definition default_DispatchPacket :: "'p \<Rightarrow> 64 word \<Rightarrow> 'p dispatch_system \<Rightarrow> 'p dispatch_system" where
  "default_DispatchPacket p tid s = s\<lparr>delivered := delivered s @ [(p, tid)]\<rparr>"

(* map: shell/common/pointer_data_dispatcher.cc 46 50 SmoothPointerDataDispatcher::ScheduleSecondaryVsyncCallback *)
definition ScheduleSecondaryVsyncCallback :: "64 word \<Rightarrow> 'p dispatch_system \<Rightarrow> 'p dispatch_system" where
  "ScheduleSecondaryVsyncCallback this s =
     s\<lparr>vwaiter := fst (ScheduleSecondaryCallback this (Some Dispatcher_Callback) (vwaiter s))\<rparr>"

text \<open>The \<open>uint64_t\<close> trace id was stored in an \<open>int\<close> and is converted back.\<close>

(* map: shell/common/pointer_data_dispatcher.cc fn SmoothPointerDataDispatcher::DispatchPendingPacket( *)
definition DispatchPendingPacket :: "64 word \<Rightarrow> 'p dispatch_system \<Rightarrow> 'p dispatch_system res" where
  "DispatchPendingPacket this s =
     (case pending_packet (disp s) of
        None \<Rightarrow> Inl DCheck_Failed
      | Some p \<Rightarrow>
          bindr (ensure DCheck_Failed (is_pointer_data_in_progress (disp s))) (\<lambda>_.
            let s1 = default_DispatchPacket p (scast (pending_trace_flow_id (disp s))) s;
                s2 = s1\<lparr>disp := (disp s1)\<lparr>pending_packet := None, pending_trace_flow_id := - 1\<rparr>\<rparr>
            in Inr (ScheduleSecondaryVsyncCallback this s2)))"

(* map: shell/common/pointer_data_dispatcher.cc fn SmoothPointerDataDispatcher::DispatchPacket( *)
definition smooth_DispatchPacket :: "64 word \<Rightarrow> 'p \<Rightarrow> 64 word \<Rightarrow> 'p dispatch_system \<Rightarrow> 'p dispatch_system res" where
  "smooth_DispatchPacket this p trace_flow_id s =
     bindr
       (if is_pointer_data_in_progress (disp s)
        then bindr (if pending_packet (disp s) \<noteq> None then DispatchPendingPacket this s else Inr s) (\<lambda>s1.
               Inr (s1\<lparr>disp := (disp s1)\<lparr>pending_packet := Some p, pending_trace_flow_id := ucast trace_flow_id\<rparr>\<rparr>))
        else bindr (ensure DCheck_Failed (pending_packet (disp s) = None)) (\<lambda>_.
               Inr (default_DispatchPacket p trace_flow_id s)))
       (\<lambda>s2. Inr (ScheduleSecondaryVsyncCallback this
                    (s2\<lparr>disp := (disp s2)\<lparr>is_pointer_data_in_progress := True\<rparr>\<rparr>)))"

text \<open>The lambda that the dispatcher registers.\<close>

(* map: shell/common/pointer_data_dispatcher.cc 50 58 SmoothPointerDataDispatcher::ScheduleSecondaryVsyncCallback:lambda *)
definition dispatcher_callback :: "64 word \<Rightarrow> 'p dispatch_system \<Rightarrow> 'p dispatch_system res" where
  "dispatcher_callback this s =
     (if is_pointer_data_in_progress (disp s)
      then if pending_packet (disp s) \<noteq> None then DispatchPendingPacket this s
           else Inr (s\<lparr>disp := (disp s)\<lparr>is_pointer_data_in_progress := False\<rparr>\<rparr>)
      else Inr s)"

section \<open>The system\<close>

fun callback_of :: "ui_callback vsync_action \<Rightarrow> ui_callback list" where
  "callback_of (Post_Frame c _ _ _) = [c]"
| "callback_of (Post_Secondary c) = [c]"
| "callback_of _ = []"

datatype 'p dispatch_op =
    D_Packet 'p "64 word"      \<comment> \<open>a packet arrives\<close>
  | D_Secondary "64 word"      \<comment> \<open>another client registers a secondary callback\<close>
  | D_Frame                    \<comment> \<open>the animator waits for a vsync\<close>
  | D_Fire time_point time_point bool  \<comment> \<open>the platform fires a vsync at its start\<close>
  | D_Run                      \<comment> \<open>the UI thread runs its next task\<close>

fun dispatch_step :: "64 word \<Rightarrow> (ui_callback list \<Rightarrow> ui_callback list) \<Rightarrow> 'p dispatch_system \<Rightarrow> 'p dispatch_op
    \<Rightarrow> 'p dispatch_system res" where
  "dispatch_step this it s (D_Packet p tid) = smooth_DispatchPacket this p tid s"
| "dispatch_step this it s (D_Secondary key) =
     Inr (if key = this then s
          else s\<lparr>vwaiter := fst (ScheduleSecondaryCallback key (Some Other_Callback) (vwaiter s))\<rparr>)"
| "dispatch_step this it s D_Frame = Inr (s\<lparr>vwaiter := fst (AsyncWaitForVsync (Some Other_Callback) (vwaiter s))\<rparr>)"
| "dispatch_step this it s (D_Fire start tgt pause) =
     bindr (FireCallback it start start tgt pause (vwaiter s)) (\<lambda>(w, acts).
       Inr (s\<lparr>vwaiter := w, ui_tasks := ui_tasks s @ concat (map callback_of acts)\<rparr>))"
| "dispatch_step this it s D_Run =
     (case ui_tasks s of
        [] \<Rightarrow> Inr s
      | Other_Callback # ts \<Rightarrow> Inr (s\<lparr>ui_tasks := ts\<rparr>)
      | Dispatcher_Callback # ts \<Rightarrow> dispatcher_callback this (s\<lparr>ui_tasks := ts\<rparr>))"

text \<open>Packets received so far, and the packets the dispatcher has delivered or still holds.\<close>

fun packets :: "'p dispatch_op list \<Rightarrow> 'p list" where
  "packets [] = []"
| "packets (D_Packet p _ # es) = p # packets es"
| "packets (_ # es) = packets es"

definition in_order :: "'p dispatch_system \<Rightarrow> 'p list" where
  "in_order s = map fst (delivered s) @ (case pending_packet (disp s) of None \<Rightarrow> [] | Some p \<Rightarrow> [p])"

text \<open>The callback of the dispatcher is registered with the waiter, or posted and not yet run.\<close>

definition scheduled :: "64 word \<Rightarrow> 'p dispatch_system \<Rightarrow> bool" where
  "scheduled this s \<longleftrightarrow> (this, Dispatcher_Callback) \<in> set (secondary_callbacks (vwaiter s)) \<or>
     Dispatcher_Callback \<in> set (ui_tasks s)"

definition dispatch_inv :: "64 word \<Rightarrow> 'p dispatch_system \<Rightarrow> bool" where
  "dispatch_inv this s \<longleftrightarrow>
     (pending_packet (disp s) \<noteq> None \<longrightarrow> is_pointer_data_in_progress (disp s)) \<and>
     (is_pointer_data_in_progress (disp s) \<longrightarrow> scheduled this s) \<and>
     (\<forall>c. (this, c) \<in> set (secondary_callbacks (vwaiter s)) \<longrightarrow> c = Dispatcher_Callback)"

definition dispatch_init :: "'p dispatch_system" where
  "dispatch_init = \<lparr>disp = SmoothPointerDataDispatcher, vwaiter = VsyncWaiter, ui_tasks = [], delivered = []\<rparr>"

lemma dispatch_inv_init: "dispatch_inv this dispatch_init"
  by (simp add: dispatch_inv_def dispatch_init_def SmoothPointerDataDispatcher_def VsyncWaiter_def)

lemma schedule_registers:
  assumes "\<forall>c. (this, c) \<in> set (secondary_callbacks (vwaiter s)) \<longrightarrow> c = Dispatcher_Callback"
  shows "(this, Dispatcher_Callback) \<in> set (secondary_callbacks (vwaiter (ScheduleSecondaryVsyncCallback this s)))"
    and "(this, c) \<in> set (secondary_callbacks (vwaiter (ScheduleSecondaryVsyncCallback this s))) \<Longrightarrow> c = Dispatcher_Callback"
  using assms
  by (auto simp: ScheduleSecondaryVsyncCallback_def ScheduleSecondaryCallback_def Let_def split: if_splits
    dest: map_of_SomeD)

lemma schedule_simps [simp]:
  "disp (ScheduleSecondaryVsyncCallback this s) = disp s"
  "ui_tasks (ScheduleSecondaryVsyncCallback this s) = ui_tasks s"
  "delivered (ScheduleSecondaryVsyncCallback this s) = delivered s"
  by (simp_all add: ScheduleSecondaryVsyncCallback_def)

lemma schedule_inv:
  assumes "\<forall>c. (this, c) \<in> set (secondary_callbacks (vwaiter s)) \<longrightarrow> c = Dispatcher_Callback"
    and "pending_packet (disp s) \<noteq> None \<longrightarrow> is_pointer_data_in_progress (disp s)"
  shows "dispatch_inv this (ScheduleSecondaryVsyncCallback this s)"
  using schedule_registers [OF assms(1)] assms(2) by (auto simp: dispatch_inv_def scheduled_def)

lemma DispatchPendingPacket_spec:
  assumes "dispatch_inv this s" and "pending_packet (disp s) = Some p"
  obtains s' where "DispatchPendingPacket this s = Inr s'" and "dispatch_inv this s'" and "in_order s' = in_order s"
    and "pending_packet (disp s') = None" and "is_pointer_data_in_progress (disp s')" and "ui_tasks s' = ui_tasks s"
proof -
  let ?s = "(default_DispatchPacket p (scast (pending_trace_flow_id (disp s))) s)
     \<lparr>disp := (disp s)\<lparr>pending_packet := None, pending_trace_flow_id := - 1\<rparr>\<rparr>"
  have "DispatchPendingPacket this s = Inr (ScheduleSecondaryVsyncCallback this ?s)"
    using assms by (simp add: DispatchPendingPacket_def dispatch_inv_def default_DispatchPacket_def Let_def)
  moreover have "dispatch_inv this (ScheduleSecondaryVsyncCallback this ?s)"
    by (rule schedule_inv) (use assms in \<open>auto simp: dispatch_inv_def default_DispatchPacket_def\<close>)
  ultimately show thesis
    by (rule that) (use assms in \<open>auto simp: in_order_def default_DispatchPacket_def dispatch_inv_def\<close>)
qed

lemma dispatch_inv_pending:
  "dispatch_inv this s \<Longrightarrow> pending_packet (disp s) = Some p \<Longrightarrow> is_pointer_data_in_progress (disp s)"
  by (simp add: dispatch_inv_def)

lemma smooth_DispatchPacket_spec:
  assumes inv: "dispatch_inv this s"
  shows "\<exists>s'. smooth_DispatchPacket this p tid s = Inr s' \<and> dispatch_inv this s' \<and> in_order s' = in_order s @ [p]"
proof (cases "pending_packet (disp s)")
  case None
  let ?held = "s\<lparr>disp := (disp s)\<lparr>pending_packet := Some p, pending_trace_flow_id := ucast tid,
     is_pointer_data_in_progress := True\<rparr>\<rparr>"
  let ?sent = "s\<lparr>delivered := delivered s @ [(p, tid)], disp := (disp s)\<lparr>is_pointer_data_in_progress := True\<rparr>\<rparr>"
  have "dispatch_inv this (ScheduleSecondaryVsyncCallback this ?held)"
    "dispatch_inv this (ScheduleSecondaryVsyncCallback this ?sent)"
    by (rule schedule_inv; use inv in \<open>auto simp: dispatch_inv_def\<close>)+
  with None inv show ?thesis
    by (cases "is_pointer_data_in_progress (disp s)")
      (auto simp: smooth_DispatchPacket_def default_DispatchPacket_def in_order_def dispatch_inv_pending)
next
  case (Some q)
  then obtain s1 where s1: "DispatchPendingPacket this s = Inr s1" "dispatch_inv this s1" "in_order s1 = in_order s"
    "pending_packet (disp s1) = None" "is_pointer_data_in_progress (disp s1)"
    by (rule DispatchPendingPacket_spec [OF inv])
  let ?s2 = "s1\<lparr>disp := (disp s1)\<lparr>pending_packet := Some p, pending_trace_flow_id := ucast tid,
     is_pointer_data_in_progress := True\<rparr>\<rparr>"
  have "smooth_DispatchPacket this p tid s = Inr (ScheduleSecondaryVsyncCallback this ?s2)"
    using s1 Some inv by (simp add: smooth_DispatchPacket_def dispatch_inv_def)
  moreover have "dispatch_inv this (ScheduleSecondaryVsyncCallback this ?s2)"
    using s1 by (intro schedule_inv) (auto simp: dispatch_inv_def)
  moreover have "in_order ?s2 = in_order s @ [p]" using s1 by (simp add: in_order_def)
  ultimately show ?thesis by (auto simp: in_order_def)
qed

lemma dispatcher_callback_spec:
  assumes "dispatch_inv this (s\<lparr>ui_tasks := Dispatcher_Callback # ui_tasks s\<rparr>)"
  shows "\<exists>s'. dispatcher_callback this s = Inr s' \<and> dispatch_inv this s' \<and> in_order s' = in_order s \<and>
     pending_packet (disp s') = None \<and> ui_tasks s' = ui_tasks s"
proof (cases "pending_packet (disp s)")
  case None
  with assms show ?thesis
    by (auto simp: dispatcher_callback_def dispatch_inv_def scheduled_def in_order_def)
next
  case (Some p)
  have prog: "is_pointer_data_in_progress (disp s)" using assms Some by (simp add: dispatch_inv_def)
  let ?d = "(default_DispatchPacket p (scast (pending_trace_flow_id (disp s))) s)
     \<lparr>disp := (disp s)\<lparr>pending_packet := None, pending_trace_flow_id := - 1\<rparr>\<rparr>"
  have "dispatcher_callback this s = Inr (ScheduleSecondaryVsyncCallback this ?d)"
    using prog Some by (simp add: dispatcher_callback_def DispatchPendingPacket_def default_DispatchPacket_def Let_def)
  moreover have "dispatch_inv this (ScheduleSecondaryVsyncCallback this ?d)"
    by (rule schedule_inv) (use assms Some in \<open>auto simp: dispatch_inv_def default_DispatchPacket_def\<close>)
  ultimately show ?thesis using Some
    by (auto simp: in_order_def default_DispatchPacket_def)
qed

lemma waiter_ops_inv:
  assumes "dispatch_inv this s"
  shows "key \<noteq> this \<Longrightarrow>
      dispatch_inv this (s\<lparr>vwaiter := fst (ScheduleSecondaryCallback key (Some Other_Callback) (vwaiter s))\<rparr>)"
    and "dispatch_inv this (s\<lparr>vwaiter := fst (AsyncWaitForVsync (Some Other_Callback) (vwaiter s))\<rparr>)"
  using assms
  by (auto simp: dispatch_inv_def scheduled_def ScheduleSecondaryCallback_def AsyncWaitForVsync_def Let_def)

lemma callbacks_of_secondary: "concat (map callback_of (map Post_Secondary cs)) = cs"
  by (induction cs) simp_all

lemma fire_total: "\<exists>w acts. FireCallback it start start tgt pause v = Inr (w, acts) \<and> secondary_callbacks w = []"
  by (simp add: FireCallback_def Let_def)

lemma fire_tasks:
  assumes "\<And>cs. set (it cs) = set cs" and "(this, Dispatcher_Callback) \<in> set (secondary_callbacks v)"
    and "FireCallback it start start tgt pause v = Inr (w, acts)"
  shows "Dispatcher_Callback \<in> set (concat (map callback_of acts))"
proof -
  have "Dispatcher_Callback \<in> set (it (map snd (secondary_callbacks v)))"
    using assms(1,2) by (force simp: image_iff)
  moreover from this have "Dispatcher_Callback \<in> set (concat (map callback_of (ys @ map Post_Secondary
      (it (map snd (secondary_callbacks v))))))" for ys
    by (simp only: map_append concat_append set_append callbacks_of_secondary) simp
  ultimately show ?thesis using assms(3)
    by (auto simp only: FireCallback_def Let_def bindr_simps ensure_simps order_refl sum.inject prod.inject
      split: if_splits) simp
qed

text \<open>The unordered map iterates over every entry once.\<close>

definition iterates :: "('c list \<Rightarrow> 'c list) \<Rightarrow> bool" where
  "iterates it \<longleftrightarrow> (\<forall>cs. mset (it cs) = mset cs)"

lemma iterates_set: "iterates it \<Longrightarrow> set (it cs) = set cs"
  unfolding iterates_def by (metis set_mset_mset)

lemma fire_inv:
  assumes "dispatch_inv this s" and "dispatch_step this it s (D_Fire start tgt pause) = Inr s'" and "iterates it"
  shows "dispatch_inv this s' \<and> in_order s' = in_order s \<and> secondary_callbacks (vwaiter s') = []"
proof -
  obtain w acts where w: "FireCallback it start start tgt pause (vwaiter s) = Inr (w, acts)" "secondary_callbacks w = []"
    using fire_total by blast
  have "scheduled this s \<longrightarrow> scheduled this s'"
    using assms(2) fire_tasks [OF iterates_set [OF assms(3)] _ w(1), of this] w
    by (auto simp: scheduled_def)
  with assms w show ?thesis by (auto simp: dispatch_inv_def in_order_def)
qed

lemma dispatch_step_spec:
  assumes inv: "dispatch_inv this s" and it: "iterates it"
  shows "\<exists>s'. dispatch_step this it s x = Inr s' \<and> dispatch_inv this s' \<and> in_order s' = in_order s @ packets [x]"
proof (cases x)
  case (D_Packet p tid)
  then show ?thesis using smooth_DispatchPacket_spec [OF inv, of p tid] by simp
next
  case (D_Secondary key)
  then show ?thesis using inv waiter_ops_inv(1) [OF inv, of key] by (auto simp: in_order_def)
next
  case D_Frame
  then show ?thesis using waiter_ops_inv(2) [OF inv] by (simp add: in_order_def)
next
  case (D_Fire start tgt pause)
  then show ?thesis using fire_inv [OF inv _ it, of start tgt pause] fire_total [of it start tgt pause "vwaiter s"]
    by auto
next
  case D_Run
  show ?thesis
  proof (cases "ui_tasks s")
    case (Cons t ts)
    then have "dispatch_inv this (s\<lparr>ui_tasks := t # ts\<rparr>)"
      using inv by (simp add: dispatch_inv_def scheduled_def)
    then show ?thesis using D_Run Cons dispatcher_callback_spec [of this "s\<lparr>ui_tasks := ts\<rparr>"]
      by (cases t) (auto simp: in_order_def dispatch_inv_def scheduled_def)
  qed (use D_Run inv in simp)
qed

lemma dispatch_run_spec:
  "iterates it \<Longrightarrow> dispatch_inv this s \<Longrightarrow> \<exists>s'. run_ops (dispatch_step this it) s es = Inr s' \<and> dispatch_inv this s' \<and>
     in_order s' = in_order s @ packets es"
proof (induction es arbitrary: s)
  case (Cons x es)
  obtain s1 where s1: "dispatch_step this it s x = Inr s1" "dispatch_inv this s1" "in_order s1 = in_order s @ packets [x]"
    using dispatch_step_spec [OF Cons.prems(2,1)] by blast
  have "packets (x # es) = packets [x] @ packets es" by (cases x) simp_all
  with Cons.IH [OF Cons.prems(1) s1(2)] s1 show ?case by auto
qed simp

lemma run_tasks_spec:
  "dispatch_inv this s \<Longrightarrow> length (ui_tasks s) \<le> n \<Longrightarrow>
     pending_packet (disp s) = None \<or> Dispatcher_Callback \<in> set (ui_tasks s) \<Longrightarrow>
     \<exists>s'. run_ops (dispatch_step this it) s (replicate n D_Run) = Inr s' \<and> dispatch_inv this s' \<and>
       in_order s' = in_order s \<and> pending_packet (disp s') = None"
proof (induction n arbitrary: s)
  case (Suc n)
  show ?case
  proof (cases "ui_tasks s")
    case Nil
    with Suc.prems Suc.IH [of s] show ?thesis by simp
  next
    case (Cons t ts)
    have inv: "dispatch_inv this (s\<lparr>ui_tasks := t # ts\<rparr>)"
      using Suc.prems(1) Cons by (simp add: dispatch_inv_def scheduled_def)
    show ?thesis
    proof (cases t)
      case Dispatcher_Callback
      with inv obtain s1 where s1: "dispatcher_callback this (s\<lparr>ui_tasks := ts\<rparr>) = Inr s1" "dispatch_inv this s1"
        "in_order s1 = in_order s" "pending_packet (disp s1) = None" "ui_tasks s1 = ts"
        using dispatcher_callback_spec [of this "s\<lparr>ui_tasks := ts\<rparr>"] by (auto simp: in_order_def)
      from Suc.IH [OF s1(2)] s1 Suc.prems(2) Cons Dispatcher_Callback show ?thesis by simp
    next
      case Other_Callback
      let ?s1 = "s\<lparr>ui_tasks := ts\<rparr>"
      have "dispatch_inv this ?s1" "in_order ?s1 = in_order s"
        using inv Other_Callback by (auto simp: dispatch_inv_def scheduled_def in_order_def)
      with Suc.IH [of ?s1] Suc.prems Cons Other_Callback show ?thesis by simp
    qed
  qed
qed auto

lemma fire_then_run_delivers:
  assumes "iterates it" and "dispatch_inv this s"
    and "length (ui_tasks s) + length (secondary_callbacks (vwaiter s)) < n"
  shows "\<exists>s'. run_ops (dispatch_step this it) s (D_Fire start tgt pause # replicate n D_Run) = Inr s' \<and>
     map fst (delivered s') = in_order s"
proof -
  obtain s1 where s1: "dispatch_step this it s (D_Fire start tgt pause) = Inr s1"
    using fire_total [of it start tgt pause "vwaiter s"] by auto
  have inv: "dispatch_inv this s1" "in_order s1 = in_order s" "secondary_callbacks (vwaiter s1) = []"
    using fire_inv [OF assms(2) s1 assms(1)] by auto
  have "length (it cs) = length cs" for cs
    using assms(1) by (metis iterates_def size_mset)
  then have "length (ui_tasks s1) \<le> n"
    using s1 assms(3) by (auto simp: split_beta FireCallback_def Let_def length_concat comp_def sum_list_triv
      split: option.splits)
  moreover have "pending_packet (disp s1) = None \<or> Dispatcher_Callback \<in> set (ui_tasks s1)"
    using inv by (auto simp: dispatch_inv_def scheduled_def)
  ultimately obtain s2 where "run_ops (dispatch_step this it) s1 (replicate n D_Run) = Inr s2"
    "in_order s2 = in_order s1" "pending_packet (disp s2) = None"
    using run_tasks_spec [OF inv(1)] by blast
  with s1 inv(2) show ?thesis by (auto simp: in_order_def)
qed

section \<open>Properties of the dispatcher\<close>

text \<open>
  C20: The smooth dispatcher neither loses, duplicates nor reorders packets, and its debug checks never
  fail: whatever packets, vsyncs and UI tasks come in whatever order, what it has delivered
  followed by the one packet it may hold is what it received.
\<close>

theorem dispatcher_keeps_packets_in_order:
  assumes "iterates it"
  shows "\<exists>s. run_ops (dispatch_step this it) dispatch_init es = Inr s \<and>
     map fst (delivered s) @ (case pending_packet (disp s) of None \<Rightarrow> [] | Some p \<Rightarrow> [p]) = packets es"
  using dispatch_run_spec [OF assms dispatch_inv_init, of this es]
  by (auto simp: in_order_def dispatch_init_def SmoothPointerDataDispatcher_def)

text \<open>
  C21: A packet is held for at most one vsync: from every reachable state, once a vsync has fired and
  the UI tasks posted by then have run, every packet received so far has been delivered.
\<close>

theorem vsync_delivers_pending_packet:
  assumes "iterates it" and "run_ops (dispatch_step this it) dispatch_init es = Inr s"
    and "length (ui_tasks s) + length (secondary_callbacks (vwaiter s)) < n"
  shows "\<exists>s'. run_ops (dispatch_step this it) s (D_Fire start tgt pause # replicate n D_Run) = Inr s' \<and>
     map fst (delivered s') = packets es"
proof -
  have "dispatch_inv this s" "in_order s = packets es"
    using dispatch_run_spec [OF assms(1) dispatch_inv_init, of this es] assms(2)
    by (auto simp: in_order_def dispatch_init_def SmoothPointerDataDispatcher_def)
  with fire_then_run_delivers [OF assms(1) _ assms(3), of this start tgt pause] show ?thesis by simp
qed

text \<open>
  A held packet may be delivered under another trace id than it came with: the 64-bit id is kept
  in an \<open>int\<close>, so an id of 0x80000000 comes back sign-extended.
\<close>

lemma held_packet_changes_trace_id:
  "\<exists>s. run_ops (dispatch_step 1 id) dispatch_init
       [D_Packet ''a'' 1, D_Packet ''b'' 0x80000000, D_Fire (TimePoint 0) (TimePoint 9) True, D_Run] = Inr s \<and>
     delivered s = [(''a'', 1), (''b'', 0xFFFFFFFF80000000)]"
  by (simp add: dispatch_init_def SmoothPointerDataDispatcher_def VsyncWaiter_def smooth_DispatchPacket_def
    default_DispatchPacket_def ScheduleSecondaryVsyncCallback_def ScheduleSecondaryCallback_def FireCallback_def
    dispatcher_callback_def DispatchPendingPacket_def Let_def)

lemma iterates_rev: "iterates rev"
  by (simp add: iterates_def)

theorem dispatcher_keeps_packets_in_order_witness:
  "\<exists>s. run_ops (dispatch_step 1 rev) dispatch_init
       [D_Packet ''a'' 1, D_Packet ''b'' 2, D_Secondary 3, D_Packet ''c'' 3, D_Fire (TimePoint 0) (TimePoint 9) True, D_Run] = Inr s \<and>
     map fst (delivered s) @ (case pending_packet (disp s) of None \<Rightarrow> [] | Some p \<Rightarrow> [p]) = [''a'', ''b'', ''c'']"
  using dispatcher_keeps_packets_in_order [OF iterates_rev, of 1
      "[D_Packet ''a'' 1, D_Packet ''b'' 2, D_Secondary 3, D_Packet ''c'' 3, D_Fire (TimePoint 0) (TimePoint 9) True, D_Run]"] by simp

theorem vsync_delivers_pending_packet_witness:
  "\<exists>s s'. run_ops (dispatch_step 1 rev) dispatch_init [D_Packet ''a'' 1, D_Packet ''b'' 2] = Inr s \<and>
     pending_packet (disp s) = Some ''b'' \<and>
     run_ops (dispatch_step 1 rev) s (D_Fire (TimePoint 0) (TimePoint 9) True # replicate 2 D_Run) = Inr s' \<and>
     map fst (delivered s') = [''a'', ''b'']"
proof -
  obtain s where s: "run_ops (dispatch_step 1 rev) dispatch_init [D_Packet ''a'' 1, D_Packet ''b'' 2] = Inr s"
    "pending_packet (disp s) = Some ''b''" "length (ui_tasks s) + length (secondary_callbacks (vwaiter s)) < 2"
    by (simp add: dispatch_init_def SmoothPointerDataDispatcher_def VsyncWaiter_def smooth_DispatchPacket_def
      default_DispatchPacket_def ScheduleSecondaryVsyncCallback_def ScheduleSecondaryCallback_def Let_def)
  from vsync_delivers_pending_packet [OF iterates_rev s(1,3), of "TimePoint 0" "TimePoint 9" True] s(1,2) show ?thesis by auto
qed

end
