(* ===== verification/Shell_Pipeline.thy ===== *)
theory Shell_Pipeline
  imports Prelude
begin

text \<open>
  \<open>shell/common/pipeline\<close>, the bounded queue between the UI thread and the raster thread, with the
  counting semaphores of \<open>fml/synchronization\<close> it is made of and the loop of \<open>Rasterizer::Draw\<close>
  that empties it. The operations are given twice: whole, as one thread runs them, and cut at their
  atomic sections, as the two threads interleave them.
\<close>

section \<open>Semaphores\<close>

type_synonym semaphore = nat

(* map: fml/synchronization/semaphore.cc 142 148 PlatformSemaphore::TryWait *)
definition TryWait :: "semaphore \<Rightarrow> bool \<times> semaphore" where
  "TryWait n = (if n = 0 then (False, n) else (True, n - 1))"

(* map: fml/synchronization/semaphore.cc 150 158 PlatformSemaphore::Signal *)
definition Signal :: "semaphore \<Rightarrow> semaphore" where
  "Signal n = n + 1"

section \<open>The pipeline\<close>

text \<open>A null resource is \<open>None\<close>.\<close>

(* map: shell/common/pipeline.h 183 187 Pipeline *)
record 'r pipeline =
  empty :: semaphore
  available :: semaphore
  inflight :: int
  queue :: "('r option \<times> 64 word) list"

(* map: shell/common/pipeline.h 21 27 PipelineProduceResult *)
record produce_result =
  success :: bool
  is_first_item :: bool

(* map: shell/common/pipeline.h 29 33 PipelineConsumeResult *)
datatype consume_result = NoneAvailable | Done | MoreAvailable

text \<open>A continuation is empty (\<open>None\<close>) or bound to one of the two commit functions.\<close>

datatype commit_kind = Commit | Commit_If_Empty

(* map: shell/common/pipeline.h 47 102 Pipeline::ProducerContinuation *)
type_synonym continuation = "(commit_kind \<times> 64 word) option"

(* map: shell/common/pipeline.h 104 105 Pipeline::Pipeline *)
definition Pipeline :: "nat \<Rightarrow> 'r pipeline" where
  "Pipeline depth = \<lparr>empty = depth, available = 0, inflight = 0, queue = []\<rparr>"

(* map: shell/common/pipeline.cc 9 12 GetNextPipelineTraceID *)
definition GetNextPipelineTraceID :: "64 word \<Rightarrow> 64 word" where
  "GetNextPipelineTraceID n = n + 1"

definition produce_with :: "commit_kind \<Rightarrow> 'r pipeline \<Rightarrow> 64 word \<Rightarrow> continuation \<times> 'r pipeline \<times> 64 word" where
  "produce_with k p gen =
     (let (ok, e) = TryWait (empty p) in
      if \<not> ok then (None, p\<lparr>empty := e\<rparr>, gen)
      else let tid = GetNextPipelineTraceID gen
           in (Some (k, tid), p\<lparr>empty := e, inflight := inflight p + 1\<rparr>, tid))"

(* map: shell/common/pipeline.h fn ProducerContinuation Produce( *)
definition Produce :: "'r pipeline \<Rightarrow> 64 word \<Rightarrow> continuation \<times> 'r pipeline \<times> 64 word" where
  "Produce = produce_with Commit"

(* map: shell/common/pipeline.h fn ProducerContinuation ProduceIfEmpty( *)
definition ProduceIfEmpty :: "'r pipeline \<Rightarrow> 64 word \<Rightarrow> continuation \<times> 'r pipeline \<times> 64 word" where
  "ProduceIfEmpty = produce_with Commit_If_Empty"

text \<open>
  What a commit does while it holds the mutex, and the result it will return: with \<open>success\<close> the
  semaphore is signalled after the mutex is released.
\<close>

fun commit_locked :: "commit_kind \<Rightarrow> 'r option \<Rightarrow> 64 word \<Rightarrow> 'r pipeline \<Rightarrow> produce_result \<times> 'r pipeline" where
  "commit_locked Commit r tid p =
     (\<lparr>success = True, is_first_item = (queue p = [])\<rparr>, p\<lparr>queue := queue p @ [(r, tid)]\<rparr>)"
| "commit_locked Commit_If_Empty r tid p =
     (if queue p \<noteq> [] then (\<lparr>success = False, is_first_item = False\<rparr>, p\<lparr>empty := Signal (empty p)\<rparr>)
      else (\<lparr>success = True, is_first_item = True\<rparr>, p\<lparr>queue := queue p @ [(r, tid)]\<rparr>))"

definition run_commit :: "commit_kind \<Rightarrow> 'r option \<Rightarrow> 64 word \<Rightarrow> 'r pipeline \<Rightarrow> produce_result \<times> 'r pipeline" where
  "run_commit k r tid p =
     (let (res, p') = commit_locked k r tid p
      in (res, if success res then p'\<lparr>available := Signal (available p')\<rparr> else p'))"

(* map: shell/common/pipeline.h 189 200 Pipeline::ProducerCommit *)
definition ProducerCommit :: "'r option \<Rightarrow> 64 word \<Rightarrow> 'r pipeline \<Rightarrow> produce_result \<times> 'r pipeline" where
  "ProducerCommit = run_commit Commit"

(* map: shell/common/pipeline.h 202 218 Pipeline::ProducerCommitIfEmpty *)
definition ProducerCommitIfEmpty :: "'r option \<Rightarrow> 64 word \<Rightarrow> 'r pipeline \<Rightarrow> produce_result \<times> 'r pipeline" where
  "ProducerCommitIfEmpty = run_commit Commit_If_Empty"

fun continue_with :: "commit_kind \<Rightarrow> 'r option \<Rightarrow> 64 word \<Rightarrow> 'r pipeline \<Rightarrow> produce_result \<times> 'r pipeline" where
  "continue_with Commit = ProducerCommit"
| "continue_with Commit_If_Empty = ProducerCommitIfEmpty"

(* map: shell/common/pipeline.h fn PipelineProduceResult Complete( *)
definition Complete :: "'r option \<Rightarrow> continuation \<Rightarrow> 'r pipeline \<Rightarrow> produce_result \<times> continuation \<times> 'r pipeline" where
  "Complete r c p =
     (case c of
        None \<Rightarrow> (\<lparr>success = False, is_first_item = False\<rparr>, None, p)
      | Some (k, tid) \<Rightarrow> let (res, p') = continue_with k r tid p in (res, None, p'))"

text \<open>A continuation that is dropped commits a null resource.\<close>

(* map: shell/common/pipeline.h 63 71 Pipeline::ProducerContinuation::~ProducerContinuation *)
definition drop_continuation :: "continuation \<Rightarrow> 'r pipeline \<Rightarrow> 'r pipeline" where
  "drop_continuation c p =
     (case c of None \<Rightarrow> p | Some (k, tid) \<Rightarrow> snd (continue_with k None tid p))"

text \<open>
  The three parts of \<open>Consume\<close>: take a permit, pop the front (undefined behaviour on an empty
  deque) and, after the consumer ran, give the place back.
\<close>

definition pop_front :: "'r pipeline \<Rightarrow> ('r option \<times> 64 word \<times> nat \<times> 'r pipeline) res" where
  "pop_front p = (case queue p of [] \<Rightarrow> Inl Undefined | (r, tid) # q \<Rightarrow> Inr (r, tid, length q, p\<lparr>queue := q\<rparr>))"

definition consume_finish :: "nat \<Rightarrow> 'r pipeline \<Rightarrow> consume_result \<times> 'r pipeline" where
  "consume_finish items p =
     (if items > 0 then MoreAvailable else Done, p\<lparr>empty := Signal (empty p), inflight := inflight p - 1\<rparr>)"

(* map: shell/common/pipeline.h fn PipelineConsumeResult Consume( *)
definition Consume :: "('r option \<Rightarrow> 'r pipeline \<times> 'w \<Rightarrow> 'r pipeline \<times> 'w) option \<Rightarrow> 'r pipeline \<Rightarrow> 'w
    \<Rightarrow> (consume_result \<times> 'r pipeline \<times> 'w) res" where
  "Consume consumer p w =
     (case consumer of
        None \<Rightarrow> Inr (NoneAvailable, p, w)
      | Some f \<Rightarrow>
          let (ok, a) = TryWait (available p) in
          if \<not> ok then Inr (NoneAvailable, p\<lparr>available := a\<rparr>, w)
          else bindr (pop_front (p\<lparr>available := a\<rparr>)) (\<lambda>(r, tid, items, p1).
            let (p2, w') = f r (p1, w); (res, p3) = consume_finish items p2 in Inr (res, p3, w')))"

section \<open>The two threads\<close>

text \<open>
  The raster thread is idle, has taken a permit, runs the consumer on a resource with the number of items left behind it,
  or has ended \<open>Consume\<close>. A draw ends normally, asks to resubmit its tree, or asks for another draw
  (\<open>kEnqueuePipeline\<close>). To resubmit, the rasterizer first has a place promised and then pushes the tree, which it
  has still to signal. What becomes of a null resource that the consumer is handed is left open: the consumer of
  \<open>Rasterizer::Draw\<close> reads the tree of it.
\<close>

datatype 'r outcome = Drawn | Resubmit 'r | Enqueue_Pipeline

datatype 'r stage = Idle | Taken | Running "'r option" nat | Ended consume_result "'r outcome"
  | Promised commit_kind "64 word" 'r consume_result | Pushed

text \<open>
  \<open>outstanding\<close>: the continuations the producer holds. \<open>signals\<close>: the commits that have released
  the mutex and not yet signalled, each with whether it will announce a first item.
  \<open>draws\<close>: the \<open>Draw\<close> tasks posted to the raster thread. \<open>committed\<close> and \<open>consumed\<close> are histories.
\<close>

record 'r psys =
  pl :: "'r pipeline"
  gen :: "64 word"
  outstanding :: "(commit_kind \<times> 64 word) list"
  signals :: "bool list"
  stage :: "'r stage"
  draws :: nat
  committed :: "'r option list"
  consumed :: "'r option list"

definition psys_init :: "nat \<Rightarrow> 'r psys" where
  "psys_init depth = \<lparr>pl = Pipeline depth, gen = 0, outstanding = [], signals = [], stage = Idle, draws = 0,
                      committed = [], consumed = []\<rparr>"

datatype 'r pipe_op =
    P_Produce commit_kind     \<comment> \<open>\<open>Produce\<close> or \<open>ProduceIfEmpty\<close>\<close>
  | P_Push nat 'r             \<comment> \<open>the locked part of \<open>Complete\<close>\<close>
  | P_Drop nat                \<comment> \<open>the locked part of a dropped continuation\<close>
  | P_Signal nat              \<comment> \<open>the signal of a commit, and \<open>OnAnimatorDraw\<close> for a first item\<close>
  | P_Draw                    \<comment> \<open>a posted \<open>Rasterizer::Draw\<close> tries to take a permit\<close>
  | P_Pop                     \<comment> \<open>the locked part of \<open>Consume\<close>\<close>
  | P_Finish "'r outcome"     \<comment> \<open>the end of \<open>Consume\<close>\<close>
  | P_Result                  \<comment> \<open>what \<open>Draw\<close> makes of it, with \<open>ProduceIfEmpty\<close> to resubmit\<close>
  | P_Repush                  \<comment> \<open>the locked part of the commit of a resubmitted tree\<close>
  | P_Resignal                \<comment> \<open>its signal, and the post of the next \<open>Draw\<close>\<close>
  | P_Yield                   \<comment> \<open>a posted \<open>Draw\<close> that is not on the rasterizing thread\<close>

definition push_step :: "nat \<Rightarrow> 'r option \<Rightarrow> 'r psys \<Rightarrow> 'r psys" where
  "push_step i r s =
     (if i < length (outstanding s)
      then let (k, tid) = outstanding s ! i; (res, p) = commit_locked k r tid (pl s) in
           s\<lparr>pl := p, outstanding := remove_nth i (outstanding s),
             signals := (if success res then signals s @ [is_first_item res \<and> r \<noteq> None] else signals s),
             committed := (if success res then committed s @ [r] else committed s)\<rparr>
      else s)"

text \<open>The next \<open>Draw\<close> is posted for \<open>MoreAvailable\<close>.\<close>

(* map: shell/common/rasterizer.cc 236 249 Rasterizer::Draw:post *)
definition post_draw :: "consume_result \<Rightarrow> 'r psys \<Rightarrow> 'r psys" where
  "post_draw res s = s\<lparr>stage := Idle, draws := draws s + of_bool (res = MoreAvailable)\<rparr>"

(* map: shell/common/rasterizer.cc 212 224 Rasterizer::Draw:result *)
definition draw_result :: "'r outcome \<Rightarrow> consume_result \<Rightarrow> 'r psys \<Rightarrow> 'r psys" where
  "draw_result out res s =
     (case out of
        Drawn \<Rightarrow> post_draw res s
      | Enqueue_Pipeline \<Rightarrow> post_draw MoreAvailable s
      | Resubmit x \<Rightarrow>
          let (c, p, g) = ProduceIfEmpty (pl s) (gen s); s = s\<lparr>pl := p, gen := g\<rparr> in
          (case c of None \<Rightarrow> post_draw res s | Some (k, tid) \<Rightarrow> s\<lparr>stage := Promised k tid x res\<rparr>))"

text \<open>The commit of a resubmitted tree, up to its signal: it bails out when the queue is not empty.\<close>

definition repush :: "commit_kind \<Rightarrow> 64 word \<Rightarrow> 'r \<Rightarrow> consume_result \<Rightarrow> 'r psys \<Rightarrow> 'r psys" where
  "repush k tid x res s =
     (let (pr, p) = commit_locked k (Some x) tid (pl s) in
      if success pr then s\<lparr>pl := p, stage := Pushed, committed := committed s @ [Some x]\<rparr>
      else post_draw res (s\<lparr>pl := p\<rparr>))"

(* map: shell/common/pipeline.h 150 180 Pipeline::Consume:sections *)
fun psys_step :: "'r psys \<Rightarrow> 'r pipe_op \<Rightarrow> 'r psys res" where
  "psys_step s (P_Produce k) =
     (let (c, p, g) = produce_with k (pl s) (gen s) in
      Inr (s\<lparr>pl := p, gen := g, outstanding := outstanding s @ (case c of None \<Rightarrow> [] | Some ct \<Rightarrow> [ct])\<rparr>))"
| "psys_step s (P_Push i r) = Inr (push_step i (Some r) s)"
| "psys_step s (P_Drop i) = Inr (push_step i None s)"
| "psys_step s (P_Signal i) =
     Inr (if i < length (signals s)
          then s\<lparr>pl := (pl s)\<lparr>available := Signal (available (pl s))\<rparr>, signals := remove_nth i (signals s),
                 draws := draws s + of_bool (signals s ! i)\<rparr>
          else s)"
| "psys_step s P_Draw =
     Inr (if stage s = Idle \<and> draws s > 0
          then let (ok, a) = TryWait (available (pl s)) in
               s\<lparr>draws := draws s - 1, pl := (pl s)\<lparr>available := a\<rparr>, stage := (if ok then Taken else Idle)\<rparr>
          else s)"
| "psys_step s P_Pop =
     (if stage s = Taken
      then bindr (pop_front (pl s)) (\<lambda>(r, tid, items, p).
             Inr (s\<lparr>pl := p, stage := Running r items, consumed := consumed s @ [r]\<rparr>))
      else Inr s)"
| "psys_step s (P_Finish out) =
     Inr (case stage s of
            Running r items \<Rightarrow> let (res, p) = consume_finish items (pl s) in s\<lparr>pl := p, stage := Ended res out\<rparr>
          | _ \<Rightarrow> s)"
| "psys_step s P_Result = Inr (case stage s of Ended res out \<Rightarrow> draw_result out res s | _ \<Rightarrow> s)"
| "psys_step s P_Repush = Inr (case stage s of Promised k tid x res \<Rightarrow> repush k tid x res s | _ \<Rightarrow> s)"
| "psys_step s P_Resignal =
     Inr (if stage s = Pushed
          then post_draw MoreAvailable (s\<lparr>pl := (pl s)\<lparr>available := Signal (available (pl s))\<rparr>\<rparr>)
          else s)"
| "psys_step s P_Yield = Inr (if stage s = Idle \<and> draws s > 0 then s\<lparr>draws := draws s - 1\<rparr> else s)"

section \<open>Safety under every interleaving\<close>

text \<open>The places taken by the raster thread: that of the resource being drawn, or the promised one.\<close>

definition running :: "'r stage \<Rightarrow> nat" where
  "running st = (case st of Running _ _ \<Rightarrow> 1 | Promised _ _ _ _ \<Rightarrow> 1 | _ \<Rightarrow> 0)"

definition psys_inv :: "nat \<Rightarrow> 'r psys \<Rightarrow> bool" where
  "psys_inv depth s \<longleftrightarrow>
     empty (pl s) + length (outstanding s) + length (queue (pl s)) + running (stage s) = depth \<and>
     available (pl s) + length (signals s) + of_bool (stage s = Taken \<or> stage s = Pushed) = length (queue (pl s)) \<and>
     consumed s @ map fst (queue (pl s)) = committed s"

lemmas pipe_defs = TryWait_def Signal_def produce_with_def run_commit_def pop_front_def consume_finish_def
  ProducerCommit_def ProducerCommitIfEmpty_def Complete_def ProduceIfEmpty_def Let_def running_def post_draw_def

lemma psys_inv_init: "psys_inv depth (psys_init depth)"
  by (simp add: psys_inv_def psys_init_def Pipeline_def running_def)

lemma psys_inv_draws [simp]: "psys_inv depth (s\<lparr>draws := n\<rparr>) = psys_inv depth s"
  by (simp add: psys_inv_def)

lemma push_step_inv: "psys_inv depth s \<Longrightarrow> psys_inv depth (push_step i r s)"
proof (cases "i < length (outstanding s)")
  case True
  assume inv: "psys_inv depth s"
  obtain k tid where k: "outstanding s ! i = (k, tid)" by (cases "outstanding s ! i")
  have "length (remove_nth i (outstanding s)) + 1 = length (outstanding s)"
    using True by (simp add: length_remove_nth)
  with inv True k show ?thesis
    by (cases k; cases "queue (pl s)") (auto simp: psys_inv_def push_step_def pipe_defs)
qed (simp add: push_step_def)

lemma draw_result_inv: "psys_inv depth s \<Longrightarrow> stage s = Ended r out' \<Longrightarrow> psys_inv depth (draw_result out res s)"
  by (cases out) (auto simp: psys_inv_def draw_result_def pipe_defs)

lemma repush_inv: "psys_inv depth s \<Longrightarrow> stage s = Promised k tid x res \<Longrightarrow> psys_inv depth (repush k tid x res s)"
  by (cases k; cases "queue (pl s)") (auto simp: psys_inv_def repush_def pipe_defs)

lemma psys_step_inv:
  assumes "psys_inv depth s"
  shows "\<exists>s'. psys_step s x = Inr s' \<and> psys_inv depth s'"
proof (cases x)
  case P_Pop
  with assms show ?thesis
    by (cases "queue (pl s)"; cases "stage s") (auto simp: psys_inv_def pipe_defs)
next
  case P_Result
  with assms draw_result_inv [OF assms] show ?thesis by (auto split: stage.splits)
next
  case P_Repush
  with assms repush_inv [OF assms] show ?thesis by (auto split: stage.splits)
qed (use assms push_step_inv [OF assms] in
      \<open>auto simp: psys_inv_def pipe_defs length_remove_nth split: option.splits stage.splits\<close>)

interpretation pipe: total_machine psys_step "psys_inv depth" for depth
proof
  show "psys_inv depth s'" if "psys_inv depth s" "psys_step s e = Inr s'" for s s' :: "'a psys" and e
    using psys_step_inv [OF that(1), of e] that(2) by auto
  show "\<exists>s'. psys_step s e = Inr s'" if "psys_inv depth s" for s :: "'a psys" and e
    using psys_step_inv [OF that, of e] by auto
qed

section \<open>No stall when commits are atomic\<close>

text \<open>
  The operations of the two threads when no \<open>Draw\<close> runs between the push of a commit and its
  signal. A continuation that is dropped commits a null resource, which nobody announces, and a \<open>Draw\<close> that yields,
  because the raster thread has been merged, is gone: \<open>losing\<close> picks out these two.
\<close>

datatype 'r whole_op =
    W_Produce commit_kind | W_Complete nat 'r | W_Drop nat
  | W_Draw | W_Pop | W_Finish "'r outcome" | W_Result | W_Repush | W_Resignal | W_Yield

fun whole_step :: "'r psys \<Rightarrow> 'r whole_op \<Rightarrow> 'r psys res" where
  "whole_step s (W_Produce k) = psys_step s (P_Produce k)"
| "whole_step s (W_Complete i r) =
     bindr (psys_step s (P_Push i r)) (\<lambda>s'. psys_step s' (P_Signal (length (signals s))))"
| "whole_step s (W_Drop i) =
     bindr (psys_step s (P_Drop i)) (\<lambda>s'. psys_step s' (P_Signal (length (signals s))))"
| "whole_step s W_Draw = psys_step s P_Draw"
| "whole_step s W_Pop = psys_step s P_Pop"
| "whole_step s (W_Finish out) = psys_step s (P_Finish out)"
| "whole_step s W_Result = psys_step s P_Result"
| "whole_step s W_Repush = psys_step s P_Repush"
| "whole_step s W_Resignal = psys_step s P_Resignal"
| "whole_step s W_Yield = psys_step s P_Yield"

fun losing :: "'r whole_op \<Rightarrow> bool" where
  "losing (W_Drop i) = True"
| "losing W_Yield = True"
| "losing _ = False"

text \<open>Somebody will look at the queue again: a posted draw, or the draw in progress.\<close>

definition attended :: "'r psys \<Rightarrow> bool" where
  "attended s \<longleftrightarrow> draws s > 0 \<or>
     (case stage s of Idle \<Rightarrow> False | Taken \<Rightarrow> True | Running _ n \<Rightarrow> n > 0
      | Ended res out \<Rightarrow> res = MoreAvailable \<or> out = Enqueue_Pipeline | Promised _ _ _ res \<Rightarrow> res = MoreAvailable | Pushed \<Rightarrow> True)"

text \<open>\<open>lost\<close>: whether an operation has lost something.\<close>

definition whole_inv :: "nat \<Rightarrow> bool \<Rightarrow> 'r psys \<Rightarrow> bool" where
  "whole_inv depth lost s \<longleftrightarrow> psys_inv depth s \<and> signals s = [] \<and> (queue (pl s) = [] \<or> attended s \<or> lost)"

lemma list_all_remove_nth: "list_all P xs \<Longrightarrow> list_all P (remove_nth i xs)"
  by (auto simp: remove_nth_def list_all_iff dest: in_set_takeD in_set_dropD)

lemma whole_commit:
  assumes "signals s = []"
  shows "bindr (psys_step s (P_Push i r)) (\<lambda>s'. psys_step s' (P_Signal (length (signals s)))) = Inr s' \<Longrightarrow>
      queue (pl s) = [] \<or> attended s \<or> lost \<Longrightarrow> signals s' = [] \<and> (queue (pl s') = [] \<or> attended s' \<or> lost)"
    and "bindr (psys_step s (P_Drop i)) (\<lambda>s'. psys_step s' (P_Signal (length (signals s)))) = Inr s' \<Longrightarrow> signals s' = []"
proof -
  obtain k tid where k: "outstanding s ! i = (k, tid)" by (cases "outstanding s ! i")
  show "bindr (psys_step s (P_Push i r)) (\<lambda>s'. psys_step s' (P_Signal (length (signals s)))) = Inr s' \<Longrightarrow>
      queue (pl s) = [] \<or> attended s \<or> lost \<Longrightarrow> signals s' = [] \<and> (queue (pl s') = [] \<or> attended s' \<or> lost)"
    using assms k by (cases k) (auto simp: attended_def push_step_def remove_nth_def Let_def split: if_splits)
  show "bindr (psys_step s (P_Drop i)) (\<lambda>s'. psys_step s' (P_Signal (length (signals s)))) = Inr s' \<Longrightarrow> signals s' = []"
    using assms k by (cases k) (auto simp: push_step_def remove_nth_def Let_def split: if_splits)
qed

lemma whole_step_parts:
  assumes "whole_inv depth lost s" and "whole_step s x = Inr s'"
  shows "signals s' = [] \<and> (queue (pl s') = [] \<or> attended s' \<or> lost \<or> losing x)"
proof (cases x)
  case (W_Complete i r)
  with assms whole_commit(1) [of s i r s' lost] show ?thesis by (simp add: whole_inv_def del: psys_step.simps)
next
  case (W_Drop i)
  with assms whole_commit(2) [of s i s'] show ?thesis by (simp add: whole_inv_def del: psys_step.simps)
next
  case W_Pop
  with assms show ?thesis
    by (cases "queue (pl s)") (auto simp: whole_inv_def psys_inv_def attended_def pipe_defs split: if_splits)
next
  case W_Result
  with assms show ?thesis
    by (cases "stage s")
      (auto simp: whole_inv_def attended_def draw_result_def pipe_defs split: if_splits outcome.splits)
next
  case W_Repush
  show ?thesis
  proof (cases "stage s")
    case (Promised k tid r res)
    with W_Repush assms show ?thesis
      by (cases k; cases "queue (pl s)") (auto simp: whole_inv_def attended_def repush_def pipe_defs)
  qed (use W_Repush assms in \<open>auto simp: whole_inv_def\<close>)
qed (use assms in \<open>auto simp: whole_inv_def psys_inv_def attended_def pipe_defs split: if_splits stage.splits\<close>)

lemma whole_step_psys:
  assumes inv: "psys_inv depth s"
  shows "\<exists>s'. whole_step s x = Inr s' \<and> psys_inv depth s'"
proof -
  have two: "\<exists>s'. bindr (psys_step s y) (\<lambda>s'. psys_step s' z) = Inr s' \<and> psys_inv depth s'" for y z
  proof -
    obtain s1 where s1: "psys_step s y = Inr s1" "psys_inv depth s1" using psys_step_inv [OF inv] by blast
    with psys_step_inv [OF s1(2), of z] show ?thesis by auto
  qed
  show ?thesis using psys_step_inv [OF inv] two by (cases x) (auto simp del: psys_step.simps)
qed

lemma whole_run:
  "whole_inv depth lost s \<Longrightarrow> \<exists>s'. run_ops whole_step s ops = Inr s' \<and> whole_inv depth (lost \<or> list_ex losing ops) s'"
proof (induction ops arbitrary: lost s)
  case (Cons x ops)
  from Cons.prems have "psys_inv depth s" by (simp add: whole_inv_def)
  then obtain s1 where s1: "whole_step s x = Inr s1" "psys_inv depth s1" using whole_step_psys by blast
  then have "whole_inv depth (lost \<or> losing x) s1"
    using whole_step_parts [OF Cons.prems s1(1)] by (auto simp: whole_inv_def)
  from Cons.IH [OF this] s1 show ?case by auto
qed simp

lemma whole_inv_init: "whole_inv depth False (psys_init depth)"
  using psys_inv_init [of depth] by (simp add: whole_inv_def psys_init_def Pipeline_def)

section \<open>Properties of the pipeline\<close>

text \<open>
  C19: However the producer and the consumer interleave their atomic sections, the pipeline never
  reads the front of an empty queue, hands resources out exactly in the order they were committed,
  each once, and never holds more than \<open>depth\<close> resources, counting the promised ones and the one
  being drawn.
\<close>

theorem pipeline_is_a_bounded_fifo:
  "\<exists>s. run_ops psys_step (psys_init depth) ops = Inr s \<and>
     consumed s @ map fst (queue (pl s)) = committed s \<and>
     length (queue (pl s)) + length (outstanding s) + running (stage s) \<le> depth"
  using pipe.run_total [OF psys_inv_init [of depth], of ops] by (auto simp: psys_inv_def)

text \<open>
  C23: When commits are atomic, a resource in the queue waits for nothing only if a continuation was dropped or a
  \<open>Draw\<close> yielded before: in every other run a \<open>Draw\<close> task is posted, or the one in progress will post another. This
  covers both kinds of continuations, resubmitted trees (whose commit need not be atomic) and \<open>kEnqueuePipeline\<close>. A
  dropped continuation commits a null resource that nobody announces, and a \<open>Draw\<close> that yields posts nothing.
\<close>

theorem atomic_commits_never_stall:
  "\<exists>s. run_ops whole_step (psys_init depth) ops = Inr s \<and> (queue (pl s) = [] \<or> attended s \<or> list_ex losing ops)"
  using whole_run [OF whole_inv_init [of depth], of ops] by (auto simp: whole_inv_def)

text \<open>A dropped continuation does leave a resource in the queue that nobody will look at.\<close>

lemma dropped_continuation_stalls:
  "\<exists>s. run_ops whole_step (psys_init 2) [W_Produce Commit, W_Drop 0] = Inr (s :: string psys) \<and>
     queue (pl s) = [(None, 1)] \<and> \<not> attended s"
  by (simp add: psys_init_def Pipeline_def pipe_defs push_step_def remove_nth_def attended_def GetNextPipelineTraceID_def)

text \<open>
  \<open>ProducerCommit\<close> releases the mutex before it signals \<open>available\<close>, and a draw that runs in between
  stalls the pipeline: a draw that already saw the second item in the queue posts another
  \<open>Draw\<close>, which finds no permit and gives up; the late signal announces nothing since the item was
  not the first. The item stays and nobody will draw it.
\<close>

lemma late_signal_stalls_the_pipeline:
  "\<exists>s. run_ops psys_step (psys_init 2)
       [P_Produce Commit, P_Push 0 ''a'', P_Signal 0, P_Produce Commit, P_Push 0 ''b'',
        P_Draw, P_Pop, P_Finish Drawn, P_Result, P_Draw, P_Signal 0] = Inr s \<and>
     queue (pl s) \<noteq> [] \<and> \<not> attended s \<and> signals s = [] \<and> outstanding s = []"
  by (simp add: psys_init_def Pipeline_def pipe_defs push_step_def remove_nth_def draw_result_def attended_def)

text \<open>
  A \<open>ProduceIfEmpty\<close> continuation that finds the queue occupied gives its place back but not
  its count: after everything has been consumed, one frame is still counted in flight.
\<close>

lemma bail_leaks_inflight:
  "\<exists>s. run_ops psys_step (psys_init 2)
       [P_Produce Commit, P_Produce Commit_If_Empty, P_Push 0 ''a'', P_Signal 0, P_Push 0 ''b'',
        P_Draw, P_Pop, P_Finish Drawn, P_Result] = Inr s \<and>
     queue (pl s) = [] \<and> outstanding s = [] \<and> empty (pl s) = 2 \<and> inflight (pl s) = 1"
  by (simp add: psys_init_def Pipeline_def pipe_defs push_step_def remove_nth_def draw_result_def
    GetNextPipelineTraceID_def)

end
