(* ===== verification/Flow_Frame_Timings.thy ===== *)
theory Flow_Frame_Timings
  imports Fml_Task_Source "HOL-Library.Sublist"
begin

text \<open>
  \<open>flow/frame_timings\<close> and the \<open>FrameTiming\<close> of \<open>common/settings.h\<close>: the recorder that follows a frame
  from its vsync to the end of its rasterization. The clocks read by \<open>RecordRasterEnd\<close> are
  arguments; \<open>junk\<close> is what the members of a \<open>FrameTiming\<close> without initializer hold.
\<close>

section \<open>Frame timing\<close>

(* map: common/settings.h 26 34 FrameTiming::Phase *)
datatype phase =
    Phase_kVsyncStart | Phase_kBuildStart | Phase_kBuildFinish
  | Phase_kRasterStart | Phase_kRasterFinish | Phase_kRasterFinishWallTime

(* map: common/settings.h 63 70 FrameTiming *)
record frame_timing =
  ft_data :: "phase \<Rightarrow> time_point"
  ft_frame_number :: "64 word"
  ft_layer_cache_count :: "64 word"
  ft_layer_cache_bytes :: "64 word"
  ft_picture_cache_count :: "64 word"
  ft_picture_cache_bytes :: "64 word"

(* map: common/settings.h 43 45 FrameTiming::Set *)
definition ft_Set :: "phase \<Rightarrow> time_point \<Rightarrow> frame_timing \<Rightarrow> frame_timing" where
  "ft_Set p t ft = ft\<lparr>ft_data := (ft_data ft)(p := t)\<rparr>"

(* map: common/settings.h 48 48 FrameTiming::SetFrameNumber *)
definition SetFrameNumber :: "64 word \<Rightarrow> frame_timing \<Rightarrow> frame_timing" where
  "SetFrameNumber n ft = ft\<lparr>ft_frame_number := n\<rparr>"

(* map: common/settings.h 53 61 FrameTiming::SetRasterCacheStatistics *)
definition SetRasterCacheStatistics ::
  "64 word \<Rightarrow> 64 word \<Rightarrow> 64 word \<Rightarrow> 64 word \<Rightarrow> frame_timing \<Rightarrow> frame_timing" where
  "SetRasterCacheStatistics lc lb pc pb ft =
     ft\<lparr>ft_layer_cache_count := lc, ft_layer_cache_bytes := lb,
        ft_picture_cache_count := pc, ft_picture_cache_bytes := pb\<rparr>"

text \<open>Default initialization: the time points are zero, the rest is uninitialised.\<close>

definition FrameTiming :: "frame_timing \<Rightarrow> frame_timing" where
  "FrameTiming junk = junk\<lparr>ft_data := (\<lambda>_. TimePoint 0)\<rparr>"

section \<open>The recorder\<close>

(* map: flow/frame_timings.h 31 38 FrameTimingsRecorder::State *)
datatype rec_state = kUninitialized | kVsync | kBuildStart | kBuildEnd | kRasterStart | kRasterEnd

fun state_rank :: "rec_state \<Rightarrow> nat" where
  "state_rank kUninitialized = 0"
| "state_rank kVsync = 1"
| "state_rank kBuildStart = 2"
| "state_rank kBuildEnd = 3"
| "state_rank kRasterStart = 4"
| "state_rank kRasterEnd = 5"

lemma state_rank_inj: "state_rank a = state_rank b \<longleftrightarrow> a = b"
  by (cases a; cases b) simp_all

instantiation rec_state :: linorder
begin

definition less_eq_rec_state :: "rec_state \<Rightarrow> rec_state \<Rightarrow> bool" where
  "less_eq_rec_state a b \<longleftrightarrow> state_rank a \<le> state_rank b"

definition less_rec_state :: "rec_state \<Rightarrow> rec_state \<Rightarrow> bool" where
  "less_rec_state a b \<longleftrightarrow> state_rank a < state_rank b"

instance
  by standard (auto simp: less_eq_rec_state_def less_rec_state_def state_rank_inj [symmetric])

end

(* map: flow/frame_timings.h 118 144 FrameTimingsRecorder *)
record frame_recorder =
  fr_state :: rec_state
  frame_number :: "64 word"
  vsync_start :: time_point
  vsync_target :: time_point
  build_start :: time_point
  build_end :: time_point
  raster_start :: time_point
  raster_end :: time_point
  raster_end_wall_time :: time_point
  layer_cache_count :: "64 word"
  layer_cache_bytes :: "64 word"
  picture_cache_count :: "64 word"
  picture_cache_bytes :: "64 word"
  timing :: frame_timing

(* map: flow/frame_timings.cc 21 23 FrameTimingsRecorder::FrameTimingsRecorder *)
definition FrameTimingsRecorder :: "frame_timing \<Rightarrow> 64 word \<Rightarrow> frame_recorder" where
  "FrameTimingsRecorder junk n =
     \<lparr>fr_state = kUninitialized, frame_number = n, vsync_start = TimePoint 0, vsync_target = TimePoint 0,
      build_start = TimePoint 0, build_end = TimePoint 0, raster_start = TimePoint 0, raster_end = TimePoint 0,
      raster_end_wall_time = TimePoint 0, layer_cache_count = ft_layer_cache_count junk,
      layer_cache_bytes = ft_layer_cache_bytes junk, picture_cache_count = ft_picture_cache_count junk,
      picture_cache_bytes = ft_picture_cache_bytes junk, timing = FrameTiming junk\<rparr>"

text \<open>The constructor that draws its number from the global counter.\<close>

(* map: flow/frame_timings.cc 17 19 FrameTimingsRecorder::FrameTimingsRecorder *)
definition FrameTimingsRecorder_next :: "frame_timing \<Rightarrow> 64 word \<Rightarrow> frame_recorder \<times> 64 word" where
  "FrameTimingsRecorder_next junk gen = (FrameTimingsRecorder junk gen, gen + 1)"

text \<open>The getters: the value of a field, once the recorder has reached the state that sets it.\<close>

definition get_from :: "rec_state \<Rightarrow> (frame_recorder \<Rightarrow> 'a) \<Rightarrow> frame_recorder \<Rightarrow> 'a res" where
  "get_from st sel r = bindr (ensure DCheck_Failed (st \<le> fr_state r)) (\<lambda>_. Inr (sel r))"

(* map: flow/frame_timings.cc fn FrameTimingsRecorder::GetVsyncStartTime( *)
definition GetVsyncStartTime where
  "GetVsyncStartTime = get_from kVsync vsync_start"

(* map: flow/frame_timings.cc fn FrameTimingsRecorder::GetVsyncTargetTime( *)
definition GetVsyncTargetTime where
  "GetVsyncTargetTime = get_from kVsync vsync_target"

(* map: flow/frame_timings.cc fn FrameTimingsRecorder::GetBuildStartTime( *)
definition GetBuildStartTime where
  "GetBuildStartTime = get_from kBuildStart build_start"

(* map: flow/frame_timings.cc fn FrameTimingsRecorder::GetBuildEndTime( *)
definition GetBuildEndTime where
  "GetBuildEndTime = get_from kBuildEnd build_end"

(* map: flow/frame_timings.cc fn FrameTimingsRecorder::GetRasterStartTime( *)
definition GetRasterStartTime where
  "GetRasterStartTime = get_from kRasterStart raster_start"

(* map: flow/frame_timings.cc fn FrameTimingsRecorder::GetRasterEndTime( *)
definition GetRasterEndTime where
  "GetRasterEndTime = get_from kRasterEnd raster_end"

(* map: flow/frame_timings.cc fn FrameTimingsRecorder::GetRasterEndWallTime( *)
definition GetRasterEndWallTime where
  "GetRasterEndWallTime = get_from kRasterEnd raster_end_wall_time"

(* map: flow/frame_timings.cc fn FrameTimingsRecorder::GetLayerCacheCount( *)
definition GetLayerCacheCount where
  "GetLayerCacheCount = get_from kRasterEnd layer_cache_count"

(* map: flow/frame_timings.cc fn FrameTimingsRecorder::GetLayerCacheBytes( *)
definition GetLayerCacheBytes where
  "GetLayerCacheBytes = get_from kRasterEnd layer_cache_bytes"

(* map: flow/frame_timings.cc fn FrameTimingsRecorder::GetPictureCacheCount( *)
definition GetPictureCacheCount where
  "GetPictureCacheCount = get_from kRasterEnd picture_cache_count"

(* map: flow/frame_timings.cc fn FrameTimingsRecorder::GetPictureCacheBytes( *)
definition GetPictureCacheBytes where
  "GetPictureCacheBytes = get_from kRasterEnd picture_cache_bytes"


(* map: flow/frame_timings.cc fn FrameTimingsRecorder::GetBuildDuration( *)
definition GetBuildDuration :: "frame_recorder \<Rightarrow> 64 word res" where
  "GetBuildDuration = get_from kBuildEnd (\<lambda>r. ticks (build_end r) - ticks (build_start r))"

(* map: flow/frame_timings.cc fn FrameTimingsRecorder::RecordVsync( *)
definition RecordVsync :: "time_point \<Rightarrow> time_point \<Rightarrow> frame_recorder \<Rightarrow> frame_recorder res" where
  "RecordVsync s t r = bindr (ensure DCheck_Failed (fr_state r = kUninitialized))
     (\<lambda>_. Inr (r\<lparr>fr_state := kVsync, vsync_start := s, vsync_target := t\<rparr>))"

(* map: flow/frame_timings.cc fn FrameTimingsRecorder::RecordBuildStart( *)
definition RecordBuildStart :: "time_point \<Rightarrow> frame_recorder \<Rightarrow> frame_recorder res" where
  "RecordBuildStart t r = bindr (ensure DCheck_Failed (fr_state r = kVsync))
     (\<lambda>_. Inr (r\<lparr>fr_state := kBuildStart, build_start := t\<rparr>))"

(* map: flow/frame_timings.cc fn FrameTimingsRecorder::RecordBuildEnd( *)
definition RecordBuildEnd :: "time_point \<Rightarrow> frame_recorder \<Rightarrow> frame_recorder res" where
  "RecordBuildEnd t r = bindr (ensure DCheck_Failed (fr_state r = kBuildStart))
     (\<lambda>_. Inr (r\<lparr>fr_state := kBuildEnd, build_end := t\<rparr>))"

(* map: flow/frame_timings.cc fn FrameTimingsRecorder::RecordRasterStart( *)
definition RecordRasterStart :: "time_point \<Rightarrow> frame_recorder \<Rightarrow> frame_recorder res" where
  "RecordRasterStart t r = bindr (ensure DCheck_Failed (fr_state r = kBuildEnd))
     (\<lambda>_. Inr (r\<lparr>fr_state := kRasterStart, raster_start := t\<rparr>))"

text \<open>What the recorder reads of a raster cache, and the cache's metrics.\<close>

(* map: flow/raster_cache.h 40 70 RasterCacheMetrics *)
record cache_metrics =
  eviction_count :: "64 word"
  eviction_bytes :: "64 word"
  in_use_count :: "64 word"
  in_use_bytes :: "64 word"

abbreviation "metrics_total_count \<equiv> in_use_count"
abbreviation "metrics_total_bytes \<equiv> in_use_bytes"

text \<open>The cache is the pair of its layer metrics and its picture metrics.\<close>

(* map: flow/frame_timings.cc fn FrameTimingsRecorder::RecordRasterEnd( *)
definition RecordRasterEnd :: "(cache_metrics \<times> cache_metrics) option \<Rightarrow> time_point \<Rightarrow> time_point
    \<Rightarrow> frame_recorder \<Rightarrow> (frame_timing \<times> frame_recorder) res" where
  "RecordRasterEnd cache now wall r =
     bindr (ensure DCheck_Failed (fr_state r = kRasterStart)) (\<lambda>_.
       let r1 = r\<lparr>fr_state := kRasterEnd, raster_end := now, raster_end_wall_time := wall\<rparr>;
           r2 = (case cache of
                   Some (layer, picture) \<Rightarrow>
                     r1\<lparr>layer_cache_count := metrics_total_count layer, layer_cache_bytes := metrics_total_bytes layer,
                        picture_cache_count := metrics_total_count picture,
                        picture_cache_bytes := metrics_total_bytes picture\<rparr>
                 | None \<Rightarrow> r1\<lparr>layer_cache_count := 0, layer_cache_bytes := 0,
                              picture_cache_count := 0, picture_cache_bytes := 0\<rparr>);
           t = SetRasterCacheStatistics (layer_cache_count r2) (layer_cache_bytes r2)
                 (picture_cache_count r2) (picture_cache_bytes r2)
               (SetFrameNumber (frame_number r2)
               (ft_Set Phase_kRasterFinishWallTime (raster_end_wall_time r2)
               (ft_Set Phase_kRasterFinish (raster_end r2)
               (ft_Set Phase_kRasterStart (raster_start r2)
               (ft_Set Phase_kBuildFinish (build_end r2)
               (ft_Set Phase_kBuildStart (build_start r2)
               (ft_Set Phase_kVsyncStart (vsync_start r2) (timing r2))))))))
       in Inr (t, r2\<lparr>timing := t\<rparr>))"

(* map: flow/frame_timings.cc fn FrameTimingsRecorder::GetRecordedTime( *)
definition GetRecordedTime :: "frame_recorder \<Rightarrow> frame_timing res" where
  "GetRecordedTime r = bindr (ensure DCheck_Failed (fr_state r = kRasterEnd)) (\<lambda>_. Inr (timing r))"

(* map: flow/frame_timings.cc fn FrameTimingsRecorder::CloneUntil( *)
definition CloneUntil :: "frame_timing \<Rightarrow> rec_state \<Rightarrow> frame_recorder \<Rightarrow> frame_recorder res" where
  "CloneUntil junk st r =
     bindr (ensure DCheck_Failed (st \<le> fr_state r)) (\<lambda>_.
       let c0 = (FrameTimingsRecorder junk (frame_number r))\<lparr>fr_state := st\<rparr>;
           c1 = (if kVsync \<le> st then c0\<lparr>vsync_start := vsync_start r, vsync_target := vsync_target r\<rparr> else c0);
           c2 = (if kBuildStart \<le> st then c1\<lparr>build_start := build_start r\<rparr> else c1);
           c3 = (if kBuildEnd \<le> st then c2\<lparr>build_end := build_end r\<rparr> else c2);
           c4 = (if kRasterStart \<le> st then c3\<lparr>raster_start := raster_start r\<rparr> else c3)
       in Inr (if kRasterEnd \<le> st
               then c4\<lparr>raster_end := raster_end r, raster_end_wall_time := raster_end_wall_time r,
                       layer_cache_count := layer_cache_count r, layer_cache_bytes := layer_cache_bytes r,
                       picture_cache_count := picture_cache_count r, picture_cache_bytes := picture_cache_bytes r\<rparr>
               else c4))"

section \<open>The recorder as a machine\<close>

datatype rec_op =
    Op_Vsync time_point time_point
  | Op_BuildStart time_point
  | Op_BuildEnd time_point
  | Op_RasterStart time_point
  | Op_RasterEnd "(cache_metrics \<times> cache_metrics) option" time_point time_point

fun rec_step :: "frame_recorder \<Rightarrow> rec_op \<Rightarrow> frame_recorder res" where
  "rec_step r (Op_Vsync s t) = RecordVsync s t r"
| "rec_step r (Op_BuildStart t) = RecordBuildStart t r"
| "rec_step r (Op_BuildEnd t) = RecordBuildEnd t r"
| "rec_step r (Op_RasterStart t) = RecordRasterStart t r"
| "rec_step r (Op_RasterEnd c n w) = bindr (RecordRasterEnd c n w r) (\<lambda>(_, r'). Inr r')"

text \<open>The state an operation leads to, and the order in which the code expects them.\<close>

fun target :: "rec_op \<Rightarrow> rec_state" where
  "target (Op_Vsync _ _) = kVsync"
| "target (Op_BuildStart _) = kBuildStart"
| "target (Op_BuildEnd _) = kBuildEnd"
| "target (Op_RasterStart _) = kRasterStart"
| "target (Op_RasterEnd _ _ _) = kRasterEnd"

definition phases_after :: "rec_state \<Rightarrow> rec_state list" where
  "phases_after st = filter (\<lambda>x. st < x) [kVsync, kBuildStart, kBuildEnd, kRasterStart, kRasterEnd]"

lemmas rec_defs = RecordVsync_def RecordBuildStart_def RecordBuildEnd_def RecordRasterStart_def RecordRasterEnd_def

lemma rec_step_iff:
  "(\<exists>r'. rec_step r x = Inr r') \<longleftrightarrow> state_rank (target x) = Suc (state_rank (fr_state r))"
  by (cases x; cases "fr_state r") (simp_all add: rec_defs Let_def)

lemma rec_step_state: "rec_step r x = Inr r' \<Longrightarrow> fr_state r' = target x \<and> frame_number r' = frame_number r"
  by (cases x) (auto simp: rec_defs res_simps Let_def split: option.splits)

lemma phases_after_Suc: "state_rank x = Suc (state_rank st) \<Longrightarrow> phases_after st = x # phases_after x"
  by (cases st; cases x) (simp_all add: phases_after_def less_rec_state_def)

lemma phases_after_hd: "phases_after st = x # xs \<Longrightarrow> state_rank x = Suc (state_rank st)"
  by (cases st) (auto simp: phases_after_def less_rec_state_def)

lemma rec_run_iff:
  "(\<exists>r'. run_ops rec_step r es = Inr r') \<longleftrightarrow> prefix (map target es) (phases_after (fr_state r))"
proof (induction es arbitrary: r)
  case (Cons x es)
  have "(\<exists>r'. run_ops rec_step r (x # es) = Inr r') \<longleftrightarrow>
      (\<exists>r1. rec_step r x = Inr r1 \<and> prefix (map target es) (phases_after (fr_state r1)))"
    by (auto simp: res_simps Cons.IH [symmetric])
  also have "\<dots> \<longleftrightarrow> (\<exists>r1. rec_step r x = Inr r1) \<and> prefix (map target es) (phases_after (target x))"
    using rec_step_state [of r x] by auto
  also have "\<dots> \<longleftrightarrow> prefix (map target (x # es)) (phases_after (fr_state r))"
    unfolding rec_step_iff
    using phases_after_Suc [of "target x" "fr_state r"] phases_after_hd [of "fr_state r" "target x"]
    by (cases "phases_after (fr_state r)") auto
  finally show ?case .
qed simp

section \<open>Properties of the recorder\<close>

text \<open>
  C25: The recorder is a strict pipeline: a sequence of recording calls passes every check exactly
  when it continues the order vsync, build start, build end, raster start, raster end from the
  recorder's state, with no phase skipped or repeated.
\<close>

theorem recorder_accepts_exactly_the_phase_order:
  "(\<exists>r'. run_ops rec_step r es = Inr r') \<longleftrightarrow> prefix (map target es) (phases_after (fr_state r))"
  by (rule rec_run_iff)

text \<open>
  The summary a recorder sends to the framework at the end of a frame holds the times recorded
  for each phase, the frame's own number and the metrics of the raster cache (zeros without one).
\<close>

theorem RecordRasterEnd_summary:
  assumes "run_ops rec_step (FrameTimingsRecorder junk n)
      [Op_Vsync vs vt, Op_BuildStart bs, Op_BuildEnd be, Op_RasterStart rs] = Inr r"
    and "RecordRasterEnd cache now wall r = Inr (t, r')"
  shows "map (ft_data t) [Phase_kVsyncStart, Phase_kBuildStart, Phase_kBuildFinish, Phase_kRasterStart,
       Phase_kRasterFinish, Phase_kRasterFinishWallTime] = [vs, bs, be, rs, now, wall] \<and>
     ft_frame_number t = n \<and> ft_layer_cache_count t = (case cache of None \<Rightarrow> 0 | Some (l, p) \<Rightarrow> in_use_count l) \<and>
     ft_picture_cache_bytes t = (case cache of None \<Rightarrow> 0 | Some (l, p) \<Rightarrow> in_use_bytes p) \<and>
     GetRecordedTime r' = Inr t \<and> GetVsyncTargetTime r' = Inr vt"
  using assms
  by (auto simp: rec_defs res_simps FrameTimingsRecorder_def ft_Set_def SetFrameNumber_def
    SetRasterCacheStatistics_def GetRecordedTime_def GetVsyncTargetTime_def get_from_def Let_def
    less_eq_rec_state_def split: option.splits)

text \<open>
  A clone up to a state keeps the frame number and every time recorded up to that state, and
  accepts exactly the calls that follow it; what the original recorded later is not in the clone.
\<close>

theorem CloneUntil_resumes:
  assumes "CloneUntil junk st r = Inr c"
  shows "fr_state c = st \<and> frame_number c = frame_number r \<and>
    (kVsync \<le> st \<longrightarrow> GetVsyncStartTime c = GetVsyncStartTime r \<and> GetVsyncTargetTime c = GetVsyncTargetTime r) \<and>
    (kBuildStart \<le> st \<longrightarrow> GetBuildStartTime c = GetBuildStartTime r) \<and>
    (kBuildEnd \<le> st \<longrightarrow> GetBuildEndTime c = GetBuildEndTime r \<and> GetBuildDuration c = GetBuildDuration r) \<and>
    (kRasterStart \<le> st \<longrightarrow> GetRasterStartTime c = GetRasterStartTime r) \<and>
    (kRasterEnd \<le> st \<longrightarrow> GetRasterEndTime c = GetRasterEndTime r) \<and>
    (st < kRasterStart \<longrightarrow> GetRasterStartTime c = Inl DCheck_Failed)"
  using assms
  by (cases st; cases "fr_state r")
    (auto simp: CloneUntil_def FrameTimingsRecorder_def res_simps get_from_def Let_def less_eq_rec_state_def
      less_rec_state_def GetVsyncStartTime_def GetVsyncTargetTime_def GetBuildStartTime_def GetBuildEndTime_def
      GetBuildDuration_def GetRasterStartTime_def GetRasterEndTime_def)

definition demo_timing :: frame_timing where
  "demo_timing = \<lparr>ft_data = (\<lambda>_. TimePoint 0), ft_frame_number = 0, ft_layer_cache_count = 0,
     ft_layer_cache_bytes = 0, ft_picture_cache_count = 0, ft_picture_cache_bytes = 0\<rparr>"

definition demo_frame :: "rec_op list" where
  "demo_frame = [Op_Vsync (TimePoint 1) (TimePoint 9), Op_BuildStart (TimePoint 2), Op_BuildEnd (TimePoint 3),
     Op_RasterStart (TimePoint 4)]"

text \<open>
  A clone of a finished recorder passes the check of \<open>GetRecordedTime\<close> and answers with an empty
  timing: \<open>CloneUntil(kRasterEnd)\<close> does not copy the recorded summary.
\<close>

lemma clone_loses_recorded_time:
  "\<exists>r c. run_ops rec_step (FrameTimingsRecorder demo_timing 7)
       (demo_frame @ [Op_RasterEnd None (TimePoint 5) (TimePoint 6)]) = Inr r \<and>
     CloneUntil demo_timing kRasterEnd r = Inr c \<and>
     map_sum id (\<lambda>t. ft_data t Phase_kRasterFinish) (GetRecordedTime r) = Inr (TimePoint 5) \<and>
     map_sum id (\<lambda>t. ft_data t Phase_kRasterFinish) (GetRecordedTime c) = Inr (TimePoint 0)"
  by (simp add: rec_defs demo_frame_def FrameTimingsRecorder_def ft_Set_def SetFrameNumber_def
    SetRasterCacheStatistics_def GetRecordedTime_def Let_def CloneUntil_def less_eq_rec_state_def FrameTiming_def)

theorem RecordRasterEnd_summary_witness:
  "\<exists>r t r'. run_ops rec_step (FrameTimingsRecorder demo_timing 7) demo_frame = Inr r \<and>
     RecordRasterEnd None (TimePoint 5) (TimePoint 6) r = Inr (t, r') \<and>
     map (ft_data t) [Phase_kVsyncStart, Phase_kRasterFinish] = [TimePoint 1, TimePoint 5] \<and> ft_frame_number t = 7"
proof -
  obtain r where r: "run_ops rec_step (FrameTimingsRecorder demo_timing 7) demo_frame = Inr r" "fr_state r = kRasterStart"
    by (simp add: rec_defs demo_frame_def FrameTimingsRecorder_def)
  then obtain t r' where t: "RecordRasterEnd None (TimePoint 5) (TimePoint 6) r = Inr (t, r')"
    by (simp add: RecordRasterEnd_def Let_def)
  from RecordRasterEnd_summary [OF r(1) [unfolded demo_frame_def] t] r t show ?thesis by simp
qed

theorem CloneUntil_resumes_witness:
  "\<exists>r c. run_ops rec_step (FrameTimingsRecorder demo_timing 7) demo_frame = Inr r \<and>
     CloneUntil demo_timing kBuildEnd r = Inr c \<and> GetBuildEndTime c = Inr (TimePoint 3) \<and>
     GetRasterStartTime c = Inl DCheck_Failed"
proof -
  obtain r where r: "run_ops rec_step (FrameTimingsRecorder demo_timing 7) demo_frame = Inr r" "fr_state r = kRasterStart"
      "build_end r = TimePoint 3"
    by (simp add: rec_defs demo_frame_def FrameTimingsRecorder_def)
  then obtain c where c: "CloneUntil demo_timing kBuildEnd r = Inr c"
    by (simp add: CloneUntil_def Let_def less_eq_rec_state_def)
  from CloneUntil_resumes [OF c] r c show ?thesis
    by (auto simp: less_eq_rec_state_def less_rec_state_def GetBuildEndTime_def get_from_def)
qed

end
