(* ===== verification/Shell_Animator.thy ===== *)
theory Shell_Animator
  imports Shell_Vsync Shell_Pipeline Flow_Frame_Timings
begin

text \<open>
  \<open>shell/common/animator\<close>, on the vsync waiter, the pipeline and the frame recorder. The delegate is a log.
  What the framework does when it is told to begin a frame (it may request frames and render) is a
  list of actions given with the task that begins the frame. The UI task runner is a queue of tasks;
  the delayed idle task may run at any later time. Clock readings and the tick counter of the Dart
  VM are arguments.
\<close>

section \<open>State\<close>

record layer_tree =
  frame_size :: "int \<times> int"
  tree_label :: nat

text \<open>A \<open>LayerTreeItem\<close>.\<close>

(* map: shell/common/pipeline.h 223 230 LayerTreeItem *)
type_synonym layer_tree_item = "layer_tree \<times> frame_recorder"

datatype animator_event =
    OnAnimatorBeginFrame time_point "64 word"
  | OnAnimatorNotifyIdle "64 word"
  | OnAnimatorUpdateLatestFrameTargetTime time_point
  | OnAnimatorDraw
  | OnAnimatorDrawLastLayerTree frame_recorder
  | Trace_Flow_End "64 word"

datatype waiter_callback = Animator_Frame | Animator_Clear

datatype ui_task =
    T_Await                                \<comment> \<open>the task posted by \<open>RequestFrame\<close>\<close>
  | T_Frame time_point time_point bool     \<comment> \<open>the task posted by the vsync waiter\<close>
  | T_Clear                                \<comment> \<open>the secondary callback of the animator\<close>

(* map: shell/common/animator.h 101 111 Animator *)
record animator =
  frame_timings_recorder :: "frame_recorder option"
  frame_request_number :: "64 word"
  dart_frame_deadline :: "64 word"
  layer_tree_pipeline :: "layer_tree_item pipeline"
  pending_frame_semaphore :: semaphore
  producer_continuation :: continuation
  regenerate_layer_tree :: bool
  frame_scheduled :: bool
  last_layer_tree_size :: "int \<times> int"
  trace_flow_ids :: "64 word list"
  has_rendered :: bool

record animator_world =
  an :: animator
  an_waiter :: "waiter_callback vsync_waiter"
  an_tasks :: "ui_task list"
  idle_tasks :: nat
  trace_gen :: "64 word"
  number_gen :: "64 word"
  events :: "animator_event list"

text \<open>
  The depth of the pipeline is 2 in a build with \<open>SHELL_ENABLE_METAL\<close>; in others it is 1 when the platform and raster
  task runners are one, else 2.
\<close>

(* map: shell/common/animator.cc 29 41 Animator::Animator:depth *)
definition pipeline_depth :: "bool \<Rightarrow> bool \<Rightarrow> nat" where
  "pipeline_depth metal platform_is_raster = (if metal then 2 else if platform_is_raster then 1 else 2)"

(* map: shell/common/animator.cc 25 45 Animator::Animator *)
definition Animator :: "bool \<Rightarrow> bool \<Rightarrow> animator" where
  "Animator metal platform_is_raster =
     \<lparr>frame_timings_recorder = None, frame_request_number = 1, dart_frame_deadline = 0,
      layer_tree_pipeline = Pipeline (pipeline_depth metal platform_is_raster), pending_frame_semaphore = 1,
      producer_continuation = None, regenerate_layer_tree = False, frame_scheduled = False,
      last_layer_tree_size = (0, 0), trace_flow_ids = [], has_rendered = False\<rparr>"

definition animator_init :: "bool \<Rightarrow> bool \<Rightarrow> animator_world" where
  "animator_init metal platform_is_raster =
     \<lparr>an = Animator metal platform_is_raster, an_waiter = VsyncWaiter, an_tasks = [], idle_tasks = 0,
      trace_gen = 0, number_gen = 1, events = []\<rparr>"

abbreviation emit :: "animator_event list \<Rightarrow> animator_world \<Rightarrow> animator_world" where
  "emit evs w \<equiv> w\<lparr>events := events w @ evs\<rparr>"

section \<open>Operations\<close>

(* map: shell/common/animator.cc fn Animator::RequestFrame( *)
definition RequestFrame :: "bool \<Rightarrow> animator_world \<Rightarrow> animator_world" where
  "RequestFrame regenerate w =
     (let a1 = (if regenerate then (an w)\<lparr>regenerate_layer_tree := True\<rparr> else an w);
          (ok, sem) = TryWait (pending_frame_semaphore a1);
          a2 = a1\<lparr>pending_frame_semaphore := sem\<rparr>
      in if \<not> ok then w\<lparr>an := a2\<rparr>
         else w\<lparr>an := a2\<lparr>frame_scheduled := True\<rparr>, an_tasks := an_tasks w @ [T_Await]\<rparr>)"

(* map: shell/common/animator.cc fn Animator::Render( *)
definition Render :: "frame_timing \<Rightarrow> time_point \<Rightarrow> time_point \<Rightarrow> layer_tree \<Rightarrow> animator_world \<Rightarrow> animator_world res" where
  "Render junk placeholder_time now tree w =
     (let a1 = (an w)\<lparr>has_rendered := True, last_layer_tree_size := frame_size tree\<rparr> in
      bindr (case frame_timings_recorder a1 of
               Some r \<Rightarrow> Inr (r, number_gen w)
             | None \<Rightarrow>
                 let (r0, g) = FrameTimingsRecorder_next junk (number_gen w) in
                 bindr (RecordVsync placeholder_time placeholder_time r0) (\<lambda>r1.
                 bindr (RecordBuildStart placeholder_time r1) (\<lambda>r2. Inr (r2, g)))) (\<lambda>(r, g).
      bindr (RecordBuildEnd now r) (\<lambda>r'.
      bindr (GetVsyncTargetTime r') (\<lambda>tgt.
        let (res, c, p) = Complete (Some (tree, r')) (producer_continuation a1) (layer_tree_pipeline a1);
            a2 = a1\<lparr>frame_timings_recorder := None, producer_continuation := c, layer_tree_pipeline := p\<rparr>;
            w1 = emit [OnAnimatorUpdateLatestFrameTargetTime tgt] (w\<lparr>an := a2, number_gen := g\<rparr>)
        in Inr (if \<not> success res then w1
                else if \<not> is_first_item res then w1
                else emit [OnAnimatorDraw] w1)))))"

text \<open>What the framework does in reaction to \<open>OnAnimatorBeginFrame\<close>.\<close>

datatype fw_action = FW_RequestFrame bool | FW_Render time_point time_point layer_tree

fun run_framework :: "frame_timing \<Rightarrow> animator_world \<Rightarrow> fw_action \<Rightarrow> animator_world res" where
  "run_framework junk w (FW_RequestFrame b) = Inr (RequestFrame b w)"
| "run_framework junk w (FW_Render t0 t1 tree) = Render junk t0 t1 tree w"

text \<open>The first part of \<open>BeginFrame\<close>, and the acquisition of a continuation.\<close>

(* map: shell/common/animator.cc 61 80 Animator::BeginFrame:reset *)
definition start_frame :: "frame_recorder \<Rightarrow> animator_world \<Rightarrow> animator_world" where
  "start_frame r w =
     emit (map Trace_Flow_End (trace_flow_ids (an w)))
       (w\<lparr>an := (an w)\<lparr>frame_request_number := frame_request_number (an w) + 1, frame_timings_recorder := Some r,
                       trace_flow_ids := [], frame_scheduled := False, regenerate_layer_tree := False,
                       pending_frame_semaphore := Signal (pending_frame_semaphore (an w))\<rparr>\<rparr>)"

(* map: shell/common/animator.cc 82 86 Animator::BeginFrame:produce *)
definition acquire_continuation :: "animator_world \<Rightarrow> animator_world" where
  "acquire_continuation w =
     (if producer_continuation (an w) = None
      then let (c, p, g) = Produce (layer_tree_pipeline (an w)) (trace_gen w)
           in w\<lparr>an := (an w)\<lparr>producer_continuation := c, layer_tree_pipeline := p\<rparr>, trace_gen := g\<rparr>
      else w)"

(* map: shell/common/animator.cc fn Animator::BeginFrame( *)
definition BeginFrame :: "frame_timing \<Rightarrow> time_point \<Rightarrow> fw_action list \<Rightarrow> frame_recorder \<Rightarrow> animator_world
    \<Rightarrow> animator_world res" where
  "BeginFrame junk now fw rec0 w =
     bindr (RecordBuildStart now rec0) (\<lambda>r.
       let w2 = acquire_continuation (start_frame r w)
       in if producer_continuation (an w2) = None then Inr (RequestFrame True w2)
          else bindr (GetVsyncTargetTime r) (\<lambda>tgt.
            let w3 = emit [OnAnimatorBeginFrame tgt (frame_number r)]
                       (w2\<lparr>an := (an w2)\<lparr>dart_frame_deadline := ticks tgt\<rparr>\<rparr>)
            in bindr (run_ops (run_framework junk) w3 fw) (\<lambda>w4.
               Inr (if \<not> frame_scheduled (an w4) \<and> has_rendered (an w4)
                    then w4\<lparr>idle_tasks := idle_tasks w4 + 1\<rparr> else w4))))"

text \<open>The delayed idle task.\<close>

(* map: shell/common/animator.cc 114 128 Animator::BeginFrame:lambda *)
definition idle_callback :: "64 word \<Rightarrow> animator_world \<Rightarrow> animator_world" where
  "idle_callback dart_now w =
     (if \<not> frame_scheduled (an w) \<and> sint (dart_frame_deadline (an w)) < sint dart_now
      then emit [OnAnimatorNotifyIdle (dart_now + 100000000)] w else w)"

(* map: shell/common/animator.cc fn Animator::CanReuseLastLayerTree( *)
definition CanReuseLastLayerTree :: "animator \<Rightarrow> bool" where
  "CanReuseLastLayerTree a = (\<not> regenerate_layer_tree a)"

(* map: shell/common/animator.cc fn Animator::DrawLastLayerTree( *)
definition DrawLastLayerTree :: "time_point \<Rightarrow> frame_recorder \<Rightarrow> animator_world \<Rightarrow> animator_world res" where
  "DrawLastLayerTree now r w =
     (let w1 = w\<lparr>an := (an w)\<lparr>pending_frame_semaphore := Signal (pending_frame_semaphore (an w))\<rparr>\<rparr> in
      bindr (RecordBuildStart now r) (\<lambda>r1.
      bindr (RecordBuildEnd now r1) (\<lambda>r2. Inr (emit [OnAnimatorDrawLastLayerTree r2] w1))))"

(* map: shell/common/animator.cc 233 248 Animator::AwaitVSync *)
definition AwaitVSync_task :: "animator_world \<Rightarrow> animator_world" where
  "AwaitVSync_task w =
     (let w1 = w\<lparr>an_waiter := fst (AsyncWaitForVsync (Some Animator_Frame) (an_waiter w))\<rparr>
      in if has_rendered (an w) then emit [OnAnimatorNotifyIdle (dart_frame_deadline (an w))] w1 else w1)"

text \<open>The callback given to the waiter, with the task that the waiter posts around it.\<close>

(* map: shell/common/animator.cc 235 244 Animator::AwaitVSync:lambda *)
definition frame_callback :: "frame_timing \<Rightarrow> time_point \<Rightarrow> fw_action list \<Rightarrow> frame_recorder \<Rightarrow> animator_world
    \<Rightarrow> animator_world res" where
  "frame_callback junk now fw r w =
     (if CanReuseLastLayerTree (an w) then DrawLastLayerTree now r w else BeginFrame junk now fw r w)"

(* map: shell/common/vsync_waiter.cc 129 143 VsyncWaiter::FireCallback:lambda *)
definition vsync_task :: "frame_timing \<Rightarrow> time_point \<Rightarrow> fw_action list \<Rightarrow> time_point \<Rightarrow> time_point \<Rightarrow> animator_world
    \<Rightarrow> animator_world res" where
  "vsync_task junk now fw start tgt w =
     (let (r0, g) = FrameTimingsRecorder_next junk (number_gen w) in
      bindr (RecordVsync start tgt r0) (\<lambda>r. frame_callback junk now fw r (w\<lparr>number_gen := g\<rparr>)))"

(* map: shell/common/animator.cc 49 59 Animator::EnqueueTraceFlowId *)
definition EnqueueTraceFlowId :: "64 word \<Rightarrow> 64 word \<Rightarrow> animator_world \<Rightarrow> animator_world" where
  "EnqueueTraceFlowId this tid w =
     w\<lparr>an := (an w)\<lparr>trace_flow_ids := trace_flow_ids (an w) @ [tid]\<rparr>,
       an_waiter := fst (ScheduleSecondaryCallback this (Some Animator_Clear) (an_waiter w))\<rparr>"

(* map: shell/common/animator.cc 255 271 Animator::ScheduleMaybeClearTraceFlowIds *)
definition clear_trace_flow_ids :: "animator_world \<Rightarrow> animator_world" where
  "clear_trace_flow_ids w =
     (if \<not> frame_scheduled (an w) \<and> trace_flow_ids (an w) \<noteq> []
      then emit (map Trace_Flow_End (trace_flow_ids (an w))) (w\<lparr>an := (an w)\<lparr>trace_flow_ids := []\<rparr>\<rparr>)
      else w)"

section \<open>The system\<close>

datatype animator_op =
    A_Request bool
  | A_Render time_point time_point layer_tree
  | A_Enqueue "64 word"
  | A_Fire time_point time_point bool
  | A_Run time_point "fw_action list"      \<comment> \<open>the UI thread runs its next task\<close>
  | A_Idle "64 word"
  | A_Consume bool                         \<comment> \<open>\<open>Rasterizer::Draw\<close>, with whether it asks to resubmit\<close>

text \<open>
  What \<open>Rasterizer::Draw\<close> does to the pipeline: it consumes an item, reading its tree (of a null item it reads nothing
  that is there), and when the drawing asks for it, it gives the tree back with a clone of its timings up to the end of
  the build, unless the pipeline is full or no longer empty.
\<close>

(* map: shell/common/rasterizer.cc 190 224 Rasterizer::Draw:resubmit *)
definition rasterizer_draw :: "frame_timing \<Rightarrow> bool \<Rightarrow> animator_world \<Rightarrow> animator_world res" where
  "rasterizer_draw junk resubmit w =
     bindr (Consume (Some (\<lambda>item (p, seen). (p, Some item))) (layer_tree_pipeline (an w)) None) (\<lambda>(res, p, seen).
       let w1 = w\<lparr>an := (an w)\<lparr>layer_tree_pipeline := p\<rparr>\<rparr> in
       case seen of
         None \<Rightarrow> Inr w1
       | Some None \<Rightarrow> Inl Undefined
       | Some (Some (tree, r)) \<Rightarrow>
           if resubmit then
             bindr (CloneUntil junk kBuildEnd r) (\<lambda>r'.
               let (c, p1, g) = ProduceIfEmpty p (trace_gen w); (pr, _, p2) = Complete (Some (tree, r')) c p1
               in Inr (w1\<lparr>an := (an w1)\<lparr>layer_tree_pipeline := p2\<rparr>, trace_gen := g\<rparr>))
           else Inr w1)"

fun task_of :: "waiter_callback vsync_action \<Rightarrow> ui_task list" where
  "task_of (Post_Frame _ start tgt pause) = [T_Frame start tgt pause]"
| "task_of (Post_Secondary _) = [T_Clear]"
| "task_of _ = []"

definition run_task :: "frame_timing \<Rightarrow> time_point \<Rightarrow> fw_action list \<Rightarrow> ui_task \<Rightarrow> animator_world \<Rightarrow> animator_world res" where
  "run_task junk now fw t w =
     (case t of
        T_Await \<Rightarrow> Inr (AwaitVSync_task w)
      | T_Frame start tgt pause \<Rightarrow> vsync_task junk now fw start tgt w
      | T_Clear \<Rightarrow> Inr (clear_trace_flow_ids w))"

fun animator_step :: "frame_timing \<Rightarrow> 64 word \<Rightarrow> animator_world \<Rightarrow> animator_op \<Rightarrow> animator_world res" where
  "animator_step junk this w (A_Request b) = Inr (RequestFrame b w)"
| "animator_step junk this w (A_Render t0 t1 tree) = Render junk t0 t1 tree w"
| "animator_step junk this w (A_Enqueue tid) = Inr (EnqueueTraceFlowId this tid w)"
| "animator_step junk this w (A_Fire start tgt pause) =
     bindr (FireCallback id start start tgt pause (an_waiter w)) (\<lambda>(v, acts).
       Inr (w\<lparr>an_waiter := v, an_tasks := an_tasks w @ concat (map task_of acts)\<rparr>))"
| "animator_step junk this w (A_Run now fw) =
     (case an_tasks w of [] \<Rightarrow> Inr w | t # ts \<Rightarrow> run_task junk now fw t (w\<lparr>an_tasks := ts\<rparr>))"
| "animator_step junk this w (A_Idle dart_now) =
     Inr (if idle_tasks w = 0 then w else idle_callback dart_now (w\<lparr>idle_tasks := idle_tasks w - 1\<rparr>))"
| "animator_step junk this w (A_Consume resubmit) = rasterizer_draw junk resubmit w"

section \<open>A frame request is never lost\<close>

text \<open>
  The one token of the frame loop: it is in the semaphore, in the posted \<open>AwaitVSync\<close> task, in the
  callback registered with the waiter, in the posted frame task, or (\<open>k = 1\<close>) in the hand of the task
  that runs.
\<close>

definition in_flight :: "ui_task list \<Rightarrow> waiter_callback vsync_waiter \<Rightarrow> nat" where
  "in_flight ts v = length (filter (\<lambda>t. t \<noteq> T_Clear) ts) + of_bool (callback v \<noteq> None)"

lemma in_flight_append: "in_flight (ts @ us) v = in_flight ts v + length (filter (\<lambda>t. t \<noteq> T_Clear) us)"
  by (simp add: in_flight_def)

lemma in_flight_Cons: "in_flight (t # ts) v = in_flight ts v + of_bool (t \<noteq> T_Clear)"
  by (simp add: in_flight_def)

definition built :: "layer_tree_item option \<Rightarrow> bool" where
  "built item \<longleftrightarrow> (case item of None \<Rightarrow> False | Some (_, r) \<Rightarrow> fr_state r = kBuildEnd)"

definition pipe_ok :: "nat \<Rightarrow> continuation \<Rightarrow> layer_tree_item pipeline \<Rightarrow> bool" where
  "pipe_ok depth c p \<longleftrightarrow>
     empty p + of_bool (c \<noteq> None) + length (queue p) = depth \<and> available p = length (queue p) \<and>
     (case c of None \<Rightarrow> True | Some (k, _) \<Rightarrow> k = Commit) \<and> list_all (\<lambda>x. built (fst x)) (queue p)"

definition animator_ok :: "nat \<Rightarrow> animator \<Rightarrow> bool" where
  "animator_ok depth a \<longleftrightarrow>
     (pending_frame_semaphore a = 0 \<longrightarrow> frame_scheduled a) \<and>
     (regenerate_layer_tree a \<longrightarrow> pending_frame_semaphore a = 0) \<and>
     (case frame_timings_recorder a of None \<Rightarrow> True | Some r \<Rightarrow> fr_state r = kBuildStart) \<and>
     pipe_ok depth (producer_continuation a) (layer_tree_pipeline a)"

definition animator_inv :: "nat \<Rightarrow> nat \<Rightarrow> animator_world \<Rightarrow> bool" where
  "animator_inv depth k w \<longleftrightarrow>
     pending_frame_semaphore (an w) + in_flight (an_tasks w) (an_waiter w) + k = 1 \<and> animator_ok depth (an w)"

text \<open>The trace ids ended so far and those still waiting.\<close>

fun ended :: "animator_event list \<Rightarrow> 64 word list" where
  "ended [] = []"
| "ended (Trace_Flow_End i # es) = i # ended es"
| "ended (_ # es) = ended es"

definition traced :: "animator_world \<Rightarrow> 64 word list" where
  "traced w = ended (events w) @ trace_flow_ids (an w)"

lemma ended_append [simp]: "ended (xs @ ys) = ended xs @ ended ys"
  by (induction xs rule: ended.induct) simp_all

lemma ended_map [simp]: "ended (map Trace_Flow_End ids) = ids"
  by (induction ids) simp_all

lemma RequestFrame_spec:
  assumes "animator_inv depth k w"
  shows "animator_inv depth k (RequestFrame b w)" and "traced (RequestFrame b w) = traced w"
  using assms
  by (auto simp: RequestFrame_def TryWait_def animator_inv_def animator_ok_def in_flight_append traced_def Let_def)

lemma RequestFrame_regenerates:
  "regenerate_layer_tree (an (RequestFrame True w))"
  by (auto simp: RequestFrame_def TryWait_def Let_def)

lemma Complete_pipe_ok:
  assumes "pipe_ok depth c p" and "built item" and "Complete item c p = (res, c', p')"
  shows "pipe_ok depth c' p' \<and> c' = None"
  using assms by (cases c) (auto simp: pipe_ok_def pipe_defs split: if_splits prod.splits)

lemma Render_spec:
  assumes inv: "animator_inv depth k w"
  shows "\<exists>w'. Render junk t0 t1 tree w = Inr w' \<and> animator_inv depth k w' \<and> traced w' = traced w"
proof -
  obtain r g where r: "(case frame_timings_recorder (an w) of
               Some r \<Rightarrow> Inr (r, number_gen w)
             | None \<Rightarrow>
                 let (r0, g) = FrameTimingsRecorder_next junk (number_gen w) in
                 bindr (RecordVsync t0 t0 r0) (\<lambda>r1.
                 bindr (RecordBuildStart t0 r1) (\<lambda>r2. Inr (r2, g)))) = Inr (r, g)" "fr_state r = kBuildStart"
    using inv
    by (cases "frame_timings_recorder (an w)")
      (auto simp: animator_inv_def animator_ok_def FrameTimingsRecorder_next_def FrameTimingsRecorder_def rec_defs)
  then obtain r' tgt where r': "RecordBuildEnd t1 r = Inr r'" "fr_state r' = kBuildEnd" "GetVsyncTargetTime r' = Inr tgt"
    by (auto simp: rec_defs GetVsyncTargetTime_def get_from_def less_eq_rec_state_def)
  obtain res c p where c: "Complete (Some (tree, r')) (producer_continuation (an w)) (layer_tree_pipeline (an w)) = (res, c, p)"
    by (cases "Complete (Some (tree, r')) (producer_continuation (an w)) (layer_tree_pipeline (an w))")
  have "pipe_ok depth c p \<and> c = None"
    using inv r'(2) by (intro Complete_pipe_ok [OF _ _ c]) (auto simp: animator_inv_def animator_ok_def built_def)
  with inv r r' c show ?thesis
    by (auto simp: Render_def Let_def animator_inv_def animator_ok_def in_flight_append traced_def)
qed

lemma run_framework_spec:
  "animator_inv depth k w \<Longrightarrow> \<exists>w'. run_ops (run_framework junk) w fw = Inr w' \<and> animator_inv depth k w' \<and>
     traced w' = traced w"
proof (induction fw arbitrary: w)
  case (Cons x fw)
  have "\<exists>w1. run_framework junk w x = Inr w1 \<and> animator_inv depth k w1 \<and> traced w1 = traced w"
    using Render_spec [OF Cons.prems] RequestFrame_spec [OF Cons.prems] by (cases x) auto
  with Cons.IH show ?case by fastforce
qed simp

lemma produce_pipe_ok:
  assumes "pipe_ok depth None p" and "Produce p g = (c, p', g')"
  shows "pipe_ok depth c p'"
  using assms by (auto simp: pipe_ok_def Produce_def produce_with_def TryWait_def Let_def split: if_splits)

lemma start_frame_spec:
  assumes "animator_inv depth 1 w" and "fr_state r = kBuildStart"
  shows "animator_inv depth 0 (start_frame r w)" and "traced (start_frame r w) = traced w"
  using assms by (auto simp: start_frame_def animator_inv_def animator_ok_def traced_def Signal_def)

lemma acquire_continuation_spec:
  assumes inv: "animator_inv depth 0 w"
  shows "animator_inv depth 0 (acquire_continuation w) \<and> traced (acquire_continuation w) = traced w"
proof (cases "producer_continuation (an w)")
  case None
  obtain c p g where p: "Produce (layer_tree_pipeline (an w)) (trace_gen w) = (c, p, g)"
    by (cases "Produce (layer_tree_pipeline (an w)) (trace_gen w)")
  have "pipe_ok depth None (layer_tree_pipeline (an w))"
    using inv None by (simp add: animator_inv_def animator_ok_def)
  then have "pipe_ok depth c p" using p by (rule produce_pipe_ok)
  with inv None p show ?thesis by (simp add: acquire_continuation_def animator_inv_def animator_ok_def traced_def)
qed (use inv in \<open>simp add: acquire_continuation_def\<close>)

lemma BeginFrame_spec:
  assumes inv: "animator_inv depth 1 w" and r0: "fr_state r0 = kVsync"
  shows "\<exists>w'. BeginFrame junk now fw r0 w = Inr w' \<and> animator_inv depth 0 w' \<and> traced w' = traced w"
proof -
  obtain r tgt where r: "RecordBuildStart now r0 = Inr r" "fr_state r = kBuildStart" "GetVsyncTargetTime r = Inr tgt"
    using r0 by (auto simp: rec_defs GetVsyncTargetTime_def get_from_def less_eq_rec_state_def)
  define w2 where "w2 = acquire_continuation (start_frame r w)"
  have w2: "animator_inv depth 0 w2" "traced w2 = traced w"
    using start_frame_spec [OF inv r(2)] acquire_continuation_spec by (auto simp: w2_def)
  let ?w3 = "emit [OnAnimatorBeginFrame tgt (frame_number r)] (w2\<lparr>an := (an w2)\<lparr>dart_frame_deadline := ticks tgt\<rparr>\<rparr>)"
  have "animator_inv depth 0 ?w3" "traced ?w3 = traced w"
    using w2 by (simp_all add: animator_inv_def animator_ok_def traced_def)
  then obtain w4 where w4: "run_ops (run_framework junk) ?w3 fw = Inr w4" "animator_inv depth 0 w4" "traced w4 = traced w"
    using run_framework_spec [of depth 0 ?w3 junk fw] by auto
  moreover have "animator_inv depth 0 (w4\<lparr>idle_tasks := n\<rparr>)" "traced (w4\<lparr>idle_tasks := n\<rparr>) = traced w" for n
    using w4 by (simp_all add: animator_inv_def traced_def)
  ultimately show ?thesis using r w2 RequestFrame_spec [OF w2(1), of True]
    by (simp add: BeginFrame_def w2_def [symmetric] Let_def)
qed

lemma DrawLastLayerTree_spec:
  assumes "animator_inv depth 1 w" and "fr_state r = kVsync" and "\<not> regenerate_layer_tree (an w)"
  shows "\<exists>w'. DrawLastLayerTree now r w = Inr w' \<and> animator_inv depth 0 w' \<and> traced w' = traced w"
  using assms
  by (auto simp: DrawLastLayerTree_def rec_defs Signal_def animator_inv_def animator_ok_def traced_def Let_def)

lemma run_task_spec:
  assumes inv: "animator_inv depth (of_bool (t \<noteq> T_Clear)) w"
  shows "\<exists>w'. run_task junk now fw t w = Inr w' \<and> animator_inv depth 0 w' \<and> traced w' = traced w"
proof (cases t)
  case T_Await
  with inv have "callback (an_waiter w) = None"
    by (auto simp: animator_inv_def in_flight_def split: if_splits)
  with inv T_Await show ?thesis
    by (auto simp: run_task_def AwaitVSync_task_def AsyncWaitForVsync_def animator_inv_def in_flight_def traced_def Let_def)
next
  case (T_Frame start tgt pause)
  obtain r where r: "RecordVsync start tgt (fst (FrameTimingsRecorder_next junk (number_gen w))) = Inr r" "fr_state r = kVsync"
    by (simp add: rec_defs FrameTimingsRecorder_next_def FrameTimingsRecorder_def)
  let ?w = "w\<lparr>number_gen := snd (FrameTimingsRecorder_next junk (number_gen w))\<rparr>"
  have "animator_inv depth 1 ?w" "traced ?w = traced w" using inv T_Frame by (auto simp: animator_inv_def traced_def)
  with BeginFrame_spec [OF this(1) r(2)] DrawLastLayerTree_spec [OF this(1) r(2)] T_Frame r(1) show ?thesis
    by (auto simp: run_task_def vsync_task_def frame_callback_def CanReuseLastLayerTree_def split_beta Let_def)
next
  case T_Clear
  with inv show ?thesis
    by (auto simp: run_task_def clear_trace_flow_ids_def animator_inv_def animator_ok_def traced_def)
qed

fun enqueued :: "animator_op list \<Rightarrow> 64 word list" where
  "enqueued [] = []"
| "enqueued (A_Enqueue i # xs) = i # enqueued xs"
| "enqueued (_ # xs) = enqueued xs"

lemma fire_in_flight:
  assumes "FireCallback it start start tgt pause v = Inr (v', acts)"
  shows "in_flight (ts @ concat (map task_of acts)) v' = in_flight ts v"
proof -
  have "filter (\<lambda>t. t \<noteq> T_Clear) (concat (map task_of (map Post_Secondary cs))) = []" for cs
    by (induction cs) simp_all
  then show ?thesis using assms
    by (auto simp: FireCallback_def in_flight_def Let_def split: option.splits if_splits)
qed

lemma clone_built: "fr_state r = kBuildEnd \<Longrightarrow> \<exists>c. CloneUntil junk kBuildEnd r = Inr c \<and> fr_state c = kBuildEnd"
  by (simp add: CloneUntil_def Let_def less_eq_rec_state_def)

lemma consume_pipe_ok:
  assumes "pipe_ok depth c p"
  shows "\<exists>res p' seen. Consume (Some (\<lambda>item (p, seen). (p, Some item))) p None = Inr (res, p', seen) \<and> pipe_ok depth c p' \<and>
    (case seen of None \<Rightarrow> True | Some item \<Rightarrow> built item)"
  using assms by (cases "queue p") (auto simp: Consume_def pipe_ok_def pipe_defs)

lemma resubmit_pipe_ok:
  assumes "pipe_ok depth k p" and "fr_state r = kBuildEnd" and "ProduceIfEmpty p g = (c, p1, g')"
    and "Complete (Some (tree, r)) c p1 = (pr, c', p2)"
  shows "pipe_ok depth k p2"
  using assms by (cases "queue p") (auto simp: pipe_ok_def pipe_defs built_def split: if_splits)

lemma rasterizer_draw_spec:
  assumes inv: "animator_inv depth 0 w"
  shows "\<exists>w'. rasterizer_draw junk b w = Inr w' \<and> animator_inv depth 0 w' \<and> traced w' = traced w"
proof -
  let ?c = "producer_continuation (an w)" and ?set = "\<lambda>p. (an w)\<lparr>layer_tree_pipeline := p\<rparr>"
  have keep: "animator_inv depth 0 (w\<lparr>an := ?set p, trace_gen := g\<rparr>) \<and> traced (w\<lparr>an := ?set p, trace_gen := g\<rparr>) = traced w"
    if "pipe_ok depth ?c p" for p g
    using that inv by (auto simp: animator_inv_def animator_ok_def traced_def)
  have "pipe_ok depth ?c (layer_tree_pipeline (an w))" using inv by (simp add: animator_inv_def animator_ok_def)
  then obtain res p seen where
    c: "Consume (Some (\<lambda>item (p, seen). (p, Some item))) (layer_tree_pipeline (an w)) None = Inr (res, p, seen)"
    and p: "pipe_ok depth ?c p" and item: "case seen of None \<Rightarrow> True | Some item \<Rightarrow> built item"
    using consume_pipe_ok by blast
  have stop: ?thesis if "rasterizer_draw junk b w = Inr (w\<lparr>an := ?set p\<rparr>)"
    using that keep [OF p, of "trace_gen w"] by simp
  show ?thesis
  proof (cases "seen = None \<or> \<not> b")
    case True
    with c item have "rasterizer_draw junk b w = Inr (w\<lparr>an := ?set p\<rparr>)"
      by (auto simp: rasterizer_draw_def Let_def built_def split: option.splits)
    then show ?thesis by (rule stop)
  next
    case False
    with item obtain tree r where seen: "seen = Some (Some (tree, r))" and r: "fr_state r = kBuildEnd"
      by (auto simp: built_def split: option.splits)
    obtain r' where r': "CloneUntil junk kBuildEnd r = Inr r'" "fr_state r' = kBuildEnd" using clone_built [OF r] by blast
    obtain k p1 g where q: "ProduceIfEmpty p (trace_gen w) = (k, p1, g)" by (metis prod_cases3)
    obtain pr k' p2 where q': "Complete (Some (tree, r')) k p1 = (pr, k', p2)" by (metis prod_cases3)
    have "rasterizer_draw junk b w = Inr (w\<lparr>an := ?set p2, trace_gen := g\<rparr>)"
      using False by (simp add: rasterizer_draw_def c seen r' q q' Let_def)
    with keep [OF resubmit_pipe_ok [OF p r'(2) q q'], of g] show ?thesis by simp
  qed
qed

lemma animator_step_spec:
  assumes inv: "animator_inv depth 0 w"
  shows "\<exists>w'. animator_step junk this w x = Inr w' \<and> animator_inv depth 0 w' \<and> traced w' = traced w @ enqueued [x]"
proof (cases x)
  case (A_Request b)
  then show ?thesis using RequestFrame_spec [OF inv] by simp
next
  case (A_Render t0 t1 tree)
  then show ?thesis using Render_spec [OF inv] by simp
next
  case (A_Enqueue tid)
  have "in_flight ts (fst (ScheduleSecondaryCallback this (Some Animator_Clear) v)) = in_flight ts v" for ts v
    by (simp add: ScheduleSecondaryCallback_def in_flight_def Let_def)
  with A_Enqueue inv show ?thesis
    by (simp add: EnqueueTraceFlowId_def animator_inv_def animator_ok_def traced_def)
next
  case (A_Fire start tgt pause)
  obtain v acts where v: "FireCallback id start start tgt pause (an_waiter w) = Inr (v, acts)"
    by (cases "FireCallback id start start tgt pause (an_waiter w)") (auto simp: FireCallback_def Let_def)
  with A_Fire inv fire_in_flight [OF v] show ?thesis by (simp add: animator_inv_def traced_def)
next
  case (A_Run now fw)
  show ?thesis
  proof (cases "an_tasks w")
    case (Cons t ts)
    then have "animator_inv depth (of_bool (t \<noteq> T_Clear)) (w\<lparr>an_tasks := ts\<rparr>)"
      using inv by (simp add: animator_inv_def in_flight_Cons)
    from run_task_spec [OF this, of junk now fw] A_Run Cons show ?thesis by (auto simp: traced_def)
  qed (use A_Run inv in simp)
next
  case (A_Idle dart_now)
  with inv show ?thesis by (auto simp: idle_callback_def animator_inv_def animator_ok_def traced_def)
next
  case (A_Consume b)
  then show ?thesis using rasterizer_draw_spec [OF inv, of junk b] by simp
qed

interpretation animator: total_machine "animator_step junk this" "animator_inv depth 0" for junk this depth
proof
  show "animator_inv depth 0 w'" if "animator_inv depth 0 w" "animator_step junk this w x = Inr w'" for w w' x
    using animator_step_spec [OF that(1), of junk this x] that(2) by auto
  show "\<exists>w'. animator_step junk this w x = Inr w'" if "animator_inv depth 0 w" for w x
    using animator_step_spec [OF that, of junk this x] by auto
qed

lemma animator_inv_init: "animator_inv (pipeline_depth metal b) 0 (animator_init metal b)"
  by (simp add: animator_inv_def animator_ok_def animator_init_def Animator_def pipe_ok_def Pipeline_def
    in_flight_def VsyncWaiter_def)

lemma animator_traced:
  "animator_inv depth 0 w \<Longrightarrow> run_ops (animator_step junk this) w xs = Inr w' \<Longrightarrow> traced w' = traced w @ enqueued xs"
proof (induction xs arbitrary: w)
  case (Cons x xs)
  obtain w1 where w1: "animator_step junk this w x = Inr w1" "animator_inv depth 0 w1" "traced w1 = traced w @ enqueued [x]"
    using animator_step_spec [OF Cons.prems(1)] by blast
  have "enqueued (x # xs) = enqueued [x] @ enqueued xs" by (cases x) simp_all
  with Cons.IH [OF w1(2)] Cons.prems(2) w1 show ?case by simp
qed simp

section \<open>Properties of the animator\<close>

text \<open>
  C18: The animator never fails a check and never loses or doubles a frame request: however requests,
  renders, vsyncs, UI tasks and the rasterizer interleave, either no frame is in flight or exactly
  one await, registered callback or posted frame task is; and while a new layer tree is wanted,
  one is.
\<close>

theorem frame_request_never_lost:
  "\<exists>w. run_ops (animator_step junk this) (animator_init metal b) xs = Inr w \<and>
     pending_frame_semaphore (an w) + in_flight (an_tasks w) (an_waiter w) = 1 \<and>
     (regenerate_layer_tree (an w) \<longrightarrow> in_flight (an_tasks w) (an_waiter w) = 1) \<and>
     in_flight (an_tasks (RequestFrame r w)) (an_waiter (RequestFrame r w)) = 1"
proof -
  obtain w where w: "run_ops (animator_step junk this) (animator_init metal b) xs = Inr w"
    "animator_inv (pipeline_depth metal b) 0 w"
    using animator.run_total [OF animator_inv_init] by blast
  then show ?thesis
    by (cases "pending_frame_semaphore (an w)")
      (auto simp: animator_inv_def animator_ok_def RequestFrame_def TryWait_def in_flight_append Let_def)
qed

theorem frame_request_never_lost_witness:
  "\<exists>w. run_ops (animator_step demo_timing 5) (animator_init False False) [A_Request True] = Inr w \<and>
     regenerate_layer_tree (an w) \<and> in_flight (an_tasks w) (an_waiter w) = 1"
proof -
  obtain w where w: "run_ops (animator_step demo_timing 5) (animator_init False False) [A_Request True] = Inr w"
    "regenerate_layer_tree (an w) \<longrightarrow> in_flight (an_tasks w) (an_waiter w) = 1"
    using frame_request_never_lost [of demo_timing 5 False False "[A_Request True]"] by blast
  then have "regenerate_layer_tree (an w)"
    by (auto simp: animator_init_def Animator_def RequestFrame_def TryWait_def Let_def)
  with w show ?thesis by blast
qed

text \<open>
  C24: While the animator lives, what the rasterizer finds in the pipeline is always a complete frame: a layer tree with
  the timings of a finished build, never null, and never more of them than the depth of the pipeline allows (2 in a
  build with Metal, else 1 when the platform and raster task runners are one and 2 when not). This includes the trees that
  the rasterizer itself resubmits. Each operation of the animator and each \<open>Draw\<close> is run whole. (The destructor of an
  animator that holds a continuation commits a null item.)
\<close>

theorem rasterizer_gets_complete_frames:
  "\<exists>w. run_ops (animator_step junk this) (animator_init metal b) xs = Inr w \<and>
     list_all (\<lambda>x. case fst x of None \<Rightarrow> False | Some (tree, r) \<Rightarrow>
       (\<exists>d. GetBuildDuration r = Inr d) \<and> RecordRasterStart t r \<noteq> Inl DCheck_Failed) (queue (layer_tree_pipeline (an w))) \<and>
     length (queue (layer_tree_pipeline (an w))) \<le> (if metal then 2 else if b then 1 else 2)"
proof -
  obtain w where w: "run_ops (animator_step junk this) (animator_init metal b) xs = Inr w"
    "animator_inv (pipeline_depth metal b) 0 w"
    using animator.run_total [OF animator_inv_init] by blast
  then have p: "pipe_ok (pipeline_depth metal b) (producer_continuation (an w)) (layer_tree_pipeline (an w))"
    by (simp add: animator_inv_def animator_ok_def)
  then have "length (queue (layer_tree_pipeline (an w))) \<le> (if metal then 2 else if b then 1 else 2)"
    by (auto simp: pipe_ok_def pipeline_depth_def split: if_splits)
  moreover from p have "list_all (\<lambda>x. built (fst x)) (queue (layer_tree_pipeline (an w)))" by (simp add: pipe_ok_def)
  then have "list_all (\<lambda>x. case fst x of None \<Rightarrow> False | Some (tree, r) \<Rightarrow>
       (\<exists>d. GetBuildDuration r = Inr d) \<and> RecordRasterStart t r \<noteq> Inl DCheck_Failed) (queue (layer_tree_pipeline (an w)))"
    by (rule list.pred_mono_strong)
      (auto simp: built_def GetBuildDuration_def get_from_def RecordRasterStart_def split: option.splits)
  ultimately show ?thesis using w by blast
qed

text \<open>The rasterizer reads the tree of the null item that a dropped continuation commits.\<close>

lemma null_item_is_read:
  assumes "queue (layer_tree_pipeline (an w)) = []" and "available (layer_tree_pipeline (an w)) = 0"
  shows "rasterizer_draw junk b (w\<lparr>an := (an w)\<lparr>layer_tree_pipeline :=
      drop_continuation (Some (Commit, tid)) (layer_tree_pipeline (an w))\<rparr>\<rparr>) = Inl Undefined"
  using assms by (simp add: rasterizer_draw_def Consume_def drop_continuation_def pipe_defs)

text \<open>
  Every trace id the pointer events enqueue is ended at most once and in order: the ids ended so
  far followed by those still waiting are the ids enqueued.
\<close>

theorem trace_flow_ids_end_once_in_order:
  "\<exists>w. run_ops (animator_step junk this) (animator_init metal b) xs = Inr w \<and>
     ended (events w) @ trace_flow_ids (an w) = enqueued xs"
proof -
  obtain w where w: "run_ops (animator_step junk this) (animator_init metal b) xs = Inr w"
    using animator.run_total [OF animator_inv_init] by blast
  with animator_traced [OF animator_inv_init w] show ?thesis
    by (simp add: traced_def animator_init_def Animator_def)
qed

text \<open>
  When the pipeline is full at a vsync, the frame is not begun but asked for again: the framework is
  not called, a new layer tree stays wanted and another await is posted.
\<close>

theorem full_pipeline_retries:
  assumes "producer_continuation (an w) = None" and "empty (layer_tree_pipeline (an w)) = 0"
    and "fr_state r0 = kVsync"
  shows "\<exists>w'. BeginFrame junk now fw r0 w = Inr w' \<and> regenerate_layer_tree (an w') \<and>
     an_tasks w' = an_tasks w @ [T_Await] \<and> events w' = events w @ map Trace_Flow_End (trace_flow_ids (an w))"
  using assms
  by (simp add: BeginFrame_def start_frame_def acquire_continuation_def rec_defs Produce_def produce_with_def TryWait_def Signal_def RequestFrame_def Let_def)

definition demo_tree :: layer_tree where
  "demo_tree = \<lparr>frame_size = (8, 6), tree_label = 1\<rparr>"

text \<open>
  Reusing the last layer tree leaves \<open>frame_scheduled_\<close> set although nothing is in flight any more, so
  the secondary callback that is to clear the trace ids when no frame is scheduled keeps them.
\<close>

theorem reuse_leaves_frame_scheduled:
  "\<exists>w. run_ops (animator_step demo_timing 5) (animator_init False False)
       [A_Request False, A_Run (TimePoint 0) [], A_Fire (TimePoint 1) (TimePoint 2) False, A_Run (TimePoint 1) [],
        A_Enqueue 7, A_Fire (TimePoint 3) (TimePoint 4) False, A_Run (TimePoint 3) []] = Inr w \<and>
     in_flight (an_tasks w) (an_waiter w) = 0 \<and> frame_scheduled (an w) \<and> trace_flow_ids (an w) = [7]"
  by (simp add: animator_init_def Animator_def RequestFrame_def TryWait_def run_task_def AwaitVSync_task_def
    AsyncWaitForVsync_def VsyncWaiter_def FireCallback_def vsync_task_def FrameTimingsRecorder_next_def
    FrameTimingsRecorder_def rec_defs frame_callback_def CanReuseLastLayerTree_def DrawLastLayerTree_def Signal_def
    EnqueueTraceFlowId_def ScheduleSecondaryCallback_def clear_trace_flow_ids_def in_flight_def Let_def)

theorem full_pipeline_retries_witness:
  "\<exists>w w'. run_ops (animator_step demo_timing 5) (animator_init False True)
       [A_Request True, A_Run (TimePoint 0) [], A_Fire (TimePoint 1) (TimePoint 2) False,
        A_Run (TimePoint 1) [FW_Render (TimePoint 1) (TimePoint 1) demo_tree]] = Inr w \<and>
     BeginFrame demo_timing (TimePoint 3) [] ((FrameTimingsRecorder demo_timing 2)\<lparr>fr_state := kVsync\<rparr>) w = Inr w' \<and>
     regenerate_layer_tree (an w')"
proof -
  have "case run_ops (animator_step demo_timing 5) (animator_init False True)
       [A_Request True, A_Run (TimePoint 0) [], A_Fire (TimePoint 1) (TimePoint 2) False,
        A_Run (TimePoint 1) [FW_Render (TimePoint 1) (TimePoint 1) demo_tree]] of Inl _ \<Rightarrow> False
    | Inr w \<Rightarrow> producer_continuation (an w) = None \<and> empty (layer_tree_pipeline (an w)) = 0"
    by code_simp
  then obtain w where w: "run_ops (animator_step demo_timing 5) (animator_init False True)
       [A_Request True, A_Run (TimePoint 0) [], A_Fire (TimePoint 1) (TimePoint 2) False,
        A_Run (TimePoint 1) [FW_Render (TimePoint 1) (TimePoint 1) demo_tree]] = Inr w"
    "producer_continuation (an w) = None" "empty (layer_tree_pipeline (an w)) = 0"
    by (auto simp del: run_ops.simps split: sum.splits)
  have "fr_state ((FrameTimingsRecorder demo_timing 2)\<lparr>fr_state := kVsync\<rparr>) = kVsync" by simp
  from full_pipeline_retries [OF w(2,3) this, of demo_timing "TimePoint 3" "[]"] w(1) show ?thesis by blast
qed

end
