(* ===== verification/Text_Utf16.thy ===== *)
theory Text_Utf16
  imports Prelude
begin

text \<open>
  UTF-16 text as \<open>shell/platform/common\<close> handles it: code units, surrogates, well-formed text and the
  positions between code points, and the \<open>std::u16string\<close> operations with their exceptions. The two
  conversions of \<open>fml/string_conversion\<close> read their argument up to the first NUL; the conversion
  proper is the standard library's and is an argument.
\<close>

unbundle bit_operations_syntax

type_synonym code_unit = "16 word"
type_synonym u16string = "code_unit list"

(* map: shell/platform/common/text_input_model.cc 17 19 IsLeadingSurrogate *)
definition IsLeadingSurrogate :: "32 word \<Rightarrow> bool" where
  "IsLeadingSurrogate c \<longleftrightarrow> c AND 0xFFFFFC00 = 0xD800"

(* map: shell/platform/common/text_input_model.cc 21 23 IsTrailingSurrogate *)
definition IsTrailingSurrogate :: "32 word \<Rightarrow> bool" where
  "IsTrailingSurrogate c \<longleftrightarrow> c AND 0xFFFFFC00 = 0xDC00"

definition lead :: "code_unit \<Rightarrow> bool" where
  "lead u = IsLeadingSurrogate (ucast u)"

definition trail :: "code_unit \<Rightarrow> bool" where
  "trail u = IsTrailingSurrogate (ucast u)"

lemma lead_not_trail: "lead u \<Longrightarrow> \<not> trail u"
  by (simp add: lead_def trail_def IsLeadingSurrogate_def IsTrailingSurrogate_def)

section \<open>Well-formed text\<close>

fun wf16 :: "u16string \<Rightarrow> bool" where
  "wf16 [] = True"
| "wf16 [u] = (\<not> lead u \<and> \<not> trail u)"
| "wf16 (u # v # us) = (if lead u then trail v \<and> wf16 us else \<not> trail u \<and> wf16 (v # us))"

lemma wf16_append: "wf16 xs \<Longrightarrow> wf16 (xs @ ys) = wf16 ys"
proof (induction xs rule: wf16.induct)
  case (2 u)
  then show ?case by (cases ys) simp_all
qed auto

lemma wf16_appendI [intro]: "wf16 xs \<Longrightarrow> wf16 ys \<Longrightarrow> wf16 (xs @ ys)"
  by (simp add: wf16_append)

definition boundary :: "u16string \<Rightarrow> nat \<Rightarrow> bool" where
  "boundary t p \<longleftrightarrow> p \<le> length t \<and> wf16 (take p t)"

lemma boundary_0 [simp]: "boundary t 0"
  by (simp add: boundary_def)

lemma boundary_length: "wf16 t \<Longrightarrow> boundary t (length t)"
  by (simp add: boundary_def)

lemma boundary_le: "boundary t p \<Longrightarrow> p \<le> length t"
  by (simp add: boundary_def)

lemma boundary_drop: "wf16 t \<Longrightarrow> boundary t p \<Longrightarrow> wf16 (drop p t)"
  by (metis append_take_drop_id boundary_def wf16_append)

text \<open>In a well-formed text the boundaries are the positions not in front of a trailing surrogate.\<close>

lemma boundary_iff: "wf16 t \<Longrightarrow> boundary t p \<longleftrightarrow> p \<le> length t \<and> (p < length t \<longrightarrow> \<not> trail (t ! p))"
proof (induction t arbitrary: p rule: wf16.induct)
  case (2 u)
  then show ?case by (cases p) (auto simp: boundary_def)
next
  case (3 u v us)
  show ?case
  proof (cases "lead u")
    case True
    consider "p = 0" | "p = 1" | q where "p = Suc (Suc q)" by (metis One_nat_def not0_implies_Suc)
    then show ?thesis
    proof cases
      case 3
      with True "3.prems" "3.IH"(1) [of q] show ?thesis by (auto simp: boundary_def)
    qed (use True 3 lead_not_trail in \<open>auto simp: boundary_def\<close>)
  next
    case False
    then show ?thesis
    proof (cases p)
      case (Suc q)
      have "wf16 (u # take q (v # us)) = wf16 (take q (v # us))"
        using False "3.prems" by (cases q) auto
      with False "3.prems" "3.IH"(2) [of q] Suc show ?thesis by (auto simp: boundary_def)
    qed (use 3 False in \<open>auto simp: boundary_def\<close>)
  qed
qed (simp add: boundary_def)

lemma wf16_lead_next:
  "wf16 t \<Longrightarrow> p < length t \<Longrightarrow> lead (t ! p) \<Longrightarrow> Suc p < length t \<and> trail (t ! Suc p)"
proof (induction t arbitrary: p rule: wf16.induct)
  case (3 u v us)
  then show ?case
  proof (cases "lead u")
    case True
    consider "p = 0" | "p = 1" | q where "p = Suc (Suc q)" by (metis One_nat_def not0_implies_Suc)
    then show ?thesis using 3 True lead_not_trail by cases auto
  next
    case False
    then show ?thesis using 3 by (cases p) auto
  qed
qed auto

lemma wf16_trail_prev:
  "wf16 t \<Longrightarrow> p < length t \<Longrightarrow> trail (t ! p) \<Longrightarrow> 0 < p \<and> lead (t ! (p - 1))"
proof (induction t arbitrary: p rule: wf16.induct)
  case (3 u v us)
  then show ?case
  proof (cases "lead u")
    case True
    consider "p = 0" | "p = 1" | q where "p = Suc (Suc q)" by (metis One_nat_def not0_implies_Suc)
    then show ?thesis
    proof cases
      case 3
      with True "3.prems" "3.IH"(1) [of q] show ?thesis by (cases q) (auto simp: nth_Cons')
    qed (use 3 True lead_not_trail in auto)
  next
    case False
    with 3 show ?thesis
    proof (cases p)
      case (Suc q)
      with False "3.prems" "3.IH"(2) [of q] show ?thesis by (cases q) auto
    qed auto
  qed
qed auto

text \<open>The width of the code point after and before a boundary.\<close>

definition units_after :: "code_unit \<Rightarrow> nat" where
  "units_after u = (if lead u then 2 else 1)"

definition units_before :: "code_unit \<Rightarrow> nat" where
  "units_before u = (if trail u then 2 else 1)"

definition width_at :: "u16string \<Rightarrow> nat \<Rightarrow> nat" where
  "width_at t p = units_after (t ! p)"

definition width_before :: "u16string \<Rightarrow> nat \<Rightarrow> nat" where
  "width_before t p = units_before (t ! (p - 1))"

lemma boundary_next:
  assumes "wf16 t" "boundary t p" "p < length t"
  shows "boundary t (p + width_at t p)" and "boundary t b \<Longrightarrow> p < b \<Longrightarrow> p + width_at t p \<le> b"
proof -
  show "boundary t b \<Longrightarrow> p < b \<Longrightarrow> p + width_at t p \<le> b"
    using assms wf16_lead_next [of t p] by (cases "b = Suc p") (auto simp: boundary_iff width_at_def units_after_def)
  show "boundary t (p + width_at t p)"
  proof (cases "lead (t ! p)")
    case True
    have "\<not> trail (t ! Suc (Suc p))" if "Suc (Suc p) < length t"
      using wf16_trail_prev [OF assms(1) that] wf16_lead_next [OF assms(1,3) True] lead_not_trail by auto
    with True wf16_lead_next [OF assms(1,3) True] assms(1) show ?thesis by (auto simp: boundary_iff width_at_def units_after_def)
  next
    case False
    have "\<not> trail (t ! Suc p)" if "Suc p < length t"
      using wf16_trail_prev [OF assms(1) that] False by auto
    with False assms show ?thesis by (auto simp: boundary_iff width_at_def units_after_def)
  qed
qed

lemma boundary_prev:
  assumes "wf16 t" "boundary t p" "0 < p"
  shows "width_before t p \<le> p" and "boundary t (p - width_before t p)"
    and "boundary t b \<Longrightarrow> b < p \<Longrightarrow> b \<le> p - width_before t p"
proof -
  have p: "p - 1 < length t" "Suc (p - 1) = p" using assms(3) boundary_le [OF assms(2)] by auto
  show "width_before t p \<le> p"
    using wf16_trail_prev [OF assms(1) p(1)] assms(3) by (auto simp: width_before_def units_before_def)
  show "boundary t (p - width_before t p)"
  proof (cases "trail (t ! (p - 1))")
    case True
    with wf16_trail_prev [OF assms(1) p(1)] assms(1) p lead_not_trail show ?thesis
      by (auto simp: boundary_iff width_before_def units_before_def numeral_2_eq_2)
  qed (use assms(1) p in \<open>auto simp: boundary_iff width_before_def units_before_def\<close>)
  show "b \<le> p - width_before t p" if "boundary t b" "b < p"
    using that assms(1) p by (cases "b = p - 1") (auto simp: boundary_iff width_before_def units_before_def)
qed

section \<open>Erasing and inserting at boundaries\<close>

lemma wf16_erase:
  assumes "wf16 t" "boundary t p" "boundary t q"
  shows "wf16 (take p t @ drop q t)"
  using assms boundary_drop by (auto simp: boundary_def)

lemma wf16_replace:
  assumes "wf16 t" "boundary t p" "boundary t q" "wf16 s"
  shows "wf16 (take p t @ s @ drop q t)"
  using assms boundary_drop by (auto simp: boundary_def)

lemma boundary_replace_before:
  assumes "boundary t p" "boundary t b" "b \<le> p"
  shows "boundary (take p t @ s) b"
  using assms by (auto simp: boundary_def min_def)

lemma boundary_replace_mid:
  assumes "boundary t p" "boundary s b"
  shows "boundary (take p t @ s @ u) (p + b)"
  using assms by (auto simp: boundary_def wf16_append)

lemma take_drop_split: "q \<le> b \<Longrightarrow> take (b - q) (drop q t) = drop q (take b t)"
  by (simp add: drop_take)

lemma boundary_replace_after:
  assumes "wf16 t" "boundary t p" "boundary t q" "boundary t b" "q \<le> b" "wf16 s"
  shows "boundary (take p t @ s @ drop q t) (b - q + (p + length s))"
proof -
  have "wf16 (drop q (take b t))"
    using assms by (metis append_take_drop_id boundary_def min.absorb1 take_take wf16_append)
  with assms show ?thesis
    by (auto simp: boundary_def wf16_append take_drop_split [symmetric] add.commute)
qed

section \<open>\<open>std::u16string\<close>\<close>

definition str_at :: "u16string \<Rightarrow> nat \<Rightarrow> code_unit res" where
  "str_at t p = (if p < length t then Inr (t ! p) else Inl Out_Of_Range)"

text \<open>\<open>at(p - 1)\<close>: in \<open>size_t\<close>, so that position 0 wraps around and is out of range.\<close>

definition str_before :: "u16string \<Rightarrow> nat \<Rightarrow> code_unit res" where
  "str_before t p = (if p = 0 then Inl Out_Of_Range else str_at t (p - 1))"

definition str_replace :: "nat \<Rightarrow> nat \<Rightarrow> u16string \<Rightarrow> u16string \<Rightarrow> u16string res" where
  "str_replace p n s t = (if p \<le> length t then Inr (take p t @ s @ drop (p + n) t) else Inl Out_Of_Range)"

abbreviation str_erase :: "nat \<Rightarrow> nat \<Rightarrow> u16string \<Rightarrow> u16string res" where
  "str_erase p n t \<equiv> str_replace p n [] t"

abbreviation str_insert :: "nat \<Rightarrow> u16string \<Rightarrow> u16string \<Rightarrow> u16string res" where
  "str_insert p s t \<equiv> str_replace p 0 s t"

lemma str_replace_append:
  "length xs = p \<Longrightarrow> length u = n \<Longrightarrow> str_replace p n s (xs @ u @ ys) = Inr (xs @ s @ ys)"
  by (auto simp: str_replace_def)

section \<open>Conversions\<close>

(* map: fml/string_conversion.cc fn std::string Utf16ToUtf8( *)
definition Utf16ToUtf8 :: "(u16string \<Rightarrow> 8 word list) \<Rightarrow> u16string \<Rightarrow> 8 word list" where
  "Utf16ToUtf8 to_bytes s = to_bytes (takeWhile (\<lambda>c. c \<noteq> 0) s)"

(* map: fml/string_conversion.cc fn std::u16string Utf8ToUtf16( *)
definition Utf8ToUtf16 :: "(8 word list \<Rightarrow> u16string) \<Rightarrow> 8 word list \<Rightarrow> u16string" where
  "Utf8ToUtf16 from_bytes s = from_bytes (takeWhile (\<lambda>c. c \<noteq> 0) s)"

section \<open>Code points\<close>

text \<open>The code units of a code point, as \<open>AddCodePoint\<close> makes them.\<close>

(* map: shell/platform/common/text_input_model.cc 116 126 TextInputModel::AddCodePoint:units *)
definition encode_code_point :: "32 word \<Rightarrow> u16string" where
  "encode_code_point c =
     (if c \<le> 0xFFFF then [ucast c]
      else let d = c - 0x10000 in [ucast ((drop_bit 10 d) + 0xD800), ucast (d mod 0x400 + 0xDC00)])"

definition decode_pair :: "code_unit \<Rightarrow> code_unit \<Rightarrow> 32 word" where
  "decode_pair u v = push_bit 10 (ucast u - 0xD800) + (ucast v - 0xDC00) + 0x10000"

definition scalar_value :: "32 word \<Rightarrow> bool" where
  "scalar_value c \<longleftrightarrow> c \<le> 0x10FFFF \<and> \<not> IsLeadingSurrogate c \<and> \<not> IsTrailingSurrogate c"

lemma unat_ucast_mod: "unat (ucast (x :: 'a::len word) :: 'b::len word) = unat x mod 2 ^ LENGTH('b)"
  by (simp add: unsigned_ucast_eq take_bit_eq_mod)

lemma and_not_mask: "(c :: 32 word) AND NOT (mask n) = push_bit n (drop_bit n c)"
  by (rule bit_word_eqI) (auto simp: bit_simps)

lemma high_bits: "unat ((c::32 word) AND 0xFFFFFC00) = unat c div 1024 * 1024"
proof -
  have m: "(0xFFFFFC00::32 word) = NOT (mask 10)" by (simp add: mask_eq_exp_minus_1)
  have low: "unat (take_bit 10 c) = unat c mod 1024"
    by (simp only: unsigned_take_bit_eq) (simp add: take_bit_eq_mod)
  have "c AND NOT (mask 10) = c - take_bit 10 c"
    unfolding and_not_mask using bits_ident [of 10 c] by (metis add_diff_cancel_right')
  moreover have "take_bit 10 c \<le> c" using low by (simp add: word_le_nat_alt)
  ultimately have "unat (c AND NOT (mask 10)) = unat c - unat c mod 1024"
    using low by (simp only: unat_sub)
  then show ?thesis by (simp add: m minus_mod_eq_div_mult)
qed

lemma leading_range: "IsLeadingSurrogate c \<longleftrightarrow> unat c div 1024 = 54"
  using high_bits [of c] by (auto simp: IsLeadingSurrogate_def word_unat_eq_iff)

lemma trailing_range: "IsTrailingSurrogate c \<longleftrightarrow> unat c div 1024 = 55"
  using high_bits [of c] by (auto simp: IsTrailingSurrogate_def word_unat_eq_iff)

lemma unat_unit [simp]: "unat (ucast (u :: code_unit) :: 32 word) = unat u"
proof -
  have "unat u < 2 ^ LENGTH(16)" by (rule unsigned_less)
  then show ?thesis by (simp add: unat_ucast_mod)
qed

lemma unit_ranges:
  "lead u \<longleftrightarrow> unat u div 1024 = 54" "trail u \<longleftrightarrow> unat u div 1024 = 55"
  by (simp_all add: lead_def trail_def leading_range trailing_range)

lemma encode_units:
  assumes "scalar_value c" "\<not> c \<le> 0xFFFF"
  obtains u v where "encode_code_point c = [u, v]" "unat u = (unat c - 65536) div 1024 + 0xD800"
    "unat v = (unat c - 65536) mod 1024 + 0xDC00"
proof -
  let ?d = "c - 0x10000"
  have c: "65536 \<le> unat c" "unat c \<le> 0x10FFFF"
    using assms by (auto simp: scalar_value_def word_le_nat_alt)
  then have d: "unat ?d = unat c - 65536" by (simp add: unat_sub word_le_nat_alt)
  have q: "unat (drop_bit 10 ?d) = (unat c - 65536) div 1024" 
    by (simp only: unat_drop_bit_eq d) (simp add: drop_bit_eq_div)
  have r: "unat (?d mod 0x400) = (unat c - 65536) mod 1024" 
    using d by (simp add: unat_mod_distrib)
  have "unat (ucast (drop_bit 10 ?d + 0xD800) :: code_unit) = (unat c - 65536) div 1024 + 0xD800"
    using c q by (simp add: unat_ucast_mod unat_word_ariths)
  moreover have "unat (ucast (?d mod 0x400 + 0xDC00) :: code_unit) = (unat c - 65536) mod 1024 + 0xDC00"
    using c r by (simp add: unat_ucast_mod unat_word_ariths)
  ultimately show thesis using assms(2) by (intro that) (auto simp: encode_code_point_def Let_def)
qed

lemma unat_high:
  "(x::nat) < 1048576 \<Longrightarrow> (x div 1024 + 55296) div 1024 = 54"
  "((x::nat) mod 1024 + 56320) div 1024 = 55"
  by (rule div_nat_eqI; simp add: less_mult_imp_div_less)+

lemma encode_wf: "scalar_value c \<Longrightarrow> wf16 (encode_code_point c)"
proof (cases "c \<le> 0xFFFF")
  case True
  assume c: "scalar_value c"
  have "unat (ucast c :: code_unit) = unat c" using True by (simp add: unat_ucast_mod word_le_nat_alt)
  with True c show ?thesis
    by (simp add: encode_code_point_def unit_ranges scalar_value_def leading_range trailing_range)
next
  case False
  assume c: "scalar_value c"
  then have "unat c - 65536 < 1048576" by (auto simp: scalar_value_def word_le_nat_alt)
  with unat_high encode_units [OF c False] show ?thesis by (metis unit_ranges wf16.simps(1,3))
qed

lemma encode_width:
  "scalar_value c \<Longrightarrow> encode_code_point c \<noteq> [] \<and>
     length (encode_code_point c) = (if trail (last (encode_code_point c)) then 2 else 1)"
proof (cases "c \<le> 0xFFFF")
  case False
  assume c: "scalar_value c"
  obtain u v where uv: "encode_code_point c = [u, v]" using False by (simp add: encode_code_point_def Let_def)
  then have "trail v" using encode_wf [OF c] encode_units [OF c False] by (metis unat_high(2) unit_ranges(2) list.inject)
  with uv show ?thesis by simp
next
  case True
  assume c: "scalar_value c"
  then show ?thesis using True encode_wf [OF c] by (auto simp: encode_code_point_def)
qed

lemma decode_encode:
  assumes "scalar_value c" "encode_code_point c = [u, v]"
  shows "decode_pair u v = c"
proof -
  have n: "\<not> c \<le> 0xFFFF" using assms by (auto simp: encode_code_point_def)
  then obtain u' v' where "[u, v] = [u', v']" "unat u' = (unat c - 65536) div 1024 + 0xD800"
    "unat v' = (unat c - 65536) mod 1024 + 0xDC00" using encode_units [OF assms(1) n] assms(2) by metis
  then have uv: "unat u = (unat c - 65536) div 1024 + 0xD800" "unat v = (unat c - 65536) mod 1024 + 0xDC00" by auto
  have c: "65536 \<le> unat c" "unat c \<le> 0x10FFFF"
    using assms n by (auto simp: scalar_value_def word_le_nat_alt)
  obtain a b :: "32 word" where ab: "a = ucast u - 0xD800" "b = ucast v - 0xDC00" by simp
  have "unat a = (unat c - 65536) div 1024" "unat b = (unat c - 65536) mod 1024"
    using uv c by (simp_all add: ab unat_sub word_le_nat_alt)
  moreover from this have "unat (push_bit 10 a + b + 0x10000) = unat a * 1024 + unat b + 65536"
    using c by (simp add: unat_word_ariths push_bit_eq_mult)
  ultimately have "unat (decode_pair u v) = unat c"
    using c by (simp add: decode_pair_def ab [symmetric])
  then show ?thesis by (simp add: word_unat_eq_iff)
qed

end
