(* ===== verification/Text_Input.thy ===== *)
theory Text_Input
  imports Text_Utf16
begin

text \<open>
  \<open>shell/platform/common/text_range\<close>, \<open>text_input_model\<close> and \<open>text_editing_delta\<close>. Positions are \<open>size_t\<close>:
  naturals, with the wrap-around of a subtraction written out (\<open>sub64\<close>). The operations take
  UTF-16 text; the overloads on UTF-8 convert first.
\<close>

section \<open>Text ranges\<close>

(* map: shell/platform/common/text_range.h 97 98 TextRange *)
record text_range =
  base :: nat
  extent :: nat

(* map: shell/platform/common/text_range.h 22 23 TextRange::TextRange *)
definition TextRange :: "nat \<Rightarrow> nat \<Rightarrow> text_range" where
  "TextRange b e = \<lparr>base = b, extent = e\<rparr>"

(* map: shell/platform/common/text_range.h 21 21 TextRange::TextRange *)
definition TextRange_at :: "nat \<Rightarrow> text_range" where
  "TextRange_at p = \<lparr>base = p, extent = p\<rparr>"

(* map: shell/platform/common/text_range.h 42 42 TextRange::start *)
definition range_start :: "text_range \<Rightarrow> nat" where
  "range_start r = min (base r) (extent r)"

(* map: shell/platform/common/text_range.h 54 54 TextRange::end *)
definition range_end :: "text_range \<Rightarrow> nat" where
  "range_end r = max (base r) (extent r)"

(* map: shell/platform/common/text_range.h 45 51 TextRange::set_start *)
definition set_start :: "nat \<Rightarrow> text_range \<Rightarrow> text_range" where
  "set_start pos r = (if base r \<le> extent r then r\<lparr>base := pos\<rparr> else r\<lparr>extent := pos\<rparr>)"

(* map: shell/platform/common/text_range.h 57 63 TextRange::set_end *)
definition set_end :: "nat \<Rightarrow> text_range \<Rightarrow> text_range" where
  "set_end pos r = (if base r \<le> extent r then r\<lparr>extent := pos\<rparr> else r\<lparr>base := pos\<rparr>)"

(* map: shell/platform/common/text_range.h 68 71 TextRange::position *)
definition position :: "text_range \<Rightarrow> nat res" where
  "position r = bindr (ensure DCheck_Failed (base r = extent r)) (\<lambda>_. Inr (extent r))"

(* map: shell/platform/common/text_range.h 74 74 TextRange::length *)
definition range_length :: "text_range \<Rightarrow> nat" where
  "range_length r = range_end r - range_start r"

(* map: shell/platform/common/text_range.h 77 77 TextRange::collapsed *)
definition collapsed :: "text_range \<Rightarrow> bool" where
  "collapsed r \<longleftrightarrow> base r = extent r"

(* map: shell/platform/common/text_range.h 88 90 TextRange::Contains *)
definition Contains :: "text_range \<Rightarrow> text_range \<Rightarrow> bool" where
  "Contains r q \<longleftrightarrow> range_start r \<le> range_start q \<and> range_end q \<le> range_end r"

lemmas range_defs = TextRange_def TextRange_at_def range_start_def range_end_def range_length_def collapsed_def

lemma range_simps [simp]:
  "range_start (TextRange_at p) = p" "range_end (TextRange_at p) = p" "collapsed (TextRange_at p)"
  "position (TextRange_at p) = Inr p" "base (TextRange_at p) = p" "extent (TextRange_at p) = p"
  "range_start (TextRange 0 n) = 0" "range_end (TextRange 0 n) = n"
  by (simp_all add: range_defs position_def)

lemma set_end_range:
  assumes "range_start r \<le> p"
  shows "range_start (set_end p r) = range_start r" and "range_end (set_end p r) = p"
  using assms by (auto simp: set_end_def range_start_def range_end_def min_def max_def split: if_splits)

lemma collapsed_iff: "collapsed r \<longleftrightarrow> range_start r = range_end r"
  by (auto simp: range_defs min_def max_def)

lemma start_le_end: "range_start r \<le> range_end r"
  by (simp add: range_defs)

lemma collapsed_position: "collapsed r \<Longrightarrow> position r = Inr (range_start r) \<and> extent r = range_start r"
  by (simp add: range_defs position_def)

lemma collapsed_at: "collapsed r \<Longrightarrow> r = TextRange_at (range_start r)"
  by (cases r) (simp add: range_defs)

lemma TextRange_simps [simp]:
  "a \<le> b \<Longrightarrow> range_start (TextRange a b) = a" "a \<le> b \<Longrightarrow> range_end (TextRange a b) = b"
  "a \<le> b \<Longrightarrow> set_end q (TextRange a b) = TextRange a q" "set_end q (TextRange_at a) = TextRange a q"
  "collapsed (TextRange a b) = (a = b)"
  by (simp_all add: range_defs set_end_def)

lemma ex_bool [simp]: "\<exists>b. b" "\<exists>b. \<not> b"
  by auto

definition sub64 :: "nat \<Rightarrow> nat \<Rightarrow> nat" where
  "sub64 a b = (if b \<le> a then a - b else a + 2 ^ 64 - b)"

section \<open>The text input model\<close>

(* map: shell/platform/common/text_input_model.h 221 224 TextInputModel *)
record text_model =
  tm_text :: u16string
  selection :: text_range
  composing_range :: text_range
  composing :: bool

(* map: shell/platform/common/text_input_model.cc 27 27 TextInputModel::TextInputModel *)
definition TextInputModel :: text_model where
  "TextInputModel = \<lparr>tm_text = [], selection = TextRange_at 0, composing_range = TextRange_at 0, composing = False\<rparr>"

(* map: shell/platform/common/text_input_model.h 193 193 TextInputModel::text_range *)
definition text_range_of :: "text_model \<Rightarrow> text_range" where
  "text_range_of m = TextRange 0 (length (tm_text m))"

(* map: shell/platform/common/text_input_model.h 217 219 TextInputModel::editable_range *)
definition editable_range :: "text_model \<Rightarrow> text_range" where
  "editable_range m = (if composing m then composing_range m else text_range_of m)"

type_synonym edit = "(bool \<times> text_model) res"

(* map: shell/platform/common/text_input_model.cc fn TextInputModel::SetText( *)
definition SetText :: "u16string \<Rightarrow> text_range \<Rightarrow> text_range \<Rightarrow> text_model \<Rightarrow> bool \<times> text_model" where
  "SetText t sel cr m =
     (let m1 = m\<lparr>tm_text := t\<rparr> in
      if \<not> Contains (text_range_of m1) sel \<or> \<not> Contains (text_range_of m1) cr then (False, m1)
      else (True, m1\<lparr>selection := sel, composing_range := cr, composing := \<not> collapsed cr\<rparr>))"

(* map: shell/platform/common/text_input_model.cc fn TextInputModel::SetSelection( *)
definition SetSelection :: "text_range \<Rightarrow> text_model \<Rightarrow> bool \<times> text_model" where
  "SetSelection r m =
     (if composing m \<and> \<not> collapsed r then (False, m)
      else if \<not> Contains (editable_range m) r then (False, m)
      else (True, m\<lparr>selection := r\<rparr>))"

(* map: shell/platform/common/text_input_model.cc fn TextInputModel::SetComposingRange( *)
definition SetComposingRange :: "text_range \<Rightarrow> nat \<Rightarrow> text_model \<Rightarrow> bool \<times> text_model" where
  "SetComposingRange r cursor_offset m =
     (if \<not> composing m \<or> \<not> Contains (text_range_of m) r then (False, m)
      else (True, m\<lparr>composing_range := r, selection := TextRange_at ((range_start r + cursor_offset) mod 2 ^ 64)\<rparr>))"

(* map: shell/platform/common/text_input_model.cc fn TextInputModel::BeginComposing( *)
definition BeginComposing :: "text_model \<Rightarrow> text_model" where
  "BeginComposing m = m\<lparr>composing := True, composing_range := TextRange_at (range_start (selection m))\<rparr>"

(* map: shell/platform/common/text_input_model.cc fn TextInputModel::DeleteSelected( *)
definition DeleteSelected :: "text_model \<Rightarrow> edit" where
  "DeleteSelected m =
     (if collapsed (selection m) then Inr (False, m)
      else let start = range_start (selection m) in
        bindr (str_erase start (range_length (selection m)) (tm_text m)) (\<lambda>t.
          let m1 = m\<lparr>tm_text := t, selection := TextRange_at start\<rparr>
          in Inr (True, if composing m1 then m1\<lparr>composing_range := selection m1\<rparr> else m1)))"

(* map: shell/platform/common/text_input_model.cc 72 81 TextInputModel::UpdateComposingText *)
definition UpdateComposingText :: "u16string \<Rightarrow> text_model \<Rightarrow> text_model res" where
  "UpdateComposingText s m =
     (if length s = 0 \<and> collapsed (composing_range m) then Inr m
      else bindr (DeleteSelected m) (\<lambda>(_, m1).
        bindr (str_replace (range_start (composing_range m1)) (range_length (composing_range m1)) s (tm_text m1)) (\<lambda>t.
          let cr = set_end (range_start (composing_range m1) + length s) (composing_range m1)
          in Inr (m1\<lparr>tm_text := t, composing_range := cr, selection := TextRange_at (range_end cr)\<rparr>))))"

(* map: shell/platform/common/text_input_model.cc fn TextInputModel::CommitComposing( *)
definition CommitComposing :: "text_model \<Rightarrow> text_model" where
  "CommitComposing m =
     (if collapsed (composing_range m) then m
      else let r = TextRange_at (range_end (composing_range m)) in m\<lparr>composing_range := r, selection := r\<rparr>)"

(* map: shell/platform/common/text_input_model.cc fn TextInputModel::EndComposing( *)
definition EndComposing :: "text_model \<Rightarrow> text_model" where
  "EndComposing m = m\<lparr>composing := False, composing_range := TextRange_at 0\<rparr>"

(* map: shell/platform/common/text_input_model.cc 129 140 TextInputModel::AddText *)
definition AddText :: "u16string \<Rightarrow> text_model \<Rightarrow> text_model res" where
  "AddText s m =
     bindr (DeleteSelected m) (\<lambda>(_, m1).
     bindr (if composing m1
            then bindr (str_erase (range_start (composing_range m1)) (range_length (composing_range m1)) (tm_text m1)) (\<lambda>t.
                   let st = range_start (composing_range m1)
                   in Inr (m1\<lparr>tm_text := t, selection := TextRange_at st,
                             composing_range := set_end (st + length s) (composing_range m1)\<rparr>))
            else Inr m1) (\<lambda>m2.
     bindr (position (selection m2)) (\<lambda>p.
     bindr (str_insert p s (tm_text m2)) (\<lambda>t.
       Inr (m2\<lparr>tm_text := t, selection := TextRange_at (p + length s)\<rparr>)))))"

(* map: shell/platform/common/text_input_model.cc fn TextInputModel::AddCodePoint( *)
definition AddCodePoint :: "32 word \<Rightarrow> text_model \<Rightarrow> text_model res" where
  "AddCodePoint c = AddText (encode_code_point c)"

text \<open>\<open>composing_range_.set_end(composing_range_.end() - n)\<close>, when composing.\<close>

definition shrink_composing :: "nat \<Rightarrow> text_model \<Rightarrow> text_model" where
  "shrink_composing n m =
     (if composing m
      then m\<lparr>composing_range := set_end (sub64 (range_end (composing_range m)) n) (composing_range m)\<rparr> else m)"

(* map: shell/platform/common/text_input_model.cc fn TextInputModel::Backspace( *)
definition Backspace :: "text_model \<Rightarrow> edit" where
  "Backspace m =
     bindr (DeleteSelected m) (\<lambda>(deleted, m1).
       if deleted then Inr (True, m1)
       else bindr (position (selection m1)) (\<lambda>p.
         if p \<noteq> range_start (editable_range m1)
         then bindr (str_before (tm_text m1) p) (\<lambda>u.
              let n = units_before u in
              bindr (str_erase (sub64 p n) n (tm_text m1)) (\<lambda>t.
                Inr (True, shrink_composing n (m1\<lparr>tm_text := t, selection := TextRange_at (sub64 p n)\<rparr>))))
         else Inr (False, m1)))"

(* map: shell/platform/common/text_input_model.cc fn TextInputModel::Delete( *)
definition Delete :: "text_model \<Rightarrow> edit" where
  "Delete m =
     bindr (DeleteSelected m) (\<lambda>(deleted, m1).
       if deleted then Inr (True, m1)
       else bindr (position (selection m1)) (\<lambda>p.
         if p < range_end (editable_range m1)
         then bindr (str_at (tm_text m1) p) (\<lambda>u.
              let n = units_after u in
              bindr (str_erase p n (tm_text m1)) (\<lambda>t. Inr (True, shrink_composing n (m1\<lparr>tm_text := t\<rparr>))))
         else Inr (False, m1)))"

text \<open>
  The loops of \<open>DeleteSurrounding\<close>: back from the cursor (cutting \<open>count\<close> short at the start of the
  editable range), forward, and over the text to delete, where the code looks at \<open>start\<close> again
  and again.
\<close>

(* map: shell/platform/common/text_input_model.cc 185 193 TextInputModel::DeleteSurrounding:back *)
fun ds_back :: "u16string \<Rightarrow> nat \<Rightarrow> nat \<Rightarrow> int \<Rightarrow> int \<Rightarrow> nat \<Rightarrow> (int \<times> nat) res" where
  "ds_back t lo 0 i cnt st = Inr (cnt, st)"
| "ds_back t lo (Suc k) i cnt st =
     (if st = lo then Inr (i, st)
      else bindr (str_before t st) (\<lambda>u. ds_back t lo k (i + 1) cnt (sub64 st (units_before u))))"

(* map: shell/platform/common/text_input_model.cc 195 197 TextInputModel::DeleteSurrounding:forward *)
fun ds_forward :: "u16string \<Rightarrow> nat \<Rightarrow> nat \<Rightarrow> nat \<Rightarrow> nat res" where
  "ds_forward t hi 0 st = Inr st"
| "ds_forward t hi (Suc k) st =
     (if st = hi then Inr st
      else bindr (str_at t st) (\<lambda>u. ds_forward t hi k (st + units_after u)))"

(* map: shell/platform/common/text_input_model.cc 200 203 TextInputModel::DeleteSurrounding:end *)
fun ds_end :: "u16string \<Rightarrow> nat \<Rightarrow> nat \<Rightarrow> nat \<Rightarrow> nat \<Rightarrow> nat res" where
  "ds_end t hi st 0 e = Inr e"
| "ds_end t hi st (Suc k) e =
     (if e = hi then Inr e
      else bindr (str_at t st) (\<lambda>u. ds_end t hi st k (e + units_after u)))"

(* map: shell/platform/common/text_input_model.cc fn TextInputModel::DeleteSurrounding( *)
definition DeleteSurrounding :: "int \<Rightarrow> int \<Rightarrow> text_model \<Rightarrow> edit" where
  "DeleteSurrounding offset_from_cursor cnt m =
     (let max_pos = range_end (editable_range m); start = extent (selection m) in
      bindr (if offset_from_cursor < 0
             then ds_back (tm_text m) (range_start (editable_range m)) (nat (- offset_from_cursor)) 0 cnt start
             else bindr (ds_forward (tm_text m) max_pos (nat offset_from_cursor) start) (\<lambda>st. Inr (cnt, st))) (\<lambda>(c, st).
      bindr (ds_end (tm_text m) max_pos st (nat c) st) (\<lambda>e.
        if st = e then Inr (False, m)
        else let deleted_length = e - st in
          bindr (str_erase st deleted_length (tm_text m)) (\<lambda>t.
            Inr (True, shrink_composing deleted_length
              (m\<lparr>tm_text := t,
                selection := TextRange_at (if offset_from_cursor \<le> 0 then st else range_start (selection m))\<rparr>))))))"

(* map: shell/platform/common/text_input_model.cc fn TextInputModel::MoveCursorToBeginning( *)
definition MoveCursorToBeginning :: "text_model \<Rightarrow> edit" where
  "MoveCursorToBeginning m =
     (let min_pos = range_start (editable_range m) in
      if collapsed (selection m) \<and> extent (selection m) = min_pos then Inr (False, m)
      else Inr (True, m\<lparr>selection := TextRange_at min_pos\<rparr>))"

(* map: shell/platform/common/text_input_model.cc fn TextInputModel::MoveCursorToEnd( *)
definition MoveCursorToEnd :: "text_model \<Rightarrow> edit" where
  "MoveCursorToEnd m =
     (let max_pos = range_end (editable_range m) in
      if collapsed (selection m) \<and> extent (selection m) = max_pos then Inr (False, m)
      else Inr (True, m\<lparr>selection := TextRange_at max_pos\<rparr>))"

(* map: shell/platform/common/text_input_model.cc fn TextInputModel::SelectToBeginning( *)
definition SelectToBeginning :: "text_model \<Rightarrow> edit" where
  "SelectToBeginning m =
     (let min_pos = range_start (editable_range m) in
      if collapsed (selection m) \<and> extent (selection m) = min_pos then Inr (False, m)
      else Inr (True, m\<lparr>selection := TextRange (base (selection m)) min_pos\<rparr>))"

(* map: shell/platform/common/text_input_model.cc fn TextInputModel::SelectToEnd( *)
definition SelectToEnd :: "text_model \<Rightarrow> edit" where
  "SelectToEnd m =
     (let max_pos = range_end (editable_range m) in
      if collapsed (selection m) \<and> extent (selection m) = max_pos then Inr (False, m)
      else Inr (True, m\<lparr>selection := TextRange (base (selection m)) max_pos\<rparr>))"

(* map: shell/platform/common/text_input_model.cc fn TextInputModel::MoveCursorForward( *)
definition MoveCursorForward :: "text_model \<Rightarrow> edit" where
  "MoveCursorForward m =
     (if \<not> collapsed (selection m) then Inr (True, m\<lparr>selection := TextRange_at (range_end (selection m))\<rparr>)
      else bindr (position (selection m)) (\<lambda>p.
        if p \<noteq> range_end (editable_range m)
        then bindr (str_at (tm_text m) p) (\<lambda>u.
               Inr (True, m\<lparr>selection := TextRange_at (p + units_after u)\<rparr>))
        else Inr (False, m)))"

(* map: shell/platform/common/text_input_model.cc fn TextInputModel::MoveCursorBack( *)
definition MoveCursorBack :: "text_model \<Rightarrow> edit" where
  "MoveCursorBack m =
     (if \<not> collapsed (selection m) then Inr (True, m\<lparr>selection := TextRange_at (range_start (selection m))\<rparr>)
      else bindr (position (selection m)) (\<lambda>p.
        if p \<noteq> range_start (editable_range m)
        then bindr (str_before (tm_text m) p) (\<lambda>u.
               Inr (True, m\<lparr>selection := TextRange_at (sub64 p (units_before u))\<rparr>))
        else Inr (False, m)))"

(* map: shell/platform/common/text_input_model.cc fn TextInputModel::GetText( *)
definition GetText :: "(u16string \<Rightarrow> 8 word list) \<Rightarrow> text_model \<Rightarrow> 8 word list" where
  "GetText to_bytes m = Utf16ToUtf8 to_bytes (tm_text m)"

(* map: shell/platform/common/text_input_model.cc fn TextInputModel::GetCursorOffset( *)
definition GetCursorOffset :: "(u16string \<Rightarrow> 8 word list) \<Rightarrow> text_model \<Rightarrow> int" where
  "GetCursorOffset to_bytes m =
     sint (word_of_nat (length (Utf16ToUtf8 to_bytes (take (extent (selection m)) (tm_text m)))) :: 32 word)"

section \<open>Editing deltas\<close>

(* map: shell/platform/common/text_editing_delta.h 59 62 TextEditingDelta *)
record text_editing_delta =
  old_text :: u16string
  delta_text :: u16string
  delta_start :: "32 word"
  delta_end :: "32 word"

(* map: shell/platform/common/text_editing_delta.cc 11 17 TextEditingDelta::TextEditingDelta *)
definition TextEditingDelta :: "u16string \<Rightarrow> text_range \<Rightarrow> u16string \<Rightarrow> text_editing_delta" where
  "TextEditingDelta text_before_change r s =
     \<lparr>old_text = text_before_change, delta_text = s, delta_start = word_of_nat (range_start r),
      delta_end = word_of_nat (range_start r + range_length r)\<rparr>"

(* map: shell/platform/common/text_editing_delta.cc 27 28 TextEditingDelta::TextEditingDelta *)
definition TextEditingDelta_none :: "u16string \<Rightarrow> text_editing_delta" where
  "TextEditingDelta_none t = \<lparr>old_text = t, delta_text = [], delta_start = - 1, delta_end = - 1\<rparr>"

section \<open>The well-formed model\<close>

text \<open>
  The text is well-formed UTF-16 and every position is between code points. While composing, the
  selection lies in the composing range, or composing has just begun with a selection that is to be
  replaced (\<open>fresh\<close>).
\<close>

definition within :: "text_model \<Rightarrow> bool" where
  "within m \<longleftrightarrow> range_start (composing_range m) \<le> range_start (selection m) \<and>
     range_end (selection m) \<le> range_end (composing_range m)"

definition fresh :: "text_model \<Rightarrow> bool" where
  "fresh m \<longleftrightarrow> collapsed (composing_range m) \<and> range_start (composing_range m) = range_start (selection m)"

definition range_ok :: "u16string \<Rightarrow> text_range \<Rightarrow> bool" where
  "range_ok t r \<longleftrightarrow> boundary t (range_start r) \<and> boundary t (range_end r)"

definition tm_ok :: "text_model \<Rightarrow> bool" where
  "tm_ok m \<longleftrightarrow> wf16 (tm_text m) \<and> range_ok (tm_text m) (selection m) \<and>
     (if composing m then range_ok (tm_text m) (composing_range m) \<and> (within m \<or> fresh m)
      else collapsed (composing_range m))"

lemma range_ok_at [simp]: "range_ok t (TextRange_at p) = boundary t p"
  by (simp add: range_ok_def)

lemma range_ok_end_le: "range_ok t r \<Longrightarrow> range_end r \<le> length t"
  by (simp add: range_ok_def boundary_le)

lemma range_ok_base: "range_ok t r \<Longrightarrow> boundary t (base r) \<and> boundary t (extent r)"
  by (auto simp: range_ok_def range_defs min_def max_def split: if_splits)

lemma range_ok_TextRange: "boundary t a \<Longrightarrow> boundary t b \<Longrightarrow> range_ok t (TextRange a b)"
  by (auto simp: range_ok_def range_defs min_def max_def)

text \<open>Replacing the text between two boundaries.\<close>

lemma str_replace_range:
  assumes "range_ok t r"
  shows "str_replace (range_start r) (range_length r) s t = Inr (take (range_start r) t @ s @ drop (range_end r) t)"
  using assms start_le_end [of r] by (auto simp: str_replace_def range_ok_def range_length_def boundary_le)

lemma DeleteSelected_spec:
  assumes "tm_ok m"
  shows "\<exists>b m'. DeleteSelected m = Inr (b, m') \<and> tm_ok m' \<and> collapsed (selection m') \<and> b = (\<not> collapsed (selection m)) \<and>
     composing m' = composing m \<and> (composing m \<longrightarrow> within m') \<and>
     range_start (selection m') = range_start (selection m) \<and>
     tm_text m' = take (range_start (selection m)) (tm_text m) @ drop (range_end (selection m)) (tm_text m) \<and>
     (b \<longrightarrow> composing m \<longrightarrow> composing_range m' = selection m') \<and> (\<not> b \<longrightarrow> m' = m)"
proof (cases "collapsed (selection m)")
  case True
  then have e: "range_end (selection m) = range_start (selection m)" by (simp add: collapsed_iff)
  have "composing m \<longrightarrow> within m"
    using assms start_le_end [of "composing_range m"] by (auto simp: tm_ok_def within_def fresh_def e)
  with True assms e show ?thesis
    by (intro exI [of _ False] exI [of _ m]) (simp add: DeleteSelected_def)
next
  case False
  let ?r = "selection m" let ?t = "take (range_start ?r) (tm_text m) @ drop (range_end ?r) (tm_text m)"
  have ok: "wf16 (tm_text m)" "range_ok (tm_text m) ?r" using assms by (simp_all add: tm_ok_def)
  then have "wf16 ?t" by (intro wf16_erase) (auto simp: range_ok_def)
  moreover have "boundary ?t (range_start ?r)"
    using ok by (intro boundary_replace_before) (auto simp: range_ok_def)
  moreover have "str_erase (range_start ?r) (range_length ?r) (tm_text m) = Inr ?t"
    using str_replace_range [OF ok(2), of "[]"] by simp
  ultimately show ?thesis using False assms
    by (intro exI [of _ True]) (simp add: DeleteSelected_def tm_ok_def within_def Let_def)
qed

text \<open>
  A replacement of the code points between boundaries \<open>p\<close> and \<open>q\<close> by \<open>s\<close>, with what becomes of a
  position before, at the end and after them.
\<close>

lemma replaced:
  assumes "wf16 t" "boundary t p" "boundary t q" "p \<le> q" "wf16 s"
  defines "t' \<equiv> take p t @ s @ drop q t"
  shows "str_replace p (q - p) s t = Inr t'" and "wf16 t'" and "boundary t' (p + length s)" and "boundary t' p"
    and "\<And>b. boundary t b \<Longrightarrow> b \<le> p \<Longrightarrow> boundary t' b"
    and "\<And>b. boundary t b \<Longrightarrow> q \<le> b \<Longrightarrow> boundary t' (b - q + (p + length s))"
proof -
  show "str_replace p (q - p) s t = Inr t'"
    using assms by (auto simp: str_replace_def boundary_le)
  show "wf16 t'" unfolding t'_def by (rule wf16_replace) fact+
  show "boundary t' (p + length s)"
    unfolding t'_def using assms boundary_length by (intro boundary_replace_mid) auto
  show "boundary t' b" if "boundary t b" "b \<le> p" for b
    unfolding t'_def using assms(2) that by (rule boundary_replace_before)
  then show "boundary t' p" using assms(2) by blast
  show "boundary t' (b - q + (p + length s))" if "boundary t b" "q \<le> b" for b
    unfolding t'_def using assms that by (intro boundary_replace_after) auto
qed

lemma AddText_spec:
  assumes ok: "tm_ok m" and s: "wf16 s"
  shows "\<exists>m'. AddText s m = Inr m' \<and> tm_ok m'"
proof -
  obtain b m1 where m1: "DeleteSelected m = Inr (b, m1)" "tm_ok m1" "collapsed (selection m1)"
    "composing m1 \<longrightarrow> within m1" using DeleteSelected_spec [OF ok] by auto
  have wf: "wf16 (tm_text m1)" using m1(2) by (simp add: tm_ok_def)
  show ?thesis
  proof (cases "composing m1")
    case True
    let ?c = "composing_range m1" let ?t = "take (range_start ?c) (tm_text m1) @ drop (range_end ?c) (tm_text m1)"
    let ?t' = "take (range_start ?c) ?t @ s @ drop (range_start ?c) ?t"
    have c: "range_ok (tm_text m1) ?c" using m1(2) True by (simp add: tm_ok_def)
    note e = replaced [of "tm_text m1" "range_start ?c" "range_end ?c" "[]", simplified]
    have t: "wf16 ?t" "boundary ?t (range_start ?c)"
      "str_erase (range_start ?c) (range_length ?c) (tm_text m1) = Inr ?t"
      using e(2,4) wf c start_le_end str_replace_range [OF c, of "[]"] by (auto simp: range_ok_def)
    have t': "str_insert (range_start ?c) s ?t = Inr ?t'" "wf16 ?t'" "boundary ?t' (range_start ?c + length s)"
      "boundary ?t' (range_start ?c)"
      using replaced [OF t(1,2,2) _ s] by simp_all
    with t m1 True show ?thesis
      by (simp add: AddText_def tm_ok_def within_def range_ok_def set_end_range Let_def)
  next
    case False
    let ?p = "range_start (selection m1)"
    let ?t' = "take ?p (tm_text m1) @ s @ drop ?p (tm_text m1)"
    have p: "boundary (tm_text m1) ?p" using m1(2) by (simp add: tm_ok_def range_ok_def)
    have t': "str_insert ?p s (tm_text m1) = Inr ?t'" "wf16 ?t'" "boundary ?t' (?p + length s)"
      using replaced [OF wf p p _ s] by simp_all
    with m1 False show ?thesis
      by (simp add: AddText_def tm_ok_def collapsed_position)
  qed
qed

text \<open>A collapsed selection within the editable range.\<close>

definition cursor_ok :: "text_model \<Rightarrow> bool" where
  "cursor_ok m \<longleftrightarrow> tm_ok m \<and> collapsed (selection m) \<and> (composing m \<longrightarrow> within m)"

lemma cursor_ok_editable:
  assumes "cursor_ok m"
  shows "range_ok (tm_text m) (editable_range m)"
    and "range_start (editable_range m) \<le> range_start (selection m)"
    and "range_start (selection m) \<le> range_end (editable_range m)"
  using assms
  by (auto simp: cursor_ok_def tm_ok_def editable_range_def text_range_of_def within_def collapsed_iff range_ok_def
    boundary_length boundary_le)

lemma sub64_le [simp]: "b \<le> a \<Longrightarrow> sub64 a b = a - b"
  by (simp add: sub64_def)

text \<open>Erasing \<open>n\<close> units at a boundary inside the editable range.\<close>

lemma erase_spec:
  assumes ok: "wf16 (tm_text m)" "boundary (tm_text m) p" "boundary (tm_text m) (p + n)"
    and comp: "composing m \<longrightarrow> range_ok (tm_text m) (composing_range m) \<and>
      range_start (composing_range m) \<le> p \<and> p + n \<le> range_end (composing_range m)"
    and coll: "\<not> composing m \<longrightarrow> collapsed (composing_range m)"
    and sel: "boundary (tm_text m) q" "q \<le> p" "composing m \<longrightarrow> range_start (composing_range m) \<le> q"
  shows "\<exists>t. str_erase p n (tm_text m) = Inr t \<and>
     tm_ok (shrink_composing n (m\<lparr>tm_text := t, selection := TextRange_at q\<rparr>))"
proof -
  let ?t = "take p (tm_text m) @ drop (p + n) (tm_text m)"
  note r = replaced [OF ok(1-3) le_add1 wf16.simps(1) [THEN iffD2, OF TrueI], unfolded append_Nil list.size(3) add_0_right]
  have shift: "b - (p + n) + p = b - n" if "p + n \<le> b" for b using that by simp
  have t: "str_erase p n (tm_text m) = Inr ?t" "wf16 ?t" "\<And>b. boundary (tm_text m) b \<Longrightarrow> b \<le> p \<Longrightarrow> boundary ?t b"
    "\<And>b. boundary (tm_text m) b \<Longrightarrow> p + n \<le> b \<Longrightarrow> boundary ?t (b - n)"
    using r(1,2,5,6) shift by simp_all
  show ?thesis
  proof (cases "composing m")
    case True
    let ?c = "composing_range m"
    have "range_start (set_end (range_end ?c - n) ?c) = range_start ?c" "range_end (set_end (range_end ?c - n) ?c) = range_end ?c - n"
      using comp True by (auto intro!: set_end_range)
    with True t comp sel show ?thesis
      by (auto simp: shrink_composing_def tm_ok_def within_def range_ok_def)
  next
    case False
    with t sel coll show ?thesis by (simp add: shrink_composing_def tm_ok_def)
  qed
qed

lemma Backspace_spec:
  assumes ok: "tm_ok m"
  shows "\<exists>b m'. Backspace m = Inr (b, m') \<and> tm_ok m'"
proof -
  obtain b m1 where m1: "DeleteSelected m = Inr (b, m1)" "cursor_ok m1"
    using DeleteSelected_spec [OF ok] by (auto simp: cursor_ok_def)
  show ?thesis
  proof (cases "b \<or> range_start (selection m1) = range_start (editable_range m1)")
    case True
    with m1 show ?thesis by (auto simp: Backspace_def cursor_ok_def collapsed_position)
  next
    case False
    let ?p = "range_start (selection m1)" let ?t = "tm_text m1"
    note ed = cursor_ok_editable [OF m1(2)]
    have wf: "wf16 ?t" "boundary ?t ?p" "0 < ?p"
      using m1(2) False ed(2) by (auto simp: cursor_ok_def tm_ok_def range_ok_def)
    note prev = boundary_prev [OF wf]
    let ?n = "width_before ?t ?p"
    have lo: "range_start (editable_range m1) \<le> ?p - ?n"
      using ed False by (intro prev(3)) (auto simp: range_ok_def)
    have cr: "composing m1 \<longrightarrow> range_ok ?t (composing_range m1) \<and> range_start (composing_range m1) \<le> ?p - ?n \<and>
        ?p - ?n + ?n \<le> range_end (composing_range m1)" "\<not> composing m1 \<longrightarrow> collapsed (composing_range m1)"
      using lo ed prev(1) m1(2) by (auto simp: cursor_ok_def tm_ok_def editable_range_def)
    obtain t where t: "str_erase (?p - ?n) ?n ?t = Inr t"
      "tm_ok (shrink_composing ?n (m1\<lparr>tm_text := t, selection := TextRange_at (?p - ?n)\<rparr>))"
      using erase_spec [OF wf(1) prev(2) _ cr prev(2)] wf(2) prev(1) cr(1) by auto
    have "str_before ?t ?p = Inr (?t ! (?p - 1))"
      using wf boundary_le [OF wf(2)] by (auto simp: str_before_def str_at_def)
    moreover have "position (selection m1) = Inr ?p" using m1(2) by (simp add: cursor_ok_def collapsed_position)
    ultimately show ?thesis using m1(1) False t prev(1)
      by (simp add: Backspace_def Let_def width_before_def)
  qed
qed

lemma Delete_spec:
  assumes ok: "tm_ok m"
  shows "\<exists>b m'. Delete m = Inr (b, m') \<and> tm_ok m'"
proof -
  obtain b m1 where m1: "DeleteSelected m = Inr (b, m1)" "cursor_ok m1"
    using DeleteSelected_spec [OF ok] by (auto simp: cursor_ok_def)
  show ?thesis
  proof (cases "b \<or> \<not> range_start (selection m1) < range_end (editable_range m1)")
    case True
    with m1 show ?thesis by (auto simp: Delete_def cursor_ok_def collapsed_position)
  next
    case False
    let ?p = "range_start (selection m1)" let ?t = "tm_text m1"
    note ed = cursor_ok_editable [OF m1(2)]
    have wf: "wf16 ?t" "boundary ?t ?p" "?p < length ?t"
      using m1(2) False range_ok_end_le [OF ed(1)] by (auto simp: cursor_ok_def tm_ok_def range_ok_def)
    note nxt = boundary_next [OF wf]
    let ?n = "width_at ?t ?p"
    have hi: "?p + ?n \<le> range_end (editable_range m1)"
      using ed False by (intro nxt(2)) (auto simp: range_ok_def)
    have cr: "composing m1 \<longrightarrow> range_ok ?t (composing_range m1) \<and> range_start (composing_range m1) \<le> ?p \<and>
        ?p + ?n \<le> range_end (composing_range m1)" "\<not> composing m1 \<longrightarrow> collapsed (composing_range m1)"
      using hi ed m1(2) by (auto simp: cursor_ok_def tm_ok_def editable_range_def)
    obtain t where t: "str_erase ?p ?n ?t = Inr t"
      "tm_ok (shrink_composing ?n (m1\<lparr>tm_text := t, selection := TextRange_at ?p\<rparr>))"
      using erase_spec [OF wf(1,2) nxt(1) cr wf(2)] cr(1) by auto
    have p: "position (selection m1) = Inr ?p" "selection m1 = TextRange_at ?p"
      using m1(2) by (simp_all add: cursor_ok_def collapsed_position collapsed_at)
    have "m1\<lparr>tm_text := t, selection := TextRange_at ?p\<rparr> = m1\<lparr>tm_text := t\<rparr>" using p(2) by simp
    with t(2) have "tm_ok (shrink_composing ?n (m1\<lparr>tm_text := t\<rparr>))" by simp
    with m1(1) False t(1) p(1) wf(3) show ?thesis
      by (simp add: Delete_def str_at_def Let_def width_at_def)
  qed
qed

lemma UpdateComposingText_spec:
  assumes ok: "tm_ok m" and s: "wf16 s" and comp: "composing m"
  shows "\<exists>m'. UpdateComposingText s m = Inr m' \<and> tm_ok m'"
proof (cases "length s = 0 \<and> collapsed (composing_range m)")
  case False
  obtain b m1 where m1: "DeleteSelected m = Inr (b, m1)" "tm_ok m1" "composing m1"
    using DeleteSelected_spec [OF ok] comp by auto
  let ?c = "composing_range m1"
  let ?t = "take (range_start ?c) (tm_text m1) @ s @ drop (range_end ?c) (tm_text m1)"
  have c: "wf16 (tm_text m1)" "range_ok (tm_text m1) ?c" using m1 by (simp_all add: tm_ok_def)
  then have t: "wf16 ?t" "boundary ?t (range_start ?c)" "boundary ?t (range_start ?c + length s)"
    using replaced [OF c(1) _ _ start_le_end s, of ?c] by (simp_all add: range_ok_def)
  let ?m = "m1\<lparr>tm_text := ?t, composing_range := set_end (range_start ?c + length s) ?c,
     selection := TextRange_at (range_start ?c + length s)\<rparr>"
  have "UpdateComposingText s m = Inr ?m"
    using False m1(1) str_replace_range [OF c(2), of s]
    by (auto simp: UpdateComposingText_def Let_def set_end_range)
  moreover have "tm_ok ?m" using t m1(3) by (simp add: tm_ok_def within_def range_ok_def set_end_range)
  ultimately show ?thesis by blast
qed (use ok in \<open>simp add: UpdateComposingText_def\<close>)

text \<open>The loops of \<open>DeleteSurrounding\<close> stay between code points, inside the editable range.\<close>

definition bmp_only :: "u16string \<Rightarrow> bool" where
  "bmp_only t \<longleftrightarrow> list_all (\<lambda>u. \<not> lead u \<and> \<not> trail u) t"

lemma bmp_boundary: "wf16 t \<Longrightarrow> bmp_only t \<Longrightarrow> p \<le> length t \<Longrightarrow> boundary t p"
  by (simp add: boundary_iff bmp_only_def list_all_length)

lemma ds_back_spec:
  "wf16 t \<Longrightarrow> boundary t lo \<Longrightarrow> boundary t st \<Longrightarrow> lo \<le> st \<Longrightarrow>
     \<exists>c st'. ds_back t lo k i cnt st = Inr (c, st') \<and> boundary t st' \<and> lo \<le> st' \<and> st' \<le> st \<and>
       (c = cnt \<or> c < i + int k)"
proof (induction k arbitrary: i st)
  case (Suc k)
  show ?case
  proof (cases "st = lo")
    case False
    then have "0 < st" using Suc.prems(4) by simp
    then have st: "0 < st" "st - 1 < length t" using boundary_le [OF Suc.prems(3)] by simp_all
    note prev = boundary_prev [OF Suc.prems(1,3) st(1)]
    have "lo \<le> st - width_before t st" using prev(3) [OF Suc.prems(2)] Suc.prems(4) False by simp
    from Suc.IH [OF Suc.prems(1,2) prev(2) this, of "i + 1"] prev(1) st False show ?thesis
      by (fastforce simp: str_before_def str_at_def width_before_def)
  qed (use Suc.prems in simp)
qed simp

lemma ds_forward_spec:
  "wf16 t \<Longrightarrow> boundary t hi \<Longrightarrow> boundary t st \<Longrightarrow> st \<le> hi \<Longrightarrow>
     \<exists>st'. ds_forward t hi k st = Inr st' \<and> boundary t st' \<and> st \<le> st' \<and> st' \<le> hi"
proof (induction k arbitrary: st)
  case (Suc k)
  show ?case
  proof (cases "st = hi")
    case False
    then have st: "st < length t" "st < hi" using Suc.prems boundary_le [OF Suc.prems(2)] by auto
    note nxt = boundary_next [OF Suc.prems(1,3) st(1)]
    from Suc.IH [OF Suc.prems(1,2) nxt(1) nxt(2) [OF Suc.prems(2) st(2)]] st False show ?thesis
      by (fastforce simp: str_at_def width_at_def)
  qed (use Suc.prems in simp)
qed simp

lemma ds_end_bmp:
  "wf16 t \<Longrightarrow> bmp_only t \<Longrightarrow> hi \<le> length t \<Longrightarrow> st \<le> e \<Longrightarrow> e \<le> hi \<Longrightarrow>
     \<exists>e'. ds_end t hi st k e = Inr e' \<and> st \<le> e' \<and> e' \<le> hi"
proof (induction k arbitrary: e)
  case (Suc k)
  show ?case
  proof (cases "e = hi")
    case False
    with Suc.prems have st: "st < length t" "units_after (t ! st) = 1" "e < hi"
      by (auto simp: bmp_only_def list_all_length units_after_def)
    with Suc.IH [of "e + 1"] Suc.prems False show ?thesis by (simp add: str_at_def)
  qed (use Suc.prems in simp)
qed simp

lemma ds_end_spec:
  assumes "wf16 t" "boundary t hi" "boundary t st" "st \<le> hi" "k \<le> 1 \<or> bmp_only t"
  shows "\<exists>e. ds_end t hi st k st = Inr e \<and> st \<le> e \<and> e \<le> hi \<and> boundary t e"
proof (cases "bmp_only t")
  case True
  with assms ds_end_bmp [of t hi st st k] boundary_le [OF assms(2)] bmp_boundary [OF assms(1) True] show ?thesis
    by fastforce
next
  case False
  then have "k = 0 \<or> k = Suc 0" using assms(5) by auto
  then show ?thesis
  proof
    assume k: "k = Suc 0"
    show ?thesis
    proof (cases "st = hi")
      case False
      then have "st < length t" "st < hi" using assms boundary_le [OF assms(2)] by auto
      with boundary_next [OF assms(1,3)] assms(2) k show ?thesis
        by (auto simp: str_at_def width_at_def)
    qed (use assms k in simp)
  qed (use assms in simp)
qed

lemma DeleteSurrounding_spec:
  assumes ok: "tm_ok m" "composing m \<longrightarrow> within m" and small: "bmp_only (tm_text m) \<or> - 1 \<le> off \<and> cnt \<le> 1"
  shows "\<exists>b m'. DeleteSurrounding off cnt m = Inr (b, m') \<and> tm_ok m'"
proof -
  let ?t = "tm_text m" let ?lo = "range_start (editable_range m)" let ?hi = "range_end (editable_range m)"
  let ?st = "extent (selection m)"
  have wf: "wf16 ?t" and sel: "range_ok ?t (selection m)" using ok by (simp_all add: tm_ok_def)
  have ed: "range_ok ?t (editable_range m)" "?lo \<le> range_start (selection m)" "range_end (selection m) \<le> ?hi"
    using ok wf range_ok_end_le [OF sel]
    by (auto simp: tm_ok_def editable_range_def text_range_of_def within_def range_ok_def boundary_length)
  have b: "boundary ?t ?lo" "boundary ?t ?hi" "boundary ?t ?st" "?lo \<le> ?st" "?st \<le> ?hi" "range_start (selection m) \<le> ?st"
    using ed sel range_ok_base [OF sel] by (auto simp: range_ok_def range_start_def range_end_def)
  obtain c st where st: "(if off < 0 then ds_back ?t ?lo (nat (- off)) 0 cnt ?st
       else bindr (ds_forward ?t ?hi (nat off) ?st) (\<lambda>st. Inr (cnt, st))) = Inr (c, st)"
    "boundary ?t st" "?lo \<le> st" "st \<le> ?hi" "off > 0 \<longrightarrow> ?st \<le> st" "c = cnt \<or> c < - off"
  proof (cases "off < 0")
    case True
    with ds_back_spec [OF wf b(1,3,4), of "nat (- off)" 0 cnt] b(5) that show thesis by fastforce
  next
    case False
    with ds_forward_spec [OF wf b(2,3,5), of "nat off"] b(4) that show thesis by fastforce
  qed
  have "nat c \<le> 1 \<or> bmp_only ?t" using small st(6) by auto
  then obtain e where e: "ds_end ?t ?hi st (nat c) st = Inr e" "st \<le> e" "e \<le> ?hi" "boundary ?t e"
    using ds_end_spec [OF wf b(2) st(2,4)] by blast
  let ?q = "if off \<le> 0 then st else range_start (selection m)"
  have cr: "composing m \<longrightarrow> range_ok ?t (composing_range m) \<and> range_start (composing_range m) \<le> st \<and>
      st + (e - st) \<le> range_end (composing_range m)" "\<not> composing m \<longrightarrow> collapsed (composing_range m)"
    using ok(1) st(3) e(2,3) by (auto simp: tm_ok_def editable_range_def)
  have q: "boundary ?t ?q" "?q \<le> st" "composing m \<longrightarrow> range_start (composing_range m) \<le> ?q"
    using st b(6) sel ed(2) cr(1) by (auto simp: range_ok_def editable_range_def)
  have "boundary ?t (st + (e - st))" using e by simp
  from erase_spec [OF wf st(2) this cr q] e ok(1) show ?thesis
    by (auto simp: DeleteSurrounding_def st(1) Let_def)
qed

section \<open>The model as a machine\<close>

datatype tm_op =
    E_SetText u16string text_range text_range
  | E_SetSelection text_range
  | E_SetComposingRange text_range nat
  | E_Begin | E_Update u16string | E_Commit | E_End
  | E_AddText u16string | E_AddCodePoint "32 word"
  | E_Delete | E_Surrounding int int | E_Backspace
  | E_Back | E_Forward | E_Beginning | E_ToEnd | E_SelectBeginning | E_SelectEnd

fun tm_apply :: "tm_op \<Rightarrow> text_model \<Rightarrow> edit" where
  "tm_apply (E_SetText t sel cr) m = Inr (SetText t sel cr m)"
| "tm_apply (E_SetSelection r) m = Inr (SetSelection r m)"
| "tm_apply (E_SetComposingRange r off) m = Inr (SetComposingRange r off m)"
| "tm_apply E_Begin m = Inr (True, BeginComposing m)"
| "tm_apply (E_Update s) m = bindr (UpdateComposingText s m) (\<lambda>m'. Inr (True, m'))"
| "tm_apply E_Commit m = Inr (True, CommitComposing m)"
| "tm_apply E_End m = Inr (True, EndComposing m)"
| "tm_apply (E_AddText s) m = bindr (AddText s m) (\<lambda>m'. Inr (True, m'))"
| "tm_apply (E_AddCodePoint c) m = bindr (AddCodePoint c m) (\<lambda>m'. Inr (True, m'))"
| "tm_apply E_Delete m = Delete m"
| "tm_apply (E_Surrounding off cnt) m = DeleteSurrounding off cnt m"
| "tm_apply E_Backspace m = Backspace m"
| "tm_apply E_Back m = MoveCursorBack m"
| "tm_apply E_Forward m = MoveCursorForward m"
| "tm_apply E_Beginning m = MoveCursorToBeginning m"
| "tm_apply E_ToEnd m = MoveCursorToEnd m"
| "tm_apply E_SelectBeginning m = SelectToBeginning m"
| "tm_apply E_SelectEnd m = SelectToEnd m"

text \<open>
  What the caller owes: well-formed text, positions between code points, a composing range that
  holds the selection, a cursor inside the composing range, and no forward motion or surrounding
  deletion between \<open>BeginComposing\<close> over a selection and the first composing text. Surrounding
  deletions of several code points are only right in text without surrogates.
\<close>

definition arg_ok :: "tm_op \<Rightarrow> text_model \<Rightarrow> bool" where
  "arg_ok x m \<longleftrightarrow>
     (case x of
        E_SetText t sel cr \<Rightarrow> wf16 t \<and> range_ok t sel \<and> range_ok t cr \<and> (collapsed cr \<or> Contains cr sel)
      | E_SetSelection r \<Rightarrow> Contains (editable_range m) r \<longrightarrow> range_ok (tm_text m) r
      | E_SetComposingRange r off \<Rightarrow> range_ok (tm_text m) r \<and> boundary (tm_text m) (range_start r + off) \<and>
          range_start r + off \<le> range_end r \<and> range_end r < 2 ^ 64
      | E_Update s \<Rightarrow> wf16 s \<and> composing m
      | E_AddText s \<Rightarrow> wf16 s
      | E_AddCodePoint c \<Rightarrow> scalar_value c
      | E_Surrounding off cnt \<Rightarrow> (composing m \<longrightarrow> within m) \<and> (bmp_only (tm_text m) \<or> - 1 \<le> off \<and> cnt \<le> 1)
      | E_Forward \<Rightarrow> composing m \<longrightarrow> within m
      | _ \<Rightarrow> True)"

lemma editable_ok:
  assumes "tm_ok m"
  shows "range_ok (tm_text m) (editable_range m)"
  using assms
  by (cases "composing m") (simp_all add: tm_ok_def editable_range_def text_range_of_def range_ok_def boundary_length)

lemma move_spec:
  assumes ok: "tm_ok m"
  shows "\<exists>b m'. MoveCursorBack m = Inr (b, m') \<and> tm_ok m'"
    and "(composing m \<longrightarrow> within m) \<Longrightarrow> \<exists>b m'. MoveCursorForward m = Inr (b, m') \<and> tm_ok m'"
proof -
  let ?p = "range_start (selection m)" let ?t = "tm_text m"
  have wf: "wf16 ?t" "range_ok ?t (selection m)" using ok by (simp_all add: tm_ok_def)
  show "\<exists>b m'. MoveCursorBack m = Inr (b, m') \<and> tm_ok m'"
  proof (cases "\<not> collapsed (selection m) \<or> ?p = range_start (editable_range m)")
    case True
    with ok start_le_end [of "selection m"] show ?thesis
      by (auto simp: MoveCursorBack_def tm_ok_def within_def fresh_def range_ok_def collapsed_position)
  next
    case False
    then have c: "cursor_ok m" using ok DeleteSelected_spec [OF ok] by (auto simp: cursor_ok_def)
    note ed = cursor_ok_editable [OF c]
    have p: "boundary ?t ?p" "0 < ?p" using wf(2) False ed(2) by (auto simp: range_ok_def)
    note prev = boundary_prev [OF wf(1) p]
    have lo: "range_start (editable_range m) \<le> ?p - width_before ?t ?p"
      using ed False by (intro prev(3)) (auto simp: range_ok_def)
    have "str_before ?t ?p = Inr (?t ! (?p - 1))"
      using p boundary_le [OF p(1)] by (auto simp: str_before_def str_at_def)
    then have "MoveCursorBack m = Inr (True, m\<lparr>selection := TextRange_at (?p - width_before ?t ?p)\<rparr>)"
      using False prev(1) by (simp add: MoveCursorBack_def collapsed_position width_before_def)
    moreover have "tm_ok (m\<lparr>selection := TextRange_at (?p - width_before ?t ?p)\<rparr>)"
      using c lo ed prev by (auto simp: cursor_ok_def tm_ok_def within_def editable_range_def)
    ultimately show ?thesis by blast
  qed
  show "\<exists>b m'. MoveCursorForward m = Inr (b, m') \<and> tm_ok m'" if w: "composing m \<longrightarrow> within m"
  proof (cases "\<not> collapsed (selection m) \<or> ?p = range_end (editable_range m)")
    case True
    with ok w start_le_end [of "selection m"] show ?thesis
      by (auto simp: MoveCursorForward_def tm_ok_def within_def range_ok_def collapsed_position)
  next
    case False
    then have c: "cursor_ok m" using ok w by (auto simp: cursor_ok_def)
    note ed = cursor_ok_editable [OF c]
    have p: "boundary ?t ?p" "?p < length ?t" "?p < range_end (editable_range m)"
      using wf(2) False ed(3) range_ok_end_le [OF ed(1)] by (auto simp: range_ok_def)
    note nxt = boundary_next [OF wf(1) p(1,2)]
    have hi: "?p + width_at ?t ?p \<le> range_end (editable_range m)"
      using ed p by (intro nxt(2)) (auto simp: range_ok_def)
    have "MoveCursorForward m = Inr (True, m\<lparr>selection := TextRange_at (?p + width_at ?t ?p)\<rparr>)"
      using False p by (simp add: MoveCursorForward_def collapsed_position str_at_def width_at_def)
    moreover have "tm_ok (m\<lparr>selection := TextRange_at (?p + width_at ?t ?p)\<rparr>)"
      using c hi ed nxt by (auto simp: cursor_ok_def tm_ok_def within_def editable_range_def)
    ultimately show ?thesis by blast
  qed
qed

lemma bounds_spec:
  assumes ok: "tm_ok m"
  shows "\<exists>b m'. MoveCursorToBeginning m = Inr (b, m') \<and> tm_ok m'"
    and "\<exists>b m'. MoveCursorToEnd m = Inr (b, m') \<and> tm_ok m'"
    and "\<exists>b m'. SelectToBeginning m = Inr (b, m') \<and> tm_ok m'"
    and "\<exists>b m'. SelectToEnd m = Inr (b, m') \<and> tm_ok m'"
proof -
  let ?e = "editable_range m"
  have e: "boundary (tm_text m) (range_start ?e)" "boundary (tm_text m) (range_end ?e)" "range_start ?e \<le> range_end ?e"
    using editable_ok [OF ok] start_le_end by (auto simp: range_ok_def)
  have at: "tm_ok (m\<lparr>selection := TextRange_at p\<rparr>)" if "boundary (tm_text m) p" "range_start ?e \<le> p" "p \<le> range_end ?e" for p
    using ok that by (auto simp: tm_ok_def within_def editable_range_def)
  have b: "boundary (tm_text m) (base (selection m))"
    using ok range_ok_base by (auto simp: tm_ok_def)
  have to: "tm_ok (m\<lparr>selection := TextRange (base (selection m)) p\<rparr>)"
    if "p = range_start ?e \<or> p = range_end ?e" for p
  proof -
    have "boundary (tm_text m) p" using that e by auto
    then have "range_ok (tm_text m) (TextRange (base (selection m)) p)" using b by (rule range_ok_TextRange [rotated])
    moreover have "within (m\<lparr>selection := TextRange (base (selection m)) p\<rparr>) \<or>
        fresh (m\<lparr>selection := TextRange (base (selection m)) p\<rparr>)" if "composing m"
      using ok \<open>p = range_start ?e \<or> p = range_end ?e\<close> that
      by (auto simp: tm_ok_def within_def fresh_def editable_range_def range_defs min_def max_def split: if_splits)
    ultimately show ?thesis using ok by (simp add: tm_ok_def within_def fresh_def)
  qed
  show "\<exists>b m'. MoveCursorToBeginning m = Inr (b, m') \<and> tm_ok m'"
    using ok at [OF e(1)] e(3) by (simp add: MoveCursorToBeginning_def Let_def)
  show "\<exists>b m'. MoveCursorToEnd m = Inr (b, m') \<and> tm_ok m'"
    using ok at [OF e(2)] e(3) by (simp add: MoveCursorToEnd_def Let_def)
  show "\<exists>b m'. SelectToBeginning m = Inr (b, m') \<and> tm_ok m'"
    using ok to by (simp add: SelectToBeginning_def Let_def)
  show "\<exists>b m'. SelectToEnd m = Inr (b, m') \<and> tm_ok m'"
    using ok to by (simp add: SelectToEnd_def Let_def)
qed

lemma set_ops_spec:
  assumes ok: "tm_ok m"
  shows "arg_ok (E_SetText t sel cr) m \<Longrightarrow> tm_ok (snd (SetText t sel cr m))"
    and "arg_ok (E_SetSelection r) m \<Longrightarrow> tm_ok (snd (SetSelection r m))"
    and "arg_ok (E_SetComposingRange r off) m \<Longrightarrow> tm_ok (snd (SetComposingRange r off m))"
    and "tm_ok (BeginComposing m)" and "tm_ok (CommitComposing m)" and "tm_ok (EndComposing m)"
proof -
  show "tm_ok (snd (SetText t sel cr m))" if "arg_ok (E_SetText t sel cr) m"
  proof -
    have "Contains (TextRange 0 (length t)) sel" "Contains (TextRange 0 (length t)) cr"
      using that range_ok_end_le by (auto simp: arg_ok_def Contains_def)
    with that show ?thesis
      by (auto simp: SetText_def arg_ok_def tm_ok_def text_range_of_def Contains_def within_def Let_def)
  qed
  show "tm_ok (snd (SetSelection r m))" if "arg_ok (E_SetSelection r) m"
    using that ok by (auto simp: SetSelection_def arg_ok_def tm_ok_def Contains_def within_def editable_range_def)
  show "tm_ok (snd (SetComposingRange r off m))" if "arg_ok (E_SetComposingRange r off) m"
    using that ok by (auto simp: SetComposingRange_def arg_ok_def tm_ok_def within_def)
  show "tm_ok (BeginComposing m)"
    using ok by (auto simp: BeginComposing_def tm_ok_def fresh_def range_ok_def)
  show "tm_ok (CommitComposing m)"
    using ok by (auto simp: CommitComposing_def tm_ok_def within_def range_ok_def Let_def split: if_splits)
  show "tm_ok (EndComposing m)"
    using ok by (auto simp: EndComposing_def tm_ok_def)
qed

lemma tm_apply_spec:
  assumes ok: "tm_ok m" and arg: "arg_ok x m"
  shows "\<exists>b m'. tm_apply x m = Inr (b, m') \<and> tm_ok m'"
proof (cases x)
  case (E_SetText t sel cr)
  with set_ops_spec(1) [OF ok, of t sel cr] arg show ?thesis by (cases "SetText t sel cr m") simp
next
  case (E_SetSelection r)
  with set_ops_spec(2) [OF ok, of r] arg show ?thesis by (cases "SetSelection r m") simp
next
  case (E_SetComposingRange r off)
  with set_ops_spec(3) [OF ok, of r off] arg show ?thesis by (cases "SetComposingRange r off m") simp
next
  case (E_Update s)
  with UpdateComposingText_spec [OF ok, of s] arg show ?thesis by (auto simp: arg_ok_def)
next
  case (E_AddText s)
  with AddText_spec [OF ok, of s] arg show ?thesis by (auto simp: arg_ok_def)
next
  case (E_AddCodePoint c)
  with AddText_spec [OF ok encode_wf, of c] arg show ?thesis by (auto simp: arg_ok_def AddCodePoint_def)
next
  case (E_Surrounding off cnt)
  with DeleteSurrounding_spec [OF ok] arg show ?thesis by (auto simp: arg_ok_def)
next
  case E_Forward
  with move_spec(2) [OF ok] arg show ?thesis by (simp add: arg_ok_def)
qed (use set_ops_spec(4-6) [OF ok] Delete_spec [OF ok] Backspace_spec [OF ok] move_spec(1) [OF ok] bounds_spec [OF ok]
  in simp_all)

text \<open>A caller that only makes calls it may make.\<close>

definition tm_step :: "text_model \<Rightarrow> tm_op \<Rightarrow> text_model res" where
  "tm_step m x = (if arg_ok x m then map_sum id snd (tm_apply x m) else Inr m)"

lemma tm_step_spec: "tm_ok m \<Longrightarrow> \<exists>m'. tm_step m x = Inr m' \<and> tm_ok m'"
  using tm_apply_spec [of m x] by (auto simp: tm_step_def)

interpretation tm: total_machine tm_step tm_ok
proof
  show "tm_ok m'" if "tm_ok m" "tm_step m x = Inr m'" for m m' x
    using tm_step_spec [OF that(1), of x] that(2) by auto
  show "\<exists>m'. tm_step m x = Inr m'" if "tm_ok m" for m x
    using tm_step_spec [OF that, of x] by auto
qed

lemma tm_ok_init: "tm_ok TextInputModel"
  by (simp add: tm_ok_def TextInputModel_def)

section \<open>Properties of the text input model\<close>

text \<open>
  C26: Under any sequence of permitted calls the text input model raises no exception and fails no check,
  its text stays well-formed UTF-16, and both ends of the selection, and of the composing range while composing, are
  positions in the text between code points. Not covered are the calls that \<open>arg_ok\<close> excludes (they are skipped in the
  sequence): text that is not well formed, positions inside a surrogate pair or outside the composing range they
  must respect, a code point that is no scalar value, composing text without composing, a forward motion
  or surrounding deletion when the selection has left the composing range, and surrounding deletions over several code
  points in text with surrogates.
\<close>

theorem text_model_stays_well_formed:
  "\<exists>m. run_ops tm_step TextInputModel xs = Inr m \<and> wf16 (tm_text m) \<and>
     list_all (boundary (tm_text m)) [base (selection m), extent (selection m)] \<and>
     range_end (selection m) \<le> length (tm_text m) \<and> wf16 (take (extent (selection m)) (tm_text m)) \<and>
     (composing m \<longrightarrow> list_all (boundary (tm_text m)) [base (composing_range m), extent (composing_range m)] \<and>
        range_end (composing_range m) \<le> length (tm_text m))"
proof -
  obtain m where m: "run_ops tm_step TextInputModel xs = Inr m" "tm_ok m"
    using tm.run_total [OF tm_ok_init] by blast
  then have "range_ok (tm_text m) (selection m)" "composing m \<longrightarrow> range_ok (tm_text m) (composing_range m)"
    by (simp_all add: tm_ok_def)
  with m range_ok_base [of "tm_text m" "selection m"] range_ok_base [of "tm_text m" "composing_range m"] range_ok_end_le
  show ?thesis by (auto simp: tm_ok_def boundary_def)
qed

theorem text_model_stays_well_formed_witness:
  "\<exists>m. run_ops tm_step TextInputModel [E_Begin, E_Update [0xD83D, 0xDE00]] = Inr m \<and> composing m \<and>
     range_end (composing_range m) \<le> length (tm_text m)"
proof -
  obtain m where m: "run_ops tm_step TextInputModel [E_Begin, E_Update [0xD83D, 0xDE00]] = Inr m"
    "composing m \<longrightarrow> range_end (composing_range m) \<le> length (tm_text m)"
    using text_model_stays_well_formed [of "[E_Begin, E_Update [0xD83D, 0xDE00]]"] by blast
  have "case run_ops tm_step TextInputModel [E_Begin, E_Update [0xD83D, 0xDE00]] of
    Inl e \<Rightarrow> False | Inr m \<Rightarrow> composing m" by code_simp
  with m show ?thesis by simp
qed

text \<open>
  C27: Backspace undoes the insertion of a code point, whether it took one code unit or a surrogate pair:
  with a collapsed selection and no composing, adding any Unicode scalar value and deleting
  backwards restores the model.
\<close>

theorem Backspace_undoes_AddCodePoint:
  assumes "tm_ok m" and "collapsed (selection m)" and "\<not> composing m" and "scalar_value c"
  shows "bindr (AddCodePoint c m) Backspace = Inr (True, m)"
proof -
  let ?s = "encode_code_point c"
  obtain p where sel: "selection m = TextRange_at p" using collapsed_at [OF assms(2)] by blast
  let ?t = "take p (tm_text m) @ ?s @ drop p (tm_text m)"
  have p: "p \<le> length (tm_text m)"
    using assms(1) sel by (simp add: tm_ok_def boundary_le)
  have s: "?s \<noteq> []" "length ?s = units_before (last ?s)"
    using encode_width [OF assms(4)] by (auto simp: units_before_def)
  have add: "AddCodePoint c m = Inr (m\<lparr>tm_text := ?t, selection := TextRange_at (p + length ?s)\<rparr>)"
    using assms(3) p sel
    by (simp add: AddCodePoint_def AddText_def DeleteSelected_def str_replace_def)
  obtain n where n: "length ?s = Suc n" using s(1) by (cases ?s) auto
  have "?t ! (p + length ?s - 1) = last ?s"
    using p s(1) n by (simp add: nth_append last_conv_nth)
  then have before: "str_before ?t (p + length ?s) = Inr (last ?s)"
    using p n by (simp add: str_before_def str_at_def)
  have erase: "str_erase p (length ?s) ?t = Inr (tm_text m)"
    using p by (simp add: str_replace_def)
  have same: "m\<lparr>tm_text := tm_text m, selection := TextRange_at p\<rparr> = m" using sel by (cases m) simp
  have "Backspace (m\<lparr>tm_text := ?t, selection := TextRange_at (p + length ?s)\<rparr>) =
      Inr (True, m\<lparr>tm_text := tm_text m, selection := TextRange_at p\<rparr>)"
    using before erase s(1) assms(3)
    by (simp add: Backspace_def DeleteSelected_def editable_range_def text_range_of_def shrink_composing_def
      Let_def s(2) [symmetric])
  with add same show ?thesis by simp
qed

text \<open>
  An input-method session replaces the selection by the last composing text: beginning to compose,
  updating to any first non-empty text, then to a second, committing and ending leaves the second
  text in the place of the selection, with the cursor behind it and nothing composing.
\<close>

theorem composing_session:
  assumes "tm_ok m" and "s \<noteq> []" and "s' \<noteq> []"
  shows "bindr (UpdateComposingText s (BeginComposing m)) (\<lambda>m1.
     bindr (UpdateComposingText s' m1) (\<lambda>m2. Inr (EndComposing (CommitComposing m2)))) =
   Inr \<lparr>tm_text = take (range_start (selection m)) (tm_text m) @ s' @ drop (range_end (selection m)) (tm_text m),
        selection = TextRange_at (range_start (selection m) + length s'), composing_range = TextRange_at 0,
        composing = False\<rparr>"
proof -
  let ?b = "BeginComposing m"
  define a where "a = range_start (selection m)"
  define A Z where "A = take a (tm_text m)" and "Z = drop (range_end (selection m)) (tm_text m)"
  have ok: "tm_ok ?b" by (rule set_ops_spec(4) [OF assms(1)])
  have sel: "selection ?b = selection m" "tm_text ?b = tm_text m" "composing ?b" by (simp_all add: BeginComposing_def)
  have A: "length A = a"
    using assms(1) by (simp add: tm_ok_def range_ok_def boundary_le A_def a_def)
  obtain b m0 where m0: "DeleteSelected ?b = Inr (b, m0)" "tm_text m0 = A @ Z" "composing m0"
    "range_start (selection m0) = a" "b \<longrightarrow> composing_range m0 = selection m0" "\<not> b \<longrightarrow> m0 = ?b" "collapsed (selection m0)"
    using DeleteSelected_spec [OF ok] sel by (auto simp: A_def Z_def a_def)
  then have c0: "composing_range m0 = TextRange_at a"
    using collapsed_at [OF m0(7)] by (cases b) (auto simp: BeginComposing_def a_def)
  let ?m1 = "m0\<lparr>tm_text := A @ s @ Z, composing_range := TextRange a (a + length s), selection := TextRange_at (a + length s)\<rparr>"
  let ?m2 = "m0\<lparr>tm_text := A @ s' @ Z, composing_range := TextRange a (a + length s'), selection := TextRange_at (a + length s')\<rparr>"
  have "UpdateComposingText s ?b = Inr ?m1"
    using m0(1-3) c0 assms(2) str_replace_append [OF A, of "[]" 0 s Z]
    by (simp add: UpdateComposingText_def range_length_def Let_def)
  moreover have "UpdateComposingText s' ?m1 = Inr ?m2"
    using assms(2,3) str_replace_append [OF A, of s "length s" s' Z]
    by (simp add: UpdateComposingText_def DeleteSelected_def range_length_def Let_def)
  moreover have "EndComposing (CommitComposing ?m2) = \<lparr>tm_text = A @ s' @ Z, selection = TextRange_at (a + length s'),
      composing_range = TextRange_at 0, composing = False\<rparr>"
    using assms(3) by (cases m0) (simp add: EndComposing_def CommitComposing_def Let_def)
  ultimately show ?thesis by (simp add: A_def Z_def a_def)
qed

text \<open>The character A, a smiling face (a surrogate pair) and B.\<close>

definition demo_text :: u16string where
  "demo_text = [0x41, 0xD83D, 0xDE00, 0x42]"

definition demo_model :: "nat \<Rightarrow> text_model" where
  "demo_model p = \<lparr>tm_text = demo_text, selection = TextRange_at p, composing_range = TextRange_at 0, composing = False\<rparr>"

text \<open>
  Deleting two code points after the cursor cuts a surrogate pair in half: \<open>DeleteSurrounding\<close> looks at
  the code unit at the start of the deleted text again for every further code point, and not at the
  one it has reached.
\<close>

theorem DeleteSurrounding_cuts_surrogate_pair:
  "\<exists>m. DeleteSurrounding 0 2 (demo_model 0) = Inr (True, m) \<and> tm_text m = [0xDE00, 0x42] \<and> \<not> wf16 (tm_text m)"
proof -
  have "case DeleteSurrounding 0 2 (demo_model 0) of Inl _ \<Rightarrow> False
    | Inr (b, m) \<Rightarrow> b \<and> tm_text m = [0xDE00, 0x42] \<and> \<not> wf16 (tm_text m)"
    by code_simp
  then show ?thesis by (auto split: sum.splits)
qed

text \<open>
  Asked for one code point that lies outside the text (five before a cursor that has two before it),
  \<open>DeleteSurrounding\<close> deletes two.
\<close>

lemma DeleteSurrounding_deletes_too_much:
  "\<exists>m. DeleteSurrounding (- 5) 1 (TextInputModel\<lparr>tm_text := [0x41, 0x42, 0x43], selection := TextRange_at 2\<rparr>)
     = Inr (True, m) \<and> tm_text m = [0x43]"
proof -
  have "case DeleteSurrounding (- 5) 1 (TextInputModel\<lparr>tm_text := [0x41, 0x42, 0x43], selection := TextRange_at 2\<rparr>) of
      Inl _ \<Rightarrow> False | Inr (b, m) \<Rightarrow> b \<and> tm_text m = [0x43]"
    by code_simp
  then show ?thesis by (auto split: sum.splits)
qed

text \<open>
  \<open>SetText\<close> with a selection beyond the text returns false but has replaced the text, so the old
  selection points behind it and the next edit throws \<open>std::out_of_range\<close>; and
  \<open>SetComposingRange\<close> does not check its cursor offset.
\<close>

lemma SetText_failure_then_exception:
  "let (ok, m) = SetText [0x41] (TextRange_at 2) (TextRange_at 0) (demo_model 4)
   in \<not> ok \<and> tm_text m = [0x41] \<and> AddText [0x42] m = Inl Out_Of_Range"
  by (simp add: SetText_def demo_model_def text_range_of_def Contains_def AddText_def DeleteSelected_def
    str_replace_def)

lemma SetComposingRange_unchecked_offset:
  "fst (SetComposingRange (TextRange_at 1) 9 (BeginComposing (demo_model 0)))"
  by (simp add: SetComposingRange_def BeginComposing_def demo_model_def text_range_of_def Contains_def demo_text_def)

lemma demo_model_ok: "tm_ok (demo_model 1)"
  by code_simp

theorem Backspace_undoes_AddCodePoint_witness:
  "bindr (AddCodePoint 0x1F600 (demo_model 1)) Backspace = Inr (True, demo_model 1) \<and>
     encode_code_point 0x1F600 = [0xD83D, 0xDE00]"
proof -
  have "scalar_value 0x1F600"
    by (simp add: scalar_value_def IsLeadingSurrogate_def IsTrailingSurrogate_def)
  moreover have "collapsed (selection (demo_model 1))" "\<not> composing (demo_model 1)" by (simp_all add: demo_model_def)
  ultimately have "bindr (AddCodePoint 0x1F600 (demo_model 1)) Backspace = Inr (True, demo_model 1)"
    using Backspace_undoes_AddCodePoint [OF demo_model_ok] by blast
  moreover have "encode_code_point 0x1F600 = [0xD83D, 0xDE00]" by code_simp
  ultimately show ?thesis by blast
qed

theorem composing_session_witness:
  "\<exists>m. bindr (UpdateComposingText [0x43] (BeginComposing (demo_model 1))) (\<lambda>m1.
     bindr (UpdateComposingText [0x44, 0x45] m1) (\<lambda>m2. Inr (EndComposing (CommitComposing m2)))) = Inr m \<and>
     tm_text m = [0x41, 0x44, 0x45, 0xD83D, 0xDE00, 0x42] \<and> extent (selection m) = 3"
  using composing_session [OF demo_model_ok, of "[0x43]" "[0x44, 0x45]"]
  by (simp add: demo_model_def demo_text_def)

end
