(* ===== verification/Codec_Streams.thy ===== *)
theory Codec_Streams
  imports Prelude
begin

text \<open>
  \<open>client_wrapper/byte_streams\<close> and \<open>byte_buffer_streams\<close>: the reader over a byte array and the writer that
  appends to one. Integers are written as they lie in memory, on a little-endian host; a
  \<open>double\<close> and a \<open>float\<close> are their bits.
\<close>

type_synonym byte = "8 word"

section \<open>Little-endian integers\<close>

fun to_le :: "nat \<Rightarrow> nat \<Rightarrow> byte list" where
  "to_le 0 x = []"
| "to_le (Suc n) x = word_of_nat x # to_le n (x div 256)"

fun from_le :: "byte list \<Rightarrow> nat" where
  "from_le [] = 0"
| "from_le (b # bs) = unat b + 256 * from_le bs"

lemma length_to_le [simp]: "length (to_le n x) = n"
  by (induction n x rule: to_le.induct) simp_all

lemma unat_byte: "unat (word_of_nat x :: byte) = x mod 256"
  by (simp add: unsigned_of_nat take_bit_eq_mod)

lemma from_to_le: "x < 256 ^ n \<Longrightarrow> from_le (to_le n x) = x"
proof (induction n x rule: to_le.induct)
  case (2 n x)
  then have "x div 256 < 256 ^ n" by (simp add: less_mult_imp_div_less mult.commute)
  with 2 show ?case by (simp add: unat_byte)
qed simp

section \<open>The reader\<close>

(* map: shell/platform/common/client_wrapper/byte_buffer_streams.h 56 61 ByteBufferStreamReader *)
record reader =
  bytes :: "byte list"
  location :: nat

(* map: shell/platform/common/client_wrapper/byte_buffer_streams.h 23 24 ByteBufferStreamReader::ByteBufferStreamReader *)
definition ByteBufferStreamReader :: "byte list \<Rightarrow> reader" where
  "ByteBufferStreamReader bs = \<lparr>bytes = bs, location = 0\<rparr>"

(* map: shell/platform/common/client_wrapper/byte_buffer_streams.h 29 35 ByteBufferStreamReader::ReadByte *)
definition ReadByte :: "reader \<Rightarrow> byte \<times> reader" where
  "ReadByte s = (if length (bytes s) \<le> location s then (0, s)
                 else (bytes s ! location s, s\<lparr>location := location s + 1\<rparr>))"

text \<open>A failed read leaves the buffer as it was: \<open>dflt\<close>.\<close>

(* map: shell/platform/common/client_wrapper/byte_buffer_streams.h 38 45 ByteBufferStreamReader::ReadBytes *)
definition ReadBytes :: "byte list \<Rightarrow> reader \<Rightarrow> byte list \<times> reader" where
  "ReadBytes dflt s =
     (let n = length dflt in
      if length (bytes s) < location s + n then (dflt, s)
      else (take n (drop (location s) (bytes s)), s\<lparr>location := location s + n\<rparr>))"

(* map: shell/platform/common/client_wrapper/byte_buffer_streams.h 48 53 ByteBufferStreamReader::ReadAlignment *)
definition ReadAlignment :: "nat \<Rightarrow> reader \<Rightarrow> reader" where
  "ReadAlignment alignment s =
     (let md = location s mod alignment in
      if md \<noteq> 0 then s\<lparr>location := location s + (alignment - md)\<rparr> else s)"

definition read_le :: "nat \<Rightarrow> reader \<Rightarrow> nat \<times> reader" where
  "read_le n s = (let (bs, s') = ReadBytes (replicate n 0) s in (from_le bs, s'))"

(* map: shell/platform/common/client_wrapper/include/flutter/byte_streams.h fn int32_t ReadInt32( *)
definition ReadInt32 :: "reader \<Rightarrow> 32 word \<times> reader" where
  "ReadInt32 s = apfst word_of_nat (read_le 4 s)"

(* map: shell/platform/common/client_wrapper/include/flutter/byte_streams.h fn int64_t ReadInt64( *)
definition ReadInt64 :: "reader \<Rightarrow> 64 word \<times> reader" where
  "ReadInt64 s = apfst word_of_nat (read_le 8 s)"

(* map: shell/platform/common/client_wrapper/include/flutter/byte_streams.h fn double ReadDouble( *)
definition ReadDouble :: "reader \<Rightarrow> 64 word \<times> reader" where
  "ReadDouble s = apfst word_of_nat (read_le 8 s)"

section \<open>The writer\<close>

text \<open>The buffer grows at its end. \<open>WriteBytes\<close> asserts that there is something to write.\<close>

(* map: shell/platform/common/client_wrapper/byte_buffer_streams.h 77 77 ByteBufferStreamWriter::WriteByte *)
definition WriteByte :: "byte \<Rightarrow> byte list \<Rightarrow> byte list" where
  "WriteByte b buf = buf @ [b]"

(* map: shell/platform/common/client_wrapper/byte_buffer_streams.h 80 83 ByteBufferStreamWriter::WriteBytes *)
definition WriteBytes :: "byte list \<Rightarrow> byte list \<Rightarrow> byte list res" where
  "WriteBytes bs buf = bindr (ensure DCheck_Failed (length bs > 0)) (\<lambda>_. Inr (buf @ bs))"

(* map: shell/platform/common/client_wrapper/byte_buffer_streams.h 86 93 ByteBufferStreamWriter::WriteAlignment *)
definition WriteAlignment :: "nat \<Rightarrow> byte list \<Rightarrow> byte list" where
  "WriteAlignment alignment buf =
     (let md = length buf mod alignment in
      if md \<noteq> 0 then buf @ replicate (alignment - md) 0 else buf)"

(* map: shell/platform/common/client_wrapper/include/flutter/byte_streams.h fn void WriteInt32( *)
definition WriteInt32 :: "32 word \<Rightarrow> byte list \<Rightarrow> byte list res" where
  "WriteInt32 w = WriteBytes (to_le 4 (unat w))"

(* map: shell/platform/common/client_wrapper/include/flutter/byte_streams.h fn void WriteInt64( *)
definition WriteInt64 :: "64 word \<Rightarrow> byte list \<Rightarrow> byte list res" where
  "WriteInt64 w = WriteBytes (to_le 8 (unat w))"

(* map: shell/platform/common/client_wrapper/include/flutter/byte_streams.h fn void WriteDouble( *)
definition WriteDouble :: "64 word \<Rightarrow> byte list \<Rightarrow> byte list res" where
  "WriteDouble w = WriteBytes (to_le 8 (unat w))"

section \<open>Reading back what was written\<close>

text \<open>
  \<open>at_end buf rest\<close>: a reader that has come to the end of \<open>buf\<close>, with \<open>rest\<close> still to read.
\<close>

definition at_end :: "byte list \<Rightarrow> byte list \<Rightarrow> reader" where
  "at_end buf rest = \<lparr>bytes = buf @ rest, location = length buf\<rparr>"

lemma ReadByte_at_end: "ReadByte (at_end buf (b # rest)) = (b, at_end (buf @ [b]) rest)"
  by (simp add: ReadByte_def at_end_def)

lemma ReadBytes_at_end:
  "length dflt = length bs \<Longrightarrow> ReadBytes dflt (at_end buf (bs @ rest)) = (bs, at_end (buf @ bs) rest)"
  by (simp add: ReadBytes_def at_end_def Let_def)

lemma read_le_at_end:
  "x < 256 ^ n \<Longrightarrow> read_le n (at_end buf (to_le n x @ rest)) = (x, at_end (buf @ to_le n x) rest)"
  by (simp add: read_le_def ReadBytes_at_end from_to_le)

lemma word_lt: "unat (w :: 32 word) < 256 ^ 4" "unat (v :: 64 word) < 256 ^ 8"
proof -
  have "unat w < 2 ^ LENGTH(32)" "unat v < 2 ^ LENGTH(64)" by (rule unsigned_less)+
  then show "unat w < 256 ^ 4" "unat v < 256 ^ 8" by simp_all
qed

lemma ReadInt_at_end:
  "ReadInt32 (at_end buf (to_le 4 (unat w) @ rest)) = (w, at_end (buf @ to_le 4 (unat w)) rest)"
  "ReadInt64 (at_end buf (to_le 8 (unat v) @ rest)) = (v, at_end (buf @ to_le 8 (unat v)) rest)"
  "ReadDouble (at_end buf (to_le 8 (unat v) @ rest)) = (v, at_end (buf @ to_le 8 (unat v)) rest)"
  by (simp_all add: ReadInt32_def ReadInt64_def ReadDouble_def read_le_at_end [OF word_lt(1)]
    read_le_at_end [OF word_lt(2)])

definition padding :: "nat \<Rightarrow> nat \<Rightarrow> byte list" where
  "padding alignment n = (if n mod alignment = 0 then [] else replicate (alignment - n mod alignment) 0)"

lemma WriteAlignment_eq: "WriteAlignment a buf = buf @ padding a (length buf)"
  by (simp add: WriteAlignment_def padding_def Let_def)

lemma ReadAlignment_at_end:
  "ReadAlignment a (at_end buf (padding a (length buf) @ rest)) = at_end (buf @ padding a (length buf)) rest"
  by (simp add: ReadAlignment_def at_end_def padding_def Let_def)

text \<open>Reading never goes back and never changes the array.\<close>

definition later :: "reader \<Rightarrow> reader \<Rightarrow> bool" where
  "later s s' \<longleftrightarrow> bytes s' = bytes s \<and> location s \<le> location s'"

lemma later_refl [simp]: "later s s"
  by (simp add: later_def)

lemma later_trans: "later s s1 \<Longrightarrow> later s1 s2 \<Longrightarrow> later s s2"
  by (simp add: later_def)

lemma read_later:
  "later s (snd (ReadByte s))" "later s (snd (ReadBytes d s))" "later s (ReadAlignment a s)"
  "later s (snd (read_le n s))" "later s (snd (ReadInt32 s))" "later s (snd (ReadInt64 s))" "later s (snd (ReadDouble s))"
proof -
  show b: "later s (snd (ReadBytes d s))" for d by (simp add: later_def ReadBytes_def Let_def)
  show le: "later s (snd (read_le n s))" for n using b [of "replicate n 0"] by (simp add: read_le_def split_beta)
  show "later s (snd (ReadInt32 s))" "later s (snd (ReadInt64 s))" "later s (snd (ReadDouble s))"
    by (simp_all add: ReadInt32_def ReadInt64_def ReadDouble_def le)
qed (simp_all add: later_def ReadByte_def ReadAlignment_def Let_def)

end
