(* ===== verification/Codec_Standard.thy ===== *)
theory Codec_Standard
  imports Codec_Streams Ieee_Double
begin

text \<open>
  \<open>client_wrapper/encodable_value.h\<close> and the serializer of \<open>client_wrapper/standard_codec.cc\<close>: the values
  exchanged on platform channels and their binary encoding. A map is the sorted list of its entries.
  The recursion of the reader carries fuel, its depth; \<open>read_value_total\<close> shows that the number of bytes
  left, plus one, is always enough.
\<close>

section \<open>Values\<close>

text \<open>The alternatives of the variant, in its order. Floats are bits; a custom value is its address.\<close>

(* map: shell/platform/common/client_wrapper/include/flutter/encodable_value.h 101 114 EncodableValueVariant *)
datatype encodable_value =
    V_Null
  | V_Bool bool
  | V_Int32 "32 word"
  | V_Int64 "64 word"
  | V_Double "64 word"
  | V_String "byte list"
  | V_UInt8List "byte list"
  | V_Int32List "32 word list"
  | V_Int64List "64 word list"
  | V_Float64List "64 word list"
  | V_List "encodable_value list"
  | V_Map "(encodable_value \<times> encodable_value) list"
  | V_Custom nat
  | V_Float32List "32 word list"

fun variant_index :: "encodable_value \<Rightarrow> nat" where
  "variant_index V_Null = 0"
| "variant_index (V_Bool _) = 1"
| "variant_index (V_Int32 _) = 2"
| "variant_index (V_Int64 _) = 3"
| "variant_index (V_Double _) = 4"
| "variant_index (V_String _) = 5"
| "variant_index (V_UInt8List _) = 6"
| "variant_index (V_Int32List _) = 7"
| "variant_index (V_Int64List _) = 8"
| "variant_index (V_Float64List _) = 9"
| "variant_index (V_List _) = 10"
| "variant_index (V_Map _) = 11"
| "variant_index (V_Custom _) = 12"
| "variant_index (V_Float32List _) = 13"

text \<open>The comparison that orders the keys of a map: that of \<open>std::variant\<close> and \<open>std::vector\<close>.\<close>

fun vec_less :: "('a \<Rightarrow> 'a \<Rightarrow> bool) \<Rightarrow> 'a list \<Rightarrow> 'a list \<Rightarrow> bool" where
  "vec_less lt [] [] = False"
| "vec_less lt [] (y # ys) = True"
| "vec_less lt (x # xs) [] = False"
| "vec_less lt (x # xs) (y # ys) = (lt x y \<or> \<not> lt y x \<and> vec_less lt xs ys)"

lemma vec_less_cong [fundef_cong]:
  "xs = xs' \<Longrightarrow> ys = ys' \<Longrightarrow>
     (\<And>x y. x \<in> set xs' \<Longrightarrow> y \<in> set ys' \<Longrightarrow> lt x y = lt' x y) \<Longrightarrow>
     (\<And>x y. x \<in> set xs' \<Longrightarrow> y \<in> set ys' \<Longrightarrow> lt y x = lt' y x) \<Longrightarrow>
     vec_less lt xs ys = vec_less lt' xs' ys'"
  by (induction lt xs ys arbitrary: xs' ys' rule: vec_less.induct) auto

lemma size_entry: "p \<in> set m \<Longrightarrow> size (fst p) < size (V_Map m) \<and> size (snd p) < size (V_Map m)"
  using size_list_estimation' [of p m "size_prod size size p" "size_prod size size"] by (cases p) simp

lemma size_item: "x \<in> set xs \<Longrightarrow> size x < size (V_List xs)"
  using size_list_estimation' [of x xs "size x" size] by simp

function ev_less :: "encodable_value \<Rightarrow> encodable_value \<Rightarrow> bool" where
  "ev_less a b =
     (if variant_index a \<noteq> variant_index b then variant_index a < variant_index b
      else case (a, b) of
        (V_Bool x, V_Bool y) \<Rightarrow> \<not> x \<and> y
      | (V_Int32 x, V_Int32 y) \<Rightarrow> sint x < sint y
      | (V_Int64 x, V_Int64 y) \<Rightarrow> sint x < sint y
      | (V_Double x, V_Double y) \<Rightarrow> double_less x y
      | (V_String x, V_String y) \<Rightarrow> vec_less (<) x y
      | (V_UInt8List x, V_UInt8List y) \<Rightarrow> vec_less (<) x y
      | (V_Int32List x, V_Int32List y) \<Rightarrow> vec_less (\<lambda>u v. sint u < sint v) x y
      | (V_Int64List x, V_Int64List y) \<Rightarrow> vec_less (\<lambda>u v. sint u < sint v) x y
      | (V_Float64List x, V_Float64List y) \<Rightarrow> vec_less double_less x y
      | (V_List x, V_List y) \<Rightarrow> vec_less ev_less x y
      | (V_Map x, V_Map y) \<Rightarrow>
          vec_less (\<lambda>p q. ev_less (fst p) (fst q) \<or> \<not> ev_less (fst q) (fst p) \<and> ev_less (snd p) (snd q)) x y
      | (V_Custom x, V_Custom y) \<Rightarrow> x < y
      | (V_Float32List x, V_Float32List y) \<Rightarrow> vec_less float_less x y
      | _ \<Rightarrow> False)"
  by pat_completeness auto
termination
proof (relation "measure (\<lambda>(a, b). size a + size b)", goal_cases)
  case 1
  then show ?case by simp
qed (auto dest!: size_item size_entry simp del: encodable_value.size)

declare ev_less.simps [simp del]

text \<open>\<open>EncodableMap::emplace\<close>: nothing happens when an equivalent key is there.\<close>

fun emplace :: "encodable_value \<Rightarrow> encodable_value \<Rightarrow> (encodable_value \<times> encodable_value) list
    \<Rightarrow> (encodable_value \<times> encodable_value) list" where
  "emplace k v [] = [(k, v)]"
| "emplace k v ((k', v') # m) =
     (if ev_less k k' then (k, v) # (k', v') # m
      else if ev_less k' k then (k', v') # emplace k v m
      else (k', v') # m)"

section \<open>Types\<close>

(* map: shell/platform/common/client_wrapper/standard_codec.cc 29 45 EncodedType *)
datatype encoded_type =
    kNull | kTrue | kFalse | kInt32 | kInt64 | kLargeInt | kFloat64 | kString | kUInt8List | kInt32List
  | kInt64List | kFloat64List | kList | kMap | kFloat32List

definition encoded_types :: "encoded_type list" where
  "encoded_types = [kNull, kTrue, kFalse, kInt32, kInt64, kLargeInt, kFloat64, kString, kUInt8List, kInt32List,
     kInt64List, kFloat64List, kList, kMap, kFloat32List]"

fun type_code :: "encoded_type \<Rightarrow> byte" where
  "type_code kNull = 0"
| "type_code kTrue = 1"
| "type_code kFalse = 2"
| "type_code kInt32 = 3"
| "type_code kInt64 = 4"
| "type_code kLargeInt = 5"
| "type_code kFloat64 = 6"
| "type_code kString = 7"
| "type_code kUInt8List = 8"
| "type_code kInt32List = 9"
| "type_code kInt64List = 10"
| "type_code kFloat64List = 11"
| "type_code kList = 12"
| "type_code kMap = 13"
| "type_code kFloat32List = 14"

definition type_of_code :: "byte \<Rightarrow> encoded_type option" where
  "type_of_code b = (if unat b < 15 then Some (encoded_types ! unat b) else None)"

lemma type_of_type_code [simp]: "type_of_code (type_code t) = Some t"
  by (cases t) (simp_all add: type_of_code_def encoded_types_def)

text \<open>A custom value fails the assertion.\<close>

(* map: shell/platform/common/client_wrapper/standard_codec.cc 48 80 EncodedTypeForValue *)
fun EncodedTypeForValue :: "encodable_value \<Rightarrow> encoded_type res" where
  "EncodedTypeForValue V_Null = Inr kNull"
| "EncodedTypeForValue (V_Bool b) = Inr (if b then kTrue else kFalse)"
| "EncodedTypeForValue (V_Int32 _) = Inr kInt32"
| "EncodedTypeForValue (V_Int64 _) = Inr kInt64"
| "EncodedTypeForValue (V_Double _) = Inr kFloat64"
| "EncodedTypeForValue (V_String _) = Inr kString"
| "EncodedTypeForValue (V_UInt8List _) = Inr kUInt8List"
| "EncodedTypeForValue (V_Int32List _) = Inr kInt32List"
| "EncodedTypeForValue (V_Int64List _) = Inr kInt64List"
| "EncodedTypeForValue (V_Float64List _) = Inr kFloat64List"
| "EncodedTypeForValue (V_List _) = Inr kList"
| "EncodedTypeForValue (V_Map _) = Inr kMap"
| "EncodedTypeForValue (V_Custom _) = Inl DCheck_Failed"
| "EncodedTypeForValue (V_Float32List _) = Inr kFloat32List"

section \<open>Sizes and vectors\<close>

(* map: shell/platform/common/client_wrapper/standard_codec.cc 244 257 StandardCodecSerializer::WriteSize *)
definition WriteSize :: "nat \<Rightarrow> byte list \<Rightarrow> byte list res" where
  "WriteSize n buf =
     (if n < 254 then Inr (WriteByte (word_of_nat n) buf)
      else if n \<le> 0xffff then WriteBytes (to_le 2 n) (WriteByte 254 buf)
      else WriteBytes (to_le 4 (n mod 2 ^ 32)) (WriteByte 255 buf))"

(* map: shell/platform/common/client_wrapper/standard_codec.cc 229 242 StandardCodecSerializer::ReadSize *)
definition ReadSize :: "reader \<Rightarrow> nat \<times> reader" where
  "ReadSize s =
     (let (b, s1) = ReadByte s in
      if b < 254 then (unat b, s1) else if b = 254 then read_le 2 s1 else read_le 4 s1)"

text \<open>The elements of a vector of \<open>sz\<close>-byte elements as naturals.\<close>

fun chunks :: "nat \<Rightarrow> nat \<Rightarrow> byte list \<Rightarrow> nat list" where
  "chunks sz 0 bs = []"
| "chunks sz (Suc n) bs = from_le (take sz bs) # chunks sz n (drop sz bs)"

(* map: shell/platform/common/client_wrapper/standard_codec.cc 274 288 StandardCodecSerializer::WriteVector *)
definition WriteVector :: "nat \<Rightarrow> nat list \<Rightarrow> byte list \<Rightarrow> byte list res" where
  "WriteVector type_size v buf =
     bindr (WriteSize (length v) buf) (\<lambda>buf1.
       if length v = 0 then Inr buf1
       else WriteBytes (concat (map (to_le type_size) v))
              (if type_size > 1 then WriteAlignment type_size buf1 else buf1))"

(* map: shell/platform/common/client_wrapper/standard_codec.cc 259 272 StandardCodecSerializer::ReadVector *)
definition ReadVector :: "nat \<Rightarrow> reader \<Rightarrow> nat list \<times> reader" where
  "ReadVector type_size s =
     (let (n, s1) = ReadSize s;
          s2 = (if type_size > 1 then ReadAlignment type_size s1 else s1);
          (bs, s3) = ReadBytes (replicate (n * type_size) 0) s2
      in (chunks type_size n bs, s3))"

section \<open>The serializer\<close>

definition write_type :: "encodable_value \<Rightarrow> byte list \<Rightarrow> byte list res" where
  "write_type v buf = bindr (EncodedTypeForValue v) (\<lambda>t. Inr (WriteByte (type_code t) buf))"

(* map: shell/platform/common/client_wrapper/standard_codec.cc 98 165 StandardCodecSerializer::WriteValue *)
function (sequential) WriteValue :: "encodable_value \<Rightarrow> byte list \<Rightarrow> byte list res"
  and WriteItems :: "encodable_value list \<Rightarrow> byte list \<Rightarrow> byte list res"
  and WriteEntries :: "(encodable_value \<times> encodable_value) list \<Rightarrow> byte list \<Rightarrow> byte list res" where
  "WriteValue (V_Int32 w) buf = bindr (write_type (V_Int32 w) buf) (WriteInt32 w)"
| "WriteValue (V_Int64 w) buf = bindr (write_type (V_Int64 w) buf) (WriteInt64 w)"
| "WriteValue (V_Double w) buf =
     bindr (write_type (V_Double w) buf) (\<lambda>b. WriteDouble w (WriteAlignment 8 b))"
| "WriteValue (V_String str) buf =
     bindr (write_type (V_String str) buf) (\<lambda>b.
     bindr (WriteSize (length str) b) (\<lambda>b1. if length str > 0 then WriteBytes str b1 else Inr b1))"
| "WriteValue (V_UInt8List v) buf = bindr (write_type (V_UInt8List v) buf) (WriteVector 1 (map unat v))"
| "WriteValue (V_Int32List v) buf = bindr (write_type (V_Int32List v) buf) (WriteVector 4 (map unat v))"
| "WriteValue (V_Int64List v) buf = bindr (write_type (V_Int64List v) buf) (WriteVector 8 (map unat v))"
| "WriteValue (V_Float64List v) buf = bindr (write_type (V_Float64List v) buf) (WriteVector 8 (map unat v))"
| "WriteValue (V_Float32List v) buf = bindr (write_type (V_Float32List v) buf) (WriteVector 4 (map unat v))"
| "WriteValue (V_List vs) buf =
     bindr (write_type (V_List vs) buf) (\<lambda>b. bindr (WriteSize (length vs) b) (WriteItems vs))"
| "WriteValue (V_Map m) buf =
     bindr (write_type (V_Map m) buf) (\<lambda>b. bindr (WriteSize (length m) b) (WriteEntries m))"
| "WriteValue v buf = write_type v buf"
| "WriteItems [] buf = Inr buf"
| "WriteItems (v # vs) buf = bindr (WriteValue v buf) (WriteItems vs)"
| "WriteEntries [] buf = Inr buf"
| "WriteEntries ((k, v) # m) buf = bindr (WriteValue k buf) (\<lambda>b. bindr (WriteValue v b) (WriteEntries m))"
  by pat_completeness auto
termination
  by (relation "measure (case_sum (\<lambda>(v, b). size v) (case_sum (\<lambda>(vs, b). size_list size vs)
    (\<lambda>(m, b). size_list (size_prod size size) m)))") simp_all

text \<open>The loops that read the items of a list and the entries of a map with a given reader of values.\<close>

type_synonym value_reader = "reader \<Rightarrow> (encodable_value \<times> reader) option"

fun read_items :: "value_reader \<Rightarrow> nat \<Rightarrow> reader \<Rightarrow> (encodable_value list \<times> reader) option" where
  "read_items rd 0 s = Some ([], s)"
| "read_items rd (Suc n) s =
     Option.bind (rd s) (\<lambda>(v, s1). Option.bind (read_items rd n s1) (\<lambda>(vs, s2). Some (v # vs, s2)))"

fun read_entries :: "value_reader \<Rightarrow> nat \<Rightarrow> (encodable_value \<times> encodable_value) list \<Rightarrow> reader
    \<Rightarrow> ((encodable_value \<times> encodable_value) list \<times> reader) option" where
  "read_entries rd 0 m s = Some (m, s)"
| "read_entries rd (Suc n) m s =
     Option.bind (rd s) (\<lambda>(k, s1). Option.bind (rd s1) (\<lambda>(v, s2). read_entries rd n (emplace k v m) s2))"

(* map: shell/platform/common/client_wrapper/standard_codec.cc 168 227 StandardCodecSerializer::ReadValueOfType *)
definition ReadValueOfType :: "value_reader \<Rightarrow> byte \<Rightarrow> value_reader" where
  "ReadValueOfType rd ty s =
     (case type_of_code ty of
        None \<Rightarrow> Some (V_Null, s)
      | Some t \<Rightarrow>
          (case t of
             kNull \<Rightarrow> Some (V_Null, s)
           | kTrue \<Rightarrow> Some (V_Bool True, s)
           | kFalse \<Rightarrow> Some (V_Bool False, s)
           | kInt32 \<Rightarrow> Some (apfst V_Int32 (ReadInt32 s))
           | kInt64 \<Rightarrow> Some (apfst V_Int64 (ReadInt64 s))
           | kFloat64 \<Rightarrow> Some (apfst V_Double (ReadDouble (ReadAlignment 8 s)))
           | kLargeInt \<Rightarrow> let (n, s1) = ReadSize s in Some (apfst V_String (ReadBytes (replicate n 0) s1))
           | kString \<Rightarrow> let (n, s1) = ReadSize s in Some (apfst V_String (ReadBytes (replicate n 0) s1))
           | kUInt8List \<Rightarrow> Some (apfst (\<lambda>v. V_UInt8List (map word_of_nat v)) (ReadVector 1 s))
           | kInt32List \<Rightarrow> Some (apfst (\<lambda>v. V_Int32List (map word_of_nat v)) (ReadVector 4 s))
           | kInt64List \<Rightarrow> Some (apfst (\<lambda>v. V_Int64List (map word_of_nat v)) (ReadVector 8 s))
           | kFloat64List \<Rightarrow> Some (apfst (\<lambda>v. V_Float64List (map word_of_nat v)) (ReadVector 8 s))
           | kFloat32List \<Rightarrow> Some (apfst (\<lambda>v. V_Float32List (map word_of_nat v)) (ReadVector 4 s))
           | kList \<Rightarrow> let (n, s1) = ReadSize s in map_option (apfst V_List) (read_items rd n s1)
           | kMap \<Rightarrow> let (n, s1) = ReadSize s in map_option (apfst V_Map) (read_entries rd n [] s1)))"

fun read_value :: "nat \<Rightarrow> value_reader" where
  "read_value 0 s = None"
| "read_value (Suc fuel) s = (let (t, s1) = ReadByte s in ReadValueOfType (read_value fuel) t s1)"

definition remaining :: "reader \<Rightarrow> nat" where
  "remaining s = length (bytes s) - location s"

(* map: shell/platform/common/client_wrapper/standard_codec.cc 92 96 StandardCodecSerializer::ReadValue *)
definition ReadValue :: "reader \<Rightarrow> encodable_value \<times> reader" where
  "ReadValue s = (case read_value (Suc (remaining s)) s of Some r \<Rightarrow> r | None \<Rightarrow> (V_Null, s))"

lemma read_of_type [simp]:
  "ReadValueOfType rd (type_code kNull) s = Some (V_Null, s)"
  "ReadValueOfType rd (type_code kTrue) s = Some (V_Bool True, s)"
  "ReadValueOfType rd (type_code kFalse) s = Some (V_Bool False, s)"
  "ReadValueOfType rd (type_code kInt32) s = Some (apfst V_Int32 (ReadInt32 s))"
  "ReadValueOfType rd (type_code kInt64) s = Some (apfst V_Int64 (ReadInt64 s))"
  "ReadValueOfType rd (type_code kFloat64) s = Some (apfst V_Double (ReadDouble (ReadAlignment 8 s)))"
  "ReadValueOfType rd (type_code kString) s =
     Some (apfst V_String (ReadBytes (replicate (fst (ReadSize s)) 0) (snd (ReadSize s))))"
  "ReadValueOfType rd (type_code kUInt8List) s = Some (apfst (\<lambda>v. V_UInt8List (map word_of_nat v)) (ReadVector 1 s))"
  "ReadValueOfType rd (type_code kInt32List) s = Some (apfst (\<lambda>v. V_Int32List (map word_of_nat v)) (ReadVector 4 s))"
  "ReadValueOfType rd (type_code kInt64List) s = Some (apfst (\<lambda>v. V_Int64List (map word_of_nat v)) (ReadVector 8 s))"
  "ReadValueOfType rd (type_code kFloat64List) s =
     Some (apfst (\<lambda>v. V_Float64List (map word_of_nat v)) (ReadVector 8 s))"
  "ReadValueOfType rd (type_code kFloat32List) s =
     Some (apfst (\<lambda>v. V_Float32List (map word_of_nat v)) (ReadVector 4 s))"
  "ReadValueOfType rd (type_code kList) s =
     map_option (apfst V_List) (read_items rd (fst (ReadSize s)) (snd (ReadSize s)))"
  "ReadValueOfType rd (type_code kMap) s =
     map_option (apfst V_Map) (read_entries rd (fst (ReadSize s)) [] (snd (ReadSize s)))"
  by (simp_all add: ReadValueOfType_def split_beta Let_def del: type_code.simps)

section \<open>The reader always ends\<close>

lemma later_remaining: "later s s' \<Longrightarrow> remaining s' \<le> remaining s"
  by (auto simp: later_def remaining_def)

lemma ReadSize_later: "later s (snd (ReadSize s))"
proof -
  have "later s (snd (read_le n (snd (ReadByte s))))" for n by (rule later_trans [OF read_later(1) read_later(4)])
  then show ?thesis using read_later(1) by (simp add: ReadSize_def split_beta Let_def)
qed

lemma ReadVector_later: "later s (snd (ReadVector sz s))"
proof -
  define s2 where "s2 = (if sz > 1 then ReadAlignment sz (snd (ReadSize s)) else snd (ReadSize s))"
  have "later s s2" using ReadSize_later later_trans read_later(3) by (simp add: s2_def) blast
  with read_later(2) [of s2] show ?thesis
    by (auto simp: ReadVector_def split_beta Let_def s2_def intro: later_trans)
qed

definition reads_on :: "nat \<Rightarrow> (reader \<Rightarrow> ('a \<times> reader) option) \<Rightarrow> bool" where
  "reads_on n f \<longleftrightarrow> (\<forall>s. remaining s < n \<longrightarrow> (\<exists>x s'. f s = Some (x, s') \<and> later s s'))"

lemma reads_onE:
  assumes "reads_on n f" "remaining s < n"
  obtains x s' where "f s = Some (x, s')" "later s s'" "remaining s' < n"
  using assms later_remaining unfolding reads_on_def by (meson le_less_trans)

lemma read_items_ends: "reads_on n rd \<Longrightarrow> remaining s < n \<Longrightarrow> \<exists>x s'. read_items rd k s = Some (x, s') \<and> later s s'"
proof (induction k arbitrary: s)
  case (Suc k)
  obtain v s1 where 1: "rd s = Some (v, s1)" "later s s1" "remaining s1 < n" using Suc.prems by (rule reads_onE)
  then obtain vs s2 where "read_items rd k s1 = Some (vs, s2)" "later s1 s2" using Suc by blast
  with 1 show ?case by (auto intro: later_trans)
qed simp

lemma read_entries_ends:
  "reads_on n rd \<Longrightarrow> remaining s < n \<Longrightarrow> \<exists>x s'. read_entries rd k m s = Some (x, s') \<and> later s s'"
proof (induction k arbitrary: s m)
  case (Suc k)
  obtain v s1 where 1: "rd s = Some (v, s1)" "later s s1" "remaining s1 < n" using Suc.prems by (rule reads_onE)
  obtain w s2 where 2: "rd s1 = Some (w, s2)" "later s1 s2" "remaining s2 < n"
    using Suc.prems(1) 1(3) by (rule reads_onE)
  then obtain m' s3 where "read_entries rd k (emplace v w m) s2 = Some (m', s3)" "later s2 s3" using Suc by blast
  with 1 2 show ?case by (auto intro: later_trans)
qed simp

lemma ReadValueOfType_ends:
  assumes "reads_on n rd" "remaining s < n"
  shows "\<exists>x s'. ReadValueOfType rd t s = Some (x, s') \<and> later s s'"
proof (cases "type_of_code t")
  case (Some ty)
  have 1: "\<exists>x s'. apfst h p = (x, s') \<and> later s s'" if "later s (snd p)" for h :: "'z \<Rightarrow> encodable_value" and p
    using that by (cases p) simp
  have r: "remaining (snd (ReadSize s)) < n" using assms(2) later_remaining [OF ReadSize_later] le_less_trans by blast
  have 3: "later s (snd (ReadBytes d (snd (ReadSize s))))" "later s (snd (ReadDouble (ReadAlignment 8 s)))" for d
    using ReadSize_later read_later later_trans by blast+
  obtain vs s1 where items: "read_items rd (fst (ReadSize s)) (snd (ReadSize s)) = Some (vs, s1)" "later s s1"
    using read_items_ends [OF assms(1) r] later_trans [OF ReadSize_later] by blast
  obtain m s2 where entries: "read_entries rd (fst (ReadSize s)) [] (snd (ReadSize s)) = Some (m, s2)" "later s s2"
    using read_entries_ends [OF assms(1) r] later_trans [OF ReadSize_later] by blast
  show ?thesis
    by (cases ty) (simp_all add: Some ReadValueOfType_def split_beta Let_def 1 3 [simplified] ReadVector_later
      ReadVector_later [of s 1, simplified] read_later items entries)
qed (simp add: ReadValueOfType_def)

lemma read_value_ends: "reads_on n (read_value n)"
proof (induction n)
  case (Suc n)
  show ?case unfolding reads_on_def
  proof (intro allI impI)
    fix s assume s: "remaining s < Suc n"
    show "\<exists>x s'. read_value (Suc n) s = Some (x, s') \<and> later s s'"
    proof (cases "length (bytes s) \<le> location s")
      case True
      then have "ReadByte s = (type_code kNull, s)" by (simp add: ReadByte_def)
      then show ?thesis by (simp add: del: type_code.simps)
    next
      case False
      let ?s1 = "snd (ReadByte s)"
      from False s have "remaining ?s1 < n" by (simp add: ReadByte_def remaining_def)
      with ReadValueOfType_ends [OF Suc this, of "fst (ReadByte s)"] read_later(1) [of s]
      show ?thesis by (auto simp: split_beta Let_def intro: later_trans)
    qed
  qed
qed (simp add: reads_on_def)

text \<open>More fuel does not change what is read.\<close>

definition below :: "('s \<Rightarrow> 'a option) \<Rightarrow> ('s \<Rightarrow> 'a option) \<Rightarrow> bool" where
  "below f g \<longleftrightarrow> (\<forall>s r. f s = Some r \<longrightarrow> g s = Some r)"

lemma belowD: "below f g \<Longrightarrow> f s = Some r \<Longrightarrow> g s = Some r"
  by (simp add: below_def)

lemma read_items_below: "below rd rd' \<Longrightarrow> below (read_items rd n) (read_items rd' n)"
proof (induction n)
  case (Suc n)
  then show ?case unfolding below_def read_items.simps by (fastforce simp: bind_eq_Some_conv)
qed (simp add: below_def)

lemma read_entries_below: "below rd rd' \<Longrightarrow> below (read_entries rd n m) (read_entries rd' n m)"
proof (induction n arbitrary: m)
  case (Suc n)
  then show ?case unfolding below_def read_entries.simps by (fastforce simp: bind_eq_Some_conv)
qed (simp add: below_def)

lemma ReadValueOfType_below: "below rd rd' \<Longrightarrow> below (ReadValueOfType rd t) (ReadValueOfType rd' t)"
  using read_items_below [of rd rd'] read_entries_below [of rd rd']
  by (auto simp: below_def ReadValueOfType_def split_beta Let_def split: option.splits encoded_type.splits)

lemma read_value_below: "n \<le> k \<Longrightarrow> below (read_value n) (read_value k)"
proof (induction n arbitrary: k)
  case (Suc n)
  then obtain k' where k: "k = Suc k'" "n \<le> k'" by (cases k) auto
  then show ?case using ReadValueOfType_below [OF Suc.IH [OF k(2)]] by (simp add: below_def split_beta Let_def)
qed (simp add: below_def)

lemma read_value_enough:
  assumes "remaining s < n"
  shows "read_value n s = Some (ReadValue s)"
proof -
  obtain r where r: "read_value (Suc (remaining s)) s = Some r"
    using read_value_ends [of "Suc (remaining s)"] by (auto simp: reads_on_def simp del: read_value.simps)
  then have "ReadValue s = r" by (simp add: ReadValue_def del: read_value.simps)
  with belowD [OF read_value_below r, of n] assms show ?thesis by simp
qed

lemma ReadValue_later: "later s (snd (ReadValue s))"
proof -
  have "remaining s < Suc (remaining s)" by simp
  then obtain x s' where "read_value (Suc (remaining s)) s = Some (x, s')" "later s s'"
    using read_value_ends reads_onE by blast
  then show ?thesis using read_value_enough [of s "Suc (remaining s)"] by (simp del: read_value.simps)
qed

lemma ReadValue_if: "read_value n s = Some r \<Longrightarrow> ReadValue s = r"
  using read_value_enough [of s "max n (Suc (remaining s))"] belowD [OF read_value_below, of n "max n (Suc (remaining s))" s r]
  by simp

text \<open>
  C34: On any array of bytes, malformed or cut short, and at any position of it, reading a value ends, with
  a result that does not depend on the depth allowed once that exceeds the number of bytes left, and the
  stream only moves forward: a value nested in a list or a map costs at least the byte of its type, and a
  read past the end is a null.
\<close>

theorem reading_any_bytes_ends:
  "(\<forall>n. remaining s < n \<longrightarrow> read_value n s = Some (ReadValue s)) \<and> later s (snd (ReadValue s))
   \<and> (remaining s = 0 \<longrightarrow> ReadValue s = (V_Null, s))"
proof (intro conjI allI impI)
  show "read_value n s = Some (ReadValue s)" if "remaining s < n" for n using that by (rule read_value_enough)
  show "later s (snd (ReadValue s))" by (rule ReadValue_later)
  assume "remaining s = 0"
  then have "ReadByte s = (type_code kNull, s)" by (simp add: ReadByte_def remaining_def)
  then have "read_value 1 s = Some (V_Null, s)" by (simp del: type_code.simps)
  then show "ReadValue s = (V_Null, s)" by (rule ReadValue_if)
qed

theorem reading_any_bytes_ends_witness:
  "read_value 3 (ByteBufferStreamReader [12, 255]) = Some (V_List [], \<lparr>bytes = [12, 255], location = 2\<rparr>)"
proof -
  have "remaining (ByteBufferStreamReader [12, 255]) < 3" by (simp add: remaining_def ByteBufferStreamReader_def)
  moreover have "ReadValue (ByteBufferStreamReader [12, 255]) = (V_List [], \<lparr>bytes = [12, 255], location = 2\<rparr>)"
    by code_simp
  ultimately show ?thesis using reading_any_bytes_ends [of "ByteBufferStreamReader [12, 255]"] by simp
qed

end
