(* ===== verification/Codec_Roundtrip.thy ===== *)
theory Codec_Roundtrip
  imports Codec_Standard
begin

text \<open>
  What the serializer of \<open>Codec_Standard\<close> promises: a value written is read back, wherever it stands in the
  stream and whatever follows. The exception is the empty vector of elements wider than a byte.
\<close>

section \<open>Reading at the end of what was written\<close>

definition reads :: "(reader \<Rightarrow> ('a \<times> reader) option) \<Rightarrow> byte list \<Rightarrow> byte list \<Rightarrow> 'a \<Rightarrow> bool" where
  "reads f buf buf' x \<longleftrightarrow>
     (\<exists>bs. buf' = buf @ bs \<and> (\<forall>rest. f (at_end buf (bs @ rest)) = Some (x, at_end buf' rest)))"

lemma readsI: "(\<And>rest. f (at_end buf (bs @ rest)) = Some (x, at_end (buf @ bs) rest)) \<Longrightarrow> reads f buf (buf @ bs) x"
  by (auto simp: reads_def)

lemma reads_pure: "reads (\<lambda>s. Some (x, s)) buf buf x"
  by (simp add: reads_def)

lemma reads_bind:
  assumes "reads f buf b1 x" "reads (g x) b1 buf' y"
  shows "reads (\<lambda>s. Option.bind (f s) (\<lambda>(x, t). g x t)) buf buf' y"
proof -
  from assms(1) obtain bs1 where 1: "b1 = buf @ bs1" "\<And>rest. f (at_end buf (bs1 @ rest)) = Some (x, at_end b1 rest)"
    unfolding reads_def by blast
  from assms(2) obtain bs2 where 2: "buf' = b1 @ bs2" "\<And>rest. g x (at_end b1 (bs2 @ rest)) = Some (y, at_end buf' rest)"
    unfolding reads_def by blast
  have "Option.bind (f (at_end buf ((bs1 @ bs2) @ rest))) (\<lambda>(x, t). g x t) = Some (y, at_end buf' rest)" for rest
    using 1(2) [of "bs2 @ rest"] 2(2) [of rest] by simp
  with 1(1) 2(1) show ?thesis unfolding reads_def by (intro exI [of _ "bs1 @ bs2"]) simp
qed

lemma reads_map: "reads f buf buf' x \<Longrightarrow> reads (\<lambda>s. map_option (apfst h) (f s)) buf buf' (h x)"
  unfolding reads_def by (elim ex_forward) simp

lemma reads_cong: "reads f buf buf' x \<Longrightarrow> (\<And>s. f s = g s) \<Longrightarrow> reads g buf buf' x"
  by (simp add: reads_def)

lemma reads_result: "reads f buf buf' x \<Longrightarrow> x = y \<Longrightarrow> reads f buf buf' y"
  by simp

lemma WriteBytes_eq: "WriteBytes bs buf = Inr buf' \<longleftrightarrow> bs \<noteq> [] \<and> buf' = buf @ bs"
  by (auto simp: WriteBytes_def ensure_def)

lemma reads_byte: "reads (\<lambda>s. Some (ReadByte s)) buf (WriteByte b buf) b"
  unfolding WriteByte_def by (rule readsI) (simp add: ReadByte_at_end)

lemma reads_bytes: "length dflt = length bs \<Longrightarrow> reads (\<lambda>s. Some (ReadBytes dflt s)) buf (buf @ bs) bs"
  by (rule readsI) (simp add: ReadBytes_at_end)

lemma reads_le: "x < 256 ^ n \<Longrightarrow> reads (\<lambda>s. Some (read_le n s)) buf (buf @ to_le n x) x"
  by (rule readsI) (simp add: read_le_at_end)

lemma reads_align: "reads (\<lambda>s. Some ((), ReadAlignment a s)) buf (WriteAlignment a buf) ()"
  unfolding WriteAlignment_eq by (rule readsI) (simp add: ReadAlignment_at_end)

lemma unat_small_byte: "n < 256 \<Longrightarrow> unat (word_of_nat n :: byte) = n"
  by (simp add: unat_byte)

lemma reads_size:
  assumes "WriteSize n buf = Inr buf'" "n < 2 ^ 32"
  shows "reads (\<lambda>s. Some (ReadSize s)) buf buf' n"
proof -
  define g where "g b s1 = (if (b :: byte) < 254 then Some (unat b, s1) else if b = 254 then Some (read_le 2 s1)
    else Some (read_le 4 s1))" for b s1
  have *: "reads (\<lambda>s. Some (ReadSize s)) buf buf' n" if "reads (g b) (WriteByte b buf) buf' n" for b
    by (rule reads_cong [OF reads_bind [where g = g, OF reads_byte that]]) (simp add: ReadSize_def g_def split_beta Let_def)
  have g: "g 254 = (\<lambda>s. Some (read_le 2 s))" "g 255 = (\<lambda>s. Some (read_le 4 s))"
    by (intro ext, simp add: g_def)+
  consider (1) "n < 254" | (2) "254 \<le> n" "n < 256 ^ 2" | (4) "256 ^ 2 \<le> n" by force
  then show ?thesis
  proof cases
    case 1
    then have b: "(word_of_nat n :: byte) < 254" by (simp add: word_less_nat_alt unat_byte)
    then have "g (word_of_nat n) = (\<lambda>s. Some (n, s))" using 1 by (intro ext) (simp add: g_def unat_byte)
    with 1 assms(1) have "reads (g (word_of_nat n)) (WriteByte (word_of_nat n) buf) buf' n"
      by (simp add: WriteSize_def reads_pure)
    then show ?thesis by (rule *)
  next
    case 2
    then have "reads (g 254) (WriteByte 254 buf) buf' n"
      using assms(1) reads_le [of n 2 "WriteByte 254 buf"] by (simp add: WriteSize_def g WriteBytes_eq)
    then show ?thesis by (rule *)
  next
    case 4
    then have "reads (g 255) (WriteByte 255 buf) buf' n"
      using assms reads_le [of n 4 "WriteByte 255 buf"] by (simp add: WriteSize_def g WriteBytes_eq)
    then show ?thesis by (rule *)
  qed
qed

lemma to_le_Nil [simp]: "to_le n x = [] \<longleftrightarrow> n = 0"
  by (cases n) simp_all

lemma WriteSize_total: "\<exists>buf'. WriteSize n buf = Inr buf'"
  by (simp add: WriteSize_def WriteBytes_eq to_le_Nil)

lemma chunks_concat: "\<forall>x\<in>set v. x < 256 ^ sz \<Longrightarrow> chunks sz (length v) (concat (map (to_le sz) v)) = v"
  by (induction v) (simp_all add: from_to_le)

lemma length_concat_to_le: "length (concat (map (to_le sz) v)) = length v * sz"
  by (induction v) simp_all

definition align_above :: "nat \<Rightarrow> reader \<Rightarrow> reader" where
  "align_above sz s = (if sz > 1 then ReadAlignment sz s else s)"

lemma reads_align_above:
  "reads (\<lambda>s. Some ((), align_above sz s)) buf (if sz > 1 then WriteAlignment sz buf else buf) ()"
  using reads_align [of sz buf] reads_pure [of "()" buf] by (simp add: align_above_def)

lemma reads_vector:
  assumes "WriteVector sz v buf = Inr buf'" "length v < 2 ^ 32" "\<forall>x\<in>set v. x < 256 ^ sz" "sz \<le> 1 \<or> v \<noteq> []"
  shows "reads (\<lambda>s. Some (ReadVector sz s)) buf buf' v"
proof -
  from assms(1) obtain b1 where b1: "WriteSize (length v) buf = Inr b1"
    and rest: "(if length v = 0 then Inr b1
       else WriteBytes (concat (map (to_le sz) v)) (if sz > 1 then WriteAlignment sz b1 else b1)) = Inr buf'"
    unfolding WriteVector_def bindr_eq_Inr by blast
  define b2 where "b2 = (if sz > 1 then WriteAlignment sz b1 else b1)"
  have buf': "buf' = b2 @ concat (map (to_le sz) v)"
    using rest assms(4) by (auto simp: b2_def WriteBytes_eq split: if_splits)
  have "reads (\<lambda>s. Some (ReadBytes (replicate (length v * sz) 0) s)) b2 buf' (concat (map (to_le sz) v))"
    unfolding buf' by (rule reads_bytes) (simp add: length_concat_to_le)
  note 1 = reads_map [OF this, of "chunks sz (length v)"]
  note 2 = reads_align_above [of sz b1, folded b2_def]
  have "reads (\<lambda>s. Option.bind (Some (ReadSize s)) (\<lambda>(n, t). Option.bind (Some ((), align_above sz t))
    (\<lambda>(u, t). map_option (apfst (chunks sz n)) (Some (ReadBytes (replicate (n * sz) 0) t))))) buf buf'
      (chunks sz (length v) (concat (map (to_le sz) v)))"
    by (rule reads_bind [where g = "\<lambda>n t. Option.bind (Some ((), align_above sz t))
      (\<lambda>(u, t). map_option (apfst (chunks sz n)) (Some (ReadBytes (replicate (n * sz) 0) t)))",
      OF reads_size [OF b1 assms(2)] reads_bind [where g = "\<lambda>u t.
      map_option (apfst (chunks sz (length v))) (Some (ReadBytes (replicate (length v * sz) 0) t))", OF 2 1]])
  then show ?thesis
    by (rule reads_cong [OF reads_result])
      (simp_all add: chunks_concat assms(3) ReadVector_def align_above_def split_beta Let_def apfst_def map_prod_def)
qed

lemma reads_typed_vector:
  assumes "WriteVector sz (map unat (v :: 'a :: len word list)) buf = Inr buf'" "length v < 2 ^ 32"
    "2 ^ LENGTH('a) = (256 :: nat) ^ sz" "sz \<le> 1 \<or> v \<noteq> []"
  shows "reads (\<lambda>s. Some (apfst (\<lambda>xs. h (map word_of_nat xs :: 'a word list)) (ReadVector sz s))) buf buf' (h v)"
proof -
  have "unat x < 256 ^ sz" for x :: "'a word" unfolding assms(3) [symmetric] by (rule unsigned_less)
  then have "\<forall>x\<in>set (map unat v). x < 256 ^ sz" by simp
  then have "reads (\<lambda>s. Some (ReadVector sz s)) buf buf' (map unat v)"
    using assms(2,4) by (intro reads_vector [OF assms(1)]) simp_all
  note * = reads_map [OF this, of "\<lambda>xs. h (map word_of_nat xs :: 'a word list)"]
  have "h (map word_of_nat (map unat v)) = h v" by (simp add: comp_def)
  from reads_cong [OF reads_result [OF * this]] show ?thesis by simp
qed

section \<open>Values the serializer carries\<close>

text \<open>The entries of a \<open>std::map\<close> are in the order of their keys, no two of which are equivalent.\<close>

definition in_order :: "encodable_value list \<Rightarrow> bool" where
  "in_order ks = sorted_wrt (\<lambda>a b. ev_less a b \<and> \<not> ev_less b a) ks"

text \<open>
  A vector of wide elements may not be empty, a size has 32 bits, and a custom value needs an extension.
\<close>

fun carried :: "encodable_value \<Rightarrow> bool" where
  "carried (V_String str) = (length str < 2 ^ 32)"
| "carried (V_UInt8List v) = (length v < 2 ^ 32)"
| "carried (V_Int32List v) = (v \<noteq> [] \<and> length v < 2 ^ 32)"
| "carried (V_Int64List v) = (v \<noteq> [] \<and> length v < 2 ^ 32)"
| "carried (V_Float64List v) = (v \<noteq> [] \<and> length v < 2 ^ 32)"
| "carried (V_Float32List v) = (v \<noteq> [] \<and> length v < 2 ^ 32)"
| "carried (V_List vs) = (length vs < 2 ^ 32 \<and> list_all carried vs)"
| "carried (V_Map m) =
     (length m < 2 ^ 32 \<and> list_all (\<lambda>e. carried (fst e) \<and> carried (snd e)) m \<and> in_order (map fst m))"
| "carried (V_Custom _) = False"
| "carried _ = True"

lemma emplace_last: "in_order (map fst m @ [k]) \<Longrightarrow> emplace k v m = m @ [(k, v)]"
  by (induction k v m rule: emplace.induct) (auto simp: in_order_def)

lemma in_order_prefix: "in_order (xs @ ys) \<Longrightarrow> in_order xs"
  by (simp add: in_order_def sorted_wrt_append)

lemma reads_typed:
  assumes "write_type v buf = Inr b1" "EncodedTypeForValue v = Inr t"
    "reads (ReadValueOfType (read_value n) (type_code t)) b1 buf' v"
  shows "reads (read_value (Suc n)) buf buf' v"
proof -
  from assms(1,2) have b1: "b1 = WriteByte (type_code t) buf" by (simp add: write_type_def)
  from reads_bind [where g = "ReadValueOfType (read_value n)", OF reads_byte assms(3) [unfolded b1]]
  show ?thesis by (rule reads_cong) (simp add: split_beta Let_def)
qed

lemma reads_sized:
  assumes "WriteSize k buf = Inr b1" "k < 2 ^ 32" "reads (f k) b1 buf' x"
  shows "reads (\<lambda>s. f (fst (ReadSize s)) (snd (ReadSize s))) buf buf' x"
  by (rule reads_cong [OF reads_bind [where g = f, OF reads_size [OF assms(1,2)] assms(3)]]) (simp add: split_beta)

lemma reads_string:
  assumes "WriteSize (length str) buf = Inr b1" "length str < 2 ^ 32"
    "(if length str > 0 then WriteBytes str b1 else Inr b1) = Inr buf'"
  shows "reads (\<lambda>s. Some (apfst V_String (ReadBytes (replicate (fst (ReadSize s)) 0) (snd (ReadSize s))))) buf buf'
    (V_String str)"
proof -
  have "buf' = b1 @ str" using assms(3) by (auto simp: WriteBytes_eq split: if_splits)
  then have "reads (\<lambda>s. Some (ReadBytes (replicate (length str) 0) s)) b1 buf' str" by (simp add: reads_bytes)
  from reads_sized [where f = "\<lambda>n s. map_option (apfst V_String) (Some (ReadBytes (replicate n 0) s))",
      OF assms(1,2) reads_map [OF this, of V_String]]
  show ?thesis by simp
qed

lemma reads_double:
  assumes "WriteDouble w (WriteAlignment 8 buf) = Inr buf'"
  shows "reads (\<lambda>s. Some (apfst V_Double (ReadDouble (ReadAlignment 8 s)))) buf buf' (V_Double w)"
proof -
  from assms have "reads (\<lambda>s. Some (ReadDouble s)) (WriteAlignment 8 buf) buf' w"
    by (auto simp: WriteDouble_def WriteBytes_eq ReadInt_at_end intro!: readsI)
  from reads_map [OF reads_bind [where g = "\<lambda>u s. Some (ReadDouble s)", OF reads_align this], of V_Double]
  show ?thesis by simp
qed

lemma reads_int:
  "WriteInt32 w buf = Inr buf' \<Longrightarrow> reads (\<lambda>s. Some (apfst V_Int32 (ReadInt32 s))) buf buf' (V_Int32 w)"
  "WriteInt64 v buf = Inr buf' \<Longrightarrow> reads (\<lambda>s. Some (apfst V_Int64 (ReadInt64 s))) buf buf' (V_Int64 v)"
  by (auto simp: WriteInt32_def WriteInt64_def WriteBytes_eq ReadInt_at_end intro!: readsI)

text \<open>One lemma per shape of the recursion: a leaf, a list, a map, an item, an entry.\<close>

lemma leaf_read_back:
  assumes "WriteValue v buf = Inr buf'" "carried v" "\<And>vs. v \<noteq> V_List vs" "\<And>m. v \<noteq> V_Map m"
  shows "reads (read_value (Suc n)) buf buf' v"
proof -
  from assms(2) obtain t where t: "EncodedTypeForValue v = Inr t" by (cases v) auto
  have "reads (ReadValueOfType (read_value n) (type_code t)) (WriteByte (type_code t) buf) buf' v"
    using assms t
    by (cases v) (auto simp: write_type_def bindr_eq_Inr read_of_type [abs_def] reads_pure reads_int reads_double
      reads_string reads_typed_vector simp del: type_code.simps split: bool.splits)
  with t show ?thesis by (intro reads_typed) (simp_all add: write_type_def)
qed

lemma reads_items_Cons:
  "reads rd buf b1 v \<Longrightarrow> reads (read_items rd n) b1 buf' vs \<Longrightarrow> reads (read_items rd (Suc n)) buf buf' (v # vs)"
  by (rule reads_cong [OF reads_bind [where g = "\<lambda>v s. map_option (apfst ((#) v)) (read_items rd n s)",
    OF _ reads_map [where h = "(#) v"]]])
    (auto intro!: Option.bind_cong simp: map_option_case apfst_def split: option.splits)

lemma reads_entries_Cons:
  "reads rd buf b1 k \<Longrightarrow> reads rd b1 b2 v \<Longrightarrow> reads (read_entries rd n (emplace k v m)) b2 buf' m' \<Longrightarrow>
    reads (read_entries rd (Suc n) m) buf buf' m'"
  by (rule reads_cong [OF reads_bind [where g = "\<lambda>k s. Option.bind (rd s) (\<lambda>(v, s). read_entries rd n (emplace k v m) s)",
    OF _ reads_bind [where g = "\<lambda>v s. read_entries rd n (emplace k v m) s"]]]) simp_all

lemma list_read_back:
  assumes "WriteValue (V_List vs) buf = Inr buf'" "length vs < 2 ^ 32"
    "\<And>b. WriteItems vs b = Inr buf' \<Longrightarrow> reads (read_items (read_value n) (length vs)) b buf' vs"
  shows "reads (read_value (Suc n)) buf buf' (V_List vs)"
proof -
  from assms(1) obtain b b1 where w: "write_type (V_List vs) buf = Inr b" "WriteSize (length vs) b = Inr b1"
    "WriteItems vs b1 = Inr buf'" by (auto simp: bindr_eq_Inr)
  have "reads (ReadValueOfType (read_value n) (type_code kList)) b buf' (V_List vs)"
    unfolding read_of_type(13) [abs_def]
    by (rule reads_sized [where f = "\<lambda>k s. map_option (apfst V_List) (read_items (read_value n) k s)",
      OF w(2) assms(2) reads_map [OF assms(3) [OF w(3)]]])
  with w(1) show ?thesis by (intro reads_typed) (simp_all del: type_code.simps)
qed

lemma map_read_back:
  assumes "WriteValue (V_Map m) buf = Inr buf'" "length m < 2 ^ 32"
    "\<And>b. WriteEntries m b = Inr buf' \<Longrightarrow> reads (read_entries (read_value n) (length m) []) b buf' m"
  shows "reads (read_value (Suc n)) buf buf' (V_Map m)"
proof -
  from assms(1) obtain b b1 where w: "write_type (V_Map m) buf = Inr b" "WriteSize (length m) b = Inr b1"
    "WriteEntries m b1 = Inr buf'" by (auto simp: bindr_eq_Inr)
  have "reads (ReadValueOfType (read_value n) (type_code kMap)) b buf' (V_Map m)"
    unfolding read_of_type(14) [abs_def]
    by (rule reads_sized [where f = "\<lambda>k s. map_option (apfst V_Map) (read_entries (read_value n) k [] s)",
      OF w(2) assms(2) reads_map [OF assms(3) [OF w(3)]]])
  with w(1) show ?thesis by (intro reads_typed) (simp_all del: type_code.simps)
qed

lemma read_back:
  "\<forall>buf buf' n. WriteValue v buf = Inr buf' \<longrightarrow> carried v \<longrightarrow> size v < n \<longrightarrow> reads (read_value n) buf buf' v"
proof (induction v rule: measure_induct_rule [where f = size])
  case (less v)
  have items: "reads (read_items (read_value n) (length vs)) b buf' vs"
    if "WriteItems vs b = Inr buf'" "list_all carried vs" "size_list size vs < n" "\<forall>x\<in>set vs. size x < size v" for vs b buf' n
    using that
  proof (induction vs arbitrary: b)
    case (Cons x vs)
    then obtain b1 where b1: "WriteValue x b = Inr b1" "WriteItems vs b1 = Inr buf'" by (auto simp: bindr_eq_Inr)
    have "reads (read_value n) b b1 x" using less [of x] b1(1) Cons.prems by simp
    moreover have "reads (read_items (read_value n) (length vs)) b1 buf' vs" using Cons b1(2) by simp
    ultimately show ?case unfolding list.size(4) by (simp only: reads_items_Cons add_Suc_right add_0_right)
  qed (simp add: reads_def)
  have entries: "reads (read_entries (read_value n) (length m) pre) b buf' (pre @ m)"
    if "WriteEntries m b = Inr buf'" "list_all (\<lambda>e. carried (fst e) \<and> carried (snd e)) m"
      "size_list (size_prod size size) m < n" "in_order (map fst (pre @ m))"
      "\<forall>e\<in>set m. size (fst e) < size v \<and> size (snd e) < size v" for m b buf' n pre
    using that
  proof (induction m arbitrary: b pre)
    case (Cons e m)
    obtain k w where e: "e = (k, w)" by (cases e)
    with Cons.prems obtain b1 b2 where w: "WriteValue k b = Inr b1" "WriteValue w b1 = Inr b2" "WriteEntries m b2 = Inr buf'"
      by (auto simp: bindr_eq_Inr)
    have k: "reads (read_value n) b b1 k" "reads (read_value n) b1 b2 w"
      using less [of k] less [of w] w(1,2) Cons.prems e by simp_all
    have "emplace k w pre = pre @ [(k, w)]"
      using Cons.prems(4) in_order_prefix [of "map fst pre @ [k]" "map fst m"] by (intro emplace_last) (simp add: e)
    moreover have "reads (read_entries (read_value n) (length m) (pre @ [(k, w)])) b2 buf' ((pre @ [(k, w)]) @ m)"
      by (rule Cons.IH) (use Cons.prems w(3) e in simp_all)
    ultimately have "reads (read_entries (read_value n) (Suc (length m)) pre) b buf' ((pre @ [(k, w)]) @ m)"
      by (intro reads_entries_Cons [OF k]) simp
    then show ?case by (simp only: e list.size(4) append_assoc append_Cons append_Nil add_Suc_right add_0_right)
  qed (simp add: reads_def)
  show ?case
  proof (intro allI impI)
    fix buf buf' n assume w: "WriteValue v buf = Inr buf'" "carried v" "size v < n"
    then obtain n' where n: "n = Suc n'" by (cases n) auto
    consider (l) vs where "v = V_List vs" | (m) m where "v = V_Map m" | (leaf) "\<And>vs. v \<noteq> V_List vs" "\<And>m. v \<noteq> V_Map m"
      by blast
    then show "reads (read_value n) buf buf' v"
    proof cases
      case l
      then show ?thesis unfolding n l
        by (intro list_read_back items) (use w n l size_item [of _ vs] in auto)
    next
      case m
      then show ?thesis unfolding n m
        by (intro map_read_back entries [where pre = "[]", simplified]) (use w n m size_entry [of _ m] in auto)
    next
      case leaf
      with w n show ?thesis using leaf_read_back by simp
    qed
  qed
qed

lemma read_back_after:
  assumes "WriteValue v buf = Inr buf'" "carried v"
  shows "reads (\<lambda>s. Some (ReadValue s)) buf buf' v"
proof -
  from read_back assms have "reads (read_value (Suc (size v))) buf buf' v" by blast
  then show ?thesis unfolding reads_def by (elim ex_forward) (auto dest: ReadValue_if simp del: read_value.simps)
qed

lemma WriteBytes_total: "bs \<noteq> [] \<Longrightarrow> \<exists>b'. WriteBytes bs b = Inr b'"
  by (simp add: WriteBytes_eq)

lemma WriteVector_total: "0 < sz \<Longrightarrow> \<exists>b'. WriteVector sz v b = Inr b'"
proof -
  obtain b1 where "WriteSize (length v) b = Inr b1" using WriteSize_total by blast
  moreover assume "0 < sz"
  then have "concat (map (to_le sz) v) \<noteq> []" if "v \<noteq> []" using that by (cases v) auto
  ultimately show ?thesis by (cases "v = []") (simp_all add: WriteVector_def WriteBytes_eq)
qed

lemma WriteItems_total: "(\<And>x b. x \<in> set vs \<Longrightarrow> \<exists>b'. WriteValue x b = Inr b') \<Longrightarrow> \<exists>b'. WriteItems vs b = Inr b'"
proof (induction vs arbitrary: b)
  case (Cons x vs)
  obtain b1 where "WriteValue x b = Inr b1" using Cons.prems [of x b] by auto
  with Cons show ?case by simp
qed simp

lemma WriteEntries_total:
  "(\<And>e b. e \<in> set m \<Longrightarrow> (\<exists>b'. WriteValue (fst e) b = Inr b') \<and> (\<exists>b'. WriteValue (snd e) b = Inr b')) \<Longrightarrow>
    \<exists>b'. WriteEntries m b = Inr b'"
proof (induction m arbitrary: b)
  case (Cons e m)
  obtain k w where e: "e = (k, w)" by (cases e)
  obtain b1 where b1: "WriteValue k b = Inr b1" using Cons.prems [of e b] e by auto
  obtain b2 where "WriteValue w b1 = Inr b2" using Cons.prems [of e b1] e by auto
  with Cons b1 e show ?case by simp
qed simp

lemma WriteValue_total: "carried v \<Longrightarrow> \<exists>buf'. WriteValue v buf = Inr buf'"
proof (induction v arbitrary: buf rule: measure_induct_rule [where f = size])
  case (less v)
  have wt: "write_type v buf = Inr (WriteByte (type_code t) buf)" if "EncodedTypeForValue v = Inr t" for t
    using that by (simp add: write_type_def)
  obtain t where t: "EncodedTypeForValue v = Inr t" using less.prems by (cases v) auto
  show ?case
  proof (cases v)
    case (V_List vs)
    obtain b where b: "WriteSize (length vs) (WriteByte (type_code t) buf) = Inr b" using WriteSize_total by blast
    have "\<exists>b'. WriteItems vs b = Inr b'"
      by (intro WriteItems_total less.IH) (use size_item less.prems V_List in \<open>auto simp: list_all_iff\<close>)
    then show ?thesis using wt t b V_List by simp
  next
    case (V_Map m)
    obtain b where b: "WriteSize (length m) (WriteByte (type_code t) buf) = Inr b" using WriteSize_total by blast
    have "\<exists>b'. WriteEntries m b = Inr b'"
      by (intro WriteEntries_total conjI less.IH) (use size_entry less.prems V_Map in \<open>auto simp: list_all_iff\<close>)
    then show ?thesis using wt t b V_Map by simp
  next
    case (V_String str)
    obtain b where "WriteSize (length str) (WriteByte (type_code t) buf) = Inr b" using WriteSize_total by blast
    then show ?thesis using wt t V_String by (simp add: WriteBytes_eq)
  qed (use wt t less.prems in \<open>simp_all add: WriteInt32_def WriteInt64_def WriteDouble_def WriteBytes_eq WriteVector_total
    del: One_nat_def\<close>)
qed

lemma value_read_back:
  assumes "carried v"
  shows "\<exists>bs. WriteValue v buf = Inr (buf @ bs)
    \<and> (\<forall>rest. ReadValue (at_end buf (bs @ rest)) = (v, at_end (buf @ bs) rest))"
proof -
  obtain buf' where w: "WriteValue v buf = Inr buf'" using WriteValue_total [OF assms] by blast
  with read_back_after [OF w assms] show ?thesis unfolding reads_def by auto
qed

text \<open>
  C33: The serializer writes every value it carries at the end of any stream, and only appends; and a reader
  that stands where the value was written reads that value back, ends exactly after it, and finds there
  whatever follows. A nested list or map, a long size, padding and the order of a map's keys included.
\<close>

theorem written_value_is_read_back:
  assumes "carried v"
  shows "\<exists>bs. WriteValue v buf = Inr (buf @ bs)
    \<and> (\<forall>rest. ReadValue (at_end buf (bs @ rest)) = (v, at_end (buf @ bs) rest))"
  using assms by (rule value_read_back)

theorem written_value_is_read_back_witness:
  "fst (ReadValue (at_end [0] ([13, 2, 7, 1, 97, 9, 1, 42, 0, 0, 0, 7, 1, 98, 1] @ [255])))
    = V_Map [(V_String [97], V_Int32List [42]), (V_String [98], V_Bool True)]"
proof -
  let ?v = "V_Map [(V_String [97], V_Int32List [42]), (V_String [98], V_Bool True)]"
  have "carried ?v" by (simp add: in_order_def ev_less.simps)
  moreover have "WriteValue ?v [0] = Inr ([0] @ [13, 2, 7, 1, 97, 9, 1, 42, 0, 0, 0, 7, 1, 98, 1])" by code_simp
  ultimately show ?thesis using written_value_is_read_back [of ?v "[0]"] by auto
qed

text \<open>
  C37: An empty vector of 64-bit integers is written without the padding that its reader skips, so that the
  reader goes on at the next multiple of eight, past the end of what was written unless that happens to be
  aligned. A list with such a vector first loses what follows it: the 7 is read as a null.
\<close>

theorem empty_int64_list_loses_the_next_value:
  "WriteValue (V_Int64List []) buf = Inr (buf @ [10, 0])
   \<and> ReadValue (at_end buf ([10, 0] @ rest))
       = (V_Int64List [], \<lparr>bytes = buf @ [10, 0] @ rest, location = (length buf + 9) div 8 * 8\<rparr>)
   \<and> WriteValue (V_List [V_Int64List [], V_Int32 7]) [] = Inr [12, 2, 10, 0, 3, 7, 0, 0, 0]
   \<and> fst (ReadValue (ByteBufferStreamReader [12, 2, 10, 0, 3, 7, 0, 0, 0])) = V_List [V_Int64List [], V_Null]"
proof (intro conjI)
  show "WriteValue (V_Int64List []) buf = Inr (buf @ [10, 0])"
    by (simp add: write_type_def WriteVector_def WriteSize_def WriteByte_def)
  have align: "ReadAlignment 8 \<lparr>bytes = b, location = n\<rparr> = \<lparr>bytes = b, location = (n + 7) div 8 * 8\<rparr>" for b n
  proof (cases "n mod 8 = 0")
    case False
    define q where "q = n div 8"
    define m where "m = n mod 8"
    have n: "n = 8 * q + m" "m < 8" "m \<noteq> 0" using False by (simp_all add: q_def m_def)
    have "(n + 7) div 8 = q + 1" using n by linarith
    moreover have "n + (8 - m) = 8 * q + 8" using n by linarith
    ultimately show ?thesis using n by (simp add: ReadAlignment_def m_def [symmetric] Let_def)
  qed (auto simp: ReadAlignment_def elim!: dvdE)
  have "ReadVector 8 \<lparr>bytes = b, location = n\<rparr> = ([], \<lparr>bytes = b, location = (n + 8) div 8 * 8\<rparr>)"
    if "n < length b" "b ! n = 0" for b n
    using that by (simp add: ReadVector_def ReadSize_def ReadByte_def align ReadBytes_def Let_def)
  then have "ReadVector 8 \<lparr>bytes = buf @ [10, 0] @ rest, location = length buf + 1\<rparr>
      = ([], \<lparr>bytes = buf @ [10, 0] @ rest, location = (length buf + 9) div 8 * 8\<rparr>)" by (simp add: nth_append)
  then have "read_value 1 (at_end buf ([10, 0] @ rest))
      = Some (V_Int64List [], \<lparr>bytes = buf @ [10, 0] @ rest, location = (length buf + 9) div 8 * 8\<rparr>)"
    by (simp add: at_end_def ReadByte_def ReadValueOfType_def type_of_code_def encoded_types_def)
  then show "ReadValue (at_end buf ([10, 0] @ rest))
      = (V_Int64List [], \<lparr>bytes = buf @ [10, 0] @ rest, location = (length buf + 9) div 8 * 8\<rparr>)"
    by (rule ReadValue_if)
  show "WriteValue (V_List [V_Int64List [], V_Int32 7]) [] = Inr [12, 2, 10, 0, 3, 7, 0, 0, 0]" by code_simp
  show "fst (ReadValue (ByteBufferStreamReader [12, 2, 10, 0, 3, 7, 0, 0, 0])) = V_List [V_Int64List [], V_Null]"
    by code_simp
qed

end
