(* ===== verification/Codec_Methods.thy ===== *)
theory Codec_Methods
  imports Codec_Roundtrip
begin

text \<open>
  The codecs and channels of \<open>client_wrapper\<close> on top of a serializer: \<open>StandardMessageCodec\<close>,
  \<open>StandardMethodCodec\<close>, \<open>ReplyManager\<close>, \<open>EngineMethodResult\<close>, \<open>MethodChannel\<close> and \<open>EventChannel\<close>. The
  serializer is a parameter, as a client may extend the standard one; what the codecs rely on is the locale
  \<open>message_serializer\<close>, which the standard serializer satisfies. What a handler does with a call is a
  parameter: the list of the calls it makes on its \<open>MethodResult\<close>.
\<close>

section \<open>Codecs\<close>

(* map: shell/platform/common/client_wrapper/include/flutter/standard_codec_serializer.h 18 72 StandardCodecSerializer *)
record serializer =
  writeValue :: "encodable_value \<Rightarrow> byte list \<Rightarrow> byte list res"
  readValue :: "reader \<Rightarrow> encodable_value \<times> reader"

definition StandardSerializer :: serializer where
  "StandardSerializer = \<lparr>writeValue = WriteValue, readValue = ReadValue\<rparr>"

(* map: shell/platform/common/client_wrapper/standard_codec.cc 328 335 StandardMessageCodec::EncodeMessageInternal *)
definition EncodeMessage :: "serializer \<Rightarrow> encodable_value \<Rightarrow> byte list res" where
  "EncodeMessage ser v = writeValue ser v []"

text \<open>A null message is \<open>None\<close>.\<close>

(* map: shell/platform/common/client_wrapper/standard_codec.cc 318 326 StandardMessageCodec::DecodeMessageInternal *)
definition DecodeMessage :: "serializer \<Rightarrow> byte list option \<Rightarrow> encodable_value" where
  "DecodeMessage ser m =
     (case m of None \<Rightarrow> V_Null | Some bs \<Rightarrow> fst (readValue ser (ByteBufferStreamReader bs)))"

(* map: shell/platform/common/client_wrapper/include/flutter/method_call.h 17 39 MethodCall *)
record method_call =
  method_name :: "byte list"
  arguments :: "encodable_value option"

definition value_or_null :: "encodable_value option \<Rightarrow> encodable_value" where
  "value_or_null ov = (case ov of Some v \<Rightarrow> v | None \<Rightarrow> V_Null)"

definition unless_null :: "encodable_value \<Rightarrow> encodable_value option" where
  "unless_null v = (if v = V_Null then None else Some v)"

(* map: shell/platform/common/client_wrapper/standard_codec.cc 382 394 StandardMethodCodec::EncodeMethodCallInternal *)
definition EncodeMethodCall :: "serializer \<Rightarrow> method_call \<Rightarrow> byte list res" where
  "EncodeMethodCall ser c =
     bindr (writeValue ser (V_String (method_name c)) []) (\<lambda>buf.
     writeValue ser (value_or_null (arguments c)) buf)"

(* map: shell/platform/common/client_wrapper/standard_codec.cc 365 380 StandardMethodCodec::DecodeMethodCallInternal *)
definition DecodeMethodCall :: "serializer \<Rightarrow> byte list \<Rightarrow> method_call option" where
  "DecodeMethodCall ser bs =
     (let (name, s1) = readValue ser (ByteBufferStreamReader bs) in
      case name of
        V_String str \<Rightarrow> let (args, s2) = readValue ser s1 in Some \<lparr>method_name = str, arguments = Some args\<rparr>
      | _ \<Rightarrow> None)"

text \<open>The call that answers a method call: one of the three methods of \<open>MethodResult\<close>.\<close>

(* map: shell/platform/common/client_wrapper/include/flutter/method_result.h 17 72 MethodResult *)
datatype response =
    R_Success "encodable_value option"
  | R_Error (error_code: "byte list") (error_message: "byte list") (error_details: "encodable_value option")
  | R_NotImplemented

(* map: shell/platform/common/client_wrapper/standard_codec.cc 396 408 StandardMethodCodec::EncodeSuccessEnvelopeInternal *)
definition EncodeSuccessEnvelope :: "serializer \<Rightarrow> encodable_value option \<Rightarrow> byte list res" where
  "EncodeSuccessEnvelope ser result = writeValue ser (value_or_null result) (WriteByte 0 [])"

(* map: shell/platform/common/client_wrapper/standard_codec.cc 410 430 StandardMethodCodec::EncodeErrorEnvelopeInternal *)
definition EncodeErrorEnvelope ::
    "serializer \<Rightarrow> byte list \<Rightarrow> byte list \<Rightarrow> encodable_value option \<Rightarrow> byte list res" where
  "EncodeErrorEnvelope ser code message details =
     bindr (writeValue ser (V_String code) (WriteByte 1 [])) (\<lambda>b1.
     bindr (writeValue ser (if message = [] then V_Null else V_String message) b1) (\<lambda>b2.
     writeValue ser (value_or_null details) b2))"

text \<open>\<open>std::get<std::string>\<close> throws on another alternative.\<close>

fun get_string :: "encodable_value \<Rightarrow> byte list res" where
  "get_string (V_String str) = Inr str"
| "get_string _ = Inl Bad_Variant_Access"

text \<open>\<open>None\<close>: the envelope cannot be decoded.\<close>

(* map: shell/platform/common/client_wrapper/standard_codec.cc 432 464 StandardMethodCodec::DecodeAndProcessResponseEnvelopeInternal *)
definition DecodeAndProcessResponseEnvelope :: "serializer \<Rightarrow> byte list \<Rightarrow> response option res" where
  "DecodeAndProcessResponseEnvelope ser bs =
     (let (flag, s) = ReadByte (ByteBufferStreamReader bs) in
      if flag = 0 then Inr (Some (R_Success (unless_null (fst (readValue ser s)))))
      else if flag = 1 then
        let (code, s1) = readValue ser s;
            (message, s2) = readValue ser s1;
            (details, s3) = readValue ser s2
        in bindr (if message = V_Null then Inr [] else get_string message) (\<lambda>m.
           bindr (get_string code) (\<lambda>c. Inr (Some (R_Error c m (unless_null details)))))
      else Inr None)"

section \<open>Replies\<close>

text \<open>The reply handler is there until it is used; \<open>replies\<close> are the calls of it, \<open>None\<close> a null message.\<close>

(* map: shell/platform/common/client_wrapper/include/flutter/engine_method_result.h 22 38 ReplyManager *)
record reply_manager =
  reply_handler :: bool
  replies :: "byte list option list"

(* map: shell/platform/common/client_wrapper/core_implementations.cc 134 137 ReplyManager::ReplyManager *)
definition ReplyManager :: reply_manager where
  "ReplyManager = \<lparr>reply_handler = True, replies = []\<rparr>"

(* map: shell/platform/common/client_wrapper/core_implementations.cc 149 163 ReplyManager::SendResponseData *)
definition SendResponseData :: "byte list option \<Rightarrow> reply_manager \<Rightarrow> reply_manager" where
  "SendResponseData data rm =
     (if \<not> reply_handler rm then rm
      else rm\<lparr>replies := replies rm @ [if data = Some [] then None else data], reply_handler := False\<rparr>)"

(* map: shell/platform/common/client_wrapper/include/flutter/engine_method_result.h 43 82 EngineMethodResult *)
definition EngineMethodResult :: "serializer \<Rightarrow> response \<Rightarrow> reply_manager \<Rightarrow> reply_manager res" where
  "EngineMethodResult ser r rm =
     (case r of
        R_Success result \<Rightarrow>
          bindr (EncodeSuccessEnvelope ser result) (\<lambda>data. Inr (SendResponseData (Some data) rm))
      | R_Error code message details \<Rightarrow>
          bindr (EncodeErrorEnvelope ser code message details) (\<lambda>data. Inr (SendResponseData (Some data) rm))
      | R_NotImplemented \<Rightarrow> Inr (SendResponseData None rm))"

fun all_results :: "serializer \<Rightarrow> response list \<Rightarrow> reply_manager \<Rightarrow> reply_manager res" where
  "all_results ser [] rm = Inr rm"
| "all_results ser (r # rs) rm = bindr (EngineMethodResult ser r rm) (all_results ser rs)"

section \<open>Method channels\<close>

(* map: shell/platform/common/client_wrapper/include/flutter/method_channel.h 52 61 MethodChannel::InvokeMethod *)
definition InvokeMethod :: "serializer \<Rightarrow> byte list \<Rightarrow> encodable_value option \<Rightarrow> byte list res" where
  "InvokeMethod ser name args = EncodeMethodCall ser \<lparr>method_name = name, arguments = args\<rparr>"

text \<open>What the caller's \<open>MethodResult\<close> is told when the reply comes; a null reply has size 0.\<close>

(* map: shell/platform/common/client_wrapper/include/flutter/method_channel.h 69 85 MethodChannel::InvokeMethod *)
definition handle_reply :: "serializer \<Rightarrow> byte list option \<Rightarrow> response res" where
  "handle_reply ser reply =
     (case reply of
        None \<Rightarrow> Inr R_NotImplemented
      | Some bs \<Rightarrow>
          if length bs = 0 then Inr R_NotImplemented
          else bindr (DecodeAndProcessResponseEnvelope ser bs) (\<lambda>decoded.
                 case decoded of Some r \<Rightarrow> Inr r | None \<Rightarrow> Inr R_NotImplemented))"

(* map: shell/platform/common/client_wrapper/include/flutter/method_channel.h 97 122 MethodChannel::SetMethodCallHandler *)
definition binary_handler :: "serializer \<Rightarrow> (method_call \<Rightarrow> response list) \<Rightarrow> byte list \<Rightarrow> reply_manager res" where
  "binary_handler ser handler message =
     (case DecodeMethodCall ser message of
        None \<Rightarrow> EngineMethodResult ser R_NotImplemented ReplyManager
      | Some c \<Rightarrow> all_results ser (handler c) ReplyManager)"

section \<open>Event channels\<close>

datatype stream_call = OnListen encodable_value | OnCancel "encodable_value option"

text \<open>
  The calls made on the stream handler are recorded. Whether a call fails is a parameter, a function of all
  calls so far, the last being the one that fails.
\<close>

record event_channel =
  is_listening :: bool
  stream_calls :: "stream_call list"

type_synonym stream_error = "(byte list \<times> byte list \<times> encodable_value option) option"

definition listen_name :: "byte list" where
  "listen_name = [108, 105, 115, 116, 101, 110]"

definition cancel_name :: "byte list" where
  "cancel_name = [99, 97, 110, 99, 101, 108]"

definition no_active_stream :: "byte list" where
  "no_active_stream = [78, 111, 32, 97, 99, 116, 105, 118, 101, 32, 115, 116, 114, 101, 97, 109, 32, 116, 111, 32,
     99, 97, 110, 99, 101, 108]"

definition stream_reply :: "serializer \<Rightarrow> stream_error \<Rightarrow> byte list res" where
  "stream_reply ser e =
     (case e of Some (code, message, details) \<Rightarrow> EncodeErrorEnvelope ser code message details
      | None \<Rightarrow> EncodeSuccessEnvelope ser None)"

(* map: shell/platform/common/client_wrapper/include/flutter/event_channel.h 54 137 EventChannel::SetStreamHandler *)
definition event_handler :: "serializer \<Rightarrow> (stream_call list \<Rightarrow> stream_error) \<Rightarrow> byte list \<Rightarrow> event_channel
    \<Rightarrow> (byte list option \<times> event_channel) res" where
  "event_handler ser fails message st =
     (case DecodeMethodCall ser message of
        None \<Rightarrow> Inr (None, st)
      | Some c \<Rightarrow>
          if method_name c = listen_name then
            let calls = stream_calls st @ (if is_listening st then [OnCancel None] else [])
                  @ [OnListen (value_or_null (arguments c))]
            in bindr (stream_reply ser (fails calls)) (\<lambda>result.
                 Inr (Some result, st\<lparr>is_listening := True, stream_calls := calls\<rparr>))
          else if method_name c = cancel_name then
            if is_listening st then
              let calls = stream_calls st @ [OnCancel (arguments c)]
              in bindr (stream_reply ser (fails calls)) (\<lambda>result.
                   Inr (Some result, st\<lparr>is_listening := False, stream_calls := calls\<rparr>))
            else
              bindr (EncodeErrorEnvelope ser [101, 114, 114, 111, 114] no_active_stream None) (\<lambda>result.
                Inr (Some result, st))
          else Inr (None, st))"

section \<open>What the codecs rely on\<close>

locale message_serializer =
  fixes ser :: serializer and fits :: "encodable_value \<Rightarrow> bool"
  assumes written: "fits v \<Longrightarrow> \<exists>bs. writeValue ser v buf = Inr (buf @ bs)
      \<and> (\<forall>rest. readValue ser (at_end buf (bs @ rest)) = (v, at_end (buf @ bs) rest))"
    and null_fits: "fits V_Null"
begin

lemma writtenE:
  assumes "fits v"
  obtains bs where "writeValue ser v buf = Inr (buf @ bs)"
    "\<And>rest. readValue ser (at_end buf (bs @ rest)) = (v, at_end (buf @ bs) rest)"
  using written [OF assms, of buf] by blast

lemma start_at_end: "ByteBufferStreamReader bs = at_end [] bs"
  by (simp add: ByteBufferStreamReader_def at_end_def)

lemma value_or_null_fits: "pred_option fits ov \<Longrightarrow> fits (value_or_null ov)"
  by (cases ov) (simp_all add: value_or_null_def null_fits)

lemma message_round_trip: "fits v \<Longrightarrow> \<exists>bs. EncodeMessage ser v = Inr bs \<and> DecodeMessage ser (Some bs) = v"
  using written [of v "[]"] by (auto simp: EncodeMessage_def DecodeMessage_def start_at_end dest: spec [of _ "[]"])

lemma call_round_trip:
  assumes "fits (V_String (method_name c))" "pred_option fits (arguments c)"
  shows "\<exists>bs. EncodeMethodCall ser c = Inr bs
    \<and> DecodeMethodCall ser bs = Some \<lparr>method_name = method_name c, arguments = Some (value_or_null (arguments c))\<rparr>"
proof -
  obtain b1 where b1: "writeValue ser (V_String (method_name c)) [] = Inr b1"
    "\<And>rest. readValue ser (at_end [] (b1 @ rest)) = (V_String (method_name c), at_end b1 rest)"
    using writtenE [OF assms(1), of "[]"] by auto
  obtain b2 where b2: "writeValue ser (value_or_null (arguments c)) b1 = Inr (b1 @ b2)"
    "\<And>rest. readValue ser (at_end b1 (b2 @ rest)) = (value_or_null (arguments c), at_end (b1 @ b2) rest)"
    using writtenE [OF value_or_null_fits [OF assms(2)], of b1] by blast
  show ?thesis
    using b1(2) [of b2] b2(2) [of "[]"] by (simp add: EncodeMethodCall_def DecodeMethodCall_def b1(1) b2(1) start_at_end)
qed

end

fun response_fits :: "(encodable_value \<Rightarrow> bool) \<Rightarrow> response \<Rightarrow> bool" where
  "response_fits fits (R_Success v) = pred_option fits v"
| "response_fits fits (R_Error c m d) = (fits (V_String c) \<and> fits (V_String m) \<and> pred_option fits d)"
| "response_fits fits R_NotImplemented = True"

text \<open>What the caller is told for a response: a null result or null details are no result or details.\<close>

fun as_received :: "response \<Rightarrow> response" where
  "as_received (R_Success v) = R_Success (unless_null (value_or_null v))"
| "as_received (R_Error c m d) = R_Error c m (unless_null (value_or_null d))"
| "as_received R_NotImplemented = R_NotImplemented"

lemma disarmed: "\<not> reply_handler rm \<Longrightarrow> SendResponseData data rm = rm"
  by (simp add: SendResponseData_def)

lemma armed: "reply_handler rm \<Longrightarrow> data \<noteq> Some [] \<Longrightarrow>
    SendResponseData data rm = \<lparr>reply_handler = False, replies = replies rm @ [data]\<rparr>"
  by (cases rm) (simp add: SendResponseData_def)

context message_serializer
begin

lemma success_round_trip:
  assumes "pred_option fits v"
  shows "\<exists>bs. EncodeSuccessEnvelope ser v = Inr (0 # bs)
    \<and> DecodeAndProcessResponseEnvelope ser (0 # bs) = Inr (Some (as_received (R_Success v)))"
proof -
  obtain bs where bs: "writeValue ser (value_or_null v) [0] = Inr ([0] @ bs)"
    "\<And>rest. readValue ser (at_end [0] (bs @ rest)) = (value_or_null v, at_end ([0] @ bs) rest)"
    using writtenE [OF value_or_null_fits [OF assms], of "[0]"] by blast
  show ?thesis
    using bs(2) [of "[]"] ReadByte_at_end [of "[]" 0 bs]
    by (simp add: EncodeSuccessEnvelope_def DecodeAndProcessResponseEnvelope_def WriteByte_def bs(1) start_at_end)
qed

lemma error_round_trip:
  assumes "response_fits fits (R_Error c m d)"
  shows "\<exists>bs. EncodeErrorEnvelope ser c m d = Inr (1 # bs)
    \<and> DecodeAndProcessResponseEnvelope ser (1 # bs) = Inr (Some (as_received (R_Error c m d)))"
proof -
  let ?m = "if m = [] then V_Null else V_String m"
  have f: "fits (V_String c)" "fits ?m" "pred_option fits d" using assms null_fits by auto
  obtain b1 where b1: "writeValue ser (V_String c) [1] = Inr ([1] @ b1)"
    "\<And>rest. readValue ser (at_end [1] (b1 @ rest)) = (V_String c, at_end ([1] @ b1) rest)"
    using writtenE [OF f(1), of "[1]"] by blast
  obtain b2 where b2: "writeValue ser ?m ([1] @ b1) = Inr (([1] @ b1) @ b2)"
    "\<And>rest. readValue ser (at_end ([1] @ b1) (b2 @ rest)) = (?m, at_end (([1] @ b1) @ b2) rest)"
    using writtenE [OF f(2), of "[1] @ b1"] by blast
  obtain b3 where b3: "writeValue ser (value_or_null d) (([1] @ b1) @ b2) = Inr ((([1] @ b1) @ b2) @ b3)"
    "\<And>rest. readValue ser (at_end (([1] @ b1) @ b2) (b3 @ rest)) = (value_or_null d, at_end ((([1] @ b1) @ b2) @ b3) rest)"
    using writtenE [OF value_or_null_fits [OF f(3)], of "([1] @ b1) @ b2"] by blast
  have "EncodeErrorEnvelope ser c m d = Inr (1 # b1 @ b2 @ b3)"
    using b1(1) b2(1) b3(1) by (simp add: EncodeErrorEnvelope_def WriteByte_def)
  moreover have "DecodeAndProcessResponseEnvelope ser (1 # b1 @ b2 @ b3) = Inr (Some (as_received (R_Error c m d)))"
    using ReadByte_at_end [of "[]" 1 "b1 @ b2 @ b3"] b1(2) [of "b2 @ b3"] b2(2) [of b3] b3(2) [of "[]"]
    by (simp add: DecodeAndProcessResponseEnvelope_def start_at_end)
  ultimately show ?thesis by blast
qed

lemma response_delivered:
  assumes "response_fits fits r"
  shows "\<exists>d. (\<forall>rm. EngineMethodResult ser r rm = Inr (SendResponseData d rm)) \<and> d \<noteq> Some []
    \<and> handle_reply ser d = Inr (as_received r)"
proof (cases r)
  case (R_Success v)
  with assms success_round_trip [of v] show ?thesis by (force simp: EngineMethodResult_def handle_reply_def)
next
  case (R_Error c m d)
  with assms error_round_trip [of c m d] show ?thesis by (force simp: EngineMethodResult_def handle_reply_def)
qed (auto simp: EngineMethodResult_def handle_reply_def)

lemma further_results: "\<not> reply_handler rm \<Longrightarrow> list_all (response_fits fits) rs \<Longrightarrow> all_results ser rs rm = Inr rm"
proof (induction rs)
  case (Cons r rs)
  obtain d where "EngineMethodResult ser r rm = Inr (SendResponseData d rm)"
    using response_delivered [of r] Cons.prems by auto
  with Cons show ?case by (simp add: disarmed)
qed simp

lemma call_answered_once:
  assumes "response_fits fits r" "list_all (response_fits fits) rs"
  shows "\<exists>d. all_results ser (r # rs) ReplyManager = Inr \<lparr>reply_handler = False, replies = [d]\<rparr>
    \<and> handle_reply ser d = Inr (as_received r)"
proof -
  obtain d where d: "\<And>rm. EngineMethodResult ser r rm = Inr (SendResponseData d rm)" "d \<noteq> Some []"
    "handle_reply ser d = Inr (as_received r)" using response_delivered [OF assms(1)] by blast
  then have "SendResponseData d ReplyManager = \<lparr>reply_handler = False, replies = [d]\<rparr>"
    by (subst armed) (simp_all add: ReplyManager_def)
  with d further_results [OF _ assms(2)] show ?thesis by (intro exI [of _ d]) simp
qed

lemma call_end_to_end:
  assumes "fits (V_String name)" "pred_option fits args"
    "handler \<lparr>method_name = name, arguments = Some (value_or_null args)\<rparr> = r # rs"
    "response_fits fits r" "list_all (response_fits fits) rs"
  shows "\<exists>message reply. InvokeMethod ser name args = Inr message
    \<and> binary_handler ser handler message = Inr \<lparr>reply_handler = False, replies = [reply]\<rparr>
    \<and> handle_reply ser reply = Inr (as_received r)"
proof -
  obtain message where m: "InvokeMethod ser name args = Inr message"
    "DecodeMethodCall ser message = Some \<lparr>method_name = name, arguments = Some (value_or_null args)\<rparr>"
    using call_round_trip [of "\<lparr>method_name = name, arguments = args\<rparr>"] assms(1,2) by (auto simp: InvokeMethod_def)
  with call_answered_once [OF assms(4,5)] show ?thesis by (simp add: binary_handler_def assms(3))
qed

end

interpretation standard: message_serializer StandardSerializer carried
proof
  show "\<exists>bs. writeValue StandardSerializer v buf = Inr (buf @ bs)
      \<and> (\<forall>rest. readValue StandardSerializer (at_end buf (bs @ rest)) = (v, at_end (buf @ bs) rest))"
    if "carried v" for v buf
    using value_read_back [OF that] by (simp add: StandardSerializer_def)
qed simp

text \<open>
  C32: A call on a method channel, from end to end, with the standard codec on both sides: the handler is
  called once, with the name and the arguments of the call (a call without arguments arrives with a null);
  however many results it gives, one reply is sent, that of the first; and the caller is told that result:
  the success value, the error with its message and details, or that the method is not implemented. The name, the
  arguments and every result are values that the serializer carries: no empty list of typed numbers other than bytes
  (which is not read back), no custom value, no map whose keys are out of order, and no size of 2 to the 32 or more.
\<close>

theorem method_call_end_to_end:
  assumes "carried (V_String name)" "pred_option carried args"
    "handler \<lparr>method_name = name, arguments = Some (value_or_null args)\<rparr> = r # rs"
    "response_fits carried r" "list_all (response_fits carried) rs"
  shows "\<exists>message reply. InvokeMethod StandardSerializer name args = Inr message
    \<and> binary_handler StandardSerializer handler message = Inr \<lparr>reply_handler = False, replies = [reply]\<rparr>
    \<and> handle_reply StandardSerializer reply = Inr (as_received r)"
  using assms by (rule standard.call_end_to_end)

theorem method_call_end_to_end_witness:
  "\<exists>message reply. InvokeMethod StandardSerializer [97] (Some (V_List [V_Bool True])) = Inr message
    \<and> binary_handler StandardSerializer
        (\<lambda>c. if arguments c = Some (V_List [V_Bool True]) then [R_Error [98] [] (Some V_Null), R_NotImplemented] else [])
        message = Inr \<lparr>reply_handler = False, replies = [reply]\<rparr>
    \<and> handle_reply StandardSerializer reply = Inr (R_Error [98] [] None)"
  using method_call_end_to_end [of "[97]" "Some (V_List [V_Bool True])"
    "\<lambda>c. if arguments c = Some (V_List [V_Bool True]) then [R_Error [98] [] (Some V_Null), R_NotImplemented] else []"
    "R_Error [98] [] (Some V_Null)" "[R_NotImplemented]"]
  by (simp add: value_or_null_def unless_null_def)

section \<open>The calls of an event channel\<close>

fun handle_messages :: "serializer \<Rightarrow> (stream_call list \<Rightarrow> stream_error) \<Rightarrow> byte list list \<Rightarrow> event_channel
    \<Rightarrow> event_channel res" where
  "handle_messages ser fails [] st = Inr st"
| "handle_messages ser fails (m # ms) st =
     bindr (event_handler ser fails m st) (\<lambda>(reply, st1). handle_messages ser fails ms st1)"

text \<open>Whether there is a stream after a sequence of calls that sets up and tears down in turns.\<close>

fun streaming :: "bool \<Rightarrow> stream_call list \<Rightarrow> bool option" where
  "streaming on [] = Some on"
| "streaming on (OnListen _ # cs) = (if on then None else streaming True cs)"
| "streaming on (OnCancel _ # cs) = (if on then streaming False cs else None)"

lemma streaming_append: "streaming on (cs @ ds) = Option.bind (streaming on cs) (\<lambda>on'. streaming on' ds)"
  by (induction on cs rule: streaming.induct) simp_all

lemma event_handler_streaming:
  assumes "event_handler ser fails m st = Inr (reply, st')" "streaming False (stream_calls st) = Some (is_listening st)"
  shows "streaming False (stream_calls st') = Some (is_listening st')"
  using assms unfolding event_handler_def
  by (auto simp: streaming_append bindr_eq_Inr Let_def split: option.splits if_splits)

text \<open>
  C35: Whatever messages come in on an event channel, and whether or not the handler fails, the handler is
  asked to set up and to tear down a stream strictly in turns, starting with a set-up, as its interface
  demands; and the flag says whether the last call was a set-up.
\<close>

theorem stream_handler_calls_alternate:
  "case handle_messages ser fails ms \<lparr>is_listening = False, stream_calls = []\<rparr> of
     Inl e \<Rightarrow> True
   | Inr st \<Rightarrow> streaming False (stream_calls st) = Some (is_listening st)"
proof -
  have "streaming False (stream_calls st') = Some (is_listening st')"
    if "handle_messages ser fails ms st = Inr st'" "streaming False (stream_calls st) = Some (is_listening st)" for st st'
    using that
  proof (induction ms arbitrary: st)
    case (Cons m ms)
    then show ?case by (auto simp: bindr_eq_Inr dest: event_handler_streaming)
  qed simp
  then show ?thesis by (auto split: sum.split)
qed

end
