(* ===== verification/Win_Key_Embedder.thy ===== *)
theory Win_Key_Embedder
  imports Prelude
begin

text \<open>
  \<open>shell/platform/windows/keyboard_key_embedder_handler.cc\<close>: native key events become the key events of the
  framework, and the keys that matter (modifiers and locks) are kept in step with the state that Windows
  reports. The generated key maps and the key state are parameters; the key state does not change while one
  event is handled. An event that is sent is answered later, by \<open>HandleResponse\<close>.
\<close>

unbundle bit_operations_syntax

section \<open>Characters and keys\<close>

(* map: shell/platform/windows/keyboard_key_embedder_handler.cc 34 36 _GetBit *)
definition GetBit :: "32 word \<Rightarrow> nat \<Rightarrow> nat \<Rightarrow> 8 word" where
  "GetBit ch start fin = ucast (drop_bit fin ch AND (push_bit (start - fin) 1 - 1))"

(* map: shell/platform/windows/keyboard_key_embedder_handler.cc 39 58 ConvertChar32ToUtf8 *)
definition ConvertChar32ToUtf8 :: "32 word \<Rightarrow> 8 word list res" where
  "ConvertChar32ToUtf8 ch =
     bindr (ensure DCheck_Failed (ch \<le> 0x10FFFF)) (\<lambda>_. Inr
       (if ch \<le> 0x7F then [ucast ch]
        else if ch \<le> 0x7FF then [0xC0 + GetBit ch 11 6, 0x80 + GetBit ch 6 0]
        else if ch \<le> 0xFFFF then [0xE0 + GetBit ch 16 12, 0x80 + GetBit ch 12 6, 0x80 + GetBit ch 6 0]
        else [0xF0 + GetBit ch 21 18, 0x80 + GetBit ch 18 12, 0x80 + GetBit ch 12 6, 0x80 + GetBit ch 6 0]))"

(* map: shell/platform/windows/keyboard_key_embedder_handler.cc 544 551 KeyboardKeyEmbedderHandler::ConvertUtf32ToUtf8_ *)
definition ConvertUtf32ToUtf8 :: "32 word \<Rightarrow> 8 word list res" where
  "ConvertUtf32ToUtf8 ch = (if ch = 0 then Inr [] else ConvertChar32ToUtf8 ch)"

(* map: shell/platform/windows/keyboard_utils.h 25 27 UndeadChar *)
definition UndeadChar :: "32 word \<Rightarrow> 32 word" where
  "UndeadChar ch = ch AND NOT 0x80000000"

(* map: shell/platform/windows/keyboard_key_embedder_handler.cc 72 75 isEasciiPrintable *)
definition isEasciiPrintable :: "32 word \<Rightarrow> bool" where
  "isEasciiPrintable u \<longleftrightarrow> sint u \<le> 0x7f \<and> sint u \<ge> 0x20 \<or> sint u \<le> 0xff \<and> sint u \<ge> 0x80"

(* map: shell/platform/windows/keyboard_key_embedder_handler.cc 81 102 toLower *)
definition toLower :: "64 word \<Rightarrow> 64 word" where
  "toLower n =
     (if 0x41 \<le> n \<and> n \<le> 0x5a then n - 0x41 + 0x61
      else if 0xc0 \<le> n \<and> n \<le> 0xde \<and> n \<noteq> 0xf7 then n - 0xc0 + 0xe0
      else n)"

(* map: shell/platform/windows/keyboard_key_embedder_handler.cc 105 109 normalizeScancode *)
definition normalizeScancode :: "32 word \<Rightarrow> bool \<Rightarrow> 16 word" where
  "normalizeScancode scancode extended = ucast (scancode AND 0xff) OR (if extended then 0xe000 else 0)"

record key_maps =
  windowsToPhysicalMap :: "64 word \<rightharpoonup> 64 word"
  windowsToLogicalMap :: "64 word \<rightharpoonup> 64 word"
  scanCodeToLogicalMap :: "64 word \<rightharpoonup> 64 word"

definition unicodePlane :: "64 word" where "unicodePlane = 0"

definition windowsPlane :: "64 word" where "windowsPlane = 0x01600000000"

(* map: shell/platform/windows/keyboard_key_embedder_handler.cc 111 114 KeyboardKeyEmbedderHandler::ApplyPlaneToId *)
definition ApplyPlaneToId :: "64 word \<Rightarrow> 64 word \<Rightarrow> 64 word" where
  "ApplyPlaneToId i plane = (i AND 0xffffffff) OR plane"

(* map: shell/platform/windows/keyboard_key_embedder_handler.cc 116 123 KeyboardKeyEmbedderHandler::GetPhysicalKey *)
definition GetPhysicalKey :: "key_maps \<Rightarrow> 32 word \<Rightarrow> bool \<Rightarrow> 64 word" where
  "GetPhysicalKey maps scancode extended =
     (case windowsToPhysicalMap maps (ucast (normalizeScancode scancode extended)) of
        Some p \<Rightarrow> p
      | None \<Rightarrow> ApplyPlaneToId (scast scancode) windowsPlane)"

definition VK_PROCESSKEY :: "'a::len word" where "VK_PROCESSKEY = 0xE5"

(* map: shell/platform/windows/keyboard_key_embedder_handler.cc 125 151 KeyboardKeyEmbedderHandler::GetLogicalKey *)
definition GetLogicalKey :: "key_maps \<Rightarrow> 32 word \<Rightarrow> bool \<Rightarrow> 32 word \<Rightarrow> 64 word" where
  "GetLogicalKey maps key extended scancode =
     (if key = VK_PROCESSKEY then VK_PROCESSKEY
      else case scanCodeToLogicalMap maps (ucast (normalizeScancode scancode extended)) of
        Some l \<Rightarrow> l
      | None \<Rightarrow>
          (case windowsToLogicalMap maps (scast key) of
             Some l \<Rightarrow> l
           | None \<Rightarrow> if isEasciiPrintable key then ApplyPlaneToId (toLower (scast key)) unicodePlane
                     else ApplyPlaneToId (toLower (scast key)) windowsPlane))"

section \<open>State\<close>

(* map: shell/platform/embedder/embedder.h 931 935 FlutterKeyEventType *)
datatype key_event_type = Key_Up | Key_Down | Key_Repeat

(* map: shell/platform/embedder/embedder.h 954 1000 FlutterKeyEvent *)
record key_event =
  ke_type :: key_event_type
  ke_physical :: "64 word"
  ke_logical :: "64 word"
  ke_character :: "8 word list"
  ke_synthesized :: bool

(* map: shell/platform/windows/keyboard_key_embedder_handler.h 80 98 CriticalKey *)
record critical_key =
  ck_physical :: "64 word"
  ck_logical :: "64 word"
  check_pressed :: bool
  check_toggled :: bool
  toggled_on :: bool

text \<open>
  A callback is a value of \<open>'c\<close>. \<open>sent\<close> holds the events given to the framework with the response they wait
  for, \<open>answers\<close> the calls of callbacks.
\<close>

(* map: shell/platform/windows/keyboard_key_embedder_handler.h 139 155 KeyboardKeyEmbedderHandler *)
record 'c key_embedder =
  pressingRecords :: "64 word \<rightharpoonup> 64 word"
  pending_responses :: "(64 word \<times> 'c) list"
  response_id :: "64 word"
  sent_any_events :: bool
  critical_keys :: "(32 word \<times> critical_key) list"
  sent :: "(key_event \<times> 64 word option) list"
  answers :: "('c \<times> bool) list"

type_synonym key_state = "32 word \<Rightarrow> 16 word"

definition true_toggled :: "key_state \<Rightarrow> 32 word \<Rightarrow> bool" where
  "true_toggled ks vk \<longleftrightarrow> ks vk AND 0x01 \<noteq> 0"

definition true_pressed :: "key_state \<Rightarrow> 32 word \<Rightarrow> bool" where
  "true_pressed ks vk \<longleftrightarrow> ks vk AND 0x80 \<noteq> 0"

(* map: shell/platform/windows/keyboard_key_embedder_handler.cc 572 577 KeyboardKeyEmbedderHandler::SendEvent *)
definition SendEvent :: "key_event \<Rightarrow> 64 word option \<Rightarrow> 'c key_embedder \<Rightarrow> 'c key_embedder" where
  "SendEvent e waits s = s\<lparr>sent_any_events := True, sent := sent s @ [(e, waits)]\<rparr>"

(* map: shell/platform/windows/keyboard_key_embedder_handler.cc 553 570 KeyboardKeyEmbedderHandler::SynthesizeSimpleEvent *)
definition SynthesizeSimpleEvent :: "key_event_type \<Rightarrow> critical_key \<Rightarrow> key_event" where
  "SynthesizeSimpleEvent t ck =
     \<lparr>ke_type = t, ke_physical = ck_physical ck, ke_logical = ck_logical ck, ke_character = [], ke_synthesized = True\<rparr>"

definition is_pressed :: "'c key_embedder \<Rightarrow> 64 word \<Rightarrow> bool" where
  "is_pressed s p \<longleftrightarrow> pressingRecords s p \<noteq> None"

definition set_record :: "64 word \<Rightarrow> 64 word option \<Rightarrow> 'c key_embedder \<Rightarrow> 'c key_embedder" where
  "set_record p l s = s\<lparr>pressingRecords := (pressingRecords s)(p := l)\<rparr>"

(* map: shell/platform/windows/keyboard_key_embedder_handler.cc 352 361 KeyboardKeyEmbedderHandler::UpdateLastSeenCritialKey *)
definition UpdateLastSeenCritialKey :: "32 word \<Rightarrow> 64 word \<Rightarrow> 64 word \<Rightarrow> 'c key_embedder \<Rightarrow> 'c key_embedder" where
  "UpdateLastSeenCritialKey vk physical logical s =
     s\<lparr>critical_keys := map (\<lambda>(k, ck). (k, if k = vk then ck\<lparr>ck_physical := physical, ck_logical := logical\<rparr> else ck))
        (critical_keys s)\<rparr>"

section \<open>Synchronization\<close>

text \<open>The body of the loop over the critical keys, for one key.\<close>

definition sync_toggled :: "key_state \<Rightarrow> 32 word \<Rightarrow> bool \<Rightarrow> 32 word \<Rightarrow> critical_key \<Rightarrow> 'c key_embedder \<times> bool
    \<Rightarrow> (critical_key \<times> 'c key_embedder \<times> bool) res" where
  "sync_toggled ks event_vk is_event_down vk ck = (\<lambda>(s, can_be_repeat).
     if ck_physical ck = 0 then Inr (ck, s, can_be_repeat) else
     bindr (ensure DCheck_Failed (ck_logical ck \<noteq> 0)) (\<lambda>_.
     if \<not> check_toggled ck then Inr (ck, s, can_be_repeat) else
     let target_is_pressed = is_pressed s (ck_physical ck);
         pre_event_toggled = (if vk = event_vk \<and> \<not> target_is_pressed \<and> is_event_down then \<not> true_toggled ks vk
                              else true_toggled ks vk);
         ck' = ck\<lparr>toggled_on := true_toggled ks vk\<rparr>
     in if toggled_on ck \<noteq> pre_event_toggled then
          let s1 = (if target_is_pressed then SendEvent (SynthesizeSimpleEvent Key_Up ck) None s else s);
              s2 = set_record (ck_physical ck) (Some (ck_logical ck)) s1
          in Inr (ck', SendEvent (SynthesizeSimpleEvent Key_Down ck) None s2, False)
        else Inr (ck', s, can_be_repeat)))"

fun sync_toggled_all :: "key_state \<Rightarrow> 32 word \<Rightarrow> bool \<Rightarrow> (32 word \<times> critical_key) list \<Rightarrow> 'c key_embedder \<times> bool
    \<Rightarrow> ((32 word \<times> critical_key) list \<times> 'c key_embedder \<times> bool) res" where
  "sync_toggled_all ks event_vk down [] x = Inr ([], x)"
| "sync_toggled_all ks event_vk down ((vk, ck) # cks) x =
     bindr (sync_toggled ks event_vk down vk ck x) (\<lambda>(ck', x1).
     bindr (sync_toggled_all ks event_vk down cks x1) (\<lambda>(cks', x2). Inr ((vk, ck') # cks', x2)))"

(* map: shell/platform/windows/keyboard_key_embedder_handler.cc 363 416 KeyboardKeyEmbedderHandler::SynchronizeCritialToggledStates *)
definition SynchronizeCritialToggledStates :: "key_state \<Rightarrow> 32 word \<Rightarrow> bool \<Rightarrow> 'c key_embedder
    \<Rightarrow> ('c key_embedder \<times> bool) res" where
  "SynchronizeCritialToggledStates ks event_vk is_event_down s =
     bindr (sync_toggled_all ks event_vk is_event_down (critical_keys s) (s, True)) (\<lambda>(cks, s1, can_be_repeat).
       Inr (s1\<lparr>critical_keys := cks\<rparr>, can_be_repeat))"

text \<open>The physical key of the event is passed as an \<open>int\<close>.\<close>

definition sync_pressed :: "key_state \<Rightarrow> 32 word \<Rightarrow> 32 word \<Rightarrow> bool \<Rightarrow> bool \<Rightarrow> 'c key_embedder \<Rightarrow> 32 word \<times> critical_key
    \<Rightarrow> 'c key_embedder res" where
  "sync_pressed ks event_vk event_physical is_event_down can_be_repeat s = (\<lambda>(vk, ck).
     if ck_physical ck = 0 then Inr s else
     bindr (ensure DCheck_Failed (ck_logical ck \<noteq> 0)) (\<lambda>_.
     if \<not> check_pressed ck then Inr s
     else if is_event_down \<and> vk = event_vk \<and> can_be_repeat then Inr s
     else if \<not> is_event_down \<and> scast event_physical = ck_physical ck then Inr s
     else
       let now_pressed = is_pressed s (ck_physical ck);
           pre_event_pressed = (if is_event_down \<and> vk = event_vk then False else true_pressed ks vk)
       in if now_pressed \<noteq> pre_event_pressed then
            let s1 = set_record (ck_physical ck) (if now_pressed then None else Some (ck_logical ck)) s
            in Inr (SendEvent (SynthesizeSimpleEvent (if now_pressed then Key_Up else Key_Down) ck) None s1)
          else Inr s))"

(* map: shell/platform/windows/keyboard_key_embedder_handler.cc 418 493 KeyboardKeyEmbedderHandler::SynchronizeCritialPressedStates *)
definition SynchronizeCritialPressedStates :: "key_state \<Rightarrow> 32 word \<Rightarrow> 32 word \<Rightarrow> bool \<Rightarrow> bool \<Rightarrow> 'c key_embedder
    \<Rightarrow> 'c key_embedder res" where
  "SynchronizeCritialPressedStates ks event_vk event_physical is_event_down can_be_repeat s =
     run_ops (sync_pressed ks event_vk event_physical is_event_down can_be_repeat) s (critical_keys s)"

section \<open>Key events\<close>

definition WM_KEYDOWN :: "32 word" where "WM_KEYDOWN = 0x100"
definition WM_KEYUP :: "32 word" where "WM_KEYUP = 0x101"
definition WM_SYSKEYDOWN :: "32 word" where "WM_SYSKEYDOWN = 0x104"
definition WM_SYSKEYUP :: "32 word" where "WM_SYSKEYUP = 0x105"

record native_key =
  nk_key :: "32 word"
  nk_scancode :: "32 word"
  nk_action :: "32 word"
  nk_character :: "32 word"
  nk_extended :: bool
  nk_was_down :: bool

text \<open>
  The type of the main event, its character, the record that is to remain and the logical key of the event;
  \<open>None\<close> when the native event is to be ignored.
\<close>

(* map: shell/platform/windows/keyboard_key_embedder_handler.cc 217 267 KeyboardKeyEmbedderHandler::KeyboardHookImpl:event *)
definition main_event :: "bool \<Rightarrow> bool \<Rightarrow> 32 word \<Rightarrow> 64 word \<Rightarrow> 64 word option
    \<Rightarrow> (key_event_type \<times> 8 word list \<times> 64 word \<times> 64 word) option res" where
  "main_event is_event_down was_down ch logical rec =
     (if is_event_down then
        (case rec of
           Some l \<Rightarrow>
             if was_down then bindr (ConvertUtf32ToUtf8 ch) (\<lambda>bytes. Inr (Some (Key_Repeat, bytes, l, l)))
             else Inr None
         | None \<Rightarrow> bindr (ConvertUtf32ToUtf8 ch) (\<lambda>bytes. Inr (Some (Key_Down, bytes, logical, logical))))
      else
        let l = (case rec of Some l \<Rightarrow> l | None \<Rightarrow> 0)
        in if l = 0 then Inr None else Inr (Some (Key_Up, [], 0, l)))"

(* map: shell/platform/windows/keyboard_key_embedder_handler.cc 269 281 KeyboardKeyEmbedderHandler::KeyboardHookImpl:record *)
definition keep_record :: "64 word \<Rightarrow> 64 word \<Rightarrow> 'c key_embedder \<Rightarrow> 'c key_embedder res" where
  "keep_record physical eventual s =
     (if eventual \<noteq> 0 then Inr (set_record physical (Some eventual) s)
      else bindr (ensure DCheck_Failed (is_pressed s physical)) (\<lambda>_. Inr (set_record physical None s)))"

definition answer :: "'c \<Rightarrow> bool \<Rightarrow> 'c key_embedder \<Rightarrow> 'c key_embedder" where
  "answer cb handled s = s\<lparr>answers := answers s @ [(cb, handled)]\<rparr>"

definition await_response :: "'c \<Rightarrow> key_event \<Rightarrow> 'c key_embedder \<Rightarrow> 'c key_embedder" where
  "await_response cb e s =
     (let i = response_id s + 1
      in SendEvent e (Some i) (s\<lparr>response_id := i, pending_responses := omap_insert i cb (pending_responses s)\<rparr>))"

(* map: shell/platform/windows/keyboard_key_embedder_handler.cc 153 322 KeyboardKeyEmbedderHandler::KeyboardHookImpl *)
definition KeyboardHookImpl :: "key_maps \<Rightarrow> key_state \<Rightarrow> native_key \<Rightarrow> 'c \<Rightarrow> 'c key_embedder \<Rightarrow> 'c key_embedder res" where
  "KeyboardHookImpl maps ks nk cb s =
     (let physical = GetPhysicalKey maps (nk_scancode nk) (nk_extended nk);
          logical = GetLogicalKey maps (nk_key nk) (nk_extended nk) (nk_scancode nk);
          sequence_logical = (case pressingRecords s physical of Some l \<Rightarrow> l | None \<Rightarrow> logical);
          down = (nk_action nk = WM_KEYDOWN \<or> nk_action nk = WM_SYSKEYDOWN);
          ep = ucast physical
      in bindr (ensure DCheck_Failed (nk_action nk \<in> {WM_KEYDOWN, WM_KEYUP, WM_SYSKEYDOWN, WM_SYSKEYUP})) (\<lambda>_.
         if sequence_logical = VK_PROCESSKEY then Inr (answer cb True s) else
         bindr (SynchronizeCritialToggledStates ks (nk_key nk) down
                  (UpdateLastSeenCritialKey (nk_key nk) physical sequence_logical s)) (\<lambda>(s1, can_be_repeat).
         bindr (SynchronizeCritialPressedStates ks (nk_key nk) ep down can_be_repeat s1) (\<lambda>s2.
         bindr (main_event down (nk_was_down nk) (UndeadChar (nk_character nk)) logical (pressingRecords s2 physical)) (\<lambda>m.
         case m of
           None \<Rightarrow> Inr (answer cb True s2)
         | Some (t, bytes, eventual, result) \<Rightarrow>
             bindr (keep_record physical eventual s2) (\<lambda>s3.
             SynchronizeCritialPressedStates ks (nk_key nk) ep down can_be_repeat
               (await_response cb \<lparr>ke_type = t, ke_physical = physical, ke_logical = result, ke_character = bytes,
                  ke_synthesized = False\<rparr> s3)))))))"

definition empty_event :: key_event where
  "empty_event = \<lparr>ke_type = Key_Down, ke_physical = 0, ke_logical = 0, ke_character = [], ke_synthesized = False\<rparr>"

(* map: shell/platform/windows/keyboard_key_embedder_handler.cc 324 350 KeyboardKeyEmbedderHandler::KeyboardHook *)
definition KeyboardHook :: "key_maps \<Rightarrow> key_state \<Rightarrow> native_key \<Rightarrow> 'c \<Rightarrow> 'c key_embedder \<Rightarrow> 'c key_embedder res" where
  "KeyboardHook maps ks nk cb s =
     bindr (KeyboardHookImpl maps ks nk cb (s\<lparr>sent_any_events := False\<rparr>)) (\<lambda>s1.
       Inr (if \<not> sent_any_events s1 then SendEvent empty_event None s1 else s1))"

text \<open>A response for an event that is not pending would use a freed object.\<close>

(* map: shell/platform/windows/keyboard_key_embedder_handler.cc 495 499 KeyboardKeyEmbedderHandler::HandleResponse *)
definition HandleResponse :: "bool \<Rightarrow> 64 word \<Rightarrow> 'c key_embedder \<Rightarrow> 'c key_embedder res" where
  "HandleResponse handled i s =
     (case map_of (pending_responses s) i of
        None \<Rightarrow> Inl Undefined
      | Some cb \<Rightarrow> Inr (answer cb handled (s\<lparr>pending_responses := omap_erase i (pending_responses s)\<rparr>)))"

definition createCheckedKey :: "key_maps \<Rightarrow> key_state \<Rightarrow> (32 word \<Rightarrow> bool \<Rightarrow> 32 word) \<Rightarrow> 32 word \<Rightarrow> bool \<Rightarrow> bool \<Rightarrow> bool
    \<Rightarrow> critical_key" where
  "createCheckedKey maps ks vk_to_scan vk extended pressed toggled =
     (let scan = vk_to_scan vk extended
      in \<lparr>ck_physical = GetPhysicalKey maps scan extended, ck_logical = GetLogicalKey maps vk extended scan,
          check_pressed = pressed \<or> toggled, check_toggled = toggled, toggled_on = toggled \<and> true_toggled ks vk\<rparr>)"

text \<open>
  The virtual key codes of the critical keys, whether they are extended and whether they lock, in the order
  of the code; \<open>emplace\<close> sorts them.
\<close>

definition critical_key_list :: "(32 word \<times> bool \<times> bool) list" where
  "critical_key_list = [(0xA0, False, False), (0xA1, False, False), (0xA2, False, False), (0xA3, True, False),
     (0xA4, False, False), (0xA5, True, False), (0x5B, True, False), (0x5C, True, False),
     (0x14, False, True), (0x91, False, True), (0x90, True, True)]"

(* map: shell/platform/windows/keyboard_key_embedder_handler.cc 501 542 KeyboardKeyEmbedderHandler::InitCriticalKeys *)
definition InitCriticalKeys :: "key_maps \<Rightarrow> key_state \<Rightarrow> (32 word \<Rightarrow> bool \<Rightarrow> 32 word) \<Rightarrow> (32 word \<times> critical_key) list" where
  "InitCriticalKeys maps ks vk_to_scan =
     foldl (\<lambda>m (vk, extended, toggled). omap_insert vk (createCheckedKey maps ks vk_to_scan vk extended True toggled) m)
       [] critical_key_list"

(* map: shell/platform/windows/keyboard_key_embedder_handler.cc 60 68 KeyboardKeyEmbedderHandler::KeyboardKeyEmbedderHandler *)
definition KeyboardKeyEmbedderHandler :: "key_maps \<Rightarrow> key_state \<Rightarrow> (32 word \<Rightarrow> bool \<Rightarrow> 32 word) \<Rightarrow> 'c key_embedder" where
  "KeyboardKeyEmbedderHandler maps ks vk_to_scan =
     \<lparr>pressingRecords = (\<lambda>_. None), pending_responses = [], response_id = 1, sent_any_events = False,
      critical_keys = InitCriticalKeys maps ks vk_to_scan, sent = [], answers = []\<rparr>"

end
