(* ===== verification/Win_Key_Legal.thy ===== *)
theory Win_Key_Legal
  imports Win_Key_Embedder
begin

text \<open>
  What \<open>shell/platform/embedder/embedder.h\<close> asks of the key events an embedder sends, and the proof that the
  Windows handler of \<open>Win_Key_Embedder\<close> keeps to it, answers every native event and sends something for it.
\<close>

section \<open>Regular key events\<close>

text \<open>
  The physical keys that are pressed after an event; \<open>None\<close> when the event breaks the rules: a key goes down
  only when it is up, repeats and goes up only when it is down, and no event but the empty one has logical
  key 0.
\<close>

definition key_step :: "64 word set \<Rightarrow> key_event \<Rightarrow> 64 word set option" where
  "key_step P e =
     (if ke_physical e = 0 \<and> ke_logical e = 0 then Some P
      else if ke_logical e = 0 then None
      else case ke_type e of
        Key_Down \<Rightarrow> if ke_physical e \<in> P then None else Some (insert (ke_physical e) P)
      | Key_Repeat \<Rightarrow> if ke_physical e \<in> P then Some P else None
      | Key_Up \<Rightarrow> if ke_physical e \<in> P then Some (P - {ke_physical e}) else None)"

fun pressed_after :: "64 word set \<Rightarrow> key_event list \<Rightarrow> 64 word set option" where
  "pressed_after P [] = Some P"
| "pressed_after P (e # es) = Option.bind (key_step P e) (\<lambda>P'. pressed_after P' es)"

lemma pressed_after_append: "pressed_after P (xs @ ys) = Option.bind (pressed_after P xs) (\<lambda>P'. pressed_after P' ys)"
  by (induction xs arbitrary: P) (simp_all add: bind_assoc)

definition regular :: "'c key_embedder \<Rightarrow> bool" where
  "regular s \<longleftrightarrow> pressed_after {} (map fst (sent s)) = Some (dom (pressingRecords s)) \<and> (\<forall>p. pressingRecords s p \<noteq> Some 0)"

lemma regular_send:
  assumes "regular s" "key_step (dom (pressingRecords s)) e = Some (dom m)" "\<forall>p. m p \<noteq> Some 0"
  shows "regular (SendEvent e w (s\<lparr>pressingRecords := m\<rparr>))"
  using assms by (simp add: regular_def SendEvent_def pressed_after_append)

lemma regular_down:
  assumes "regular s" "\<not> is_pressed s (ke_physical e)" "l \<noteq> 0" "ke_type e = Key_Down" "ke_logical e \<noteq> 0"
  shows "regular (SendEvent e w (set_record (ke_physical e) (Some l) s))"
  using assms unfolding set_record_def by (intro regular_send) (auto simp: key_step_def is_pressed_def regular_def)

lemma regular_up:
  assumes "regular s" "is_pressed s (ke_physical e)" "ke_type e = Key_Up" "ke_logical e \<noteq> 0"
  shows "regular (SendEvent e w (set_record (ke_physical e) None s))"
  using assms unfolding set_record_def by (intro regular_send) (auto simp: key_step_def is_pressed_def regular_def)

lemma regular_repeat:
  assumes "regular s" "is_pressed s (ke_physical e)" "ke_type e = Key_Repeat" "ke_logical e \<noteq> 0" "l \<noteq> 0"
  shows "regular (SendEvent e w (set_record (ke_physical e) (Some l) s))"
  using assms unfolding set_record_def by (intro regular_send) (auto simp: key_step_def is_pressed_def regular_def)

text \<open>What else happens to the state keeps it regular.\<close>

lemma regular_frame [simp]:
  "regular (s\<lparr>critical_keys := k\<rparr>) = regular s" "regular (s\<lparr>response_id := i\<rparr>) = regular s"
  "regular (s\<lparr>pending_responses := r\<rparr>) = regular s" "regular (s\<lparr>sent_any_events := b\<rparr>) = regular s"
  "regular (answer cb h s) = regular s"
  by (simp_all add: regular_def answer_def)

lemma regular_empty_event: "regular s \<Longrightarrow> regular (SendEvent empty_event None s)"
  using regular_send [of s empty_event "pressingRecords s"]
  by (simp add: key_step_def empty_event_def regular_def)

lemma set_record_send: "set_record p l (SendEvent e w s) = SendEvent e w (set_record p l s)"
  by (simp add: set_record_def SendEvent_def)

lemma set_record_twice: "set_record p l (set_record p l' s) = set_record p l s"
  by (simp add: set_record_def)

section \<open>Synchronization keeps to the rules\<close>

lemma sync_toggled_regular:
  assumes "regular s" "sync_toggled ks evk down vk ck (s, rep) = Inr (ck', s', rep')"
  shows "regular s'"
proof (cases "s' = s")
  case False
  let ?p = "ck_physical ck" and ?up = "SynthesizeSimpleEvent Key_Up ck" and ?down = "SynthesizeSimpleEvent Key_Down ck"
  from False assms(2) have l: "ck_logical ck \<noteq> 0"
    and s': "s' = SendEvent ?down None (set_record ?p (Some (ck_logical ck)) (if is_pressed s ?p then SendEvent ?up None s else s))"
    by (auto simp: sync_toggled_def Let_def bindr_eq_Inr ensure_eq_Inr split: if_splits)
  show ?thesis
  proof (cases "is_pressed s ?p")
    case True
    have "regular (SendEvent ?up None (set_record ?p None s))"
      using regular_up [OF assms(1), of ?up] True l by (simp add: SynthesizeSimpleEvent_def)
    then have "regular (SendEvent ?down None (set_record ?p (Some (ck_logical ck)) (SendEvent ?up None (set_record ?p None s))))"
      using l by (intro regular_down [where e = ?down, simplified SynthesizeSimpleEvent_def key_event.simps, folded SynthesizeSimpleEvent_def])
        (simp_all add: is_pressed_def SendEvent_def set_record_def)
    with True show ?thesis by (simp add: s' set_record_send set_record_twice)
  next
    case False
    then show ?thesis using regular_down [OF assms(1), of ?down "ck_logical ck"] l by (simp add: s' SynthesizeSimpleEvent_def)
  qed
qed (use assms in simp)

lemma sync_toggled_all_regular:
  "regular (fst x) \<Longrightarrow> sync_toggled_all ks evk down cks x = Inr (cks', x') \<Longrightarrow> regular (fst x')"
proof (induction ks evk down cks x arbitrary: cks' x' rule: sync_toggled_all.induct)
  case (2 ks evk down vk ck cks x)
  then obtain ck' x1 cks1 where 1: "sync_toggled ks evk down vk ck x = Inr (ck', x1)"
    "sync_toggled_all ks evk down cks x1 = Inr (cks1, x')" by (auto simp: bindr_eq_Inr)
  moreover have "regular (fst x1)" using 1(1) 2(2) sync_toggled_regular by (cases x; cases x1) fastforce
  ultimately show ?case using 2(1) by blast
qed simp

lemma SynchronizeCritialToggledStates_regular:
  "regular s \<Longrightarrow> SynchronizeCritialToggledStates ks evk down s = Inr (s', rep) \<Longrightarrow> regular s'"
  using sync_toggled_all_regular [of "(s, True)" ks evk down "critical_keys s"]
  by (auto simp: SynchronizeCritialToggledStates_def bindr_eq_Inr)

lemma sync_pressed_regular:
  assumes "regular s" "sync_pressed ks evk ep down rep s (vk, ck) = Inr s'"
  shows "regular s'"
proof (cases "s' = s")
  case False
  let ?p = "ck_physical ck"
  from False assms(2) have l: "ck_logical ck \<noteq> 0"
    and s': "s' = SendEvent (SynthesizeSimpleEvent (if is_pressed s ?p then Key_Up else Key_Down) ck) None
      (set_record ?p (if is_pressed s ?p then None else Some (ck_logical ck)) s)"
    by (auto simp: sync_pressed_def Let_def bindr_eq_Inr ensure_eq_Inr split: if_splits)
  show ?thesis
    using regular_up [OF assms(1), of "SynthesizeSimpleEvent Key_Up ck"] l
      regular_down [OF assms(1), of "SynthesizeSimpleEvent Key_Down ck" "ck_logical ck"]
    by (simp add: s' SynthesizeSimpleEvent_def)
qed (use assms in simp)

interpretation sync: guarded_machine "sync_pressed ks evk ep down rep" regular for ks evk ep down rep
  by unfold_locales (auto dest: sync_pressed_regular)

lemma SynchronizeCritialPressedStates_regular:
  "regular s \<Longrightarrow> SynchronizeCritialPressedStates ks evk ep down rep s = Inr s' \<Longrightarrow> regular s'"
  unfolding SynchronizeCritialPressedStates_def by (rule sync.run_inv)

section \<open>Handling one native event\<close>

lemma regular_await: "regular (await_response cb e s) = regular (SendEvent e w s)"
  by (simp add: await_response_def Let_def regular_def SendEvent_def)

lemma main_event_regular:
  assumes "regular s" "main_event down was ch logical (pressingRecords s p) = Inr (Some (t, bytes, eventual, result))"
    "keep_record p eventual s = Inr s'"
  shows "regular (await_response cb \<lparr>ke_type = t, ke_physical = p, ke_logical = result, ke_character = bytes,
    ke_synthesized = False\<rparr> s')"
proof -
  let ?e = "\<lparr>ke_type = t, ke_physical = p, ke_logical = result, ke_character = bytes, ke_synthesized = False\<rparr>"
  have nz: "pressingRecords s p \<noteq> Some 0" using assms(1) by (simp add: regular_def)
  consider (rep) l where "pressingRecords s p = Some l" "t = Key_Repeat" "eventual = l" "result = l"
    | (down) "pressingRecords s p = None" "t = Key_Down" "eventual = logical" "result = logical"
    | (up) l where "pressingRecords s p = Some l" "l \<noteq> 0" "t = Key_Up" "eventual = 0" "result = l"
    using assms(2) by (auto simp: main_event_def Let_def bindr_eq_Inr split: if_splits option.splits)
  then have "regular (SendEvent ?e None s')"
  proof cases
    case (rep l)
    with nz assms(3) have "l \<noteq> 0" "s' = set_record p (Some l) s" by (auto simp: keep_record_def)
    with rep show ?thesis using regular_repeat [OF assms(1), of ?e l] by (simp add: is_pressed_def)
  next
    case down
    from assms(3) have k: "keep_record p logical s = Inr s'" unfolding down(3) .
    have np: "\<not> is_pressed s p" using down(1) unfolding is_pressed_def by blast
    have l: "logical \<noteq> 0"
    proof
      assume "logical = 0"
      with k np show False unfolding keep_record_def by simp
    qed
    with k have "s' = set_record p (Some logical) s" unfolding keep_record_def by simp
    with l np down show ?thesis using regular_down [OF assms(1), of ?e logical] by (simp add: is_pressed_def)
  next
    case (up l)
    with assms(3) have "s' = set_record p None s" by (auto simp: keep_record_def bindr_eq_Inr ensure_eq_Inr)
    with up show ?thesis using regular_up [OF assms(1), of ?e] by (simp add: is_pressed_def)
  qed
  then show ?thesis by (subst regular_await [where w = None])
qed

text \<open>The three ways in which a native event is handled.\<close>

lemma KeyboardHookImpl_cases:
  fixes maps ks nk
  defines "p \<equiv> GetPhysicalKey maps (nk_scancode nk) (nk_extended nk)"
    and "l \<equiv> GetLogicalKey maps (nk_key nk) (nk_extended nk) (nk_scancode nk)"
    and "down \<equiv> nk_action nk = WM_KEYDOWN \<or> nk_action nk = WM_SYSKEYDOWN"
  assumes "KeyboardHookImpl maps ks nk cb s = Inr s'"
  obtains (ime) "(case pressingRecords s p of Some l \<Rightarrow> l | None \<Rightarrow> l) = VK_PROCESSKEY" "s' = answer cb True s"
  | (ignored) s0 s1 rep s2 where "s0 = UpdateLastSeenCritialKey (nk_key nk) p (case pressingRecords s p of Some l \<Rightarrow> l | None \<Rightarrow> l) s"
      "SynchronizeCritialToggledStates ks (nk_key nk) down s0 = Inr (s1, rep)"
      "SynchronizeCritialPressedStates ks (nk_key nk) (ucast p) down rep s1 = Inr s2" "s' = answer cb True s2"
  | (event) s0 s1 rep s2 t bytes eventual result s3 where
      "s0 = UpdateLastSeenCritialKey (nk_key nk) p (case pressingRecords s p of Some l \<Rightarrow> l | None \<Rightarrow> l) s"
      "SynchronizeCritialToggledStates ks (nk_key nk) down s0 = Inr (s1, rep)"
      "SynchronizeCritialPressedStates ks (nk_key nk) (ucast p) down rep s1 = Inr s2"
      "main_event down (nk_was_down nk) (UndeadChar (nk_character nk)) l (pressingRecords s2 p)
        = Inr (Some (t, bytes, eventual, result))"
      "keep_record p eventual s2 = Inr s3"
      "SynchronizeCritialPressedStates ks (nk_key nk) (ucast p) down rep
        (await_response cb \<lparr>ke_type = t, ke_physical = p, ke_logical = result, ke_character = bytes, ke_synthesized = False\<rparr> s3)
        = Inr s'"
proof -
  define s0 where "s0 = UpdateLastSeenCritialKey (nk_key nk) p (case pressingRecords s p of Some l \<Rightarrow> l | None \<Rightarrow> l) s"
  note impl = assms(4) [unfolded KeyboardHookImpl_def Let_def, folded p_def l_def down_def, folded s0_def]
  show thesis
  proof (cases "(case pressingRecords s p of Some l \<Rightarrow> l | None \<Rightarrow> l) = VK_PROCESSKEY")
    case True
    from impl show ?thesis by (rule bindrE) (use True ime [OF True] in simp)
  next
    case False
    let ?rest = "\<lambda>s2 rep m. case m of None \<Rightarrow> Inr (answer cb True s2) | Some (t, bytes, eventual, result) \<Rightarrow>
             bindr (keep_record p eventual s2) (\<lambda>s3.
             SynchronizeCritialPressedStates ks (nk_key nk) (ucast p) down rep
               (await_response cb \<lparr>ke_type = t, ke_physical = p, ke_logical = result, ke_character = bytes,
                  ke_synthesized = False\<rparr> s3))"
    from impl have "bindr (SynchronizeCritialToggledStates ks (nk_key nk) down s0) (\<lambda>(s1, rep).
      bindr (SynchronizeCritialPressedStates ks (nk_key nk) (ucast p) down rep s1) (\<lambda>s2.
      bindr (main_event down (nk_was_down nk) (UndeadChar (nk_character nk)) l (pressingRecords s2 p)) (?rest s2 rep))) = Inr s'"
      by (rule bindrE) (simp only: False if_False)
    then obtain x where x: "SynchronizeCritialToggledStates ks (nk_key nk) down s0 = Inr x"
      and 1: "(case x of (s1, rep) \<Rightarrow>
         bindr (SynchronizeCritialPressedStates ks (nk_key nk) (ucast p) down rep s1) (\<lambda>s2.
         bindr (main_event down (nk_was_down nk) (UndeadChar (nk_character nk)) l (pressingRecords s2 p)) (?rest s2 rep))) = Inr s'"
      by (rule bindrE)
    obtain s1 rep where xe: "x = (s1, rep)" by (cases x)
    from 1 [unfolded xe prod.case] obtain s2 where s2: "SynchronizeCritialPressedStates ks (nk_key nk) (ucast p) down rep s1 = Inr s2"
      and 3: "bindr (main_event down (nk_was_down nk) (UndeadChar (nk_character nk)) l (pressingRecords s2 p)) (?rest s2 rep) = Inr s'"
      by (rule bindrE)
    from 3 obtain m where m: "main_event down (nk_was_down nk) (UndeadChar (nk_character nk)) l (pressingRecords s2 p) = Inr m"
      and 2: "?rest s2 rep m = Inr s'" by (rule bindrE)
    show ?thesis
    proof (cases m)
      case None
      with 2 have "s' = answer cb True s2" by simp
      with x s2 show ?thesis unfolding xe by (rule ignored [OF s0_def])
    next
      case (Some y)
      obtain t bytes eventual result where y: "y = (t, bytes, eventual, result)" by (cases y) auto
      from 2 [unfolded Some y option.case prod.case] obtain s3 where s3: "keep_record p eventual s2 = Inr s3"
        and 4: "SynchronizeCritialPressedStates ks (nk_key nk) (ucast p) down rep
               (await_response cb \<lparr>ke_type = t, ke_physical = p, ke_logical = result, ke_character = bytes,
                  ke_synthesized = False\<rparr> s3) = Inr s'" by (rule bindrE)
      show ?thesis by (rule event [OF s0_def x [unfolded xe] s2 m [unfolded Some y] s3 4])
    qed
  qed
qed

lemma KeyboardHookImpl_regular:
  assumes "regular s" "KeyboardHookImpl maps ks nk cb s = Inr s'"
  shows "regular s'"
proof -
  have u: "regular (UpdateLastSeenCritialKey vk p l s)" for vk p l using assms(1) by (simp add: UpdateLastSeenCritialKey_def)
  from assms(2) show ?thesis
  proof (cases rule: KeyboardHookImpl_cases)
    case (event s0 s1 rep s2 t bytes eventual result s3)
    then have "regular s2"
      using u SynchronizeCritialToggledStates_regular SynchronizeCritialPressedStates_regular by blast
    from SynchronizeCritialPressedStates_regular [OF main_event_regular [OF this event(4,5)] event(6)] show ?thesis .
  next
    case (ignored s0 s1 rep s2)
    then have "regular s2"
      using u SynchronizeCritialToggledStates_regular SynchronizeCritialPressedStates_regular by blast
    with ignored(4) show ?thesis by simp
  qed (use assms in simp)
qed

section \<open>What an event leaves alone\<close>

text \<open>What is sent comes last, and \<open>sent_any_events\<close> tells whether anything was.\<close>

definition sends :: "(key_event \<times> 64 word option) list \<Rightarrow> 'c key_embedder \<Rightarrow> 'c key_embedder \<Rightarrow> bool" where
  "sends es s s' \<longleftrightarrow> sent s' = sent s @ es \<and> (sent_any_events s' \<longleftrightarrow> sent_any_events s \<or> es \<noteq> [])"

lemma sends_trans: "sends es s s1 \<Longrightarrow> sends fs s1 s2 \<Longrightarrow> sends (es @ fs) s s2"
  by (auto simp: sends_def)

definition quiet :: "'c key_embedder \<Rightarrow> 'c key_embedder \<Rightarrow> bool" where
  "quiet s s' \<longleftrightarrow> answers s' = answers s \<and> pending_responses s' = pending_responses s \<and> response_id s' = response_id s
     \<and> (\<exists>es. sends es s s')"

lemma quiet_sent: "quiet s s' \<Longrightarrow> set (sent s) \<subseteq> set (sent s')"
  by (auto simp: quiet_def sends_def)

lemma quiet_refl [simp]: "quiet s s"
  by (auto simp: quiet_def sends_def)

lemma quiet_trans: "quiet s s1 \<Longrightarrow> quiet s1 s2 \<Longrightarrow> quiet s s2"
  unfolding quiet_def using sends_trans by fastforce

lemma quiet_simps [simp]:
  "quiet s (set_record p l s1) = quiet s s1"
  "quiet s (s1\<lparr>critical_keys := k\<rparr>) = quiet s s1"
  by (auto simp: quiet_def sends_def set_record_def)

lemma quiet_send: "quiet s s1 \<Longrightarrow> quiet s (SendEvent e w s1)"
  by (auto simp: quiet_def sends_def SendEvent_def)

lemma sync_toggled_quiet: "sync_toggled ks evk down vk ck (s, rep) = Inr (ck', s', rep') \<Longrightarrow> quiet s s'"
  by (auto simp: sync_toggled_def Let_def bindr_eq_Inr intro!: quiet_send split: if_splits)

lemma sync_toggled_all_quiet: "sync_toggled_all ks evk down cks (s, rep) = Inr (cks', s', rep') \<Longrightarrow> quiet s s'"
proof (induction cks arbitrary: s rep cks')
  case (Cons c cks)
  then show ?case
    by (cases c) (auto simp: bindr_eq_Inr dest!: sync_toggled_quiet intro: quiet_trans)
qed simp

lemma SynchronizeCritialToggledStates_quiet: "SynchronizeCritialToggledStates ks evk down s = Inr (s', rep) \<Longrightarrow> quiet s s'"
  by (auto simp: SynchronizeCritialToggledStates_def bindr_eq_Inr dest!: sync_toggled_all_quiet)

lemma sync_pressed_quiet: "sync_pressed ks evk ep down rep s x = Inr s' \<Longrightarrow> quiet s s'"
  by (cases x) (auto simp: sync_pressed_def Let_def bindr_eq_Inr intro!: quiet_send split: if_splits)

lemma SynchronizeCritialPressedStates_quiet:
  "SynchronizeCritialPressedStates ks evk ep down rep s = Inr s' \<Longrightarrow> quiet s s'"
proof -
  have "run_ops (sync_pressed ks evk ep down rep) s cks = Inr s' \<Longrightarrow> quiet s s'" for cks
    by (induction cks arbitrary: s) (auto simp: bindr_eq_Inr dest!: sync_pressed_quiet intro: quiet_trans)
  then show "SynchronizeCritialPressedStates ks evk ep down rep s = Inr s' \<Longrightarrow> quiet s s'"
    by (simp add: SynchronizeCritialPressedStates_def)
qed

lemma UpdateLastSeenCritialKey_quiet: "quiet s (UpdateLastSeenCritialKey vk p l s)"
  by (simp add: UpdateLastSeenCritialKey_def)

lemma keep_record_quiet: "keep_record p eventual s = Inr s' \<Longrightarrow> quiet s s'"
  by (auto simp: keep_record_def bindr_eq_Inr split: if_splits)

text \<open>The callback of a native event is called, or kept until the response to an event that was sent.\<close>

lemma KeyboardHookImpl_answers:
  assumes "KeyboardHookImpl maps ks nk cb s = Inr s'"
  obtains (answered) s1 where "quiet s s1" "s' = answer cb True s1"
  | (waiting) s1 e s2 where "quiet s s1" "s2 = await_response cb e s1" "quiet s2 s'"
  using assms
proof (cases rule: KeyboardHookImpl_cases)
  case ime
  then show ?thesis using answered [OF quiet_refl] by simp
next
  case (ignored s0 s1 rep s2)
  have "quiet s s1" unfolding ignored(1)
    by (rule quiet_trans [OF UpdateLastSeenCritialKey_quiet SynchronizeCritialToggledStates_quiet [OF ignored(2) [unfolded ignored(1)]]])
  from quiet_trans [OF this SynchronizeCritialPressedStates_quiet [OF ignored(3)]] show ?thesis
    using ignored(4) by (rule answered)
next
  case (event s0 s1 rep s2 t bytes eventual result s3)
  have "quiet s s1" unfolding event(1)
    by (rule quiet_trans [OF UpdateLastSeenCritialKey_quiet SynchronizeCritialToggledStates_quiet [OF event(2) [unfolded event(1)]]])
  from quiet_trans [OF quiet_trans [OF this SynchronizeCritialPressedStates_quiet [OF event(3)]] keep_record_quiet [OF event(5)]]
  show ?thesis by (rule waiting [OF _ refl SynchronizeCritialPressedStates_quiet [OF event(6)]])
qed

section \<open>Runs\<close>

text \<open>A native event with the key state at its time and its callback, or a response of the framework.\<close>

datatype 'c key_op = K_Event key_state native_key 'c | K_Response bool "64 word"

fun key_machine :: "key_maps \<Rightarrow> 'c key_embedder \<Rightarrow> 'c key_op \<Rightarrow> 'c key_embedder res" where
  "key_machine maps s (K_Event ks nk cb) = KeyboardHook maps ks nk cb s"
| "key_machine maps s (K_Response handled i) = HandleResponse handled i s"

fun callbacks :: "'c key_op list \<Rightarrow> 'c list" where
  "callbacks [] = []"
| "callbacks (K_Event ks nk cb # ops) = cb # callbacks ops"
| "callbacks (K_Response handled i # ops) = callbacks ops"

lemma KeyboardHook_regular: "regular s \<Longrightarrow> KeyboardHook maps ks nk cb s = Inr s' \<Longrightarrow> regular s'"
  using KeyboardHookImpl_regular [of "s\<lparr>sent_any_events := False\<rparr>" maps ks nk cb] regular_empty_event
  by (auto simp: KeyboardHook_def bindr_eq_Inr)

interpretation keys: guarded_machine "key_machine maps" regular for maps
proof
  show "regular s'" if "regular s" "key_machine maps s e = Inr s'" for maps s s' and e :: "'a key_op"
    using that KeyboardHook_regular by (cases e) (auto simp: HandleResponse_def split: option.splits)
qed

lemma regular_start: "regular (KeyboardKeyEmbedderHandler maps ks scan)"
  by (simp add: regular_def KeyboardKeyEmbedderHandler_def)

text \<open>
  C28: Whatever native key events come in, in whatever key state, with whatever responses in between, the
  events given to the framework keep two of the rules of \<open>embedder.h\<close>: a physical key goes down only when
  it is up, and repeats or goes up only when it is down; and only empty events have the logical key 0. What the
  framework takes to be pressed are the keys that the handler has records of. Not stated are the other two: that all
  events of a press have the same logical key, which does not hold, and that only empty events have the physical key 0.
\<close>

theorem key_events_are_regular:
  assumes "run_ops (key_machine maps) (KeyboardKeyEmbedderHandler maps ks scan) ops = Inr s"
  shows "pressed_after {} (map fst (sent s)) = Some (dom (pressingRecords s))"
  using keys.run_inv [OF regular_start assms] by (simp add: regular_def)

text \<open>The accounts of callbacks: answered, waiting for a response that will come, numbered apart.\<close>

definition accounted :: "nat \<Rightarrow> 'c list \<Rightarrow> 'c key_embedder \<Rightarrow> bool" where
  "accounted k cbs s \<longleftrightarrow> mset (map fst (answers s)) + mset (map snd (pending_responses s)) = mset cbs
     \<and> omap_ok (pending_responses s) \<and> unat (response_id s) \<le> k
     \<and> (\<forall>i\<in>fst ` set (pending_responses s). i \<le> response_id s \<and> (\<exists>e. (e, Some i) \<in> set (sent s)))"

lemma accounted_quiet:
  assumes a: "accounted k cbs s" and q: "quiet s s'"
  shows "accounted k cbs s'"
proof -
  have "\<forall>i\<in>fst ` set (pending_responses s). i \<le> response_id s \<and> (\<exists>e. (e, Some i) \<in> set (sent s'))"
    using a quiet_sent [OF q] unfolding accounted_def by blast
  then show ?thesis using a q by (simp add: accounted_def quiet_def)
qed

lemma accounted_await:
  assumes "accounted k cbs s" "Suc k < 2 ^ 64"
  shows "accounted (Suc k) (cb # cbs) (await_response cb e s)"
proof -
  let ?i = "response_id s + 1"
  have lt: "unat (response_id s) < 2 ^ 64 - 1" using assms by (simp add: accounted_def)
  then have u: "unat ?i = Suc (unat (response_id s))" by (simp add: unat_word_ariths)
  then have less: "response_id s < ?i" by (simp add: word_less_nat_alt)
  have new: "?i \<notin> fst ` set (pending_responses s)"
    using assms(1) less by (auto simp: accounted_def dest!: bspec)
  have "\<forall>i\<in>fst ` set (omap_insert ?i cb (pending_responses s)). i \<le> ?i \<and> (\<exists>e'. (e', Some i) \<in> set (sent s @ [(e, Some ?i)]))"
    unfolding set_omap_insert_keys
  proof
    fix i assume "i \<in> insert ?i (fst ` set (pending_responses s))"
    then consider "i = ?i" | "i \<in> fst ` set (pending_responses s)" by blast
    then show "i \<le> ?i \<and> (\<exists>e'. (e', Some i) \<in> set (sent s @ [(e, Some ?i)]))"
    proof cases
      case 2
      then have "i \<le> response_id s \<and> (\<exists>e'. (e', Some i) \<in> set (sent s))" using assms(1) unfolding accounted_def by blast
      then show ?thesis using less by auto
    qed auto
  qed
  then show ?thesis
    using assms(1) u mset_omap_insert [OF new] unfolding accounted_def
    by (simp add: await_response_def SendEvent_def Let_def omap_ok_insert)
qed

lemma accounted_answer: "accounted k cbs s \<Longrightarrow> accounted (Suc k) (cb # cbs) (answer cb h s)"
  by (simp add: accounted_def answer_def)

lemma accounted_hook:
  assumes "accounted k cbs s" "Suc k < 2 ^ 64" "KeyboardHookImpl maps ks nk cb s = Inr s'"
  shows "accounted (Suc k) (cb # cbs) s'"
  using assms(3)
proof (cases rule: KeyboardHookImpl_answers)
  case (answered s1)
  then show ?thesis using accounted_answer [OF accounted_quiet [OF assms(1) answered(1)]] by simp
next
  case (waiting s1 e s2)
  have "accounted (Suc k) (cb # cbs) s2"
    unfolding waiting(2) by (rule accounted_await [OF accounted_quiet [OF assms(1) waiting(1)] assms(2)])
  then show ?thesis by (rule accounted_quiet) (rule waiting(3))
qed

lemma KeyboardHook_accounted:
  assumes "accounted k cbs s" "Suc k < 2 ^ 64" "KeyboardHook maps ks nk cb s = Inr s'"
  shows "accounted (Suc k) (cb # cbs) s'"
proof -
  have "accounted k cbs (s\<lparr>sent_any_events := False\<rparr>)" using assms(1) by (simp add: accounted_def)
  then have "accounted (Suc k) (cb # cbs) s1" if "KeyboardHookImpl maps ks nk cb (s\<lparr>sent_any_events := False\<rparr>) = Inr s1" for s1
    by (rule accounted_hook [OF _ assms(2) that])
  moreover have "accounted (Suc k) (cb # cbs) (SendEvent empty_event None s1)" if "accounted (Suc k) (cb # cbs) s1" for s1
    by (rule accounted_quiet [OF that quiet_send [OF quiet_refl]])
  ultimately show ?thesis using assms(3) by (auto simp: KeyboardHook_def bindr_eq_Inr)
qed

lemma HandleResponse_accounted:
  assumes "accounted k cbs s" "HandleResponse handled i s = Inr s'"
  shows "accounted k cbs s'"
proof -
  from assms(2) obtain cb where cb: "map_of (pending_responses s) i = Some cb"
    and s': "s' = answer cb handled (s\<lparr>pending_responses := omap_erase i (pending_responses s)\<rparr>)"
    by (auto simp: HandleResponse_def split: option.splits)
  have "omap_ok (pending_responses s)" using assms(1) by (simp add: accounted_def)
  moreover have "set (omap_erase i (pending_responses s)) \<subseteq> set (pending_responses s)"
    by (auto simp: omap_erase_def)
  ultimately show ?thesis
    using mset_omap_erase [OF _ cb] assms(1) omap_ok_erase unfolding accounted_def s' answer_def by auto
qed

text \<open>What one call sends: its own events, or the empty one when it has none.\<close>

definition told :: "key_maps \<Rightarrow> key_state \<Rightarrow> native_key \<Rightarrow> 'c \<Rightarrow> 'c key_embedder \<Rightarrow> (key_event \<times> 64 word option) list \<Rightarrow> bool" where
  "told maps ks nk cb s es \<longleftrightarrow> (case KeyboardHookImpl maps ks nk cb s of
     Inl e \<Rightarrow> False
   | Inr s' \<Rightarrow> (if length (sent s') = length (sent s) then es = [(empty_event, None)]
                else es \<noteq> [] \<and> sent s' = sent s @ es))"

lemma Impl_sends:
  assumes "KeyboardHookImpl maps ks nk cb s = Inr s'"
  obtains es where "sends es s s'"
  using assms
proof (cases rule: KeyboardHookImpl_answers)
  case (answered s1)
  then obtain es where "sends es s s1" by (auto simp: quiet_def)
  then have "sends es s s'" using answered(2) by (simp add: sends_def answer_def)
  then show ?thesis by (rule that)
next
  case (waiting s1 e s2)
  then obtain es fs where s: "sends es s s1" "sends fs s2 s'" by (auto simp: quiet_def)
  have "sends [(e, Some (response_id s1 + 1))] s1 s2"
    by (simp add: waiting(2) sends_def await_response_def SendEvent_def Let_def)
  from sends_trans [OF sends_trans [OF s(1) this] s(2)] show ?thesis by (rule that)
qed

lemma KeyboardHook_tells:
  assumes "KeyboardHook maps ks nk cb s = Inr s'"
  shows "\<exists>es. sent s' = sent s @ es \<and> told maps ks nk cb (s\<lparr>sent_any_events := False\<rparr>) es"
proof -
  from assms obtain s1 where s1: "KeyboardHookImpl maps ks nk cb (s\<lparr>sent_any_events := False\<rparr>) = Inr s1"
    and s': "s' = (if \<not> sent_any_events s1 then SendEvent empty_event None s1 else s1)"
    by (auto simp: KeyboardHook_def bindr_eq_Inr)
  from Impl_sends [OF s1] obtain es where "sends es (s\<lparr>sent_any_events := False\<rparr>) s1" .
  then have es: "sent s1 = sent s @ es" "sent_any_events s1 \<longleftrightarrow> es \<noteq> []" by (auto simp: sends_def)
  show ?thesis
    by (cases "es = []") (auto simp: es s' told_def s1 SendEvent_def)
qed

text \<open>The events sent during a run, one part for each native event.\<close>

fun told_all :: "key_maps \<Rightarrow> 'c key_embedder \<Rightarrow> 'c key_op list \<Rightarrow> (key_event \<times> 64 word option) list list \<Rightarrow> bool" where
  "told_all maps s [] parts \<longleftrightarrow> parts = []"
| "told_all maps s (K_Response handled i # ops) parts \<longleftrightarrow>
     (case HandleResponse handled i s of Inl e \<Rightarrow> False | Inr s' \<Rightarrow> told_all maps s' ops parts)"
| "told_all maps s (K_Event ks nk cb # ops) parts \<longleftrightarrow>
     (case parts of [] \<Rightarrow> False
      | es # parts \<Rightarrow> told maps ks nk cb (s\<lparr>sent_any_events := False\<rparr>) es \<and>
          (case KeyboardHook maps ks nk cb s of Inl e \<Rightarrow> False | Inr s' \<Rightarrow> told_all maps s' ops parts))"

lemma run_told:
  "run_ops (key_machine maps) s ops = Inr s' \<Longrightarrow> \<exists>parts. told_all maps s ops parts \<and> sent s' = sent s @ concat parts"
proof (induction ops arbitrary: s)
  case (Cons x ops)
  from Cons.prems obtain s1 where s1: "key_machine maps s x = Inr s1" "run_ops (key_machine maps) s1 ops = Inr s'"
    by (auto simp: bindr_eq_Inr)
  from Cons.IH [OF s1(2)] obtain parts where p: "told_all maps s1 ops parts" "sent s' = sent s1 @ concat parts" by blast
  show ?case
  proof (cases x)
    case (K_Event ks nk cb)
    with s1(1) have h: "KeyboardHook maps ks nk cb s = Inr s1" by simp
    from KeyboardHook_tells [OF this] obtain es where es: "sent s1 = sent s @ es" "told maps ks nk cb (s\<lparr>sent_any_events := False\<rparr>) es"
      by blast
    have "told_all maps s (x # ops) (es # parts)" using K_Event h es(2) p(1) by simp
    moreover have "sent s' = sent s @ concat (es # parts)" using p(2) es(1) by simp
    ultimately show ?thesis by blast
  next
    case (K_Response handled i)
    moreover have "sent s1 = sent s" using s1(1) K_Response by (auto simp: HandleResponse_def answer_def split: option.splits)
    ultimately show ?thesis using s1(1) p by auto
  qed
qed simp

lemma told_nonempty: "told maps ks nk cb s es \<Longrightarrow> es \<noteq> []"
  by (auto simp: told_def split: sum.splits if_splits)

lemma told_length: "told_all maps s ops parts \<Longrightarrow> length parts = length (callbacks ops) \<and> length (callbacks ops) \<le> length (concat parts)"
proof (induction maps s ops parts rule: told_all.induct)
  case (3 maps s ks nk cb ops parts)
  then obtain es ps s1 where p: "parts = es # ps" "KeyboardHook maps ks nk cb s = Inr s1"
    "told maps ks nk cb (s\<lparr>sent_any_events := False\<rparr>) es" "told_all maps s1 ops ps"
    by (auto split: list.splits sum.splits)
  have "es \<noteq> []" by (rule told_nonempty [OF p(3)])
  with "3.IH" [OF p(1,2,4)] p(1) show ?case by (cases es) auto
qed (auto split: sum.splits)

lemma run_accounted:
  "run_ops (key_machine maps) s ops = Inr s' \<Longrightarrow> accounted k cbs s \<Longrightarrow> k + length ops < 2 ^ 64 \<Longrightarrow>
    accounted (k + length ops) (rev (callbacks ops) @ cbs) s'"
proof (induction ops arbitrary: s k cbs)
  case (Cons x ops)
  from Cons.prems(1) obtain s1 where s1: "key_machine maps s x = Inr s1" "run_ops (key_machine maps) s1 ops = Inr s'"
    by (auto simp: bindr_eq_Inr)
  show ?case
  proof (cases x)
    case (K_Event ks nk cb)
    have "accounted (Suc k) (cb # cbs) s1" using KeyboardHook_accounted s1(1) Cons.prems K_Event by fastforce
    from Cons.IH [OF s1(2) this] Cons.prems(3) K_Event show ?thesis by fastforce
  next
    case (K_Response handled i)
    have "accounted k cbs s1" using HandleResponse_accounted s1(1) Cons.prems(2) K_Response by fastforce
    then have "accounted (Suc k) cbs s1" by (simp add: accounted_def)
    then show ?thesis using Cons.IH [OF s1(2)] Cons.prems(3) K_Response by fastforce
  qed
qed simp

text \<open>
  C29: Every native key event is answered exactly once, or still waits for the response to an event that was
  sent to the framework. The events sent during a run fall into one part for each native event, in order: the events that
  its handling sends, of which there is at least one, or exactly the empty event when its handling sends none.
\<close>

theorem every_native_event_is_answered:
  assumes "run_ops (key_machine maps) (KeyboardKeyEmbedderHandler maps ks scan) ops = Inr s" "length ops < 2 ^ 64 - 1"
  shows "mset (map fst (answers s)) + mset (map snd (pending_responses s)) = mset (callbacks ops)
    \<and> fst ` set (pending_responses s) \<subseteq> {i. \<exists>e. (e, Some i) \<in> set (sent s)}
    \<and> length (callbacks ops) \<le> length (sent s)
    \<and> (\<exists>parts. told_all maps (KeyboardKeyEmbedderHandler maps ks scan) ops parts \<and> sent s = concat parts)"
proof -
  have "accounted 1 [] (KeyboardKeyEmbedderHandler maps ks scan)"
    by (simp add: accounted_def KeyboardKeyEmbedderHandler_def)
  moreover obtain parts where p: "told_all maps (KeyboardKeyEmbedderHandler maps ks scan) ops parts" "sent s = concat parts"
    using run_told [OF assms(1)] by (auto simp: KeyboardKeyEmbedderHandler_def)
  ultimately show ?thesis
    using run_accounted [OF assms(1)] assms(2) told_length [OF p(1)] by (fastforce simp: accounted_def)
qed

end
