(* ===== verification/Win_Key_Sync.thy ===== *)
theory Win_Key_Sync
  imports Win_Key_Legal
begin

text \<open>
  That the Windows handler brings the keys it watches in step with the state Windows reports, the case in
  which it does not, and the witnesses of the properties of \<open>Win_Key_Legal\<close>.
\<close>

section \<open>The effect of synchronizing the pressed states\<close>

definition seen_physicals :: "(32 word \<times> critical_key) list \<Rightarrow> 64 word list" where
  "seen_physicals cks = filter (\<lambda>p. p \<noteq> 0) (map (\<lambda>c. ck_physical (snd c)) cks)"

text \<open>The critical key that the event is about, for which nothing is synthesized.\<close>

definition is_event_key :: "32 word \<Rightarrow> 32 word \<Rightarrow> bool \<Rightarrow> 32 word \<Rightarrow> critical_key \<Rightarrow> bool" where
  "is_event_key evk ep down vk ck \<longleftrightarrow> (if down then vk = evk else scast ep = ck_physical ck)"

lemma sync_pressed_effect:
  assumes "sync_pressed ks evk ep down rep s (vk, ck) = Inr s'"
  shows "critical_keys s' = critical_keys s"
    and "p \<noteq> ck_physical ck \<Longrightarrow> is_pressed s' p = is_pressed s p"
    and "ck_physical ck = 0 \<Longrightarrow> s' = s"
    and "ck_physical ck \<noteq> 0 \<Longrightarrow> check_pressed ck \<Longrightarrow> \<not> is_event_key evk ep down vk ck \<Longrightarrow>
      is_pressed s' (ck_physical ck) = true_pressed ks vk"
  using assms
  by (auto simp: sync_pressed_def Let_def bindr_eq_Inr SendEvent_def set_record_def is_pressed_def is_event_key_def
    split: if_splits)

lemma sync_run_effect:
  "run_ops (sync_pressed ks evk ep down rep) s cks = Inr s' \<Longrightarrow> distinct (seen_physicals cks) \<Longrightarrow>
    critical_keys s' = critical_keys s
    \<and> (\<forall>p. p \<noteq> 0 \<longrightarrow> p \<notin> set (seen_physicals cks) \<longrightarrow> is_pressed s' p = is_pressed s p)
    \<and> (\<forall>(vk, ck)\<in>set cks. ck_physical ck \<noteq> 0 \<longrightarrow> check_pressed ck \<longrightarrow> \<not> is_event_key evk ep down vk ck \<longrightarrow>
         is_pressed s' (ck_physical ck) = true_pressed ks vk)"
proof (induction cks arbitrary: s)
  case (Cons c cks)
  obtain vk ck where c: "c = (vk, ck)" by (cases c)
  from Cons.prems(1) obtain s1 where s1: "sync_pressed ks evk ep down rep s (vk, ck) = Inr s1"
    and run: "run_ops (sync_pressed ks evk ep down rep) s1 cks = Inr s'" by (auto simp: c elim: bindrE)
  have d: "distinct (seen_physicals cks)" using Cons.prems(2) by (simp add: seen_physicals_def split: if_splits)
  have new: "ck_physical ck \<noteq> 0 \<Longrightarrow> ck_physical ck \<notin> set (seen_physicals cks)"
    using Cons.prems(2) by (simp add: c seen_physicals_def)
  note IH = Cons.IH [OF run d]
  note eff = sync_pressed_effect [OF s1]
  have "is_pressed s' p = is_pressed s p" if "p \<noteq> 0" "p \<notin> set (seen_physicals (c # cks))" for p
    using that IH eff(2) by (simp add: c seen_physicals_def split: if_splits)
  moreover have "is_pressed s' (ck_physical ck) = true_pressed ks vk"
    if "ck_physical ck \<noteq> 0" "check_pressed ck" "\<not> is_event_key evk ep down vk ck"
    using that IH new eff(4) by simp
  ultimately show ?case using IH eff(1) by (simp add: c)
qed simp

lemma SynchronizeCritialPressedStates_effect:
  assumes "SynchronizeCritialPressedStates ks evk ep down rep s = Inr s'" "distinct (seen_physicals (critical_keys s'))"
    "(vk, ck) \<in> set (critical_keys s')" "ck_physical ck \<noteq> 0" "check_pressed ck" "\<not> is_event_key evk ep down vk ck"
  shows "is_pressed s' (ck_physical ck) = true_pressed ks vk"
proof -
  have run: "run_ops (sync_pressed ks evk ep down rep) s (critical_keys s) = Inr s'"
    using assms(1) by (simp add: SynchronizeCritialPressedStates_def)
  have "critical_keys t' = critical_keys t" if "run_ops (sync_pressed ks evk ep down rep) t cks = Inr t'" for t t' cks
    using that by (induction cks arbitrary: t) (auto elim!: bindrE dest: sync_pressed_effect(1))
  with run have "critical_keys s' = critical_keys s" by blast
  with sync_run_effect [OF run] assms(2-) show ?thesis by auto
qed

text \<open>
  C30: After a native key event that is not for an input method, every critical key that has been seen, other
  than the key of the event itself, is recorded as pressed exactly when Windows reports it as pressed,
  whether the event led to an event for the framework or was ignored. The critical keys are assumed to have
  been seen on different physical keys.
\<close>

theorem critical_keys_in_step:
  assumes "KeyboardHook maps ks nk cb s = Inr s'"
    and "(case pressingRecords s (GetPhysicalKey maps (nk_scancode nk) (nk_extended nk)) of Some l \<Rightarrow> l
          | None \<Rightarrow> GetLogicalKey maps (nk_key nk) (nk_extended nk) (nk_scancode nk)) \<noteq> VK_PROCESSKEY"
    and "distinct (seen_physicals (critical_keys s'))" "(vk, ck) \<in> set (critical_keys s')"
    and "ck_physical ck \<noteq> 0" "check_pressed ck"
    and "\<not> is_event_key (nk_key nk) (ucast (GetPhysicalKey maps (nk_scancode nk) (nk_extended nk)))
          (nk_action nk = WM_KEYDOWN \<or> nk_action nk = WM_SYSKEYDOWN) vk ck"
  shows "is_pressed s' (ck_physical ck) = true_pressed ks vk"
proof -
  obtain s1 where s1: "KeyboardHookImpl maps ks nk cb (s\<lparr>sent_any_events := False\<rparr>) = Inr s1"
    and s': "s' = (if \<not> sent_any_events s1 then SendEvent empty_event None s1 else s1)"
    using assms(1) by (auto simp: KeyboardHook_def elim!: bindrE)
  have keys: "critical_keys s' = critical_keys s1" "is_pressed s' p = is_pressed s1 p" for p
    by (simp_all add: s' SendEvent_def is_pressed_def)
  note post = SynchronizeCritialPressedStates_effect [OF _ _ _ assms(5-7)]
  from s1 have "is_pressed s1 (ck_physical ck) = true_pressed ks vk"
  proof (cases rule: KeyboardHookImpl_cases)
    case ime
    with assms(2) show ?thesis by simp
  next
    case (ignored s0 s1' rep s2)
    then show ?thesis using post [OF ignored(3)] assms(3,4) keys by (simp add: answer_def is_pressed_def)
  next
    case (event s0 s1' rep s2 t bytes eventual result s3)
    then show ?thesis using post [OF event(6)] assms(3,4) keys by simp
  qed
  then show ?thesis using keys by simp
qed

section \<open>NumLock toggled elsewhere\<close>

text \<open>A keyboard on which NumLock is the key with scan code 0x45 and the letter A the one with 0x1e.\<close>

definition demo_maps :: key_maps where
  "demo_maps = \<lparr>windowsToPhysicalMap = [0xe045 \<mapsto> 0x70053, 0x1e \<mapsto> 0x70004],
     windowsToLogicalMap = [0x90 \<mapsto> 0x0010000010a], scanCodeToLogicalMap = Map.empty\<rparr>"

definition demo_scan :: "32 word \<Rightarrow> bool \<Rightarrow> 32 word" where
  "demo_scan vk extended = (if vk = 0x90 then 0x45 else vk)"

definition keys_up :: key_state where "keys_up = (\<lambda>_. 0)"

definition numlock_held :: key_state where "numlock_held = (\<lambda>vk. if vk = 0x90 then 0x80 else 0)"

definition numlock_down :: native_key where
  "numlock_down = \<lparr>nk_key = 0x90, nk_scancode = 0x45, nk_action = WM_KEYDOWN, nk_character = 0, nk_extended = True,
     nk_was_down = False\<rparr>"

definition letter_down :: native_key where
  "letter_down = \<lparr>nk_key = 0x41, nk_scancode = 0x1e, nk_action = WM_KEYDOWN, nk_character = 0x61, nk_extended = False,
     nk_was_down = False\<rparr>"

text \<open>
  When NumLock was toggled while the window did not see it, and is then pressed and held, the handler
  synthesizes a press and a release before the event, sends the event, and then synthesizes a release: the
  synchronization after the event still takes the key of the event to be one that has to be up before it.
  Windows reports the key as pressed, and the framework takes it to be released.
\<close>

theorem numlock_resync_releases_held_key:
  "case KeyboardHook demo_maps numlock_held numlock_down () (KeyboardKeyEmbedderHandler demo_maps keys_up demo_scan) of
     Inl e \<Rightarrow> False
   | Inr s \<Rightarrow>
       map (\<lambda>(e, _). (ke_type e, ke_synthesized e)) (sent s)
         = [(Key_Down, True), (Key_Up, True), (Key_Down, False), (Key_Up, True)]
       \<and> \<not> is_pressed s (GetPhysicalKey demo_maps 0x45 True) \<and> true_pressed numlock_held 0x90"
  by code_simp

section \<open>Two logical keys in one press\<close>

text \<open>
  The letter A from the scan code of the left shift key, as a program may send it, while no shift key is held: the press
  that the event begins with the logical key of the letter is ended by a synthesized event with that of the shift key,
  which \<open>embedder.h\<close> rules out.
\<close>

definition shift_maps :: key_maps where
  "shift_maps = \<lparr>windowsToPhysicalMap = [0x2a \<mapsto> 0x700e1], windowsToLogicalMap = [0xA0 \<mapsto> 0x200000102],
     scanCodeToLogicalMap = Map.empty\<rparr>"

definition letter_as_shift :: native_key where
  "letter_as_shift = \<lparr>nk_key = 0x41, nk_scancode = 0x2a, nk_action = WM_KEYDOWN, nk_character = 0x61, nk_extended = False,
     nk_was_down = False\<rparr>"

lemma press_with_two_logical_keys:
  "case KeyboardHook shift_maps keys_up letter_as_shift ()
       (KeyboardKeyEmbedderHandler shift_maps keys_up (\<lambda>vk _. if vk = 0xA0 then 0x2a else 0)) of
     Inl e \<Rightarrow> False
   | Inr s \<Rightarrow> map (\<lambda>(e, _). (ke_type e, ke_physical e, ke_logical e, ke_synthesized e)) (sent s)
         = [(Key_Down, 0x700e1, 0x61, False), (Key_Up, 0x700e1, 0x200000102, True)]"
  by code_simp

section \<open>Witnesses\<close>

abbreviation demo_handler :: "nat key_embedder" where
  "demo_handler \<equiv> KeyboardKeyEmbedderHandler demo_maps keys_up demo_scan"

abbreviation demo_ops :: "nat key_op list" where
  "demo_ops \<equiv> [K_Event keys_up letter_down 7, K_Response True 2, K_Event numlock_held numlock_down 8]"

lemma demo_keys_run:
  "case run_ops (key_machine demo_maps) demo_handler demo_ops of
     Inl e \<Rightarrow> False | Inr s \<Rightarrow> map (\<lambda>(e, w). ke_type e) (sent s) = [Key_Down, Key_Down, Key_Up, Key_Down, Key_Up]"
  by code_simp

theorem key_events_are_regular_witness:
  "\<exists>s. run_ops (key_machine demo_maps) demo_handler demo_ops = Inr s
     \<and> map (\<lambda>(e, w). ke_type e) (sent s) = [Key_Down, Key_Down, Key_Up, Key_Down, Key_Up]
     \<and> pressed_after {} (map fst (sent s)) = Some (dom (pressingRecords s))"
  using demo_keys_run key_events_are_regular [of demo_maps keys_up demo_scan demo_ops] by (auto split: sum.splits)

theorem every_native_event_is_answered_witness:
  "\<exists>s. run_ops (key_machine demo_maps) demo_handler demo_ops = Inr s
     \<and> mset (map fst (answers s)) + mset (map snd (pending_responses s)) = {#7, 8#} \<and> 2 \<le> length (sent s)"
  using demo_keys_run every_native_event_is_answered [of demo_maps keys_up demo_scan demo_ops]
  by (auto simp del: run_ops.simps split: sum.splits)

definition demo_numlock :: critical_key where
  "demo_numlock = \<lparr>ck_physical = 0x70053, ck_logical = 0x0010000010a, check_pressed = True, check_toggled = True,
     toggled_on = False\<rparr>"

theorem critical_keys_in_step_witness:
  "\<exists>s. KeyboardHook demo_maps numlock_held letter_down 9 demo_handler = Inr s
     \<and> (0x90, demo_numlock) \<in> set (critical_keys s) \<and> is_pressed s 0x70053"
proof -
  have "case KeyboardHook demo_maps numlock_held letter_down 9 demo_handler of
     Inl e \<Rightarrow> False
   | Inr s \<Rightarrow> distinct (seen_physicals (critical_keys s)) \<and> (0x90, demo_numlock) \<in> set (critical_keys s)" by code_simp
  then obtain s where s: "KeyboardHook demo_maps numlock_held letter_down 9 demo_handler = Inr s"
    "distinct (seen_physicals (critical_keys s))" "(0x90, demo_numlock) \<in> set (critical_keys s)"
    by (auto split: sum.splits)
  have ck: "ck_physical demo_numlock \<noteq> 0" "check_pressed demo_numlock" "ck_physical demo_numlock = 0x70053"
    by (simp_all add: demo_numlock_def)
  have "(case pressingRecords demo_handler (GetPhysicalKey demo_maps (nk_scancode letter_down) (nk_extended letter_down)) of
      Some l \<Rightarrow> l | None \<Rightarrow> GetLogicalKey demo_maps (nk_key letter_down) (nk_extended letter_down) (nk_scancode letter_down))
      \<noteq> VK_PROCESSKEY" by code_simp
  moreover have "\<not> is_event_key (nk_key letter_down)
      (ucast (GetPhysicalKey demo_maps (nk_scancode letter_down) (nk_extended letter_down)))
      (nk_action letter_down = WM_KEYDOWN \<or> nk_action letter_down = WM_SYSKEYDOWN) 0x90 demo_numlock" by code_simp
  ultimately have "is_pressed s (ck_physical demo_numlock) = true_pressed numlock_held 0x90"
    by (rule critical_keys_in_step [OF s(1) _ s(2,3) ck(1,2)])
  moreover have "true_pressed numlock_held 0x90" by code_simp
  ultimately show ?thesis using s(1,3) ck(3) by auto
qed

end
