(* ===== verification/Win_Key_Manager.thy ===== *)
theory Win_Key_Manager
  imports Prelude
begin

text \<open>
  \<open>shell/platform/windows/keyboard_manager.cc\<close>: Win32 messages become key calls and text calls, one at a
  time. The calls of the window delegate are a log; the callback of a key call comes later, as
  \<open>OnKeyResult\<close>. \<open>Win32DispatchMessage\<close> is \<open>SendMessage\<close>, which delivers the message before it returns. What
  the system tells (the next message, the mapping of virtual keys) is a parameter.
\<close>

unbundle bit_operations_syntax

section \<open>Messages\<close>

(* map: shell/platform/windows/keyboard_manager.h 111 123 KeyboardManager::Win32Message *)
record win_message =
  m_action :: "32 word"
  m_wparam :: "64 word"
  m_lparam :: "64 word"

definition is_action :: "nat list \<Rightarrow> 32 word \<Rightarrow> bool" where
  "is_action codes a \<longleftrightarrow> unat a \<in> set codes"

abbreviation key_down :: "32 word \<Rightarrow> bool" where "key_down \<equiv> is_action [0x100, 0x104]"

abbreviation key_up :: "32 word \<Rightarrow> bool" where "key_up \<equiv> is_action [0x101, 0x105]"

abbreviation char_action :: "32 word \<Rightarrow> bool" where "char_action \<equiv> is_action [0x102, 0x103, 0x106, 0x107]"

abbreviation dead_char :: "32 word \<Rightarrow> bool" where "dead_char \<equiv> is_action [0x103, 0x107]"

definition MSG_KEYDOWN :: "32 word" where "MSG_KEYDOWN = 0x100"
definition MSG_KEYUP :: "32 word" where "MSG_KEYUP = 0x101"
definition MSG_CHAR :: "32 word" where "MSG_CHAR = 0x102"
definition MSG_SYSKEYDOWN :: "32 word" where "MSG_SYSKEYDOWN = 0x104"
definition MSG_SYSCHAR :: "32 word" where "MSG_SYSCHAR = 0x106"

(* map: shell/platform/windows/keyboard_manager.cc 99 102 IsSysAction *)
definition IsSysAction :: "32 word \<Rightarrow> bool" where
  "IsSysAction = is_action [0x104, 0x105, 0x106, 0x107]"

definition IsHighSurrogate :: "win_message \<Rightarrow> bool" where
  "IsHighSurrogate m \<longleftrightarrow> 0xd800 \<le> m_wparam m \<and> m_wparam m \<le> 0xdbff"

definition IsLowSurrogate :: "win_message \<Rightarrow> bool" where
  "IsLowSurrogate m \<longleftrightarrow> 0xdc00 \<le> m_wparam m \<and> m_wparam m \<le> 0xdfff"

(* map: shell/platform/windows/keyboard_manager.cc 44 47 IsKeyDownAltRight *)
definition IsKeyDownAltRight :: "32 word \<Rightarrow> 16 word \<Rightarrow> bool \<Rightarrow> bool" where
  "IsKeyDownAltRight action vk extended \<longleftrightarrow> vk = 0xA5 \<and> extended \<and> key_down action"

(* map: shell/platform/windows/keyboard_manager.cc 52 55 IsKeyUpAltRight *)
definition IsKeyUpAltRight :: "32 word \<Rightarrow> 16 word \<Rightarrow> bool \<Rightarrow> bool" where
  "IsKeyUpAltRight action vk extended \<longleftrightarrow> vk = 0xA5 \<and> extended \<and> key_up action"

(* map: shell/platform/windows/keyboard_manager.cc 60 63 IsKeyDownCtrlLeft *)
definition IsKeyDownCtrlLeft :: "32 word \<Rightarrow> 16 word \<Rightarrow> bool" where
  "IsKeyDownCtrlLeft action vk \<longleftrightarrow> vk = 0xA2 \<and> key_down action"

(* map: shell/platform/windows/keyboard_manager.cc 70 73 CodePointFromSurrogatePair *)
definition CodePointFromSurrogatePair :: "16 word \<Rightarrow> 16 word \<Rightarrow> 32 word" where
  "CodePointFromSurrogatePair high low = 0x10000 + push_bit 10 (ucast high AND 0x3FF) + (ucast low AND 0x3FF)"

(* map: shell/platform/windows/keyboard_manager.cc 93 97 IsPrintable *)
definition IsPrintable :: "32 word \<Rightarrow> bool" where
  "IsPrintable c \<longleftrightarrow> c \<ge> 0x20 \<and> c \<noteq> 0x7F"

text \<open>The code for a dead key, and what the system answers while one message is handled.\<close>

definition kDeadKeyCharMask :: "32 word" where "kDeadKeyCharMask = 0x80000000"

record win_env =
  map_vk_to_char :: "32 word \<Rightarrow> 32 word"
  map_scan_to_vk :: "8 word \<Rightarrow> 32 word"
  next_key_message :: "32 word"

(* map: shell/platform/windows/keyboard_manager.cc 75 91 ResolveKeyCode *)
definition ResolveKeyCode :: "win_env \<Rightarrow> 16 word \<Rightarrow> bool \<Rightarrow> 8 word \<Rightarrow> 16 word" where
  "ResolveKeyCode env original extended scancode =
     (if original = 0x10 \<or> original = 0xA0 then ucast (map_scan_to_vk env scancode)
      else if original = 0x12 \<or> original = 0xA4 then (if extended then 0xA5 else 0xA4)
      else if original = 0x11 \<or> original = 0xA2 then (if extended then 0xA3 else 0xA2)
      else original)"

(* map: shell/platform/windows/keyboard_utils.cc 9 27 EncodeUtf16 *)
definition EncodeUtf16 :: "32 word \<Rightarrow> 16 word list res" where
  "EncodeUtf16 c =
     bindr (ensure DCheck_Failed (\<not> (0xD800 \<le> c \<and> c \<le> 0xDFFF) \<and> \<not> c > 0x10FFFF)) (\<lambda>_.
       Inr (if c \<le> 0xD7FF \<or> 0xE000 \<le> c \<and> c \<le> 0xFFFF then [ucast c]
            else let remnant = c - 0x10000
                 in [ucast (drop_bit 10 remnant + 0xD800), ucast ((remnant AND 0x3FF) + 0xDC00)]))"

section \<open>State\<close>

(* map: shell/platform/windows/keyboard_manager.h 125 134 KeyboardManager::PendingEvent *)
record pending_event =
  pe_key :: "64 word"
  pe_scancode :: "8 word"
  pe_action :: "32 word"
  pe_character :: "32 word"
  pe_extended :: bool
  pe_was_down :: bool
  pe_session :: "win_message list"

datatype delegate_call = C_OnKey pending_event | C_OnText "16 word list" | C_Dispatch win_message

text \<open>
  \<open>awaiting\<close> are the events handed to \<open>OnKey\<close> whose callback was not called yet, \<open>queued\<close> the history of the
  events put into \<open>pending_events\<close>.
\<close>

(* map: shell/platform/windows/keyboard_manager.h 195 227 KeyboardManager *)
record key_manager =
  current_session :: "win_message list"
  last_key_is_ctrl_left_down :: bool
  ctrl_left_scancode :: "8 word"
  should_synthesize_ctrl_left_up :: bool
  pending_events :: "pending_event list"
  processing_event :: bool
  pending_redispatches :: "win_message list"
  awaiting :: "pending_event list"
  queued :: "pending_event list"
  delegate_calls :: "delegate_call list"

text \<open>The scan code of the left control key is not initialized: \<open>junk\<close>.\<close>

(* map: shell/platform/windows/keyboard_manager.cc 106 110 KeyboardManager::KeyboardManager *)
definition KeyboardManager :: "8 word \<Rightarrow> key_manager" where
  "KeyboardManager junk =
     \<lparr>current_session = [], last_key_is_ctrl_left_down = False, ctrl_left_scancode = junk,
      should_synthesize_ctrl_left_up = False, pending_events = [], processing_event = False,
      pending_redispatches = [], awaiting = [], queued = [], delegate_calls = []\<rparr>"

definition call :: "delegate_call \<Rightarrow> key_manager \<Rightarrow> key_manager" where
  "call c s = s\<lparr>delegate_calls := delegate_calls s @ [c]\<rparr>"

section \<open>Processing events\<close>

(* map: shell/platform/windows/keyboard_manager.cc 389 402 KeyboardManager::DispatchText *)
definition DispatchText :: "pending_event \<Rightarrow> key_manager \<Rightarrow> key_manager res" where
  "DispatchText e s =
     bindr (ensure DCheck_Failed (pe_session e \<noteq> [])) (\<lambda>_.
       if pe_character e \<noteq> 0 \<and> IsPrintable (ucast (m_wparam (last (pe_session e))))
       then bindr (EncodeUtf16 (pe_character e)) (\<lambda>t. Inr (call (C_OnText t) s))
       else Inr s)"

text \<open>The events that wait, from the first: a text is dispatched at once, a key call ends the loop.\<close>

(* map: shell/platform/windows/keyboard_manager.cc 345 366 KeyboardManager::PerformProcessEvent *)
fun process_events :: "pending_event list \<Rightarrow> key_manager \<Rightarrow> key_manager res" where
  "process_events [] s = Inr s"
| "process_events (e # es) s =
     (let s1 = s\<lparr>processing_event := True, pending_events := es\<rparr> in
      if pe_action e = MSG_CHAR
      then bindr (DispatchText e s1) (\<lambda>s2. process_events es (s2\<lparr>processing_event := False\<rparr>))
      else Inr (call (C_OnKey e) (s1\<lparr>awaiting := awaiting s1 @ [e]\<rparr>)))"

(* map: shell/platform/windows/keyboard_manager.cc 331 343 KeyboardManager::ProcessNextEvent *)
definition ProcessNextEvent :: "key_manager \<Rightarrow> key_manager res" where
  "ProcessNextEvent s =
     (if processing_event s \<or> pending_events s = [] then Inr s else process_events (pending_events s) s)"

definition add_event :: "pending_event \<Rightarrow> key_manager \<Rightarrow> key_manager res" where
  "add_event e s = ProcessNextEvent (s\<lparr>pending_events := pending_events s @ [e], queued := queued s @ [e]\<rparr>)"

(* map: shell/platform/windows/keyboard_manager.cc 134 145 KeyboardManager::RemoveRedispatchedMessage *)
fun remove_redispatched :: "win_message \<Rightarrow> win_message list \<Rightarrow> win_message list option" where
  "remove_redispatched m [] = None"
| "remove_redispatched m (x # xs) =
     (if m_action m = m_action x \<and> m_wparam m = m_wparam x then Some xs
      else map_option ((#) x) (remove_redispatched m xs))"

definition msg_scancode :: "win_message \<Rightarrow> 8 word" where
  "msg_scancode m = ucast (drop_bit 16 (m_lparam m) AND 0xff)"

definition msg_extended :: "win_message \<Rightarrow> bool" where
  "msg_extended m \<longleftrightarrow> drop_bit 24 (m_lparam m) AND 1 = 1"

definition msg_was_down :: "win_message \<Rightarrow> bool" where
  "msg_was_down m \<longleftrightarrow> m_lparam m AND 0x40000000 \<noteq> 0"

text \<open>The end of a character session, once its code point is known.\<close>

(* map: shell/platform/windows/keyboard_manager.cc 188 242 KeyboardManager::HandleMessage:char_event *)
definition end_char_session :: "win_env \<Rightarrow> win_message \<Rightarrow> 32 word \<Rightarrow> key_manager \<Rightarrow> (bool \<times> key_manager) res" where
  "end_char_session env m code_point s =
     (let first = hd (current_session s); key_code = (ucast (m_wparam first) :: 16 word) in
      if key_down (m_action first) then
        let ch = (if dead_char (m_action m) then map_vk_to_char env (ucast key_code) OR kDeadKeyCharMask
                  else if IsPrintable code_point then code_point else 0);
            e = \<lparr>pe_key = ucast key_code, pe_scancode = msg_scancode m,
                 pe_action = (if m_action m = MSG_SYSCHAR then MSG_SYSKEYDOWN else MSG_KEYDOWN), pe_character = ch,
                 pe_extended = msg_extended m, pe_was_down = msg_was_down m, pe_session = current_session s\<rparr>
        in bindr (add_event e (s\<lparr>current_session := []\<rparr>)) (\<lambda>s1. Inr (\<not> IsSysAction (m_action m), s1))
      else if m_action m = MSG_CHAR then
        let e = \<lparr>pe_key = 0, pe_scancode = 0, pe_action = MSG_CHAR, pe_character = code_point, pe_extended = False,
                 pe_was_down = False, pe_session = current_session s\<rparr>
        in bindr (add_event e (s\<lparr>current_session := []\<rparr>)) (\<lambda>s1. Inr (True, s1))
      else Inr (True, s))"

(* map: shell/platform/windows/keyboard_manager.cc 154 183 KeyboardManager::HandleMessage:char *)
definition char_message :: "win_env \<Rightarrow> win_message \<Rightarrow> key_manager \<Rightarrow> (bool \<times> key_manager) res" where
  "char_message env m s =
     (let before = current_session s; s1 = s\<lparr>current_session := before @ [m]\<rparr> in
      if IsHighSurrogate m then Inr (True, s1)
      else if IsLowSurrogate m then
        (if before = [] \<or> \<not> IsHighSurrogate (last before) then Inr (False, s1)
         else end_char_session env m (CodePointFromSurrogatePair (ucast (m_wparam (last before))) (ucast (m_wparam m))) s1)
      else end_char_session env m (ucast (ucast (m_wparam m) :: 16 word)) s1)"

text \<open>The release of the left control key that is forged when AltGr is released.\<close>

definition ctrl_left_up :: "8 word \<Rightarrow> win_message" where
  "ctrl_left_up scancode =
     \<lparr>m_action = MSG_KEYUP, m_wparam = 0x11,
      m_lparam = scast (1 OR push_bit 16 (ucast scancode) OR push_bit 30 1 OR push_bit 31 1 :: 32 word)\<rparr>"

(* map: shell/platform/windows/keyboard_manager.cc 261 282 KeyboardManager::HandleMessage:alt_gr *)
definition track_alt_gr :: "(win_message \<Rightarrow> key_manager \<Rightarrow> key_manager res) \<Rightarrow> 32 word \<Rightarrow> 16 word \<Rightarrow> bool \<Rightarrow> 8 word
    \<Rightarrow> key_manager \<Rightarrow> key_manager res" where
  "track_alt_gr deliver action key_code extended scancode s =
     (let s1 = (if IsKeyDownAltRight action key_code extended \<and> last_key_is_ctrl_left_down s
                then s\<lparr>should_synthesize_ctrl_left_up := True\<rparr> else s);
          s2 = (if IsKeyDownCtrlLeft action key_code
                then s1\<lparr>last_key_is_ctrl_left_down := True, ctrl_left_scancode := scancode,
                        should_synthesize_ctrl_left_up := False\<rparr>
                else s1\<lparr>last_key_is_ctrl_left_down := False\<rparr>)
      in if IsKeyUpAltRight action key_code extended \<and> should_synthesize_ctrl_left_up s2
         then let m = ctrl_left_up (ctrl_left_scancode s2)
              in deliver m (call (C_Dispatch m) (s2\<lparr>should_synthesize_ctrl_left_up := False\<rparr>))
         else Inr s2)"

(* map: shell/platform/windows/keyboard_manager.cc 245 324 KeyboardManager::HandleMessage:key *)
definition key_message :: "(win_message \<Rightarrow> key_manager \<Rightarrow> key_manager res) \<Rightarrow> win_env \<Rightarrow> win_message \<Rightarrow> key_manager
    \<Rightarrow> (bool \<times> key_manager) res" where
  "key_message deliver env m s =
     (if m_wparam m = 0xE7 then Inr (False, s) else
      let scancode = msg_scancode m; extended = msg_extended m;
          key_code = ResolveKeyCode env (ucast (m_wparam m)) extended scancode
      in bindr (track_alt_gr deliver (m_action m) key_code extended scancode s) (\<lambda>s1.
         let s2 = s1\<lparr>current_session := [m]\<rparr> in
         if map_vk_to_char env (ucast (m_wparam m)) > 0 \<and> key_down (m_action m) \<and> char_action (next_key_message env)
         then Inr (True, s2)
         else let e = \<lparr>pe_key = ucast key_code, pe_scancode = scancode, pe_action = m_action m, pe_character = 0,
                       pe_extended = extended, pe_was_down = msg_was_down m, pe_session = [m]\<rparr>
              in bindr (add_event e (s2\<lparr>current_session := []\<rparr>)) (\<lambda>s3. Inr (\<not> IsSysAction (m_action m), s3))))"

definition handle_with :: "(win_message \<Rightarrow> key_manager \<Rightarrow> key_manager res) \<Rightarrow> win_env \<Rightarrow> win_message \<Rightarrow> key_manager
    \<Rightarrow> (bool \<times> key_manager) res" where
  "handle_with deliver env m s =
     (case remove_redispatched m (pending_redispatches s) of
        Some rest \<Rightarrow> Inr (False, s\<lparr>pending_redispatches := rest\<rparr>)
      | None \<Rightarrow>
          if char_action (m_action m) then char_message env m s
          else if key_down (m_action m) \<or> key_up (m_action m) then key_message deliver env m s
          else Inl DCheck_Failed)"

text \<open>
  A message is delivered in the middle of another one only when it is the forged release, and nothing is
  delivered in the middle of that: \<open>forged_release_delivers_nothing\<close> below.
\<close>

(* map: shell/platform/windows/keyboard_manager.cc 147 329 KeyboardManager::HandleMessage *)
definition HandleMessage :: "win_env \<Rightarrow> win_message \<Rightarrow> key_manager \<Rightarrow> (bool \<times> key_manager) res" where
  "HandleMessage env = handle_with (\<lambda>m s. bindr (handle_with (\<lambda>_ s. Inr s) env m s) (\<lambda>(_, s'). Inr s')) env"

section \<open>The answer of the framework\<close>

(* map: shell/platform/windows/keyboard_manager.cc 112 132 KeyboardManager::RedispatchEvent *)
fun RedispatchEvent :: "win_env \<Rightarrow> win_message list \<Rightarrow> key_manager \<Rightarrow> key_manager res" where
  "RedispatchEvent env [] s = Inr s"
| "RedispatchEvent env (m # ms) s =
     (if IsSysAction (m_action m) then RedispatchEvent env ms s
      else bindr (HandleMessage env m (call (C_Dispatch m) (s\<lparr>pending_redispatches := pending_redispatches s @ [m]\<rparr>)))
             (\<lambda>(_, s1). RedispatchEvent env ms s1))"

(* map: shell/platform/windows/keyboard_manager.cc 368 387 KeyboardManager::HandleOnKeyResult *)
definition HandleOnKeyResult :: "win_env \<Rightarrow> pending_event \<Rightarrow> bool \<Rightarrow> key_manager \<Rightarrow> key_manager res" where
  "HandleOnKeyResult env e framework_handled s =
     bindr (ensure Undefined (pe_session e \<noteq> [])) (\<lambda>_.
       let last_action = m_action (last (pe_session e)) in
       if framework_handled \<or> IsSysAction last_action then Inr s
       else bindr (if last_action = MSG_CHAR then DispatchText e s else Inr s) (RedispatchEvent env (pe_session e)))"

text \<open>The callback of a key call: that of the \<open>i\<close>-th event that awaits one.\<close>

definition OnKeyResult :: "win_env \<Rightarrow> nat \<Rightarrow> bool \<Rightarrow> key_manager \<Rightarrow> key_manager res" where
  "OnKeyResult env i handled s =
     (if i < length (awaiting s) then
        bindr (HandleOnKeyResult env (awaiting s ! i) handled (s\<lparr>awaiting := remove_nth i (awaiting s)\<rparr>)) (\<lambda>s1.
        bindr (ensure DCheck_Failed (processing_event s1)) (\<lambda>_.
          ProcessNextEvent (s1\<lparr>processing_event := False\<rparr>)))
      else Inl Undefined)"

section \<open>One key call at a time\<close>

definition is_key_event :: "pending_event \<Rightarrow> bool" where
  "is_key_event e \<longleftrightarrow> pe_action e \<noteq> MSG_CHAR"

fun key_calls :: "delegate_call list \<Rightarrow> pending_event list" where
  "key_calls [] = []"
| "key_calls (C_OnKey e # cs) = e # key_calls cs"
| "key_calls (C_OnText t # cs) = key_calls cs"
| "key_calls (C_Dispatch m # cs) = key_calls cs"

lemma key_calls_append [simp]: "key_calls (xs @ ys) = key_calls xs @ key_calls ys"
  by (induction xs rule: key_calls.induct) simp_all

text \<open>
  The key calls made and the key events that wait are the key events that came, in their order; while an
  event is processed it is the last one called, otherwise nothing waits.
\<close>

definition serial :: "key_manager \<Rightarrow> bool" where
  "serial s \<longleftrightarrow> key_calls (delegate_calls s) @ filter is_key_event (pending_events s) = filter is_key_event (queued s)
     \<and> (if processing_event s then awaiting s \<noteq> [] \<and> awaiting s = [last (key_calls (delegate_calls s))]
           \<and> key_calls (delegate_calls s) \<noteq> []
         else awaiting s = [] \<and> pending_events s = [])
     \<and> pending_redispatches s = []"

lemma DispatchText_frame: "DispatchText e s = Inr s' \<Longrightarrow>
    \<exists>ts. s' = s\<lparr>delegate_calls := delegate_calls s @ map C_OnText ts\<rparr>"
proof -
  assume "DispatchText e s = Inr s'"
  then consider "s' = s" | t where "s' = call (C_OnText t) s"
    by (auto simp: DispatchText_def bindr_eq_Inr split: if_splits)
  then show ?thesis by cases (auto simp: call_def intro: exI [of _ "[]"] exI [of _ "[t]" for t])
qed

lemma key_calls_texts [simp]: "key_calls (map C_OnText ts) = []"
  by (induction ts) simp_all

lemma key_calls_dispatches [simp]: "key_calls (map C_Dispatch ms) = []"
  by (induction ms) simp_all

lemma process_events_serial:
  "process_events es s = Inr s' \<Longrightarrow> \<not> processing_event s \<Longrightarrow> awaiting s = [] \<Longrightarrow> pending_events s = es \<Longrightarrow>
    pending_redispatches s = [] \<Longrightarrow> key_calls (delegate_calls s) @ filter is_key_event es = filter is_key_event (queued s) \<Longrightarrow>
    serial s'"
proof (induction es arbitrary: s)
  case Nil
  then show ?case by (simp add: serial_def)
next
  case (Cons e es)
  show ?case
  proof (cases "pe_action e = MSG_CHAR")
    case True
    with Cons.prems(1) obtain s2 where s2: "DispatchText e (s\<lparr>processing_event := True, pending_events := es\<rparr>) = Inr s2"
      and rest: "process_events es (s2\<lparr>processing_event := False\<rparr>) = Inr s'" by (auto simp: Let_def elim!: bindrE)
    from DispatchText_frame [OF s2] obtain ts where
      "s2 = s\<lparr>processing_event := True, pending_events := es, delegate_calls := delegate_calls s @ map C_OnText ts\<rparr>" by auto
    with Cons.IH [OF rest] Cons.prems True show ?thesis by (simp add: is_key_event_def)
  next
    case False
    then have "is_key_event e" by (simp add: is_key_event_def)
    with False Cons.prems show ?thesis by (auto simp: serial_def call_def Let_def)
  qed
qed

lemma ProcessNextEvent_serial:
  assumes "ProcessNextEvent s = Inr s'" "pending_redispatches s = []"
    "key_calls (delegate_calls s) @ filter is_key_event (pending_events s) = filter is_key_event (queued s)"
    "if processing_event s then awaiting s = [last (key_calls (delegate_calls s))] \<and> key_calls (delegate_calls s) \<noteq> []
     else awaiting s = []"
  shows "serial s'"
proof (cases "processing_event s \<or> pending_events s = []")
  case True
  with assms show ?thesis by (auto simp: ProcessNextEvent_def serial_def split: if_splits)
next
  case False
  with assms process_events_serial [of "pending_events s" s s'] show ?thesis by (simp add: ProcessNextEvent_def)
qed

lemma add_event_serial:
  assumes "serial s" "add_event e s = Inr s'"
  shows "serial s'"
proof -
  have "key_calls (delegate_calls s) @ filter is_key_event (pending_events s) = filter is_key_event (queued s)"
    using assms(1) unfolding serial_def by blast
  then have "key_calls (delegate_calls s) @ filter is_key_event (pending_events s @ [e]) = filter is_key_event (queued s @ [e])"
    unfolding filter_append append_assoc [symmetric] by simp
  then show ?thesis
    using assms(1) by (intro ProcessNextEvent_serial [OF assms(2) [unfolded add_event_def]])
      (auto simp: serial_def split: if_splits)
qed

lemma serial_frame [simp]:
  "serial (s\<lparr>current_session := x\<rparr>) = serial s" "serial (s\<lparr>last_key_is_ctrl_left_down := b\<rparr>) = serial s"
  "serial (s\<lparr>ctrl_left_scancode := c\<rparr>) = serial s" "serial (s\<lparr>should_synthesize_ctrl_left_up := b\<rparr>) = serial s"
  "serial (call (C_Dispatch m) s) = serial s"
  by (simp_all add: serial_def call_def)

lemma end_char_session_serial: "serial s \<Longrightarrow> end_char_session env m c s = Inr (r, s') \<Longrightarrow> serial s'"
  by (auto simp: end_char_session_def Let_def bindr_eq_Inr split: if_splits dest!: add_event_serial [rotated])

lemma char_message_serial: "serial s \<Longrightarrow> char_message env m s = Inr (r, s') \<Longrightarrow> serial s'"
  by (auto simp: char_message_def Let_def split: if_splits dest: end_char_session_serial [rotated])

lemma handle_with_serial:
  assumes deliver: "\<And>m s s'. serial s \<Longrightarrow> deliver m s = Inr s' \<Longrightarrow> serial s'"
    and "serial s" "handle_with deliver env m s = Inr (r, s')"
  shows "serial s'"
proof -
  have none: "remove_redispatched m (pending_redispatches s) = None" using assms(2) by (simp add: serial_def)
  have track: "serial t'" if "serial t" "track_alt_gr deliver a k x sc t = Inr t'" for a k x sc t t'
    using that by (auto simp: track_alt_gr_def Let_def split: if_splits dest!: deliver [rotated])
  have "serial s'" if "key_message deliver env m s = Inr (r, s')"
    using that assms(2)
    by (auto simp: key_message_def Let_def bindr_eq_Inr split: if_splits dest!: track [rotated] add_event_serial [rotated])
  with assms(2,3) none char_message_serial show ?thesis by (auto simp: handle_with_def split: if_splits)
qed

lemma HandleMessage_serial: "serial s \<Longrightarrow> HandleMessage env m s = Inr (r, s') \<Longrightarrow> serial s'"
  unfolding HandleMessage_def
  by (erule handle_with_serial [rotated]) (auto elim!: bindrE dest: handle_with_serial [rotated 2])

text \<open>What is delivered in the middle of a message is the forged release, which delivers nothing itself.\<close>

lemma forged_release_delivers_nothing:
  "handle_with d1 env (ctrl_left_up c) s = handle_with d2 env (ctrl_left_up c) s"
proof -
  have "m_wparam (ctrl_left_up c) = 0x11" by (simp add: ctrl_left_up_def)
  then have "ResolveKeyCode env (ucast (m_wparam (ctrl_left_up c))) x sc \<noteq> 0xA5" for x sc
    by (simp add: ResolveKeyCode_def)
  then have "track_alt_gr d1 a (ResolveKeyCode env (ucast (m_wparam (ctrl_left_up c))) x sc) y z t
      = track_alt_gr d2 a (ResolveKeyCode env (ucast (m_wparam (ctrl_left_up c))) x sc) y z t" for a x sc y z t
    by (simp add: track_alt_gr_def IsKeyUpAltRight_def Let_def)
  note track = this
  have "key_message d1 env (ctrl_left_up c) s = key_message d2 env (ctrl_left_up c) s"
    by (simp only: key_message_def Let_def track)
  then show ?thesis by (simp only: handle_with_def)
qed

text \<open>A message that is dispatched again is let through, and changes nothing.\<close>

lemma redispatched_message_passes:
  assumes "pending_redispatches s = [m]"
  shows "HandleMessage env m s = Inr (False, s\<lparr>pending_redispatches := []\<rparr>)"
  using assms by (simp add: HandleMessage_def handle_with_def)

lemma RedispatchEvent_effect:
  "pending_redispatches s = [] \<Longrightarrow> RedispatchEvent env ms s
    = Inr (s\<lparr>delegate_calls := delegate_calls s @ map C_Dispatch (filter (\<lambda>m. \<not> IsSysAction (m_action m)) ms)\<rparr>)"
proof (induction ms arbitrary: s)
  case (Cons m ms)
  then show ?case
    using redispatched_message_passes [of "call (C_Dispatch m) (s\<lparr>pending_redispatches := [m]\<rparr>)" m env]
      Cons.IH [of "s\<lparr>delegate_calls := delegate_calls s @ [C_Dispatch m]\<rparr>"] by (simp add: call_def)
qed simp

lemma HandleOnKeyResult_frame:
  assumes "HandleOnKeyResult env e handled s = Inr s'" "pending_redispatches s = []"
  shows "\<exists>ts ms. s' = s\<lparr>delegate_calls := delegate_calls s @ map C_OnText ts @ map C_Dispatch ms\<rparr>"
proof -
  have none: "\<exists>ts ms. s = s\<lparr>delegate_calls := delegate_calls s @ map C_OnText ts @ map C_Dispatch ms\<rparr>"
    by (intro exI [of _ "[]"]) simp
  from assms(1) consider "s' = s" | s1 where "DispatchText e s = Inr s1" "RedispatchEvent env (pe_session e) s1 = Inr s'"
    | "RedispatchEvent env (pe_session e) s = Inr s'"
    by (auto simp: HandleOnKeyResult_def Let_def elim!: bindrE split: if_splits)
  then show ?thesis
  proof cases
    case 2
    from DispatchText_frame [OF 2(1)] obtain ts where s1: "s1 = s\<lparr>delegate_calls := delegate_calls s @ map C_OnText ts\<rparr>" by blast
    with 2(2) RedispatchEvent_effect [of s1] assms(2) show ?thesis by auto
  next
    case 3
    with RedispatchEvent_effect [OF assms(2)] show ?thesis
      by (intro exI [of _ "[]"] exI [of _ "filter (\<lambda>m. \<not> IsSysAction (m_action m)) (pe_session e)"]) simp
  qed (use none in simp)
qed

lemma OnKeyResult_serial:
  assumes "serial s" "OnKeyResult env i handled s = Inr s'"
  shows "serial s'"
proof -
  from assms(2) obtain s1 where i: "i < length (awaiting s)" "processing_event s1"
    and s1: "HandleOnKeyResult env (awaiting s ! i) handled (s\<lparr>awaiting := remove_nth i (awaiting s)\<rparr>) = Inr s1"
    and s': "ProcessNextEvent (s1\<lparr>processing_event := False\<rparr>) = Inr s'"
    by (auto simp: OnKeyResult_def ensure_eq_Inr elim!: bindrE split: if_splits)
  from assms(1) have "pending_redispatches s = []" by (simp add: serial_def)
  with HandleOnKeyResult_frame [OF s1] obtain ts ms where
    1: "s1 = s\<lparr>awaiting := remove_nth i (awaiting s), delegate_calls := delegate_calls s @ map C_OnText ts @ map C_Dispatch ms\<rparr>"
    by auto
  with i assms(1) have "length (awaiting s) = 1" by (auto simp: serial_def split: if_splits)
  with i(1) have "remove_nth i (awaiting s) = []" by (simp add: remove_nth_def)
  with 1 assms(1) show ?thesis
    by (intro ProcessNextEvent_serial [OF s']) (auto simp: serial_def)
qed

datatype manager_op = M_Message win_env win_message | M_Answer win_env nat bool

fun manager_step :: "key_manager \<Rightarrow> manager_op \<Rightarrow> key_manager res" where
  "manager_step s (M_Message env m) = bindr (HandleMessage env m s) (\<lambda>(_, s'). Inr s')"
| "manager_step s (M_Answer env i handled) = OnKeyResult env i handled s"

interpretation manager: guarded_machine manager_step serial
proof
  show "serial s'" if "serial s" "manager_step s x = Inr s'" for s s' and x :: manager_op
    using that by (cases x) (auto elim!: bindrE dest: HandleMessage_serial OnKeyResult_serial)
qed

text \<open>
  C31: Whatever keyboard messages come in, and whenever and however the framework answers, the key events
  formed from the messages are handed to the framework in the order in which they were formed, none lost and
  none twice, and one at a time: the next only after the one before was answered, and something waits only
  while one is being answered.
\<close>

theorem key_calls_in_order_one_at_a_time:
  assumes "run_ops manager_step (KeyboardManager junk) ops = Inr s"
  shows "key_calls (delegate_calls s) @ filter is_key_event (pending_events s) = filter is_key_event (queued s)
    \<and> (if processing_event s then awaiting s = [last (key_calls (delegate_calls s))]
       else awaiting s = [] \<and> pending_events s = [])"
proof -
  have "serial (KeyboardManager junk)" by (simp add: serial_def KeyboardManager_def)
  from manager.run_inv [OF this assms] show ?thesis by (auto simp: serial_def split: if_splits)
qed

section \<open>A witness\<close>

definition demo_env :: "32 word \<Rightarrow> win_env" where
  "demo_env nxt = \<lparr>map_vk_to_char = (\<lambda>vk. vk), map_scan_to_vk = (\<lambda>_. 0xA0), next_key_message = nxt\<rparr>"

text \<open>The letter A is typed, and its key released, before the framework answers that it did not handle the press.\<close>

abbreviation typed_letter :: "manager_op list" where
  "typed_letter \<equiv> [M_Message (demo_env MSG_CHAR) \<lparr>m_action = MSG_KEYDOWN, m_wparam = 0x41, m_lparam = 0x1e0001\<rparr>,
     M_Message (demo_env 0) \<lparr>m_action = MSG_CHAR, m_wparam = 0x61, m_lparam = 0x1e0001\<rparr>,
     M_Message (demo_env 0) \<lparr>m_action = MSG_KEYUP, m_wparam = 0x41, m_lparam = 0xc01e0001\<rparr>,
     M_Answer (demo_env 0) 0 False]"

theorem key_calls_in_order_one_at_a_time_witness:
  "\<exists>s. run_ops manager_step (KeyboardManager 0) typed_letter = Inr s \<and> length (queued s) = 2
     \<and> key_calls (delegate_calls s) = queued s \<and> pending_events s = []"
proof -
  have "case run_ops manager_step (KeyboardManager 0) typed_letter of
     Inl e \<Rightarrow> False
   | Inr s \<Rightarrow> length (queued s) = 2 \<and> pending_events s = [] \<and> filter is_key_event (queued s) = queued s" by code_simp
  then obtain s where s: "run_ops manager_step (KeyboardManager 0) typed_letter = Inr s"
    "length (queued s) = 2" "pending_events s = []" "filter is_key_event (queued s) = queued s"
    by (auto simp del: run_ops.simps split: sum.splits)
  with key_calls_in_order_one_at_a_time [OF s(1)] show ?thesis by auto
qed

end
