(* ===== verification/Flow_Rtree.thy ===== *)
theory Flow_Rtree
  imports Prelude
begin

text \<open>
  \<open>display_list/display_list_rtree.cc\<close> (of which \<open>flow/rtree.cc\<close> is the original): the rectangles of recorded
  draw operations and the query for those that meet a rectangle. Skia's rectangles and its bounding-box
  hierarchy are parameters: the test for intersection, the join of two rectangles, and the search.
\<close>

section \<open>The tree\<close>

record 'r skia =
  Intersects :: "'r \<Rightarrow> 'r \<Rightarrow> bool"
  join :: "'r \<Rightarrow> 'r \<Rightarrow> 'r"
  bbh_search :: "'r list \<Rightarrow> 'r \<Rightarrow> nat list"

(* map: display_list/display_list_rtree.h 24 52 DlRTree *)
record 'r rtree =
  draw_op :: "nat \<rightharpoonup> 'r"
  bbh :: "'r list"
  all_ops_count :: nat

(* map: display_list/display_list_rtree.cc 11 11 DlRTree::DlRTree *)
definition DlRTree :: "'r rtree" where
  "DlRTree = \<lparr>draw_op = Map.empty, bbh = [], all_ops_count = 0\<rparr>"

text \<open>The metadata say for each operation whether it draws; without metadata all do.\<close>

(* map: display_list/display_list_rtree.cc 13 24 DlRTree::insert *)
definition rtree_insert :: "'r list \<Rightarrow> bool list option \<Rightarrow> 'r rtree \<Rightarrow> 'r rtree res" where
  "rtree_insert bounds isDraw t =
     bindr (ensure DCheck_Failed (all_ops_count t = 0)) (\<lambda>_. Inr
       \<lparr>draw_op = (\<lambda>i. if i < length bounds \<and> (case isDraw of None \<Rightarrow> True | Some ds \<Rightarrow> ds ! i) then Some (bounds ! i)
                       else draw_op t i),
        bbh = bounds, all_ops_count = length bounds\<rparr>)"

(* map: display_list/display_list_rtree.cc 30 32 DlRTree::search *)
definition rtree_search :: "'r skia \<Rightarrow> 'r rtree \<Rightarrow> 'r \<Rightarrow> nat list" where
  "rtree_search sk t query = bbh_search sk (bbh t) query"

text \<open>The second loop: the rectangles after the joined one that meet it are joined into it.\<close>

fun join_rest :: "'r skia \<Rightarrow> 'r \<Rightarrow> 'r list \<Rightarrow> 'r \<times> 'r list" where
  "join_rest sk f [] = (f, [])"
| "join_rest sk f (r # rs) =
     (if Intersects sk r f then join_rest sk (join sk f r) rs
      else let (f', rs') = join_rest sk f rs in (f', r # rs'))"

text \<open>Both loops: the rectangle is joined into the first it meets, or put at the end.\<close>

(* map: display_list/display_list_rtree.cc 47 76 DlRTree::searchNonOverlappingDrawnRects:loop *)
fun add_rect :: "'r skia \<Rightarrow> 'r \<Rightarrow> 'r list \<Rightarrow> 'r list" where
  "add_rect sk current [] = [current]"
| "add_rect sk current (r # rs) =
     (if Intersects sk r current then let (f, rs') = join_rest sk (join sk r current) rs in f # rs'
      else r # add_rect sk current rs)"

(* map: display_list/display_list_rtree.cc 34 79 DlRTree::searchNonOverlappingDrawnRects *)
definition searchNonOverlappingDrawnRects :: "'r skia \<Rightarrow> 'r rtree \<Rightarrow> 'r \<Rightarrow> 'r list" where
  "searchNonOverlappingDrawnRects sk t query =
     foldl (\<lambda>final i. case draw_op t i of None \<Rightarrow> final | Some r \<Rightarrow> add_rect sk r final) []
       (rtree_search sk t query)"

section \<open>Nothing found is left out\<close>

text \<open>\<open>pts\<close> gives the points of a rectangle; a list covers a rectangle when one of its rectangles contains it.\<close>

definition covered :: "('r \<Rightarrow> 'p set) \<Rightarrow> 'r list \<Rightarrow> 'r \<Rightarrow> bool" where
  "covered pts rs r \<longleftrightarrow> (\<exists>r'\<in>set rs. pts r \<subseteq> pts r')"

lemma join_rest_covers:
  assumes join: "\<And>a b. pts a \<union> pts b \<subseteq> pts (join sk a b)"
  shows "join_rest sk f rs = (f', rs') \<Longrightarrow> pts f \<subseteq> pts f' \<and> (\<forall>r\<in>set rs. pts r \<subseteq> pts f' \<or> r \<in> set rs')"
proof (induction rs arbitrary: f f' rs')
  case (Cons r rs)
  show ?case
  proof (cases "Intersects sk r f")
    case True
    with Cons.prems have "join_rest sk (join sk f r) rs = (f', rs')" by simp
    from Cons.IH [OF this] join [of f r] show ?thesis by auto
  next
    case False
    with Cons.prems obtain rs1 where "join_rest sk f rs = (f', rs1)" "rs' = r # rs1" by (auto split: prod.splits)
    with Cons.IH [of f f' rs1] show ?thesis by auto
  qed
qed simp

lemma add_rect_covers:
  assumes join: "\<And>a b. pts a \<union> pts b \<subseteq> pts (join sk a b)"
  shows "covered pts (add_rect sk c rs) c \<and> (\<forall>r. covered pts rs r \<longrightarrow> covered pts (add_rect sk c rs) r)"
proof (induction rs)
  case (Cons r rs)
  show ?case
  proof (cases "Intersects sk r c")
    case True
    obtain f rs' where f: "join_rest sk (join sk r c) rs = (f, rs')" by (cases "join_rest sk (join sk r c) rs") auto
    have "pts r \<subseteq> pts f" "pts c \<subseteq> pts f" and rest: "\<forall>x\<in>set rs. pts x \<subseteq> pts f \<or> x \<in> set rs'"
      using join_rest_covers [OF join f] join [of r c] by auto
    moreover have "\<exists>x'\<in>set (f # rs'). pts x \<subseteq> pts x'" if "x \<in> set (r # rs)" for x
      using that \<open>pts r \<subseteq> pts f\<close> rest by auto
    ultimately show ?thesis using True f unfolding covered_def by simp (meson subset_trans)
  qed (use Cons in \<open>auto simp: covered_def\<close>)
qed (simp add: covered_def)

lemma foldl_covers:
  assumes "\<And>a b. pts a \<union> pts b \<subseteq> pts (join sk a b)"
  shows "(\<forall>r. covered pts acc r \<longrightarrow> covered pts (foldl (\<lambda>final i. case d i of None \<Rightarrow> final | Some r \<Rightarrow> add_rect sk r final) acc is) r)
    \<and> (\<forall>i\<in>set is. \<forall>r. d i = Some r \<longrightarrow>
         covered pts (foldl (\<lambda>final i. case d i of None \<Rightarrow> final | Some r \<Rightarrow> add_rect sk r final) acc is) r)"
proof (induction "is" arbitrary: acc)
  case (Cons i "is")
  define acc' where "acc' = (case d i of None \<Rightarrow> acc | Some r \<Rightarrow> add_rect sk r acc)"
  have "\<forall>r. covered pts acc r \<longrightarrow> covered pts acc' r" "\<forall>r. d i = Some r \<longrightarrow> covered pts acc' r"
    using add_rect_covers [OF assms] by (auto simp: acc'_def split: option.splits)
  with Cons.IH [of acc'] show ?case by (simp add: acc'_def [symmetric])
qed simp

text \<open>
  C36: No drawn rectangle is lost: every operation that the search finds and that draws has its rectangle
  inside one of the rectangles returned, whatever rectangles are and however the search works, as long as
  the join of two rectangles contains both.
\<close>

theorem drawn_rects_are_covered:
  assumes "\<And>a b. pts a \<union> pts b \<subseteq> pts (join sk a b)"
    and "i \<in> set (rtree_search sk t query)" "draw_op t i = Some r"
  shows "\<exists>r'\<in>set (searchNonOverlappingDrawnRects sk t query). pts r \<subseteq> pts r'"
  using foldl_covers [OF assms(1), of "[]" "draw_op t" "rtree_search sk t query"] assms(2,3)
  by (auto simp: searchNonOverlappingDrawnRects_def covered_def)

section \<open>Rectangles of integers\<close>

text \<open>Left, top, right and bottom; the search goes through all rectangles in order.\<close>

type_synonym irect = "int \<times> int \<times> int \<times> int"

definition irect_meets :: "irect \<Rightarrow> irect \<Rightarrow> bool" where
  "irect_meets = (\<lambda>(l, t, r, b) (l', t', r', b'). max l l' < min r r' \<and> max t t' < min b b')"

definition irect_join :: "irect \<Rightarrow> irect \<Rightarrow> irect" where
  "irect_join = (\<lambda>(l, t, r, b) (l', t', r', b'). (min l l', min t t', max r r', max b b'))"

definition irect_points :: "irect \<Rightarrow> (int \<times> int) set" where
  "irect_points = (\<lambda>(l, t, r, b). {(x, y). l \<le> x \<and> x < r \<and> t \<le> y \<and> y < b})"

definition int_skia :: "irect skia" where
  "int_skia = \<lparr>Intersects = irect_meets, join = irect_join,
     bbh_search = (\<lambda>rs q. filter (\<lambda>i. irect_meets (rs ! i) q) [0..<length rs])\<rparr>"

lemma irect_join_points: "irect_points a \<union> irect_points b \<subseteq> irect_points (join int_skia a b)"
  by (auto simp: int_skia_def irect_join_def irect_points_def split: prod.splits)

definition demo_rects :: "irect list" where
  "demo_rects = [(0, 0, 10, 10), (20, 0, 30, 30), (5, 20, 25, 25)]"

text \<open>
  The rectangles returned may overlap, although the comment on the query says that they are mutually
  exclusive: the third rectangle meets only the second, but their join also meets the first, which was
  passed over before.
\<close>

theorem returned_rects_may_overlap:
  "\<exists>t. rtree_insert demo_rects None DlRTree = Inr t
     \<and> searchNonOverlappingDrawnRects int_skia t (0, 0, 100, 100) = [(0, 0, 10, 10), (5, 0, 30, 30)]
     \<and> irect_meets (0, 0, 10, 10) (5, 0, 30, 30)"
proof -
  have "case rtree_insert demo_rects None DlRTree of
    Inl e \<Rightarrow> False
  | Inr t \<Rightarrow> searchNonOverlappingDrawnRects int_skia t (0, 0, 100, 100) = [(0, 0, 10, 10), (5, 0, 30, 30)]" by code_simp
  moreover have "irect_meets (0, 0, 10, 10) (5, 0, 30, 30)" by code_simp
  ultimately show ?thesis by (auto split: sum.splits)
qed

theorem drawn_rects_are_covered_witness:
  "\<exists>r'\<in>set (searchNonOverlappingDrawnRects int_skia
       \<lparr>draw_op = [2 \<mapsto> (5, 20, 25, 25)], bbh = demo_rects, all_ops_count = 3\<rparr> (0, 0, 100, 100)).
     irect_points (5, 20, 25, 25) \<subseteq> irect_points r'"
proof (rule drawn_rects_are_covered [where i = 2])
  show "irect_points a \<union> irect_points b \<subseteq> irect_points (join int_skia a b)" for a b by (rule irect_join_points)
  show "2 \<in> set (rtree_search int_skia \<lparr>draw_op = [2 \<mapsto> (5, 20, 25, 25)], bbh = demo_rects, all_ops_count = 3\<rparr> (0, 0, 100, 100))"
    by code_simp
qed simp

end
