(* ===== verification/Dl_Attributes.thy ===== *)
theory Dl_Attributes
  imports Ieee_Double
begin

text \<open>
  The rendering attributes of a display list: \<open>display_list/display_list_color_source.h\<close>, \<open>_color_filter.h\<close>,
  \<open>_image_filter.h\<close>, \<open>_mask_filter.h\<close>, \<open>_path_effect.h\<close>, with the comparison of \<open>_attributes.h\<close> and
  \<open>_comparable.h\<close>, and \<open>_paint.h\<close>. Objects of Skia and shared objects are known by their address, a
  number; numbers are the bits of a \<open>float\<close>.
\<close>

section \<open>Enumerations\<close>

(* map: display_list/display_list_blend_mode.h 29 67 DlBlendMode *)
datatype DlBlendMode =
    kClear | kSrc | kDst | kSrcOver | kDstOver | kSrcIn | kDstIn | kSrcOut | kDstOut | kSrcATop | kDstATop | kXor
  | kPlus | kModulate | kScreen | kOverlay | kDarken | kLighten | kColorDodge | kColorBurn | kHardLight
  | kSoftLight | kDifference | kExclusion | kMultiply | kHue | kSaturation | kColor | kLuminosity

(* map: display_list/display_list_paint.h 19 26 DlDrawStyle *)
datatype DlDrawStyle = kFill | kStroke | kStrokeAndFill

(* map: display_list/display_list_paint.h 36 43 DlStrokeCap *)
datatype DlStrokeCap = kCapButt | kCapRound | kCapSquare

(* map: display_list/display_list_paint.h 53 60 DlStrokeJoin *)
datatype DlStrokeJoin = kJoinMiter | kJoinRound | kJoinBevel

(* map: display_list/display_list_tile_mode.h 15 30 DlTileMode *)
datatype DlTileMode = kClamp | kRepeat | kMirror | kDecal

(* map: display_list/display_list_sampling_options.h 27 32 DlImageSampling *)
datatype DlImageSampling = kNearestNeighbor | kSamplingLinear | kMipmapLinear | kCubic

type_synonym DlColor = "32 word"
type_synonym sk_ref = nat
type_synonym SkPoint = "SkScalar \<times> SkScalar"
type_synonym SkMatrix = "SkScalar list"

definition point_eq :: "SkPoint \<Rightarrow> SkPoint \<Rightarrow> bool" where
  "point_eq p q \<longleftrightarrow> float_eq (fst p) (fst q) \<and> float_eq (snd p) (snd q)"

definition matrix_eq :: "SkMatrix \<Rightarrow> SkMatrix \<Rightarrow> bool" where
  "matrix_eq m n \<longleftrightarrow> list_all2 float_eq m n"

(* map: display_list/display_list_color.h 39 39 DlColor::getAlpha *)
definition getAlpha :: "DlColor \<Rightarrow> 32 word" where
  "getAlpha c = drop_bit 24 c"

(* map: display_list/display_list_image.h 31 60 DlImage *)
record DlImage =
  image_address :: sk_ref
  skia_image :: "sk_ref option"
  impeller_texture :: "sk_ref option"
  image_isOpaque :: bool
  image_bounds :: "int \<times> int"

(* map: display_list/display_list_image.h 111 120 DlImage::Equals *)
definition image_Equals :: "DlImage \<Rightarrow> DlImage \<Rightarrow> bool" where
  "image_Equals i j \<longleftrightarrow> image_address i = image_address j \<or>
     skia_image i = skia_image j \<and> impeller_texture i = impeller_texture j"

text \<open>
  The comparison through pointers: the same object, or objects with equal contents. A pointer is an
  address with the object it points to, or null.
\<close>

type_synonym 'a ptr = "(nat \<times> 'a) option"

(* map: display_list/display_list_comparable.h 19 28 Equals *)
definition Equals :: "('a \<Rightarrow> 'a \<Rightarrow> bool res) \<Rightarrow> 'a ptr \<Rightarrow> 'a ptr \<Rightarrow> bool res" where
  "Equals eq a b = (case a of
     None \<Rightarrow> Inr (b = None)
   | Some (p, x) \<Rightarrow> (case b of None \<Rightarrow> Inr False | Some (q, y) \<Rightarrow> if p = q then Inr True else eq x y))"

lemma Equals_cong [fundef_cong]:
  assumes "a = a'" "b = b'" "\<And>p x q y. a' = Some (p, x) \<Longrightarrow> b' = Some (q, y) \<Longrightarrow> eq x y = eq' x y"
  shows "Equals eq a b = Equals eq' a' b'"
  using assms by (auto simp: Equals_def split: option.splits)

section \<open>Color sources\<close>

text \<open>A gradient's stops are copied behind it; \<open>memcmp\<close> compares their bits.\<close>

(* map: display_list/display_list_color_source.h 297 367 DlGradientColorSourceBase *)
record gradient =
  gradient_mode :: DlTileMode
  gradient_matrix :: SkMatrix
  gradient_colors :: "DlColor list"
  gradient_stops :: "SkScalar list"

(* map: display_list/display_list_color_source.h 46 55 DlColorSourceType *)
datatype DlColorSource =
    ColorColorSource DlColor
  | ImageColorSource DlImage DlTileMode DlTileMode DlImageSampling SkMatrix
  | LinearGradientColorSource SkPoint SkPoint gradient
  | RadialGradientColorSource SkPoint SkScalar gradient
  | ConicalGradientColorSource SkPoint SkScalar SkPoint SkScalar gradient
  | SweepGradientColorSource SkPoint SkScalar SkScalar gradient
  | RuntimeEffectColorSource "sk_ref option" "sk_ref option list" "sk_ref option"
  | UnknownColorSource sk_ref

(* map: display_list/display_list_color_source.h 335 345 DlGradientColorSourceBase::base_equals_ *)
definition base_equals :: "gradient \<Rightarrow> gradient \<Rightarrow> bool" where
  "base_equals g h \<longleftrightarrow> gradient_mode g = gradient_mode h \<and> matrix_eq (gradient_matrix g) (gradient_matrix h) \<and>
     length (gradient_colors g) = length (gradient_colors h) \<and> gradient_colors g = gradient_colors h \<and> gradient_stops g = gradient_stops h"

text \<open>What \<open>equals_\<close> compares, for the classes with more than one field.\<close>

(* map: display_list/display_list_color_source.h 279 286 DlImageColorSource::equals_ *)
definition image_source_equals ::
  "DlImage \<times> DlTileMode \<times> DlTileMode \<times> DlImageSampling \<times> SkMatrix
    \<Rightarrow> DlImage \<times> DlTileMode \<times> DlTileMode \<times> DlImageSampling \<times> SkMatrix \<Rightarrow> bool" where
  "image_source_equals = (\<lambda>(i, h, v, s, m) (i', h', v', s', m').
     image_Equals i i' \<and> matrix_eq m m' \<and> h = h' \<and> v = v' \<and> s = s')"

(* map: display_list/display_list_color_source.h 402 407 DlLinearGradientColorSource::equals_ *)
definition linear_equals :: "SkPoint \<times> SkPoint \<times> gradient \<Rightarrow> SkPoint \<times> SkPoint \<times> gradient \<Rightarrow> bool" where
  "linear_equals = (\<lambda>(p, q, g) (p', q', g'). point_eq p p' \<and> point_eq q q' \<and> base_equals g g')"

(* map: display_list/display_list_color_source.h 470 475 DlRadialGradientColorSource::equals_ *)
definition radial_equals :: "SkPoint \<times> SkScalar \<times> gradient \<Rightarrow> SkPoint \<times> SkScalar \<times> gradient \<Rightarrow> bool" where
  "radial_equals = (\<lambda>(c, r, g) (c', r', g'). point_eq c c' \<and> float_eq r r' \<and> base_equals g g')"

(* map: display_list/display_list_color_source.h 541 548 DlConicalGradientColorSource::equals_ *)
definition conical_equals ::
  "SkPoint \<times> SkScalar \<times> SkPoint \<times> SkScalar \<times> gradient
    \<Rightarrow> SkPoint \<times> SkScalar \<times> SkPoint \<times> SkScalar \<times> gradient \<Rightarrow> bool" where
  "conical_equals = (\<lambda>(c, r, d, s, g) (c', r', d', s', g').
     point_eq c c' \<and> float_eq r r' \<and> point_eq d d' \<and> float_eq s s' \<and> base_equals g g')"

(* map: display_list/display_list_color_source.h 620 625 DlSweepGradientColorSource::equals_ *)
definition sweep_equals ::
  "SkPoint \<times> SkScalar \<times> SkScalar \<times> gradient \<Rightarrow> SkPoint \<times> SkScalar \<times> SkScalar \<times> gradient \<Rightarrow> bool" where
  "sweep_equals = (\<lambda>(c, s, e, g) (c', s', e', g').
     point_eq c c' \<and> float_eq s s' \<and> float_eq e e' \<and> base_equals g g')"

(* map: display_list/display_list_color_source.h 729 747 DlRuntimeEffectColorSource::equals_ *)
definition runtime_effect_equals ::
  "sk_ref option \<times> sk_ref option list \<times> sk_ref option
    \<Rightarrow> sk_ref option \<times> sk_ref option list \<times> sk_ref option \<Rightarrow> bool" where
  "runtime_effect_equals = (\<lambda>(r, ss, u) (r', ss', u').
     if r \<noteq> r' then False else if u \<noteq> u' then False else if length ss \<noteq> length ss' then False
     else list_all2 (=) ss ss')"

text \<open>The comparison \<open>==\<close>: of the same class, and equal by \<open>equals_\<close> of that class.\<close>

(* map: display_list/display_list_attributes.h 105 107 DlAttribute::operator== *)
fun color_source_eq :: "DlColorSource \<Rightarrow> DlColorSource \<Rightarrow> bool res" where
  "color_source_eq (ColorColorSource c) (ColorColorSource c') = Inr (c = c')"
| "color_source_eq (ImageColorSource i h v s m) (ImageColorSource i' h' v' s' m') =
     Inr (image_source_equals (i, h, v, s, m) (i', h', v', s', m'))"
| "color_source_eq (LinearGradientColorSource p q g) (LinearGradientColorSource p' q' g') =
     Inr (linear_equals (p, q, g) (p', q', g'))"
| "color_source_eq (RadialGradientColorSource c r g) (RadialGradientColorSource c' r' g') =
     Inr (radial_equals (c, r, g) (c', r', g'))"
| "color_source_eq (ConicalGradientColorSource c r d s g) (ConicalGradientColorSource c' r' d' s' g') =
     Inr (conical_equals (c, r, d, s, g) (c', r', d', s', g'))"
| "color_source_eq (SweepGradientColorSource c s e g) (SweepGradientColorSource c' s' e' g') =
     Inr (sweep_equals (c, s, e, g) (c', s', e', g'))"
| "color_source_eq (RuntimeEffectColorSource r ss u) (RuntimeEffectColorSource r' ss' u') =
     Inr (runtime_effect_equals (r, ss, u) (r', ss', u'))"
| "color_source_eq (UnknownColorSource k) (UnknownColorSource k') = Inr (k = k')"
| "color_source_eq _ _ = Inr False"

(* map: display_list/display_list_color_source.h 299 310 DlGradientColorSourceBase::is_opaque *)
definition gradient_is_opaque :: "gradient \<Rightarrow> bool" where
  "gradient_is_opaque g \<longleftrightarrow> gradient_mode g \<noteq> kDecal \<and> list_all (\<lambda>c. \<not> drop_bit 24 c < 255) (gradient_colors g)"

text \<open>The sources that certainly cover what is below them; Skia answers for a shader of its own.\<close>

(* map: display_list/display_list_color_source.h 192 192 DlColorSource::is_opaque *)
fun is_opaque :: "(sk_ref \<Rightarrow> bool) \<Rightarrow> DlColorSource \<Rightarrow> bool" where
  "is_opaque sk (ColorColorSource c) = (drop_bit 24 c = 255)"
| "is_opaque sk (ImageColorSource i _ _ _ _) = image_isOpaque i"
| "is_opaque sk (LinearGradientColorSource _ _ g) = gradient_is_opaque g"
| "is_opaque sk (RadialGradientColorSource _ _ g) = gradient_is_opaque g"
| "is_opaque sk (ConicalGradientColorSource _ _ _ _ g) = gradient_is_opaque g"
| "is_opaque sk (SweepGradientColorSource _ _ _ g) = gradient_is_opaque g"
| "is_opaque sk (RuntimeEffectColorSource _ _ _) = False"
| "is_opaque sk (UnknownColorSource k) = sk k"

section \<open>Filters and effects\<close>

(* map: display_list/display_list_color_filter.h 27 33 DlColorFilterType *)
datatype DlColorFilter =
    BlendColorFilter DlColor DlBlendMode
  | MatrixColorFilter "SkScalar list"
  | SrgbToLinearGammaColorFilter
  | LinearToSrgbGammaColorFilter
  | UnknownColorFilter sk_ref

(* map: display_list/display_list_color_filter.h 115 119 DlColorFilter:equals_ *)
fun color_filter_eq :: "DlColorFilter \<Rightarrow> DlColorFilter \<Rightarrow> bool res" where
  "color_filter_eq (BlendColorFilter c m) (BlendColorFilter c' m') = Inr (c = c' \<and> m = m')"
| "color_filter_eq (MatrixColorFilter m) (MatrixColorFilter m') = Inr (m = m')"
| "color_filter_eq SrgbToLinearGammaColorFilter SrgbToLinearGammaColorFilter = Inr True"
| "color_filter_eq LinearToSrgbGammaColorFilter LinearToSrgbGammaColorFilter = Inr True"
| "color_filter_eq (UnknownColorFilter k) (UnknownColorFilter k') = Inr (k = k')"
| "color_filter_eq _ _ = Inr False"

text \<open>A blur is of one of Skia's styles, known by its number.\<close>

(* map: display_list/display_list_mask_filter.h 24 24 DlMaskFilterType *)
datatype DlMaskFilter = BlurMaskFilter nat SkScalar bool | UnknownMaskFilter sk_ref

(* map: display_list/display_list_mask_filter.h 87 92 DlMaskFilter:equals_ *)
fun mask_filter_eq :: "DlMaskFilter \<Rightarrow> DlMaskFilter \<Rightarrow> bool res" where
  "mask_filter_eq (BlurMaskFilter s g c) (BlurMaskFilter s' g' c') = Inr (s = s' \<and> float_eq g g' \<and> c = c')"
| "mask_filter_eq (UnknownMaskFilter k) (UnknownMaskFilter k') = Inr (k = k')"
| "mask_filter_eq _ _ = Inr False"

(* map: display_list/display_list_path_effect.h 28 31 DlPathEffectType *)
datatype DlPathEffect = DashPathEffect "SkScalar list" SkScalar | UnknownPathEffect sk_ref

(* map: display_list/display_list_path_effect.h 103 109 DlPathEffect:equals_ *)
fun path_effect_eq :: "DlPathEffect \<Rightarrow> DlPathEffect \<Rightarrow> bool res" where
  "path_effect_eq (DashPathEffect i p) (DashPathEffect i' p') =
     Inr (length i = length i' \<and> float_eq p p' \<and> i = i')"
| "path_effect_eq (UnknownPathEffect k) (UnknownPathEffect k') = Inr (k = k')"
| "path_effect_eq _ _ = Inr False"

text \<open>Filters may hold filters; the comparison of two local-matrix filters checks for another class first.\<close>

(* map: display_list/display_list_image_filter.h 30 39 DlImageFilterType *)
datatype DlImageFilter =
    BlurImageFilter SkScalar SkScalar DlTileMode
  | DilateImageFilter SkScalar SkScalar
  | ErodeImageFilter SkScalar SkScalar
  | MatrixImageFilter SkMatrix DlImageSampling
  | ComposeImageFilter "(nat \<times> DlImageFilter) option" "(nat \<times> DlImageFilter) option"
  | ColorFilterImageFilter "DlColorFilter ptr"
  | LocalMatrixImageFilter SkMatrix "(nat \<times> DlImageFilter) option"
  | UnknownImageFilter "sk_ref option"

(* map: display_list/display_list_image_filter.h 727 732 DlLocalMatrixImageFilter::equals_ *)
definition local_matrix_equals :: "DlImageFilter \<Rightarrow> bool res \<Rightarrow> bool res" where
  "local_matrix_equals that same =
     bindr (ensure DCheck_Failed (case that of MatrixImageFilter _ _ \<Rightarrow> True | _ \<Rightarrow> False)) (\<lambda>_. same)"

(* map: display_list/display_list_image_filter.h 561 565 DlImageFilter:equals_ *)
fun image_filter_eq :: "DlImageFilter \<Rightarrow> DlImageFilter \<Rightarrow> bool res" where
  "image_filter_eq (BlurImageFilter x y t) (BlurImageFilter x' y' t') =
     Inr (float_eq x x' \<and> float_eq y y' \<and> t = t')"
| "image_filter_eq (DilateImageFilter x y) (DilateImageFilter x' y') = Inr (float_eq x x' \<and> float_eq y y')"
| "image_filter_eq (ErodeImageFilter x y) (ErodeImageFilter x' y') = Inr (float_eq x x' \<and> float_eq y y')"
| "image_filter_eq (MatrixImageFilter m s) (MatrixImageFilter m' s') = Inr (matrix_eq m m' \<and> s = s')"
| "image_filter_eq (ComposeImageFilter p q) (ComposeImageFilter p' q') =
     bindr (Equals image_filter_eq p p') (\<lambda>b. if b then Equals image_filter_eq q q' else Inr False)"
| "image_filter_eq (ColorFilterImageFilter p) (ColorFilterImageFilter p') = Equals color_filter_eq p p'"
| "image_filter_eq (LocalMatrixImageFilter m p) (LocalMatrixImageFilter m' p') =
     local_matrix_equals (LocalMatrixImageFilter m' p')
       (if matrix_eq m m' then Equals image_filter_eq p p' else Inr False)"
| "image_filter_eq (UnknownImageFilter k) (UnknownImageFilter k') = Inr (k = k')"
| "image_filter_eq _ _ = Inr False"

text \<open>Two distinct local-matrix filters cannot be compared: the check expects the class of matrix filters.\<close>

lemma local_matrix_filters_fail:
  "image_filter_eq (LocalMatrixImageFilter m p) (LocalMatrixImageFilter m' p') = Inl DCheck_Failed"
  by (simp add: local_matrix_equals_def)

section \<open>Paint\<close>

(* map: display_list/display_list_paint.h 226 257 DlPaint *)
record DlPaint =
  blendMode :: DlBlendMode
  drawStyle :: DlDrawStyle
  strokeCap :: DlStrokeCap
  strokeJoin :: DlStrokeJoin
  isAntiAlias :: bool
  isDither :: bool
  isInvertColors :: bool
  paint_color :: DlColor
  strokeWidth :: SkScalar
  strokeMiter :: SkScalar
  colorSource :: "DlColorSource option"
  colorFilter :: "DlColorFilter option"
  imageFilter :: "DlImageFilter option"
  maskFilter :: "DlMaskFilter option"
  pathEffect :: "DlPathEffect option"

(* map: display_list/display_list_paint.cc 9 18 DlPaint::DlPaint *)
definition DlPaint_default :: DlPaint where
  "DlPaint_default =
     \<lparr>blendMode = kSrcOver, drawStyle = kFill, strokeCap = kCapButt, strokeJoin = kJoinMiter,
      isAntiAlias = False, isDither = False, isInvertColors = False, paint_color = 0xFF000000,
      strokeWidth = 0, strokeMiter = 0x40800000, colorSource = None, colorFilter = None,
      imageFilter = None, maskFilter = None, pathEffect = None\<rparr>"

text \<open>Attributes of different owners, and so at different addresses: both absent, or equal contents.\<close>

definition Equals_copy :: "('a \<Rightarrow> 'a \<Rightarrow> bool res) \<Rightarrow> 'a option \<Rightarrow> 'a option \<Rightarrow> bool res" where
  "Equals_copy eq a b = (case (a, b) of
     (None, None) \<Rightarrow> Inr True | (Some x, Some y) \<Rightarrow> eq x y | _ \<Rightarrow> Inr False)"

definition andr :: "bool res \<Rightarrow> bool res \<Rightarrow> bool res" where
  "andr p q = bindr p (\<lambda>b. if b then q else Inr False)"

(* map: display_list/display_list_paint.cc 20 35 DlPaint::operator== *)
definition paint_eq :: "DlPaint \<Rightarrow> DlPaint \<Rightarrow> bool res" where
  "paint_eq p q =
     andr (Inr (blendMode p = blendMode q \<and> drawStyle p = drawStyle q \<and> strokeCap p = strokeCap q \<and>
        strokeJoin p = strokeJoin q \<and> isAntiAlias p = isAntiAlias q \<and> isDither p = isDither q \<and>
        isInvertColors p = isInvertColors q \<and> paint_color p = paint_color q \<and>
        float_eq (strokeWidth p) (strokeWidth q) \<and> float_eq (strokeMiter p) (strokeMiter q)))
     (andr (Equals_copy color_source_eq (colorSource p) (colorSource q))
     (andr (Equals_copy color_filter_eq (colorFilter p) (colorFilter q))
     (andr (Equals_copy image_filter_eq (imageFilter p) (imageFilter q))
       (Equals_copy mask_filter_eq (maskFilter p) (maskFilter q)))))"

text \<open>The path effect is not compared.\<close>

lemma paint_eq_ignores_path_effect:
  "paint_eq (p\<lparr>pathEffect := e\<rparr>) (q\<lparr>pathEffect := e'\<rparr>) = paint_eq p q"
  by (simp add: paint_eq_def)

lemma color_filter_eq_iff: "color_filter_eq f g = Inr (f = g)"
  by (cases f; cases g) auto

end
