(* ===== verification/Dl_Flags.thy ===== *)
theory Dl_Flags
  imports Dl_Attributes
begin

text \<open>
  \<open>display_list/display_list_flags.h\<close> and \<open>.cc\<close>: for each rendering operation the attributes it honours and the
  shape of its geometry, as the bits of a word.
\<close>

unbundle bit_operations_syntax

section \<open>The bits\<close>

type_synonym flags = "32 word"

definition kIsNonGeometric :: flags where
  "kIsNonGeometric = 0"

(* map: display_list/display_list_flags.h 33 33 DisplayListFlags::kIsFilledGeometry_ *)
definition kIsFilledGeometry :: flags where
  "kIsFilledGeometry = push_bit 0 1"

(* map: display_list/display_list_flags.h 38 38 DisplayListFlags::kIsStrokedGeometry_ *)
definition kIsStrokedGeometry :: flags where
  "kIsStrokedGeometry = push_bit 1 1"

(* map: display_list/display_list_flags.h 43 43 DisplayListFlags::kIsDrawnGeometry_ *)
definition kIsDrawnGeometry :: flags where
  "kIsDrawnGeometry = push_bit 2 1"

(* map: display_list/display_list_flags.h 52 52 DisplayListFlags::kFloodsSurface_ *)
definition kFloodsSurface :: flags where
  "kFloodsSurface = push_bit 3 1"

(* map: display_list/display_list_flags.h 54 54 DisplayListFlags::kMayHaveCaps_ *)
definition kMayHaveCaps :: flags where
  "kMayHaveCaps = push_bit 4 1"

(* map: display_list/display_list_flags.h 55 55 DisplayListFlags::kMayHaveJoins_ *)
definition kMayHaveJoins :: flags where
  "kMayHaveJoins = push_bit 5 1"

(* map: display_list/display_list_flags.h 56 56 DisplayListFlags::kButtCapIsSquare_ *)
definition kButtCapIsSquare :: flags where
  "kButtCapIsSquare = push_bit 6 1"

(* map: display_list/display_list_flags.h 66 66 DisplayListFlags::kMayHaveDiagonalCaps_ *)
definition kMayHaveDiagonalCaps :: flags where
  "kMayHaveDiagonalCaps = push_bit 7 1"

(* map: display_list/display_list_flags.h 77 77 DisplayListFlags::kMayHaveAcuteJoins_ *)
definition kMayHaveAcuteJoins :: flags where
  "kMayHaveAcuteJoins = push_bit 8 1"

(* map: display_list/display_list_flags.h 84 84 DisplayListFlags::kUsesAntiAlias_ *)
definition kUsesAntiAlias :: flags where
  "kUsesAntiAlias = push_bit 10 1"

(* map: display_list/display_list_flags.h 85 85 DisplayListFlags::kUsesDither_ *)
definition kUsesDither :: flags where
  "kUsesDither = push_bit 11 1"

(* map: display_list/display_list_flags.h 86 86 DisplayListFlags::kUsesAlpha_ *)
definition kUsesAlpha :: flags where
  "kUsesAlpha = push_bit 12 1"

(* map: display_list/display_list_flags.h 87 87 DisplayListFlags::kUsesColor_ *)
definition kUsesColor :: flags where
  "kUsesColor = push_bit 13 1"

(* map: display_list/display_list_flags.h 88 88 DisplayListFlags::kUsesBlend_ *)
definition kUsesBlend :: flags where
  "kUsesBlend = push_bit 14 1"

(* map: display_list/display_list_flags.h 89 89 DisplayListFlags::kUsesShader_ *)
definition kUsesShader :: flags where
  "kUsesShader = push_bit 15 1"

(* map: display_list/display_list_flags.h 90 90 DisplayListFlags::kUsesColorFilter_ *)
definition kUsesColorFilter :: flags where
  "kUsesColorFilter = push_bit 16 1"

(* map: display_list/display_list_flags.h 91 91 DisplayListFlags::kUsesPathEffect_ *)
definition kUsesPathEffect :: flags where
  "kUsesPathEffect = push_bit 17 1"

(* map: display_list/display_list_flags.h 92 92 DisplayListFlags::kUsesMaskFilter_ *)
definition kUsesMaskFilter :: flags where
  "kUsesMaskFilter = push_bit 18 1"

(* map: display_list/display_list_flags.h 93 93 DisplayListFlags::kUsesImageFilter_ *)
definition kUsesImageFilter :: flags where
  "kUsesImageFilter = push_bit 19 1"

(* map: display_list/display_list_flags.h 102 102 DisplayListFlags::kIgnoresPaint_ *)
definition kIgnoresPaint :: flags where
  "kIgnoresPaint = push_bit 30 1"

(* map: display_list/display_list_flags.h 45 48 DisplayListFlags::kIsAnyGeometryMask_ *)
definition kIsAnyGeometryMask :: flags where
  "kIsAnyGeometryMask = kIsFilledGeometry OR kIsStrokedGeometry OR kIsDrawnGeometry"

(* map: display_list/display_list_flags.h 79 81 DisplayListFlags::kAnySpecialGeometryMask_ *)
definition kAnySpecialGeometryMask :: flags where
  "kAnySpecialGeometryMask =
     kMayHaveCaps OR kMayHaveJoins OR kButtCapIsSquare OR kMayHaveDiagonalCaps OR kMayHaveAcuteJoins"

(* map: display_list/display_list_flags.h 105 108 DisplayListFlags::kAnyAttributeMask_ *)
definition kAnyAttributeMask :: flags where
  "kAnyAttributeMask = kUsesAntiAlias OR kUsesDither OR kUsesAlpha OR kUsesColor OR kUsesBlend OR kUsesShader OR
     kUsesColorFilter OR kUsesPathEffect OR kUsesMaskFilter OR kUsesImageFilter"

(* map: display_list/display_list_flags.h 117 117 DisplayListFlagsBase::has_any *)
definition has_any :: "flags \<Rightarrow> flags \<Rightarrow> bool" where
  "has_any f q \<longleftrightarrow> f AND q \<noteq> 0"

(* map: display_list/display_list_flags.h 118 118 DisplayListFlagsBase::has_all *)
definition has_all :: "flags \<Rightarrow> flags \<Rightarrow> bool" where
  "has_all f q \<longleftrightarrow> f AND q = q"

section \<open>What an operation honours\<close>

(* map: display_list/display_list_flags.h 165 165 DisplayListAttributeFlags::ignores_paint *)
definition ignores_paint :: "flags \<Rightarrow> bool" where
  "ignores_paint f \<longleftrightarrow> has_any f kIgnoresPaint"

(* map: display_list/display_list_flags.h 167 167 DisplayListAttributeFlags::applies_anti_alias *)
definition applies_anti_alias :: "flags \<Rightarrow> bool" where
  "applies_anti_alias f \<longleftrightarrow> has_any f kUsesAntiAlias"

(* map: display_list/display_list_flags.h 168 168 DisplayListAttributeFlags::applies_dither *)
definition applies_dither :: "flags \<Rightarrow> bool" where
  "applies_dither f \<longleftrightarrow> has_any f kUsesDither"

(* map: display_list/display_list_flags.h 169 169 DisplayListAttributeFlags::applies_color *)
definition applies_color :: "flags \<Rightarrow> bool" where
  "applies_color f \<longleftrightarrow> has_any f kUsesColor"

(* map: display_list/display_list_flags.h 170 170 DisplayListAttributeFlags::applies_alpha *)
definition applies_alpha :: "flags \<Rightarrow> bool" where
  "applies_alpha f \<longleftrightarrow> has_any f kUsesAlpha"

(* map: display_list/display_list_flags.h 171 173 DisplayListAttributeFlags::applies_alpha_or_color *)
definition applies_alpha_or_color :: "flags \<Rightarrow> bool" where
  "applies_alpha_or_color f \<longleftrightarrow> has_any f (kUsesAlpha OR kUsesColor)"

(* map: display_list/display_list_flags.h 177 177 DisplayListAttributeFlags::applies_style *)
definition applies_style :: "flags \<Rightarrow> bool" where
  "applies_style f \<longleftrightarrow> has_any f kIsDrawnGeometry"

(* map: display_list/display_list_flags.h 188 188 DisplayListAttributeFlags::applies_shader *)
definition applies_shader :: "flags \<Rightarrow> bool" where
  "applies_shader f \<longleftrightarrow> has_any f kUsesShader"

(* map: display_list/display_list_flags.h 191 191 DisplayListAttributeFlags::applies_color_filter *)
definition applies_color_filter :: "flags \<Rightarrow> bool" where
  "applies_color_filter f \<longleftrightarrow> has_any f kUsesColorFilter"

(* map: display_list/display_list_flags.h 193 193 DisplayListAttributeFlags::applies_blend *)
definition applies_blend :: "flags \<Rightarrow> bool" where
  "applies_blend f \<longleftrightarrow> has_any f kUsesBlend"

(* map: display_list/display_list_flags.h 194 194 DisplayListAttributeFlags::applies_path_effect *)
definition applies_path_effect :: "flags \<Rightarrow> bool" where
  "applies_path_effect f \<longleftrightarrow> has_any f kUsesPathEffect"

(* map: display_list/display_list_flags.h 197 197 DisplayListAttributeFlags::applies_mask_filter *)
definition applies_mask_filter :: "flags \<Rightarrow> bool" where
  "applies_mask_filter f \<longleftrightarrow> has_any f kUsesMaskFilter"

(* map: display_list/display_list_flags.h 198 198 DisplayListAttributeFlags::applies_image_filter *)
definition applies_image_filter :: "flags \<Rightarrow> bool" where
  "applies_image_filter f \<longleftrightarrow> has_any f kUsesImageFilter"

(* map: display_list/display_list_flags.h 200 200 DisplayListAttributeFlags::is_geometric *)
definition is_geometric :: "flags \<Rightarrow> bool" where
  "is_geometric f \<longleftrightarrow> has_any f kIsAnyGeometryMask"

(* map: display_list/display_list_flags.h 201 201 DisplayListAttributeFlags::always_stroked *)
definition always_stroked :: "flags \<Rightarrow> bool" where
  "always_stroked f \<longleftrightarrow> has_any f kIsStrokedGeometry"

(* map: display_list/display_list_flags.h 207 207 DisplayListAttributeFlags::is_flood *)
definition is_flood :: "flags \<Rightarrow> bool" where
  "is_flood f \<longleftrightarrow> has_any f kFloodsSurface"

(* map: display_list/display_list_flags.h 202 205 DisplayListAttributeFlags::is_stroked *)
definition is_stroked :: "flags \<Rightarrow> DlDrawStyle \<Rightarrow> bool" where
  "is_stroked f style \<longleftrightarrow> has_any f kIsStrokedGeometry \<or> (style \<noteq> kFill \<and> has_any f kIsDrawnGeometry)"

text \<open>
  The constructor: the checks on the word, and the special geometry, kept beside it. \<open>without\<close> checks that
  the flags are there.
\<close>

(* map: display_list/display_list_flags.h 210 221 DisplayListAttributeFlags *)
definition DisplayListAttributeFlags :: "flags \<Rightarrow> flags res" where
  "DisplayListAttributeFlags f =
     bindr (ensure DCheck_Failed
       (f AND kIsAnyGeometryMask = kIsNonGeometric \<or> f AND kIsAnyGeometryMask = kIsFilledGeometry \<or>
        f AND kIsAnyGeometryMask = kIsStrokedGeometry \<or> f AND kIsAnyGeometryMask = kIsDrawnGeometry)) (\<lambda>_.
     bindr (ensure DCheck_Failed ((f AND kAnyAttributeMask = 0) \<noteq> (f AND kIgnoresPaint = 0))) (\<lambda>_.
     bindr (ensure DCheck_Failed (f AND kIsAnyGeometryMask \<noteq> 0 \<or> f AND kAnySpecialGeometryMask = 0)) (\<lambda>_.
     Inr f)))"

definition special_flags :: "flags \<Rightarrow> flags" where
  "special_flags f = f AND kAnySpecialGeometryMask"

(* map: display_list/display_list_flags.h 223 225 DisplayListAttributeFlags::with *)
definition flags_with :: "flags \<Rightarrow> flags \<Rightarrow> flags res" where
  "flags_with f extra = (if extra = 0 then Inr f else DisplayListAttributeFlags (f OR extra))"

(* map: display_list/display_list_flags.h 227 230 DisplayListAttributeFlags::without *)
definition flags_without :: "flags \<Rightarrow> flags \<Rightarrow> flags res" where
  "flags_without f remove =
     bindr (ensure DCheck_Failed (has_all f remove)) (\<lambda>_. DisplayListAttributeFlags (f AND NOT remove))"

(* map: display_list/display_list_flags.cc 9 28 DisplayListAttributeFlags::WithPathEffect *)
definition WithPathEffect :: "flags \<Rightarrow> DlPathEffect option \<Rightarrow> flags" where
  "WithPathEffect f effect = (case effect of
     Some e \<Rightarrow>
       if is_geometric f then
         (case e of DashPathEffect _ _ \<Rightarrow> special_flags f OR kMayHaveCaps OR kMayHaveDiagonalCaps
          | UnknownPathEffect _ \<Rightarrow>
              special_flags f OR kMayHaveCaps OR kMayHaveDiagonalCaps OR kMayHaveJoins OR kMayHaveAcuteJoins)
       else special_flags f
   | None \<Rightarrow> special_flags f)"

section \<open>The operations\<close>

(* map: display_list/display_list_flags.cc 32 38 PAINT_FLAGS *)
definition PAINT_FLAGS :: flags where
  "PAINT_FLAGS = kUsesDither OR kUsesColor OR kUsesAlpha OR kUsesBlend OR kUsesShader OR kUsesColorFilter OR
     kUsesImageFilter"

(* map: display_list/display_list_flags.cc 41 44 STROKE_OR_FILL_FLAGS *)
definition STROKE_OR_FILL_FLAGS :: flags where
  "STROKE_OR_FILL_FLAGS = kIsDrawnGeometry OR kUsesAntiAlias OR kUsesMaskFilter OR kUsesPathEffect"

(* map: display_list/display_list_flags.cc 47 50 STROKE_FLAGS *)
definition STROKE_FLAGS :: flags where
  "STROKE_FLAGS = kIsStrokedGeometry OR kUsesAntiAlias OR kUsesMaskFilter OR kUsesPathEffect"

(* map: display_list/display_list_flags.cc 53 58 IMAGE_FLAGS_BASE *)
definition IMAGE_FLAGS_BASE :: flags where
  "IMAGE_FLAGS_BASE =
     kIsNonGeometric OR kUsesAlpha OR kUsesDither OR kUsesBlend OR kUsesColorFilter OR kUsesImageFilter"

(* map: display_list/display_list_flags.cc 61 62 DisplayListOpFlags::kSaveLayerFlags *)
definition kSaveLayerFlags :: "flags res" where
  "kSaveLayerFlags =
     DisplayListAttributeFlags (kIgnoresPaint)"

(* map: display_list/display_list_flags.cc 64 69 DisplayListOpFlags::kSaveLayerWithPaintFlags *)
definition kSaveLayerWithPaintFlags :: "flags res" where
  "kSaveLayerWithPaintFlags =
     DisplayListAttributeFlags (kIsNonGeometric OR kUsesAlpha OR kUsesBlend OR kUsesColorFilter OR kUsesImageFilter)"

(* map: display_list/display_list_flags.cc 71 72 DisplayListOpFlags::kDrawColorFlags *)
definition kDrawColorFlags :: "flags res" where
  "kDrawColorFlags =
     DisplayListAttributeFlags (kFloodsSurface OR kIgnoresPaint)"

(* map: display_list/display_list_flags.cc 74 75 DisplayListOpFlags::kDrawPaintFlags *)
definition kDrawPaintFlags :: "flags res" where
  "kDrawPaintFlags =
     DisplayListAttributeFlags (PAINT_FLAGS OR kFloodsSurface)"

(* map: display_list/display_list_flags.cc 77 78 DisplayListOpFlags::kDrawHVLineFlags *)
definition kDrawHVLineFlags :: "flags res" where
  "kDrawHVLineFlags =
     DisplayListAttributeFlags (PAINT_FLAGS OR STROKE_FLAGS OR kMayHaveCaps)"

(* map: display_list/display_list_flags.cc 80 81 DisplayListOpFlags::kDrawLineFlags *)
definition kDrawLineFlags :: "flags res" where
  "kDrawLineFlags =
     bindr kDrawHVLineFlags (\<lambda>f. flags_with f kMayHaveDiagonalCaps)"

(* map: display_list/display_list_flags.cc 83 85 DisplayListOpFlags::kDrawRectFlags *)
definition kDrawRectFlags :: "flags res" where
  "kDrawRectFlags =
     DisplayListAttributeFlags (PAINT_FLAGS OR STROKE_OR_FILL_FLAGS OR kMayHaveJoins)"

(* map: display_list/display_list_flags.cc 87 88 DisplayListOpFlags::kDrawOvalFlags *)
definition kDrawOvalFlags :: "flags res" where
  "kDrawOvalFlags =
     DisplayListAttributeFlags (PAINT_FLAGS OR STROKE_OR_FILL_FLAGS)"

(* map: display_list/display_list_flags.cc 90 91 DisplayListOpFlags::kDrawCircleFlags *)
definition kDrawCircleFlags :: "flags res" where
  "kDrawCircleFlags =
     DisplayListAttributeFlags (PAINT_FLAGS OR STROKE_OR_FILL_FLAGS)"

(* map: display_list/display_list_flags.cc 93 94 DisplayListOpFlags::kDrawRRectFlags *)
definition kDrawRRectFlags :: "flags res" where
  "kDrawRRectFlags =
     DisplayListAttributeFlags (PAINT_FLAGS OR STROKE_OR_FILL_FLAGS)"

(* map: display_list/display_list_flags.cc 96 97 DisplayListOpFlags::kDrawDRRectFlags *)
definition kDrawDRRectFlags :: "flags res" where
  "kDrawDRRectFlags =
     DisplayListAttributeFlags (PAINT_FLAGS OR STROKE_OR_FILL_FLAGS)"

(* map: display_list/display_list_flags.cc 99 102 DisplayListOpFlags::kDrawPathFlags *)
definition kDrawPathFlags :: "flags res" where
  "kDrawPathFlags =
     DisplayListAttributeFlags (PAINT_FLAGS OR STROKE_OR_FILL_FLAGS OR kMayHaveCaps OR kMayHaveDiagonalCaps OR kMayHaveJoins OR
     kMayHaveAcuteJoins)"

(* map: display_list/display_list_flags.cc 104 106 DisplayListOpFlags::kDrawArcNoCenterFlags *)
definition kDrawArcNoCenterFlags :: "flags res" where
  "kDrawArcNoCenterFlags =
     DisplayListAttributeFlags (PAINT_FLAGS OR STROKE_OR_FILL_FLAGS OR kMayHaveCaps OR kMayHaveDiagonalCaps)"

(* map: display_list/display_list_flags.cc 108 110 DisplayListOpFlags::kDrawArcWithCenterFlags *)
definition kDrawArcWithCenterFlags :: "flags res" where
  "kDrawArcWithCenterFlags =
     DisplayListAttributeFlags (PAINT_FLAGS OR STROKE_OR_FILL_FLAGS OR kMayHaveJoins OR kMayHaveAcuteJoins)"

(* map: display_list/display_list_flags.cc 112 114 DisplayListOpFlags::kDrawPointsAsPointsFlags *)
definition kDrawPointsAsPointsFlags :: "flags res" where
  "kDrawPointsAsPointsFlags =
     DisplayListAttributeFlags (PAINT_FLAGS OR STROKE_FLAGS OR kMayHaveCaps OR kButtCapIsSquare)"

(* map: display_list/display_list_flags.cc 116 118 DisplayListOpFlags::kDrawPointsAsLinesFlags *)
definition kDrawPointsAsLinesFlags :: "flags res" where
  "kDrawPointsAsLinesFlags =
     DisplayListAttributeFlags (PAINT_FLAGS OR STROKE_FLAGS OR kMayHaveCaps OR kMayHaveDiagonalCaps)"

(* map: display_list/display_list_flags.cc 121 123 DisplayListOpFlags::kDrawPointsAsPolygonFlags *)
definition kDrawPointsAsPolygonFlags :: "flags res" where
  "kDrawPointsAsPolygonFlags =
     DisplayListAttributeFlags (PAINT_FLAGS OR STROKE_FLAGS OR kMayHaveCaps OR kMayHaveDiagonalCaps)"

(* map: display_list/display_list_flags.cc 125 132 DisplayListOpFlags::kDrawVerticesFlags *)
definition kDrawVerticesFlags :: "flags res" where
  "kDrawVerticesFlags =
     DisplayListAttributeFlags (kIsNonGeometric OR kUsesDither OR kUsesAlpha OR kUsesShader OR kUsesBlend OR kUsesColorFilter
     OR kUsesImageFilter)"

(* map: display_list/display_list_flags.cc 134 135 DisplayListOpFlags::kDrawImageFlags *)
definition kDrawImageFlags :: "flags res" where
  "kDrawImageFlags =
     DisplayListAttributeFlags (kIgnoresPaint)"

(* map: display_list/display_list_flags.cc 137 139 DisplayListOpFlags::kDrawImageWithPaintFlags *)
definition kDrawImageWithPaintFlags :: "flags res" where
  "kDrawImageWithPaintFlags =
     DisplayListAttributeFlags (IMAGE_FLAGS_BASE OR kUsesAntiAlias OR kUsesMaskFilter)"

(* map: display_list/display_list_flags.cc 141 142 DisplayListOpFlags::kDrawImageRectFlags *)
definition kDrawImageRectFlags :: "flags res" where
  "kDrawImageRectFlags =
     DisplayListAttributeFlags (kIgnoresPaint)"

(* map: display_list/display_list_flags.cc 144 147 DisplayListOpFlags::kDrawImageRectWithPaintFlags *)
definition kDrawImageRectWithPaintFlags :: "flags res" where
  "kDrawImageRectWithPaintFlags =
     DisplayListAttributeFlags (IMAGE_FLAGS_BASE OR kUsesAntiAlias OR kUsesMaskFilter)"

(* map: display_list/display_list_flags.cc 149 150 DisplayListOpFlags::kDrawImageNineFlags *)
definition kDrawImageNineFlags :: "flags res" where
  "kDrawImageNineFlags =
     DisplayListAttributeFlags (kIgnoresPaint)"

(* map: display_list/display_list_flags.cc 152 154 DisplayListOpFlags::kDrawImageNineWithPaintFlags *)
definition kDrawImageNineWithPaintFlags :: "flags res" where
  "kDrawImageNineWithPaintFlags =
     DisplayListAttributeFlags (IMAGE_FLAGS_BASE)"

(* map: display_list/display_list_flags.cc 156 157 DisplayListOpFlags::kDrawImageLatticeFlags *)
definition kDrawImageLatticeFlags :: "flags res" where
  "kDrawImageLatticeFlags =
     DisplayListAttributeFlags (kIgnoresPaint)"

(* map: display_list/display_list_flags.cc 159 161 DisplayListOpFlags::kDrawImageLatticeWithPaintFlags *)
definition kDrawImageLatticeWithPaintFlags :: "flags res" where
  "kDrawImageLatticeWithPaintFlags =
     DisplayListAttributeFlags (IMAGE_FLAGS_BASE)"

(* map: display_list/display_list_flags.cc 163 164 DisplayListOpFlags::kDrawAtlasFlags *)
definition kDrawAtlasFlags :: "flags res" where
  "kDrawAtlasFlags =
     DisplayListAttributeFlags (kIgnoresPaint)"

(* map: display_list/display_list_flags.cc 166 167 DisplayListOpFlags::kDrawAtlasWithPaintFlags *)
definition kDrawAtlasWithPaintFlags :: "flags res" where
  "kDrawAtlasWithPaintFlags =
     DisplayListAttributeFlags (IMAGE_FLAGS_BASE)"

(* map: display_list/display_list_flags.cc 169 170 DisplayListOpFlags::kDrawPictureFlags *)
definition kDrawPictureFlags :: "flags res" where
  "kDrawPictureFlags =
     DisplayListAttributeFlags (kIgnoresPaint)"

(* map: display_list/display_list_flags.cc 172 173 DisplayListOpFlags::kDrawPictureWithPaintFlags *)
definition kDrawPictureWithPaintFlags :: "flags res" where
  "kDrawPictureWithPaintFlags =
     kSaveLayerWithPaintFlags"

(* map: display_list/display_list_flags.cc 175 176 DisplayListOpFlags::kDrawDisplayListFlags *)
definition kDrawDisplayListFlags :: "flags res" where
  "kDrawDisplayListFlags =
     DisplayListAttributeFlags (kIgnoresPaint)"

(* map: display_list/display_list_flags.cc 178 181 DisplayListOpFlags::kDrawTextBlobFlags *)
definition kDrawTextBlobFlags :: "flags res" where
  "kDrawTextBlobFlags =
     bindr (DisplayListAttributeFlags (PAINT_FLAGS OR STROKE_OR_FILL_FLAGS OR kMayHaveJoins)) (\<lambda>f. flags_without f kUsesAntiAlias)"

(* map: display_list/display_list_flags.cc 183 184 DisplayListOpFlags::kDrawShadowFlags *)
definition kDrawShadowFlags :: "flags res" where
  "kDrawShadowFlags =
     DisplayListAttributeFlags (kIgnoresPaint)"

lemmas bit_defs = PAINT_FLAGS_def STROKE_OR_FILL_FLAGS_def STROKE_FLAGS_def IMAGE_FLAGS_BASE_def
  kIsAnyGeometryMask_def kAnySpecialGeometryMask_def kAnyAttributeMask_def kIsNonGeometric_def
  kIsFilledGeometry_def kIsStrokedGeometry_def kIsDrawnGeometry_def kFloodsSurface_def
  kMayHaveCaps_def kMayHaveJoins_def kButtCapIsSquare_def kMayHaveDiagonalCaps_def
  kMayHaveAcuteJoins_def kUsesAntiAlias_def kUsesDither_def kUsesAlpha_def kUsesColor_def
  kUsesBlend_def kUsesShader_def kUsesColorFilter_def kUsesPathEffect_def kUsesMaskFilter_def
  kUsesImageFilter_def kIgnoresPaint_def

lemmas op_flag_defs = kSaveLayerFlags_def kSaveLayerWithPaintFlags_def kDrawColorFlags_def kDrawPaintFlags_def
  kDrawHVLineFlags_def kDrawLineFlags_def kDrawRectFlags_def kDrawOvalFlags_def kDrawCircleFlags_def
  kDrawRRectFlags_def kDrawDRRectFlags_def kDrawPathFlags_def kDrawArcNoCenterFlags_def
  kDrawArcWithCenterFlags_def kDrawPointsAsPointsFlags_def kDrawPointsAsLinesFlags_def
  kDrawPointsAsPolygonFlags_def kDrawVerticesFlags_def kDrawImageFlags_def
  kDrawImageWithPaintFlags_def kDrawImageRectFlags_def kDrawImageRectWithPaintFlags_def
  kDrawImageNineFlags_def kDrawImageNineWithPaintFlags_def kDrawImageLatticeFlags_def
  kDrawImageLatticeWithPaintFlags_def kDrawAtlasFlags_def kDrawAtlasWithPaintFlags_def
  kDrawPictureFlags_def kDrawPictureWithPaintFlags_def kDrawDisplayListFlags_def
  kDrawTextBlobFlags_def kDrawShadowFlags_def

definition op_flags :: "flags res list" where
  "op_flags =
     [kSaveLayerFlags, kSaveLayerWithPaintFlags, kDrawColorFlags, kDrawPaintFlags, kDrawHVLineFlags,
      kDrawLineFlags, kDrawRectFlags, kDrawOvalFlags, kDrawCircleFlags, kDrawRRectFlags,
      kDrawDRRectFlags, kDrawPathFlags, kDrawArcNoCenterFlags, kDrawArcWithCenterFlags,
      kDrawPointsAsPointsFlags, kDrawPointsAsLinesFlags, kDrawPointsAsPolygonFlags,
      kDrawVerticesFlags, kDrawImageFlags, kDrawImageWithPaintFlags, kDrawImageRectFlags,
      kDrawImageRectWithPaintFlags, kDrawImageNineFlags, kDrawImageNineWithPaintFlags,
      kDrawImageLatticeFlags, kDrawImageLatticeWithPaintFlags, kDrawAtlasFlags,
      kDrawAtlasWithPaintFlags, kDrawPictureFlags, kDrawPictureWithPaintFlags, kDrawDisplayListFlags,
      kDrawTextBlobFlags, kDrawShadowFlags]"

section \<open>The flags are well formed\<close>

text \<open>
  What the constructor checks: at most one kind of geometry, either attributes or the mark that the paint is
  ignored, and details of a geometry only where there is one.
\<close>

definition well_formed_flags :: "flags \<Rightarrow> bool" where
  "well_formed_flags f \<longleftrightarrow>
     f AND kIsAnyGeometryMask \<in> {kIsNonGeometric, kIsFilledGeometry, kIsStrokedGeometry, kIsDrawnGeometry} \<and>
     (ignores_paint f \<longleftrightarrow> \<not> has_any f kAnyAttributeMask) \<and>
     (is_geometric f \<or> special_flags f = 0)"

lemma constructor_well_formed: "DisplayListAttributeFlags f = Inr g \<Longrightarrow> g = f \<and> well_formed_flags f"
  by (auto simp: DisplayListAttributeFlags_def well_formed_flags_def ignores_paint_def has_any_def is_geometric_def
      special_flags_def res_simps elim!: bindrE)

lemma with_well_formed: "flags_with f e = Inr g \<Longrightarrow> well_formed_flags f \<Longrightarrow> well_formed_flags g"
  by (auto simp: flags_with_def split: if_splits dest: constructor_well_formed)

lemma without_well_formed: "flags_without f e = Inr g \<Longrightarrow> well_formed_flags g"
  by (auto simp: flags_without_def elim!: bindrE dest: constructor_well_formed)

lemma op_flags_exist: "list_all (\<lambda>r. \<not> isl r) op_flags"
  by (simp add: op_flags_def op_flag_defs DisplayListAttributeFlags_def flags_with_def flags_without_def has_all_def bit_defs)

lemma op_flags_constructed: "list_all (\<lambda>r. r = bindr r DisplayListAttributeFlags) op_flags"
  by (simp add: op_flags_def op_flag_defs DisplayListAttributeFlags_def flags_with_def flags_without_def has_all_def bit_defs)

lemma WithPathEffect_special: "WithPathEffect f e AND kAnySpecialGeometryMask = WithPathEffect f e"
proof -
  have s: "special_flags f AND kAnySpecialGeometryMask = special_flags f"
    by (simp add: special_flags_def and.assoc)
  have "kMayHaveCaps AND kAnySpecialGeometryMask = kMayHaveCaps" "kMayHaveDiagonalCaps AND kAnySpecialGeometryMask = kMayHaveDiagonalCaps"
    "kMayHaveJoins AND kAnySpecialGeometryMask = kMayHaveJoins" "kMayHaveAcuteJoins AND kAnySpecialGeometryMask = kMayHaveAcuteJoins"
    by code_simp+
  with s show ?thesis
    by (auto simp: WithPathEffect_def bit.conj_disj_distrib2 split: option.splits DlPathEffect.splits)
qed

text \<open>
  The static data of the renderer are well formed: the flag word of every rendering operation passes the
  checks of its constructor (one kind of geometry at most, attributes or the mark that the paint is
  ignored but not both, geometric details only with geometry), also where it is made from another word, and
  a path effect adds to any of them nothing but details of the geometry.
\<close>

lemma operation_flags_are_well_formed:
  "list_all (\<lambda>r. case r of
       Inl e \<Rightarrow> False
     | Inr f \<Rightarrow> well_formed_flags f \<and> (\<forall>e. WithPathEffect f e AND NOT kAnySpecialGeometryMask = 0)) op_flags"
proof -
  have "case r of Inl e \<Rightarrow> False | Inr f \<Rightarrow> well_formed_flags f" if "r \<in> set op_flags" for r
  proof (cases r)
    case (Inl e)
    with that op_flags_exist show ?thesis by (auto simp: list_all_iff)
  next
    case (Inr f)
    have "r = bindr r DisplayListAttributeFlags" using op_flags_constructed that by (simp only: list_all_iff)
    with Inr have "DisplayListAttributeFlags f = Inr f" by simp
    with Inr show ?thesis by (simp add: constructor_well_formed)
  qed
  moreover have "WithPathEffect f e AND NOT kAnySpecialGeometryMask = 0" for f e
  proof -
    have "WithPathEffect f e AND NOT kAnySpecialGeometryMask =
        (WithPathEffect f e AND kAnySpecialGeometryMask) AND NOT kAnySpecialGeometryMask"
      by (simp only: WithPathEffect_special)
    then show ?thesis by (simp add: and.assoc)
  qed
  ultimately show ?thesis by (simp add: list_all_iff cong del: sum.case_cong_weak)
qed
end
