(* ===== verification/Dl_Ops.thy ===== *)
theory Dl_Ops
  imports Dl_Flags
begin

text \<open>
  The records of a display list (\<open>display_list/display_list_ops.h\<close>) and the calls of the \<open>Dispatcher\<close> interface
  (\<open>display_list_dispatcher.h\<close>) that they stand for. The records fall into three families: those that set an
  attribute, those that draw, and the rest. Skia is a parameter: the functions that the builder calls.
\<close>

section \<open>Skia\<close>

text \<open>
  Shapes, pictures, blenders and text are known by their address. A 4x4 matrix is the list of its
  entries, row by row.
\<close>

record SkRect =
  fLeft :: SkScalar
  fTop :: SkScalar
  fRight :: SkScalar
  fBottom :: SkScalar

type_synonym SkM44 = "SkScalar list"
type_synonym SkRRect = sk_ref
type_synonym SkPath = sk_ref

definition SkM44_identity :: SkM44 where
  "SkM44_identity = (let o1 = float_one in [o1, 0, 0, 0,  0, o1, 0, 0,  0, 0, o1, 0,  0, 0, 0, o1])"

datatype SkClipOp = kIntersectClip | kDifferenceClip
datatype PointMode = kPoints_PointMode | kLines_PointMode | kPolygon_PointMode
datatype DlFilterMode = kNearestFilter | kLinearFilter

section \<open>Records that set an attribute\<close>

(* map: display_list/display_list_dispatcher.h 40 59 Dispatcher *)
datatype attr_call =
    setAntiAlias bool
  | setDither bool
  | setStyle DlDrawStyle
  | setColor DlColor
  | setStrokeWidth SkScalar
  | setStrokeMiter SkScalar
  | setStrokeCap DlStrokeCap
  | setStrokeJoin DlStrokeJoin
  | setColorSource "DlColorSource option"
  | setColorFilter "DlColorFilter option"
  | setInvertColors bool
  | setBlendMode DlBlendMode
  | setBlender "sk_ref option"
  | setPathEffect "DlPathEffect option"
  | setMaskFilter "DlMaskFilter option"
  | setImageFilter "DlImageFilter option"

(* map: display_list/display_list.h 64 102 DisplayListOpType *)
datatype attr_op =
    SetAntiAliasOp bool
  | SetDitherOp bool
  | SetInvertColorsOp bool
  | SetStrokeCapOp DlStrokeCap
  | SetStrokeJoinOp DlStrokeJoin
  | SetStyleOp DlDrawStyle
  | SetStrokeWidthOp SkScalar
  | SetStrokeMiterOp SkScalar
  | SetColorOp DlColor
  | SetBlendModeOp DlBlendMode
  | SetBlenderOp sk_ref
  | ClearBlenderOp
  | SetSkPathEffectOp sk_ref
  | SetPodPathEffectOp DlPathEffect
  | ClearPathEffectOp
  | ClearColorFilterOp
  | SetPodColorFilterOp DlColorFilter
  | SetSkColorFilterOp sk_ref
  | ClearColorSourceOp
  | SetPodColorSourceOp DlColorSource
  | SetSkColorSourceOp sk_ref
  | SetImageColorSourceOp DlColorSource
  | SetRuntimeEffectColorSourceOp DlColorSource
  | ClearImageFilterOp
  | SetPodImageFilterOp DlImageFilter
  | SetSkImageFilterOp "sk_ref option"
  | SetSharedImageFilterOp DlImageFilter
  | ClearMaskFilterOp
  | SetPodMaskFilterOp DlMaskFilter
  | SetSkMaskFilterOp sk_ref

(* map: display_list/display_list_ops.h 64 213 DLOp:dispatch *)
fun dispatch_attr :: "attr_op \<Rightarrow> attr_call" where
  "dispatch_attr (SetAntiAliasOp v) = setAntiAlias v"
| "dispatch_attr (SetDitherOp v) = setDither v"
| "dispatch_attr (SetInvertColorsOp v) = setInvertColors v"
| "dispatch_attr (SetStrokeCapOp v) = setStrokeCap v"
| "dispatch_attr (SetStrokeJoinOp v) = setStrokeJoin v"
| "dispatch_attr (SetStyleOp v) = setStyle v"
| "dispatch_attr (SetStrokeWidthOp v) = setStrokeWidth v"
| "dispatch_attr (SetStrokeMiterOp v) = setStrokeMiter v"
| "dispatch_attr (SetColorOp v) = setColor v"
| "dispatch_attr (SetBlendModeOp v) = setBlendMode v"
| "dispatch_attr (SetBlenderOp v) = setBlender (Some v)"
| "dispatch_attr ClearBlenderOp = setBlender None"
| "dispatch_attr (SetSkPathEffectOp k) = setPathEffect (Some (UnknownPathEffect k))"
| "dispatch_attr (SetPodPathEffectOp e) = setPathEffect (Some e)"
| "dispatch_attr ClearPathEffectOp = setPathEffect None"
| "dispatch_attr ClearColorFilterOp = setColorFilter None"
| "dispatch_attr (SetPodColorFilterOp f) = setColorFilter (Some f)"
| "dispatch_attr (SetSkColorFilterOp k) = setColorFilter (Some (UnknownColorFilter k))"
| "dispatch_attr ClearColorSourceOp = setColorSource None"
| "dispatch_attr (SetPodColorSourceOp s) = setColorSource (Some s)"
| "dispatch_attr (SetSkColorSourceOp k) = setColorSource (Some (UnknownColorSource k))"
| "dispatch_attr (SetImageColorSourceOp s) = setColorSource (Some s)"
| "dispatch_attr (SetRuntimeEffectColorSourceOp s) = setColorSource (Some s)"
| "dispatch_attr ClearImageFilterOp = setImageFilter None"
| "dispatch_attr (SetPodImageFilterOp f) = setImageFilter (Some f)"
| "dispatch_attr (SetSkImageFilterOp k) = setImageFilter (Some (UnknownImageFilter k))"
| "dispatch_attr (SetSharedImageFilterOp f) = setImageFilter (Some f)"
| "dispatch_attr ClearMaskFilterOp = setMaskFilter None"
| "dispatch_attr (SetPodMaskFilterOp f) = setMaskFilter (Some f)"
| "dispatch_attr (SetSkMaskFilterOp k) = setMaskFilter (Some (UnknownMaskFilter k))"

section \<open>Records that draw\<close>

text \<open>
  A nested list is known by its address and by what is read of it; arrays are lists, so that a count is
  the length of its list. The cells of a lattice are there only with both colors and types.
\<close>

record dl_ref =
  dl_address :: sk_ref
  dl_op_count_nested :: nat
  dl_bytes_nested :: nat
  dl_can_apply_group_opacity :: bool

record lattice =
  fXDivs :: "int list"
  fYDivs :: "int list"
  fRectTypes :: "nat list option"
  fColors :: "DlColor list option"
  fBounds :: "(int \<times> int \<times> int \<times> int) option"

record atlas_args =
  atlas :: DlImage
  atlas_xform :: "(SkScalar \<times> SkScalar \<times> SkScalar \<times> SkScalar) list"
  atlas_tex :: "SkRect list"
  atlas_colors :: "DlColor list option"
  atlas_mode :: DlBlendMode
  atlas_sampling :: DlImageSampling

(* map: display_list/display_list_dispatcher.h 199 258 Dispatcher *)
datatype draw_call =
    drawColor DlColor DlBlendMode
  | drawPaint
  | drawLine SkPoint SkPoint
  | drawRect SkRect
  | drawOval SkRect
  | drawCircle SkPoint SkScalar
  | drawRRect SkRRect
  | drawDRRect SkRRect SkRRect
  | drawPath SkPath
  | drawArc SkRect SkScalar SkScalar bool
  | drawPoints PointMode "SkPoint list"
  | drawSkVertices sk_ref nat
  | drawVertices sk_ref DlBlendMode
  | drawImage DlImage SkPoint DlImageSampling bool
  | drawImageRect DlImage SkRect SkRect DlImageSampling bool nat
  | drawImageNine DlImage "int \<times> int \<times> int \<times> int" SkRect DlFilterMode bool
  | drawImageLattice DlImage lattice SkRect DlFilterMode bool
  | drawAtlas atlas_args "SkRect option" bool
  | drawPicture sk_ref "SkMatrix option" bool
  | drawDisplayList dl_ref
  | drawTextBlob sk_ref SkScalar SkScalar
  | drawShadow SkPath DlColor SkScalar bool SkScalar

(* map: display_list/display_list.h 126 159 DisplayListOpType *)
datatype draw_op =
    DrawPaintOp
  | DrawColorOp DlColor DlBlendMode
  | DrawLineOp SkPoint SkPoint
  | DrawRectOp SkRect
  | DrawOvalOp SkRect
  | DrawCircleOp SkPoint SkScalar
  | DrawRRectOp SkRRect
  | DrawDRRectOp SkRRect SkRRect
  | DrawArcOp SkRect SkScalar SkScalar bool
  | DrawPathOp SkPath
  | DrawPointsOp "SkPoint list"
  | DrawLinesOp "SkPoint list"
  | DrawPolygonOp "SkPoint list"
  | DrawVerticesOp sk_ref DlBlendMode
  | DrawSkVerticesOp sk_ref nat
  | DrawImageOp DlImage SkPoint DlImageSampling
  | DrawImageWithAttrOp DlImage SkPoint DlImageSampling
  | DrawImageRectOp DlImage SkRect SkRect DlImageSampling bool nat
  | DrawImageNineOp DlImage "int \<times> int \<times> int \<times> int" SkRect DlFilterMode
  | DrawImageNineWithAttrOp DlImage "int \<times> int \<times> int \<times> int" SkRect DlFilterMode
  | DrawImageLatticeOp DlImage "int list" "int list" "(DlColor list \<times> nat list) option"
      "int \<times> int \<times> int \<times> int" SkRect DlFilterMode bool
  | DrawAtlasOp atlas_args bool
  | DrawAtlasCulledOp atlas_args SkRect bool
  | DrawSkPictureOp sk_ref bool
  | DrawSkPictureMatrixOp sk_ref SkMatrix bool
  | DrawDisplayListOp dl_ref
  | DrawTextBlobOp sk_ref SkScalar SkScalar
  | DrawShadowOp SkPath DlColor SkScalar SkScalar
  | DrawShadowTransparentOccluderOp SkPath DlColor SkScalar SkScalar

(* map: display_list/display_list_ops.h 538 687 DLOp:dispatch *)
fun dispatch_draw :: "draw_op \<Rightarrow> draw_call" where
  "dispatch_draw DrawPaintOp = drawPaint"
| "dispatch_draw (DrawColorOp c m) = drawColor c m"
| "dispatch_draw (DrawLineOp p q) = drawLine p q"
| "dispatch_draw (DrawRectOp r) = drawRect r"
| "dispatch_draw (DrawOvalOp r) = drawOval r"
| "dispatch_draw (DrawCircleOp c r) = drawCircle c r"
| "dispatch_draw (DrawRRectOp r) = drawRRect r"
| "dispatch_draw (DrawDRRectOp p q) = drawDRRect p q"
| "dispatch_draw (DrawArcOp b s w c) = drawArc b s w c"
| "dispatch_draw (DrawPathOp p) = drawPath p"
| "dispatch_draw (DrawPointsOp ps) = drawPoints kPoints_PointMode ps"
| "dispatch_draw (DrawLinesOp ps) = drawPoints kLines_PointMode ps"
| "dispatch_draw (DrawPolygonOp ps) = drawPoints kPolygon_PointMode ps"
| "dispatch_draw (DrawVerticesOp v m) = drawVertices v m"
| "dispatch_draw (DrawSkVerticesOp v m) = drawSkVertices v m"
| "dispatch_draw (DrawImageOp i p s) = drawImage i p s False"
| "dispatch_draw (DrawImageWithAttrOp i p s) = drawImage i p s True"
| "dispatch_draw (DrawImageRectOp i s d m a c) = drawImageRect i s d m a c"
| "dispatch_draw (DrawImageNineOp i c d f) = drawImageNine i c d f False"
| "dispatch_draw (DrawImageNineWithAttrOp i c d f) = drawImageNine i c d f True"
| "dispatch_draw (DrawImageLatticeOp i xs ys cells s d f a) =
     drawImageLattice i \<lparr>fXDivs = xs, fYDivs = ys, fRectTypes = map_option snd cells, fColors = map_option fst cells,
       fBounds = Some s\<rparr> d f a"
| "dispatch_draw (DrawAtlasOp x a) = drawAtlas x None a"
| "dispatch_draw (DrawAtlasCulledOp x c a) = drawAtlas x (Some c) a"
| "dispatch_draw (DrawSkPictureOp p a) = drawPicture p None a"
| "dispatch_draw (DrawSkPictureMatrixOp p m a) = drawPicture p (Some m) a"
| "dispatch_draw (DrawDisplayListOp d) = drawDisplayList d"
| "dispatch_draw (DrawTextBlobOp b x y) = drawTextBlob b x y"
| "dispatch_draw (DrawShadowOp p c e d) = drawShadow p c e False d"
| "dispatch_draw (DrawShadowTransparentOccluderOp p c e d) = drawShadow p c e True d"

section \<open>The other records\<close>

(* map: display_list/display_list.h 169 213 SaveLayerOptions *)
record SaveLayerOptions =
  renders_with_attributes :: bool
  can_distribute_opacity :: bool

(* map: display_list/display_list.h 177 181 SaveLayerOptions::without_optimizations *)
definition without_optimizations :: "SaveLayerOptions \<Rightarrow> SaveLayerOptions" where
  "without_optimizations o1 = \<lparr>renders_with_attributes = renders_with_attributes o1, can_distribute_opacity = False\<rparr>"

(* map: display_list/display_list.h 191 195 SaveLayerOptions::with_can_distribute_opacity *)
definition with_can_distribute_opacity :: "SaveLayerOptions \<Rightarrow> SaveLayerOptions" where
  "with_can_distribute_opacity o1 = o1\<lparr>can_distribute_opacity := True\<rparr>"

(* map: display_list/display_list_dispatcher.h 63 84 Dispatcher *)
datatype dl_call =
    Attr attr_call
  | Save
  | SaveLayer "SkRect option" SaveLayerOptions "DlImageFilter option"
  | Restore
  | Translate SkScalar SkScalar
  | Scale SkScalar SkScalar
  | Rotate SkScalar
  | Skew SkScalar SkScalar
  | Transform2DAffine SkScalar SkScalar SkScalar SkScalar SkScalar SkScalar
  | TransformFullPerspective SkM44
  | TransformReset
  | ClipRect SkRect SkClipOp bool
  | ClipRRect SkRRect SkClipOp bool
  | ClipPath SkPath SkClipOp bool
  | Draw draw_call

(* map: display_list/display_list.h 104 124 DisplayListOpType *)
datatype dl_op =
    AttrOp attr_op
  | SaveOp
  | SaveLayerOp SaveLayerOptions
  | SaveLayerBoundsOp SkRect SaveLayerOptions
  | SaveLayerBackdropOp SaveLayerOptions DlImageFilter
  | SaveLayerBackdropBoundsOp SkRect SaveLayerOptions DlImageFilter
  | RestoreOp
  | TranslateOp SkScalar SkScalar
  | ScaleOp SkScalar SkScalar
  | RotateOp SkScalar
  | SkewOp SkScalar SkScalar
  | Transform2DAffineOp SkScalar SkScalar SkScalar SkScalar SkScalar SkScalar
  | TransformFullPerspectiveOp SkM44
  | TransformResetOp
  | ClipIntersectRectOp SkRect bool
  | ClipIntersectRRectOp SkRRect bool
  | ClipIntersectPathOp SkPath bool
  | ClipDifferenceRectOp SkRect bool
  | ClipDifferenceRRectOp SkRRect bool
  | ClipDifferencePathOp SkPath bool
  | DrawOp draw_op

(* map: display_list/display_list_ops.h 292 441 DLOp:dispatch *)
fun dispatch :: "dl_op \<Rightarrow> dl_call" where
  "dispatch (AttrOp a) = Attr (dispatch_attr a)"
| "dispatch SaveOp = Save"
| "dispatch (SaveLayerOp o1) = SaveLayer None o1 None"
| "dispatch (SaveLayerBoundsOp r o1) = SaveLayer (Some r) o1 None"
| "dispatch (SaveLayerBackdropOp o1 f) = SaveLayer None o1 (Some f)"
| "dispatch (SaveLayerBackdropBoundsOp r o1 f) = SaveLayer (Some r) o1 (Some f)"
| "dispatch RestoreOp = Restore"
| "dispatch (TranslateOp x y) = Translate x y"
| "dispatch (ScaleOp x y) = Scale x y"
| "dispatch (RotateOp d) = Rotate d"
| "dispatch (SkewOp x y) = Skew x y"
| "dispatch (Transform2DAffineOp a b c d e f) = Transform2DAffine a b c d e f"
| "dispatch (TransformFullPerspectiveOp m) = TransformFullPerspective m"
| "dispatch TransformResetOp = TransformReset"
| "dispatch (ClipIntersectRectOp r a) = ClipRect r kIntersectClip a"
| "dispatch (ClipIntersectRRectOp r a) = ClipRRect r kIntersectClip a"
| "dispatch (ClipIntersectPathOp p a) = ClipPath p kIntersectClip a"
| "dispatch (ClipDifferenceRectOp r a) = ClipRect r kDifferenceClip a"
| "dispatch (ClipDifferenceRRectOp r a) = ClipRRect r kDifferenceClip a"
| "dispatch (ClipDifferencePathOp p a) = ClipPath p kDifferenceClip a"
| "dispatch (DrawOp d) = Draw (dispatch_draw d)"

end
