(* ===== verification/Dl_Builder.thy ===== *)
theory Dl_Builder
  imports Dl_Ops
begin

text \<open>
  \<open>display_list/display_list_builder.h\<close> and \<open>.cc\<close>: the recorder of a display list. It remembers the attributes last
  recorded, so that only changes are recorded; it puts off the record of a \<open>save\<close> until a transform or a
  clip makes it necessary; and it finds out while recording which layers can hand an opacity down to what
  they hold, by setting an option in the record of the layer when the layer is restored.
\<close>

section \<open>What is used of Skia\<close>

record skia =
  SkScalarMod :: "SkScalar \<Rightarrow> SkScalar \<Rightarrow> SkScalar"
  preTranslate :: "SkScalar \<Rightarrow> SkScalar \<Rightarrow> SkM44 \<Rightarrow> SkM44"
  preScale :: "SkScalar \<Rightarrow> SkScalar \<Rightarrow> SkM44 \<Rightarrow> SkM44"
  preConcat :: "SkM44 \<Rightarrow> SkM44 \<Rightarrow> SkM44"
  RotateDeg :: "SkScalar \<Rightarrow> SkM44"
  SkewMatrix :: "SkScalar \<Rightarrow> SkScalar \<Rightarrow> SkM44"
  mapRect :: "SkM44 \<Rightarrow> SkRect \<Rightarrow> SkRect"
  invert :: "SkM44 \<Rightarrow> SkM44 option"
  rect_intersect :: "SkRect \<Rightarrow> SkRect \<Rightarrow> SkRect option"
  rect_isFinite :: "SkRect \<Rightarrow> bool"
  roundOut :: "SkRect \<Rightarrow> SkRect"
  rrect_isRect :: "SkRRect \<Rightarrow> bool"
  rrect_isOval :: "SkRRect \<Rightarrow> bool"
  rrect_rect :: "SkRRect \<Rightarrow> SkRect"
  rrect_getBounds :: "SkRRect \<Rightarrow> SkRect"
  rrect_setOval :: "SkRect \<Rightarrow> SkRRect"
  isInverseFillType :: "SkPath \<Rightarrow> bool"
  path_isRect :: "SkPath \<Rightarrow> SkRect option"
  path_isOval :: "SkPath \<Rightarrow> SkRect option"
  path_isRRect :: "SkPath \<Rightarrow> SkRRect option"
  path_getBounds :: "SkPath \<Rightarrow> SkRect"
  asBlendMode :: "sk_ref \<Rightarrow> DlBlendMode option"
  approximateOpCount :: "sk_ref \<Rightarrow> nat"
  approximateBytesUsed :: "sk_ref \<Rightarrow> nat"
  payload_bytes :: "dl_op \<Rightarrow> nat"

section \<open>The state\<close>

(* map: display_list/display_list_builder.h 384 421 DisplayListBuilder::LayerInfo *)
record layer =
  save_layer_offset :: nat
  has_deferred_save_op :: bool
  has_layer :: bool
  cannot_inherit_opacity :: bool
  has_compatible_op :: bool
  layer_matrix :: SkM44
  clip_bounds :: SkRect

(* map: display_list/display_list_builder.h 385 403 DisplayListBuilder::LayerInfo::LayerInfo *)
definition LayerInfo :: "SkM44 \<Rightarrow> SkRect \<Rightarrow> nat \<Rightarrow> bool \<Rightarrow> layer" where
  "LayerInfo m c offset hl =
     \<lparr>save_layer_offset = offset, has_deferred_save_op = False, has_layer = hl, cannot_inherit_opacity = False,
      has_compatible_op = False, layer_matrix = m, clip_bounds = c\<rparr>"

definition mark_incompatible :: "layer \<Rightarrow> layer" where
  "mark_incompatible l = l\<lparr>cannot_inherit_opacity := True\<rparr>"

(* map: display_list/display_list_builder.h 430 438 DisplayListBuilder::LayerInfo::add_compatible_op *)
definition add_compatible_op :: "layer \<Rightarrow> layer" where
  "add_compatible_op l =
     (if \<not> cannot_inherit_opacity l then
        (if has_compatible_op l then l\<lparr>cannot_inherit_opacity := True\<rparr> else l\<lparr>has_compatible_op := True\<rparr>)
      else l)"

text \<open>
  The storage is the list of records with their sizes in bytes; the layer on top of the stack is the
  first of \<open>layer_stack\<close>.
\<close>

record builder =
  storage :: "(dl_op \<times> nat) list"
  used :: nat
  allocated :: nat
  op_count :: nat
  nested_bytes :: nat
  nested_op_count :: int
  cull_rect :: SkRect
  layer_stack :: "layer list"
  current_opacity_compatibility :: bool
  current :: DlPaint
  current_blender :: "sk_ref option"

(* map: display_list/display_list_builder.cc fn DisplayListBuilder::DisplayListBuilder( *)
definition DisplayListBuilder :: "SkRect \<Rightarrow> builder" where
  "DisplayListBuilder r =
     \<lparr>storage = [], used = 0, allocated = 0, op_count = 0, nested_bytes = 0, nested_op_count = 0, cull_rect = r,
      layer_stack = [LayerInfo SkM44_identity r 0 False], current_opacity_compatibility = True,
      current = DlPaint_default, current_blender = None\<rparr>"

definition current_layer :: "builder \<Rightarrow> layer" where
  "current_layer b = hd (layer_stack b)"

definition on_layer :: "(layer \<Rightarrow> layer) \<Rightarrow> builder \<Rightarrow> builder" where
  "on_layer f b = b\<lparr>layer_stack := (case layer_stack b of [] \<Rightarrow> [] | l # ls \<Rightarrow> f l # ls)\<rparr>"

section \<open>Records in memory\<close>

definition SkAlignPtr :: "nat \<Rightarrow> nat" where
  "SkAlignPtr n = (n + 7) div 8 * 8"

definition DL_BUILDER_PAGE :: nat where
  "DL_BUILDER_PAGE = 4096"

text \<open>A record starts with its header of four bytes.\<close>

definition op_size :: "skia \<Rightarrow> dl_op \<Rightarrow> nat" where
  "op_size sk op1 = SkAlignPtr (4 + payload_bytes sk op1)"

(* map: display_list/display_list_builder.cc 28 50 DisplayListBuilder::Push *)
definition push :: "skia \<Rightarrow> dl_op \<Rightarrow> nat \<Rightarrow> builder \<Rightarrow> builder res" where
  "push sk op1 op_inc b =
     (let sz = op_size sk op1 in
      bindr (ensure DCheck_Failed (sz < 2 ^ 24)) (\<lambda>_.
      let need = used b + sz;
          alloc = (if need > allocated b then (need + DL_BUILDER_PAGE) div DL_BUILDER_PAGE * DL_BUILDER_PAGE
                   else allocated b) in
      bindr (ensure DCheck_Failed (need \<le> alloc)) (\<lambda>_.
      Inr (b\<lparr>storage := storage b @ [(op1, sz)], used := need, allocated := alloc,
             op_count := op_count b + op_inc\<rparr>))))"

text \<open>
  The option is set in the record at an offset in the storage; anything but the start of the record of
  a layer there would be memory written by mistake.
\<close>

fun set_distribute :: "dl_op \<Rightarrow> dl_op option" where
  "set_distribute (SaveLayerOp o1) = Some (SaveLayerOp (with_can_distribute_opacity o1))"
| "set_distribute (SaveLayerBoundsOp r o1) = Some (SaveLayerBoundsOp r (with_can_distribute_opacity o1))"
| "set_distribute (SaveLayerBackdropOp o1 f) = Some (SaveLayerBackdropOp (with_can_distribute_opacity o1) f)"
| "set_distribute (SaveLayerBackdropBoundsOp r o1 f) =
     Some (SaveLayerBackdropBoundsOp r (with_can_distribute_opacity o1) f)"
| "set_distribute _ = None"

fun patch_at :: "nat \<Rightarrow> (dl_op \<times> nat) list \<Rightarrow> (dl_op \<times> nat) list res" where
  "patch_at offset [] = Inl Undefined"
| "patch_at offset ((op1, n) # rest) =
     (if offset = 0 then (case set_distribute op1 of None \<Rightarrow> Inl Undefined | Some op2 \<Rightarrow> Inr ((op2, n) # rest))
      else if offset < n then Inl Undefined
      else bindr (patch_at (offset - n) rest) (\<lambda>r. Inr ((op1, n) # r)))"

section \<open>Opacity\<close>

(* map: display_list/display_list_builder.h 454 456 DisplayListBuilder::IsOpacityCompatible *)
definition IsOpacityCompatible :: "DlBlendMode \<Rightarrow> bool" where
  "IsOpacityCompatible m \<longleftrightarrow> m = kSrcOver"

(* map: display_list/display_list_builder.h 458 464 DisplayListBuilder::UpdateCurrentOpacityCompatibility *)
definition UpdateCurrentOpacityCompatibility :: "builder \<Rightarrow> builder" where
  "UpdateCurrentOpacityCompatibility b =
     b\<lparr>current_opacity_compatibility :=
         colorFilter (current b) = None \<and> \<not> isInvertColors (current b) \<and> current_blender b = None \<and>
         IsOpacityCompatible (blendMode (current b))\<rparr>"

(* map: display_list/display_list_builder.h 468 474 DisplayListBuilder::UpdateLayerOpacityCompatibility *)
definition UpdateLayerOpacityCompatibility :: "bool \<Rightarrow> builder \<Rightarrow> builder" where
  "UpdateLayerOpacityCompatibility compatible b =
     (if compatible then on_layer add_compatible_op b else on_layer mark_incompatible b)"

(* map: display_list/display_list_builder.h 481 484 DisplayListBuilder::CheckLayerOpacityCompatibility *)
definition CheckLayerOpacityCompatibility :: "bool \<Rightarrow> builder \<Rightarrow> builder" where
  "CheckLayerOpacityCompatibility uses_blend_attribute b =
     UpdateLayerOpacityCompatibility (\<not> uses_blend_attribute \<or> current_opacity_compatibility b) b"

text \<open>The stroke width is compared with the integer zero.\<close>

(* map: display_list/display_list_builder.h 486 491 DisplayListBuilder::CheckLayerOpacityHairlineCompatibility *)
definition CheckLayerOpacityHairlineCompatibility :: "builder \<Rightarrow> builder" where
  "CheckLayerOpacityHairlineCompatibility b =
     UpdateLayerOpacityCompatibility
       (current_opacity_compatibility b \<and> (drawStyle (current b) = kFill \<or> float_less 0 (strokeWidth (current b)))) b"

(* map: display_list/display_list_builder.h 496 498 DisplayListBuilder::CheckLayerOpacityCompatibility:mode *)
definition CheckLayerOpacityCompatibility_mode :: "DlBlendMode \<Rightarrow> builder \<Rightarrow> builder" where
  "CheckLayerOpacityCompatibility_mode m b = UpdateLayerOpacityCompatibility (IsOpacityCompatible m) b"

section \<open>Attributes\<close>

text \<open>The setters of the header call \<open>onSet...\<close> only for a change.\<close>

definition on_paint :: "(DlPaint \<Rightarrow> DlPaint) \<Rightarrow> builder \<Rightarrow> builder" where
  "on_paint f b = b\<lparr>current := f (current b)\<rparr>"

definition push_attr :: "skia \<Rightarrow> attr_op \<Rightarrow> builder \<Rightarrow> builder res" where
  "push_attr sk a b = push sk (AttrOp a) 0 b"

definition updating_compatibility :: "builder res \<Rightarrow> builder res" where
  "updating_compatibility r = bindr r (\<lambda>b. Inr (UpdateCurrentOpacityCompatibility b))"

(* map: display_list/display_list_comparable.h 66 69 NotEquals *)
definition NotEquals :: "('a \<Rightarrow> 'a \<Rightarrow> bool res) \<Rightarrow> 'a option \<Rightarrow> 'a option \<Rightarrow> bool res" where
  "NotEquals eq a b = bindr (Equals_copy eq a b) (\<lambda>e. Inr (\<not> e))"

definition if_different :: "bool res \<Rightarrow> (builder \<Rightarrow> builder res) \<Rightarrow> builder \<Rightarrow> builder res" where
  "if_different d f b = bindr d (\<lambda>c. if c then f b else Inr b)"

(* map: display_list/display_list_builder.cc fn DisplayListBuilder::onSetAntiAlias( *)
definition onSetAntiAlias :: "skia \<Rightarrow> bool \<Rightarrow> builder \<Rightarrow> builder res" where
  "onSetAntiAlias sk aa b = push_attr sk (SetAntiAliasOp aa) (on_paint (\<lambda>p. p\<lparr>isAntiAlias := aa\<rparr>) b)"

(* map: display_list/display_list_builder.h 38 42 DisplayListBuilder::setAntiAlias *)
definition do_setAntiAlias :: "skia \<Rightarrow> bool \<Rightarrow> builder \<Rightarrow> builder res" where
  "do_setAntiAlias sk aa b = (if isAntiAlias (current b) \<noteq> aa then onSetAntiAlias sk aa b else Inr b)"

(* map: display_list/display_list_builder.cc fn DisplayListBuilder::onSetDither( *)
definition onSetDither :: "skia \<Rightarrow> bool \<Rightarrow> builder \<Rightarrow> builder res" where
  "onSetDither sk d b = push_attr sk (SetDitherOp d) (on_paint (\<lambda>p. p\<lparr>isDither := d\<rparr>) b)"

(* map: display_list/display_list_builder.h 43 47 DisplayListBuilder::setDither *)
definition do_setDither :: "skia \<Rightarrow> bool \<Rightarrow> builder \<Rightarrow> builder res" where
  "do_setDither sk d b = (if isDither (current b) \<noteq> d then onSetDither sk d b else Inr b)"

(* map: display_list/display_list_builder.cc fn DisplayListBuilder::onSetInvertColors( *)
definition onSetInvertColors :: "skia \<Rightarrow> bool \<Rightarrow> builder \<Rightarrow> builder res" where
  "onSetInvertColors sk i b = updating_compatibility (push_attr sk (SetInvertColorsOp i) (on_paint (\<lambda>p. p\<lparr>isInvertColors := i\<rparr>) b))"

(* map: display_list/display_list_builder.h 48 52 DisplayListBuilder::setInvertColors *)
definition do_setInvertColors :: "skia \<Rightarrow> bool \<Rightarrow> builder \<Rightarrow> builder res" where
  "do_setInvertColors sk i b = (if isInvertColors (current b) \<noteq> i then onSetInvertColors sk i b else Inr b)"

(* map: display_list/display_list_builder.cc fn DisplayListBuilder::onSetStrokeCap( *)
definition onSetStrokeCap :: "skia \<Rightarrow> DlStrokeCap \<Rightarrow> builder \<Rightarrow> builder res" where
  "onSetStrokeCap sk c b = push_attr sk (SetStrokeCapOp c) (on_paint (\<lambda>p. p\<lparr>strokeCap := c\<rparr>) b)"

(* map: display_list/display_list_builder.h 53 57 DisplayListBuilder::setStrokeCap *)
definition do_setStrokeCap :: "skia \<Rightarrow> DlStrokeCap \<Rightarrow> builder \<Rightarrow> builder res" where
  "do_setStrokeCap sk c b = (if strokeCap (current b) \<noteq> c then onSetStrokeCap sk c b else Inr b)"

(* map: display_list/display_list_builder.cc fn DisplayListBuilder::onSetStrokeJoin( *)
definition onSetStrokeJoin :: "skia \<Rightarrow> DlStrokeJoin \<Rightarrow> builder \<Rightarrow> builder res" where
  "onSetStrokeJoin sk j b = push_attr sk (SetStrokeJoinOp j) (on_paint (\<lambda>p. p\<lparr>strokeJoin := j\<rparr>) b)"

(* map: display_list/display_list_builder.h 58 62 DisplayListBuilder::setStrokeJoin *)
definition do_setStrokeJoin :: "skia \<Rightarrow> DlStrokeJoin \<Rightarrow> builder \<Rightarrow> builder res" where
  "do_setStrokeJoin sk j b = (if strokeJoin (current b) \<noteq> j then onSetStrokeJoin sk j b else Inr b)"

(* map: display_list/display_list_builder.cc fn DisplayListBuilder::onSetStyle( *)
definition onSetStyle :: "skia \<Rightarrow> DlDrawStyle \<Rightarrow> builder \<Rightarrow> builder res" where
  "onSetStyle sk s b = push_attr sk (SetStyleOp s) (on_paint (\<lambda>p. p\<lparr>drawStyle := s\<rparr>) b)"

(* map: display_list/display_list_builder.h 63 67 DisplayListBuilder::setStyle *)
definition do_setStyle :: "skia \<Rightarrow> DlDrawStyle \<Rightarrow> builder \<Rightarrow> builder res" where
  "do_setStyle sk s b = (if drawStyle (current b) \<noteq> s then onSetStyle sk s b else Inr b)"

(* map: display_list/display_list_builder.cc fn DisplayListBuilder::onSetStrokeWidth( *)
definition onSetStrokeWidth :: "skia \<Rightarrow> SkScalar \<Rightarrow> builder \<Rightarrow> builder res" where
  "onSetStrokeWidth sk w b = push_attr sk (SetStrokeWidthOp w) (on_paint (\<lambda>p. p\<lparr>strokeWidth := w\<rparr>) b)"

(* map: display_list/display_list_builder.h 68 72 DisplayListBuilder::setStrokeWidth *)
definition do_setStrokeWidth :: "skia \<Rightarrow> SkScalar \<Rightarrow> builder \<Rightarrow> builder res" where
  "do_setStrokeWidth sk w b = (if \<not> float_eq (strokeWidth (current b)) w then onSetStrokeWidth sk w b else Inr b)"

(* map: display_list/display_list_builder.cc fn DisplayListBuilder::onSetStrokeMiter( *)
definition onSetStrokeMiter :: "skia \<Rightarrow> SkScalar \<Rightarrow> builder \<Rightarrow> builder res" where
  "onSetStrokeMiter sk l b = push_attr sk (SetStrokeMiterOp l) (on_paint (\<lambda>p. p\<lparr>strokeMiter := l\<rparr>) b)"

(* map: display_list/display_list_builder.h 73 77 DisplayListBuilder::setStrokeMiter *)
definition do_setStrokeMiter :: "skia \<Rightarrow> SkScalar \<Rightarrow> builder \<Rightarrow> builder res" where
  "do_setStrokeMiter sk l b = (if \<not> float_eq (strokeMiter (current b)) l then onSetStrokeMiter sk l b else Inr b)"

(* map: display_list/display_list_builder.cc fn DisplayListBuilder::onSetColor( *)
definition onSetColor :: "skia \<Rightarrow> DlColor \<Rightarrow> builder \<Rightarrow> builder res" where
  "onSetColor sk c b = push_attr sk (SetColorOp c) (on_paint (\<lambda>p. p\<lparr>paint_color := c\<rparr>) b)"

(* map: display_list/display_list_builder.h 78 82 DisplayListBuilder::setColor *)
definition do_setColor :: "skia \<Rightarrow> DlColor \<Rightarrow> builder \<Rightarrow> builder res" where
  "do_setColor sk c b = (if paint_color (current b) \<noteq> c then onSetColor sk c b else Inr b)"

(* map: display_list/display_list_builder.cc fn DisplayListBuilder::onSetBlendMode( *)
definition onSetBlendMode :: "skia \<Rightarrow> DlBlendMode \<Rightarrow> builder \<Rightarrow> builder res" where
  "onSetBlendMode sk m b = updating_compatibility
     (push_attr sk (SetBlendModeOp m) (on_paint (\<lambda>p. p\<lparr>blendMode := m\<rparr>) (b\<lparr>current_blender := None\<rparr>)))"

(* map: display_list/display_list_builder.h 83 87 DisplayListBuilder::setBlendMode *)
definition do_setBlendMode :: "skia \<Rightarrow> DlBlendMode \<Rightarrow> builder \<Rightarrow> builder res" where
  "do_setBlendMode sk m b =
     (if current_blender b \<noteq> None \<or> blendMode (current b) \<noteq> m then onSetBlendMode sk m b else Inr b)"

text \<open>A blender that Skia knows as one of the modes is set as that mode.\<close>

(* map: display_list/display_list_builder.cc fn DisplayListBuilder::onSetBlender( *)
definition onSetBlender :: "skia \<Rightarrow> sk_ref option \<Rightarrow> builder \<Rightarrow> builder res" where
  "onSetBlender sk blender b = (case blender of
     None \<Rightarrow> Inl DCheck_Failed
   | Some k \<Rightarrow>
       (case asBlendMode sk k of
          Some m \<Rightarrow> do_setBlendMode sk m b
        | None \<Rightarrow> updating_compatibility (push_attr sk (SetBlenderOp k) (b\<lparr>current_blender := Some k\<rparr>))))"

(* map: display_list/display_list_builder.h 88 94 DisplayListBuilder::setBlender *)
definition do_setBlender :: "skia \<Rightarrow> sk_ref option \<Rightarrow> builder \<Rightarrow> builder res" where
  "do_setBlender sk blender b = (case blender of
     None \<Rightarrow> do_setBlendMode sk kSrcOver b
   | Some k \<Rightarrow> if current_blender b \<noteq> Some k then onSetBlender sk (Some k) b else Inr b)"

(* map: display_list/display_list_builder.cc fn DisplayListBuilder::onSetColorSource( *)
definition onSetColorSource :: "skia \<Rightarrow> DlColorSource option \<Rightarrow> builder \<Rightarrow> builder res" where
  "onSetColorSource sk source b = (case source of
     None \<Rightarrow> push_attr sk ClearColorSourceOp (on_paint (\<lambda>p. p\<lparr>colorSource := None\<rparr>) b)
   | Some s \<Rightarrow>
       let b = on_paint (\<lambda>p. p\<lparr>colorSource := Some s\<rparr>) b in
       (case s of
          ColorColorSource c \<Rightarrow> do_setColor sk c (on_paint (\<lambda>p. p\<lparr>colorSource := None\<rparr>) b)
        | ImageColorSource _ _ _ _ _ \<Rightarrow> push_attr sk (SetImageColorSourceOp s) b
        | LinearGradientColorSource _ _ _ \<Rightarrow> push_attr sk (SetPodColorSourceOp s) b
        | RadialGradientColorSource _ _ _ \<Rightarrow> push_attr sk (SetPodColorSourceOp s) b
        | ConicalGradientColorSource _ _ _ _ _ \<Rightarrow> push_attr sk (SetPodColorSourceOp s) b
        | SweepGradientColorSource _ _ _ _ \<Rightarrow> push_attr sk (SetPodColorSourceOp s) b
        | RuntimeEffectColorSource _ _ _ \<Rightarrow> push_attr sk (SetRuntimeEffectColorSourceOp s) b
        | UnknownColorSource k \<Rightarrow> push_attr sk (SetSkColorSourceOp k) b))"

(* map: display_list/display_list_builder.cc fn DisplayListBuilder::onSetImageFilter( *)
definition onSetImageFilter :: "skia \<Rightarrow> DlImageFilter option \<Rightarrow> builder \<Rightarrow> builder res" where
  "onSetImageFilter sk flt b = (case flt of
     None \<Rightarrow> push_attr sk ClearImageFilterOp (on_paint (\<lambda>p. p\<lparr>imageFilter := None\<rparr>) b)
   | Some f \<Rightarrow>
       let b = on_paint (\<lambda>p. p\<lparr>imageFilter := Some f\<rparr>) b in
       (case f of
          BlurImageFilter _ _ _ \<Rightarrow> push_attr sk (SetPodImageFilterOp f) b
        | DilateImageFilter _ _ \<Rightarrow> push_attr sk (SetPodImageFilterOp f) b
        | ErodeImageFilter _ _ \<Rightarrow> push_attr sk (SetPodImageFilterOp f) b
        | MatrixImageFilter _ _ \<Rightarrow> push_attr sk (SetPodImageFilterOp f) b
        | ComposeImageFilter _ _ \<Rightarrow> push_attr sk (SetSharedImageFilterOp f) b
        | LocalMatrixImageFilter _ _ \<Rightarrow> push_attr sk (SetSharedImageFilterOp f) b
        | ColorFilterImageFilter _ \<Rightarrow> push_attr sk (SetSharedImageFilterOp f) b
        | UnknownImageFilter k \<Rightarrow> push_attr sk (SetSkImageFilterOp k) b))"

(* map: display_list/display_list_builder.cc fn DisplayListBuilder::onSetColorFilter( *)
definition onSetColorFilter :: "skia \<Rightarrow> DlColorFilter option \<Rightarrow> builder \<Rightarrow> builder res" where
  "onSetColorFilter sk flt b = updating_compatibility (case flt of
     None \<Rightarrow> push_attr sk ClearColorFilterOp (on_paint (\<lambda>p. p\<lparr>colorFilter := None\<rparr>) b)
   | Some f \<Rightarrow>
       let b = on_paint (\<lambda>p. p\<lparr>colorFilter := Some f\<rparr>) b in
       (case f of
          BlendColorFilter _ _ \<Rightarrow> push_attr sk (SetPodColorFilterOp f) b
        | MatrixColorFilter _ \<Rightarrow> push_attr sk (SetPodColorFilterOp f) b
        | SrgbToLinearGammaColorFilter \<Rightarrow> push_attr sk (SetPodColorFilterOp SrgbToLinearGammaColorFilter) b
        | LinearToSrgbGammaColorFilter \<Rightarrow> push_attr sk (SetPodColorFilterOp LinearToSrgbGammaColorFilter) b
        | UnknownColorFilter k \<Rightarrow> push_attr sk (SetSkColorFilterOp k) b))"

(* map: display_list/display_list_builder.cc fn DisplayListBuilder::onSetPathEffect( *)
definition onSetPathEffect :: "skia \<Rightarrow> DlPathEffect option \<Rightarrow> builder \<Rightarrow> builder res" where
  "onSetPathEffect sk effect b = (case effect of
     None \<Rightarrow> push_attr sk ClearPathEffectOp (on_paint (\<lambda>p. p\<lparr>pathEffect := None\<rparr>) b)
   | Some e \<Rightarrow>
       let b = on_paint (\<lambda>p. p\<lparr>pathEffect := Some e\<rparr>) b in
       (case e of
          DashPathEffect _ _ \<Rightarrow> push_attr sk (SetPodPathEffectOp e) b
        | UnknownPathEffect k \<Rightarrow> push_attr sk (SetSkPathEffectOp k) b))"

(* map: display_list/display_list_builder.cc fn DisplayListBuilder::onSetMaskFilter( *)
definition onSetMaskFilter :: "skia \<Rightarrow> DlMaskFilter option \<Rightarrow> builder \<Rightarrow> builder res" where
  "onSetMaskFilter sk flt b = (case flt of
     None \<Rightarrow> push_attr sk ClearMaskFilterOp (on_paint (\<lambda>p. p\<lparr>maskFilter := None\<rparr>) b)
   | Some f \<Rightarrow>
       let b = on_paint (\<lambda>p. p\<lparr>maskFilter := Some f\<rparr>) b in
       (case f of
          BlurMaskFilter _ _ _ \<Rightarrow> push_attr sk (SetPodMaskFilterOp f) b
        | UnknownMaskFilter k \<Rightarrow> push_attr sk (SetSkMaskFilterOp k) b))"

(* map: display_list/display_list_builder.h 95 99 DisplayListBuilder::setColorSource *)
definition do_setColorSource :: "skia \<Rightarrow> DlColorSource option \<Rightarrow> builder \<Rightarrow> builder res" where
  "do_setColorSource sk x b = if_different (NotEquals color_source_eq (colorSource (current b)) x) (onSetColorSource sk x) b"

(* map: display_list/display_list_builder.h 100 104 DisplayListBuilder::setImageFilter *)
definition do_setImageFilter :: "skia \<Rightarrow> DlImageFilter option \<Rightarrow> builder \<Rightarrow> builder res" where
  "do_setImageFilter sk x b = if_different (NotEquals image_filter_eq (imageFilter (current b)) x) (onSetImageFilter sk x) b"

(* map: display_list/display_list_builder.h 105 109 DisplayListBuilder::setColorFilter *)
definition do_setColorFilter :: "skia \<Rightarrow> DlColorFilter option \<Rightarrow> builder \<Rightarrow> builder res" where
  "do_setColorFilter sk x b = if_different (NotEquals color_filter_eq (colorFilter (current b)) x) (onSetColorFilter sk x) b"

(* map: display_list/display_list_builder.h 110 114 DisplayListBuilder::setPathEffect *)
definition do_setPathEffect :: "skia \<Rightarrow> DlPathEffect option \<Rightarrow> builder \<Rightarrow> builder res" where
  "do_setPathEffect sk x b = if_different (NotEquals path_effect_eq (pathEffect (current b)) x) (onSetPathEffect sk x) b"

(* map: display_list/display_list_builder.h 115 119 DisplayListBuilder::setMaskFilter *)
definition do_setMaskFilter :: "skia \<Rightarrow> DlMaskFilter option \<Rightarrow> builder \<Rightarrow> builder res" where
  "do_setMaskFilter sk x b = if_different (NotEquals mask_filter_eq (maskFilter (current b)) x) (onSetMaskFilter sk x) b"

fun attr_step :: "skia \<Rightarrow> attr_call \<Rightarrow> builder \<Rightarrow> builder res" where
  "attr_step sk (setAntiAlias x) b = do_setAntiAlias sk x b"
| "attr_step sk (setDither x) b = do_setDither sk x b"
| "attr_step sk (setStyle x) b = do_setStyle sk x b"
| "attr_step sk (setColor x) b = do_setColor sk x b"
| "attr_step sk (setStrokeWidth x) b = do_setStrokeWidth sk x b"
| "attr_step sk (setStrokeMiter x) b = do_setStrokeMiter sk x b"
| "attr_step sk (setStrokeCap x) b = do_setStrokeCap sk x b"
| "attr_step sk (setStrokeJoin x) b = do_setStrokeJoin sk x b"
| "attr_step sk (setColorSource x) b = do_setColorSource sk x b"
| "attr_step sk (setColorFilter x) b = do_setColorFilter sk x b"
| "attr_step sk (setInvertColors x) b = do_setInvertColors sk x b"
| "attr_step sk (setBlendMode x) b = do_setBlendMode sk x b"
| "attr_step sk (setBlender x) b = do_setBlender sk x b"
| "attr_step sk (setPathEffect x) b = do_setPathEffect sk x b"
| "attr_step sk (setMaskFilter x) b = do_setMaskFilter sk x b"
| "attr_step sk (setImageFilter x) b = do_setImageFilter sk x b"

text \<open>The attributes of a paint that an operation with the given flags uses.\<close>

fun seq_ops :: "(builder \<Rightarrow> builder res) list \<Rightarrow> builder \<Rightarrow> builder res" where
  "seq_ops [] b = Inr b"
| "seq_ops (f # fs) b = bindr (f b) (seq_ops fs)"

definition only_if :: "bool \<Rightarrow> (builder \<Rightarrow> builder res) \<Rightarrow> builder \<Rightarrow> builder res" where
  "only_if c f b = (if c then f b else Inr b)"

(* map: display_list/display_list_builder.cc fn DisplayListBuilder::setAttributesFromDlPaint( *)
definition setAttributesFromDlPaint :: "skia \<Rightarrow> DlPaint \<Rightarrow> flags \<Rightarrow> builder \<Rightarrow> builder res" where
  "setAttributesFromDlPaint sk paint f = seq_ops
     [only_if (applies_anti_alias f) (do_setAntiAlias sk (isAntiAlias paint)),
      only_if (applies_dither f) (do_setDither sk (isDither paint)),
      only_if (applies_alpha_or_color f) (do_setColor sk (paint_color paint)),
      only_if (applies_blend f) (do_setBlendMode sk (blendMode paint)),
      only_if (applies_style f) (do_setStyle sk (drawStyle paint)),
      only_if (is_stroked f (drawStyle paint)) (seq_ops
        [do_setStrokeWidth sk (strokeWidth paint), do_setStrokeMiter sk (strokeMiter paint),
         do_setStrokeCap sk (strokeCap paint), do_setStrokeJoin sk (strokeJoin paint)]),
      only_if (applies_shader f) (do_setColorSource sk (colorSource paint)),
      only_if (applies_color_filter f) (seq_ops
        [do_setInvertColors sk (isInvertColors paint), do_setColorFilter sk (colorFilter paint)]),
      only_if (applies_image_filter f) (do_setImageFilter sk (imageFilter paint)),
      only_if (applies_path_effect f) (do_setPathEffect sk (pathEffect paint)),
      only_if (applies_mask_filter f) (do_setMaskFilter sk (maskFilter paint))]"

end
