(* ===== verification/Dl_Recording.thy ===== *)
theory Dl_Recording
  imports Dl_Builder
begin

text \<open>
  The rest of \<open>display_list/display_list_builder.cc\<close>: layers, transforms, clips, drawing, and the finished list
  with \<open>DisplayList::Dispatch\<close> of \<open>display_list.cc\<close>, which makes the recorded calls again.
\<close>

section \<open>Layers\<close>

(* map: display_list/display_list_builder.cc 424 429 DisplayListBuilder::checkForDeferredSave *)
definition checkForDeferredSave :: "skia \<Rightarrow> builder \<Rightarrow> builder res" where
  "checkForDeferredSave sk b =
     (if has_deferred_save_op (current_layer b) then
        bindr (push sk SaveOp 1 b) (\<lambda>b. Inr (on_layer (\<lambda>l. l\<lparr>has_deferred_save_op := False\<rparr>) b))
      else Inr b)"

definition push_layer :: "nat \<Rightarrow> bool \<Rightarrow> builder \<Rightarrow> builder" where
  "push_layer offset hl b =
     b\<lparr>layer_stack := LayerInfo (layer_matrix (current_layer b)) (clip_bounds (current_layer b)) offset hl # layer_stack b\<rparr>"

(* map: display_list/display_list_builder.cc 431 435 DisplayListBuilder::save *)
definition save :: "builder \<Rightarrow> builder" where
  "save b = on_layer (\<lambda>l. l\<lparr>has_deferred_save_op := True\<rparr>) (push_layer 0 False b)"

text \<open>What a layer tells the one below it when it is restored.\<close>

definition leave_layer :: "layer \<Rightarrow> builder \<Rightarrow> builder res" where
  "leave_layer info b =
     (if has_layer info then
        (if \<not> cannot_inherit_opacity info then
           bindr (patch_at (save_layer_offset info) (storage b)) (\<lambda>st. Inr (b\<lparr>storage := st\<rparr>))
         else Inr b)
      else if cannot_inherit_opacity info then Inr (on_layer mark_incompatible b)
      else if has_compatible_op info then Inr (on_layer add_compatible_op b)
      else Inr b)"

(* map: display_list/display_list_builder.cc 437 475 DisplayListBuilder::restore *)
definition restore :: "skia \<Rightarrow> builder \<Rightarrow> builder res" where
  "restore sk b =
     (if length (layer_stack b) > 1 then
        bindr (if \<not> has_deferred_save_op (current_layer b) then push sk RestoreOp 1 b else Inr b) (\<lambda>b.
        leave_layer (hd (layer_stack b)) (b\<lparr>layer_stack := tl (layer_stack b)\<rparr>))
      else Inr b)"

text \<open>The loop takes a layer off the stack each time, so that the height of the stack bounds it.\<close>

fun restore_loop :: "skia \<Rightarrow> nat \<Rightarrow> int \<Rightarrow> builder \<Rightarrow> builder res" where
  "restore_loop sk 0 n b = Inr b"
| "restore_loop sk (Suc fuel) n b =
     (if n < int (length (layer_stack b)) \<and> length (layer_stack b) > 1 then
        bindr (restore sk b) (restore_loop sk fuel n)
      else Inr b)"

(* map: display_list/display_list_builder.cc 476 481 DisplayListBuilder::restoreToCount *)
definition restoreToCount :: "skia \<Rightarrow> int \<Rightarrow> builder \<Rightarrow> builder res" where
  "restoreToCount sk restore_count b =
     bindr (ensure DCheck_Failed (restore_count \<le> int (length (layer_stack b)))) (\<lambda>_.
     restore_loop sk (length (layer_stack b)) restore_count b)"

definition layer_record :: "SkRect option \<Rightarrow> SaveLayerOptions \<Rightarrow> DlImageFilter option \<Rightarrow> dl_op" where
  "layer_record bounds options backdrop = (case backdrop of
     Some f \<Rightarrow> (case bounds of Some r \<Rightarrow> SaveLayerBackdropBoundsOp r options f | None \<Rightarrow> SaveLayerBackdropOp options f)
   | None \<Rightarrow> (case bounds of Some r \<Rightarrow> SaveLayerBoundsOp r options | None \<Rightarrow> SaveLayerOp options))"

(* map: display_list/display_list_builder.cc 482 509 DisplayListBuilder::saveLayer *)
definition saveLayer ::
  "skia \<Rightarrow> SkRect option \<Rightarrow> SaveLayerOptions \<Rightarrow> DlImageFilter option \<Rightarrow> builder \<Rightarrow> builder res" where
  "saveLayer sk bounds in_options backdrop b =
     (let options = without_optimizations in_options; offset = used b in
      bindr (push sk (layer_record bounds options backdrop) 1 b) (\<lambda>b.
      let b = push_layer offset True (CheckLayerOpacityCompatibility (renders_with_attributes options) b) in
      Inr (if renders_with_attributes options \<and>
              (\<not> current_opacity_compatibility b \<or> imageFilter (current b) \<noteq> None)
           then UpdateLayerOpacityCompatibility False b else b)))"

(* map: display_list/display_list_builder.cc 510 520 DisplayListBuilder::saveLayer *)
definition saveLayer_paint ::
  "skia \<Rightarrow> SkRect option \<Rightarrow> DlPaint option \<Rightarrow> DlImageFilter option \<Rightarrow> builder \<Rightarrow> builder res" where
  "saveLayer_paint sk bounds paint backdrop b = (case paint of
     Some p \<Rightarrow>
       bindr kSaveLayerWithPaintFlags (\<lambda>f.
       bindr (setAttributesFromDlPaint sk p f b) (\<lambda>b.
       saveLayer sk bounds \<lparr>renders_with_attributes = True, can_distribute_opacity = False\<rparr> backdrop b))
   | None \<Rightarrow>
       saveLayer sk bounds \<lparr>renders_with_attributes = False, can_distribute_opacity = False\<rparr> backdrop b)"

section \<open>Transforms and clips\<close>

definition on_matrix :: "(SkM44 \<Rightarrow> SkM44) \<Rightarrow> builder \<Rightarrow> builder" where
  "on_matrix f = on_layer (\<lambda>l. l\<lparr>layer_matrix := f (layer_matrix l)\<rparr>)"

definition push_transform :: "skia \<Rightarrow> dl_op \<Rightarrow> nat \<Rightarrow> (SkM44 \<Rightarrow> SkM44) \<Rightarrow> builder \<Rightarrow> builder res" where
  "push_transform sk op1 inc f b =
     bindr (checkForDeferredSave sk b) (\<lambda>b. bindr (push sk op1 inc b) (\<lambda>b. Inr (on_matrix f b)))"

(* map: display_list/display_list_builder.cc 522 529 DisplayListBuilder::translate *)
definition translate :: "skia \<Rightarrow> SkScalar \<Rightarrow> SkScalar \<Rightarrow> builder \<Rightarrow> builder res" where
  "translate sk tx ty b =
     (if SkScalarIsFinite tx \<and> SkScalarIsFinite ty \<and> (\<not> float_eq tx 0 \<or> \<not> float_eq ty 0)
      then push_transform sk (TranslateOp tx ty) 1 (preTranslate sk tx ty) b else Inr b)"

(* map: display_list/display_list_builder.cc 530 537 DisplayListBuilder::scale *)
definition scale :: "skia \<Rightarrow> SkScalar \<Rightarrow> SkScalar \<Rightarrow> builder \<Rightarrow> builder res" where
  "scale sk sx sy b =
     (if SkScalarIsFinite sx \<and> SkScalarIsFinite sy \<and> (\<not> float_eq sx float_one \<or> \<not> float_eq sy float_one)
      then push_transform sk (ScaleOp sx sy) 1 (preScale sk sx sy) b else Inr b)"

text \<open>The angle of 360 degrees as a \<open>float\<close>.\<close>

definition float_360 :: SkScalar where
  "float_360 = 0x43B40000"

(* map: display_list/display_list_builder.cc 538 544 DisplayListBuilder::rotate *)
definition rotate_deg :: "skia \<Rightarrow> SkScalar \<Rightarrow> builder \<Rightarrow> builder res" where
  "rotate_deg sk degrees b =
     (if \<not> float_eq (SkScalarMod sk degrees float_360) 0
      then push_transform sk (RotateOp degrees) 1 (\<lambda>m. preConcat sk m (RotateDeg sk degrees)) b else Inr b)"

(* map: display_list/display_list_builder.cc 545 552 DisplayListBuilder::skew *)
definition skew :: "skia \<Rightarrow> SkScalar \<Rightarrow> SkScalar \<Rightarrow> builder \<Rightarrow> builder res" where
  "skew sk sx sy b =
     (if SkScalarIsFinite sx \<and> SkScalarIsFinite sy \<and> (\<not> float_eq sx 0 \<or> \<not> float_eq sy 0)
      then push_transform sk (SkewOp sx sy) 1 (\<lambda>m. preConcat sk m (SkewMatrix sk sx sy)) b else Inr b)"

text \<open>\<open>SkScalarsAreFinite\<close> is false exactly when one of the two is an infinity or a NaN.\<close>

definition affine :: "SkScalar \<Rightarrow> SkScalar \<Rightarrow> SkScalar \<Rightarrow> SkScalar \<Rightarrow> SkScalar \<Rightarrow> SkScalar \<Rightarrow> SkM44" where
  "affine mxx mxy mxt myx myy myt =
     [mxx, mxy, 0, mxt,  myx, myy, 0, myt,  0, 0, float_one, 0,  0, 0, 0, float_one]"

(* map: display_list/display_list_builder.cc 557 574 DisplayListBuilder::transform2DAffine *)
definition transform2DAffine ::
  "skia \<Rightarrow> SkScalar \<Rightarrow> SkScalar \<Rightarrow> SkScalar \<Rightarrow> SkScalar \<Rightarrow> SkScalar \<Rightarrow> SkScalar \<Rightarrow> builder \<Rightarrow> builder res" where
  "transform2DAffine sk mxx mxy mxt myx myy myt b =
     (if list_all SkScalarIsFinite [mxx, myx, mxy, myy, mxt, myt] \<and>
         \<not> (float_eq mxx float_one \<and> float_eq mxy 0 \<and> float_eq mxt 0 \<and>
            float_eq myx 0 \<and> float_eq myy float_one \<and> float_eq myt 0)
      then push_transform sk (Transform2DAffineOp mxx mxy mxt myx myy myt) 1
             (\<lambda>m. preConcat sk m (affine mxx mxy mxt myx myy myt)) b
      else Inr b)"

text \<open>The entries of the matrix are numbered row by row: \<open>mxx\<close> is the first, \<open>mwt\<close> the sixteenth.\<close>

(* map: display_list/display_list_builder.cc 576 602 DisplayListBuilder::transformFullPerspective *)
definition transformFullPerspective :: "skia \<Rightarrow> SkM44 \<Rightarrow> builder \<Rightarrow> builder res" where
  "transformFullPerspective sk m b =
     (if float_eq (m ! 2) 0 \<and> float_eq (m ! 6) 0 \<and>
         float_eq (m ! 8) 0 \<and> float_eq (m ! 9) 0 \<and> float_eq (m ! 10) float_one \<and> float_eq (m ! 11) 0 \<and>
         float_eq (m ! 12) 0 \<and> float_eq (m ! 13) 0 \<and> float_eq (m ! 14) 0 \<and> float_eq (m ! 15) float_one
      then transform2DAffine sk (m ! 0) (m ! 1) (m ! 3) (m ! 4) (m ! 5) (m ! 7) b
      else if list_all SkScalarIsFinite m
      then push_transform sk (TransformFullPerspectiveOp m) 1 (\<lambda>c. preConcat sk c m) b
      else Inr b)"

(* map: display_list/display_list_builder.cc 604 608 DisplayListBuilder::transformReset *)
definition transformReset :: "skia \<Rightarrow> builder \<Rightarrow> builder res" where
  "transformReset sk b = push_transform sk TransformResetOp 0 (\<lambda>_. SkM44_identity) b"

(* map: display_list/display_list_builder.cc 696 701 DisplayListBuilder::intersect *)
definition intersect :: "skia \<Rightarrow> SkRect \<Rightarrow> builder \<Rightarrow> builder" where
  "intersect sk rect b = on_layer (\<lambda>l. l\<lparr>clip_bounds :=
     (case rect_intersect sk (clip_bounds l) (mapRect sk (layer_matrix l) rect) of
        Some r \<Rightarrow> r | None \<Rightarrow> \<lparr>fLeft = 0, fTop = 0, fRight = 0, fBottom = 0\<rparr>)\<rparr>) b"

definition push_clip :: "skia \<Rightarrow> dl_op \<Rightarrow> SkRect option \<Rightarrow> builder \<Rightarrow> builder res" where
  "push_clip sk op1 bounds b =
     bindr (checkForDeferredSave sk b) (\<lambda>b. bindr (push sk op1 1 b) (\<lambda>b.
     Inr (case bounds of None \<Rightarrow> b | Some r \<Rightarrow> intersect sk r b)))"

(* map: display_list/display_list_builder.cc 624 640 DisplayListBuilder::clipRect *)
definition clipRect :: "skia \<Rightarrow> SkRect \<Rightarrow> SkClipOp \<Rightarrow> bool \<Rightarrow> builder \<Rightarrow> builder res" where
  "clipRect sk rect clip_op is_aa b =
     (if \<not> rect_isFinite sk rect then Inr b
      else case clip_op of
        kIntersectClip \<Rightarrow> push_clip sk (ClipIntersectRectOp rect is_aa) (Some rect) b
      | kDifferenceClip \<Rightarrow> push_clip sk (ClipDifferenceRectOp rect is_aa) None b)"

(* map: display_list/display_list_builder.cc 641 658 DisplayListBuilder::clipRRect *)
definition clipRRect :: "skia \<Rightarrow> SkRRect \<Rightarrow> SkClipOp \<Rightarrow> bool \<Rightarrow> builder \<Rightarrow> builder res" where
  "clipRRect sk rrect clip_op is_aa b =
     (if rrect_isRect sk rrect then clipRect sk (rrect_rect sk rrect) clip_op is_aa b
      else case clip_op of
        kIntersectClip \<Rightarrow> push_clip sk (ClipIntersectRRectOp rrect is_aa) (Some (rrect_getBounds sk rrect)) b
      | kDifferenceClip \<Rightarrow> push_clip sk (ClipDifferenceRRectOp rrect is_aa) None b)"

definition push_path_clip :: "skia \<Rightarrow> SkPath \<Rightarrow> SkClipOp \<Rightarrow> bool \<Rightarrow> builder \<Rightarrow> builder res" where
  "push_path_clip sk path clip_op is_aa b = (case clip_op of
     kIntersectClip \<Rightarrow> push_clip sk (ClipIntersectPathOp path is_aa)
       (if \<not> isInverseFillType sk path then Some (path_getBounds sk path) else None) b
   | kDifferenceClip \<Rightarrow> push_clip sk (ClipDifferencePathOp path is_aa)
       (if isInverseFillType sk path then Some (path_getBounds sk path) else None) b)"

(* map: display_list/display_list_builder.cc 659 695 DisplayListBuilder::clipPath *)
definition clipPath :: "skia \<Rightarrow> SkPath \<Rightarrow> SkClipOp \<Rightarrow> bool \<Rightarrow> builder \<Rightarrow> builder res" where
  "clipPath sk path clip_op is_aa b =
     (if \<not> isInverseFillType sk path then
        (case path_isRect sk path of
           Some r \<Rightarrow> clipRect sk r clip_op is_aa b
         | None \<Rightarrow>
             (case path_isOval sk path of
                Some r \<Rightarrow> clipRRect sk (rrect_setOval sk r) clip_op is_aa b
              | None \<Rightarrow>
                  (case path_isRRect sk path of
                     Some r \<Rightarrow> clipRRect sk r clip_op is_aa b
                   | None \<Rightarrow> push_path_clip sk path clip_op is_aa b)))
      else push_path_clip sk path clip_op is_aa b)"

text \<open>Queries of the clip: the local bounds are those of the widest rectangle when the matrix is singular.\<close>

(* map: display_list/display_list_builder.h 31 32 DisplayListBuilder::kMaxCullRect *)
definition kMaxCullRect :: SkRect where
  "kMaxCullRect = \<lparr>fLeft = 0xCE6E6B28, fTop = 0xCE6E6B28, fRight = 0x4E6E6B28, fBottom = 0x4E6E6B28\<rparr>"

(* map: display_list/display_list_builder.cc 702 710 DisplayListBuilder::getLocalClipBounds *)
definition getLocalClipBounds :: "skia \<Rightarrow> builder \<Rightarrow> SkRect" where
  "getLocalClipBounds sk b = (case invert sk (layer_matrix (current_layer b)) of
     Some m \<Rightarrow> mapRect sk m (roundOut sk (clip_bounds (current_layer b)))
   | None \<Rightarrow> kMaxCullRect)"

(* map: display_list/display_list_builder.cc 712 725 DisplayListBuilder::quickReject *)
definition quickReject :: "skia \<Rightarrow> (SkRect \<Rightarrow> bool) \<Rightarrow> (SkRect \<Rightarrow> SkRect \<Rightarrow> bool) \<Rightarrow> SkRect \<Rightarrow> builder \<Rightarrow> bool" where
  "quickReject sk isEmpty intersects bounds b =
     (if isEmpty bounds then True
      else if invert sk (layer_matrix (current_layer b)) = None then True
      else \<not> intersects (clip_bounds (current_layer b)) (roundOut sk (mapRect sk (layer_matrix (current_layer b)) bounds)))"

section \<open>Drawing\<close>

text \<open>Each method records its operation and then tells the layer whether it can take an opacity.\<close>

definition push_draw :: "skia \<Rightarrow> draw_op \<Rightarrow> (builder \<Rightarrow> builder) \<Rightarrow> builder \<Rightarrow> builder res" where
  "push_draw sk d check b = bindr (push sk (DrawOp d) 1 b) (\<lambda>b. Inr (check b))"

definition with_paint :: "skia \<Rightarrow> flags res \<Rightarrow> DlPaint \<Rightarrow> (builder \<Rightarrow> builder res) \<Rightarrow> builder \<Rightarrow> builder res" where
  "with_paint sk flags paint draw b =
     bindr flags (\<lambda>f. bindr (setAttributesFromDlPaint sk paint f b) draw)"

definition with_optional_paint ::
  "skia \<Rightarrow> flags res \<Rightarrow> DlPaint option \<Rightarrow> (bool \<Rightarrow> builder \<Rightarrow> builder res) \<Rightarrow> builder \<Rightarrow> builder res" where
  "with_optional_paint sk flags paint draw b = (case paint of
     Some p \<Rightarrow> with_paint sk flags p (draw True) b | None \<Rightarrow> draw False b)"

(* map: display_list/display_list_builder.cc 727 730 DisplayListBuilder::drawPaint *)
definition do_drawPaint :: "skia \<Rightarrow> builder \<Rightarrow> builder res" where
  "do_drawPaint sk b =
     push_draw sk DrawPaintOp (CheckLayerOpacityCompatibility True) b"

(* map: display_list/display_list_builder.cc 731 734 DisplayListBuilder::drawPaint *)
definition drawPaint_paint :: "skia \<Rightarrow> DlPaint \<Rightarrow> builder \<Rightarrow> builder res" where
  "drawPaint_paint sk paint =
     with_paint sk kDrawPaintFlags paint (do_drawPaint sk)"

(* map: display_list/display_list_builder.cc 735 738 DisplayListBuilder::drawColor *)
definition do_drawColor :: "skia \<Rightarrow> DlColor \<Rightarrow> DlBlendMode \<Rightarrow> builder \<Rightarrow> builder res" where
  "do_drawColor sk color mode b = push_draw sk (DrawColorOp color mode) (CheckLayerOpacityCompatibility_mode mode) b"

(* map: display_list/display_list_builder.cc 739 742 DisplayListBuilder::drawLine *)
definition do_drawLine :: "skia \<Rightarrow> SkPoint \<Rightarrow> SkPoint \<Rightarrow> builder \<Rightarrow> builder res" where
  "do_drawLine sk p0 p1 b =
     push_draw sk (DrawLineOp p0 p1) (CheckLayerOpacityCompatibility True) b"

(* map: display_list/display_list_builder.cc 743 748 DisplayListBuilder::drawLine *)
definition drawLine_paint :: "skia \<Rightarrow> SkPoint \<Rightarrow> SkPoint \<Rightarrow> DlPaint \<Rightarrow> builder \<Rightarrow> builder res" where
  "drawLine_paint sk p0 p1 paint =
     with_paint sk kDrawLineFlags paint (do_drawLine sk p0 p1)"

(* map: display_list/display_list_builder.cc 749 752 DisplayListBuilder::drawRect *)
definition do_drawRect :: "skia \<Rightarrow> SkRect \<Rightarrow> builder \<Rightarrow> builder res" where
  "do_drawRect sk rect b =
     push_draw sk (DrawRectOp rect) (CheckLayerOpacityCompatibility True) b"

(* map: display_list/display_list_builder.cc 753 756 DisplayListBuilder::drawRect *)
definition drawRect_paint :: "skia \<Rightarrow> SkRect \<Rightarrow> DlPaint \<Rightarrow> builder \<Rightarrow> builder res" where
  "drawRect_paint sk rect paint =
     with_paint sk kDrawRectFlags paint (do_drawRect sk rect)"

(* map: display_list/display_list_builder.cc 757 760 DisplayListBuilder::drawOval *)
definition do_drawOval :: "skia \<Rightarrow> SkRect \<Rightarrow> builder \<Rightarrow> builder res" where
  "do_drawOval sk bounds b =
     push_draw sk (DrawOvalOp bounds) (CheckLayerOpacityCompatibility True) b"

(* map: display_list/display_list_builder.cc 761 764 DisplayListBuilder::drawOval *)
definition drawOval_paint :: "skia \<Rightarrow> SkRect \<Rightarrow> DlPaint \<Rightarrow> builder \<Rightarrow> builder res" where
  "drawOval_paint sk bounds paint =
     with_paint sk kDrawOvalFlags paint (do_drawOval sk bounds)"

(* map: display_list/display_list_builder.cc 765 768 DisplayListBuilder::drawCircle *)
definition do_drawCircle :: "skia \<Rightarrow> SkPoint \<Rightarrow> SkScalar \<Rightarrow> builder \<Rightarrow> builder res" where
  "do_drawCircle sk center radius b =
     push_draw sk (DrawCircleOp center radius) (CheckLayerOpacityCompatibility True) b"

(* map: display_list/display_list_builder.cc 769 774 DisplayListBuilder::drawCircle *)
definition drawCircle_paint :: "skia \<Rightarrow> SkPoint \<Rightarrow> SkScalar \<Rightarrow> DlPaint \<Rightarrow> builder \<Rightarrow> builder res" where
  "drawCircle_paint sk center radius paint =
     with_paint sk kDrawCircleFlags paint (do_drawCircle sk center radius)"

(* map: display_list/display_list_builder.cc 775 784 DisplayListBuilder::drawRRect *)
definition do_drawRRect :: "skia \<Rightarrow> SkRRect \<Rightarrow> builder \<Rightarrow> builder res" where
  "do_drawRRect sk rrect b =
     (if rrect_isRect sk rrect then do_drawRect sk (rrect_rect sk rrect) b
      else if rrect_isOval sk rrect then do_drawOval sk (rrect_rect sk rrect) b
      else push_draw sk (DrawRRectOp rrect) (CheckLayerOpacityCompatibility True) b)"

(* map: display_list/display_list_builder.cc 785 788 DisplayListBuilder::drawRRect *)
definition drawRRect_paint :: "skia \<Rightarrow> SkRRect \<Rightarrow> DlPaint \<Rightarrow> builder \<Rightarrow> builder res" where
  "drawRRect_paint sk rrect paint =
     with_paint sk kDrawRRectFlags paint (do_drawRRect sk rrect)"

(* map: display_list/display_list_builder.cc 789 793 DisplayListBuilder::drawDRRect *)
definition do_drawDRRect :: "skia \<Rightarrow> SkRRect \<Rightarrow> SkRRect \<Rightarrow> builder \<Rightarrow> builder res" where
  "do_drawDRRect sk outer inner b =
     push_draw sk (DrawDRRectOp outer inner) (CheckLayerOpacityCompatibility True) b"

(* map: display_list/display_list_builder.cc 794 799 DisplayListBuilder::drawDRRect *)
definition drawDRRect_paint :: "skia \<Rightarrow> SkRRect \<Rightarrow> SkRRect \<Rightarrow> DlPaint \<Rightarrow> builder \<Rightarrow> builder res" where
  "drawDRRect_paint sk outer inner paint =
     with_paint sk kDrawDRRectFlags paint (do_drawDRRect sk outer inner)"

(* map: display_list/display_list_builder.cc 800 803 DisplayListBuilder::drawPath *)
definition do_drawPath :: "skia \<Rightarrow> SkPath \<Rightarrow> builder \<Rightarrow> builder res" where
  "do_drawPath sk path b =
     push_draw sk (DrawPathOp path) CheckLayerOpacityHairlineCompatibility b"

(* map: display_list/display_list_builder.cc 804 807 DisplayListBuilder::drawPath *)
definition drawPath_paint :: "skia \<Rightarrow> SkPath \<Rightarrow> DlPaint \<Rightarrow> builder \<Rightarrow> builder res" where
  "drawPath_paint sk path paint =
     with_paint sk kDrawPathFlags paint (do_drawPath sk path)"

(* map: display_list/display_list_builder.cc 809 819 DisplayListBuilder::drawArc *)
definition do_drawArc :: "skia \<Rightarrow> SkRect \<Rightarrow> SkScalar \<Rightarrow> SkScalar \<Rightarrow> bool \<Rightarrow> builder \<Rightarrow> builder res" where
  "do_drawArc sk bounds start sweep useCenter b =
     push_draw sk (DrawArcOp bounds start sweep useCenter)
       (if useCenter then CheckLayerOpacityHairlineCompatibility else CheckLayerOpacityCompatibility True) b"

(* map: display_list/display_list_builder.cc 820 828 DisplayListBuilder::drawArc *)
definition drawArc_paint :: "skia \<Rightarrow> SkRect \<Rightarrow> SkScalar \<Rightarrow> SkScalar \<Rightarrow> bool \<Rightarrow> DlPaint \<Rightarrow> builder \<Rightarrow> builder res" where
  "drawArc_paint sk bounds start sweep useCenter paint =
     with_paint sk (if useCenter then kDrawArcWithCenterFlags else kDrawArcNoCenterFlags) paint (do_drawArc sk bounds start sweep useCenter)"

(* map: display_list/display_list_dispatcher.h 33 33 Dispatcher::kMaxDrawPointsCount *)
definition kMaxDrawPointsCount :: nat where
  "kMaxDrawPointsCount = 2 ^ 29 - 1"

(* map: display_list/display_list_builder.cc 829 856 DisplayListBuilder::drawPoints *)
definition do_drawPoints :: "skia \<Rightarrow> PointMode \<Rightarrow> SkPoint list \<Rightarrow> builder \<Rightarrow> builder res" where
  "do_drawPoints sk mode pts b =
     bindr (ensure DCheck_Failed (length pts < kMaxDrawPointsCount)) (\<lambda>_.
     push_draw sk (case mode of
         kPoints_PointMode \<Rightarrow> DrawPointsOp pts
       | kLines_PointMode \<Rightarrow> DrawLinesOp pts
       | kPolygon_PointMode \<Rightarrow> DrawPolygonOp pts) (UpdateLayerOpacityCompatibility False) b)"

(* map: display_list/display_list_builder.cc 857 878 DisplayListBuilder::drawPoints *)
definition drawPoints_paint :: "skia \<Rightarrow> PointMode \<Rightarrow> SkPoint list \<Rightarrow> DlPaint \<Rightarrow> builder \<Rightarrow> builder res" where
  "drawPoints_paint sk mode pts paint =
     with_paint sk (case mode of
       kPoints_PointMode \<Rightarrow> kDrawPointsAsPointsFlags
     | kLines_PointMode \<Rightarrow> kDrawPointsAsLinesFlags
     | kPolygon_PointMode \<Rightarrow> kDrawPointsAsPolygonFlags) paint (do_drawPoints sk mode pts)"

(* map: display_list/display_list_builder.cc 879 887 DisplayListBuilder::drawSkVertices *)
definition do_drawSkVertices :: "skia \<Rightarrow> sk_ref \<Rightarrow> nat \<Rightarrow> builder \<Rightarrow> builder res" where
  "do_drawSkVertices sk vertices mode b =
     push_draw sk (DrawSkVerticesOp vertices mode) (UpdateLayerOpacityCompatibility False) b"

(* map: display_list/display_list_builder.cc 888 897 DisplayListBuilder::drawVertices *)
definition do_drawVertices :: "skia \<Rightarrow> sk_ref \<Rightarrow> DlBlendMode \<Rightarrow> builder \<Rightarrow> builder res" where
  "do_drawVertices sk vertices mode b =
     push_draw sk (DrawVerticesOp vertices mode) (UpdateLayerOpacityCompatibility False) b"

(* map: display_list/display_list_builder.cc 898 903 DisplayListBuilder::drawVertices *)
definition drawVertices_paint :: "skia \<Rightarrow> sk_ref \<Rightarrow> DlBlendMode \<Rightarrow> DlPaint \<Rightarrow> builder \<Rightarrow> builder res" where
  "drawVertices_paint sk vertices mode paint =
     with_paint sk kDrawVerticesFlags paint (do_drawVertices sk vertices mode)"

(* map: display_list/display_list_builder.cc 905 913 DisplayListBuilder::drawImage *)
definition do_drawImage :: "skia \<Rightarrow> DlImage \<Rightarrow> SkPoint \<Rightarrow> DlImageSampling \<Rightarrow> bool \<Rightarrow> builder \<Rightarrow> builder res" where
  "do_drawImage sk img point sampling render_with_attributes b =
     push_draw sk
       (if render_with_attributes then DrawImageWithAttrOp img point sampling else DrawImageOp img point sampling)
       (CheckLayerOpacityCompatibility render_with_attributes) b"

(* map: display_list/display_list_builder.cc 914 925 DisplayListBuilder::drawImage *)
definition drawImage_paint :: "skia \<Rightarrow> DlImage \<Rightarrow> SkPoint \<Rightarrow> DlImageSampling \<Rightarrow> DlPaint option \<Rightarrow> builder \<Rightarrow> builder res" where
  "drawImage_paint sk img point sampling paint =
     with_optional_paint sk kDrawImageWithPaintFlags paint (do_drawImage sk img point sampling)"

(* map: display_list/display_list_builder.cc 926 935 DisplayListBuilder::drawImageRect *)
definition do_drawImageRect ::
  "skia \<Rightarrow> DlImage \<Rightarrow> SkRect \<Rightarrow> SkRect \<Rightarrow> DlImageSampling \<Rightarrow> bool \<Rightarrow> nat \<Rightarrow> builder \<Rightarrow> builder res" where
  "do_drawImageRect sk img src dst sampling render_with_attributes constraint b =
     push_draw sk (DrawImageRectOp img src dst sampling render_with_attributes constraint)
       (CheckLayerOpacityCompatibility render_with_attributes) b"

(* map: display_list/display_list_builder.cc 936 949 DisplayListBuilder::drawImageRect *)
definition drawImageRect_paint ::
  "skia \<Rightarrow> DlImage \<Rightarrow> SkRect \<Rightarrow> SkRect \<Rightarrow> DlImageSampling \<Rightarrow> DlPaint option \<Rightarrow> nat \<Rightarrow> builder \<Rightarrow> builder res" where
  "drawImageRect_paint sk img src dst sampling paint constraint =
     with_optional_paint sk kDrawImageRectWithPaintFlags paint
       (\<lambda>attr. do_drawImageRect sk img src dst sampling attr constraint)"

(* map: display_list/display_list_builder.cc 950 959 DisplayListBuilder::drawImageNine *)
definition do_drawImageNine :: "skia \<Rightarrow> DlImage \<Rightarrow> int \<times> int \<times> int \<times> int \<Rightarrow> SkRect \<Rightarrow> DlFilterMode \<Rightarrow> bool \<Rightarrow> builder \<Rightarrow> builder res" where
  "do_drawImageNine sk img center dst flt render_with_attributes b =
     push_draw sk
       (if render_with_attributes then DrawImageNineWithAttrOp img center dst flt
        else DrawImageNineOp img center dst flt)
       (CheckLayerOpacityCompatibility render_with_attributes) b"

(* map: display_list/display_list_builder.cc 960 972 DisplayListBuilder::drawImageNine *)
definition drawImageNine_paint :: "skia \<Rightarrow> DlImage \<Rightarrow> int \<times> int \<times> int \<times> int \<Rightarrow> SkRect \<Rightarrow> DlFilterMode \<Rightarrow> DlPaint option \<Rightarrow> builder \<Rightarrow> builder res" where
  "drawImageNine_paint sk img center dst flt paint =
     with_optional_paint sk kDrawImageNineWithPaintFlags paint (do_drawImageNine sk img center dst flt)"

(* map: display_list/display_list_builder.cc 973 994 DisplayListBuilder::drawImageLattice *)
definition do_drawImageLattice :: "skia \<Rightarrow> DlImage \<Rightarrow> lattice \<Rightarrow> SkRect \<Rightarrow> DlFilterMode \<Rightarrow> bool \<Rightarrow> builder \<Rightarrow> builder res" where
  "do_drawImageLattice sk img lat dst flt render_with_attributes b =
     bindr (ensure DCheck_Failed (fRectTypes lat = None \<or> fColors lat \<noteq> None)) (\<lambda>_.
     let cells = (case (fColors lat, fRectTypes lat) of (Some cs, Some ts) \<Rightarrow> Some (cs, ts) | _ \<Rightarrow> None);
         src = (case fBounds lat of Some r \<Rightarrow> r | None \<Rightarrow> (0, 0, fst (image_bounds img), snd (image_bounds img))) in
     push_draw sk (DrawImageLatticeOp img (fXDivs lat) (fYDivs lat) cells src dst flt render_with_attributes)
       (CheckLayerOpacityCompatibility render_with_attributes) b)"

(* map: display_list/display_list_builder.cc 995 1032 DisplayListBuilder::drawAtlas *)
definition do_drawAtlas :: "skia \<Rightarrow> atlas_args \<Rightarrow> SkRect option \<Rightarrow> bool \<Rightarrow> builder \<Rightarrow> builder res" where
  "do_drawAtlas sk args cull render_with_attributes b =
     push_draw sk (case cull of
         Some r \<Rightarrow> DrawAtlasCulledOp args r render_with_attributes
       | None \<Rightarrow> DrawAtlasOp args render_with_attributes)
       (UpdateLayerOpacityCompatibility False) b"

(* map: display_list/display_list_builder.cc 1033 1051 DisplayListBuilder::drawAtlas *)
definition drawAtlas_paint :: "skia \<Rightarrow> atlas_args \<Rightarrow> SkRect option \<Rightarrow> DlPaint option \<Rightarrow> builder \<Rightarrow> builder res" where
  "drawAtlas_paint sk args cull paint =
     with_optional_paint sk kDrawAtlasWithPaintFlags paint (do_drawAtlas sk args cull)"

text \<open>A nested picture or list counts for its own operations and not for the one that draws it.\<close>

(* map: display_list/display_list_builder.cc 1053 1069 DisplayListBuilder::drawPicture *)
definition do_drawPicture :: "skia \<Rightarrow> sk_ref \<Rightarrow> SkMatrix option \<Rightarrow> bool \<Rightarrow> builder \<Rightarrow> builder res" where
  "do_drawPicture sk picture matrix render_with_attributes b =
     push_draw sk (case matrix of
         Some m \<Rightarrow> DrawSkPictureMatrixOp picture m render_with_attributes
       | None \<Rightarrow> DrawSkPictureOp picture render_with_attributes)
       (\<lambda>b. CheckLayerOpacityCompatibility render_with_attributes
          (b\<lparr>nested_op_count := nested_op_count b + (int (approximateOpCount sk picture) - 1),
             nested_bytes := nested_bytes b + approximateBytesUsed sk picture\<rparr>)) b"

(* map: display_list/display_list_builder.cc 1070 1082 DisplayListBuilder::drawDisplayList *)
definition do_drawDisplayList :: "skia \<Rightarrow> dl_ref \<Rightarrow> builder \<Rightarrow> builder res" where
  "do_drawDisplayList sk display_list b =
     push_draw sk (DrawDisplayListOp display_list)
       (\<lambda>b. UpdateLayerOpacityCompatibility (dl_can_apply_group_opacity display_list)
          (b\<lparr>nested_op_count := nested_op_count b + (int (dl_op_count_nested display_list) - 1),
             nested_bytes := nested_bytes b + dl_bytes_nested display_list\<rparr>)) b"

(* map: display_list/display_list_builder.cc 1083 1088 DisplayListBuilder::drawTextBlob *)
definition do_drawTextBlob :: "skia \<Rightarrow> sk_ref \<Rightarrow> SkScalar \<Rightarrow> SkScalar \<Rightarrow> builder \<Rightarrow> builder res" where
  "do_drawTextBlob sk blob x y b =
     push_draw sk (DrawTextBlobOp blob x y) (CheckLayerOpacityCompatibility True) b"

(* map: display_list/display_list_builder.cc 1089 1095 DisplayListBuilder::drawTextBlob *)
definition drawTextBlob_paint :: "skia \<Rightarrow> sk_ref \<Rightarrow> SkScalar \<Rightarrow> SkScalar \<Rightarrow> DlPaint \<Rightarrow> builder \<Rightarrow> builder res" where
  "drawTextBlob_paint sk blob x y paint =
     with_paint sk kDrawTextBlobFlags paint (do_drawTextBlob sk blob x y)"

(* map: display_list/display_list_builder.cc 1096 1105 DisplayListBuilder::drawShadow *)
definition do_drawShadow :: "skia \<Rightarrow> SkPath \<Rightarrow> DlColor \<Rightarrow> SkScalar \<Rightarrow> bool \<Rightarrow> SkScalar \<Rightarrow> builder \<Rightarrow> builder res" where
  "do_drawShadow sk path color elevation transparent_occluder dpr b =
     push_draw sk
       (if transparent_occluder then DrawShadowTransparentOccluderOp path color elevation dpr
        else DrawShadowOp path color elevation dpr)
       (UpdateLayerOpacityCompatibility False) b"

section \<open>The calls of the interface\<close>

fun draw_step :: "skia \<Rightarrow> draw_call \<Rightarrow> builder \<Rightarrow> builder res" where
  "draw_step sk (drawColor c m) b = do_drawColor sk c m b"
| "draw_step sk drawPaint b = do_drawPaint sk b"
| "draw_step sk (drawLine p q) b = do_drawLine sk p q b"
| "draw_step sk (drawRect r) b = do_drawRect sk r b"
| "draw_step sk (drawOval r) b = do_drawOval sk r b"
| "draw_step sk (drawCircle c r) b = do_drawCircle sk c r b"
| "draw_step sk (drawRRect r) b = do_drawRRect sk r b"
| "draw_step sk (drawDRRect p q) b = do_drawDRRect sk p q b"
| "draw_step sk (drawPath p) b = do_drawPath sk p b"
| "draw_step sk (drawArc r s w c) b = do_drawArc sk r s w c b"
| "draw_step sk (drawPoints m ps) b = do_drawPoints sk m ps b"
| "draw_step sk (drawSkVertices v m) b = do_drawSkVertices sk v m b"
| "draw_step sk (drawVertices v m) b = do_drawVertices sk v m b"
| "draw_step sk (drawImage i p s a) b = do_drawImage sk i p s a b"
| "draw_step sk (drawImageRect i s d m a c) b = do_drawImageRect sk i s d m a c b"
| "draw_step sk (drawImageNine i c d f a) b = do_drawImageNine sk i c d f a b"
| "draw_step sk (drawImageLattice i l d f a) b = do_drawImageLattice sk i l d f a b"
| "draw_step sk (drawAtlas x c a) b = do_drawAtlas sk x c a b"
| "draw_step sk (drawPicture p m a) b = do_drawPicture sk p m a b"
| "draw_step sk (drawDisplayList d) b = do_drawDisplayList sk d b"
| "draw_step sk (drawTextBlob t x y) b = do_drawTextBlob sk t x y b"
| "draw_step sk (drawShadow p c e t d) b = do_drawShadow sk p c e t d b"

fun builder_step :: "skia \<Rightarrow> builder \<Rightarrow> dl_call \<Rightarrow> builder res" where
  "builder_step sk b (Attr a) = attr_step sk a b"
| "builder_step sk b Save = Inr (save b)"
| "builder_step sk b (SaveLayer r o1 f) = saveLayer sk r o1 f b"
| "builder_step sk b Restore = restore sk b"
| "builder_step sk b (Translate x y) = translate sk x y b"
| "builder_step sk b (Scale x y) = scale sk x y b"
| "builder_step sk b (Rotate d) = rotate_deg sk d b"
| "builder_step sk b (Skew x y) = skew sk x y b"
| "builder_step sk b (Transform2DAffine a1 b1 c1 d1 e1 f1) = transform2DAffine sk a1 b1 c1 d1 e1 f1 b"
| "builder_step sk b (TransformFullPerspective m) = transformFullPerspective sk m b"
| "builder_step sk b TransformReset = transformReset sk b"
| "builder_step sk b (ClipRect r c a) = clipRect sk r c a b"
| "builder_step sk b (ClipRRect r c a) = clipRRect sk r c a b"
| "builder_step sk b (ClipPath p c a) = clipPath sk p c a b"
| "builder_step sk b (Draw d) = draw_step sk d b"

section \<open>The finished list\<close>

(* map: display_list/display_list.h 221 309 DisplayList *)
record display_list =
  dl_storage :: "(dl_op \<times> nat) list"
  dl_byte_count :: nat
  dl_op_count :: nat
  dl_nested_byte_count :: nat
  dl_nested_op_count :: int
  dl_bounds_cull :: SkRect
  can_apply_group_opacity :: bool

text \<open>The builder can be used again; only the counts and the storage are new.\<close>

(* map: display_list/display_list_builder.cc 51 66 DisplayListBuilder::Build *)
definition Build :: "skia \<Rightarrow> builder \<Rightarrow> (display_list \<times> builder) res" where
  "Build sk b =
     bindr (restore_loop sk (length (layer_stack b)) 1 b) (\<lambda>b.
     Inr (\<lparr>dl_storage = storage b, dl_byte_count = used b, dl_op_count = op_count b,
           dl_nested_byte_count = nested_bytes b, dl_nested_op_count = nested_op_count b,
           dl_bounds_cull = cull_rect b,
           can_apply_group_opacity = \<not> cannot_inherit_opacity (current_layer b)\<rparr>,
          b\<lparr>storage := [], used := 0, allocated := 0, op_count := 0, nested_bytes := 0, nested_op_count := 0\<rparr>))"

(* map: display_list/display_list.cc 75 97 DisplayList::Dispatch *)
definition Dispatch :: "display_list \<Rightarrow> dl_call list" where
  "Dispatch dl = map (dispatch \<circ> fst) (dl_storage dl)"

definition record_calls :: "skia \<Rightarrow> SkRect \<Rightarrow> dl_call list \<Rightarrow> display_list res" where
  "record_calls sk cull calls =
     bindr (run_ops (builder_step sk) (DisplayListBuilder cull) calls) (\<lambda>b. bindr (Build sk b) (\<lambda>r. Inr (fst r)))"

end
