(* ===== verification/Dl_Memory.thy ===== *)
theory Dl_Memory
  imports Dl_Recording
begin

text \<open>
  The memory of the builder: what \<open>Push\<close> leaves, the offsets of the layer records, and that the option
  is only ever set in a record of a layer.
\<close>

named_theorems step_defs \<open>definitions of the builder's methods\<close>

section \<open>Pushing\<close>

lemma push_Inr:
  assumes "push sk op1 inc b = Inr b'"
  shows "b' = b\<lparr>storage := storage b @ [(op1, op_size sk op1)], used := used b + op_size sk op1,
                allocated := allocated b', op_count := op_count b + inc\<rparr>"
    and "op_size sk op1 < 2 ^ 24" and "used b' \<le> allocated b'"
  using assms by (auto simp: push_def Let_def res_simps)

lemma page_up: "n \<le> (n + DL_BUILDER_PAGE) div DL_BUILDER_PAGE * DL_BUILDER_PAGE"
  by (simp add: DL_BUILDER_PAGE_def)

text \<open>The second check of \<open>Push\<close> always holds.\<close>

lemma push_eq:
  "push sk op1 inc b =
     (let sz = op_size sk op1; need = used b + sz in
      if sz < 2 ^ 24 then
        Inr (b\<lparr>storage := storage b @ [(op1, sz)], used := need,
               allocated := (if need > allocated b then (need + DL_BUILDER_PAGE) div DL_BUILDER_PAGE * DL_BUILDER_PAGE
                             else allocated b),
               op_count := op_count b + inc\<rparr>)
      else Inl DCheck_Failed)"
  using page_up [of "used b + op_size sk op1"] by (auto simp: push_def Let_def)

lemma op_size_pos: "0 < op_size sk op1"
  by (simp add: op_size_def SkAlignPtr_def)

section \<open>Offsets\<close>

definition bytes :: "(dl_op \<times> nat) list \<Rightarrow> nat" where
  "bytes st = sum_list (map snd st)"

definition is_layer_at :: "(dl_op \<times> nat) list \<Rightarrow> nat \<Rightarrow> bool" where
  "is_layer_at st offset \<longleftrightarrow> (\<exists>st'. patch_at offset st = Inr st')"

lemma bytes_simps [simp]: "bytes [] = 0" "bytes (x # xs) = snd x + bytes xs" "bytes (xs @ ys) = bytes xs + bytes ys"
  by (simp_all add: bytes_def)

lemma patch_at_append: "patch_at off st = Inr st' \<Longrightarrow> patch_at off (st @ xs) = Inr (st' @ xs)"
  by (induction off st arbitrary: st' rule: patch_at.induct)
    (auto simp: bindr_eq_Inr split: if_splits option.splits)

lemma is_layer_at_append: "is_layer_at st off \<Longrightarrow> is_layer_at (st @ xs) off"
  by (auto simp: is_layer_at_def dest: patch_at_append)

lemma set_distribute_again: "set_distribute x = Some y \<Longrightarrow> \<exists>z. set_distribute y = Some z"
  by (cases x rule: set_distribute.cases) auto

lemma patch_at_sizes: "patch_at off st = Inr st' \<Longrightarrow> map snd st' = map snd st"
  by (induction off st arbitrary: st' rule: patch_at.induct) (auto simp: bindr_eq_Inr split: if_splits option.splits)

lemma is_layer_at_patch:
  "patch_at off st = Inr st' \<Longrightarrow> is_layer_at st off' \<Longrightarrow> is_layer_at st' off'"
  unfolding is_layer_at_def
proof (induction off st arbitrary: st' off' rule: patch_at.induct)
  case (2 off op1 n rest)
  show ?case
  proof (cases "off = 0")
    case True
    with 2 show ?thesis by (auto simp: bindr_eq_Inr split: option.splits if_splits dest: set_distribute_again)
  next
    case False
    with "2.prems"(1) obtain r where r: "\<not> off < n" "patch_at (off - n) rest = Inr r" "st' = (op1, n) # r"
      by (auto simp: bindr_eq_Inr split: if_splits)
    show ?thesis
      using "2.IH" [OF False r(1,2)] "2.prems"(2) r(3) by (auto simp: bindr_eq_Inr split: option.splits if_splits)
  qed
qed simp

lemma patch_at_end:
  assumes "\<forall>x\<in>set st. 0 < snd x" and "set_distribute op1 = Some op2"
  shows "patch_at (bytes st) (st @ [(op1, n)]) = Inr (st @ [(op2, n)])"
  using assms by (induction st) (auto simp: res_simps)

lemma set_distribute_layer_record: "set_distribute (layer_record r opts f) = Some (layer_record r (with_can_distribute_opacity opts) f)"
  by (cases f; cases r) (simp_all add: layer_record_def)

end
