(* ===== verification/Dl_Canvas.thy ===== *)
theory Dl_Canvas
  imports Dl_Memory
begin

text \<open>
  What the calls of the \<open>Dispatcher\<close> interface mean, by \<open>display_list/display_list_dispatcher.h\<close>: a canvas keeps
  the attributes, which \<open>save\<close> and \<open>restore\<close> leave alone, and a stack of transforms and clips. A drawing call
  is an event with everything it depends on. A transform or a rectangle that is not finite is ignored, as
  the builder does.
\<close>

section \<open>The canvas\<close>

datatype clip =
    ClipOfRect SkM44 SkRect SkClipOp bool
  | ClipOfRRect SkM44 SkRRect SkClipOp bool
  | ClipOfPath SkM44 SkPath SkClipOp bool

record frame =
  fr_matrix :: SkM44
  fr_clips :: "clip list"
  fr_layer :: bool

type_synonym attrs = "DlPaint \<times> sk_ref option"

datatype event =
    Drawn draw_op attrs SkM44 "clip list"
  | Layer_Begins "SkRect option" bool "DlImageFilter option" attrs SkM44 "clip list"
  | Layer_Ends

record canvas =
  cv_attrs :: attrs
  cv_stack :: "frame list"
  cv_out :: "event list"

definition canvas_init :: canvas where
  "canvas_init = \<lparr>cv_attrs = (DlPaint_default, None),
     cv_stack = [\<lparr>fr_matrix = SkM44_identity, fr_clips = [], fr_layer = False\<rparr>], cv_out = []\<rparr>"

text \<open>Setting a blender that is one of the modes sets the mode; setting a mode removes the blender.\<close>

definition blend_with :: "DlBlendMode \<Rightarrow> attrs \<Rightarrow> attrs" where
  "blend_with m a = ((fst a)\<lparr>blendMode := m\<rparr>, None)"

fun attr_set :: "skia \<Rightarrow> attr_call \<Rightarrow> attrs \<Rightarrow> attrs" where
  "attr_set sk (setAntiAlias v) (p, k) = (p\<lparr>isAntiAlias := v\<rparr>, k)"
| "attr_set sk (setDither v) (p, k) = (p\<lparr>isDither := v\<rparr>, k)"
| "attr_set sk (setStyle v) (p, k) = (p\<lparr>drawStyle := v\<rparr>, k)"
| "attr_set sk (setColor v) (p, k) = (p\<lparr>paint_color := v\<rparr>, k)"
| "attr_set sk (setStrokeWidth v) (p, k) = (p\<lparr>strokeWidth := v\<rparr>, k)"
| "attr_set sk (setStrokeMiter v) (p, k) = (p\<lparr>strokeMiter := v\<rparr>, k)"
| "attr_set sk (setStrokeCap v) (p, k) = (p\<lparr>strokeCap := v\<rparr>, k)"
| "attr_set sk (setStrokeJoin v) (p, k) = (p\<lparr>strokeJoin := v\<rparr>, k)"
| "attr_set sk (setColorSource v) (p, k) = (p\<lparr>colorSource := v\<rparr>, k)"
| "attr_set sk (setColorFilter v) (p, k) = (p\<lparr>colorFilter := v\<rparr>, k)"
| "attr_set sk (setInvertColors v) (p, k) = (p\<lparr>isInvertColors := v\<rparr>, k)"
| "attr_set sk (setBlendMode m) a = blend_with m a"
| "attr_set sk (setBlender None) a = blend_with kSrcOver a"
| "attr_set sk (setBlender (Some b)) a =
     (case asBlendMode sk b of Some m \<Rightarrow> blend_with m a | None \<Rightarrow> (fst a, Some b))"
| "attr_set sk (setPathEffect v) (p, k) = (p\<lparr>pathEffect := v\<rparr>, k)"
| "attr_set sk (setMaskFilter v) (p, k) = (p\<lparr>maskFilter := v\<rparr>, k)"
| "attr_set sk (setImageFilter v) (p, k) = (p\<lparr>imageFilter := v\<rparr>, k)"

definition on_top :: "(frame \<Rightarrow> frame) \<Rightarrow> canvas \<Rightarrow> canvas" where
  "on_top f c = c\<lparr>cv_stack := (case cv_stack c of [] \<Rightarrow> [] | x # xs \<Rightarrow> f x # xs)\<rparr>"

definition transformed :: "(SkM44 \<Rightarrow> SkM44) \<Rightarrow> canvas \<Rightarrow> canvas" where
  "transformed f = on_top (\<lambda>x. x\<lparr>fr_matrix := f (fr_matrix x)\<rparr>)"

definition clipped :: "(SkM44 \<Rightarrow> clip) \<Rightarrow> canvas \<Rightarrow> canvas" where
  "clipped k = on_top (\<lambda>x. x\<lparr>fr_clips := fr_clips x @ [k (fr_matrix x)]\<rparr>)"

definition emit :: "event \<Rightarrow> canvas \<Rightarrow> canvas" where
  "emit e c = c\<lparr>cv_out := cv_out c @ [e]\<rparr>"

text \<open>Shapes that are rectangles or ovals are drawn and clipped as such.\<close>

fun draw_record :: "skia \<Rightarrow> draw_call \<Rightarrow> draw_op" where
  "draw_record sk (drawColor c m) = DrawColorOp c m"
| "draw_record sk drawPaint = DrawPaintOp"
| "draw_record sk (drawLine p q) = DrawLineOp p q"
| "draw_record sk (drawRect r) = DrawRectOp r"
| "draw_record sk (drawOval r) = DrawOvalOp r"
| "draw_record sk (drawCircle c r) = DrawCircleOp c r"
| "draw_record sk (drawRRect r) =
     (if rrect_isRect sk r then DrawRectOp (rrect_rect sk r)
      else if rrect_isOval sk r then DrawOvalOp (rrect_rect sk r) else DrawRRectOp r)"
| "draw_record sk (drawDRRect p q) = DrawDRRectOp p q"
| "draw_record sk (drawPath p) = DrawPathOp p"
| "draw_record sk (drawArc r s w c) = DrawArcOp r s w c"
| "draw_record sk (drawPoints m ps) = (case m of
     kPoints_PointMode \<Rightarrow> DrawPointsOp ps | kLines_PointMode \<Rightarrow> DrawLinesOp ps | kPolygon_PointMode \<Rightarrow> DrawPolygonOp ps)"
| "draw_record sk (drawSkVertices v m) = DrawSkVerticesOp v m"
| "draw_record sk (drawVertices v m) = DrawVerticesOp v m"
| "draw_record sk (drawImage i p s a) = (if a then DrawImageWithAttrOp i p s else DrawImageOp i p s)"
| "draw_record sk (drawImageRect i s d m a c) = DrawImageRectOp i s d m a c"
| "draw_record sk (drawImageNine i c d f a) = (if a then DrawImageNineWithAttrOp i c d f else DrawImageNineOp i c d f)"
| "draw_record sk (drawImageLattice i l d f a) =
     DrawImageLatticeOp i (fXDivs l) (fYDivs l)
       (case (fColors l, fRectTypes l) of (Some cs, Some ts) \<Rightarrow> Some (cs, ts) | _ \<Rightarrow> None)
       (case fBounds l of Some r \<Rightarrow> r | None \<Rightarrow> (0, 0, fst (image_bounds i), snd (image_bounds i))) d f a"
| "draw_record sk (drawAtlas x c a) = (case c of Some r \<Rightarrow> DrawAtlasCulledOp x r a | None \<Rightarrow> DrawAtlasOp x a)"
| "draw_record sk (drawPicture p m a) =
     (case m of Some n \<Rightarrow> DrawSkPictureMatrixOp p n a | None \<Rightarrow> DrawSkPictureOp p a)"
| "draw_record sk (drawDisplayList d) = DrawDisplayListOp d"
| "draw_record sk (drawTextBlob t x y) = DrawTextBlobOp t x y"
| "draw_record sk (drawShadow p c e t d) =
     (if t then DrawShadowTransparentOccluderOp p c e d else DrawShadowOp p c e d)"

definition canvas_clipRect :: "skia \<Rightarrow> SkRect \<Rightarrow> SkClipOp \<Rightarrow> bool \<Rightarrow> canvas \<Rightarrow> canvas" where
  "canvas_clipRect sk r o1 aa c = (if rect_isFinite sk r then clipped (\<lambda>m. ClipOfRect m r o1 aa) c else c)"

definition canvas_clipRRect :: "skia \<Rightarrow> SkRRect \<Rightarrow> SkClipOp \<Rightarrow> bool \<Rightarrow> canvas \<Rightarrow> canvas" where
  "canvas_clipRRect sk r o1 aa c =
     (if rrect_isRect sk r then canvas_clipRect sk (rrect_rect sk r) o1 aa c
      else clipped (\<lambda>m. ClipOfRRect m r o1 aa) c)"

definition canvas_clipPath :: "skia \<Rightarrow> SkPath \<Rightarrow> SkClipOp \<Rightarrow> bool \<Rightarrow> canvas \<Rightarrow> canvas" where
  "canvas_clipPath sk p o1 aa c =
     (if isInverseFillType sk p then clipped (\<lambda>m. ClipOfPath m p o1 aa) c
      else case path_isRect sk p of
        Some r \<Rightarrow> canvas_clipRect sk r o1 aa c
      | None \<Rightarrow> (case path_isOval sk p of
          Some r \<Rightarrow> canvas_clipRRect sk (rrect_setOval sk r) o1 aa c
        | None \<Rightarrow> (case path_isRRect sk p of
            Some r \<Rightarrow> canvas_clipRRect sk r o1 aa c
          | None \<Rightarrow> clipped (\<lambda>m. ClipOfPath m p o1 aa) c)))"

definition canvas_affine ::
  "skia \<Rightarrow> SkScalar \<Rightarrow> SkScalar \<Rightarrow> SkScalar \<Rightarrow> SkScalar \<Rightarrow> SkScalar \<Rightarrow> SkScalar \<Rightarrow> canvas \<Rightarrow> canvas" where
  "canvas_affine sk mxx mxy mxt myx myy myt c =
     (if list_all SkScalarIsFinite [mxx, mxy, mxt, myx, myy, myt]
      then transformed (\<lambda>m. preConcat sk m (affine mxx mxy mxt myx myy myt)) c else c)"

text \<open>The third row and column, and the fourth row, are those of the identity.\<close>

definition is_affine :: "SkM44 \<Rightarrow> bool" where
  "is_affine m \<longleftrightarrow> (\<forall>(i, x) \<in> set [(2, 0), (6, 0), (8, 0), (9, 0), (10, float_one), (11, 0), (12, 0), (13, 0),
     (14, 0), (15, float_one)]. float_eq (m ! i) x)"

fun canvas_step :: "skia \<Rightarrow> canvas \<Rightarrow> dl_call \<Rightarrow> canvas" where
  "canvas_step sk c (Attr a) = c\<lparr>cv_attrs := attr_set sk a (cv_attrs c)\<rparr>"
| "canvas_step sk c Save = c\<lparr>cv_stack := (hd (cv_stack c))\<lparr>fr_layer := False\<rparr> # cv_stack c\<rparr>"
| "canvas_step sk c (SaveLayer r o1 f) =
     (let x = hd (cv_stack c) in
      emit (Layer_Begins r (renders_with_attributes o1) f (cv_attrs c) (fr_matrix x) (fr_clips x))
        (c\<lparr>cv_stack := x\<lparr>fr_layer := True\<rparr> # cv_stack c\<rparr>))"
| "canvas_step sk c Restore =
     (if length (cv_stack c) > 1 then
        let c' = c\<lparr>cv_stack := tl (cv_stack c)\<rparr> in
        if fr_layer (hd (cv_stack c)) then emit Layer_Ends c' else c'
      else c)"
| "canvas_step sk c (Translate x y) =
     (if SkScalarIsFinite x \<and> SkScalarIsFinite y then transformed (preTranslate sk x y) c else c)"
| "canvas_step sk c (Scale x y) =
     (if SkScalarIsFinite x \<and> SkScalarIsFinite y then transformed (preScale sk x y) c else c)"
| "canvas_step sk c (Rotate d) = transformed (\<lambda>m. preConcat sk m (RotateDeg sk d)) c"
| "canvas_step sk c (Skew x y) =
     (if SkScalarIsFinite x \<and> SkScalarIsFinite y then transformed (\<lambda>m. preConcat sk m (SkewMatrix sk x y)) c else c)"
| "canvas_step sk c (Transform2DAffine mxx mxy mxt myx myy myt) = canvas_affine sk mxx mxy mxt myx myy myt c"
| "canvas_step sk c (TransformFullPerspective m) =
     (if is_affine m then canvas_affine sk (m ! 0) (m ! 1) (m ! 3) (m ! 4) (m ! 5) (m ! 7) c
      else if list_all SkScalarIsFinite m then transformed (\<lambda>x. preConcat sk x m) c else c)"
| "canvas_step sk c TransformReset = transformed (\<lambda>_. SkM44_identity) c"
| "canvas_step sk c (ClipRect r o1 aa) = canvas_clipRect sk r o1 aa c"
| "canvas_step sk c (ClipRRect r o1 aa) = canvas_clipRRect sk r o1 aa c"
| "canvas_step sk c (ClipPath p o1 aa) = canvas_clipPath sk p o1 aa c"
| "canvas_step sk c (Draw d) =
     (let x = hd (cv_stack c) in emit (Drawn (draw_record sk d) (cv_attrs c) (fr_matrix x) (fr_clips x)) c)"

definition canvas_run :: "skia \<Rightarrow> dl_call list \<Rightarrow> canvas" where
  "canvas_run sk calls = foldl (canvas_step sk) canvas_init calls"

text \<open>At the end everything saved is restored.\<close>

definition finished :: "skia \<Rightarrow> canvas \<Rightarrow> canvas" where
  "finished sk c = foldl (canvas_step sk) c (replicate (length (cv_stack c) - 1) Restore)"

section \<open>What Skia promises\<close>

text \<open>
  A translation by nothing, a scaling by one, a turn by full circles, a skew by nothing and the identity
  leave a matrix as it is.
\<close>

definition lawful :: "skia \<Rightarrow> bool" where
  "lawful sk \<longleftrightarrow>
     (\<forall>x y m. float_eq x 0 \<longrightarrow> float_eq y 0 \<longrightarrow> preTranslate sk x y m = m) \<and>
     (\<forall>x y m. float_eq x float_one \<longrightarrow> float_eq y float_one \<longrightarrow> preScale sk x y m = m) \<and>
     (\<forall>d m. float_eq (SkScalarMod sk d float_360) 0 \<longrightarrow> preConcat sk m (RotateDeg sk d) = m) \<and>
     (\<forall>x y m. float_eq x 0 \<longrightarrow> float_eq y 0 \<longrightarrow> preConcat sk m (SkewMatrix sk x y) = m) \<and>
     (\<forall>a b c d e f m. float_eq a float_one \<longrightarrow> float_eq b 0 \<longrightarrow> float_eq c 0 \<longrightarrow> float_eq d 0 \<longrightarrow>
        float_eq e float_one \<longrightarrow> float_eq f 0 \<longrightarrow> preConcat sk m (affine a b c d e f) = m)"

section \<open>Attributes that are taken to be the same\<close>

text \<open>The builder does not record a value that compares equal to the one before.\<close>

definition same_copy :: "('a \<Rightarrow> 'a \<Rightarrow> bool res) \<Rightarrow> 'a option \<Rightarrow> 'a option \<Rightarrow> bool" where
  "same_copy eq x y \<longleftrightarrow> x = y \<or> Equals_copy eq x y = Inr True"

definition same_float :: "SkScalar \<Rightarrow> SkScalar \<Rightarrow> bool" where
  "same_float x y \<longleftrightarrow> x = y \<or> float_eq x y"

definition same_attrs :: "attrs \<Rightarrow> attrs \<Rightarrow> bool" where
  "same_attrs a b \<longleftrightarrow> (let p = fst a; q = fst b in
     isAntiAlias p = isAntiAlias q \<and> isDither p = isDither q \<and> isInvertColors p = isInvertColors q \<and>
     strokeCap p = strokeCap q \<and> strokeJoin p = strokeJoin q \<and> drawStyle p = drawStyle q \<and>
     paint_color p = paint_color q \<and> same_float (strokeWidth p) (strokeWidth q) \<and>
     same_float (strokeMiter p) (strokeMiter q) \<and>
     same_copy color_source_eq (colorSource p) (colorSource q) \<and>
     same_copy color_filter_eq (colorFilter p) (colorFilter q) \<and>
     same_copy image_filter_eq (imageFilter p) (imageFilter q) \<and>
     same_copy path_effect_eq (pathEffect p) (pathEffect q) \<and>
     same_copy mask_filter_eq (maskFilter p) (maskFilter q) \<and>
     snd a = snd b \<and> (snd a = None \<longrightarrow> blendMode p = blendMode q))"

fun same_event :: "event \<Rightarrow> event \<Rightarrow> bool" where
  "same_event (Drawn d a m cs) (Drawn d' a' m' cs') = (d = d' \<and> same_attrs a a' \<and> m = m' \<and> cs = cs')"
| "same_event (Layer_Begins r w f a m cs) (Layer_Begins r' w' f' a' m' cs') =
     (r = r' \<and> w = w' \<and> f = f' \<and> same_attrs a a' \<and> m = m' \<and> cs = cs')"
| "same_event Layer_Ends Layer_Ends = True"
| "same_event _ _ = False"

lemma same_attrs_refl [simp]: "same_attrs a a"
  by (simp add: same_attrs_def same_copy_def same_float_def Let_def)

end
