(* ===== verification/Dl_Attr_Steps.thy ===== *)
theory Dl_Attr_Steps
  imports Dl_Canvas
begin

text \<open>
  The setters of the builder in one form: a call that changes the attributes is recorded and changes them as
  it says, another leaves everything as it is. Left out is a color set as a color source, which the builder
  turns into a color without taking back the source recorded before.
\<close>

definition base_attrs :: "builder \<Rightarrow> attrs" where
  "base_attrs b = (current b, current_blender b)"

definition with_attrs :: "attrs \<Rightarrow> builder \<Rightarrow> builder" where
  "with_attrs a b = b\<lparr>current := fst a, current_blender := snd a\<rparr>"

definition attrs_compatible :: "attrs \<Rightarrow> bool" where
  "attrs_compatible a \<longleftrightarrow> colorFilter (fst a) = None \<and> \<not> isInvertColors (fst a) \<and> snd a = None \<and>
     IsOpacityCompatible (blendMode (fst a))"

fun color_color_source :: "attr_call \<Rightarrow> bool" where
  "color_color_source (setColorSource (Some (ColorColorSource c))) = True"
| "color_color_source _ = False"

lemmas setter_defs = do_setAntiAlias_def do_setDither_def do_setStyle_def do_setColor_def do_setStrokeWidth_def
  do_setStrokeMiter_def do_setStrokeCap_def do_setStrokeJoin_def do_setColorSource_def do_setColorFilter_def
  do_setInvertColors_def do_setBlendMode_def do_setBlender_def do_setPathEffect_def do_setMaskFilter_def
  do_setImageFilter_def onSetAntiAlias_def onSetDither_def onSetStyle_def onSetColor_def onSetStrokeWidth_def
  onSetStrokeMiter_def onSetStrokeCap_def onSetStrokeJoin_def onSetColorSource_def onSetColorFilter_def
  onSetInvertColors_def onSetBlendMode_def onSetBlender_def onSetPathEffect_def onSetMaskFilter_def
  onSetImageFilter_def push_attr_def updating_compatibility_def if_different_def on_paint_def NotEquals_def

text \<open>Whether a call changes the attributes, and the record it is then worth.\<close>

fun attr_changes :: "skia \<Rightarrow> attr_call \<Rightarrow> attrs \<Rightarrow> bool res" where
  "attr_changes sk (setAntiAlias v) a = Inr (isAntiAlias (fst a) \<noteq> v)"
| "attr_changes sk (setDither v) a = Inr (isDither (fst a) \<noteq> v)"
| "attr_changes sk (setStyle v) a = Inr (drawStyle (fst a) \<noteq> v)"
| "attr_changes sk (setColor v) a = Inr (paint_color (fst a) \<noteq> v)"
| "attr_changes sk (setStrokeWidth v) a = Inr (\<not> float_eq (strokeWidth (fst a)) v)"
| "attr_changes sk (setStrokeMiter v) a = Inr (\<not> float_eq (strokeMiter (fst a)) v)"
| "attr_changes sk (setStrokeCap v) a = Inr (strokeCap (fst a) \<noteq> v)"
| "attr_changes sk (setStrokeJoin v) a = Inr (strokeJoin (fst a) \<noteq> v)"
| "attr_changes sk (setColorSource v) a = NotEquals color_source_eq (colorSource (fst a)) v"
| "attr_changes sk (setColorFilter v) a = NotEquals color_filter_eq (colorFilter (fst a)) v"
| "attr_changes sk (setInvertColors v) a = Inr (isInvertColors (fst a) \<noteq> v)"
| "attr_changes sk (setBlendMode m) a = Inr (snd a \<noteq> None \<or> blendMode (fst a) \<noteq> m)"
| "attr_changes sk (setBlender None) a = Inr (snd a \<noteq> None \<or> blendMode (fst a) \<noteq> kSrcOver)"
| "attr_changes sk (setBlender (Some k)) a = Inr (snd a \<noteq> Some k \<and>
     (case asBlendMode sk k of Some m \<Rightarrow> snd a \<noteq> None \<or> blendMode (fst a) \<noteq> m | None \<Rightarrow> True))"
| "attr_changes sk (setPathEffect v) a = NotEquals path_effect_eq (pathEffect (fst a)) v"
| "attr_changes sk (setMaskFilter v) a = NotEquals mask_filter_eq (maskFilter (fst a)) v"
| "attr_changes sk (setImageFilter v) a = NotEquals image_filter_eq (imageFilter (fst a)) v"

fun attr_record :: "skia \<Rightarrow> attr_call \<Rightarrow> attr_op" where
  "attr_record sk (setAntiAlias v) = SetAntiAliasOp v"
| "attr_record sk (setDither v) = SetDitherOp v"
| "attr_record sk (setStyle v) = SetStyleOp v"
| "attr_record sk (setColor v) = SetColorOp v"
| "attr_record sk (setStrokeWidth v) = SetStrokeWidthOp v"
| "attr_record sk (setStrokeMiter v) = SetStrokeMiterOp v"
| "attr_record sk (setStrokeCap v) = SetStrokeCapOp v"
| "attr_record sk (setStrokeJoin v) = SetStrokeJoinOp v"
| "attr_record sk (setColorSource v) = (case v of None \<Rightarrow> ClearColorSourceOp | Some s \<Rightarrow>
     (case s of ImageColorSource _ _ _ _ _ \<Rightarrow> SetImageColorSourceOp s
      | RuntimeEffectColorSource _ _ _ \<Rightarrow> SetRuntimeEffectColorSourceOp s
      | UnknownColorSource k \<Rightarrow> SetSkColorSourceOp k | _ \<Rightarrow> SetPodColorSourceOp s))"
| "attr_record sk (setColorFilter v) = (case v of None \<Rightarrow> ClearColorFilterOp | Some f \<Rightarrow>
     (case f of UnknownColorFilter k \<Rightarrow> SetSkColorFilterOp k | _ \<Rightarrow> SetPodColorFilterOp f))"
| "attr_record sk (setInvertColors v) = SetInvertColorsOp v"
| "attr_record sk (setBlendMode m) = SetBlendModeOp m"
| "attr_record sk (setBlender v) = (case v of None \<Rightarrow> SetBlendModeOp kSrcOver | Some k \<Rightarrow>
     (case asBlendMode sk k of Some m \<Rightarrow> SetBlendModeOp m | None \<Rightarrow> SetBlenderOp k))"
| "attr_record sk (setPathEffect v) = (case v of None \<Rightarrow> ClearPathEffectOp | Some e \<Rightarrow>
     (case e of DashPathEffect _ _ \<Rightarrow> SetPodPathEffectOp e | UnknownPathEffect k \<Rightarrow> SetSkPathEffectOp k))"
| "attr_record sk (setMaskFilter v) = (case v of None \<Rightarrow> ClearMaskFilterOp | Some f \<Rightarrow>
     (case f of BlurMaskFilter _ _ _ \<Rightarrow> SetPodMaskFilterOp f | UnknownMaskFilter k \<Rightarrow> SetSkMaskFilterOp k))"
| "attr_record sk (setImageFilter v) = (case v of None \<Rightarrow> ClearImageFilterOp | Some f \<Rightarrow>
     (case f of ComposeImageFilter _ _ \<Rightarrow> SetSharedImageFilterOp f | LocalMatrixImageFilter _ _ \<Rightarrow> SetSharedImageFilterOp f
      | ColorFilterImageFilter _ \<Rightarrow> SetSharedImageFilterOp f | UnknownImageFilter k \<Rightarrow> SetSkImageFilterOp k
      | _ \<Rightarrow> SetPodImageFilterOp f))"

fun touches_opacity :: "attr_call \<Rightarrow> bool" where
  "touches_opacity (setColorFilter _) = True"
| "touches_opacity (setInvertColors _) = True"
| "touches_opacity (setBlendMode _) = True"
| "touches_opacity (setBlender _) = True"
| "touches_opacity _ = False"

definition push_attrs :: "skia \<Rightarrow> attr_call \<Rightarrow> builder \<Rightarrow> builder res" where
  "push_attrs sk a b =
     bindr (push sk (AttrOp (attr_record sk a)) 0 (with_attrs (attr_set sk a (base_attrs b)) b))
       (\<lambda>b. Inr (if touches_opacity a then UpdateCurrentOpacityCompatibility b else b))"

lemma update_order: "b\<lparr>current_blender := k, current := p\<rparr> = b\<lparr>current := p, current_blender := k\<rparr>"
  by (cases b) simp

lemma attr_step_eq:
  assumes "\<not> color_color_source a"
  shows "attr_step sk a b = bindr (attr_changes sk a (base_attrs b)) (\<lambda>c. if c then push_attrs sk a b else Inr b)"
proof (cases a)
  case (setColorSource v)
  with assms show ?thesis by (cases v; cases "the v")
   (simp_all add: setter_defs base_attrs_def with_attrs_def push_attrs_def cong del: if_weak_cong)
next
  case (setColorFilter v)
  then show ?thesis by (cases v; cases "the v")
   (simp_all add: setter_defs base_attrs_def with_attrs_def push_attrs_def cong del: if_weak_cong)
next
  case (setPathEffect v)
  then show ?thesis by (cases v; cases "the v")
   (simp_all add: setter_defs base_attrs_def with_attrs_def push_attrs_def cong del: if_weak_cong)
next
  case (setMaskFilter v)
  then show ?thesis by (cases v; cases "the v")
   (simp_all add: setter_defs base_attrs_def with_attrs_def push_attrs_def cong del: if_weak_cong)
next
  case (setImageFilter v)
  then show ?thesis by (cases v; cases "the v")
   (simp_all add: setter_defs base_attrs_def with_attrs_def push_attrs_def cong del: if_weak_cong)
next
  case (setBlender v)
  then show ?thesis by (cases v; cases "asBlendMode sk (the v)")
   (simp_all add: setter_defs base_attrs_def with_attrs_def push_attrs_def blend_with_def update_order cong del: if_weak_cong)
qed (simp_all add: setter_defs base_attrs_def with_attrs_def push_attrs_def blend_with_def update_order cong del: if_weak_cong)

lemma attr_set_record: "\<not> color_color_source a \<Longrightarrow> attr_set sk (dispatch_attr (attr_record sk a)) = attr_set sk a"
  by (rule ext, cases a) (auto split: option.splits DlColorSource.splits DlColorFilter.splits DlPathEffect.splits
     DlMaskFilter.splits DlImageFilter.splits elim: color_color_source.elims)

section \<open>Recorded attributes and those asked for\<close>

text \<open>A blender that is one of the modes is never kept as a blender.\<close>

definition blender_ok :: "skia \<Rightarrow> attrs \<Rightarrow> bool" where
  "blender_ok sk a \<longleftrightarrow> (case snd a of None \<Rightarrow> True | Some k \<Rightarrow> asBlendMode sk k = None)"

lemma blender_ok_attr_set: "blender_ok sk x \<Longrightarrow> blender_ok sk (attr_set sk a x)"
  by (cases "(sk, a, x)" rule: attr_set.cases) (auto simp: blender_ok_def blend_with_def split: option.splits)

lemma same_copy_unchanged: "NotEquals eq x v = Inr False \<Longrightarrow> same_copy eq x v"
  by (auto simp: NotEquals_def same_copy_def bindr_eq_Inr)

lemma unchanged_attrs:
  assumes "attr_changes sk a x = Inr False" and "blender_ok sk x" and "same_attrs x d"
  shows "same_attrs x (attr_set sk a d)"
proof (cases a)
  case (setBlender v)
  with assms show ?thesis
    by (cases v) (auto simp: same_attrs_def Let_def blend_with_def blender_ok_def split: option.splits)
qed (use assms in \<open>cases d; auto simp: same_attrs_def Let_def blend_with_def same_copy_unchanged same_float_def\<close>)+

lemma changed_attrs: "same_attrs x d \<Longrightarrow> same_attrs (attr_set sk a x) (attr_set sk a d)"
proof (cases a)
  case (setBlender v)
  assume "same_attrs x d"
  with setBlender show ?thesis
    by (cases v) (auto simp: same_attrs_def Let_def blend_with_def split: option.splits)
qed (cases x; cases d; auto simp: same_attrs_def Let_def blend_with_def same_copy_def same_float_def)+

lemma attrs_compatible_update:
  assumes "current_opacity_compatibility b = attrs_compatible (base_attrs b)"
  shows "(if touches_opacity a then attrs_compatible (attr_set sk a (base_attrs b)) else current_opacity_compatibility b)
    = attrs_compatible (attr_set sk a (base_attrs b))"
  using assms by (cases a) (auto simp: attrs_compatible_def base_attrs_def)

end
