(* ===== verification/Dl_Replay.thy ===== *)
theory Dl_Replay
  imports Dl_Attr_Steps
begin

text \<open>
  The list that the builder records draws what the calls drew: a simulation between the builder, the canvas
  that takes the calls and the canvas that takes the records. Layers whose \<open>save\<close> is not recorded yet are
  missing on the second canvas.
\<close>

section \<open>Calls that need the save\<close>

definition push_flushed :: "skia \<Rightarrow> dl_op \<Rightarrow> nat \<Rightarrow> (layer \<Rightarrow> layer) \<Rightarrow> builder \<Rightarrow> builder res" where
  "push_flushed sk op1 inc g b =
     bindr (checkForDeferredSave sk b) (\<lambda>b. bindr (push sk op1 inc b) (\<lambda>b. Inr (on_layer g b)))"

definition clip_layer :: "skia \<Rightarrow> SkRect option \<Rightarrow> layer \<Rightarrow> layer" where
  "clip_layer sk bounds l = (case bounds of None \<Rightarrow> l | Some r \<Rightarrow> l\<lparr>clip_bounds :=
     (case rect_intersect sk (clip_bounds l) (mapRect sk (layer_matrix l) r) of
        Some r \<Rightarrow> r | None \<Rightarrow> \<lparr>fLeft = 0, fTop = 0, fRight = 0, fBottom = 0\<rparr>)\<rparr>)"

lemma push_transform_flushed:
  "push_transform sk op1 inc f b = push_flushed sk op1 inc (\<lambda>l. l\<lparr>layer_matrix := f (layer_matrix l)\<rparr>) b"
  by (simp add: push_transform_def push_flushed_def on_matrix_def)

lemma push_clip_flushed: "push_clip sk op1 bounds b = push_flushed sk op1 1 (clip_layer sk bounds) b"
proof -
  have "on_layer (clip_layer sk None) b = b" for b :: builder
    by (simp add: on_layer_def clip_layer_def split: list.splits)
  moreover have "on_layer (clip_layer sk (Some r)) b = intersect sk r b" for r and b :: builder
    by (simp add: on_layer_def clip_layer_def intersect_def split: list.splits)
  ultimately show ?thesis by (cases bounds) (simp_all add: push_clip_def push_flushed_def)
qed

text \<open>What such a call does to the top of the builder's stack and to that of a canvas.\<close>

definition keeps_flags :: "(layer \<Rightarrow> layer) \<Rightarrow> bool" where
  "keeps_flags g \<longleftrightarrow> (\<forall>l. has_layer (g l) = has_layer l \<and> has_deferred_save_op (g l) = has_deferred_save_op l \<and>
     cannot_inherit_opacity (g l) = cannot_inherit_opacity l \<and> has_compatible_op (g l) = has_compatible_op l \<and>
     save_layer_offset (g l) = save_layer_offset l)"

definition matched :: "layer \<Rightarrow> frame \<Rightarrow> bool" where
  "matched l x \<longleftrightarrow> layer_matrix l = fr_matrix x \<and> has_layer l = fr_layer x"

definition flush_effect :: "skia \<Rightarrow> dl_call \<Rightarrow> dl_op \<Rightarrow> nat \<Rightarrow> (layer \<Rightarrow> layer) \<Rightarrow> bool" where
  "flush_effect sk c op1 inc g \<longleftrightarrow> keeps_flags g \<and>
     (\<exists>h. (\<forall>cv. canvas_step sk cv c = on_top h cv \<and> canvas_step sk cv (dispatch op1) = on_top h cv) \<and>
          (\<forall>l x. matched l x \<longrightarrow> matched (g l) (h x)) \<and>
          (\<forall>x y. fr_layer (h x) = fr_layer x \<and>
             (fr_matrix x = fr_matrix y \<and> fr_clips x = fr_clips y \<longrightarrow>
              fr_matrix (h x) = fr_matrix (h y) \<and> fr_clips (h x) = fr_clips (h y))))"

fun flushing :: "dl_call \<Rightarrow> bool" where
  "flushing (Translate x y) = True"
| "flushing (Scale x y) = True"
| "flushing (Rotate d) = True"
| "flushing (Skew x y) = True"
| "flushing (Transform2DAffine a b c d e f) = True"
| "flushing (TransformFullPerspective m) = True"
| "flushing TransformReset = True"
| "flushing (ClipRect r c a) = True"
| "flushing (ClipRRect r c a) = True"
| "flushing (ClipPath p c a) = True"
| "flushing _ = False"

lemma flush_effect_transform:
  assumes "\<And>cv. canvas_step sk cv c = transformed f cv" and "\<And>cv. canvas_step sk cv (dispatch op1) = transformed f cv"
  shows "flush_effect sk c op1 inc (\<lambda>l. l\<lparr>layer_matrix := f (layer_matrix l)\<rparr>)"
  using assms by (auto simp: flush_effect_def keeps_flags_def transformed_def matched_def
      intro!: exI [of _ "\<lambda>x. x\<lparr>fr_matrix := f (fr_matrix x)\<rparr>"])

lemma flush_effect_clip:
  assumes "\<And>cv. canvas_step sk cv c = clipped k cv" and "\<And>cv. canvas_step sk cv (dispatch op1) = clipped k cv"
  shows "flush_effect sk c op1 inc (clip_layer sk bounds)"
  using assms by (auto simp: flush_effect_def keeps_flags_def clipped_def matched_def clip_layer_def split: option.splits
      intro!: exI [of _ "\<lambda>x. x\<lparr>fr_clips := fr_clips x @ [k (fr_matrix x)]\<rparr>"])

text \<open>Either nothing is recorded, and the call has no effect on a canvas, or the record has the effect of the call.\<close>

definition skips_or_flushes :: "skia \<Rightarrow> dl_call \<Rightarrow> builder \<Rightarrow> bool" where
  "skips_or_flushes sk c b \<longleftrightarrow>
     builder_step sk b c = Inr b \<and> (\<forall>cv. canvas_step sk cv c = cv) \<or>
     (\<exists>op1 inc g. builder_step sk b c = push_flushed sk op1 inc g b \<and> flush_effect sk c op1 inc g)"

lemma transformed_id: "(\<And>m. f m = m) \<Longrightarrow> transformed f cv = cv"
  by (cases cv) (auto simp: transformed_def on_top_def split: list.splits)

lemma skips_or_flushes_transform:
  assumes "builder_step sk b c = (if p then push_transform sk op1 inc f b else Inr b)"
    and "\<And>cv. p \<Longrightarrow> canvas_step sk cv c = transformed f cv"
    and "\<And>cv. p \<Longrightarrow> canvas_step sk cv (dispatch op1) = transformed f cv"
    and "\<And>cv. \<not> p \<Longrightarrow> canvas_step sk cv c = cv"
  shows "skips_or_flushes sk c b"
proof (cases p)
  case True
  with assms flush_effect_transform [of sk c f op1 inc] show ?thesis
    unfolding skips_or_flushes_def push_transform_flushed by fastforce
qed (use assms in \<open>auto simp: skips_or_flushes_def\<close>)

lemma affine_skips_or_flushes:
  assumes "lawful sk"
  shows "skips_or_flushes sk (Transform2DAffine a1 b1 c1 d1 e1 f1) b"
  by (rule skips_or_flushes_transform [OF _ , where p = "list_all SkScalarIsFinite [a1, d1, b1, e1, c1, f1] \<and>
         \<not> (float_eq a1 float_one \<and> float_eq b1 0 \<and> float_eq c1 0 \<and>
            float_eq d1 0 \<and> float_eq e1 float_one \<and> float_eq f1 0)"])
    (use assms in \<open>auto simp: transform2DAffine_def canvas_affine_def lawful_def intro!: transformed_id\<close>)

lemma skips_or_flushes_as:
  assumes "skips_or_flushes sk c' b" and "builder_step sk b c = builder_step sk b c'"
    and "\<And>cv. canvas_step sk cv c = canvas_step sk cv c'"
  shows "skips_or_flushes sk c b"
  using assms by (auto simp: skips_or_flushes_def flush_effect_def)

lemma is_affine_eq:
  "is_affine m \<longleftrightarrow> float_eq (m ! 2) 0 \<and> float_eq (m ! 6) 0 \<and>
     float_eq (m ! 8) 0 \<and> float_eq (m ! 9) 0 \<and> float_eq (m ! 10) float_one \<and> float_eq (m ! 11) 0 \<and>
     float_eq (m ! 12) 0 \<and> float_eq (m ! 13) 0 \<and> float_eq (m ! 14) 0 \<and> float_eq (m ! 15) float_one"
  by (simp add: is_affine_def)

lemma perspective_skips_or_flushes:
  assumes "lawful sk"
  shows "skips_or_flushes sk (TransformFullPerspective m) b"
proof (cases "is_affine m")
  case True
  show ?thesis
    by (rule skips_or_flushes_as [OF affine_skips_or_flushes [OF assms, of "m ! 0" "m ! 1" "m ! 3" "m ! 4" "m ! 5" "m ! 7"]])
      (use True in \<open>simp_all add: transformFullPerspective_def is_affine_eq\<close>)
next
  case False
  show ?thesis
    by (rule skips_or_flushes_transform [where p = "list_all SkScalarIsFinite m"])
      (use False in \<open>auto simp: transformFullPerspective_def is_affine_eq [symmetric]\<close>)
qed

lemma skips_or_flushes_clip:
  assumes "builder_step sk b c = push_clip sk op bounds b"
    and "\<And>cv. canvas_step sk cv c = clipped k cv" and "\<And>cv. canvas_step sk cv (dispatch op) = clipped k cv"
  shows "skips_or_flushes sk c b"
  using flush_effect_clip [OF assms(2,3), of 1 bounds] assms(1)
  unfolding skips_or_flushes_def push_clip_flushed by blast

lemma clipRect_skips_or_flushes: "skips_or_flushes sk (ClipRect r o1 aa) b"
proof (cases "rect_isFinite sk r")
  case True
  show ?thesis
  proof (cases o1)
    case kIntersectClip
    show ?thesis
      by (rule skips_or_flushes_clip [where k = "\<lambda>m. ClipOfRect m r o1 aa" and op = "ClipIntersectRectOp r aa" and bounds = "Some r"])
        (use True kIntersectClip in \<open>auto simp: clipRect_def canvas_clipRect_def\<close>)
  next
    case kDifferenceClip
    show ?thesis
      by (rule skips_or_flushes_clip [where k = "\<lambda>m. ClipOfRect m r o1 aa" and op = "ClipDifferenceRectOp r aa" and bounds = "None"])
        (use True kDifferenceClip in \<open>auto simp: clipRect_def canvas_clipRect_def\<close>)
  qed
qed (simp add: skips_or_flushes_def clipRect_def canvas_clipRect_def)

lemma clipRRect_skips_or_flushes: "skips_or_flushes sk (ClipRRect r o1 aa) b"
proof (cases "rrect_isRect sk r")
  case True
  show ?thesis
    by (rule skips_or_flushes_as [OF clipRect_skips_or_flushes [of sk "rrect_rect sk r" o1 aa]])
      (use True in \<open>simp_all add: clipRRect_def canvas_clipRRect_def\<close>)
next
  case False
  show ?thesis
  proof (cases o1)
    case kIntersectClip
    show ?thesis
      by (rule skips_or_flushes_clip [where k = "\<lambda>m. ClipOfRRect m r o1 aa" and op = "ClipIntersectRRectOp r aa" and bounds = "Some (rrect_getBounds sk r)"])
        (use False kIntersectClip in \<open>auto simp: clipRRect_def canvas_clipRRect_def\<close>)
  next
    case kDifferenceClip
    show ?thesis
      by (rule skips_or_flushes_clip [where k = "\<lambda>m. ClipOfRRect m r o1 aa" and op = "ClipDifferenceRRectOp r aa" and bounds = "None"])
        (use False kDifferenceClip in \<open>auto simp: clipRRect_def canvas_clipRRect_def\<close>)
  qed
qed

lemma clipPath_skips_or_flushes: "skips_or_flushes sk (ClipPath p o1 aa) b"
proof -
  let ?path = "isInverseFillType sk p \<or> path_isRect sk p = None \<and> path_isOval sk p = None \<and> path_isRRect sk p = None"
  consider "?path"
    | r where "\<not> isInverseFillType sk p" "path_isRect sk p = Some r"
    | r where "\<not> isInverseFillType sk p" "path_isRect sk p = None" "path_isOval sk p = Some r"
    | r where "\<not> isInverseFillType sk p" "path_isRect sk p = None" "path_isOval sk p = None" "path_isRRect sk p = Some r"
    by (cases "path_isRect sk p"; cases "path_isOval sk p"; cases "path_isRRect sk p") auto
  then show ?thesis
  proof cases
    case 1
  show ?thesis
  proof (cases o1)
    case kIntersectClip
    show ?thesis
      by (rule skips_or_flushes_clip [where k = "\<lambda>m. ClipOfPath m p o1 aa" and op = "ClipIntersectPathOp p aa" and bounds = "if \<not> isInverseFillType sk p then Some (path_getBounds sk p) else None"])
        (use 1 kIntersectClip in \<open>auto simp: clipPath_def push_path_clip_def canvas_clipPath_def\<close>)
  next
    case kDifferenceClip
    show ?thesis
      by (rule skips_or_flushes_clip [where k = "\<lambda>m. ClipOfPath m p o1 aa" and op = "ClipDifferencePathOp p aa" and bounds = "if isInverseFillType sk p then Some (path_getBounds sk p) else None"])
        (use 1 kDifferenceClip in \<open>auto simp: clipPath_def push_path_clip_def canvas_clipPath_def\<close>)
  qed
  next
    case (2 r)
    then show ?thesis
      by (intro skips_or_flushes_as [OF clipRect_skips_or_flushes [of sk r o1 aa]])
        (simp_all add: clipPath_def canvas_clipPath_def)
  next
    case (3 r)
    then show ?thesis
      by (intro skips_or_flushes_as [OF clipRRect_skips_or_flushes [of sk "rrect_setOval sk r" o1 aa]])
        (simp_all add: clipPath_def canvas_clipPath_def)
  next
    case (4 r)
    then show ?thesis
      by (intro skips_or_flushes_as [OF clipRRect_skips_or_flushes [of sk r o1 aa]])
        (simp_all add: clipPath_def canvas_clipPath_def)
  qed
qed

lemma flushing_steps:
  assumes "lawful sk" and "flushing c"
  shows "skips_or_flushes sk c b"
proof (cases c)
  case (Translate x y)
  show ?thesis unfolding Translate
    by (rule skips_or_flushes_transform
        [where p = "SkScalarIsFinite x \<and> SkScalarIsFinite y \<and> (\<not> float_eq x 0 \<or> \<not> float_eq y 0)"])
      (use assms in \<open>auto simp: translate_def lawful_def intro!: transformed_id\<close>)
next
  case (Scale x y)
  show ?thesis unfolding Scale
    by (rule skips_or_flushes_transform
        [where p = "SkScalarIsFinite x \<and> SkScalarIsFinite y \<and> (\<not> float_eq x float_one \<or> \<not> float_eq y float_one)"])
      (use assms in \<open>auto simp: scale_def lawful_def intro!: transformed_id\<close>)
next
  case (Rotate d)
  show ?thesis unfolding Rotate
    by (rule skips_or_flushes_transform [where p = "\<not> float_eq (SkScalarMod sk d float_360) 0"])
      (use assms in \<open>auto simp: rotate_deg_def lawful_def intro!: transformed_id\<close>)
next
  case (Skew x y)
  show ?thesis unfolding Skew
    by (rule skips_or_flushes_transform
        [where p = "SkScalarIsFinite x \<and> SkScalarIsFinite y \<and> (\<not> float_eq x 0 \<or> \<not> float_eq y 0)"])
      (use assms in \<open>auto simp: skew_def lawful_def intro!: transformed_id\<close>)
next
  case TransformReset
  show ?thesis unfolding TransformReset
    by (rule skips_or_flushes_transform [where p = True]) (auto simp: transformReset_def)
qed (use assms in \<open>simp_all add: affine_skips_or_flushes perspective_skips_or_flushes clipRect_skips_or_flushes
       clipRRect_skips_or_flushes clipPath_skips_or_flushes\<close>)

section \<open>Drawing calls\<close>

text \<open>The checks of a drawing method, and what it does beside recording.\<close>

fun draw_ok :: "draw_call \<Rightarrow> bool" where
  "draw_ok (drawPoints m ps) = (length ps < kMaxDrawPointsCount)"
| "draw_ok (drawImageLattice i l d f a) = (fRectTypes l = None \<or> fColors l \<noteq> None)"
| "draw_ok _ = True"

fun draw_compatible :: "draw_op \<Rightarrow> bool \<Rightarrow> DlPaint \<Rightarrow> bool" where
  "draw_compatible (DrawColorOp c m) ok p = IsOpacityCompatible m"
| "draw_compatible (DrawPathOp x) ok p = (ok \<and> (drawStyle p = kFill \<or> float_less 0 (strokeWidth p)))"
| "draw_compatible (DrawArcOp r s w c) ok p = (ok \<and> (c \<longrightarrow> drawStyle p = kFill \<or> float_less 0 (strokeWidth p)))"
| "draw_compatible (DrawPointsOp ps) ok p = False"
| "draw_compatible (DrawLinesOp ps) ok p = False"
| "draw_compatible (DrawPolygonOp ps) ok p = False"
| "draw_compatible (DrawSkVerticesOp v m) ok p = False"
| "draw_compatible (DrawVerticesOp v m) ok p = False"
| "draw_compatible (DrawImageOp i q s) ok p = True"
| "draw_compatible (DrawImageRectOp i s d m a c) ok p = (a \<longrightarrow> ok)"
| "draw_compatible (DrawImageNineOp i c d f) ok p = True"
| "draw_compatible (DrawImageLatticeOp i xs ys cells s d f a) ok p = (a \<longrightarrow> ok)"
| "draw_compatible (DrawAtlasOp x a) ok p = False"
| "draw_compatible (DrawAtlasCulledOp x c a) ok p = False"
| "draw_compatible (DrawSkPictureOp x a) ok p = (a \<longrightarrow> ok)"
| "draw_compatible (DrawSkPictureMatrixOp x m a) ok p = (a \<longrightarrow> ok)"
| "draw_compatible (DrawDisplayListOp d) ok p = dl_can_apply_group_opacity d"
| "draw_compatible (DrawShadowOp x c e d) ok p = False"
| "draw_compatible (DrawShadowTransparentOccluderOp x c e d) ok p = False"
| "draw_compatible _ ok p = ok"

fun count_nested :: "skia \<Rightarrow> draw_op \<Rightarrow> builder \<Rightarrow> builder" where
  "count_nested sk (DrawSkPictureOp x a) b = b\<lparr>nested_op_count := nested_op_count b + (int (approximateOpCount sk x) - 1),
     nested_bytes := nested_bytes b + approximateBytesUsed sk x\<rparr>"
| "count_nested sk (DrawSkPictureMatrixOp x m a) b =
     b\<lparr>nested_op_count := nested_op_count b + (int (approximateOpCount sk x) - 1),
       nested_bytes := nested_bytes b + approximateBytesUsed sk x\<rparr>"
| "count_nested sk (DrawDisplayListOp d) b =
     b\<lparr>nested_op_count := nested_op_count b + (int (dl_op_count_nested d) - 1),
       nested_bytes := nested_bytes b + dl_bytes_nested d\<rparr>"
| "count_nested sk _ b = b"

definition draw_effect :: "skia \<Rightarrow> draw_op \<Rightarrow> builder \<Rightarrow> builder" where
  "draw_effect sk d b =
     UpdateLayerOpacityCompatibility (draw_compatible d (current_opacity_compatibility b) (current b)) (count_nested sk d b)"

lemmas draw_defs = do_drawColor_def do_drawPaint_def do_drawLine_def do_drawRect_def do_drawOval_def do_drawCircle_def
  do_drawRRect_def do_drawDRRect_def do_drawPath_def do_drawArc_def do_drawPoints_def do_drawSkVertices_def
  do_drawVertices_def do_drawImage_def do_drawImageRect_def do_drawImageNine_def do_drawImageLattice_def
  do_drawAtlas_def do_drawPicture_def do_drawDisplayList_def do_drawTextBlob_def do_drawShadow_def

lemmas check_defs = CheckLayerOpacityCompatibility_def CheckLayerOpacityCompatibility_mode_def
  CheckLayerOpacityHairlineCompatibility_def

lemma draw_step_eq:
  "draw_step sk c b =
     bindr (ensure DCheck_Failed (draw_ok c)) (\<lambda>_. push_draw sk (draw_record sk c) (draw_effect sk (draw_record sk c)) b)"
  by (cases c) (auto simp: draw_defs check_defs push_draw_def draw_effect_def Let_def fun_eq_iff
      split: option.splits PointMode.splits)

lemma draw_record_again: "draw_record sk (dispatch_draw (draw_record sk c)) = draw_record sk c"
proof (cases c)
  case (drawRRect r)
  then show ?thesis by simp
qed (auto split: PointMode.splits option.splits)

lemma draw_ok_again: "draw_ok c \<Longrightarrow> draw_ok (dispatch_draw (draw_record sk c))"
  by (cases c) (auto split: PointMode.splits option.splits)

end
