(* ===== verification/Dl_Safety.thy ===== *)
theory Dl_Safety
  imports Dl_Replay
begin

text \<open>
  The memory of the builder along a whole recording: the counts agree with the records, the offset kept for a
  layer is that of the record of a layer, so that setting its option writes nothing else, and a recording
  stops only at a check of the code.
\<close>

section \<open>Comparisons that end\<close>

fun no_local_matrix :: "DlImageFilter \<Rightarrow> bool" where
  "no_local_matrix (ComposeImageFilter p q) \<longleftrightarrow>
     (case p of None \<Rightarrow> True | Some (i, f) \<Rightarrow> no_local_matrix f) \<and>
     (case q of None \<Rightarrow> True | Some (i, f) \<Rightarrow> no_local_matrix f)"
| "no_local_matrix (LocalMatrixImageFilter m p) \<longleftrightarrow> False"
| "no_local_matrix _ \<longleftrightarrow> True"

definition ends :: "bool res \<Rightarrow> bool" where
  "ends r \<longleftrightarrow> (\<exists>v. r = Inr v)"

lemma ends_bind: "ends r \<Longrightarrow> (\<And>v. r = Inr v \<Longrightarrow> ends (f v)) \<Longrightarrow> ends (bindr r f)"
  by (auto simp: ends_def)

lemma Equals_ends:
  assumes "\<And>p x q y. a = Some (p, x) \<Longrightarrow> b = Some (q, y) \<Longrightarrow> ends (eq x y)"
  shows "ends (Equals eq a b)"
  using assms by (auto simp: Equals_def ends_def split: option.splits)

lemma image_filter_ends: "no_local_matrix f \<Longrightarrow> no_local_matrix g \<Longrightarrow> ends (image_filter_eq f g)"
proof (induction f g rule: image_filter_eq.induct)
  case (5 p q p' q')
  have "ends (Equals image_filter_eq p p')" using 5 by (auto intro!: Equals_ends)
  moreover have "ends (Equals image_filter_eq q q')" if "Equals image_filter_eq p p' = Inr True"
    using "5.IH"(2) [OF that] "5.prems" by (auto intro!: Equals_ends)
  ultimately show ?case by (auto intro!: ends_bind simp: ends_def)
next
  case (6 p p')
  have "ends (Equals color_filter_eq p p')" by (rule Equals_ends) (simp add: color_filter_eq_iff ends_def)
  then show ?case by simp
qed (auto simp: ends_def)

lemma color_source_ends: "ends (color_source_eq f g)"
  by (cases "(f, g)" rule: color_source_eq.cases) (auto simp: ends_def)

lemma mask_filter_ends: "ends (mask_filter_eq f g)"
  by (cases "(f, g)" rule: mask_filter_eq.cases) (auto simp: ends_def)

lemma path_effect_ends: "ends (path_effect_eq f g)"
  by (cases "(f, g)" rule: path_effect_eq.cases) (auto simp: ends_def)

lemma NotEquals_ends:
  assumes "\<And>x y. a = Some x \<Longrightarrow> b = Some y \<Longrightarrow> ends (eq x y)"
  shows "ends (NotEquals eq a b)"
  unfolding NotEquals_def Equals_copy_def
  by (rule ends_bind) (use assms in \<open>auto simp: ends_def split: option.splits\<close>)

lemma Equals_fault:
  "Equals eq a b = Inl e \<Longrightarrow> \<exists>p x q y. a = Some (p, x) \<and> b = Some (q, y) \<and> eq x y = Inl e"
  by (auto simp: Equals_def split: option.splits if_splits)

lemma image_filter_fault: "image_filter_eq f g = Inl e \<Longrightarrow> e = DCheck_Failed"
proof (induction f g rule: image_filter_eq.induct)
  case (5 p q p' q')
  then show ?case by (auto simp: bindr_eq_Inl split: if_splits dest: Equals_fault)
next
  case (6 p p')
  then show ?case by (auto simp: color_filter_eq_iff dest: Equals_fault)
next
  case (7 m p m' p')
  then show ?case by (simp only: local_matrix_filters_fail) simp
qed auto

section \<open>The invariant\<close>

fun counted :: "dl_op \<Rightarrow> bool" where
  "counted (AttrOp a) \<longleftrightarrow> False"
| "counted TransformResetOp \<longleftrightarrow> False"
| "counted _ \<longleftrightarrow> True"

definition records_ok :: "(dl_op \<times> nat) list \<Rightarrow> nat \<Rightarrow> nat \<Rightarrow> bool" where
  "records_ok st n k \<longleftrightarrow> n = bytes st \<and> k = length (filter (\<lambda>x. counted (fst x)) st) \<and>
     (\<forall>x\<in>set st. 0 < snd x \<and> snd x < 2 ^ 24 \<and> 8 dvd snd x)"

definition mem_ok :: "builder \<Rightarrow> bool" where
  "mem_ok b \<longleftrightarrow> records_ok (storage b) (used b) (op_count b) \<and> used b \<le> allocated b \<and>
     (\<forall>l\<in>set (layer_stack b). has_layer l \<longrightarrow> is_layer_at (storage b) (save_layer_offset l))"

text \<open>
  A step from there is good if it fails only at a check and leads there again; under the hypotheses of
  \<open>sure\<close> it does not fail.
\<close>

definition good :: "bool \<Rightarrow> builder res \<Rightarrow> bool" where
  "good sure r \<longleftrightarrow> (case r of Inl e \<Rightarrow> e = DCheck_Failed \<and> \<not> sure
     | Inr b \<Rightarrow> mem_ok b \<and> (sure \<longrightarrow> pred_option no_local_matrix (imageFilter (current b))))"

definition small_records :: "skia \<Rightarrow> bool" where
  "small_records sk \<longleftrightarrow> (\<forall>x. op_size sk x < 2 ^ 24)"

lemma good_simps [simp]:
  "good s (Inr b) \<longleftrightarrow> mem_ok b \<and> (s \<longrightarrow> pred_option no_local_matrix (imageFilter (current b)))"
  "good s (Inl e) \<longleftrightarrow> e = DCheck_Failed \<and> \<not> s"
  by (simp_all add: good_def)

lemma good_bind:
  assumes "good s r" and "\<And>b. good s (Inr b) \<Longrightarrow> r = Inr b \<Longrightarrow> good s (f b)"
  shows "good s (bindr r f)"
  using assms by (cases r) auto

lemma good_test:
  assumes "\<And>e. r = Inl e \<Longrightarrow> e = DCheck_Failed \<and> \<not> s" and "\<And>v. r = Inr v \<Longrightarrow> good s (f v)"
  shows "good s (bindr r f)"
  using assms by (cases r) auto

lemma set_distribute_counted: "set_distribute x = Some y \<Longrightarrow> counted y = counted x"
  by (cases x rule: set_distribute.cases) auto

lemma patch_records:
  "patch_at off st = Inr st' \<Longrightarrow> records_ok st n k \<Longrightarrow> records_ok st' n k"
proof (induction off st arbitrary: st' n k rule: patch_at.induct)
  case (2 off x m rest)
  show ?case
  proof (cases "off = 0")
    case True
    with "2.prems" show ?thesis
      by (auto simp: records_ok_def set_distribute_counted split: option.splits)
  next
    case False
    with "2.prems" obtain r where r: "\<not> off < m" "patch_at (off - m) rest = Inr r" "st' = (x, m) # r"
      by (auto simp: bindr_eq_Inr split: if_splits)
    have "records_ok rest (bytes rest) (length (filter (\<lambda>x. counted (fst x)) rest))"
      using "2.prems"(2) by (auto simp: records_ok_def)
    from "2.IH" [OF False r(1,2) this] show ?thesis using "2.prems"(2) r(3) by (auto simp: records_ok_def)
  qed
qed simp

lemma op_size_8: "8 dvd op_size sk x"
  by (simp add: op_size_def SkAlignPtr_def)

lemma good_push:
  assumes "good s (Inr b)" and "s \<longrightarrow> small_records sk" and "inc = (if counted x then 1 else 0)"
  shows "good s (push sk x inc b)"
proof (cases "op_size sk x < 2 ^ 24")
  case True
  then obtain b' where p: "push sk x inc b = Inr b'" by (simp add: push_eq Let_def)
  let ?n = "op_size sk x"
  note b' = push_Inr [OF p]
  have parts: "storage b' = storage b @ [(x, ?n)]" "used b' = used b + ?n" "op_count b' = op_count b + inc"
    "layer_stack b' = layer_stack b" "current b' = current b"
    by (subst b'(1), simp)+
  have "records_ok (storage b @ [(x, ?n)]) (used b + ?n) (op_count b + inc)"
    using assms(1,3) True by (auto simp: mem_ok_def records_ok_def op_size_pos op_size_8)
  then have "mem_ok b'"
    using assms(1) b'(3) by (auto simp: mem_ok_def parts is_layer_at_append)
  then show ?thesis using assms(1) by (simp add: p parts)
next
  case False
  then show ?thesis using assms(2) by (auto simp: push_eq Let_def small_records_def)
qed

definition keeps_layer :: "(layer \<Rightarrow> layer) \<Rightarrow> bool" where
  "keeps_layer g \<longleftrightarrow> (\<forall>l. has_layer (g l) = has_layer l \<and> save_layer_offset (g l) = save_layer_offset l)"

lemma mem_ok_on_layer: "keeps_layer g \<Longrightarrow> mem_ok b \<Longrightarrow> mem_ok (on_layer g b)"
  by (cases "layer_stack b") (auto simp: mem_ok_def on_layer_def keeps_layer_def)

lemma current_on_layer [simp]: "current (on_layer g b) = current b"
  by (simp add: on_layer_def)

lemma keeps_layer_marks [simp]:
  "keeps_layer mark_incompatible" "keeps_layer add_compatible_op"
  "keeps_layer (\<lambda>l. l\<lparr>has_deferred_save_op := v\<rparr>)"
  by (simp_all add: keeps_layer_def mark_incompatible_def add_compatible_op_def)

lemma good_opacity:
  "good s (Inr b) \<Longrightarrow> good s (Inr (UpdateLayerOpacityCompatibility ok b))"
  "good s (Inr b) \<Longrightarrow> good s (Inr (UpdateCurrentOpacityCompatibility b))"
  by (auto simp: UpdateLayerOpacityCompatibility_def UpdateCurrentOpacityCompatibility_def mem_ok_on_layer)
    (auto simp: mem_ok_def)

lemma good_attrs:
  assumes "good s (Inr b)" and "s \<longrightarrow> pred_option no_local_matrix (imageFilter (fst a))"
  shows "good s (Inr (with_attrs a b))"
  using assms by (simp add: mem_ok_def with_attrs_def)

section \<open>Attributes\<close>

fun comparable :: "attr_call \<Rightarrow> bool" where
  "comparable (setImageFilter v) \<longleftrightarrow> pred_option no_local_matrix v"
| "comparable _ \<longleftrightarrow> True"

lemma attr_changes_fault: "attr_changes sk a x = Inl e \<Longrightarrow> e = DCheck_Failed"
  by (cases "(sk, a, x)" rule: attr_changes.cases)
    (auto simp: NotEquals_def Equals_copy_def bindr_eq_Inl color_filter_eq_iff split: option.splits
      dest: image_filter_fault color_source_ends [unfolded ends_def, THEN exE] elim!: color_source_eq.elims mask_filter_eq.elims path_effect_eq.elims)

lemma attr_changes_ends:
  "comparable a \<Longrightarrow> pred_option no_local_matrix (imageFilter (fst x)) \<Longrightarrow> ends (attr_changes sk a x)"
  by (cases "(sk, a, x)" rule: attr_changes.cases)
    (auto intro!: NotEquals_ends image_filter_ends color_source_ends mask_filter_ends path_effect_ends
      simp: color_filter_eq_iff, auto simp: ends_def)

lemma attr_set_image:
  "comparable a \<Longrightarrow> pred_option no_local_matrix (imageFilter (fst x)) \<Longrightarrow>
   pred_option no_local_matrix (imageFilter (fst (attr_set sk a x)))"
  by (cases "(sk, a, x)" rule: attr_set.cases) (auto simp: blend_with_def split: option.splits)

lemma good_attr_step:
  assumes "good s (Inr b)" and "s \<longrightarrow> small_records sk \<and> comparable a"
  shows "good s (attr_step sk a b)"
proof (cases "color_color_source a")
  case False
  show ?thesis unfolding attr_step_eq [OF False]
  proof (rule good_test)
    fix e assume "attr_changes sk a (base_attrs b) = Inl e"
    then show "e = DCheck_Failed \<and> \<not> s"
      using attr_changes_fault attr_changes_ends [of a "base_attrs b" sk] assms by (auto simp: ends_def base_attrs_def)
  next
    fix v
    have "good s (push_attrs sk a b)" unfolding push_attrs_def
      by (rule good_bind [OF good_push [OF good_attrs]])
        (use assms attr_set_image [of a "base_attrs b" sk] in
          \<open>auto simp: base_attrs_def mem_ok_on_layer UpdateCurrentOpacityCompatibility_def mem_ok_def\<close>)
    then show "good s (if v then push_attrs sk a b else Inr b)" using assms(1) by simp
  qed
next
  case True
  then obtain c where a: "a = setColorSource (Some (ColorColorSource c))"
    by (cases a rule: color_color_source.cases) auto
  have g: "good s (Inr (on_paint f (on_paint g b)))"
    if "\<And>p. imageFilter (f p) = imageFilter p" "\<And>p. imageFilter (g p) = imageFilter p" for f g
    using assms(1) that by (simp add: on_paint_def mem_ok_def)
  have g': "good s (Inr (on_paint h (on_paint f (on_paint g b))))"
    if "\<And>p. imageFilter (f p) = imageFilter p" "\<And>p. imageFilter (g p) = imageFilter p"  "\<And>p. imageFilter (h p) = imageFilter p" for f g h
    using assms(1) that by (simp add: on_paint_def mem_ok_def)
  show ?thesis
    unfolding a attr_step.simps do_setColorSource_def if_different_def
  proof (rule good_test)
    fix e assume "NotEquals color_source_eq (colorSource (current b)) (Some (ColorColorSource c)) = Inl e"
    then show "e = DCheck_Failed \<and> \<not> s"
      using NotEquals_ends [where eq = color_source_eq and a = "colorSource (current b)" and b = "Some (ColorColorSource c)"]
      by (simp add: color_source_ends) (simp add: ends_def)
  next
    fix v
    show "good s (if v then onSetColorSource sk (Some (ColorColorSource c)) b else Inr b)"
      using assms g g' by (simp add: onSetColorSource_def Let_def do_setColor_def onSetColor_def push_attr_def good_push del: good_simps)
  qed
qed


section \<open>The other calls\<close>

lemma good_flush:
  assumes "good s (Inr b)" and "s \<longrightarrow> small_records sk" and "keeps_layer g" and "inc = (if counted x then 1 else 0)"
  shows "good s (push_flushed sk x inc g b)"
proof -
  have "good s (checkForDeferredSave sk b)"
    unfolding checkForDeferredSave_def
    using assms by (auto intro!: good_bind good_push mem_ok_on_layer simp del: good_simps) (auto simp: mem_ok_on_layer)
  then show ?thesis unfolding push_flushed_def
    by (rule good_bind) (rule good_bind [OF good_push], use assms in \<open>auto simp: mem_ok_on_layer\<close>)
qed

text \<open>
  A transform or a clip is either dropped or recorded after the save it needs, and the record is a call
  that is recorded in the same way.
\<close>

definition recorded :: "skia \<Rightarrow> dl_op \<Rightarrow> nat \<Rightarrow> (layer \<Rightarrow> layer) \<Rightarrow> bool" where
  "recorded sk x inc g \<longleftrightarrow> keeps_flags g \<and> inc = (if counted x then 1 else 0) \<and> set_distribute x = None \<and>
     x \<noteq> SaveOp \<and> x \<noteq> RestoreOp \<and> (\<forall>b. builder_step sk b (dispatch x) = push_flushed sk x inc g b)"

definition flush_call :: "skia \<Rightarrow> dl_call \<Rightarrow> bool" where
  "flush_call sk c \<longleftrightarrow> (\<forall>b. builder_step sk b c = Inr b) \<or>
     (\<exists>x inc g. recorded sk x inc g \<and> (\<forall>b. builder_step sk b c = push_flushed sk x inc g b))"

lemma flush_call_transform:
  assumes "\<And>b. builder_step sk b c = (if p then push_transform sk x inc f b else Inr b)"
    and "\<And>b. p \<Longrightarrow> builder_step sk b (dispatch x) = push_transform sk x inc f b"
    and "inc = (if counted x then 1 else 0) \<and> set_distribute x = None \<and> x \<noteq> SaveOp \<and> x \<noteq> RestoreOp"
  shows "flush_call sk c"
proof (cases p)
  case True
  then have "recorded sk x inc (\<lambda>l. l\<lparr>layer_matrix := f (layer_matrix l)\<rparr>)"
    using assms(2,3) by (simp add: recorded_def keeps_flags_def push_transform_flushed)
  then show ?thesis using True assms(1) unfolding flush_call_def push_transform_flushed by fastforce
qed (simp add: flush_call_def assms(1))

lemma flush_call_clip:
  assumes "\<And>b. builder_step sk b c = push_clip sk x r b" and "\<And>b. builder_step sk b (dispatch x) = push_clip sk x r b"
    and "counted x \<and> set_distribute x = None \<and> x \<noteq> SaveOp \<and> x \<noteq> RestoreOp"
  shows "flush_call sk c"
proof -
  have "recorded sk x 1 (clip_layer sk r)"
    using assms(2,3) by (simp add: recorded_def keeps_flags_def push_clip_flushed clip_layer_def split: option.splits)
  then show ?thesis using assms(1) unfolding flush_call_def push_clip_flushed by blast
qed

lemma flush_call_as: "flush_call sk c' \<Longrightarrow> (\<And>b. builder_step sk b c = builder_step sk b c') \<Longrightarrow> flush_call sk c"
  by (simp add: flush_call_def)

lemma flush_affine: "flush_call sk (Transform2DAffine a1 b1 c1 d1 e1 f1)"
  by (rule flush_call_transform [where p = "list_all SkScalarIsFinite [a1, d1, b1, e1, c1, f1] \<and>
         \<not> (float_eq a1 float_one \<and> float_eq b1 0 \<and> float_eq c1 0 \<and>
            float_eq d1 0 \<and> float_eq e1 float_one \<and> float_eq f1 0)"]) (auto simp: transform2DAffine_def)

lemma flush_perspective: "flush_call sk (TransformFullPerspective m)"
proof (cases "is_affine m")
  case True
  then show ?thesis
    by (intro flush_call_as [OF flush_affine]) (simp add: transformFullPerspective_def is_affine_eq)
next
  case False
  then show ?thesis
    by (intro flush_call_transform [where p = "list_all SkScalarIsFinite m"])
      (auto simp: transformFullPerspective_def is_affine_eq [symmetric])
qed

lemma flush_clipRect: "flush_call sk (ClipRect r o1 aa)"
proof (cases "rect_isFinite sk r")
  case True
  then show ?thesis
    by (intro flush_call_clip [where r = "if o1 = kIntersectClip then Some r else None"
          and x = "if o1 = kIntersectClip then ClipIntersectRectOp r aa else ClipDifferenceRectOp r aa"])
      (cases o1; simp add: clipRect_def)+
qed (simp add: flush_call_def clipRect_def)

lemma flush_clipRRect: "flush_call sk (ClipRRect r o1 aa)"
proof (cases "rrect_isRect sk r")
  case True
  then show ?thesis by (intro flush_call_as [OF flush_clipRect]) (simp add: clipRRect_def)
next
  case False
  then show ?thesis
    by (intro flush_call_clip [where r = "if o1 = kIntersectClip then Some (rrect_getBounds sk r) else None"
          and x = "if o1 = kIntersectClip then ClipIntersectRRectOp r aa else ClipDifferenceRRectOp r aa"])
      (cases o1; simp add: clipRRect_def)+
qed

lemma flush_push_path:
  assumes "\<And>b. builder_step sk b (ClipPath p o1 aa) = push_path_clip sk p o1 aa b"
  shows "flush_call sk (ClipPath p o1 aa)"
  using assms
  by (intro flush_call_clip [where r = "if (o1 = kIntersectClip) = isInverseFillType sk p then None else Some (path_getBounds sk p)"
        and x = "if o1 = kIntersectClip then ClipIntersectPathOp p aa else ClipDifferencePathOp p aa"])
    (cases o1; simp add: push_path_clip_def)+

lemma flush_clipPath: "flush_call sk (ClipPath p o1 aa)"
proof (cases "isInverseFillType sk p")
  case True
  then show ?thesis by (intro flush_push_path) (simp add: clipPath_def)
next
  case False
  show ?thesis
  proof (cases "path_isRect sk p")
    case (Some r)
    then show ?thesis using False by (intro flush_call_as [OF flush_clipRect]) (simp add: clipPath_def)
  next
    case no_rect: None
    show ?thesis
    proof (cases "path_isOval sk p")
      case (Some r)
      then show ?thesis using False no_rect by (intro flush_call_as [OF flush_clipRRect]) (simp add: clipPath_def)
    next
      case no_oval: None
      show ?thesis
      proof (cases "path_isRRect sk p")
        case (Some r)
        then show ?thesis using False no_rect no_oval by (intro flush_call_as [OF flush_clipRRect]) (simp add: clipPath_def)
      next
        case None
        then show ?thesis using False no_rect no_oval by (intro flush_push_path) (simp add: clipPath_def)
      qed
    qed
  qed
qed

lemma flush_calls: "flushing c \<Longrightarrow> flush_call sk c"
proof (cases c)
  case (Translate x y)
  show ?thesis unfolding Translate
    by (rule flush_call_transform [where p = "SkScalarIsFinite x \<and> SkScalarIsFinite y \<and> (\<not> float_eq x 0 \<or> \<not> float_eq y 0)"])
      (auto simp: translate_def)
next
  case (Scale x y)
  show ?thesis unfolding Scale
    by (rule flush_call_transform [where p = "SkScalarIsFinite x \<and> SkScalarIsFinite y \<and>
          (\<not> float_eq x float_one \<or> \<not> float_eq y float_one)"]) (auto simp: scale_def)
next
  case (Rotate d)
  show ?thesis unfolding Rotate
    by (rule flush_call_transform [where p = "\<not> float_eq (SkScalarMod sk d float_360) 0"]) (auto simp: rotate_deg_def)
next
  case (Skew x y)
  show ?thesis unfolding Skew
    by (rule flush_call_transform [where p = "SkScalarIsFinite x \<and> SkScalarIsFinite y \<and> (\<not> float_eq x 0 \<or> \<not> float_eq y 0)"])
      (auto simp: skew_def)
next
  case TransformReset
  show ?thesis unfolding TransformReset
    by (rule flush_call_transform [where p = True]) (auto simp: transformReset_def)
qed (simp_all add: flush_affine flush_perspective flush_clipRect flush_clipRRect flush_clipPath)

lemma good_flushing:
  assumes "good s (Inr b)" "s \<longrightarrow> small_records sk" "flushing c"
  shows "good s (builder_step sk b c)"
  using flush_calls [OF assms(3), of sk]
proof (unfold flush_call_def, elim disjE exE conjE)
  fix x inc g
  assume r: "recorded sk x inc g" and e: "\<forall>b. builder_step sk b c = push_flushed sk x inc g b"
  show ?thesis unfolding e [rule_format]
    by (rule good_flush [OF assms(1,2)]) (use r in \<open>auto simp: recorded_def keeps_flags_def keeps_layer_def\<close>)
qed (use assms(1) in simp)

lemma good_restore:
  assumes "good s (Inr b)" and "s \<longrightarrow> small_records sk"
  shows "good s (restore sk b)"
proof -
  have leave: "good s (leave_layer l (b\<lparr>layer_stack := ls\<rparr>))" if g: "good s (Inr b)" and st: "layer_stack b = l # ls" for b l ls
  proof (cases "has_layer l \<and> \<not> cannot_inherit_opacity l")
    case True
    then obtain z where z: "patch_at (save_layer_offset l) (storage b) = Inr z"
      using g st by (auto simp: mem_ok_def is_layer_at_def)
    have "mem_ok (b\<lparr>layer_stack := ls, storage := z\<rparr>)"
      using g st patch_records [OF z] is_layer_at_patch [OF z] by (auto simp: mem_ok_def)
    then show ?thesis using True z g by (simp add: leave_layer_def)
  next
    case False
    have "mem_ok (b\<lparr>layer_stack := ls\<rparr>)" using g st by (auto simp: mem_ok_def)
    then show ?thesis using False g by (auto simp: leave_layer_def intro!: mem_ok_on_layer)
  qed
  have "layer_stack b' = layer_stack b" if "push sk RestoreOp 1 b = Inr b'" for b'
    by (subst push_Inr(1) [OF that]) simp
  moreover have "layer_stack b = hd (layer_stack b) # tl (layer_stack b)" if "1 < length (layer_stack b)"
    using that by (cases "layer_stack b") auto
  ultimately show ?thesis
    unfolding restore_def using assms
    by (auto intro!: good_bind [OF good_push] leave simp del: good_simps)
qed

lemma mem_ok_push_layer: "mem_ok b \<Longrightarrow> hl \<longrightarrow> is_layer_at (storage b) off \<Longrightarrow> mem_ok (push_layer off hl b)"
  by (simp add: mem_ok_def push_layer_def LayerInfo_def)

lemma storage_opacity [simp]: "storage (UpdateLayerOpacityCompatibility v b) = storage b"
  "current (UpdateLayerOpacityCompatibility v b) = current b"
  by (simp_all add: UpdateLayerOpacityCompatibility_def on_layer_def)

lemma good_saveLayer:
  assumes "good s (Inr b)" and "s \<longrightarrow> small_records sk"
  shows "good s (saveLayer sk r opts f b)"
proof -
  let ?x = "layer_record r (without_optimizations opts) f"
  have g: "good s (push sk ?x 1 b)"
    by (rule good_push [OF assms]) (cases r; cases f; simp add: layer_record_def)
  have "is_layer_at (storage b') (used b)" if p: "push sk ?x 1 b = Inr b'" for b'
  proof -
    have "used b = bytes (storage b)" "\<forall>x\<in>set (storage b). 0 < snd x"
      using assms(1) by (auto simp: mem_ok_def records_ok_def)
    then show ?thesis
      using patch_at_end [OF _ set_distribute_layer_record, of "storage b" r "without_optimizations opts" f "op_size sk ?x"]
      by (subst push_Inr(1) [OF p]) (auto simp: is_layer_at_def)
  qed
  then have "good s (Inr (push_layer (used b) True (CheckLayerOpacityCompatibility v b')))"
    if "good s (Inr b')" "push sk ?x 1 b = Inr b'" for b' v
    using that good_opacity(1) [OF that(1)] by (simp add: CheckLayerOpacityCompatibility_def mem_ok_push_layer) (simp add: push_layer_def)
  then show ?thesis
    unfolding saveLayer_def Let_def by (intro good_bind [OF g]) (simp add: good_opacity del: good_simps)
qed

lemma count_nested_frame [simp]:
  "mem_ok (count_nested sk x b) = mem_ok b" "current (count_nested sk x b) = current b"
  by (cases x; simp add: mem_ok_def)+

lemma good_draw:
  assumes "good s (Inr b)" and "s \<longrightarrow> small_records sk \<and> draw_ok d"
  shows "good s (draw_step sk d b)"
proof -
  have "good s (push_draw sk x (draw_effect sk x) b)" for x
    unfolding push_draw_def
    by (rule good_bind [OF good_push])
      (use assms in \<open>auto simp: draw_effect_def UpdateLayerOpacityCompatibility_def intro!: mem_ok_on_layer\<close>)
  then show ?thesis unfolding draw_step_eq
    by (intro good_test) (use assms(2) in \<open>auto simp: ensure_def simp del: good_simps split: if_splits\<close>)
qed

fun call_ok :: "dl_call \<Rightarrow> bool" where
  "call_ok (Attr a) \<longleftrightarrow> comparable a"
| "call_ok (Draw d) \<longleftrightarrow> draw_ok d"
| "call_ok _ \<longleftrightarrow> True"

lemma good_step:
  assumes "good s (Inr b)" and "s \<longrightarrow> small_records sk \<and> call_ok c"
  shows "good s (builder_step sk b c)"
proof (cases "flushing c")
  case True
  then show ?thesis using good_flushing assms by simp
next
  case False
  show ?thesis
  proof (cases c)
    case Save
    have "mem_ok (save b)" using assms(1)
      unfolding save_def by (intro mem_ok_on_layer) (auto simp: push_layer_def mem_ok_def LayerInfo_def)
    then show ?thesis using Save assms(1) by (simp add: save_def push_layer_def)
  qed (use assms False in \<open>simp_all add: good_attr_step good_saveLayer good_restore good_draw del: good_simps\<close>)
qed

lemma good_run:
  "good s (Inr b) \<Longrightarrow> s \<longrightarrow> small_records sk \<and> list_all call_ok calls \<Longrightarrow> good s (run_ops (builder_step sk) b calls)"
proof (induction calls arbitrary: b)
  case (Cons c calls)
  show ?case unfolding run_ops.simps by (rule good_bind [OF good_step]) (use Cons in auto)
qed simp

lemma good_restore_loop: "good s (Inr b) \<Longrightarrow> s \<longrightarrow> small_records sk \<Longrightarrow> good s (restore_loop sk n k b)"
proof (induction n arbitrary: b)
  case (Suc n)
  have "good s (bindr (restore sk b) (restore_loop sk n k))"
    by (rule good_bind [OF good_restore]) (use Suc in auto)
  then show ?case using Suc.prems(1) by (simp del: good_simps)
qed simp

lemma good_init: "good s (Inr (DisplayListBuilder cull))"
  by (simp add: mem_ok_def records_ok_def DisplayListBuilder_def LayerInfo_def DlPaint_default_def)

lemma good_recording:
  assumes "s \<longrightarrow> small_records sk \<and> list_all call_ok calls"
  shows "good s (bindr (run_ops (builder_step sk) (DisplayListBuilder cull) calls)
     (\<lambda>b. restore_loop sk (length (layer_stack b)) 1 b))"
  by (rule good_bind [OF good_run [OF good_init assms] good_restore_loop]) (use assms in auto)

lemma record_calls_eq:
  "record_calls sk cull calls =
     bindr (bindr (run_ops (builder_step sk) (DisplayListBuilder cull) calls) (\<lambda>b. restore_loop sk (length (layer_stack b)) 1 b))
       (\<lambda>b. Inr \<lparr>dl_storage = storage b, dl_byte_count = used b, dl_op_count = op_count b,
           dl_nested_byte_count = nested_bytes b, dl_nested_op_count = nested_op_count b,
           dl_bounds_cull = cull_rect b, can_apply_group_opacity = \<not> cannot_inherit_opacity (current_layer b)\<rparr>)"
  by (simp add: record_calls_def Build_def bindr_assoc)

text \<open>
  C9: bounds and memory safety. Whatever is recorded, the builder fails only at one of its own checks, so that the option
  of a layer is never written anywhere but into the record of a layer; and of a list that is recorded the byte
  count is the sum of the sizes of its records, each a multiple of eight below 2 to the 24, and the number of
  operations is that of the records that neither set an attribute nor reset the transform.
\<close>

theorem recorded_memory_adds_up:
  "case record_calls sk cull calls of Inl e \<Rightarrow> e = DCheck_Failed
   | Inr dl \<Rightarrow> dl_byte_count dl = sum_list (map snd (dl_storage dl)) \<and>
       dl_op_count dl = length (filter (counted \<circ> fst) (dl_storage dl)) \<and>
       list_all (\<lambda>(x, n). 0 < n \<and> n < 2 ^ 24 \<and> 8 dvd n) (dl_storage dl)"
proof -
  from good_recording [of False sk calls cull] show ?thesis
    unfolding record_calls_eq
    by (cases "bindr (run_ops (builder_step sk) (DisplayListBuilder cull) calls)
        (\<lambda>b. restore_loop sk (length (layer_stack b)) 1 b)")
      (auto simp: mem_ok_def records_ok_def bytes_def comp_def list_all_iff)
qed

text \<open>
  C10: recording succeeds when its checks allow it: with records below the limit of their size field, no lattice with
  rectangle types but no colors, no more points than the limit, and no local-matrix image filter (which
  cannot be compared), every sequence of calls gives a list.
\<close>

theorem recording_succeeds:
  assumes "small_records sk" and "list_all call_ok calls"
  shows "\<exists>dl. record_calls sk cull calls = Inr dl"
  using good_recording [of True sk calls cull] assms unfolding record_calls_eq
  by (cases "bindr (run_ops (builder_step sk) (DisplayListBuilder cull) calls)
        (\<lambda>b. restore_loop sk (length (layer_stack b)) 1 b)") auto

section \<open>A concrete run\<close>

text \<open>A stand-in for Skia whose transforms set entries of the matrix.\<close>

definition demo_skia :: skia where
  "demo_skia = \<lparr>SkScalarMod = (\<lambda>x y. if float_eq x y then 0 else x),
     preTranslate = (\<lambda>x y m. if float_eq x 0 \<and> float_eq y 0 then m else m[3 := x, 7 := y]),
     preScale = (\<lambda>x y m. if float_eq x float_one \<and> float_eq y float_one then m else m[0 := x, 5 := y]),
     preConcat = (\<lambda>m n. if list_all2 float_eq n SkM44_identity then m else n),
     RotateDeg = (\<lambda>d. if float_eq d 0 \<or> float_eq d float_360 then SkM44_identity else SkM44_identity[0 := 0, 1 := d]),
     SkewMatrix = (\<lambda>x y. SkM44_identity[1 := x, 4 := y]),
     mapRect = (\<lambda>m r. r), invert = Some, rect_intersect = (\<lambda>r s. Some s),
     rect_isFinite = (\<lambda>r. list_all SkScalarIsFinite [fLeft r, fTop r, fRight r, fBottom r]), roundOut = id,
     rrect_isRect = (\<lambda>_. False), rrect_isOval = (\<lambda>_. False),
     rrect_rect = (\<lambda>_. \<lparr>fLeft = 0, fTop = 0, fRight = 0, fBottom = 0\<rparr>),
     rrect_getBounds = (\<lambda>_. \<lparr>fLeft = 0, fTop = 0, fRight = 0, fBottom = 0\<rparr>), rrect_setOval = undefined,
     isInverseFillType = (\<lambda>_. False), path_isRect = (\<lambda>_. None), path_isOval = (\<lambda>_. None), path_isRRect = (\<lambda>_. None),
     path_getBounds = (\<lambda>_. \<lparr>fLeft = 0, fTop = 0, fRight = 0, fBottom = 0\<rparr>), asBlendMode = (\<lambda>_. None),
     approximateOpCount = (\<lambda>_. 1), approximateBytesUsed = (\<lambda>_. 0), payload_bytes = (\<lambda>_. 20)\<rparr>"

definition demo_rect :: SkRect where
  "demo_rect = \<lparr>fLeft = 0, fTop = 0, fRight = float_one, fBottom = float_one\<rparr>"

text \<open>A translation under a save that nothing else needs, a repeated color, a layer, and a save left open.\<close>

definition demo_calls :: "dl_call list" where
  "demo_calls = [Save, Attr (setColor 7), Draw (drawRect demo_rect), Translate 0 0, Restore,
     SaveLayer None \<lparr>renders_with_attributes = True, can_distribute_opacity = False\<rparr> None,
     Attr (setColor 7), Save, Save, Translate float_one 0, ClipRect demo_rect kIntersectClip True, Draw drawPaint, Restore, Restore,
     Restore, Save, Rotate float_one, Draw (drawOval demo_rect)]"

lemma demo_small: "small_records demo_skia"
  by (simp add: small_records_def op_size_def SkAlignPtr_def demo_skia_def)

lemma demo_calls_ok: "list_all call_ok demo_calls"
  by (simp add: demo_calls_def)

lemma demo_no_colors: "\<forall>a. Attr a \<in> set demo_calls \<longrightarrow> \<not> color_color_source a"
  by (auto simp: demo_calls_def)

lemma demo_recorded: "\<exists>dl. record_calls demo_skia demo_rect demo_calls = Inr dl"
  using good_recording [of True demo_skia demo_calls demo_rect] demo_small demo_calls_ok unfolding record_calls_eq
  by (cases "bindr (run_ops (builder_step demo_skia) (DisplayListBuilder demo_rect) demo_calls)
        (\<lambda>b. restore_loop demo_skia (length (layer_stack b)) 1 b)") auto

theorem recording_succeeds_witness:
  "small_records demo_skia \<and> (\<exists>dl. record_calls demo_skia demo_rect demo_calls = Inr dl)"
  using recording_succeeds [OF demo_small demo_calls_ok, of demo_rect] demo_small by simp

end
