(* ===== verification/Dl_Simulation.thy ===== *)
theory Dl_Simulation
  imports Dl_Safety
begin

text \<open>
  The simulation: after the same calls the canvas that takes the records has drawn what the canvas that
  takes the calls has drawn, and the builder knows the transform of the latter.
\<close>

section \<open>The relation\<close>

definition replay :: "skia \<Rightarrow> (dl_op \<times> nat) list \<Rightarrow> canvas" where
  "replay sk st = canvas_run sk (map (dispatch \<circ> fst) st)"

text \<open>The frames of the layers whose save is recorded.\<close>

definition kept :: "layer list \<Rightarrow> frame list \<Rightarrow> frame list" where
  "kept ls xs = map snd (filter (\<lambda>(l, x). \<not> has_deferred_save_op l) (zip ls xs))"

definition same_place :: "frame \<Rightarrow> frame \<Rightarrow> bool" where
  "same_place x y \<longleftrightarrow> fr_matrix x = fr_matrix y \<and> fr_clips x = fr_clips y"

text \<open>A layer whose save is put off has the transform and the clips of the one below it; the lowest is not such a layer.\<close>

fun deferral_ok :: "layer list \<Rightarrow> frame list \<Rightarrow> bool" where
  "deferral_ok [l] [x] \<longleftrightarrow> \<not> has_deferred_save_op l"
| "deferral_ok (l # l' # ls) (x # x' # xs) \<longleftrightarrow>
     (has_deferred_save_op l \<longrightarrow> \<not> has_layer l \<and> same_place x x') \<and> deferral_ok (l' # ls) (x' # xs)"
| "deferral_ok _ _ \<longleftrightarrow> False"

definition simulates :: "skia \<Rightarrow> canvas \<Rightarrow> layer list \<Rightarrow> attrs \<Rightarrow> canvas \<Rightarrow> bool" where
  "simulates sk c ls a d \<longleftrightarrow>
     cv_attrs c = a \<and> same_attrs a (cv_attrs d) \<and> blender_ok sk a \<and>
     list_all2 matched ls (cv_stack d) \<and> deferral_ok ls (cv_stack d) \<and>
     cv_stack c = kept ls (cv_stack d) \<and> list_all2 same_event (cv_out c) (cv_out d)"

definition sim :: "skia \<Rightarrow> builder \<Rightarrow> canvas \<Rightarrow> bool" where
  "sim sk b d \<longleftrightarrow> simulates sk (replay sk (storage b)) (layer_stack b) (base_attrs b) d"

section \<open>Stacks\<close>

lemma deferral_ok_nonempty: "deferral_ok ls xs \<Longrightarrow> ls \<noteq> [] \<and> xs \<noteq> []"
  by (cases "(ls, xs)" rule: deferral_ok.cases) auto

lemma deferral_ok_split:
  assumes "deferral_ok ls xs"
  obtains l ls' x xs' where "ls = l # ls'" "xs = x # xs'"
  using deferral_ok_nonempty [OF assms] by (metis neq_Nil_conv)

lemma kept_Cons: "kept (l # ls) (x # xs) = (if has_deferred_save_op l then kept ls xs else x # kept ls xs)"
  by (simp add: kept_def)

lemma kept_top: "deferral_ok ls xs \<Longrightarrow> \<exists>y ys. kept ls xs = y # ys \<and> same_place y (hd xs)"
proof (induction ls xs rule: deferral_ok.induct)
  case (1 l x)
  then show ?case by (simp add: kept_Cons same_place_def)
next
  case (2 l l' ls x x' xs)
  then show ?case by (auto simp: kept_Cons [of l] same_place_def)
qed auto

lemma kept_nonempty: "deferral_ok ls xs \<Longrightarrow> kept ls xs \<noteq> []"
  using kept_top [of ls xs] by auto

lemma deferral_ok_tl: "deferral_ok (l # ls) (x # xs) \<Longrightarrow> ls \<noteq> [] \<Longrightarrow> deferral_ok ls xs"
  by (cases ls; cases xs) auto

lemma deferral_ok_save:
  assumes "deferral_ok ls xs" "deferred \<longrightarrow> \<not> hl" "same_place x (hd xs)"
    "has_deferred_save_op l = deferred" "has_layer l = hl"
  shows "deferral_ok (l # ls) (x # xs)"
  using assms by (cases ls; cases xs) auto

lemma deferral_ok_top:
  assumes "deferral_ok (l # ls) (x # xs)" "\<not> has_deferred_save_op l'" 
  shows "deferral_ok (l' # ls) (x' # xs)"
  using assms by (cases ls; cases xs) auto

lemma list_all2_snoc: "list_all2 P xs ys \<Longrightarrow> P x y \<Longrightarrow> list_all2 P (xs @ [x]) (ys @ [y])"
  by (simp add: list_all2_appendI)

section \<open>Records on the canvas\<close>

lemma canvas_run_snoc: "canvas_run sk (cs @ [c]) = canvas_step sk (canvas_run sk cs) c"
  by (simp add: canvas_run_def)

lemma replay_snoc: "replay sk (st @ [(x, n)]) = canvas_step sk (replay sk st) (dispatch x)"
  by (simp add: replay_def canvas_run_snoc)

lemma replay_push: "push sk x inc b = Inr b' \<Longrightarrow> replay sk (storage b') = canvas_step sk (replay sk (storage b)) (dispatch x)"
  by (simp add: push_eq Let_def replay_snoc split: if_splits) (auto simp: replay_snoc)

lemma push_frame:
  assumes "push sk x inc b = Inr b'"
  shows "layer_stack b' = layer_stack b" "base_attrs b' = base_attrs b"
    "current_opacity_compatibility b' = current_opacity_compatibility b"
    "current b' = current b" "current_blender b' = current_blender b"
  using assms by (auto simp: push_eq Let_def base_attrs_def split: if_splits)

text \<open>The option in the record of a layer makes no difference to a canvas.\<close>

lemma dispatch_distribute:
  "set_distribute x = Some y \<Longrightarrow> canvas_step sk c (dispatch y) = canvas_step sk c (dispatch x)"
  by (cases x rule: set_distribute.cases) (auto simp: with_can_distribute_opacity_def)

lemma replay_patch:
  assumes "patch_at off st = Inr st'"
  shows "replay sk st' = replay sk st"
proof -
  have "foldl (\<lambda>c x. canvas_step sk c (dispatch (fst x))) c st' = foldl (\<lambda>c x. canvas_step sk c (dispatch (fst x))) c st" for c
    using assms
  proof (induction off st arbitrary: c st' rule: patch_at.induct)
    case (2 off x n rest)
    then show ?case
      by (auto simp: bindr_eq_Inr dispatch_distribute split: if_splits option.splits)
  qed simp
  then show ?thesis by (simp add: replay_def canvas_run_def foldl_map)
qed

section \<open>Steps of the simulation\<close>

lemma sim_init: "sim sk (DisplayListBuilder r) canvas_init"
  by (simp add: sim_def simulates_def DisplayListBuilder_def replay_def canvas_run_def canvas_init_def LayerInfo_def
      kept_def matched_def base_attrs_def blender_ok_def)

lemma sim_Attr:
  assumes "sim sk b d" and "attr_step sk a b = Inr b'" and "\<not> color_color_source a"
  shows "sim sk b' (canvas_step sk d (Attr a))"
proof -
  from assms(2) obtain changes where ch: "attr_changes sk a (base_attrs b) = Inr changes"
    and b': "(if changes then push_attrs sk a b else Inr b) = Inr b'"
    unfolding attr_step_eq [OF assms(3)] by (rule bindrE)
  have s: "same_attrs (base_attrs b) (cv_attrs d)" "blender_ok sk (base_attrs b)"
    using assms(1) by (auto simp: sim_def simulates_def)
  show ?thesis
  proof (cases changes)
    case False
    then show ?thesis
      using assms(1) b' unchanged_attrs [of sk a "base_attrs b" "cv_attrs d"] ch s by (auto simp: sim_def simulates_def)
  next
    case True
    with b' obtain b1 where p: "push sk (AttrOp (attr_record sk a)) 0 (with_attrs (attr_set sk a (base_attrs b)) b) = Inr b1"
      and b'_eq: "b' = (if touches_opacity a then UpdateCurrentOpacityCompatibility b1 else b1)"
      unfolding push_attrs_def by (auto simp: bindr_eq_Inr)
    have "storage b' = storage b1" "layer_stack b' = layer_stack b" "base_attrs b' = attr_set sk a (base_attrs b)"
      using push_frame [OF p] b'_eq by (auto simp: UpdateCurrentOpacityCompatibility_def with_attrs_def base_attrs_def)
    moreover have "replay sk (storage b1) = canvas_step sk (replay sk (storage b)) (Attr (dispatch_attr (attr_record sk a)))"
      using replay_push [OF p] by (simp add: with_attrs_def)
    ultimately show ?thesis
      using assms(1) changed_attrs [OF s(1)] blender_ok_attr_set [OF s(2)]
      by (simp add: sim_def simulates_def attr_set_record [OF assms(3)])
  qed
qed

lemma sim_Save:
  assumes "sim sk b d"
  shows "sim sk (save b) (canvas_step sk d Save)"
proof -
  have ok: "deferral_ok (layer_stack b) (cv_stack d)" "list_all2 matched (layer_stack b) (cv_stack d)"
    using assms by (auto simp: sim_def simulates_def)
  obtain l ls x xs where s: "layer_stack b = l # ls" "cv_stack d = x # xs" by (rule deferral_ok_split [OF ok(1)])
  with ok show ?thesis
    using assms
    by (auto simp: sim_def simulates_def save_def push_layer_def on_layer_def current_layer_def LayerInfo_def base_attrs_def
        kept_Cons matched_def same_place_def intro!: deferral_ok_save)
qed

text \<open>What the builder notes in a layer about opacity does not matter to the simulation.\<close>

definition keeps_place :: "(layer \<Rightarrow> layer) \<Rightarrow> bool" where
  "keeps_place g \<longleftrightarrow> (\<forall>l. layer_matrix (g l) = layer_matrix l \<and> has_layer (g l) = has_layer l \<and>
     has_deferred_save_op (g l) = has_deferred_save_op l \<and> save_layer_offset (g l) = save_layer_offset l)"

lemma keeps_place_marks [simp]: "keeps_place mark_incompatible" "keeps_place add_compatible_op"
  by (simp_all add: keeps_place_def mark_incompatible_def add_compatible_op_def)

lemma sim_on_layer:
  assumes "sim sk b d" and "keeps_place g"
  shows "sim sk (on_layer g b) d"
proof -
  have ok: "deferral_ok (layer_stack b) (cv_stack d)" using assms by (auto simp: sim_def simulates_def)
  obtain l ls x xs where s: "layer_stack b = l # ls" "cv_stack d = x # xs" by (rule deferral_ok_split [OF ok])
  have "deferral_ok (g l # ls) (x # xs)"
    using ok assms(2) s by (cases ls; cases xs) (auto simp: keeps_place_def)
  then show ?thesis
    using assms s by (auto simp: sim_def simulates_def on_layer_def keeps_place_def kept_Cons matched_def base_attrs_def)
qed

lemma sim_update_opacity: "sim sk b d \<Longrightarrow> sim sk (UpdateLayerOpacityCompatibility ok b) d"
  by (simp add: UpdateLayerOpacityCompatibility_def sim_on_layer)

lemma sim_same_parts:
  "sim sk b d \<Longrightarrow> storage b' = storage b \<Longrightarrow> layer_stack b' = layer_stack b \<Longrightarrow> base_attrs b' = base_attrs b \<Longrightarrow> sim sk b' d"
  by (simp add: sim_def)

lemma count_nested_parts:
  "storage (count_nested sk x b) = storage b" "layer_stack (count_nested sk x b) = layer_stack b"
  "base_attrs (count_nested sk x b) = base_attrs b" "current_opacity_compatibility (count_nested sk x b) = current_opacity_compatibility b"
  "used (count_nested sk x b) = used b" "allocated (count_nested sk x b) = allocated b" "op_count (count_nested sk x b) = op_count b"
  by (cases x; simp add: base_attrs_def)+

lemma sim_Draw:
  assumes "sim sk b d" and "draw_step sk c b = Inr b'"
  shows "sim sk b' (canvas_step sk d (Draw c))"
proof -
  let ?r = "draw_record sk c"
  obtain b1 where p: "push sk (DrawOp ?r) 1 b = Inr b1" and b': "b' = draw_effect sk ?r b1"
    using assms(2) by (auto simp: draw_step_eq push_draw_def bindr_eq_Inr)
  have ok: "deferral_ok (layer_stack b) (cv_stack d)" and kept: "cv_stack (replay sk (storage b)) = kept (layer_stack b) (cv_stack d)"
    using assms(1) by (auto simp: sim_def simulates_def)
  obtain y ys where top: "kept (layer_stack b) (cv_stack d) = y # ys" "same_place y (hd (cv_stack d))"
    using kept_top [OF ok] by auto
  have "sim sk b1 (canvas_step sk d (Draw c))"
    using assms(1) top push_frame [OF p] replay_push [OF p] kept
    by (auto simp: sim_def simulates_def Let_def emit_def draw_record_again same_place_def intro!: list_all2_snoc)
  then show ?thesis
    unfolding b' draw_effect_def
    by (intro sim_update_opacity sim_same_parts [OF \<open>sim sk b1 _\<close>]) (simp_all add: count_nested_parts)
qed

lemma same_place_layer: "same_place y x \<Longrightarrow> y\<lparr>fr_layer := v\<rparr> = x\<lparr>fr_layer := v\<rparr>"
  by (cases x; cases y) (simp add: same_place_def)

lemma push_layer_parts:
  "storage (push_layer off hl b) = storage b" "base_attrs (push_layer off hl b) = base_attrs b"
  by (simp_all add: push_layer_def base_attrs_def)

lemma sim_SaveLayer:
  assumes "sim sk b d" and "saveLayer sk r opts f b = Inr b'"
  shows "sim sk b' (canvas_step sk d (SaveLayer r opts f))"
proof -
  let ?o = "without_optimizations opts"
  obtain b1 where p: "push sk (layer_record r ?o f) 1 b = Inr b1"
    and b': "b' = (let b = push_layer (used b) True (CheckLayerOpacityCompatibility (renders_with_attributes ?o) b1) in
        if renders_with_attributes ?o \<and> (\<not> current_opacity_compatibility b \<or> imageFilter (current b) \<noteq> None)
        then UpdateLayerOpacityCompatibility False b else b)"
    using assms(2) unfolding saveLayer_def Let_def by (auto simp: bindr_eq_Inr)
  have ok: "deferral_ok (layer_stack b) (cv_stack d)" and kept: "cv_stack (replay sk (storage b)) = kept (layer_stack b) (cv_stack d)"
    using assms(1) by (auto simp: sim_def simulates_def)
  obtain l ls x xs where s: "layer_stack b = l # ls" "cv_stack d = x # xs" by (rule deferral_ok_split [OF ok])
  obtain y ys where top: "kept (layer_stack b) (cv_stack d) = y # ys" "same_place y x"
    using kept_top [OF ok] s by auto
  define b2 where "b2 = CheckLayerOpacityCompatibility (renders_with_attributes ?o) b1"
  define g where "g = (if \<not> renders_with_attributes ?o \<or> current_opacity_compatibility b1 then add_compatible_op else mark_incompatible)"
  have b2: "b2 = on_layer g b1" "keeps_place g"
    by (simp_all add: b2_def g_def CheckLayerOpacityCompatibility_def UpdateLayerOpacityCompatibility_def)
  then have stack: "layer_stack b2 = g l # ls" "storage b2 = storage b1" "base_attrs b2 = base_attrs b1"
    using push_frame [OF p] s by (simp_all add: on_layer_def base_attrs_def)
  have d: "dispatch (layer_record r ?o f) = SaveLayer r ?o f"
    by (cases r; cases f) (simp_all add: layer_record_def)
  have "deferral_ok (g l # ls) (x # xs)"
    using ok s b2(2) by (cases ls; cases xs) (auto simp: keeps_place_def)
  then have dok: "deferral_ok (layer_stack (push_layer (used b) True b2)) (x\<lparr>fr_layer := True\<rparr> # x # xs)"
    by (simp add: push_layer_def stack current_layer_def LayerInfo_def same_place_def)
  have stack': "layer_stack (push_layer (used b) True b2) = LayerInfo (layer_matrix (g l)) (clip_bounds (g l)) (used b) True # g l # ls"
    by (simp add: push_layer_def stack current_layer_def)
  have match: "matched l x" "list_all2 matched ls xs" using assms(1) s by (auto simp: sim_def simulates_def)
  let ?C = "replay sk (storage b)"
  have C: "replay sk (storage b1) = emit (Layer_Begins r (renders_with_attributes opts) f (base_attrs b) (fr_matrix x) (fr_clips x))
      (?C\<lparr>cv_stack := x\<lparr>fr_layer := True\<rparr> # kept (layer_stack b) (cv_stack d)\<rparr>)"
  proof -
    have "renders_with_attributes ?o = renders_with_attributes opts" by (simp add: without_optimizations_def)
    moreover have "cv_attrs ?C = base_attrs b" using assms(1) by (simp add: sim_def simulates_def)
    ultimately show ?thesis
      using replay_push [OF p, unfolded d] kept top(2) same_place_layer [OF top(2), of True]
      by (simp add: Let_def top(1) same_place_def)
  qed
  have "kept (layer_stack (push_layer (used b) True b2)) (x\<lparr>fr_layer := True\<rparr> # x # xs)
      = x\<lparr>fr_layer := True\<rparr> # kept (layer_stack b) (cv_stack d)"
    using b2(2) by (simp add: stack' kept_Cons s LayerInfo_def keeps_place_def)
  moreover have "list_all2 matched (layer_stack (push_layer (used b) True b2)) (x\<lparr>fr_layer := True\<rparr> # x # xs)"
    using match b2(2) by (simp add: stack' LayerInfo_def matched_def keeps_place_def)
  ultimately have "sim sk (push_layer (used b) True b2) (canvas_step sk d (SaveLayer r opts f))"
    using assms(1) push_frame(2) [OF p] dok
    by (simp add: sim_def simulates_def Let_def emit_def C s push_layer_parts stack list_all2_snoc)
  then show ?thesis
    unfolding b' Let_def b2_def [symmetric] by (auto intro: sim_update_opacity)
qed


section \<open>Leaving a layer\<close>

lemma sim_leave_layer:
  assumes "sim sk b d" and "leave_layer info b = Inr b'"
  shows "sim sk b' d"
proof (cases "has_layer info \<and> \<not> cannot_inherit_opacity info")
  case True
  then obtain st where "patch_at (save_layer_offset info) (storage b) = Inr st" "b' = b\<lparr>storage := st\<rparr>"
    using assms(2) by (auto simp: leave_layer_def bindr_eq_Inr)
  then show ?thesis using assms(1) by (simp add: sim_def replay_patch base_attrs_def)
next
  case False
  then show ?thesis using assms by (auto simp: leave_layer_def intro!: sim_on_layer split: if_splits)
qed

lemma sim_Restore:
  assumes "sim sk b d" and "restore sk b = Inr b'"
  shows "sim sk b' (canvas_step sk d Restore)"
proof -
  have s: "list_all2 matched (layer_stack b) (cv_stack d)" "deferral_ok (layer_stack b) (cv_stack d)"
    using assms(1) by (auto simp: sim_def simulates_def)
  then obtain l ls x xs where st: "layer_stack b = l # ls" "cv_stack d = x # xs" by (elim deferral_ok_split)
  have len: "length ls = length xs" using s(1) st by (auto dest: list_all2_lengthD)
  show ?thesis
  proof (cases "ls = []")
    case True
    then show ?thesis using assms st len by (auto simp: restore_def)
  next
    case False
    then have long: "length (layer_stack b) > 1" "length (cv_stack d) > 1" using st len by auto
    have ok: "deferral_ok ls xs" using s(2) st False deferral_ok_tl by simp
    obtain b1 where b1: "(if \<not> has_deferred_save_op l then push sk RestoreOp 1 b else Inr b) = Inr b1"
      and b': "leave_layer (hd (layer_stack b1)) (b1\<lparr>layer_stack := tl (layer_stack b1)\<rparr>) = Inr b'"
      using assms(2) long(1) st by (auto simp: restore_def current_layer_def bindr_eq_Inr split: if_splits)
    have same: "layer_stack b1 = l # ls" "base_attrs b1 = base_attrs b"
      using b1 st push_frame [of sk RestoreOp 1 b b1] by (auto split: if_splits)
    have "sim sk (b1\<lparr>layer_stack := ls\<rparr>) (canvas_step sk d Restore)"
    proof (cases "has_deferred_save_op l")
      case True
      have "\<not> fr_layer x" using True s st False by (cases ls; cases xs) (auto simp: matched_def)
      then show ?thesis
        using assms(1) b1 True st ok long by (simp add: sim_def simulates_def Let_def kept_Cons base_attrs_def)
    next
      case deferred: False
      then have p: "push sk RestoreOp 1 b = Inr b1" using b1 by simp
      have k: "cv_stack (replay sk (storage b)) = x # kept ls xs"
        using assms(1) st deferred by (simp add: sim_def simulates_def kept_Cons)
      have "replay sk (storage b1) = canvas_step sk (replay sk (storage b)) Restore"
        using replay_push [OF p] by simp
      then show ?thesis
        using assms(1) st ok long k kept_nonempty [OF ok] same
        by (auto simp: sim_def simulates_def Let_def emit_def base_attrs_def list_all2_snoc)
    qed
    then show ?thesis using b' same by (auto intro: sim_leave_layer)
  qed
qed

section \<open>Calls that need the save\<close>

lemma sim_checkForDeferredSave:
  assumes "sim sk b d" and "checkForDeferredSave sk b = Inr b'"
  shows "sim sk b' d \<and> \<not> has_deferred_save_op (current_layer b')"
proof (cases "has_deferred_save_op (current_layer b)")
  case False
  then show ?thesis using assms by (simp add: checkForDeferredSave_def)
next
  case True
  then obtain b1 where p: "push sk SaveOp 1 b = Inr b1" and b': "b' = on_layer (\<lambda>l. l\<lparr>has_deferred_save_op := False\<rparr>) b1"
    using assms(2) by (auto simp: checkForDeferredSave_def bindr_eq_Inr)
  have s: "list_all2 matched (layer_stack b) (cv_stack d)" "deferral_ok (layer_stack b) (cv_stack d)"
    using assms(1) by (auto simp: sim_def simulates_def)
  then obtain l ls x xs where st: "layer_stack b = l # ls" "cv_stack d = x # xs" by (elim deferral_ok_split)
  have l: "has_deferred_save_op l" using True st by (simp add: current_layer_def)
  have x: "\<not> fr_layer x" "ls \<noteq> []" "deferral_ok ls xs" "same_place x (hd xs)"
    using l s st by (cases ls; cases xs; auto simp: matched_def)+
  obtain y ys where top: "kept ls xs = y # ys" "same_place y (hd xs)" using kept_top [OF x(3)] by auto
  have C: "cv_stack (replay sk (storage b)) = y # ys"
    using assms(1) st l top by (simp add: sim_def simulates_def kept_Cons)
  have "y\<lparr>fr_layer := False\<rparr> = x" using top(2) x(1,4) by (cases x; cases y) (simp add: same_place_def)
  then have "cv_stack (replay sk (storage b1)) = x # kept ls xs"
    using replay_push [OF p] C top(1) by simp
  moreover have "deferral_ok (l\<lparr>has_deferred_save_op := False\<rparr> # ls) (x # xs)"
    using s(2) st by (cases ls; cases xs) auto
  ultimately show ?thesis
    using assms(1) st push_frame [OF p] replay_push [OF p]
    by (auto simp: b' sim_def simulates_def on_layer_def current_layer_def base_attrs_def kept_Cons matched_def)
qed

lemma sim_push_flushed:
  assumes "sim sk b d" and "push_flushed sk x inc g b = Inr b'" and "flush_effect sk c x inc g"
  shows "sim sk b' (canvas_step sk d c)"
proof -
  obtain b1 b2 where b1: "checkForDeferredSave sk b = Inr b1" and p: "push sk x inc b1 = Inr b2" and b': "b' = on_layer g b2"
    using assms(2) by (auto simp: push_flushed_def bindr_eq_Inr)
  have sim: "sim sk b1 d" and nd: "\<not> has_deferred_save_op (current_layer b1)"
    using sim_checkForDeferredSave [OF assms(1) b1] by auto
  obtain h where h: "\<And>cv. canvas_step sk cv c = on_top h cv" "\<And>cv. canvas_step sk cv (dispatch x) = on_top h cv"
    "\<And>l y. matched l y \<Longrightarrow> matched (g l) (h y)" "\<And>l. has_deferred_save_op (g l) = has_deferred_save_op l"
    using assms(3) by (auto simp: flush_effect_def keeps_flags_def)
  have s: "list_all2 matched (layer_stack b1) (cv_stack d)" "deferral_ok (layer_stack b1) (cv_stack d)"
    using sim by (auto simp: sim_def simulates_def)
  then obtain l ls y ys where st: "layer_stack b1 = l # ls" "cv_stack d = y # ys" by (elim deferral_ok_split)
  have l: "\<not> has_deferred_save_op l" using nd st by (simp add: current_layer_def)
  have "deferral_ok (g l # ls) (h y # ys)"
    by (rule deferral_ok_top [of l ls y ys]) (use s st h(4) l in auto)
  moreover have "cv_stack (replay sk (storage b2)) = h y # kept ls ys"
    using sim st l replay_push [OF p] by (simp add: h(2) sim_def simulates_def kept_Cons on_top_def)
  ultimately show ?thesis
    using sim st l push_frame [OF p] replay_push [OF p]
    by (simp add: b' sim_def simulates_def on_layer_def base_attrs_def kept_Cons h on_top_def)
qed

lemma sim_step:
  assumes "lawful sk" "sim sk b d" "builder_step sk b c = Inr b'" "\<forall>a. c = Attr a \<longrightarrow> \<not> color_color_source a"
  shows "sim sk b' (canvas_step sk d c)"
proof (cases "flushing c")
  case True
  from flushing_steps [OF assms(1) this, of b] show ?thesis
    unfolding skips_or_flushes_def using assms(2,3) sim_push_flushed by auto
next
  case False
  show ?thesis
  proof (cases c)
    case (Attr a)
    then show ?thesis using sim_Attr [of sk b d a b'] assms by simp
  next
    case Save
    then show ?thesis using sim_Save [OF assms(2)] assms(3) by auto
  next
    case (SaveLayer r opts f)
    then show ?thesis using sim_SaveLayer [OF assms(2)] assms(3) by simp
  next
    case Restore
    then show ?thesis using sim_Restore [OF assms(2)] assms(3) by simp
  next
    case (Draw e)
    then show ?thesis using sim_Draw [OF assms(2)] assms(3) by simp
  qed (use False in simp_all)
qed


section \<open>Whole recordings\<close>

lemma sim_run:
  assumes "lawful sk" "run_ops (builder_step sk) b calls = Inr b'" "sim sk b d"
    and "\<forall>a. Attr a \<in> set calls \<longrightarrow> \<not> color_color_source a"
  shows "sim sk b' (foldl (canvas_step sk) d calls)"
  using assms(2-)
proof (induction calls arbitrary: b d)
  case (Cons c calls)
  from Cons.prems(1) obtain b1 where "builder_step sk b c = Inr b1" "run_ops (builder_step sk) b1 calls = Inr b'"
    by (auto simp: bindr_eq_Inr)
  then show ?case using Cons.IH [of b1 "canvas_step sk d c"] sim_step [OF assms(1) Cons.prems(2), of c b1] Cons.prems(3) by auto
qed simp

lemma sim_heights: "sim sk b d \<Longrightarrow> length (layer_stack b) = length (cv_stack d)"
  by (auto simp: sim_def simulates_def dest: list_all2_lengthD)

lemma sim_stack: "sim sk b d \<Longrightarrow> layer_stack b \<noteq> []"
  by (auto simp: sim_def simulates_def dest: deferral_ok_nonempty)

lemma Restore_height: "length (cv_stack (canvas_step sk d Restore)) = (if length (cv_stack d) > 1 then length (cv_stack d) - 1 else length (cv_stack d))"
  by (simp add: Let_def emit_def)

lemma sim_restore_loop:
  assumes "sim sk b d" "restore_loop sk n 1 b = Inr b'" "length (layer_stack b) \<le> n"
  shows "sim sk b' (finished sk d) \<and> length (layer_stack b') = 1"
  using assms
proof (induction n arbitrary: b d)
  case 0
  then show ?case using sim_stack by auto
next
  case (Suc n)
  note h = sim_heights [OF Suc.prems(1)]
  show ?case
  proof (cases "length (layer_stack b) > 1")
    case True
    then obtain b1 where r: "restore sk b = Inr b1" and l: "restore_loop sk n 1 b1 = Inr b'"
      using Suc.prems(2) by (auto simp: bindr_eq_Inr)
    let ?d = "canvas_step sk d Restore"
    have s: "sim sk b1 ?d" by (rule sim_Restore [OF Suc.prems(1) r])
    have "length (cv_stack ?d) = length (cv_stack d) - 1" using True h by (simp only: Restore_height if_True)
    moreover have "length (cv_stack d) - 1 = Suc (length (cv_stack d) - 1 - 1)" using True h by simp
    ultimately have "finished sk d = finished sk ?d" unfolding finished_def by (metis foldl_Cons replicate_Suc)
    moreover have "length (layer_stack b1) \<le> n"
      using sim_heights [OF s] \<open>length (cv_stack ?d) = _\<close> Suc.prems(3) h True by linarith
    ultimately show ?thesis using Suc.IH [OF s l] by simp
  next
    case False
    moreover have "layer_stack b \<noteq> []" using sim_stack [OF Suc.prems(1)] .
    ultimately show ?thesis using Suc.prems h by (cases "layer_stack b") (auto simp: finished_def)
  qed
qed

lemma record_sim:
  assumes "lawful sk" and "record_calls sk cull calls = Inr dl"
    and "\<forall>a. Attr a \<in> set calls \<longrightarrow> \<not> color_color_source a"
  obtains b where "sim sk b (finished sk (canvas_run sk calls))" "length (layer_stack b) = 1" "storage b = dl_storage dl"
proof -
  obtain b0 b1 where "run_ops (builder_step sk) (DisplayListBuilder cull) calls = Inr b0"
    and l: "restore_loop sk (length (layer_stack b0)) 1 b0 = Inr b1" and "storage b1 = dl_storage dl"
    using assms(2) by (auto simp: record_calls_def Build_def bindr_eq_Inr)
  moreover from this have "sim sk b0 (canvas_run sk calls)"
    unfolding canvas_run_def by (intro sim_run [OF assms(1) _ sim_init assms(3)])
  ultimately show ?thesis using that sim_restore_loop by blast
qed

text \<open>
  C3: equivalence. The list that is recorded draws what the calls draw: replaying it on a canvas gives, in the same order,
  the same drawing operations and layers with the same transforms, clips and attributes, up to attributes
  that compare as equal, although the builder drops calls without effect, puts off saves, and leaves out
  saves and restores that nothing needs. The replay ends with everything restored. (Calls that set a plain
  color as the color source are not covered.)
\<close>

theorem recorded_list_draws_what_was_asked:
  assumes "lawful sk" and "record_calls sk cull calls = Inr dl"
    and "\<forall>a. Attr a \<in> set calls \<longrightarrow> \<not> color_color_source a"
  shows "list_all2 same_event (cv_out (canvas_run sk (Dispatch dl))) (cv_out (finished sk (canvas_run sk calls))) \<and>
         length (cv_stack (canvas_run sk (Dispatch dl))) = 1"
proof -
  obtain b where s: "sim sk b (finished sk (canvas_run sk calls))" and st: "storage b = dl_storage dl" and h: "length (layer_stack b) = 1"
    using record_sim [OF assms] by metis
  let ?d = "finished sk (canvas_run sk calls)"
  have c: "canvas_run sk (Dispatch dl) = replay sk (storage b)" by (simp add: st Dispatch_def replay_def)
  have "deferral_ok (layer_stack b) (cv_stack ?d)" using s by (simp add: sim_def simulates_def)
  moreover have "length (cv_stack ?d) = 1" using h sim_heights [OF s] by simp
  ultimately have "length (kept (layer_stack b) (cv_stack ?d)) = 1"
    by (cases "(layer_stack b, cv_stack ?d)" rule: deferral_ok.cases) (auto simp: kept_def)
  then show ?thesis using s unfolding c by (simp add: sim_def simulates_def)
qed


section \<open>A concrete run\<close>

lemma demo_skia_lawful: "lawful demo_skia"
proof -
  have "float_eq 0 0" "float_eq float_one float_one" by code_simp+
  then show ?thesis by (auto simp: lawful_def demo_skia_def affine_def SkM44_identity_def float_eq_sym)
qed

theorem recorded_list_draws_what_was_asked_witness:
  "\<exists>dl. record_calls demo_skia demo_rect demo_calls = Inr dl \<and>
     list_all2 same_event (cv_out (canvas_run demo_skia (Dispatch dl))) (cv_out (finished demo_skia (canvas_run demo_skia demo_calls)))"
  using demo_recorded recorded_list_draws_what_was_asked [OF demo_skia_lawful _ demo_no_colors] by blast

text \<open>
  error behaviour. A color that is set as a color source does not take back the source that was recorded before: the
  builder forgets the shader and records the color only, so that a replay paints with the shader and not with
  the color.
\<close>

theorem color_source_color_keeps_the_shader:
  assumes "small_records sk" and "c \<noteq> paint_color DlPaint_default"
  shows "\<exists>dl. record_calls sk cull [Attr (setColorSource (Some (UnknownColorSource k))),
      Attr (setColorSource (Some (ColorColorSource c))), Draw drawPaint] = Inr dl \<and>
    (case cv_out (canvas_run sk (Dispatch dl)) of
       [Drawn d a m cs] \<Rightarrow> d = DrawPaintOp \<and> colorSource (fst a) = Some (UnknownColorSource k) \<and> paint_color (fst a) = c
     | _ \<Rightarrow> False)"
  using assms
  by (simp add: record_calls_eq setter_defs Equals_copy_def push_eq Let_def small_records_def DisplayListBuilder_def DlPaint_default_def
      do_drawPaint_def push_draw_def LayerInfo_def CheckLayerOpacityCompatibility_def UpdateLayerOpacityCompatibility_def on_layer_def
      current_layer_def Dispatch_def canvas_run_def canvas_init_def emit_def)

theorem color_source_color_keeps_the_shader_witness:
  "small_records demo_skia \<and> (\<exists>dl. record_calls demo_skia demo_rect [Attr (setColorSource (Some (UnknownColorSource 5))),
      Attr (setColorSource (Some (ColorColorSource 7))), Draw drawPaint] = Inr dl)"
  using color_source_color_keeps_the_shader [OF demo_small, of 7 demo_rect 5] demo_small by (auto simp: DlPaint_default_def)

end
