(* ===== verification/Dl_Rebuild.thy ===== *)
theory Dl_Rebuild
  imports Dl_Safety
begin

text \<open>
  A list that is dispatched into a new builder is recorded as the same list. The two builders differ in their
  layers only, since the second never sees a save that the first put off; what the layers know about
  opacity agrees between any two layers with a buffer of their own.
\<close>

section \<open>What layers know about opacity\<close>

text \<open>Nothing drawn, one compatible operation, or anything else.\<close>

datatype tally = Nothing | One | Too_Much

fun add_tally :: "tally \<Rightarrow> tally \<Rightarrow> tally" where
  "add_tally Nothing t = t"
| "add_tally t Nothing = t"
| "add_tally _ _ = Too_Much"

lemma add_tally_simps [simp]:
  "add_tally t Nothing = t" "add_tally Too_Much t = Too_Much" "add_tally t Too_Much = Too_Much"
  by (cases t; simp)+

lemma add_tally_assoc: "add_tally (add_tally s t) u = add_tally s (add_tally t u)"
  by (cases s; cases t; cases u) simp_all

lemma add_tally_commute: "add_tally s t = add_tally t s"
  by (cases s; cases t) simp_all

definition tally_of :: "layer \<Rightarrow> tally" where
  "tally_of l = (if cannot_inherit_opacity l then Too_Much else if has_compatible_op l then One else Nothing)"

lemma tally_of_marks [simp]:
  "tally_of (mark_incompatible l) = Too_Much" "tally_of (add_compatible_op l) = add_tally (tally_of l) One"
  "tally_of (l\<lparr>has_deferred_save_op := v\<rparr>) = tally_of l" "tally_of (LayerInfo m c off hl) = Nothing"
  by (simp_all add: tally_of_def mark_incompatible_def add_compatible_op_def LayerInfo_def)

text \<open>The tallies of a stack of layers: one for each layer with a buffer, and one for those below all of them.\<close>

fun segments :: "layer list \<Rightarrow> (nat option \<times> tally) list" where
  "segments [] = [(None, Nothing)]"
| "segments (l # ls) =
     (if has_layer l then (Some (save_layer_offset l), tally_of l) # segments ls
      else (fst (hd (segments ls)), add_tally (tally_of l) (snd (hd (segments ls)))) # tl (segments ls))"

lemma segments_not_Nil [simp]: "segments ls \<noteq> []"
  by (cases ls) auto

section \<open>The layers of the two builders\<close>

definition recorded_layers :: "layer list \<Rightarrow> bool list" where
  "recorded_layers ls = map has_layer (filter (\<lambda>l. \<not> has_deferred_save_op l) ls)"

definition deferred_plain :: "layer list \<Rightarrow> bool" where
  "deferred_plain ls \<longleftrightarrow> ls \<noteq> [] \<and> \<not> has_deferred_save_op (last ls) \<and>
     (\<forall>l\<in>set ls. has_deferred_save_op l \<longrightarrow> \<not> has_layer l)"

definition shadow :: "layer list \<Rightarrow> layer list \<Rightarrow> bool" where
  "shadow ls ms \<longleftrightarrow> segments ls = segments ms \<and> recorded_layers ls = map has_layer ms \<and>
     list_all (\<lambda>l. \<not> has_deferred_save_op l) ms \<and> deferred_plain ls"

lemma recorded_layers_not_Nil: "deferred_plain ls \<Longrightarrow> recorded_layers ls \<noteq> []"
  by (cases ls rule: rev_cases) (auto simp: deferred_plain_def recorded_layers_def)

lemma shadow_split:
  assumes "shadow ls ms"
  obtains l ls' m ms' where "ls = l # ls'" "ms = m # ms'"
  using assms recorded_layers_not_Nil [of ls] by (cases ls; cases ms) (auto simp: shadow_def deferred_plain_def)

lemma shadow_top:
  assumes "shadow (l # ls) (m # ms)"
    and "has_deferred_save_op (g l) = has_deferred_save_op l" "has_layer (g l) = has_layer l"
    "save_layer_offset (g l) = save_layer_offset l"
    and "has_deferred_save_op (h m) = has_deferred_save_op m" "has_layer (h m) = has_layer m"
    "save_layer_offset (h m) = save_layer_offset m"
    and "\<And>x. tally_of (g x) = f (tally_of x)" "\<And>x. tally_of (h x) = f (tally_of x)"
    and "\<And>s t. f (add_tally s t) = add_tally (f s) t"
  shows "shadow (g l # ls) (h m # ms)"
proof -
  have "segments (g l # ls) = (fst (hd (segments (l # ls))), f (snd (hd (segments (l # ls))))) # tl (segments (l # ls))"
    using assms(3,4,8,10) by simp
  moreover have "segments (h m # ms) = (fst (hd (segments (m # ms))), f (snd (hd (segments (m # ms))))) # tl (segments (m # ms))"
    using assms(6,7,9,10) by simp
  ultimately show ?thesis
    using assms by (auto simp: shadow_def recorded_layers_def deferred_plain_def simp del: segments.simps)
qed

lemma shadow_opacity:
  "shadow ls ms \<Longrightarrow> shadow (case ls of [] \<Rightarrow> [] | l # ls \<Rightarrow> mark_incompatible l # ls) (case ms of [] \<Rightarrow> [] | l # ls \<Rightarrow> mark_incompatible l # ls)"
  "shadow ls ms \<Longrightarrow> shadow (case ls of [] \<Rightarrow> [] | l # ls \<Rightarrow> add_compatible_op l # ls) (case ms of [] \<Rightarrow> [] | l # ls \<Rightarrow> add_compatible_op l # ls)"
proof -
  assume s: "shadow ls ms"
  then obtain l ls' m ms' where e: "ls = l # ls'" "ms = m # ms'" by (rule shadow_split)
  show "shadow (case ls of [] \<Rightarrow> [] | l # ls \<Rightarrow> mark_incompatible l # ls) (case ms of [] \<Rightarrow> [] | l # ls \<Rightarrow> mark_incompatible l # ls)"
    using shadow_top [of l ls' m ms' mark_incompatible mark_incompatible "\<lambda>_. Too_Much"] s
    by (simp add: e) (simp add: mark_incompatible_def)
  show "shadow (case ls of [] \<Rightarrow> [] | l # ls \<Rightarrow> add_compatible_op l # ls) (case ms of [] \<Rightarrow> [] | l # ls \<Rightarrow> add_compatible_op l # ls)"
    using shadow_top [of l ls' m ms' add_compatible_op add_compatible_op "\<lambda>t. add_tally t One"] s
    by (simp add: e add_tally_assoc add_tally_commute [of One]) (simp add: add_compatible_op_def)
qed

lemma segments_plain: "\<not> has_layer l \<Longrightarrow> tally_of l = Nothing \<Longrightarrow> segments (l # ls) = segments ls"
  by (simp add: list.collapse)

lemma segments_layer: "has_layer l \<Longrightarrow> segments (l # ls) = (Some (save_layer_offset l), tally_of l) # segments ls"
  by simp

lemmas shadow_parts = shadow_def recorded_layers_def deferred_plain_def

lemma LayerInfo_parts [simp]:
  "has_layer (LayerInfo m c off hl) = hl" "has_deferred_save_op (LayerInfo m c off hl) = False"
  "save_layer_offset (LayerInfo m c off hl) = off"
  by (simp_all add: LayerInfo_def)

lemma shadow_save: "shadow ls ms \<Longrightarrow> shadow (LayerInfo m c off False \<lparr>has_deferred_save_op := True\<rparr> # ls) ms"
  by (auto simp: shadow_parts segments_plain simp del: segments.simps)

lemma shadow_layer: "shadow ls ms \<Longrightarrow> shadow (LayerInfo m c off True # ls) (LayerInfo m' c' off True # ms)"
  by (auto simp: shadow_parts segments_layer simp del: segments.simps)

lemma shadow_flags:
  assumes "shadow (l # ls) (m # ms)" "keeps_flags g" "keeps_flags h"
  shows "shadow (g l # ls) (h m # ms)"
proof -
  have "tally_of (g x) = tally_of x" "tally_of (h x) = tally_of x" for x
    using assms(2,3) by (simp_all add: keeps_flags_def tally_of_def)
  then show ?thesis
    by (intro shadow_top [OF assms(1), where f = "\<lambda>t. t" and g = g and h = h])
      (use assms(2,3) in \<open>simp_all only: keeps_flags_def\<close>)
qed

text \<open>A save that is recorded now is a new layer of the second builder.\<close>

lemma shadow_flush:
  assumes "shadow (l # ls) ms" "has_deferred_save_op l"
  shows "shadow (l\<lparr>has_deferred_save_op := False\<rparr> # ls) (LayerInfo m c off False # ms)"
proof -
  have "ls \<noteq> []" "\<not> has_layer l" using assms by (auto simp: shadow_def deferred_plain_def)
  moreover have "segments (l\<lparr>has_deferred_save_op := False\<rparr> # ls) = segments (l # ls)" by simp
  ultimately show ?thesis using assms
    by (auto simp: shadow_parts segments_plain simp del: segments.simps)
qed

section \<open>Leaving a layer\<close>

definition left_stack :: "layer \<Rightarrow> layer list \<Rightarrow> layer list" where
  "left_stack info ls = (case ls of [] \<Rightarrow> [] | l # ls' \<Rightarrow>
     (if has_layer info then l else if cannot_inherit_opacity info then mark_incompatible l
      else if has_compatible_op info then add_compatible_op l else l) # ls')"

lemma left_stack_plain:
  assumes "\<not> has_layer info" "ls \<noteq> []"
  shows "segments (left_stack info ls) = segments (info # ls)"
proof -
  obtain l ls' where "ls = l # ls'" using assms(2) by (cases ls) auto
  define k where "k l = (if cannot_inherit_opacity info then mark_incompatible l
      else if has_compatible_op info then add_compatible_op l else l)" for l
  have k: "has_layer (k l) = has_layer l" "save_layer_offset (k l) = save_layer_offset l" for l
    by (simp_all add: k_def mark_incompatible_def add_compatible_op_def)
  have t: "tally_of (k l) = add_tally (tally_of info) (tally_of l)" for l
    by (simp add: k_def add_tally_commute) (simp add: tally_of_def add_tally_commute)
  have "left_stack info ls = k l # ls'" using assms(1) by (simp add: left_stack_def k_def \<open>ls = _\<close>)
  then show ?thesis using assms(1) by (simp add: \<open>ls = _\<close> k t add_tally_assoc)
qed

lemma left_stack_frame:
  "recorded_layers (left_stack info ls) = recorded_layers ls" "map has_layer (left_stack info ls) = map has_layer ls"
  "list_all (\<lambda>l. \<not> has_deferred_save_op l) (left_stack info ls) = list_all (\<lambda>l. \<not> has_deferred_save_op l) ls"
  "deferred_plain (left_stack info ls) = deferred_plain ls" "has_layer info \<Longrightarrow> left_stack info ls = ls"
proof -
  have "left_stack info ls = [] \<and> ls = [] \<or> (\<exists>l l' ls'. ls = l # ls' \<and> left_stack info ls = l' # ls' \<and>
      has_layer l' = has_layer l \<and> has_deferred_save_op l' = has_deferred_save_op l \<and> (has_layer info \<longrightarrow> l' = l))"
    by (cases ls) (simp_all add: left_stack_def mark_incompatible_def add_compatible_op_def)
  then show "recorded_layers (left_stack info ls) = recorded_layers ls" "map has_layer (left_stack info ls) = map has_layer ls"
    "list_all (\<lambda>l. \<not> has_deferred_save_op l) (left_stack info ls) = list_all (\<lambda>l. \<not> has_deferred_save_op l) ls"
    "deferred_plain (left_stack info ls) = deferred_plain ls" "has_layer info \<Longrightarrow> left_stack info ls = ls"
    by (elim disjE exE conjE; simp add: recorded_layers_def deferred_plain_def)+
qed

lemma deferred_plain_tl: "deferred_plain (l # ls) \<Longrightarrow> ls \<noteq> [] \<Longrightarrow> deferred_plain ls"
  by (auto simp: deferred_plain_def)

lemma shadow_leave_deferred:
  assumes "shadow (l # ls) ms" "has_deferred_save_op l"
  shows "shadow (left_stack l ls) ms"
proof -
  have "ls \<noteq> []" "\<not> has_layer l" using assms by (auto simp: shadow_def deferred_plain_def)
  then show ?thesis
    using assms left_stack_plain [of l ls] deferred_plain_tl [of l ls]
    by (auto simp: shadow_def left_stack_frame simp del: segments.simps) (simp add: recorded_layers_def)
qed

lemma shadow_leave:
  assumes "shadow (l # ls) (m # ms)" "\<not> has_deferred_save_op l" "ls \<noteq> []"
  shows "shadow (left_stack l ls) (left_stack m ms)" "has_layer l = has_layer m" "ms \<noteq> []"
    "has_layer l \<Longrightarrow> cannot_inherit_opacity l = cannot_inherit_opacity m \<and> save_layer_offset l = save_layer_offset m"
proof -
  have dp: "deferred_plain ls" using assms deferred_plain_tl by (auto simp: shadow_def)
  have h: "has_layer l = has_layer m" "recorded_layers ls = map has_layer ms"
    using assms by (auto simp: shadow_def recorded_layers_def)
  show "has_layer l = has_layer m" by (rule h)
  show ms: "ms \<noteq> []" using h(2) recorded_layers_not_Nil [OF dp] by auto
  have seg: "segments (l # ls) = segments (m # ms)" using assms(1) by (simp add: shadow_def)
  show "has_layer l \<Longrightarrow> cannot_inherit_opacity l = cannot_inherit_opacity m \<and> save_layer_offset l = save_layer_offset m"
    using seg h(1) by (auto simp: tally_of_def split: if_splits)
  have "segments (left_stack l ls) = segments (left_stack m ms)"
  proof (cases "has_layer l")
    case True
    then show ?thesis using seg h(1) by (simp add: left_stack_frame)
  next
    case False
    then show ?thesis using seg h(1) left_stack_plain [OF _ assms(3)] left_stack_plain [OF _ ms] by simp
  qed
  then show "shadow (left_stack l ls) (left_stack m ms)"
    using assms h dp by (auto simp: shadow_def left_stack_frame)
qed


section \<open>The two builders\<close>

definition twin :: "builder \<Rightarrow> builder \<Rightarrow> bool" where
  "twin b c \<longleftrightarrow> c = b\<lparr>layer_stack := layer_stack c\<rparr> \<and> shadow (layer_stack b) (layer_stack c)"

lemma twinE:
  assumes "twin b c"
  obtains L where "c = b\<lparr>layer_stack := L\<rparr>" "shadow (layer_stack b) L"
  using assms by (auto simp: twin_def)

lemma twin_iff: "twin b (b\<lparr>layer_stack := L\<rparr>) \<longleftrightarrow> shadow (layer_stack b) L"
  by (simp add: twin_def)

lemma twin_same:
  assumes "twin b c"
  shows "base_attrs c = base_attrs b" "current c = current b" "used c = used b" "storage c = storage b"
    "current_opacity_compatibility c = current_opacity_compatibility b"
  using assms by (auto elim!: twinE simp: base_attrs_def)

lemma push_twin:
  assumes "twin b c" "push sk x inc b = Inr b'"
  shows "\<exists>c'. push sk x inc c = Inr c' \<and> twin b' c'"
proof -
  obtain L where c: "c = b\<lparr>layer_stack := L\<rparr>" "shadow (layer_stack b) L" using assms(1) by (rule twinE)
  have "push sk x inc c = Inr (b'\<lparr>layer_stack := L\<rparr>)" "layer_stack b' = layer_stack b"
    using assms(2) by (auto simp: c push_eq Let_def split: if_splits)
  then show ?thesis using c(2) by (simp add: twin_iff)
qed

lemma opacity_twin: "twin b c \<Longrightarrow> twin (UpdateLayerOpacityCompatibility v b) (UpdateLayerOpacityCompatibility v c)"
  by (erule twinE) (auto simp: twin_def UpdateLayerOpacityCompatibility_def on_layer_def shadow_opacity)

lemma check_twin: "twin b c \<Longrightarrow> twin (CheckLayerOpacityCompatibility v b) (CheckLayerOpacityCompatibility v c)"
  by (simp add: CheckLayerOpacityCompatibility_def opacity_twin twin_same)

lemma layer_twin: "twin b c \<Longrightarrow> twin (push_layer off True b) (push_layer off True c)"
  by (erule twinE) (auto simp: twin_def push_layer_def shadow_layer)

lemma nested_twin: "twin b c \<Longrightarrow> twin (count_nested sk x b) (count_nested sk x c)"
  by (erule twinE, cases x) (auto simp: twin_def)

lemma attrs_twin: "twin b c \<Longrightarrow> twin (with_attrs a b) (with_attrs a c)"
  by (erule twinE) (auto simp: twin_def with_attrs_def)

lemma current_opacity_twin: "twin b c \<Longrightarrow> twin (UpdateCurrentOpacityCompatibility b) (UpdateCurrentOpacityCompatibility c)"
  by (erule twinE) (auto simp: twin_def UpdateCurrentOpacityCompatibility_def)

definition replayed :: "skia \<Rightarrow> SkRect \<Rightarrow> (dl_op \<times> nat) list \<Rightarrow> builder \<Rightarrow> bool" where
  "replayed sk cull st c \<longleftrightarrow> run_ops (builder_step sk) (DisplayListBuilder cull) (map (dispatch \<circ> fst) st) = Inr c"

lemma replayed_snoc:
  "replayed sk cull st c \<Longrightarrow> builder_step sk c (dispatch x) = Inr c' \<Longrightarrow> replayed sk cull (st @ [(x, n)]) c'"
  by (simp add: replayed_def run_ops_append)

definition rebuilds :: "skia \<Rightarrow> SkRect \<Rightarrow> builder \<Rightarrow> bool" where
  "rebuilds sk cull b \<longleftrightarrow> (\<exists>c. replayed sk cull (storage b) c \<and> twin b c)"

lemma push_storage: "push sk x inc b = Inr b' \<Longrightarrow> storage b' = storage b @ [(x, op_size sk x)]"
  by (subst push_Inr(1)) auto

lemma count_nested_storage: "storage (count_nested sk x b) = storage b"
  by (cases x) simp_all

section \<open>Attributes and drawing\<close>

lemma attr_changes_again:
  "attr_changes sk a x = Inr True \<Longrightarrow> attr_changes sk (dispatch_attr (attr_record sk a)) x = Inr True"
  by (cases "(sk, a, x)" rule: attr_changes.cases)
    (auto split: option.splits DlColorSource.splits DlColorFilter.splits DlPathEffect.splits DlMaskFilter.splits DlImageFilter.splits)

lemma attr_record_again: "attr_record sk (dispatch_attr (attr_record sk a)) = attr_record sk a"
  by (cases a) (auto split: option.splits DlColorSource.splits DlColorFilter.splits DlPathEffect.splits DlMaskFilter.splits DlImageFilter.splits)

lemma attr_again:
  "touches_opacity (dispatch_attr (attr_record sk a)) = touches_opacity a"
  "\<not> color_color_source a \<Longrightarrow> \<not> color_color_source (dispatch_attr (attr_record sk a))"
  by (cases a; auto split: option.splits DlColorSource.splits DlColorFilter.splits DlPathEffect.splits DlMaskFilter.splits DlImageFilter.splits)+

lemma rebuilds_attr:
  assumes "rebuilds sk cull b" "attr_step sk a b = Inr b'" "\<not> color_color_source a"
  shows "rebuilds sk cull b'"
proof -
  let ?a = "dispatch_attr (attr_record sk a)"
  obtain c where c: "replayed sk cull (storage b) c" "twin b c" using assms(1) by (auto simp: rebuilds_def)
  obtain v where v: "attr_changes sk a (base_attrs b) = Inr v" "(if v then push_attrs sk a b else Inr b) = Inr b'"
    using assms(2) unfolding attr_step_eq [OF assms(3)] by (rule bindrE)
  show ?thesis
  proof (cases v)
    case True
    obtain b1 where p: "push sk (AttrOp (attr_record sk a)) 0 (with_attrs (attr_set sk a (base_attrs b)) b) = Inr b1"
      and b': "b' = (if touches_opacity a then UpdateCurrentOpacityCompatibility b1 else b1)"
      using v True by (auto simp: push_attrs_def bindr_eq_Inr)
    obtain c1 where c1: "push sk (AttrOp (attr_record sk a)) 0 (with_attrs (attr_set sk a (base_attrs c)) c) = Inr c1" "twin b1 c1"
      using push_twin [OF attrs_twin [OF c(2)] p] twin_same(1) [OF c(2)] by auto
    define c' where "c' = (if touches_opacity a then UpdateCurrentOpacityCompatibility c1 else c1)"
    have "attr_changes sk ?a (base_attrs c) = Inr True"
      using v(1) True by (simp add: twin_same [OF c(2)] attr_changes_again)
    then have "attr_step sk ?a c = push_attrs sk ?a c"
      unfolding attr_step_eq [OF attr_again(2) [OF assms(3)]] by simp
    also have "\<dots> = Inr c'"
      by (simp add: push_attrs_def attr_record_again attr_again(1) attr_set_record [OF assms(3)] c1(1) c'_def)
    finally have "builder_step sk c (dispatch (AttrOp (attr_record sk a))) = Inr c'" by simp
    from replayed_snoc [OF c(1) this, of "op_size sk (AttrOp (attr_record sk a))"]
    have "replayed sk cull (storage b') c'" using push_storage [OF p]
      by (simp add: b' with_attrs_def UpdateCurrentOpacityCompatibility_def)
    moreover have "twin b' c'" using c1(2) by (simp add: b' c'_def current_opacity_twin)
    ultimately show ?thesis by (auto simp: rebuilds_def)
  qed (use v assms(1) in simp)
qed

lemma rebuilds_draw:
  assumes "rebuilds sk cull b" "draw_step sk d b = Inr b'"
  shows "rebuilds sk cull b'"
proof -
  let ?x = "draw_record sk d"
  obtain c where c: "replayed sk cull (storage b) c" "twin b c" using assms(1) by (auto simp: rebuilds_def)
  obtain b1 where ok: "draw_ok d" and p: "push sk (DrawOp ?x) 1 b = Inr b1" and b': "b' = draw_effect sk ?x b1"
    using assms(2) by (auto simp: draw_step_eq push_draw_def res_simps)
  obtain c1 where c1: "push sk (DrawOp ?x) 1 c = Inr c1" "twin b1 c1" using push_twin [OF c(2) p] by auto
  have "builder_step sk c (dispatch (DrawOp ?x)) = Inr (draw_effect sk ?x c1)"
    using draw_ok_again [OF ok, of sk] c1(1) by (simp add: draw_step_eq draw_record_again push_draw_def)
  from replayed_snoc [OF c(1) this] have "replayed sk cull (storage b') (draw_effect sk ?x c1)"
    using push_storage [OF p] by (simp add: b' draw_effect_def count_nested_storage)
  moreover have "twin b' (draw_effect sk ?x c1)"
    unfolding b' draw_effect_def twin_same(2,5) [OF c1(2)] by (intro opacity_twin nested_twin c1(2))
  ultimately show ?thesis by (auto simp: rebuilds_def)
qed

section \<open>Saves, layers and restores\<close>

lemma rebuilds_save: "rebuilds sk cull b \<Longrightarrow> rebuilds sk cull (save b)"
proof -
  assume "rebuilds sk cull b"
  then obtain c where c: "replayed sk cull (storage b) c" "twin b c" by (auto simp: rebuilds_def)
  obtain L where L: "c = b\<lparr>layer_stack := L\<rparr>" "shadow (layer_stack b) L" using c(2) by (rule twinE)
  have "twin (save b) c"
    by (simp add: twin_def save_def push_layer_def on_layer_def L shadow_save)
  then show ?thesis using c(1) by (auto simp: rebuilds_def save_def push_layer_def on_layer_def)
qed

lemma rebuilds_saveLayer:
  assumes "rebuilds sk cull b" "saveLayer sk r opts f b = Inr b'"
  shows "rebuilds sk cull b'"
proof -
  let ?o = "without_optimizations opts" and ?x = "layer_record r (without_optimizations opts) f"
  obtain c where c: "replayed sk cull (storage b) c" "twin b c" using assms(1) by (auto simp: rebuilds_def)
  define k where "k b1 = (let b = push_layer (used b) True (CheckLayerOpacityCompatibility (renders_with_attributes ?o) b1) in
        if renders_with_attributes ?o \<and> (\<not> current_opacity_compatibility b \<or> imageFilter (current b) \<noteq> None)
        then UpdateLayerOpacityCompatibility False b else b)" for b1
  obtain b1 where p: "push sk ?x 1 b = Inr b1" and b': "b' = k b1"
    using assms(2) unfolding saveLayer_def Let_def k_def by (auto simp: bindr_eq_Inr)
  obtain c1 where c1: "push sk ?x 1 c = Inr c1" "twin b1 c1" using push_twin [OF c(2) p] by auto
  have sto: "storage (k d) = storage d" for d
    by (simp add: k_def Let_def push_layer_def CheckLayerOpacityCompatibility_def)
  have o: "without_optimizations ?o = ?o" by (simp add: without_optimizations_def)
  have "dispatch ?x = SaveLayer r ?o f" by (cases r; cases f) (simp_all add: layer_record_def)
  then have "builder_step sk c (dispatch ?x) = Inr (k c1)"
    by (simp add: saveLayer_def o c1(1) Let_def k_def twin_same [OF c(2)] del: One_nat_def)
  from replayed_snoc [OF c(1) this, of "op_size sk ?x"] have "replayed sk cull (storage b') (k c1)"
    using push_storage [OF p] by (simp only: b' sto)
  moreover have "twin b' (k c1)"
    using layer_twin [OF check_twin [OF c1(2), of "renders_with_attributes ?o"], of "used b"]
    by (auto simp: b' k_def Let_def opacity_twin twin_same)
  ultimately show ?thesis by (auto simp: rebuilds_def)
qed

lemma distribute_step: "set_distribute x = Some y \<Longrightarrow> builder_step sk b (dispatch y) = builder_step sk b (dispatch x)"
  by (cases x rule: set_distribute.cases) (auto simp: saveLayer_def without_optimizations_def with_can_distribute_opacity_def)

lemma replayed_patch: "patch_at off st = Inr st' \<Longrightarrow> replayed sk cull st' c = replayed sk cull st c"
proof -
  have "run_ops (builder_step sk) b (map (dispatch \<circ> fst) st') = run_ops (builder_step sk) b (map (dispatch \<circ> fst) st)"
    if "patch_at off st = Inr st'" for b
    using that
  proof (induction off st arbitrary: b st' rule: patch_at.induct)
    case (2 off x n rest)
    then show ?case
      by (auto simp: bindr_eq_Inr distribute_step split: if_splits option.splits intro!: bindr_cong)
  qed simp
  then show "patch_at off st = Inr st' \<Longrightarrow> replayed sk cull st' c = replayed sk cull st c" by (simp add: replayed_def)
qed

lemma leave_layer_eq:
  assumes "ls \<noteq> []"
  shows "leave_layer l (b\<lparr>layer_stack := ls\<rparr>) =
    bindr (if has_layer l \<and> \<not> cannot_inherit_opacity l then patch_at (save_layer_offset l) (storage b) else Inr (storage b))
      (\<lambda>st. Inr (b\<lparr>layer_stack := left_stack l ls, storage := st\<rparr>))"
proof -
  have "b\<lparr>layer_stack := ls\<rparr> = b\<lparr>layer_stack := ls, storage := storage b\<rparr>" for b :: builder by simp
  then show ?thesis
    using assms by (cases ls) (auto simp: leave_layer_def left_stack_def on_layer_def)
qed

lemma restore_height:
  assumes "restore sk b = Inr b'" "length (layer_stack b) > 1"
  shows "length (layer_stack b') < length (layer_stack b)"
proof -
  obtain l m ls where ls: "layer_stack b = l # m # ls" using assms(2) by (cases "layer_stack b"; cases "tl (layer_stack b)") auto
  obtain b1 where b1: "(if \<not> has_deferred_save_op l then push sk RestoreOp 1 b else Inr b) = Inr b1"
    and lv: "leave_layer (hd (layer_stack b1)) (b1\<lparr>layer_stack := tl (layer_stack b1)\<rparr>) = Inr b'"
    using assms ls by (auto simp: restore_def current_layer_def bindr_eq_Inr split: if_splits)
  have "layer_stack b1 = layer_stack b"
    using b1 by (auto split: if_splits) (subst push_Inr(1), auto)
  then show ?thesis using lv ls by (auto simp: leave_layer_eq bindr_eq_Inr left_stack_def)
qed

lemma rebuilds_restore:
  assumes "rebuilds sk cull b" "restore sk b = Inr b'"
  shows "rebuilds sk cull b'"
proof (cases "length (layer_stack b) > 1")
  case True
  then obtain l ls where ls: "layer_stack b = l # ls" "ls \<noteq> []" by (cases "layer_stack b") auto
  obtain c where c: "replayed sk cull (storage b) c" "twin b c" using assms(1) by (auto simp: rebuilds_def)
  then obtain L where L: "c = b\<lparr>layer_stack := L\<rparr>" "shadow (l # ls) L" using ls by (auto elim: twinE)
  show ?thesis
  proof (cases "has_deferred_save_op l")
    case deferred: True
    have "\<not> has_layer l" using L(2) deferred by (auto simp: shadow_def deferred_plain_def)
    then have b': "b' = b\<lparr>layer_stack := left_stack l ls\<rparr>"
      using assms(2) True deferred ls by (simp add: restore_def current_layer_def leave_layer_eq)
    have "twin b' c" using shadow_leave_deferred [OF L(2) deferred] by (simp add: b' L(1) twin_def)
    then show ?thesis using c(1) b' by (auto simp: rebuilds_def)
  next
    case False
    then obtain b1 where p: "push sk RestoreOp 1 b = Inr b1"
      and lv: "leave_layer (hd (layer_stack b1)) (b1\<lparr>layer_stack := tl (layer_stack b1)\<rparr>) = Inr b'"
      using assms(2) True ls by (auto simp: restore_def current_layer_def bindr_eq_Inr)
    have b1: "layer_stack b1 = l # ls" by (subst push_Inr(1) [OF p]) (simp add: ls)
    obtain m ms where ms: "L = m # ms" using L(2) by (rule shadow_split) auto
    note sl = shadow_leave [OF L(2) [unfolded ms] False ls(2)]
    have nd: "\<not> has_deferred_save_op m" using L(2) by (simp add: shadow_def ms)
    obtain c1 where c1: "push sk RestoreOp 1 c = Inr c1" "twin b1 c1" using push_twin [OF c(2) p] by auto
    have lc: "layer_stack c1 = m # ms" by (subst push_Inr(1) [OF c1(1)]) (simp add: L(1) ms)
    have c1_eq: "c1 = b1\<lparr>layer_stack := m # ms\<rparr>" using c1(2) lc by (simp add: twin_def)
    obtain st where st: "(if has_layer l \<and> \<not> cannot_inherit_opacity l then patch_at (save_layer_offset l) (storage b1)
          else Inr (storage b1)) = Inr st" and b': "b' = b1\<lparr>layer_stack := left_stack l ls, storage := st\<rparr>"
      using lv ls(2) by (auto simp: b1 leave_layer_eq bindr_eq_Inr)
    define c' where "c' = b1\<lparr>layer_stack := left_stack m ms, storage := st\<rparr>"
    have "leave_layer m (b1\<lparr>layer_stack := ms\<rparr>) = Inr c'"
      unfolding leave_layer_eq [OF sl(3)] c'_def using st sl(2,4) by (auto simp: bindr_eq_Inr)
    then have "builder_step sk c (dispatch RestoreOp) = Inr c'"
      using c1(1) sl(3) nd by (simp add: restore_def L(1) ms current_layer_def lc) (simp add: c1_eq)
    from replayed_snoc [OF c(1) this, of "op_size sk RestoreOp"] have "replayed sk cull (storage b1) c'"
      using push_storage [OF p] by simp
    then have "replayed sk cull st c'"
      using st replayed_patch by (cases "has_layer l \<and> \<not> cannot_inherit_opacity l") auto
    moreover have "twin b' c'" using sl(1) by (simp add: twin_def b' c'_def)
    ultimately show ?thesis by (auto simp: rebuilds_def b')
  qed
next
  case False
  then show ?thesis using assms by (simp add: restore_def)
qed

section \<open>Transforms and clips\<close>

lemma rebuilds_flush:
  assumes "rebuilds sk cull b" "push_flushed sk x inc g b = Inr b'" "recorded sk x inc g"
  shows "rebuilds sk cull b'"
proof -
  obtain c where c: "replayed sk cull (storage b) c" "twin b c" using assms(1) by (auto simp: rebuilds_def)
  obtain b1 b2 where b1: "checkForDeferredSave sk b = Inr b1" and p: "push sk x inc b1 = Inr b2" and b': "b' = on_layer g b2"
    using assms(2) by (auto simp: push_flushed_def bindr_eq_Inr)
  have g: "keeps_flags g" and again: "\<And>b. builder_step sk b (dispatch x) = push_flushed sk x inc g b"
    using assms(3) by (auto simp: recorded_def)
  have on: "twin (on_layer g d) (on_layer g e)" if t: "twin d e" for d e
  proof -
    obtain L where L: "e = d\<lparr>layer_stack := L\<rparr>" "shadow (layer_stack d) L" by (rule twinE [OF t])
    then obtain l ls m ms where s: "layer_stack d = l # ls" "L = m # ms" by (elim shadow_split)
    show ?thesis using shadow_flags [OF _ g g, of l ls m ms] L s by (simp add: twin_def on_layer_def)
  qed
  show ?thesis
  proof (cases "has_deferred_save_op (current_layer b)")
    case False
    then have "b1 = b" using b1 by (simp add: checkForDeferredSave_def)
    moreover obtain c1 where c1: "push sk x inc c = Inr c1" "twin b2 c1" using push_twin [OF c(2) p [unfolded \<open>b1 = b\<close>]] by blast
    moreover have "\<not> has_deferred_save_op (current_layer c)"
    proof -
      obtain L where L: "c = b\<lparr>layer_stack := L\<rparr>" "shadow (layer_stack b) L" using c(2) by (rule twinE)
      then obtain l ls m ms where "L = m # ms" "layer_stack b = l # ls" by (elim shadow_split)
      then show ?thesis using L by (simp add: current_layer_def shadow_def)
    qed
    ultimately have "builder_step sk c (dispatch x) = Inr (on_layer g c1)"
      by (simp add: again push_flushed_def checkForDeferredSave_def)
    from replayed_snoc [OF c(1) this, of "op_size sk x"] have "replayed sk cull (storage b') (on_layer g c1)"
      using push_storage [OF p] \<open>b1 = b\<close> by (simp add: b' on_layer_def)
    then show ?thesis using on [OF c1(2)] by (auto simp: rebuilds_def b')
  next
    case True
    then obtain b0 where p0: "push sk SaveOp 1 b = Inr b0" and b1': "b1 = on_layer (\<lambda>l. l\<lparr>has_deferred_save_op := False\<rparr>) b0"
      using b1 by (auto simp: checkForDeferredSave_def bindr_eq_Inr)
    define cs where "cs = save c"
    have cs: "replayed sk cull (storage b @ [(SaveOp, op_size sk SaveOp)]) cs"
      by (rule replayed_snoc [OF c(1)]) (simp add: cs_def)
    obtain L where L: "c = b\<lparr>layer_stack := L\<rparr>" "shadow (layer_stack b) L" using c(2) by (rule twinE)
    define n where "n = LayerInfo (layer_matrix (current_layer c)) (clip_bounds (current_layer c)) 0 False"
    have cs': "cs = b\<lparr>layer_stack := n\<lparr>has_deferred_save_op := True\<rparr> # L\<rparr>"
      by (simp add: cs_def save_def push_layer_def on_layer_def n_def L(1))
    have b0: "push sk SaveOp 1 cs = Inr (b0\<lparr>layer_stack := layer_stack cs\<rparr>)" "layer_stack b0 = layer_stack b"
      using p0 by (auto simp: cs' push_eq Let_def split: if_splits)
    define c1 where "c1 = b0\<lparr>layer_stack := n # L\<rparr>"
    have nn: "n\<lparr>has_deferred_save_op := False\<rparr> = n" by (simp add: n_def LayerInfo_def)
    have ck: "checkForDeferredSave sk cs = Inr c1"
      using b0(1) nn by (simp add: checkForDeferredSave_def cs' current_layer_def on_layer_def c1_def)
    obtain l ls where l: "layer_stack b = l # ls" using L(2) by (rule shadow_split) auto
    have "twin b1 c1"
      using shadow_flush [of l ls L] L(2) True l b0(2)
      by (simp add: twin_def b1' c1_def on_layer_def n_def current_layer_def)
    then obtain c2 where c2: "push sk x inc c1 = Inr c2" "twin b2 c2" using push_twin [OF _ p] by auto
    have "builder_step sk cs (dispatch x) = Inr (on_layer g c2)"
      by (simp add: again push_flushed_def ck c2(1))
    from replayed_snoc [OF cs this, of "op_size sk x"] have "replayed sk cull (storage b') (on_layer g c2)"
      using push_storage [OF p] push_storage [OF p0] by (simp add: b' on_layer_def b1')
    then show ?thesis using on [OF c2(2)] by (auto simp: rebuilds_def b')
  qed
qed

section \<open>Whole recordings\<close>

lemma rebuilds_init: "rebuilds sk cull (DisplayListBuilder cull)"
  by (auto simp: rebuilds_def replayed_def DisplayListBuilder_def twin_def shadow_parts intro!: exI [of _ "DisplayListBuilder cull"])

lemma rebuilds_step:
  assumes "rebuilds sk cull b" "builder_step sk b c = Inr b'" "\<forall>a. c = Attr a \<longrightarrow> \<not> color_color_source a"
  shows "rebuilds sk cull b'"
proof (cases "flushing c")
  case True
  from flush_calls [OF this, of sk] show ?thesis
    unfolding flush_call_def using assms(1,2) rebuilds_flush by auto
next
  case False
  show ?thesis
  proof (cases c)
    case (Attr a)
    then show ?thesis using rebuilds_attr [OF assms(1)] assms(2,3) by simp
  qed (use assms False in \<open>auto intro: rebuilds_save rebuilds_saveLayer rebuilds_restore rebuilds_draw\<close>)
qed

lemma rebuilds_run:
  "rebuilds sk cull b \<Longrightarrow> run_ops (builder_step sk) b calls = Inr b' \<Longrightarrow>
   \<forall>a. Attr a \<in> set calls \<longrightarrow> \<not> color_color_source a \<Longrightarrow> rebuilds sk cull b'"
proof (induction calls arbitrary: b)
  case (Cons c calls)
  from Cons.prems(2) obtain b1 where "builder_step sk b c = Inr b1" "run_ops (builder_step sk) b1 calls = Inr b'"
    by (auto simp: bindr_eq_Inr)
  then show ?case using Cons.IH [of b1] rebuilds_step [OF Cons.prems(1), of c b1] Cons.prems(3) by auto
qed simp

lemma restore_loop_run:
  "restore_loop sk n 1 b = Inr b' \<Longrightarrow> length (layer_stack b) \<le> n \<Longrightarrow> rebuilds sk cull b \<Longrightarrow>
   rebuilds sk cull b' \<and> length (layer_stack b') \<le> 1"
proof (induction n arbitrary: b)
  case (Suc n)
  show ?case
  proof (cases "length (layer_stack b) > 1")
    case True
    then obtain b1 where r: "restore sk b = Inr b1" "restore_loop sk n 1 b1 = Inr b'"
      using Suc.prems(1) by (auto simp: bindr_eq_Inr)
    have "length (layer_stack b1) < length (layer_stack b)" by (rule restore_height [OF r(1) True])
    then show ?thesis using Suc.IH [OF r(2)] Suc.prems rebuilds_restore [OF _ r(1)] by simp
  qed (use Suc.prems in simp)
qed simp

text \<open>
  C4: round trip. A list recorded from calls of which none sets a plain color as the color source is its own recording:
  dispatched into a new builder with the same cull rectangle it gives the same list, with the same records and options of
  layers, sizes, counts and opacity flag. So the list holds no call that a builder would drop, put off or change. The
  condition is needed: for a plain color only the color is recorded, while the builder forgets the shader; so of a
  shader, a plain color and the shader again all three are recorded, but the third is dropped when they are recorded again.
\<close>

theorem recording_again_gives_the_same_list:
  assumes "record_calls sk cull calls = Inr dl" and "\<forall>a. Attr a \<in> set calls \<longrightarrow> \<not> color_color_source a"
  shows "record_calls sk cull (Dispatch dl) = Inr dl"
proof -
  obtain b0 b1 where run: "run_ops (builder_step sk) (DisplayListBuilder cull) calls = Inr b0"
    and l: "restore_loop sk (length (layer_stack b0)) 1 b0 = Inr b1"
    and dl: "dl = \<lparr>dl_storage = storage b1, dl_byte_count = used b1, dl_op_count = op_count b1,
           dl_nested_byte_count = nested_bytes b1, dl_nested_op_count = nested_op_count b1,
           dl_bounds_cull = cull_rect b1, can_apply_group_opacity = \<not> cannot_inherit_opacity (current_layer b1)\<rparr>"
    using assms(1) by (auto simp: record_calls_eq bindr_eq_Inr)
  have "rebuilds sk cull b1" and one: "length (layer_stack b1) \<le> 1"
    using restore_loop_run [OF l _ rebuilds_run [OF rebuilds_init run assms(2)]] by auto
  then obtain c where c: "replayed sk cull (storage b1) c" "twin b1 c" by (auto simp: rebuilds_def)
  then obtain L where L: "c = b1\<lparr>layer_stack := L\<rparr>" "shadow (layer_stack b1) L" by (auto elim: twinE)
  then obtain l ls m ms where s: "layer_stack b1 = l # ls" "L = m # ms" by (elim shadow_split)
  have "ls = []" "ms = []" "cannot_inherit_opacity l = cannot_inherit_opacity m"
    using one L(2) s by (auto simp: shadow_def recorded_layers_def tally_of_def split: if_splits)
  then show ?thesis using c(1) s
    by (simp add: record_calls_eq Dispatch_def dl replayed_def L(1) current_layer_def)
qed


theorem recording_again_gives_the_same_list_witness:
  "\<exists>dl. record_calls demo_skia demo_rect demo_calls = Inr dl \<and> record_calls demo_skia demo_rect (Dispatch dl) = Inr dl"
  using demo_recorded recording_again_gives_the_same_list [OF _ demo_no_colors] by blast

text \<open>The condition is needed: a shader, a plain color and the shader again.\<close>

definition shaded_calls :: "dl_call list" where
  "shaded_calls = [Attr (setColorSource (Some (UnknownColorSource 1))), Attr (setColorSource (Some (ColorColorSource 7))),
     Attr (setColorSource (Some (UnknownColorSource 1)))]"

lemma plain_color_sources_are_not_recorded_again:
  "\<exists>dl dl'. record_calls demo_skia demo_rect shaded_calls = Inr dl \<and> length (dl_storage dl) = 3 \<and>
     record_calls demo_skia demo_rect (Dispatch dl) = Inr dl' \<and> length (dl_storage dl') = 2"
  by (simp add: shaded_calls_def record_calls_def Build_def DisplayListBuilder_def push_def op_size_def SkAlignPtr_def
      demo_skia_def DL_BUILDER_PAGE_def Let_def Dispatch_def LayerInfo_def current_layer_def setter_defs NotEquals_def
      Equals_copy_def DlPaint_default_def color_source_eq.simps)

end
