(* ===== verification/Dl_Opacity.thy ===== *)
theory Dl_Opacity
  imports Dl_Rebuild
begin

text \<open>
  What the builder finds out about opacity, against a plain account of the calls: an opacity can be handed
  down to a list or to a layer exactly when at most one operation renders directly into it, and that one can
  take an opacity. The builder keeps two bits for each save and sets an option in the record of a layer
  after the fact.
\<close>

section \<open>The account\<close>

text \<open>
  For each save the operations that render into it, each with the answer whether it can take an opacity,
  and for a layer its number; and for each layer begun so far the option in its record.
\<close>

record account =
  acc_attrs :: attrs
  acc_levels :: "(nat option \<times> bool list) list"
  acc_options :: "bool list"

definition account_init :: account where
  "account_init = \<lparr>acc_attrs = (DlPaint_default, None), acc_levels = [(None, [])], acc_options = []\<rparr>"

definition one_at_most :: "bool list \<Rightarrow> bool" where
  "one_at_most ops \<longleftrightarrow> ops = [] \<or> ops = [True]"

definition renders :: "bool list \<Rightarrow> account \<Rightarrow> account" where
  "renders ops s = s\<lparr>acc_levels := (case acc_levels s of [] \<Rightarrow> [] | (k, xs) # ls \<Rightarrow> (k, xs @ ops) # ls)\<rparr>"

text \<open>A layer drawn with attributes that cannot take an opacity, or with an image filter, hands none down.\<close>

fun account_step :: "skia \<Rightarrow> account \<Rightarrow> dl_call \<Rightarrow> account" where
  "account_step sk s (Attr a) = s\<lparr>acc_attrs := attr_set sk a (acc_attrs s)\<rparr>"
| "account_step sk s Save = s\<lparr>acc_levels := (None, []) # acc_levels s\<rparr>"
| "account_step sk s (SaveLayer r opts f) =
     (let a = acc_attrs s; w = renders_with_attributes opts; s' = renders [w \<longrightarrow> attrs_compatible a] s in
      s'\<lparr>acc_levels := (Some (length (acc_options s)),
            if w \<and> (\<not> attrs_compatible a \<or> imageFilter (fst a) \<noteq> None) then [False] else []) # acc_levels s',
         acc_options := acc_options s @ [False]\<rparr>)"
| "account_step sk s Restore = (case acc_levels s of
     (k, ops) # l # ls \<Rightarrow>
       (case k of
          None \<Rightarrow> renders ops (s\<lparr>acc_levels := l # ls\<rparr>)
        | Some i \<Rightarrow> s\<lparr>acc_levels := l # ls,
            acc_options := (if one_at_most ops then (acc_options s)[i := True] else acc_options s)\<rparr>)
   | _ \<Rightarrow> s)"
| "account_step sk s (Draw d) =
     renders [draw_compatible (draw_record sk d) (attrs_compatible (acc_attrs s)) (fst (acc_attrs s))] s"
| "account_step sk s _ = s"

definition accounted :: "skia \<Rightarrow> dl_call list \<Rightarrow> account" where
  "accounted sk calls = (let s = foldl (account_step sk) account_init calls in
     foldl (account_step sk) s (replicate (length (acc_levels s) - 1) Restore))"

text \<open>The options in the records of the layers of a list, in their order.\<close>

fun layer_option :: "dl_op \<Rightarrow> bool option" where
  "layer_option (SaveLayerOp o1) = Some (can_distribute_opacity o1)"
| "layer_option (SaveLayerBoundsOp r o1) = Some (can_distribute_opacity o1)"
| "layer_option (SaveLayerBackdropOp o1 f) = Some (can_distribute_opacity o1)"
| "layer_option (SaveLayerBackdropBoundsOp r o1 f) = Some (can_distribute_opacity o1)"
| "layer_option _ = None"

definition layer_options :: "(dl_op \<times> nat) list \<Rightarrow> bool list" where
  "layer_options st = List.map_filter (layer_option \<circ> fst) st"

section \<open>Options in the storage\<close>

definition shape :: "(dl_op \<times> nat) list \<Rightarrow> (bool \<times> nat) list" where
  "shape st = map (\<lambda>(x, n). (layer_option x \<noteq> None, n)) st"

text \<open>The record at an offset is that of the layer with the given number.\<close>

fun place :: "(bool \<times> nat) list \<Rightarrow> nat \<Rightarrow> nat \<Rightarrow> bool" where
  "place [] off k \<longleftrightarrow> False"
| "place ((b, n) # sh) off k \<longleftrightarrow> b \<and> off = 0 \<and> k = 0 \<or>
     n \<le> off \<and> (if b then k > 0 \<and> place sh (off - n) (k - 1) else place sh (off - n) k)"

lemma place_append: "place sh off k \<Longrightarrow> place (sh @ sh') off k"
  by (induction sh off k rule: place.induct) (auto split: if_splits)

lemma layer_options_simps [simp]:
  "layer_options [] = []"
  "layer_options ((x, n) # st) = (case layer_option x of None \<Rightarrow> layer_options st | Some v \<Rightarrow> v # layer_options st)"
  "layer_options (st @ st') = layer_options st @ layer_options st'"
  by (simp_all add: layer_options_def map_filter_def split: option.splits)

lemma place_end: "place (shape st @ [(True, n)]) (bytes st) (length (layer_options st))"
  by (induction st) (auto simp: shape_def split: option.splits)

lemma set_distribute_option: "set_distribute x = Some y \<Longrightarrow> layer_option y = Some True \<and> layer_option x \<noteq> None"
  by (cases x rule: set_distribute.cases) (auto simp: with_can_distribute_opacity_def)

lemma no_layer_option: "set_distribute x = None \<Longrightarrow> layer_option x = None"
  by (cases x) simp_all

lemma patch_place:
  assumes "place (shape st) off k" "\<forall>x\<in>set st. 0 < snd x" "patch_at off st = Inr st'"
  shows "layer_options st' = (layer_options st)[k := True] \<and> shape st' = shape st"
  using assms
proof (induction st arbitrary: off k st')
  case Nil
  then show ?case by (simp add: shape_def)
next
  case (Cons xn st)
  obtain x n where xn: "xn = (x, n)" by (cases xn)
  have n: "0 < n" using Cons.prems(2) xn by simp
  show ?case
  proof (cases "off = 0")
    case True
    then obtain y where y: "set_distribute x = Some y" "st' = (y, n) # st" "k = 0"
      using Cons.prems n by (auto simp: xn shape_def split: option.splits)
    then show ?thesis using set_distribute_option [OF y(1)] by (auto simp: xn shape_def)
  next
    case False
    then obtain r where r: "patch_at (off - n) st = Inr r" "st' = (x, n) # r"
      using Cons.prems(3) by (auto simp: xn bindr_eq_Inr split: if_splits)
    have p: "if layer_option x \<noteq> None then k > 0 \<and> place (shape st) (off - n) (k - 1) else place (shape st) (off - n) k"
      using Cons.prems(1) False by (auto simp: xn shape_def split: if_splits)
    have ih: "layer_options r = (layer_options st)[(if layer_option x \<noteq> None then k - 1 else k) := True] \<and> shape r = shape st"
      by (rule Cons.IH [OF _ _ r(1)]) (use Cons.prems(2) p in \<open>auto split: if_splits\<close>)
    then show ?thesis using p r(2) by (cases k) (auto simp: xn shape_def split: option.splits)
  qed
qed

section \<open>The builder keeps the account\<close>

definition tally_ops :: "bool list \<Rightarrow> tally" where
  "tally_ops ops = (if ops = [] then Nothing else if ops = [True] then One else Too_Much)"

lemma tally_ops_append: "tally_ops (xs @ ys) = add_tally (tally_ops xs) (tally_ops ys)"
  by (cases xs; cases ys) (auto simp: tally_ops_def)

lemma tally_ops_one: "one_at_most ops \<longleftrightarrow> tally_ops ops \<noteq> Too_Much"
  by (simp add: tally_ops_def one_at_most_def)

fun level_ok :: "(bool \<times> nat) list \<Rightarrow> layer \<Rightarrow> nat option \<times> bool list \<Rightarrow> bool" where
  "level_ok sh l (k, ops) \<longleftrightarrow> has_layer l = (k \<noteq> None) \<and> tally_of l = tally_ops ops \<and>
     (case k of None \<Rightarrow> True | Some i \<Rightarrow> place sh (save_layer_offset l) i)"

definition keeps_account :: "skia \<Rightarrow> builder \<Rightarrow> account \<Rightarrow> bool" where
  "keeps_account sk b s \<longleftrightarrow> same_attrs (base_attrs b) (acc_attrs s) \<and> blender_ok sk (base_attrs b) \<and>
     current_opacity_compatibility b = attrs_compatible (base_attrs b) \<and> mem_ok b \<and>
     list_all2 (level_ok (shape (storage b))) (layer_stack b) (acc_levels s) \<and> layer_stack b \<noteq> [] \<and>
     layer_options (storage b) = acc_options s"

lemma float_less_same: "same_float x y \<Longrightarrow> float_less 0 x = float_less 0 y"
  by (auto simp: same_float_def float_eq_def float_less_def signed_magnitude_def take_bit_eq_mask split: if_splits)

lemma same_attrs_opacity:
  assumes "same_attrs x y"
  shows "attrs_compatible x = attrs_compatible y" "draw_compatible d ok (fst x) = draw_compatible d ok (fst y)"
    "imageFilter (fst x) = None \<longleftrightarrow> imageFilter (fst y) = None"
proof -
  have s: "same_copy color_filter_eq (colorFilter (fst x)) (colorFilter (fst y))" "same_float (strokeWidth (fst x)) (strokeWidth (fst y))"
    "same_copy image_filter_eq (imageFilter (fst x)) (imageFilter (fst y))" "isInvertColors (fst x) = isInvertColors (fst y)"
    "snd x = snd y" "snd x = None \<longrightarrow> blendMode (fst x) = blendMode (fst y)" "drawStyle (fst x) = drawStyle (fst y)"
    using assms by (auto simp: same_attrs_def Let_def)
  show "imageFilter (fst x) = None \<longleftrightarrow> imageFilter (fst y) = None"
    using s(3) by (auto simp: same_copy_def Equals_copy_def split: option.splits)
  have "colorFilter (fst x) = None \<longleftrightarrow> colorFilter (fst y) = None"
    using s(1) by (auto simp: same_copy_def Equals_copy_def split: option.splits)
  then show "attrs_compatible x = attrs_compatible y" using s by (auto simp: attrs_compatible_def)
  show "draw_compatible d ok (fst x) = draw_compatible d ok (fst y)"
    using s(7) float_less_same [OF s(2)] by (cases d) simp_all
qed

lemma level_ok_append: "level_ok sh l x \<Longrightarrow> level_ok (sh @ sh') l x"
  by (cases x) (auto simp: place_append split: option.splits)

lemma levels_append: "list_all2 (level_ok sh) ls xs \<Longrightarrow> list_all2 (level_ok (sh @ sh')) ls xs"
  by (erule list_all2_mono) (rule level_ok_append)

lemma push_mem: "mem_ok b \<Longrightarrow> push sk x inc b = Inr b' \<Longrightarrow> inc = (if counted x then 1 else 0) \<Longrightarrow> mem_ok b'"
  using good_push [of False b sk inc x] by simp

lemma keeps_push:
  assumes "keeps_account sk b s" "push sk x inc b = Inr b'" "inc = (if counted x then 1 else 0)" "layer_option x = None"
  shows "keeps_account sk b' s"
proof -
  have p: "layer_stack b' = layer_stack b" "base_attrs b' = base_attrs b"
    "current_opacity_compatibility b' = current_opacity_compatibility b" "storage b' = storage b @ [(x, op_size sk x)]"
    by (subst push_Inr(1) [OF assms(2)], simp add: base_attrs_def)+
  have "list_all2 (level_ok (shape (storage b'))) (layer_stack b) (acc_levels s)"
    using assms(1) levels_append [of "shape (storage b)"] by (simp add: keeps_account_def p(4) shape_def)
  then show ?thesis using assms(1,4) push_mem [OF _ assms(2,3)] by (simp add: keeps_account_def p)
qed

lemma mark_fields [simp]:
  "has_layer (mark_incompatible l) = has_layer l" "save_layer_offset (mark_incompatible l) = save_layer_offset l"
  "has_layer (add_compatible_op l) = has_layer l" "save_layer_offset (add_compatible_op l) = save_layer_offset l"
  by (simp_all add: mark_incompatible_def add_compatible_op_def)

lemma keeps_tally:
  assumes "keeps_account sk b s" "\<And>l. has_layer (g l) = has_layer l" "\<And>l. save_layer_offset (g l) = save_layer_offset l"
    "\<And>l. tally_of (g l) = add_tally (tally_of l) (tally_ops ops)"
  shows "keeps_account sk (on_layer g b) (renders ops s)"
proof -
  obtain l ls where l: "layer_stack b = l # ls" using assms(1) by (cases "layer_stack b") (auto simp: keeps_account_def)
  then obtain k xs ys where s: "acc_levels s = (k, xs) # ys"
    using assms(1) by (cases "acc_levels s") (auto simp: keeps_account_def)
  have "mem_ok (on_layer g b)"
    using assms mem_ok_on_layer [of g b] by (simp add: keeps_account_def keeps_layer_def)
  then show ?thesis using assms
    by (cases k) (simp_all add: keeps_account_def renders_def on_layer_def l s base_attrs_def tally_ops_append)
qed

lemma renders_Nil: "keeps_account sk b s \<Longrightarrow> renders [] s = s"
  by (cases "acc_levels s") (auto simp: keeps_account_def renders_def)

lemma keeps_same_tally:
  assumes "keeps_account sk b s" "\<And>l. has_layer (g l) = has_layer l" "\<And>l. save_layer_offset (g l) = save_layer_offset l"
    "\<And>l. tally_of (g l) = tally_of l"
  shows "keeps_account sk (on_layer g b) s"
  using keeps_tally [OF assms(1-3), of "[]"] assms(4) renders_Nil [OF assms(1)] by (simp add: tally_ops_def)

lemma keeps_opacity: "keeps_account sk b s \<Longrightarrow> keeps_account sk (UpdateLayerOpacityCompatibility v b) (renders [v] s)"
  using keeps_tally [of sk b s add_compatible_op "[True]"] keeps_tally [of sk b s mark_incompatible "[False]"]
  by (cases v) (simp_all add: UpdateLayerOpacityCompatibility_def tally_ops_def mark_fields)

section \<open>Along the calls\<close>

lemma updated_opacity:
  "current_opacity_compatibility (UpdateCurrentOpacityCompatibility b) = attrs_compatible (base_attrs b)"
  by (simp add: UpdateCurrentOpacityCompatibility_def attrs_compatible_def base_attrs_def)

lemma keeps_attr:
  assumes "keeps_account sk b s" "attr_step sk a b = Inr b'" "\<not> color_color_source a"
  shows "keeps_account sk b' (account_step sk s (Attr a))"
proof -
  obtain v where v: "attr_changes sk a (base_attrs b) = Inr v" "(if v then push_attrs sk a b else Inr b) = Inr b'"
    using assms(2) unfolding attr_step_eq [OF assms(3)] by (rule bindrE)
  have k: "same_attrs (base_attrs b) (acc_attrs s)" "blender_ok sk (base_attrs b)"
    "current_opacity_compatibility b = attrs_compatible (base_attrs b)" "mem_ok b"
    using assms(1) by (auto simp: keeps_account_def)
  show ?thesis
  proof (cases v)
    case False
    then show ?thesis using assms(1) v unchanged_attrs [OF _ k(2,1), of a] by (auto simp: keeps_account_def)
  next
    case True
    let ?a = "attr_set sk a (base_attrs b)" and ?x = "AttrOp (attr_record sk a)"
    obtain b1 where p: "push sk ?x 0 (with_attrs ?a b) = Inr b1"
      and b': "b' = (if touches_opacity a then UpdateCurrentOpacityCompatibility b1 else b1)"
      using v True by (auto simp: push_attrs_def bindr_eq_Inr)
    have parts: "layer_stack b1 = layer_stack b" "base_attrs b1 = ?a" "storage b1 = storage b @ [(?x, op_size sk ?x)]"
      "current_opacity_compatibility b1 = current_opacity_compatibility b"
      by (subst push_Inr(1) [OF p], simp add: base_attrs_def with_attrs_def)+
    have m: "mem_ok b1" by (rule push_mem [OF _ p]) (use k(4) in \<open>simp_all add: mem_ok_def with_attrs_def\<close>)
    then have "mem_ok b'" by (simp add: b' mem_ok_def UpdateCurrentOpacityCompatibility_def)
    moreover have "current_opacity_compatibility b' = attrs_compatible ?a"
      using attrs_compatible_update [OF k(3), of a sk] parts(2,4)
      by (cases "touches_opacity a") (simp_all add: b' updated_opacity)
    moreover have "base_attrs b' = ?a" "layer_stack b' = layer_stack b1" "storage b' = storage b1"
      using parts(2) by (auto simp: b' base_attrs_def UpdateCurrentOpacityCompatibility_def)
    moreover have "list_all2 (level_ok (shape (storage b1))) (layer_stack b) (acc_levels s)"
      using assms(1) levels_append [of "shape (storage b)"] by (simp add: keeps_account_def parts(3) shape_def)
    ultimately show ?thesis
      using assms(1) changed_attrs [OF k(1)] blender_ok_attr_set [OF k(2)] parts
      by (simp add: keeps_account_def)
  qed
qed

lemma keeps_draw:
  assumes "keeps_account sk b s" "draw_step sk d b = Inr b'"
  shows "keeps_account sk b' (account_step sk s (Draw d))"
proof -
  let ?x = "draw_record sk d"
  obtain b1 where p: "push sk (DrawOp ?x) 1 b = Inr b1" and b': "b' = draw_effect sk ?x b1"
    using assms(2) by (auto simp: draw_step_eq push_draw_def bindr_eq_Inr)
  have k: "keeps_account sk b1 s" by (rule keeps_push [OF assms(1) p]) simp_all
  then have "keeps_account sk (count_nested sk ?x b1) s"
    by (cases ?x) (simp_all add: keeps_account_def mem_ok_def base_attrs_def)
  moreover have "draw_compatible ?x (current_opacity_compatibility b1) (current b1) =
      draw_compatible ?x (attrs_compatible (acc_attrs s)) (fst (acc_attrs s))"
    using k same_attrs_opacity [of "base_attrs b1" "acc_attrs s"] by (simp add: keeps_account_def) (simp add: base_attrs_def)
  ultimately show ?thesis using keeps_opacity by (simp add: b' draw_effect_def)
qed

lemma keeps_save: "keeps_account sk b s \<Longrightarrow> keeps_account sk (save b) (account_step sk s Save)"
  by (simp add: keeps_account_def save_def push_layer_def on_layer_def base_attrs_def mem_ok_def tally_ops_def)

lemma keeps_saveLayer:
  assumes "keeps_account sk b s" "saveLayer sk r opts f b = Inr b'"
  shows "keeps_account sk b' (account_step sk s (SaveLayer r opts f))"
proof -
  let ?x = "layer_record r (without_optimizations opts) f" and ?a = "acc_attrs s"
  define w where "w = renders_with_attributes opts"
  have wo: "renders_with_attributes (without_optimizations opts) = w" by (simp add: w_def without_optimizations_def)
  obtain b1 where p: "push sk ?x 1 b = Inr b1"
    and b': "b' = (let b = push_layer (used b) True (CheckLayerOpacityCompatibility w b1) in
        if w \<and> (\<not> current_opacity_compatibility b \<or> imageFilter (current b) \<noteq> None)
        then UpdateLayerOpacityCompatibility False b else b)"
    using assms(2) unfolding saveLayer_def Let_def wo by (auto simp: bindr_eq_Inr)
  have x: "layer_option ?x = Some False" "counted ?x"
    by (cases r; cases f; simp add: layer_record_def without_optimizations_def)+
  have parts: "layer_stack b1 = layer_stack b" "base_attrs b1 = base_attrs b"
    "current_opacity_compatibility b1 = current_opacity_compatibility b" "storage b1 = storage b @ [(?x, op_size sk ?x)]"
    by (subst push_Inr(1) [OF p], simp add: base_attrs_def)+
  have k: "same_attrs (base_attrs b) ?a" "current_opacity_compatibility b = attrs_compatible (base_attrs b)"
    "mem_ok b" "layer_options (storage b) = acc_options s"
    using assms(1) by (auto simp: keeps_account_def)
  have used: "used b = bytes (storage b)" using k(3) by (simp add: mem_ok_def records_ok_def)
  have sh: "shape (storage b1) = shape (storage b) @ [(True, op_size sk ?x)]" by (simp add: parts(4) shape_def x del: not_None_eq)
  have place: "place (shape (storage b1)) (used b) (length (acc_options s))"
    unfolding sh used k(4) [symmetric] by (rule place_end)
  define s1 where "s1 = s\<lparr>acc_options := acc_options s @ [False]\<rparr>"
  have "keeps_account sk b1 s1"
    using assms(1) push_mem [OF k(3) p] x levels_append [of "shape (storage b)"]
    by (simp add: keeps_account_def parts s1_def sh [unfolded parts(4)])
  from keeps_opacity [OF this, of "w \<longrightarrow> attrs_compatible ?a"]
  have k2: "keeps_account sk (CheckLayerOpacityCompatibility w b1) (renders [w \<longrightarrow> attrs_compatible ?a] s1)"
    using k same_attrs_opacity(1) [OF k(1)] parts(3) by (simp add: CheckLayerOpacityCompatibility_def)
  let ?b2 = "push_layer (used b) True (CheckLayerOpacityCompatibility w b1)"
  define s3 where "s3 ops = (renders [w \<longrightarrow> attrs_compatible ?a] s1)\<lparr>acc_levels :=
      (Some (length (acc_options s)), ops) # acc_levels (renders [w \<longrightarrow> attrs_compatible ?a] s1)\<rparr>" for ops
  have sto: "storage (CheckLayerOpacityCompatibility w b1) = storage b1"
    by (simp add: CheckLayerOpacityCompatibility_def)
  have at: "is_layer_at (storage b1) (used b)"
    using patch_at_end [OF _ set_distribute_layer_record, of "storage b" r "without_optimizations opts" f "op_size sk ?x"]
      k(3) by (auto simp: is_layer_at_def parts(4) used mem_ok_def records_ok_def)
  have k3: "keeps_account sk ?b2 (s3 [])"
    using k2 place at by (simp add: keeps_account_def s3_def push_layer_def mem_ok_push_layer [unfolded push_layer_def]
        sto base_attrs_def tally_ops_def)
  have cur: "current_opacity_compatibility ?b2 = attrs_compatible ?a" "imageFilter (current ?b2) = None \<longleftrightarrow> imageFilter (fst ?a) = None"
  proof -
    have "acc_attrs (s3 []) = ?a" by (simp add: s3_def renders_def s1_def)
    then have e: "same_attrs (base_attrs ?b2) ?a" "current_opacity_compatibility ?b2 = attrs_compatible (base_attrs ?b2)"
      using k3 by (simp_all add: keeps_account_def)
    show "current_opacity_compatibility ?b2 = attrs_compatible ?a" using e same_attrs_opacity(1) [OF e(1)] by simp
    show "imageFilter (current ?b2) = None \<longleftrightarrow> imageFilter (fst ?a) = None"
      using same_attrs_opacity(3) [OF e(1)] by (simp add: base_attrs_def)
  qed
  have "renders [False] (s3 []) = s3 [False]" by (simp add: renders_def s3_def)
  then have "keeps_account sk (UpdateLayerOpacityCompatibility False ?b2) (s3 [False])" using keeps_opacity [OF k3, of False] by simp
  moreover have "account_step sk s (SaveLayer r opts f) =
      s3 (if w \<and> (\<not> attrs_compatible ?a \<or> imageFilter (fst ?a) \<noteq> None) then [False] else [])"
    by (simp add: Let_def s3_def w_def renders_def s1_def)
  moreover have "b' = (if w \<and> (\<not> attrs_compatible ?a \<or> imageFilter (fst ?a) \<noteq> None)
      then UpdateLayerOpacityCompatibility False ?b2 else ?b2)"
    by (simp only: b' Let_def cur)
  ultimately show ?thesis using k3
    by (cases "w \<and> (\<not> attrs_compatible ?a \<or> imageFilter (fst ?a) \<noteq> None)") (simp_all only: if_True if_False simp_thms)
qed

lemma keeps_on_layer: "keeps_account sk b s \<Longrightarrow> keeps_flags g \<Longrightarrow> keeps_account sk (on_layer g b) s"
  by (rule keeps_same_tally) (simp_all add: keeps_flags_def tally_of_def)

lemma keeps_deferred: "keeps_account sk b s \<Longrightarrow> keeps_account sk (on_layer (\<lambda>l. l\<lparr>has_deferred_save_op := v\<rparr>) b) s"
  by (rule keeps_same_tally) simp_all

lemma keeps_flush:
  assumes "keeps_account sk b s" "push_flushed sk x inc g b = Inr b'" "recorded sk x inc g"
  shows "keeps_account sk b' s"
proof -
  obtain b1 b2 where b1: "checkForDeferredSave sk b = Inr b1" and p: "push sk x inc b1 = Inr b2" and b': "b' = on_layer g b2"
    using assms(2) by (auto simp: push_flushed_def bindr_eq_Inr)
  have "keeps_account sk b1 s"
    using b1 assms(1) keeps_deferred keeps_push [OF assms(1), of SaveOp 1]
    by (auto simp: checkForDeferredSave_def bindr_eq_Inr split: if_splits)
  from keeps_push [OF this p] have "keeps_account sk b2 s" using assms(3) by (auto simp: recorded_def no_layer_option)
  then show ?thesis using keeps_on_layer assms(3) by (simp add: b' recorded_def)
qed

lemma keeps_restore:
  assumes "keeps_account sk b s" "restore sk b = Inr b'"
  shows "keeps_account sk b' (account_step sk s Restore)"
proof (cases "length (layer_stack b) > 1")
  case False
  moreover have "length (acc_levels s) = length (layer_stack b)" "layer_stack b \<noteq> []"
    using assms(1) by (auto simp: keeps_account_def dest: list_all2_lengthD)
  ultimately have "\<exists>x. acc_levels s = [x]" by (cases "acc_levels s"; cases "tl (acc_levels s)") auto
  then show ?thesis using False assms by (auto simp: restore_def split: option.splits)
next
  case True
  then obtain l m ls where ls: "layer_stack b = l # m # ls" by (cases "layer_stack b"; cases "tl (layer_stack b)") auto
  then obtain k ops x xs where xs: "acc_levels s = (k, ops) # x # xs"
    using assms(1) by (auto simp: keeps_account_def list_all2_Cons1)
  obtain b1 where b1: "(if \<not> has_deferred_save_op l then push sk RestoreOp 1 b else Inr b) = Inr b1"
    and lv: "leave_layer (hd (layer_stack b1)) (b1\<lparr>layer_stack := tl (layer_stack b1)\<rparr>) = Inr b'"
    using assms(2) True ls by (auto simp: restore_def current_layer_def bindr_eq_Inr split: if_splits)
  have st: "layer_stack b1 = l # m # ls"
    using b1 ls by (auto split: if_splits) (subst push_Inr(1), auto)
  have k1: "keeps_account sk b1 s"
    using b1 assms(1) keeps_push [OF assms(1), of RestoreOp 1 b1] by (auto split: if_splits)
  let ?s = "s\<lparr>acc_levels := x # xs\<rparr>" and ?b = "b1\<lparr>layer_stack := m # ls\<rparr>"
  have lv': "leave_layer l ?b = Inr b'" using lv st by simp
  have kb: "keeps_account sk ?b ?s" using k1 by (auto simp: keeps_account_def st xs base_attrs_def mem_ok_def)
  have l: "has_layer l = (k \<noteq> None)" "tally_of l = tally_ops ops"
    using k1 by (auto simp: keeps_account_def st xs)
  show ?thesis
  proof (cases k)
    case None
    let ?g = "\<lambda>y. if cannot_inherit_opacity l then mark_incompatible y else if has_compatible_op l then add_compatible_op y else y"
    have "b' = on_layer ?g ?b" using lv' l None by (auto simp: leave_layer_def on_layer_def split: if_splits)
    moreover have "account_step sk s Restore = renders ops ?s" using None xs by simp
    moreover have "keeps_account sk (on_layer ?g ?b) (renders ops ?s)"
      by (rule keeps_tally [OF kb], unfold l(2) [symmetric])
        (auto simp: mark_incompatible_def add_compatible_op_def, auto simp: tally_of_def)
    ultimately show ?thesis by simp
  next
    case (Some i)
    have pl: "place (shape (storage b1)) (save_layer_offset l) i" using k1 Some by (auto simp: keeps_account_def st xs)
    show ?thesis
    proof (cases "cannot_inherit_opacity l")
      case True
      then have "\<not> one_at_most ops" using l(2) by (simp add: tally_ops_one tally_of_def [of l])
      moreover have "b' = ?b" using lv' True Some l(1) by (simp add: leave_layer_def)
      ultimately show ?thesis using kb Some xs by (simp add: fun_upd_def)
    next
      case False
      then have one: "one_at_most ops" using l(2) by (auto simp: tally_ops_one tally_of_def [of l] split: if_splits)
      obtain z where z: "patch_at (save_layer_offset l) (storage b1) = Inr z" and b': "b' = ?b\<lparr>storage := z\<rparr>"
        using lv' False Some l(1) by (auto simp: leave_layer_def bindr_eq_Inr)
      have mem: "mem_ok b1" "mem_ok ?b" using k1 kb by (simp_all add: keeps_account_def)
      then have "\<forall>x\<in>set (storage b1). 0 < snd x" by (auto simp: mem_ok_def records_ok_def)
      note pp = patch_place [OF pl this z]
      have "mem_ok b'"
        using mem(2) patch_records [OF z] is_layer_at_patch [OF z] by (auto simp: b' mem_ok_def)
      then show ?thesis using kb Some xs one pp by (simp add: b' keeps_account_def base_attrs_def)
    qed
  qed
qed

lemma keeps_step:
  assumes "keeps_account sk b s" "builder_step sk b c = Inr b'" "\<forall>a. c = Attr a \<longrightarrow> \<not> color_color_source a"
  shows "keeps_account sk b' (account_step sk s c)"
proof (cases "flushing c")
  case True
  then have "account_step sk s c = s" by (cases c) simp_all
  with flush_calls [OF True, of sk] show ?thesis
    unfolding flush_call_def using assms(1,2) keeps_flush by auto
next
  case False
  show ?thesis
  proof (cases c)
    case (Attr a)
    then show ?thesis using keeps_attr [OF assms(1)] assms(2,3) by simp
  next
    case Save
    then show ?thesis using keeps_save [OF assms(1)] assms(2) by auto
  next
    case (SaveLayer r opts f)
    then show ?thesis using keeps_saveLayer [OF assms(1)] assms(2) by simp
  next
    case Restore
    then show ?thesis using keeps_restore [OF assms(1)] assms(2) by simp
  next
    case (Draw d)
    then show ?thesis using keeps_draw [OF assms(1)] assms(2) by simp
  qed (use False in simp_all)
qed

lemma keeps_run:
  "keeps_account sk b s \<Longrightarrow> run_ops (builder_step sk) b calls = Inr b' \<Longrightarrow>
   \<forall>a. Attr a \<in> set calls \<longrightarrow> \<not> color_color_source a \<Longrightarrow> keeps_account sk b' (foldl (account_step sk) s calls)"
proof (induction calls arbitrary: b s)
  case (Cons c calls)
  from Cons.prems(2) obtain b1 where "builder_step sk b c = Inr b1" "run_ops (builder_step sk) b1 calls = Inr b'"
    by (auto simp: bindr_eq_Inr)
  then show ?case using Cons.IH [of b1] keeps_step [OF Cons.prems(1), of c b1] Cons.prems(3) by auto
qed simp

definition restored :: "skia \<Rightarrow> account \<Rightarrow> account" where
  "restored sk s = foldl (account_step sk) s (replicate (length (acc_levels s) - 1) Restore)"

lemma keeps_heights: "keeps_account sk b s \<Longrightarrow> length (acc_levels s) = length (layer_stack b)"
  by (auto simp: keeps_account_def dest: list_all2_lengthD)

lemma account_Restore_height:
  "length (acc_levels (account_step sk s Restore)) = (if length (acc_levels s) > 1 then length (acc_levels s) - 1 else length (acc_levels s))"
proof (cases "acc_levels s")
  case (Cons x xs)
  then show ?thesis by (cases x; cases xs) (auto simp: renders_def split: option.splits)
qed simp

lemma keeps_restore_loop:
  "keeps_account sk b s \<Longrightarrow> restore_loop sk n 1 b = Inr b' \<Longrightarrow> length (layer_stack b) \<le> n \<Longrightarrow>
   keeps_account sk b' (restored sk s) \<and> length (layer_stack b') = 1"
proof (induction n arbitrary: b s)
  case 0
  then show ?case by (simp add: keeps_account_def)
next
  case (Suc n)
  note h = keeps_heights [OF Suc.prems(1)]
  show ?case
  proof (cases "length (layer_stack b) > 1")
    case True
    then obtain b1 where r: "restore sk b = Inr b1" and l: "restore_loop sk n 1 b1 = Inr b'"
      using Suc.prems(2) by (auto simp: bindr_eq_Inr)
    let ?s = "account_step sk s Restore"
    have k: "keeps_account sk b1 ?s" by (rule keeps_restore [OF Suc.prems(1) r])
    have "length (acc_levels ?s) = length (acc_levels s) - 1" using True h by (simp only: account_Restore_height if_True)
    moreover have "length (acc_levels s) - 1 = Suc (length (acc_levels s) - 1 - 1)" using True h by simp
    ultimately have "restored sk s = restored sk ?s" unfolding restored_def by (metis foldl_Cons replicate_Suc)
    moreover have "length (layer_stack b1) \<le> n" using restore_height [OF r True] Suc.prems(3) by simp
    ultimately show ?thesis using Suc.IH [OF k l] by simp
  next
    case False
    moreover have "layer_stack b \<noteq> []" using Suc.prems(1) by (simp add: keeps_account_def)
    ultimately show ?thesis using Suc.prems h by (cases "layer_stack b") (auto simp: restored_def)
  qed
qed

lemma keeps_init: "keeps_account sk (DisplayListBuilder cull) account_init"
  using good_init [of False cull]
  by (simp add: keeps_account_def account_init_def DisplayListBuilder_def base_attrs_def blender_ok_def attrs_compatible_def
      DlPaint_default_def IsOpacityCompatible_def tally_ops_def)

text \<open>
  C5: refinement. The opacity answers of a list recorded from calls of which none sets a plain color as the color source
  are those of the account: the list says that it can apply a
  group opacity exactly when at most one operation renders into it outside of layers, and that one can take
  an opacity; and the record of each layer, in the order of the calls, has its option set exactly when the
  same holds of what renders into that layer, and the layer itself is not drawn with attributes that
  stand in the way.
\<close>

theorem opacity_answers_are_exact:
  assumes "record_calls sk cull calls = Inr dl" and "\<forall>a. Attr a \<in> set calls \<longrightarrow> \<not> color_color_source a"
  shows "can_apply_group_opacity dl = one_at_most (snd (hd (acc_levels (accounted sk calls)))) \<and>
         layer_options (dl_storage dl) = acc_options (accounted sk calls)"
proof -
  obtain b0 b1 where run: "run_ops (builder_step sk) (DisplayListBuilder cull) calls = Inr b0"
    and l: "restore_loop sk (length (layer_stack b0)) 1 b0 = Inr b1"
    and dl: "dl = \<lparr>dl_storage = storage b1, dl_byte_count = used b1, dl_op_count = op_count b1,
           dl_nested_byte_count = nested_bytes b1, dl_nested_op_count = nested_op_count b1,
           dl_bounds_cull = cull_rect b1, can_apply_group_opacity = \<not> cannot_inherit_opacity (current_layer b1)\<rparr>"
    using assms(1) by (auto simp: record_calls_eq bindr_eq_Inr)
  let ?s = "accounted sk calls"
  have k: "keeps_account sk b1 ?s"
    using keeps_restore_loop [OF keeps_run [OF keeps_init run assms(2)] l] by (simp add: accounted_def restored_def Let_def)
  then obtain m ls k xs ys where s: "layer_stack b1 = m # ls" "acc_levels ?s = (k, xs) # ys"
    by (cases "layer_stack b1"; cases "acc_levels ?s") (auto simp: keeps_account_def)
  then have "tally_of m = tally_ops xs" using k by (simp add: keeps_account_def)
  moreover have "cannot_inherit_opacity m \<longleftrightarrow> tally_of m = Too_Much" by (simp add: tally_of_def)
  ultimately show ?thesis using k s
    by (simp add: dl current_layer_def keeps_account_def tally_ops_one)
qed

theorem opacity_answers_are_exact_witness:
  "\<exists>dl. record_calls demo_skia demo_rect demo_calls = Inr dl \<and> \<not> can_apply_group_opacity dl \<and>
     layer_options (dl_storage dl) = [True]"
proof -
  obtain dl where dl: "record_calls demo_skia demo_rect demo_calls = Inr dl" using demo_recorded by blast
  have "snd (hd (acc_levels (accounted demo_skia demo_calls))) = [True, True, True] \<and> acc_options (accounted demo_skia demo_calls) = [True]"
    by code_simp
  then show ?thesis using dl opacity_answers_are_exact [OF dl demo_no_colors] by (simp add: one_at_most_def)
qed

end
