(* ===== verification/Dl_Accumulators.thy ===== *)
theory Dl_Accumulators
  imports Dl_Recording
begin

text \<open>
  \<open>display_list/display_list_utils.h\<close> and \<open>.cc\<close>, the two classes that collect the rectangles of drawing operations: one
  keeps their bounding box, the other all of them for an R-tree. Both keep a stack of what surrounds the
  current layer and can run a filter over the rectangles of a layer when it is restored. The client
  sees them through one interface.
\<close>

section \<open>Floating-point order\<close>

text \<open>The comparison \<open>a <= b\<close> and \<open>std::max(a, b)\<close>; a NaN on either side makes the first false and the second \<open>a\<close>.\<close>

definition float_le :: "SkScalar \<Rightarrow> SkScalar \<Rightarrow> bool" where
  "float_le a b \<longleftrightarrow> \<not> float_is_nan a \<and> \<not> float_is_nan b \<and> signed_magnitude a \<le> signed_magnitude b"

definition float_max :: "SkScalar \<Rightarrow> SkScalar \<Rightarrow> SkScalar" where
  "float_max a b = (if float_less a b then b else a)"

definition float_inf :: SkScalar where
  "float_inf = 0x7F800000"

definition float_neg_inf :: SkScalar where
  "float_neg_inf = 0xFF800000"

lemma float_le_trans: "float_le a b \<Longrightarrow> float_le b c \<Longrightarrow> float_le a c"
  by (auto simp: float_le_def)

lemma float_less_le: "float_less a b \<Longrightarrow> float_le a b"
  by (auto simp: float_le_def float_less_def)

lemma float_le_refl: "float_le a a \<longleftrightarrow> \<not> float_is_nan a"
  by (simp add: float_le_def)

lemma float_not_less_le: "\<not> float_less a b \<Longrightarrow> \<not> float_is_nan a \<Longrightarrow> \<not> float_is_nan b \<Longrightarrow> float_le b a"
  by (auto simp: float_le_def float_less_def)

lemma float_le_less_trans: "float_le a b \<Longrightarrow> float_less b c \<Longrightarrow> float_less a c"
  by (auto simp: float_le_def float_less_def)

lemma float_less_le_trans: "float_less a b \<Longrightarrow> float_le b c \<Longrightarrow> float_less a c"
  by (auto simp: float_le_def float_less_def)

lemma float_not_nan:
  "float_le a b \<Longrightarrow> \<not> float_is_nan a" "float_le a b \<Longrightarrow> \<not> float_is_nan b"
  "float_less a b \<Longrightarrow> \<not> float_is_nan a" "float_less a b \<Longrightarrow> \<not> float_is_nan b"
  by (simp_all add: float_le_def float_less_def)

lemma inf_not_nan [simp]: "\<not> float_is_nan float_inf" "\<not> float_is_nan float_neg_inf" "\<not> float_is_nan 0"
  by code_simp+

section \<open>Rectangles\<close>

definition SkRect_MakeEmpty :: SkRect where
  "SkRect_MakeEmpty = \<lparr>fLeft = 0, fTop = 0, fRight = 0, fBottom = 0\<rparr>"

text \<open>What the accumulators ask of a rectangle before they take it.\<close>

definition has_area :: "SkRect \<Rightarrow> bool" where
  "has_area r \<longleftrightarrow> float_less (fLeft r) (fRight r) \<and> float_less (fTop r) (fBottom r)"

definition inside :: "SkRect \<Rightarrow> SkRect \<Rightarrow> bool" where
  "inside r b \<longleftrightarrow> float_le (fLeft b) (fLeft r) \<and> float_le (fTop b) (fTop r) \<and>
     float_le (fRight r) (fRight b) \<and> float_le (fBottom r) (fBottom b)"

lemma inside_trans: "inside r s \<Longrightarrow> inside s t \<Longrightarrow> inside r t"
  by (auto simp: inside_def intro: float_le_trans)

lemma inside_refl: "has_area r \<Longrightarrow> inside r r"
  by (auto simp: inside_def has_area_def float_le_refl dest: float_not_nan)

lemma inside_area: "has_area r \<Longrightarrow> inside r b \<Longrightarrow> has_area b"
  by (auto simp: inside_def has_area_def intro: float_le_less_trans float_less_le_trans)

section \<open>The bounding box of points\<close>

(* map: display_list/display_list_utils.h 429 446 RectBoundsAccumulator::AccumulationRect *)
record AccumulationRect =
  min_x :: SkScalar
  min_y :: SkScalar
  max_x :: SkScalar
  max_y :: SkScalar

(* map: display_list/display_list_utils.cc fn RectBoundsAccumulator::AccumulationRect::AccumulationRect( *)
definition AccumulationRect_new :: AccumulationRect where
  "AccumulationRect_new = \<lparr>min_x = float_inf, min_y = float_inf, max_x = float_neg_inf, max_y = float_neg_inf\<rparr>"

(* map: display_list/display_list_utils.cc fn RectBoundsAccumulator::AccumulationRect::accumulate( *)
definition accumulate_xy :: "SkScalar \<Rightarrow> SkScalar \<Rightarrow> AccumulationRect \<Rightarrow> AccumulationRect" where
  "accumulate_xy x y a =
     \<lparr>min_x = (if float_less x (min_x a) then x else min_x a),
      min_y = (if float_less y (min_y a) then y else min_y a),
      max_x = (if float_less (max_x a) x then x else max_x a),
      max_y = (if float_less (max_y a) y then y else max_y a)\<rparr>"

(* map: display_list/display_list_utils.h 435 435 RectBoundsAccumulator::AccumulationRect::is_empty *)
definition acc_rect_is_empty :: "AccumulationRect \<Rightarrow> bool" where
  "acc_rect_is_empty a \<longleftrightarrow> float_le (max_x a) (min_x a) \<or> float_le (max_y a) (min_y a)"

(* map: display_list/display_list_utils.h 436 436 RectBoundsAccumulator::AccumulationRect::is_not_empty *)
definition acc_rect_is_not_empty :: "AccumulationRect \<Rightarrow> bool" where
  "acc_rect_is_not_empty a \<longleftrightarrow> float_less (min_x a) (max_x a) \<and> float_less (min_y a) (max_y a)"

(* map: display_list/display_list_utils.cc fn RectBoundsAccumulator::AccumulationRect::bounds( *)
definition acc_rect_bounds :: "AccumulationRect \<Rightarrow> SkRect" where
  "acc_rect_bounds a =
     (if float_le (min_x a) (max_x a) \<and> float_le (min_y a) (max_y a)
      then \<lparr>fLeft = min_x a, fTop = min_y a, fRight = max_x a, fBottom = max_y a\<rparr> else SkRect_MakeEmpty)"

section \<open>The interface\<close>

text \<open>
  The function handed to \<open>restore\<close> gives whether it knows the bounds, and the bounds; it may fail.
\<close>

type_synonym mapper = "SkRect \<Rightarrow> (bool \<times> SkRect) res"

(* map: display_list/display_list_utils.h 345 403 BoundsAccumulator *)
record 'a accumulator =
  acc_accumulate :: "SkRect \<Rightarrow> 'a \<Rightarrow> 'a"
  acc_save :: "'a \<Rightarrow> 'a"
  acc_restore :: "'a \<Rightarrow> 'a"
  acc_restore_map :: "mapper \<Rightarrow> SkRect option \<Rightarrow> 'a \<Rightarrow> (bool \<times> 'a) res"
  acc_is_rtree :: bool

section \<open>The accumulator of the bounding box\<close>

(* map: display_list/display_list_utils.h 405 451 RectBoundsAccumulator *)
record rect_acc =
  acc_rect :: AccumulationRect
  saved_rects :: "AccumulationRect list"

definition rect_acc_new :: rect_acc where
  "rect_acc_new = \<lparr>acc_rect = AccumulationRect_new, saved_rects = []\<rparr>"

(* map: display_list/display_list_utils.cc fn RectBoundsAccumulator::accumulate( *)
definition rect_accumulate :: "SkRect \<Rightarrow> rect_acc \<Rightarrow> rect_acc" where
  "rect_accumulate r a =
     (if has_area r
      then a\<lparr>acc_rect := accumulate_xy (fRight r) (fBottom r) (accumulate_xy (fLeft r) (fTop r) (acc_rect a))\<rparr>
      else a)"

(* map: display_list/display_list_utils.cc fn RectBoundsAccumulator::save( *)
definition rect_save :: "rect_acc \<Rightarrow> rect_acc" where
  "rect_save a = \<lparr>acc_rect = AccumulationRect_new, saved_rects = acc_rect a # saved_rects a\<rparr>"

text \<open>The rectangle of the layer is clipped, unless there is no clip, and taken into the one around it.\<close>

(* map: display_list/display_list_utils.cc fn RectBoundsAccumulator::pop_and_accumulate( *)
definition pop_and_accumulate :: "skia \<Rightarrow> SkRect \<Rightarrow> SkRect option \<Rightarrow> rect_acc \<Rightarrow> rect_acc" where
  "pop_and_accumulate sk layer_bounds clip a =
     (let a = \<lparr>acc_rect = hd (saved_rects a), saved_rects = tl (saved_rects a)\<rparr> in
      case clip of
        None \<Rightarrow> rect_accumulate layer_bounds a
      | Some c \<Rightarrow> (case rect_intersect sk layer_bounds c of None \<Rightarrow> a | Some r \<Rightarrow> rect_accumulate r a))"

(* map: display_list/display_list_utils.cc 272 277 RectBoundsAccumulator::restore *)
definition rect_restore :: "skia \<Rightarrow> rect_acc \<Rightarrow> rect_acc" where
  "rect_restore sk a =
     (if saved_rects a \<noteq> [] then pop_and_accumulate sk (acc_rect_bounds (acc_rect a)) None a else a)"

(* map: display_list/display_list_utils.cc 278 288 RectBoundsAccumulator::restore *)
definition rect_restore_map :: "skia \<Rightarrow> mapper \<Rightarrow> SkRect option \<Rightarrow> rect_acc \<Rightarrow> (bool \<times> rect_acc) res" where
  "rect_restore_map sk mapper clip a =
     (if saved_rects a \<noteq> []
      then bindr (mapper (acc_rect_bounds (acc_rect a))) (\<lambda>(success, layer_bounds).
        Inr (success, pop_and_accumulate sk layer_bounds clip a))
      else Inr (True, a))"

(* map: display_list/display_list_utils.h 419 422 RectBoundsAccumulator::bounds *)
definition rect_bounds :: "rect_acc \<Rightarrow> SkRect res" where
  "rect_bounds a = bindr (ensure DCheck_Failed (saved_rects a = [])) (\<lambda>_. Inr (acc_rect_bounds (acc_rect a)))"

definition RectBoundsAccumulator :: "skia \<Rightarrow> rect_acc accumulator" where
  "RectBoundsAccumulator sk =
     \<lparr>acc_accumulate = rect_accumulate, acc_save = rect_save, acc_restore = rect_restore sk,
      acc_restore_map = rect_restore_map sk, acc_is_rtree = False\<rparr>"

section \<open>The accumulator of all rectangles\<close>

(* map: display_list/display_list_utils.h 453 476 RTreeBoundsAccumulator *)
record rtree_acc =
  acc_rects :: "SkRect list"
  saved_offsets :: "nat list"

definition rtree_acc_new :: rtree_acc where
  "rtree_acc_new = \<lparr>acc_rects = [], saved_offsets = []\<rparr>"

(* map: display_list/display_list_utils.cc fn RTreeBoundsAccumulator::accumulate( *)
definition rtree_accumulate :: "SkRect \<Rightarrow> rtree_acc \<Rightarrow> rtree_acc" where
  "rtree_accumulate r a = (if has_area r then a\<lparr>acc_rects := acc_rects a @ [r]\<rparr> else a)"

(* map: display_list/display_list_utils.cc fn RTreeBoundsAccumulator::save( *)
definition rtree_save :: "rtree_acc \<Rightarrow> rtree_acc" where
  "rtree_save a = a\<lparr>saved_offsets := length (acc_rects a) # saved_offsets a\<rparr>"

(* map: display_list/display_list_utils.cc 342 348 RTreeBoundsAccumulator::restore *)
definition rtree_restore :: "rtree_acc \<Rightarrow> rtree_acc" where
  "rtree_restore a = (if saved_offsets a = [] then a else a\<lparr>saved_offsets := tl (saved_offsets a)\<rparr>)"

text \<open>
  The loop over the rectangles of the layer writes those it keeps over the front of the same array:
  \<open>kept\<close> is where the next one goes, never beyond the one being read.
\<close>

(* map: display_list/display_list_utils.cc 359 368 RTreeBoundsAccumulator::restore:loop *)
function restore_rects ::
  "skia \<Rightarrow> mapper \<Rightarrow> SkRect option \<Rightarrow> nat \<Rightarrow> nat \<Rightarrow> bool \<Rightarrow> SkRect list \<Rightarrow> (bool \<times> SkRect list) res" where
  "restore_rects sk mapper clip i kept success rects =
     (if i < length rects then
        bindr (mapper (rects ! i)) (\<lambda>(ok, original).
        let success = (if \<not> ok then False else success) in
        case (case clip of None \<Rightarrow> Some original | Some c \<Rightarrow> rect_intersect sk original c) of
          Some r \<Rightarrow> restore_rects sk mapper clip (Suc i) (Suc kept) success (rects[kept := r])
        | None \<Rightarrow> restore_rects sk mapper clip (Suc i) kept success rects)
      else Inr (success, take kept rects))"
  by pat_completeness auto
termination by (relation "measure (\<lambda>(sk, mapper, clip, i, kept, success, rects). length rects - i)") auto

declare restore_rects.simps [simp del]

(* map: display_list/display_list_utils.cc 349 371 RTreeBoundsAccumulator::restore *)
definition rtree_restore_map :: "skia \<Rightarrow> mapper \<Rightarrow> SkRect option \<Rightarrow> rtree_acc \<Rightarrow> (bool \<times> rtree_acc) res" where
  "rtree_restore_map sk mapper clip a = (case saved_offsets a of
     [] \<Rightarrow> Inr (True, a)
   | previous # rest \<Rightarrow>
       bindr (restore_rects sk mapper clip previous previous True (acc_rects a)) (\<lambda>(success, rects).
         Inr (success, \<lparr>acc_rects = rects, saved_offsets = rest\<rparr>)))"

definition RTreeBoundsAccumulator :: "skia \<Rightarrow> rtree_acc accumulator" where
  "RTreeBoundsAccumulator sk =
     \<lparr>acc_accumulate = rtree_accumulate, acc_save = rtree_save, acc_restore = rtree_restore,
      acc_restore_map = rtree_restore_map sk, acc_is_rtree = True\<rparr>"

end
