(* ===== verification/Dl_Filter_Bounds.thy ===== *)
theory Dl_Filter_Bounds
  imports Dl_Accumulators
begin

text \<open>
  The bounds that image filters, color filters and path effects compute (\<open>display_list/display_list_image_filter.h\<close>
  and \<open>.cc\<close>, \<open>display_list_color_filter.h\<close>, \<open>display_list_path_effect.cc\<close>). Arithmetic on floating-point numbers and
  what is called of Skia's rectangles, 3x3 matrices and effects are the fields of a record.
\<close>

section \<open>Floating-point numbers and Skia's geometry\<close>

type_synonym SkIRect = "int \<times> int \<times> int \<times> int"

record geo =
  f_add :: "SkScalar \<Rightarrow> SkScalar \<Rightarrow> SkScalar"
  f_sub :: "SkScalar \<Rightarrow> SkScalar \<Rightarrow> SkScalar"
  f_mul :: "SkScalar \<Rightarrow> SkScalar \<Rightarrow> SkScalar"
  f_abs :: "SkScalar \<Rightarrow> SkScalar"
  f_floor :: "SkScalar \<Rightarrow> int"
  f_ceil :: "SkScalar \<Rightarrow> int"
  f_int :: "int \<Rightarrow> SkScalar"
  rect_isEmpty :: "SkRect \<Rightarrow> bool"
  rect_isSorted :: "SkRect \<Rightarrow> bool"
  makeSorted :: "SkRect \<Rightarrow> SkRect"
  makeOutset :: "SkRect \<Rightarrow> SkScalar \<Rightarrow> SkScalar \<Rightarrow> SkRect"
  makeInset :: "SkRect \<Rightarrow> SkScalar \<Rightarrow> SkScalar \<Rightarrow> SkRect"
  makeOffset :: "SkRect \<Rightarrow> SkScalar \<Rightarrow> SkScalar \<Rightarrow> SkRect"
  irect_makeOutset :: "SkIRect \<Rightarrow> int \<Rightarrow> int \<Rightarrow> SkIRect"
  irect_makeInset :: "SkIRect \<Rightarrow> int \<Rightarrow> int \<Rightarrow> SkIRect"
  rect_of_irect :: "SkIRect \<Rightarrow> SkRect"
  irect_roundOut :: "SkRect \<Rightarrow> SkIRect"
  asM33 :: "SkM44 \<Rightarrow> SkMatrix"
  m33_mapRect :: "SkMatrix \<Rightarrow> SkRect \<Rightarrow> SkRect"
  m33_invert :: "SkMatrix \<Rightarrow> SkMatrix option"
  m33_Concat :: "SkMatrix \<Rightarrow> SkMatrix \<Rightarrow> SkMatrix"
  m33_isIdentity :: "SkMatrix \<Rightarrow> bool"
  m33_isTranslate :: "SkMatrix \<Rightarrow> bool"
  m33_isScaleTranslate :: "SkMatrix \<Rightarrow> bool"
  m33_isFinite :: "SkMatrix \<Rightarrow> bool"
  m33_hasPerspective :: "SkMatrix \<Rightarrow> bool"
  colors_transparent :: "DlColorFilter \<Rightarrow> bool"
  filter_canComputeFastBounds :: "sk_ref \<Rightarrow> bool"
  filter_computeFastBounds :: "sk_ref \<Rightarrow> SkRect \<Rightarrow> SkRect"
  filter_filterBounds :: "sk_ref \<Rightarrow> SkIRect \<Rightarrow> SkMatrix \<Rightarrow> bool \<Rightarrow> SkIRect"
  effect_fastBounds :: "sk_ref \<Rightarrow> SkRect \<Rightarrow> SkRect option"
  mask_fastBounds :: "sk_ref \<Rightarrow> SkRect \<Rightarrow> SkRect option"
  shadow_localBounds :: "SkMatrix \<Rightarrow> SkPath \<Rightarrow> SkScalar \<Rightarrow> SkRect option"
  vertices_bounds :: "sk_ref \<Rightarrow> SkRect"
  picture_cullRect :: "sk_ref \<Rightarrow> SkRect"
  blob_bounds :: "sk_ref \<Rightarrow> SkRect"
  toQuad :: "SkScalar \<times> SkScalar \<times> SkScalar \<times> SkScalar \<Rightarrow> SkScalar \<Rightarrow> SkScalar \<Rightarrow> SkPoint list"
  list_bounds :: "dl_ref \<Rightarrow> SkRect"
  list_rects :: "dl_ref \<Rightarrow> SkRect \<Rightarrow> SkRect list"

definition float_three :: SkScalar where
  "float_three = 0x40400000"

section \<open>Color filters and path effects\<close>

text \<open>
  The gamma filters keep transparent black; of the others Skia is asked (\<open>colors_transparent\<close> says that the
  filter exists and gives transparent black another color).
\<close>

(* map: display_list/display_list_color_filter.h 94 99 DlBlendColorFilter::modifies_transparent_black *)
fun color_modifies_transparent_black :: "geo \<Rightarrow> DlColorFilter \<Rightarrow> bool" where
  "color_modifies_transparent_black gm SrgbToLinearGammaColorFilter = False"
| "color_modifies_transparent_black gm LinearToSrgbGammaColorFilter = False"
| "color_modifies_transparent_black gm f = colors_transparent gm f"

(* map: display_list/display_list_path_effect.cc 57 73 DlPathEffect::effect_bounds *)
fun effect_bounds :: "geo \<Rightarrow> DlPathEffect \<Rightarrow> SkRect \<Rightarrow> SkRect option" where
  "effect_bounds gm (DashPathEffect i p) r = Some r"
| "effect_bounds gm (UnknownPathEffect k) r = (if \<not> rect_isSorted gm r then None else effect_fastBounds gm k r)"

section \<open>Growing device bounds\<close>

(* map: display_list/display_list_image_filter.h 160 189 DlImageFilter::map_vectors_affine *)
definition map_vectors_affine :: "geo \<Rightarrow> SkMatrix \<Rightarrow> SkScalar \<Rightarrow> SkScalar \<Rightarrow> SkPoint res" where
  "map_vectors_affine gm ctm x y =
     bindr (ensure DCheck_Failed (SkScalarIsFinite x \<and> float_le 0 x)) (\<lambda>_.
     bindr (ensure DCheck_Failed (SkScalarIsFinite y \<and> float_le 0 y)) (\<lambda>_.
     bindr (ensure DCheck_Failed (m33_isFinite gm ctm \<and> \<not> m33_hasPerspective gm ctm)) (\<lambda>_. Inr
       (f_add gm (f_mul gm x (f_abs gm (ctm ! 0))) (f_mul gm y (f_abs gm (ctm ! 1))),
        f_add gm (f_mul gm x (f_abs gm (ctm ! 3))) (f_mul gm y (f_abs gm (ctm ! 4)))))))"

text \<open>The flag says whether the bounds could be computed; otherwise they are those of the input.\<close>

(* map: display_list/display_list_image_filter.h 191 214 DlImageFilter::inset_device_bounds *)
definition inset_device_bounds :: "geo \<Rightarrow> SkIRect \<Rightarrow> SkScalar \<Rightarrow> SkScalar \<Rightarrow> SkMatrix \<Rightarrow> (bool \<times> SkIRect) res" where
  "inset_device_bounds gm input rx ry ctm =
     (if m33_isFinite gm ctm then
        if m33_hasPerspective gm ctm then
          (case m33_invert gm ctm of
             Some im \<Rightarrow> Inr (True, irect_roundOut gm (m33_mapRect gm ctm
                (makeInset gm (m33_mapRect gm im (rect_of_irect gm input)) rx ry)))
           | None \<Rightarrow> Inr (False, input))
        else bindr (map_vectors_affine gm ctm rx ry) (\<lambda>(dx, dy).
          Inr (True, irect_makeInset gm input (f_floor gm dx) (f_floor gm dy)))
      else Inr (False, input))"

(* map: display_list/display_list_image_filter.h 216 239 DlImageFilter::outset_device_bounds *)
definition outset_device_bounds :: "geo \<Rightarrow> SkIRect \<Rightarrow> SkScalar \<Rightarrow> SkScalar \<Rightarrow> SkMatrix \<Rightarrow> (bool \<times> SkIRect) res" where
  "outset_device_bounds gm input rx ry ctm =
     (if m33_isFinite gm ctm then
        if m33_hasPerspective gm ctm then
          (case m33_invert gm ctm of
             Some im \<Rightarrow> Inr (True, irect_roundOut gm (m33_mapRect gm ctm
                (makeOutset gm (m33_mapRect gm im (rect_of_irect gm input)) rx ry)))
           | None \<Rightarrow> Inr (False, input))
        else bindr (map_vectors_affine gm ctm rx ry) (\<lambda>(dx, dy).
          Inr (True, irect_makeOutset gm input (f_ceil gm dx) (f_ceil gm dy)))
      else Inr (False, input))"

(* map: display_list/display_list_image_filter.h 453 467 DlMatrixImageFilter::map_device_bounds *)
definition matrix_device_bounds :: "geo \<Rightarrow> SkMatrix \<Rightarrow> SkIRect \<Rightarrow> SkMatrix \<Rightarrow> bool \<times> SkIRect" where
  "matrix_device_bounds gm m input ctm = (case m33_invert gm ctm of
     None \<Rightarrow> (False, input)
   | Some im \<Rightarrow> (True, irect_roundOut gm
       (m33_mapRect gm (m33_Concat gm ctm (m33_Concat gm m im)) (rect_of_irect gm input))))"

(* map: display_list/display_list_image_filter.h 469 484 DlMatrixImageFilter::get_input_device_bounds *)
definition matrix_input_bounds :: "geo \<Rightarrow> SkMatrix \<Rightarrow> SkIRect \<Rightarrow> SkMatrix \<Rightarrow> bool \<times> SkIRect" where
  "matrix_input_bounds gm m output ctm = (case m33_invert gm (m33_Concat gm ctm m) of
     None \<Rightarrow> (False, output)
   | Some im \<Rightarrow> (True, irect_roundOut gm (m33_mapRect gm (m33_Concat gm ctm im) (rect_of_irect gm output))))"

(* map: display_list/display_list_image_filter.h 766 771 DlUnknownImageFilter::modifies_transparent_black *)
definition unknown_modifies :: "geo \<Rightarrow> sk_ref option \<Rightarrow> bool" where
  "unknown_modifies gm k = (case k of None \<Rightarrow> False | Some f \<Rightarrow> \<not> filter_canComputeFastBounds gm f)"

section \<open>One filter after another\<close>

text \<open>
  A compose filter runs both of its filters whatever the first one says; it succeeds when both do.
\<close>

definition and_then :: "bool \<times> 'r \<Rightarrow> ('r \<Rightarrow> bool \<times> 'r) \<Rightarrow> bool \<times> 'r" where
  "and_then p g = (case p of (ok, cur) \<Rightarrow> (case g cur of (ok', r) \<Rightarrow> (ok \<and> ok', r)))"

definition and_then_res :: "(bool \<times> 'r) res \<Rightarrow> ('r \<Rightarrow> (bool \<times> 'r) res) \<Rightarrow> (bool \<times> 'r) res" where
  "and_then_res p g = bindr p (\<lambda>(ok, cur). bindr (g cur) (\<lambda>(ok', r). Inr (ok \<and> ok', r)))"

lemma and_then_cong [fundef_cong]:
  assumes "p = p'" and "\<And>x. g x = g' x"
  shows "and_then p g = and_then p' g'"
  using assms by (simp add: and_then_def)

lemma and_then_res_cong [fundef_cong]:
  assumes "p = p'" and "\<And>x. g x = g' x"
  shows "and_then_res p g = and_then_res p' g'"
  using assms by (simp add: and_then_res_def)

section \<open>Image filters\<close>

(* map: display_list/display_list_image_filter.h 530 538 DlComposeImageFilter::modifies_transparent_black *)
fun modifies_transparent_black :: "geo \<Rightarrow> DlImageFilter \<Rightarrow> bool" where
  "modifies_transparent_black gm (ComposeImageFilter outer inner) \<longleftrightarrow>
     (case inner of None \<Rightarrow> False | Some (i, f) \<Rightarrow> modifies_transparent_black gm f) \<or>
     (case outer of None \<Rightarrow> False | Some (i, f) \<Rightarrow> modifies_transparent_black gm f)"
| "modifies_transparent_black gm (ColorFilterImageFilter c) \<longleftrightarrow>
     (case c of None \<Rightarrow> False | Some (i, f) \<Rightarrow> color_modifies_transparent_black gm f)"
| "modifies_transparent_black gm (LocalMatrixImageFilter m p) \<longleftrightarrow>
     (case p of None \<Rightarrow> False | Some (i, f) \<Rightarrow> modifies_transparent_black gm f)"
| "modifies_transparent_black gm (UnknownImageFilter k) \<longleftrightarrow> unknown_modifies gm k"
| "modifies_transparent_black gm _ \<longleftrightarrow> False"

text \<open>
  The last argument is what the output variable holds before: a local-matrix filter without a filter leaves
  it as it is.
\<close>

(* map: display_list/display_list_image_filter.cc 57 75 DlComposeImageFilter::map_local_bounds *)
fun map_local_bounds :: "geo \<Rightarrow> DlImageFilter \<Rightarrow> SkRect \<Rightarrow> SkRect \<Rightarrow> bool \<times> SkRect" where
  "map_local_bounds gm (BlurImageFilter sx sy t) input out =
     (True, makeOutset gm input (f_mul gm sx float_three) (f_mul gm sy float_three))"
| "map_local_bounds gm (DilateImageFilter rx ry) input out = (True, makeOutset gm input rx ry)"
| "map_local_bounds gm (ErodeImageFilter rx ry) input out = (True, makeInset gm input rx ry)"
| "map_local_bounds gm (MatrixImageFilter m s) input out = (True, m33_mapRect gm m input)"
| "map_local_bounds gm (ComposeImageFilter outer inner) input out =
     and_then (case inner of None \<Rightarrow> (True, input) | Some (i, f) \<Rightarrow> map_local_bounds gm f input input)
       (\<lambda>cur. case outer of None \<Rightarrow> (True, cur) | Some (i, f) \<Rightarrow> map_local_bounds gm f cur cur)"
| "map_local_bounds gm (ColorFilterImageFilter c) input out =
     (\<not> modifies_transparent_black gm (ColorFilterImageFilter c), input)"
| "map_local_bounds gm (LocalMatrixImageFilter m p) input out = (case p of
     None \<Rightarrow> (False, out) | Some (i, f) \<Rightarrow> map_local_bounds gm f input out)"
| "map_local_bounds gm (UnknownImageFilter k) input out =
     (if k = None \<or> unknown_modifies gm k then (False, input) else (True, filter_computeFastBounds gm (the k) input))"

(* map: display_list/display_list_image_filter.cc 77 96 DlComposeImageFilter::map_device_bounds *)
fun map_device_bounds :: "geo \<Rightarrow> DlImageFilter \<Rightarrow> SkIRect \<Rightarrow> SkMatrix \<Rightarrow> SkIRect \<Rightarrow> (bool \<times> SkIRect) res" where
  "map_device_bounds gm (BlurImageFilter sx sy t) input ctm out =
     outset_device_bounds gm input (f_mul gm sx float_three) (f_mul gm sy float_three) ctm"
| "map_device_bounds gm (DilateImageFilter rx ry) input ctm out = outset_device_bounds gm input rx ry ctm"
| "map_device_bounds gm (ErodeImageFilter rx ry) input ctm out = inset_device_bounds gm input rx ry ctm"
| "map_device_bounds gm (MatrixImageFilter m s) input ctm out = Inr (matrix_device_bounds gm m input ctm)"
| "map_device_bounds gm (ComposeImageFilter outer inner) input ctm out =
     and_then_res (case inner of None \<Rightarrow> Inr (True, input) | Some (i, f) \<Rightarrow> map_device_bounds gm f input ctm input)
       (\<lambda>cur. case outer of None \<Rightarrow> Inr (True, cur) | Some (i, f) \<Rightarrow> map_device_bounds gm f cur ctm cur)"
| "map_device_bounds gm (ColorFilterImageFilter c) input ctm out =
     Inr (\<not> modifies_transparent_black gm (ColorFilterImageFilter c), input)"
| "map_device_bounds gm (LocalMatrixImageFilter m p) input ctm out = (case p of
     None \<Rightarrow> Inr (False, out) | Some (i, f) \<Rightarrow> map_device_bounds gm f input (m33_Concat gm ctm m) out)"
| "map_device_bounds gm (UnknownImageFilter k) input ctm out =
     (if k = None \<or> unknown_modifies gm k then Inr (False, input)
      else Inr (True, filter_filterBounds gm (the k) input ctm True))"

(* map: display_list/display_list_image_filter.cc 98 118 DlComposeImageFilter::get_input_device_bounds *)
fun get_input_device_bounds :: "geo \<Rightarrow> DlImageFilter \<Rightarrow> SkIRect \<Rightarrow> SkMatrix \<Rightarrow> SkIRect \<Rightarrow> (bool \<times> SkIRect) res" where
  "get_input_device_bounds gm (BlurImageFilter sx sy t) output ctm inp =
     outset_device_bounds gm output (f_mul gm sx float_three) (f_mul gm sy float_three) ctm"
| "get_input_device_bounds gm (DilateImageFilter rx ry) output ctm inp = inset_device_bounds gm output rx ry ctm"
| "get_input_device_bounds gm (ErodeImageFilter rx ry) output ctm inp = outset_device_bounds gm output rx ry ctm"
| "get_input_device_bounds gm (MatrixImageFilter m s) output ctm inp = Inr (matrix_input_bounds gm m output ctm)"
| "get_input_device_bounds gm (ComposeImageFilter outer inner) output ctm inp =
     and_then_res (case outer of None \<Rightarrow> Inr (True, output) | Some (i, f) \<Rightarrow> get_input_device_bounds gm f output ctm output)
       (\<lambda>cur. case inner of None \<Rightarrow> Inr (True, cur) | Some (i, f) \<Rightarrow> get_input_device_bounds gm f cur ctm cur)"
| "get_input_device_bounds gm (ColorFilterImageFilter c) output ctm inp =
     Inr (\<not> modifies_transparent_black gm (ColorFilterImageFilter c), output)"
| "get_input_device_bounds gm (LocalMatrixImageFilter m p) output ctm inp = (case p of
     None \<Rightarrow> Inr (False, inp) | Some (i, f) \<Rightarrow> get_input_device_bounds gm f output (m33_Concat gm ctm m) inp)"
| "get_input_device_bounds gm (UnknownImageFilter k) output ctm inp =
     (if k = None \<or> unknown_modifies gm k then Inr (False, output)
      else Inr (True, filter_filterBounds gm (the k) output ctm False))"

section \<open>A filter in another coordinate space\<close>

datatype MatrixCapability = kTranslate | kScaleTranslate | kComplex

definition min_capability :: "MatrixCapability \<Rightarrow> MatrixCapability \<Rightarrow> MatrixCapability" where
  "min_capability a b = (if a = kTranslate \<or> b = kTranslate then kTranslate
     else if a = kScaleTranslate \<or> b = kScaleTranslate then kScaleTranslate else kComplex)"

text \<open>A composition with a missing filter reads a null pointer.\<close>

(* map: display_list/display_list_image_filter.h 556 558 DlComposeImageFilter::matrix_capability *)
fun matrix_capability :: "DlImageFilter \<Rightarrow> MatrixCapability res" where
  "matrix_capability (ComposeImageFilter (Some (i, f)) (Some (j, g))) =
     bindr (matrix_capability f) (\<lambda>a. bindr (matrix_capability g) (\<lambda>b. Inr (min_capability a b)))"
| "matrix_capability (ComposeImageFilter _ _) = Inl Undefined"
| "matrix_capability (ColorFilterImageFilter c) = Inr kComplex"
| "matrix_capability _ = Inr kScaleTranslate"

(* map: display_list/display_list_image_filter.cc 30 54 DlImageFilter::makeWithLocalMatrix *)
definition makeWithLocalMatrix :: "geo \<Rightarrow> nat \<Rightarrow> SkMatrix \<Rightarrow> DlImageFilter \<Rightarrow> DlImageFilter option res" where
  "makeWithLocalMatrix gm address m f = (case f of
     ColorFilterImageFilter c \<Rightarrow> Inr (Some f)
   | _ \<Rightarrow>
       if m33_isIdentity gm m then Inr (Some f)
       else bindr (matrix_capability f) (\<lambda>cap.
         if cap = kTranslate \<and> \<not> m33_isTranslate gm m then Inr None
         else if cap = kScaleTranslate \<and> \<not> m33_isScaleTranslate gm m then Inr None
         else Inr (Some (LocalMatrixImageFilter m (Some (address, f))))))"

section \<open>What the output depends on\<close>

text \<open>
  A local-matrix filter with nothing in it, and those around one, leave the output variable as it was.
\<close>

fun leaves_output_unset :: "DlImageFilter \<Rightarrow> bool" where
  "leaves_output_unset (LocalMatrixImageFilter m p) = (case p of None \<Rightarrow> True | Some (i, f) \<Rightarrow> leaves_output_unset f)"
| "leaves_output_unset _ = False"

lemma map_device_bounds_out:
  "\<not> leaves_output_unset f \<Longrightarrow> map_device_bounds gm f input ctm out = map_device_bounds gm f input ctm out'"
  by (induction f arbitrary: ctm rule: leaves_output_unset.induct) (auto split: option.splits)

lemma map_device_bounds_unset:
  "leaves_output_unset f \<Longrightarrow> map_device_bounds gm f input ctm out = Inr (False, out)"
  by (induction f arbitrary: ctm rule: leaves_output_unset.induct) (auto split: option.splits)

text \<open>Whether the bounds are known does not depend on the rectangle; neither do the checks that fail.\<close>

definition same_verdict :: "(bool \<times> 'r) res \<Rightarrow> (bool \<times> 'r) res \<Rightarrow> bool" where
  "same_verdict p q = (case (p, q) of (Inl e, Inl e') \<Rightarrow> e = e' | (Inr x, Inr y) \<Rightarrow> fst x = fst y | _ \<Rightarrow> False)"

end
