(* ===== verification/Dl_Bounds.thy ===== *)
theory Dl_Bounds
  imports Dl_Filter_Bounds
begin

text \<open>
  \<open>display_list/display_list_utils.h\<close> and \<open>.cc\<close>: \<open>DisplayListBoundsCalculator\<close>, the reader of a display list that works out
  which part of the surface its operations can touch, with the two helpers it is built on, one for the
  current matrix and one for a rectangle around the current clip. What it finds goes to an accumulator.
\<close>

section \<open>The current matrix\<close>

(* map: display_list/display_list_utils.h 259 296 SkMatrixDispatchHelper *)
record matrix_helper =
  mh_m44 :: SkM44
  mh_m33 :: SkMatrix
  mh_saved :: "SkM44 list"

definition m33_identity :: SkMatrix where
  "m33_identity = [float_one, 0, 0, 0, float_one, 0, 0, 0, float_one]"

definition matrix_helper_new :: matrix_helper where
  "matrix_helper_new = \<lparr>mh_m44 = SkM44_identity, mh_m33 = m33_identity, mh_saved = []\<rparr>"

definition mh_set :: "geo \<Rightarrow> SkM44 \<Rightarrow> matrix_helper \<Rightarrow> matrix_helper" where
  "mh_set gm m h = h\<lparr>mh_m44 := m, mh_m33 := asM33 gm m\<rparr>"

(* map: display_list/display_list_utils.cc fn SkMatrixDispatchHelper::translate( *)
definition mh_translate :: "skia \<Rightarrow> geo \<Rightarrow> SkScalar \<Rightarrow> SkScalar \<Rightarrow> matrix_helper \<Rightarrow> matrix_helper" where
  "mh_translate sk gm tx ty h = mh_set gm (preTranslate sk tx ty (mh_m44 h)) h"

(* map: display_list/display_list_utils.cc fn SkMatrixDispatchHelper::scale( *)
definition mh_scale :: "skia \<Rightarrow> geo \<Rightarrow> SkScalar \<Rightarrow> SkScalar \<Rightarrow> matrix_helper \<Rightarrow> matrix_helper" where
  "mh_scale sk gm sx sy h = mh_set gm (preScale sk sx sy (mh_m44 h)) h"

(* map: display_list/display_list_utils.cc fn SkMatrixDispatchHelper::rotate( *)
definition mh_rotate :: "skia \<Rightarrow> geo \<Rightarrow> SkScalar \<Rightarrow> matrix_helper \<Rightarrow> matrix_helper" where
  "mh_rotate sk gm degrees h = mh_set gm (preConcat sk (mh_m44 h) (RotateDeg sk degrees)) h"

(* map: display_list/display_list_utils.cc fn SkMatrixDispatchHelper::skew( *)
definition mh_skew :: "skia \<Rightarrow> geo \<Rightarrow> SkScalar \<Rightarrow> SkScalar \<Rightarrow> matrix_helper \<Rightarrow> matrix_helper" where
  "mh_skew sk gm sx sy h = mh_set gm (preConcat sk (mh_m44 h) (SkewMatrix sk sx sy)) h"

(* map: display_list/display_list_utils.cc fn SkMatrixDispatchHelper::transform2DAffine( *)
definition mh_transform2DAffine ::
  "skia \<Rightarrow> geo \<Rightarrow> SkScalar \<Rightarrow> SkScalar \<Rightarrow> SkScalar \<Rightarrow> SkScalar \<Rightarrow> SkScalar \<Rightarrow> SkScalar \<Rightarrow> matrix_helper \<Rightarrow> matrix_helper" where
  "mh_transform2DAffine sk gm mxx mxy mxt myx myy myt h =
     mh_set gm (preConcat sk (mh_m44 h)
       [mxx, mxy, 0, mxt,
        myx, myy, 0, myt,
        0, 0, float_one, 0,
        0, 0, 0, float_one]) h"

(* map: display_list/display_list_utils.cc fn SkMatrixDispatchHelper::transformFullPerspective( *)
definition mh_transformFullPerspective :: "skia \<Rightarrow> geo \<Rightarrow> SkM44 \<Rightarrow> matrix_helper \<Rightarrow> matrix_helper" where
  "mh_transformFullPerspective sk gm m h = mh_set gm (preConcat sk (mh_m44 h) m) h"

(* map: display_list/display_list_utils.cc fn SkMatrixDispatchHelper::transformReset( *)
definition mh_transformReset :: "matrix_helper \<Rightarrow> matrix_helper" where
  "mh_transformReset h = h\<lparr>mh_m44 := SkM44_identity, mh_m33 := m33_identity\<rparr>"

(* map: display_list/display_list_utils.cc fn SkMatrixDispatchHelper::save( *)
definition mh_save :: "matrix_helper \<Rightarrow> matrix_helper" where
  "mh_save h = h\<lparr>mh_saved := mh_m44 h # mh_saved h\<rparr>"

(* map: display_list/display_list_utils.cc fn SkMatrixDispatchHelper::restore( *)
definition mh_restore :: "geo \<Rightarrow> matrix_helper \<Rightarrow> matrix_helper" where
  "mh_restore gm h = (case mh_saved h of [] \<Rightarrow> h | m # ms \<Rightarrow> (mh_set gm m h)\<lparr>mh_saved := ms\<rparr>)"

section \<open>A rectangle around the clip\<close>

(* map: display_list/display_list_utils.h 309 338 ClipBoundsDispatchHelper *)
record clip_helper =
  ch_has_clip :: bool
  ch_bounds :: SkRect
  ch_saved :: "SkRect list"

(* map: display_list/display_list_utils.h 314 317 ClipBoundsDispatchHelper::ClipBoundsDispatchHelper *)
definition clip_helper_new :: "geo \<Rightarrow> SkRect option \<Rightarrow> clip_helper" where
  "clip_helper_new gm cull =
     \<lparr>ch_has_clip = (cull \<noteq> None),
      ch_bounds = (case cull of Some r \<Rightarrow> if \<not> rect_isEmpty gm r then r else SkRect_MakeEmpty | None \<Rightarrow> SkRect_MakeEmpty),
      ch_saved = []\<rparr>"

(* map: display_list/display_list_utils.cc fn ClipBoundsDispatchHelper::intersect( *)
definition ch_intersect :: "skia \<Rightarrow> geo \<Rightarrow> SkMatrix \<Rightarrow> SkRect \<Rightarrow> bool \<Rightarrow> clip_helper \<Rightarrow> clip_helper" where
  "ch_intersect sk gm matrix rect is_aa h =
     (let dev = m33_mapRect gm matrix rect;
          dev_clip_bounds = (if is_aa then roundOut sk dev else dev) in
      if ch_has_clip h then
        (case rect_intersect sk (ch_bounds h) dev_clip_bounds of
           Some r \<Rightarrow> h\<lparr>ch_bounds := r\<rparr>
         | None \<Rightarrow> h\<lparr>ch_bounds := SkRect_MakeEmpty\<rparr>)
      else h\<lparr>ch_has_clip := True,
             ch_bounds := (if rect_isEmpty gm dev_clip_bounds then SkRect_MakeEmpty else dev_clip_bounds)\<rparr>)"

(* map: display_list/display_list_utils.cc fn ClipBoundsDispatchHelper::clipRect( *)
definition ch_clipRect :: "skia \<Rightarrow> geo \<Rightarrow> SkMatrix \<Rightarrow> SkRect \<Rightarrow> SkClipOp \<Rightarrow> bool \<Rightarrow> clip_helper \<Rightarrow> clip_helper" where
  "ch_clipRect sk gm matrix rect clip_op is_aa h = (case clip_op of
     kIntersectClip \<Rightarrow> ch_intersect sk gm matrix rect is_aa h | kDifferenceClip \<Rightarrow> h)"

(* map: display_list/display_list_utils.cc fn ClipBoundsDispatchHelper::clipRRect( *)
definition ch_clipRRect :: "skia \<Rightarrow> geo \<Rightarrow> SkMatrix \<Rightarrow> SkRRect \<Rightarrow> SkClipOp \<Rightarrow> bool \<Rightarrow> clip_helper \<Rightarrow> clip_helper" where
  "ch_clipRRect sk gm matrix rrect clip_op is_aa h = (case clip_op of
     kIntersectClip \<Rightarrow> ch_intersect sk gm matrix (rrect_getBounds sk rrect) is_aa h | kDifferenceClip \<Rightarrow> h)"

(* map: display_list/display_list_utils.cc fn ClipBoundsDispatchHelper::clipPath( *)
definition ch_clipPath :: "skia \<Rightarrow> geo \<Rightarrow> SkMatrix \<Rightarrow> SkPath \<Rightarrow> SkClipOp \<Rightarrow> bool \<Rightarrow> clip_helper \<Rightarrow> clip_helper" where
  "ch_clipPath sk gm matrix path clip_op is_aa h = (case clip_op of
     kIntersectClip \<Rightarrow> ch_intersect sk gm matrix (path_getBounds sk path) is_aa h | kDifferenceClip \<Rightarrow> h)"

text \<open>No clip is saved as a rectangle whose sides are the wrong way round.\<close>

definition no_clip_rect :: SkRect where
  "no_clip_rect = \<lparr>fLeft = 0, fTop = 0, fRight = 0xBF800000, fBottom = 0xBF800000\<rparr>"

(* map: display_list/display_list_utils.cc fn ClipBoundsDispatchHelper::save( *)
definition ch_save :: "geo \<Rightarrow> clip_helper \<Rightarrow> clip_helper" where
  "ch_save gm h = h\<lparr>ch_saved :=
     (if \<not> ch_has_clip h then no_clip_rect
      else if rect_isEmpty gm (ch_bounds h) then SkRect_MakeEmpty
      else ch_bounds h) # ch_saved h\<rparr>"

(* map: display_list/display_list_utils.cc fn ClipBoundsDispatchHelper::restore( *)
definition ch_restore :: "clip_helper \<Rightarrow> clip_helper" where
  "ch_restore h = (case ch_saved h of
     [] \<Rightarrow> h
   | b # bs \<Rightarrow>
       let has = float_le (fLeft b) (fRight b) \<and> float_le (fTop b) (fBottom b) in
       \<lparr>ch_has_clip = has, ch_bounds = (if has then b else SkRect_MakeEmpty), ch_saved = bs\<rparr>)"

section \<open>The calculator\<close>

text \<open>A layer remembers the filter run over it when it is restored, and whether it is unbounded.\<close>

(* map: display_list/display_list_utils.h 600 652 DisplayListBoundsCalculator::LayerData *)
record layer_data =
  ld_filter :: "DlImageFilter option"
  ld_unbounded :: bool

(* map: display_list/display_list_utils.h 656 670 DisplayListBoundsCalculator *)
record 'a calculator =
  c_acc :: 'a
  c_matrix :: matrix_helper
  c_clip :: clip_helper
  layer_infos :: "layer_data list"
  c_blend_mode :: "DlBlendMode option"
  c_color_filter :: "DlColorFilter option"
  half_stroke_width :: SkScalar
  miter_limit :: SkScalar
  c_style :: DlDrawStyle
  join_is_miter :: bool
  cap_is_square :: bool
  c_image_filter :: "DlImageFilter option"
  c_path_effect :: "DlPathEffect option"
  c_mask_filter :: "DlMaskFilter option"

definition kMinStrokeWidth :: SkScalar where
  "kMinStrokeWidth = 0x3C23D70A"

definition float_half :: SkScalar where
  "float_half = 0x3F000000"

definition float_four :: SkScalar where
  "float_four = 0x40800000"

definition SK_ScalarSqrt2 :: SkScalar where
  "SK_ScalarSqrt2 = 0x3FB504F3"

(* map: display_list/display_list_utils.cc fn DisplayListBoundsCalculator::DisplayListBoundsCalculator( *)
definition calculator_new :: "geo \<Rightarrow> 'a \<Rightarrow> SkRect option \<Rightarrow> 'a calculator" where
  "calculator_new gm a cull =
     \<lparr>c_acc = a, c_matrix = matrix_helper_new, c_clip = clip_helper_new gm cull,
      layer_infos = [\<lparr>ld_filter = None, ld_unbounded = False\<rparr>], c_blend_mode = Some kSrcOver, c_color_filter = None,
      half_stroke_width = kMinStrokeWidth, miter_limit = float_four, c_style = kFill, join_is_miter = True,
      cap_is_square = False, c_image_filter = None, c_path_effect = None, c_mask_filter = None\<rparr>"

definition c_m33 :: "'a calculator \<Rightarrow> SkMatrix" where
  "c_m33 c = mh_m33 (c_matrix c)"

definition has_clip :: "'a calculator \<Rightarrow> bool" where
  "has_clip c = ch_has_clip (c_clip c)"

definition c_clip_bounds :: "'a calculator \<Rightarrow> SkRect" where
  "c_clip_bounds c = ch_bounds (c_clip c)"

definition on_acc :: "('a \<Rightarrow> 'a) \<Rightarrow> 'a calculator \<Rightarrow> 'a calculator" where
  "on_acc f c = c\<lparr>c_acc := f (c_acc c)\<rparr>"

definition on_mh :: "(matrix_helper \<Rightarrow> matrix_helper) \<Rightarrow> 'a calculator \<Rightarrow> 'a calculator" where
  "on_mh f c = c\<lparr>c_matrix := f (c_matrix c)\<rparr>"

definition on_clip :: "(clip_helper \<Rightarrow> clip_helper) \<Rightarrow> 'a calculator \<Rightarrow> 'a calculator" where
  "on_clip f c = c\<lparr>c_clip := f (c_clip c)\<rparr>"

(* map: display_list/display_list_utils.h 637 637 DisplayListBoundsCalculator::LayerData::set_unbounded *)
definition set_unbounded :: "layer_data list \<Rightarrow> layer_data list" where
  "set_unbounded ls = (case ls of [] \<Rightarrow> [] | l # ls \<Rightarrow> l\<lparr>ld_unbounded := True\<rparr> # ls)"

(* map: display_list/display_list_utils.h 587 590 DisplayListBoundsCalculator::is_unbounded *)
definition is_unbounded :: "'a calculator \<Rightarrow> bool res" where
  "is_unbounded c = bindr (ensure DCheck_Failed (length (layer_infos c) = 1)) (\<lambda>_. Inr (ld_unbounded (hd (layer_infos c))))"

section \<open>The bounds of an operation\<close>

(* map: display_list/display_list_utils.cc fn DisplayListBoundsCalculator::ComputeFilteredBounds( *)
definition ComputeFilteredBounds :: "geo \<Rightarrow> SkRect \<Rightarrow> DlImageFilter option \<Rightarrow> SkRect option" where
  "ComputeFilteredBounds gm bounds flt = (case flt of
     None \<Rightarrow> Some bounds
   | Some f \<Rightarrow> (case map_local_bounds gm f bounds bounds of (ok, r) \<Rightarrow> if ok then Some r else None))"

definition stroke_pad :: "geo \<Rightarrow> 'a calculator \<Rightarrow> flags \<Rightarrow> SkScalar" where
  "stroke_pad gm c special =
     (let pad = float_one;
          pad = (if join_is_miter c \<and> has_any special kMayHaveAcuteJoins then float_max pad (miter_limit c) else pad);
          pad = (if cap_is_square c \<and> has_any special kMayHaveDiagonalCaps then float_max pad SK_ScalarSqrt2 else pad) in
      f_mul gm pad (half_stroke_width c))"

text \<open>The part for the geometry, the part for the mask filter, and both with the image filter.\<close>

(* map: display_list/display_list_utils.cc 725 749 DisplayListBoundsCalculator::AdjustBoundsForPaint:geometry *)
definition adjust_geometry :: "geo \<Rightarrow> 'a calculator \<Rightarrow> flags \<Rightarrow> SkRect \<Rightarrow> SkRect option" where
  "adjust_geometry gm c flags bounds =
     (if is_geometric flags then
        let special = WithPathEffect flags (c_path_effect c) in
        (case (case c_path_effect c of None \<Rightarrow> Some bounds | Some e \<Rightarrow> effect_bounds gm e bounds) of
           None \<Rightarrow> None
         | Some bounds \<Rightarrow>
             Some (if is_stroked flags (c_style c)
                   then let pad = stroke_pad gm c special in makeOutset gm bounds pad pad else bounds))
      else Some bounds)"

(* map: display_list/display_list_utils.cc 751 766 DisplayListBoundsCalculator::AdjustBoundsForPaint:mask *)
definition adjust_mask :: "geo \<Rightarrow> 'a calculator \<Rightarrow> flags \<Rightarrow> SkRect \<Rightarrow> SkRect option" where
  "adjust_mask gm c flags bounds =
     (if applies_mask_filter flags then
        (case c_mask_filter c of
           None \<Rightarrow> Some bounds
         | Some (BlurMaskFilter style sigma respect) \<Rightarrow>
             let mask_sigma_pad = f_mul gm sigma float_three in Some (makeOutset gm bounds mask_sigma_pad mask_sigma_pad)
         | Some (UnknownMaskFilter k) \<Rightarrow> mask_fastBounds gm k bounds)
      else Some bounds)"

(* map: display_list/display_list_utils.cc fn DisplayListBoundsCalculator::AdjustBoundsForPaint( *)
definition AdjustBoundsForPaint :: "geo \<Rightarrow> 'a calculator \<Rightarrow> flags \<Rightarrow> SkRect \<Rightarrow> SkRect option" where
  "AdjustBoundsForPaint gm c flags bounds =
     (if ignores_paint flags then Some bounds
      else case adjust_geometry gm c flags bounds of
        None \<Rightarrow> None
      | Some bounds \<Rightarrow> (case adjust_mask gm c flags bounds of
          None \<Rightarrow> None
        | Some bounds \<Rightarrow>
            if applies_image_filter flags then ComputeFilteredBounds gm bounds (c_image_filter c) else Some bounds))"

(* map: display_list/display_list_utils.cc fn DisplayListBoundsCalculator::AccumulateUnbounded( *)
definition AccumulateUnbounded :: "'a accumulator \<Rightarrow> 'a calculator \<Rightarrow> 'a calculator" where
  "AccumulateUnbounded A c =
     (if has_clip c then on_acc (acc_accumulate A (c_clip_bounds c)) c
      else c\<lparr>layer_infos := set_unbounded (layer_infos c)\<rparr>)"

(* map: display_list/display_list_utils.cc fn DisplayListBoundsCalculator::AccumulateBounds( *)
definition AccumulateBounds :: "skia \<Rightarrow> geo \<Rightarrow> 'a accumulator \<Rightarrow> SkRect \<Rightarrow> 'a calculator \<Rightarrow> 'a calculator" where
  "AccumulateBounds sk gm A bounds c =
     (case (if \<not> has_clip c then Some (m33_mapRect gm (c_m33 c) bounds)
            else rect_intersect sk (m33_mapRect gm (c_m33 c) bounds) (c_clip_bounds c)) of
        Some r \<Rightarrow> on_acc (acc_accumulate A r) c
      | None \<Rightarrow> c)"

(* map: display_list/display_list_utils.cc fn DisplayListBoundsCalculator::AccumulateOpBounds( *)
definition AccumulateOpBounds ::
  "skia \<Rightarrow> geo \<Rightarrow> 'a accumulator \<Rightarrow> flags res \<Rightarrow> SkRect \<Rightarrow> 'a calculator \<Rightarrow> 'a calculator res" where
  "AccumulateOpBounds sk gm A flags bounds c = bindr flags (\<lambda>f. Inr
     (case AdjustBoundsForPaint gm c f bounds of
        Some r \<Rightarrow> AccumulateBounds sk gm A r c | None \<Rightarrow> AccumulateUnbounded A c))"

text \<open>The modes that leave a pixel as it is where the source is transparent.\<close>

(* map: display_list/display_list_utils.cc 824 870 DisplayListBoundsCalculator::paint_nops_on_transparency:mode *)
definition nops_mode :: "DlBlendMode \<Rightarrow> bool" where
  "nops_mode m = (case m of
     kClear \<Rightarrow> False | kSrc \<Rightarrow> False | kSrcIn \<Rightarrow> False | kDstIn \<Rightarrow> False | kSrcOut \<Rightarrow> False | kDstATop \<Rightarrow> False
   | kModulate \<Rightarrow> False
   | kDst \<Rightarrow> True | kSrcOver \<Rightarrow> True | kDstOver \<Rightarrow> True | kDstOut \<Rightarrow> True | kSrcATop \<Rightarrow> True | kXor \<Rightarrow> True
   | kPlus \<Rightarrow> True | kScreen \<Rightarrow> True | kOverlay \<Rightarrow> True | kDarken \<Rightarrow> True | kLighten \<Rightarrow> True | kColorDodge \<Rightarrow> True
   | kColorBurn \<Rightarrow> True | kHardLight \<Rightarrow> True | kSoftLight \<Rightarrow> True | kDifference \<Rightarrow> True | kExclusion \<Rightarrow> True
   | kMultiply \<Rightarrow> True | kHue \<Rightarrow> True | kSaturation \<Rightarrow> True | kColor \<Rightarrow> True | kLuminosity \<Rightarrow> True)"

(* map: display_list/display_list_utils.cc fn DisplayListBoundsCalculator::paint_nops_on_transparency( *)
definition paint_nops_on_transparency :: "geo \<Rightarrow> 'a calculator \<Rightarrow> bool" where
  "paint_nops_on_transparency gm c =
     (if (case c_image_filter c of None \<Rightarrow> False | Some f \<Rightarrow> modifies_transparent_black gm f) then False
      else if (case c_color_filter c of None \<Rightarrow> False | Some f \<Rightarrow> color_modifies_transparent_black gm f) then False
      else case c_blend_mode c of None \<Rightarrow> False | Some m \<Rightarrow> nops_mode m)"

section \<open>The calls that set an attribute\<close>

text \<open>A blender that is not one of the modes, and only that, leaves the mode unknown.\<close>

(* map: display_list/display_list_utils.cc fn DisplayListBoundsCalculator::setBlender( *)
definition c_setBlender :: "skia \<Rightarrow> sk_ref option \<Rightarrow> 'a calculator \<Rightarrow> 'a calculator" where
  "c_setBlender sk blender c = c\<lparr>c_blend_mode :=
     (case blender of None \<Rightarrow> Some kSrcOver | Some b \<Rightarrow> asBlendMode sk b)\<rparr>"

(* map: display_list/display_list_utils.cc fn DisplayListBoundsCalculator::setStrokeWidth( *)
definition c_setStrokeWidth :: "geo \<Rightarrow> SkScalar \<Rightarrow> 'a calculator \<Rightarrow> 'a calculator" where
  "c_setStrokeWidth gm width c = c\<lparr>half_stroke_width := float_max (f_mul gm width float_half) kMinStrokeWidth\<rparr>"

(* map: display_list/display_list_utils.cc fn DisplayListBoundsCalculator::setStrokeMiter( *)
definition c_setStrokeMiter :: "SkScalar \<Rightarrow> 'a calculator \<Rightarrow> 'a calculator" where
  "c_setStrokeMiter limit c = c\<lparr>miter_limit := float_max limit float_one\<rparr>"

(* map: display_list/display_list_utils.cc 386 425 DisplayListBoundsCalculator:setters *)
fun c_attr :: "skia \<Rightarrow> geo \<Rightarrow> attr_call \<Rightarrow> 'a calculator \<Rightarrow> 'a calculator" where
  "c_attr sk gm (setStrokeCap cap) c = c\<lparr>cap_is_square := (cap = kCapSquare)\<rparr>"
| "c_attr sk gm (setStrokeJoin join) c = c\<lparr>join_is_miter := (join = kJoinMiter)\<rparr>"
| "c_attr sk gm (setStyle style) c = c\<lparr>c_style := style\<rparr>"
| "c_attr sk gm (setStrokeWidth width) c = c_setStrokeWidth gm width c"
| "c_attr sk gm (setStrokeMiter limit) c = c_setStrokeMiter limit c"
| "c_attr sk gm (setBlendMode mode) c = c\<lparr>c_blend_mode := Some mode\<rparr>"
| "c_attr sk gm (setBlender blender) c = c_setBlender sk blender c"
| "c_attr sk gm (setImageFilter flt) c = c\<lparr>c_image_filter := flt\<rparr>"
| "c_attr sk gm (setColorFilter flt) c = c\<lparr>c_color_filter := flt\<rparr>"
| "c_attr sk gm (setPathEffect effect) c = c\<lparr>c_path_effect := effect\<rparr>"
| "c_attr sk gm (setMaskFilter flt) c = c\<lparr>c_mask_filter := flt\<rparr>"
| "c_attr sk gm _ c = c"

section \<open>Layers\<close>

(* map: display_list/display_list_utils.cc fn DisplayListBoundsCalculator::save( *)
definition c_save :: "geo \<Rightarrow> 'a accumulator \<Rightarrow> 'a calculator \<Rightarrow> 'a calculator" where
  "c_save gm A c =
     on_acc (acc_save A)
       ((on_clip (ch_save gm) (on_mh mh_save c))\<lparr>layer_infos := \<lparr>ld_filter = None, ld_unbounded = False\<rparr> # layer_infos c\<rparr>)"

(* map: display_list/display_list_utils.cc fn DisplayListBoundsCalculator::saveLayer( *)
definition c_saveLayer ::
  "skia \<Rightarrow> geo \<Rightarrow> 'a accumulator \<Rightarrow> SkRect option \<Rightarrow> SaveLayerOptions \<Rightarrow> DlImageFilter option
    \<Rightarrow> 'a calculator \<Rightarrow> 'a calculator" where
  "c_saveLayer sk gm A bounds options backdrop c =
     (let c = on_clip (ch_save gm) (on_mh mh_save c);
          c = (if renders_with_attributes options then
                 let c = (if \<not> paint_nops_on_transparency gm c then AccumulateUnbounded A c else c) in
                 c\<lparr>layer_infos := \<lparr>ld_filter = c_image_filter c, ld_unbounded = False\<rparr> # layer_infos c\<rparr>
               else c\<lparr>layer_infos := \<lparr>ld_filter = None, ld_unbounded = False\<rparr> # layer_infos c\<rparr>);
          c = on_acc (acc_save A) c;
          c = (case bounds of None \<Rightarrow> c | Some r \<Rightarrow> on_clip (ch_clipRect sk gm (c_m33 c) r kIntersectClip False) c) in
      if backdrop \<noteq> None then AccumulateUnbounded A c else c)"

text \<open>
  The function run over the rectangles of a layer with a filter. The variable it hands to the filter has
  no value; reading it when the filter left it so is undefined.
\<close>

(* map: display_list/display_list_utils.cc 480 487 DisplayListBoundsCalculator::restore:lambda *)
definition layer_mapper :: "geo \<Rightarrow> DlImageFilter \<Rightarrow> SkMatrix \<Rightarrow> mapper" where
  "layer_mapper gm f matrix input =
     (let rounded = irect_roundOut gm input in
      bindr (map_device_bounds gm f rounded matrix rounded) (\<lambda>(ok, output_bounds).
      if leaves_output_unset f then Inl Undefined else Inr (ok, rect_of_irect gm output_bounds)))"

(* map: display_list/display_list_utils.cc fn DisplayListBoundsCalculator::restore( *)
definition c_restore :: "geo \<Rightarrow> 'a accumulator \<Rightarrow> 'a calculator \<Rightarrow> 'a calculator res" where
  "c_restore gm A c =
     (case layer_infos c of
        layer # outer # infos \<Rightarrow>
          let c = on_clip ch_restore (on_mh (mh_restore gm) c) in
          bindr (case ld_filter layer of
              Some f \<Rightarrow>
                bindr (acc_restore_map A (layer_mapper gm f (c_m33 c)) (if has_clip c then Some (c_clip_bounds c) else None)
                  (c_acc c)) (\<lambda>(ok, a). Inr (if \<not> ok then True else ld_unbounded layer, c\<lparr>c_acc := a\<rparr>))
            | None \<Rightarrow> Inr (ld_unbounded layer, on_acc (acc_restore A) c)) (\<lambda>(unbounded, c).
          let c = c\<lparr>layer_infos := outer # infos\<rparr> in
          Inr (if unbounded then AccumulateUnbounded A c else c))
      | _ \<Rightarrow> Inr c)"

section \<open>Drawing\<close>

(* map: display_list/display_list_utils.cc fn DisplayListBoundsCalculator::drawLine( *)
definition c_drawLine :: "skia \<Rightarrow> geo \<Rightarrow> 'a accumulator \<Rightarrow> SkPoint \<Rightarrow> SkPoint \<Rightarrow> 'a calculator \<Rightarrow> 'a calculator res" where
  "c_drawLine sk gm A p0 p1 c =
     (let bounds = makeSorted gm \<lparr>fLeft = fst p0, fTop = snd p0, fRight = fst p1, fBottom = snd p1\<rparr>;
          flags = (if float_less 0 (f_sub gm (fRight bounds) (fLeft bounds)) \<and>
                      float_less 0 (f_sub gm (fBottom bounds) (fTop bounds))
                   then kDrawLineFlags else kDrawHVLineFlags) in
      AccumulateOpBounds sk gm A flags bounds c)"

(* map: display_list/display_list_utils.cc fn DisplayListBoundsCalculator::drawCircle( *)
definition c_drawCircle :: "skia \<Rightarrow> geo \<Rightarrow> 'a accumulator \<Rightarrow> SkPoint \<Rightarrow> SkScalar \<Rightarrow> 'a calculator \<Rightarrow> 'a calculator res" where
  "c_drawCircle sk gm A center radius =
     AccumulateOpBounds sk gm A kDrawCircleFlags
       \<lparr>fLeft = f_sub gm (fst center) radius, fTop = f_sub gm (snd center) radius,
        fRight = f_add gm (fst center) radius, fBottom = f_add gm (snd center) radius\<rparr>"

(* map: display_list/display_list_utils.cc fn DisplayListBoundsCalculator::drawPath( *)
definition c_drawPath :: "skia \<Rightarrow> geo \<Rightarrow> 'a accumulator \<Rightarrow> SkPath \<Rightarrow> 'a calculator \<Rightarrow> 'a calculator res" where
  "c_drawPath sk gm A path c =
     (if isInverseFillType sk path then Inr (AccumulateUnbounded A c)
      else AccumulateOpBounds sk gm A kDrawPathFlags (path_getBounds sk path) c)"

definition accumulate_points :: "SkPoint list \<Rightarrow> AccumulationRect" where
  "accumulate_points ps = fold (\<lambda>(x, y). accumulate_xy x y) ps AccumulationRect_new"

(* map: display_list/display_list_utils.cc fn DisplayListBoundsCalculator::drawPoints( *)
definition c_drawPoints :: "skia \<Rightarrow> geo \<Rightarrow> 'a accumulator \<Rightarrow> PointMode \<Rightarrow> SkPoint list \<Rightarrow> 'a calculator \<Rightarrow> 'a calculator res" where
  "c_drawPoints sk gm A mode pts c =
     (if length pts > 0 then
        let point_bounds = acc_rect_bounds (accumulate_points pts) in
        (case mode of
           kPoints_PointMode \<Rightarrow> AccumulateOpBounds sk gm A kDrawPointsAsPointsFlags point_bounds c
         | kLines_PointMode \<Rightarrow> AccumulateOpBounds sk gm A kDrawPointsAsLinesFlags point_bounds c
         | kPolygon_PointMode \<Rightarrow> AccumulateOpBounds sk gm A kDrawPointsAsPolygonFlags point_bounds c)
      else Inr c)"

(* map: display_list/display_list_utils.cc fn DisplayListBoundsCalculator::drawImage( *)
definition c_drawImage ::
  "skia \<Rightarrow> geo \<Rightarrow> 'a accumulator \<Rightarrow> DlImage \<Rightarrow> SkPoint \<Rightarrow> bool \<Rightarrow> 'a calculator \<Rightarrow> 'a calculator res" where
  "c_drawImage sk gm A img point render_with_attributes =
     AccumulateOpBounds sk gm A (if render_with_attributes then kDrawImageWithPaintFlags else kDrawImageFlags)
       \<lparr>fLeft = fst point, fTop = snd point, fRight = f_add gm (fst point) (f_int gm (fst (image_bounds img))),
        fBottom = f_add gm (snd point) (f_int gm (snd (image_bounds img)))\<rparr>"

(* map: display_list/display_list_utils.cc fn DisplayListBoundsCalculator::drawAtlas( *)
definition c_drawAtlas :: "skia \<Rightarrow> geo \<Rightarrow> 'a accumulator \<Rightarrow> atlas_args \<Rightarrow> bool \<Rightarrow> 'a calculator \<Rightarrow> 'a calculator res" where
  "c_drawAtlas sk gm A args render_with_attributes c =
     (let atlas_bounds = accumulate_points (concat (map2 (\<lambda>xform src.
            toQuad gm xform (f_sub gm (fRight src) (fLeft src)) (f_sub gm (fBottom src) (fTop src)))
            (atlas_xform args) (atlas_tex args))) in
      if acc_rect_is_not_empty atlas_bounds then
        AccumulateOpBounds sk gm A (if render_with_attributes then kDrawAtlasWithPaintFlags else kDrawAtlasFlags)
          (acc_rect_bounds atlas_bounds) c
      else Inr c)"

(* map: display_list/display_list_utils.cc fn DisplayListBoundsCalculator::drawPicture( *)
definition c_drawPicture ::
  "skia \<Rightarrow> geo \<Rightarrow> 'a accumulator \<Rightarrow> sk_ref \<Rightarrow> SkMatrix option \<Rightarrow> bool \<Rightarrow> 'a calculator \<Rightarrow> 'a calculator res" where
  "c_drawPicture sk gm A picture pic_matrix render_with_attributes =
     (let bounds = picture_cullRect gm picture;
          bounds = (case pic_matrix of None \<Rightarrow> bounds | Some m \<Rightarrow> m33_mapRect gm m bounds) in
      AccumulateOpBounds sk gm A (if render_with_attributes then kDrawPictureWithPaintFlags else kDrawPictureFlags) bounds)"

(* map: display_list/display_list_utils.cc fn DisplayListBoundsCalculator::drawDisplayList( *)
definition c_drawDisplayList :: "skia \<Rightarrow> geo \<Rightarrow> 'a accumulator \<Rightarrow> dl_ref \<Rightarrow> 'a calculator \<Rightarrow> 'a calculator res" where
  "c_drawDisplayList sk gm A display_list c =
     (let bounds = list_bounds gm display_list in
      if \<not> acc_is_rtree A then AccumulateOpBounds sk gm A kDrawDisplayListFlags bounds c
      else run_ops (\<lambda>c rect. AccumulateOpBounds sk gm A kDrawDisplayListFlags rect c) c (list_rects gm display_list bounds))"

(* map: display_list/display_list_canvas_dispatcher.cc 286 296 DisplayListCanvasDispatcher::ComputeShadowBounds *)
definition ComputeShadowBounds :: "skia \<Rightarrow> geo \<Rightarrow> SkPath \<Rightarrow> SkScalar \<Rightarrow> SkScalar \<Rightarrow> SkMatrix \<Rightarrow> SkRect" where
  "ComputeShadowBounds sk gm path elevation dpr ctm =
     (case shadow_localBounds gm ctm path (f_mul gm dpr elevation) of Some r \<Rightarrow> r | None \<Rightarrow> path_getBounds sk path)"

(* map: display_list/display_list_utils.cc 506 707 DisplayListBoundsCalculator:draw *)
fun c_draw :: "skia \<Rightarrow> geo \<Rightarrow> 'a accumulator \<Rightarrow> draw_call \<Rightarrow> 'a calculator \<Rightarrow> 'a calculator res" where
  "c_draw sk gm A drawPaint c = Inr (AccumulateUnbounded A c)"
| "c_draw sk gm A (drawColor color mode) c = Inr (AccumulateUnbounded A c)"
| "c_draw sk gm A (drawLine p0 p1) c = c_drawLine sk gm A p0 p1 c"
| "c_draw sk gm A (drawRect rect) c = AccumulateOpBounds sk gm A kDrawRectFlags rect c"
| "c_draw sk gm A (drawOval bounds) c = AccumulateOpBounds sk gm A kDrawOvalFlags bounds c"
| "c_draw sk gm A (drawCircle center radius) c = c_drawCircle sk gm A center radius c"
| "c_draw sk gm A (drawRRect rrect) c = AccumulateOpBounds sk gm A kDrawRRectFlags (rrect_getBounds sk rrect) c"
| "c_draw sk gm A (drawDRRect outer inner) c = AccumulateOpBounds sk gm A kDrawDRRectFlags (rrect_getBounds sk outer) c"
| "c_draw sk gm A (drawPath path) c = c_drawPath sk gm A path c"
| "c_draw sk gm A (drawArc bounds start sweep useCenter) c =
     AccumulateOpBounds sk gm A (if useCenter then kDrawArcWithCenterFlags else kDrawArcNoCenterFlags) bounds c"
| "c_draw sk gm A (drawPoints mode pts) c = c_drawPoints sk gm A mode pts c"
| "c_draw sk gm A (drawSkVertices vertices mode) c =
     AccumulateOpBounds sk gm A kDrawVerticesFlags (vertices_bounds gm vertices) c"
| "c_draw sk gm A (drawVertices vertices mode) c =
     AccumulateOpBounds sk gm A kDrawVerticesFlags (vertices_bounds gm vertices) c"
| "c_draw sk gm A (drawImage img point sampling with_attributes) c = c_drawImage sk gm A img point with_attributes c"
| "c_draw sk gm A (drawImageRect img src dst sampling with_attributes constraint) c =
     AccumulateOpBounds sk gm A (if with_attributes then kDrawImageRectWithPaintFlags else kDrawImageRectFlags) dst c"
| "c_draw sk gm A (drawImageNine img center dst mode with_attributes) c =
     AccumulateOpBounds sk gm A (if with_attributes then kDrawImageNineWithPaintFlags else kDrawImageNineFlags) dst c"
| "c_draw sk gm A (drawImageLattice img lat dst mode with_attributes) c =
     AccumulateOpBounds sk gm A (if with_attributes then kDrawImageLatticeWithPaintFlags else kDrawImageLatticeFlags) dst c"
| "c_draw sk gm A (drawAtlas args cull with_attributes) c = c_drawAtlas sk gm A args with_attributes c"
| "c_draw sk gm A (drawPicture picture matrix with_attributes) c = c_drawPicture sk gm A picture matrix with_attributes c"
| "c_draw sk gm A (drawDisplayList d) c = c_drawDisplayList sk gm A d c"
| "c_draw sk gm A (drawTextBlob blob x y) c =
     AccumulateOpBounds sk gm A kDrawTextBlobFlags (makeOffset gm (blob_bounds gm blob) x y) c"
| "c_draw sk gm A (drawShadow path color elevation occluder dpr) c =
     AccumulateOpBounds sk gm A kDrawShadowFlags (ComputeShadowBounds sk gm path elevation dpr (c_m33 c)) c"

section \<open>All calls\<close>

fun c_step :: "skia \<Rightarrow> geo \<Rightarrow> 'a accumulator \<Rightarrow> 'a calculator \<Rightarrow> dl_call \<Rightarrow> 'a calculator res" where
  "c_step sk gm A c (Attr a) = Inr (c_attr sk gm a c)"
| "c_step sk gm A c Save = Inr (c_save gm A c)"
| "c_step sk gm A c (SaveLayer r o1 f) = Inr (c_saveLayer sk gm A r o1 f c)"
| "c_step sk gm A c Restore = c_restore gm A c"
| "c_step sk gm A c (Translate x y) = Inr (on_mh (mh_translate sk gm x y) c)"
| "c_step sk gm A c (Scale x y) = Inr (on_mh (mh_scale sk gm x y) c)"
| "c_step sk gm A c (Rotate d) = Inr (on_mh (mh_rotate sk gm d) c)"
| "c_step sk gm A c (Skew x y) = Inr (on_mh (mh_skew sk gm x y) c)"
| "c_step sk gm A c (Transform2DAffine a1 b1 c1 d1 e1 f1) = Inr (on_mh (mh_transform2DAffine sk gm a1 b1 c1 d1 e1 f1) c)"
| "c_step sk gm A c (TransformFullPerspective m) = Inr (on_mh (mh_transformFullPerspective sk gm m) c)"
| "c_step sk gm A c TransformReset = Inr (on_mh mh_transformReset c)"
| "c_step sk gm A c (ClipRect r op1 aa) = Inr (on_clip (ch_clipRect sk gm (c_m33 c) r op1 aa) c)"
| "c_step sk gm A c (ClipRRect r op1 aa) = Inr (on_clip (ch_clipRRect sk gm (c_m33 c) r op1 aa) c)"
| "c_step sk gm A c (ClipPath p op1 aa) = Inr (on_clip (ch_clipPath sk gm (c_m33 c) p op1 aa) c)"
| "c_step sk gm A c (Draw d) = c_draw sk gm A d c"

definition calculate :: "skia \<Rightarrow> geo \<Rightarrow> 'a accumulator \<Rightarrow> 'a \<Rightarrow> SkRect option \<Rightarrow> dl_call list \<Rightarrow> 'a calculator res" where
  "calculate sk gm A a cull calls = run_ops (c_step sk gm A) (calculator_new gm a cull) calls"

text \<open>The bounds of a list and its tree of rectangles: the rectangle it was recorded for bounds both.\<close>

(* map: display_list/display_list.cc 55 63 DisplayList::ComputeBounds *)
definition ComputeBounds :: "skia \<Rightarrow> geo \<Rightarrow> display_list \<Rightarrow> SkRect res" where
  "ComputeBounds sk gm dl =
     bindr (calculate sk gm (RectBoundsAccumulator sk) rect_acc_new (Some (dl_bounds_cull dl)) (Dispatch dl)) (\<lambda>c.
     bindr (is_unbounded c) (\<lambda>_. rect_bounds (c_acc c)))"

(* map: display_list/display_list.cc 65 73 DisplayList::ComputeRTree *)
definition ComputeRTree :: "skia \<Rightarrow> geo \<Rightarrow> display_list \<Rightarrow> SkRect list res" where
  "ComputeRTree sk gm dl =
     bindr (calculate sk gm (RTreeBoundsAccumulator sk) rtree_acc_new (Some (dl_bounds_cull dl)) (Dispatch dl)) (\<lambda>c.
     bindr (is_unbounded c) (\<lambda>_.
     bindr (ensure DCheck_Failed (saved_offsets (c_acc c) = [])) (\<lambda>_. Inr (acc_rects (c_acc c)))))"

end
