(* ===== verification/Dl_Accumulator_Laws.thy ===== *)
theory Dl_Accumulator_Laws
  imports Dl_Bounds
begin

text \<open>
  What the bounds calculator may rely on of its two accumulators, as two locales: that they keep to a
  rectangle that everything accumulated lies in, and that the box of the one contains the rectangles of
  the other. Each is interpreted on the accumulators of the code, after the loop of the R-tree's
  accumulator, which compacts an array in place, has been shown to be a map and a filter.
\<close>

section \<open>The loop of the R-tree's accumulator\<close>

fun map_clip :: "skia \<Rightarrow> mapper \<Rightarrow> SkRect option \<Rightarrow> SkRect list \<Rightarrow> (bool \<times> SkRect list) res" where
  "map_clip sk m clip [] = Inr (True, [])"
| "map_clip sk m clip (r # rs) =
     bindr (m r) (\<lambda>(ok, r'). bindr (map_clip sk m clip rs) (\<lambda>(ok', rs').
     Inr (ok \<and> ok', (case (case clip of None \<Rightarrow> Some r' | Some c \<Rightarrow> rect_intersect sk r' c) of
        Some x \<Rightarrow> x # rs' | None \<Rightarrow> rs'))))"

lemma restore_rects_spec:
  "kept \<le> i \<Longrightarrow> i \<le> length rects \<Longrightarrow>
   restore_rects sk m clip i kept success rects =
     bindr (map_clip sk m clip (drop i rects)) (\<lambda>(ok, rs). Inr (success \<and> ok, take kept rects @ rs))"
proof (induction sk m clip i kept success rects rule: restore_rects.induct)
  case (1 sk m clip i kept success rects)
  show ?case
  proof (cases "i < length rects")
    case False
    with 1(4) have "i = length rects" by simp
    then show ?thesis by (simp add: restore_rects.simps)
  next
    case True
    then have d: "drop i rects = rects ! i # drop (Suc i) rects" by (rule Cons_nth_drop_Suc [symmetric])
    show ?thesis
    proof (cases "m (rects ! i)")
      case (Inl e)
      with True d show ?thesis by (simp add: restore_rects.simps)
    next
      case (Inr p)
      obtain ok r where p: "p = (ok, r)" by (cases p)
      let ?s = "if \<not> ok then False else success"
      show ?thesis
      proof (cases "case clip of None \<Rightarrow> Some r | Some c \<Rightarrow> rect_intersect sk r c")
        case None
        have "restore_rects sk m clip (Suc i) kept ?s rects =
            bindr (map_clip sk m clip (drop (Suc i) rects)) (\<lambda>(ok, rs). Inr (?s \<and> ok, take kept rects @ rs))"
          using 1(1) [OF True Inr p [symmetric] refl None] True 1(3) by simp
        then show ?thesis
          by (subst restore_rects.simps, cases "map_clip sk m clip (drop (Suc i) rects)") (auto simp: True d Inr p None)
      next
        case (Some x)
        have k: "take (Suc kept) (rects[kept := x]) = take kept rects @ [x]"
          using 1(3) True by (simp add: take_Suc_conv_app_nth)
        have "restore_rects sk m clip (Suc i) (Suc kept) ?s (rects[kept := x]) =
            bindr (map_clip sk m clip (drop (Suc i) rects)) (\<lambda>(ok, rs). Inr (?s \<and> ok, take kept rects @ x # rs))"
          using 1(2) [OF True Inr p [symmetric] refl Some] True 1(3) k by simp
        then show ?thesis
          by (subst restore_rects.simps, cases "map_clip sk m clip (drop (Suc i) rects)") (auto simp: True d Inr p Some)
      qed
    qed
  qed
qed

section \<open>Boxes\<close>

definition box :: "AccumulationRect \<Rightarrow> SkRect" where
  "box a = \<lparr>fLeft = min_x a, fTop = min_y a, fRight = max_x a, fBottom = max_y a\<rparr>"

definition not_nan :: "SkRect \<Rightarrow> bool" where
  "not_nan r \<longleftrightarrow> \<not> float_is_nan (fLeft r) \<and> \<not> float_is_nan (fTop r) \<and>
     \<not> float_is_nan (fRight r) \<and> \<not> float_is_nan (fBottom r)"

lemma inside_not_nan: "inside r b \<Longrightarrow> not_nan r" "inside r b \<Longrightarrow> not_nan b"
  by (auto simp: inside_def not_nan_def dest: float_not_nan)

lemma has_area_not_nan: "has_area r \<Longrightarrow> not_nan r"
  by (auto simp: has_area_def not_nan_def dest: float_not_nan)

lemma not_nan_empty [simp]: "not_nan SkRect_MakeEmpty"
  by (simp add: not_nan_def SkRect_MakeEmpty_def)

lemma no_area_empty [simp]: "\<not> has_area SkRect_MakeEmpty"
  by (simp add: has_area_def SkRect_MakeEmpty_def float_less_def)

lemma magnitude_bound:
  fixes a :: SkScalar
  assumes "\<not> float_is_nan a"
  shows "\<bar>signed_magnitude a\<bar> \<le> 0x7F800000"
proof -
  have "take_bit 31 a \<le> push_bit 23 (mask 8)"
    using assms by (simp add: float_is_nan_def take_bit_eq_mask not_less)
  also have "push_bit 23 (mask 8) = (0x7F800000 :: 32 word)" by (simp add: mask_eq_exp_minus_1)
  finally have "int (unat (take_bit 31 a)) \<le> 0x7F800000" by (simp add: word_le_def)
  moreover have "\<bar>signed_magnitude a\<bar> = int (unat (take_bit 31 a))"
    by (simp add: signed_magnitude_def Let_def)
  ultimately show ?thesis by simp
qed

lemma magnitude_inf: "signed_magnitude float_inf = 0x7F800000" "signed_magnitude float_neg_inf = - 0x7F800000"
  by (simp_all add: signed_magnitude_def float_inf_def float_neg_inf_def Let_def bit_simps)

lemma float_le_inf [simp]: "float_le a float_inf \<longleftrightarrow> \<not> float_is_nan a"
  using magnitude_bound [of a] by (auto simp: float_le_def magnitude_inf)

lemma float_neg_inf_le [simp]: "float_le float_neg_inf a \<longleftrightarrow> \<not> float_is_nan a"
  using magnitude_bound [of a] by (auto simp: float_le_def magnitude_inf)

lemma inside_box_new: "not_nan b \<Longrightarrow> inside (box AccumulationRect_new) b"
  by (simp add: inside_def box_def AccumulationRect_new_def not_nan_def)

text \<open>A point taken into a box that is not a NaN.\<close>

lemma accumulate_xy_nan:
  "not_nan (box a) \<Longrightarrow> \<not> float_is_nan x \<Longrightarrow> \<not> float_is_nan y \<Longrightarrow> not_nan (box (accumulate_xy x y a))"
  by (simp add: accumulate_xy_def box_def not_nan_def)

lemma accumulate_xy_grows: "not_nan (box a) \<Longrightarrow> inside (box a) (box (accumulate_xy x y a))"
  by (auto simp: accumulate_xy_def box_def inside_def not_nan_def float_le_refl intro: float_less_le)

lemma accumulate_xy_takes:
  assumes "not_nan (box a)" "\<not> float_is_nan x" "\<not> float_is_nan y"
  shows "float_le (min_x (accumulate_xy x y a)) x" "float_le (min_y (accumulate_xy x y a)) y"
    "float_le x (max_x (accumulate_xy x y a))" "float_le y (max_y (accumulate_xy x y a))"
  using assms by (auto simp: accumulate_xy_def box_def not_nan_def float_le_refl intro: float_not_less_le)

lemma accumulate_xy_least:
  assumes "inside (box a) b" "float_le (fLeft b) x" "float_le x (fRight b)" "float_le (fTop b) y" "float_le y (fBottom b)"
  shows "inside (box (accumulate_xy x y a)) b"
  using assms by (simp add: accumulate_xy_def box_def inside_def)

definition take_rect :: "SkRect \<Rightarrow> AccumulationRect \<Rightarrow> AccumulationRect" where
  "take_rect r a = accumulate_xy (fRight r) (fBottom r) (accumulate_xy (fLeft r) (fTop r) a)"

lemma take_rect_grows:
  assumes "not_nan (box a)" "not_nan r"
  shows "inside (box a) (box (take_rect r a))"
  using assms accumulate_xy_grows accumulate_xy_nan inside_trans unfolding take_rect_def not_nan_def [of r] by blast

lemma take_rect_takes:
  assumes a: "not_nan (box a)" and r: "not_nan r"
  shows "inside r (box (take_rect r a))"
proof -
  let ?a = "accumulate_xy (fLeft r) (fTop r) a"
  have n: "not_nan (box ?a)" using a r by (simp add: accumulate_xy_nan not_nan_def [of r])
  have "inside (box ?a) (box (take_rect r a))"
    unfolding take_rect_def by (rule accumulate_xy_grows [OF n])
  then have "float_le (min_x (take_rect r a)) (fLeft r)" "float_le (min_y (take_rect r a)) (fTop r)"
    using accumulate_xy_takes [OF a, of "fLeft r" "fTop r"] r
    by (auto simp: inside_def box_def not_nan_def intro: float_le_trans)
  then show ?thesis
    using accumulate_xy_takes [OF n, of "fRight r" "fBottom r"] r
    by (simp add: inside_def box_def not_nan_def take_rect_def)
qed

lemma take_rect_least:
  assumes a: "inside (box a) b" and r: "inside r b" and area: "has_area r"
  shows "inside (box (take_rect r a)) b"
proof -
  have "float_le (fLeft r) (fRight r)" "float_le (fTop r) (fBottom r)"
    using area by (auto simp: has_area_def intro: float_less_le)
  then show ?thesis
    using a r unfolding take_rect_def
    by (intro accumulate_xy_least) (auto simp: inside_def intro: float_le_trans)
qed

lemma rect_accumulate_alt:
  "rect_accumulate r a = (if has_area r then a\<lparr>acc_rect := take_rect r (acc_rect a)\<rparr> else a)"
  by (simp add: rect_accumulate_def take_rect_def)

lemma bounds_with_area: "has_area (acc_rect_bounds a) \<Longrightarrow> acc_rect_bounds a = box a"
  by (auto simp: acc_rect_bounds_def box_def split: if_splits)

section \<open>What is used of Skia's rectangles\<close>

text \<open>
  The intersection lies in both rectangles, contains what lies in both, and is there only when it has an
  area; \<open>isEmpty\<close> is the absence of one.
\<close>

definition lawful_rects :: "skia \<Rightarrow> geo \<Rightarrow> bool" where
  "lawful_rects sk gm \<longleftrightarrow>
     (\<forall>a b r. rect_intersect sk a b = Some r \<longrightarrow> has_area r \<and> inside r a \<and> inside r b) \<and>
     (\<forall>a b x. has_area x \<longrightarrow> inside x a \<longrightarrow> inside x b \<longrightarrow> (\<exists>r. rect_intersect sk a b = Some r \<and> inside x r)) \<and>
     (\<forall>r. rect_isEmpty gm r \<longleftrightarrow> \<not> has_area r)"

lemma lawful_intersect:
  "lawful_rects sk gm \<Longrightarrow> rect_intersect sk a b = Some r \<Longrightarrow> has_area r \<and> inside r a \<and> inside r b"
  by (auto simp: lawful_rects_def)

lemma lawful_intersect_mono:
  assumes "lawful_rects sk gm" "inside a a'" "rect_intersect sk a b = Some r"
  obtains r' where "rect_intersect sk a' b = Some r'" "inside r r'"
proof -
  have "has_area r" "inside r a" "inside r b" using lawful_intersect [OF assms(1,3)] by auto
  with assms(1,2) that show ?thesis unfolding lawful_rects_def by (meson inside_trans)
qed

lemma lawful_isEmpty: "lawful_rects sk gm \<Longrightarrow> rect_isEmpty gm r \<longleftrightarrow> \<not> has_area r"
  by (auto simp: lawful_rects_def)

definition within :: "SkRect \<Rightarrow> SkRect \<Rightarrow> bool" where
  "within K r \<longleftrightarrow> (has_area r \<longrightarrow> inside r K)"

lemma within_intersect:
  assumes "lawful_rects sk gm" "rect_intersect sk a b = Some r" "within K a \<or> within K b"
  shows "has_area r \<and> inside r K"
  using lawful_intersect [OF assms(1,2)] assms(3) by (auto simp: within_def intro: inside_trans dest: inside_area)

section \<open>Keeping to a rectangle\<close>

text \<open>
  The contract: an accumulator that is only given rectangles of a region \<open>K\<close>, and only restored with
  a clip in it, keeps to it.
\<close>

locale culled_accumulator =
  fixes A :: "'a accumulator" and K :: SkRect and keeps :: "'a \<Rightarrow> bool"
  assumes accumulate_keeps: "keeps a \<Longrightarrow> within K r \<Longrightarrow> keeps (acc_accumulate A r a)"
    and save_keeps: "keeps a \<Longrightarrow> keeps (acc_save A a)"
    and restore_keeps: "keeps a \<Longrightarrow> keeps (acc_restore A a)"
    and restore_map_keeps: "keeps a \<Longrightarrow> within K clip \<Longrightarrow> acc_restore_map A m (Some clip) a = Inr (ok, a') \<Longrightarrow> keeps a'"

definition rect_keeps :: "skia \<Rightarrow> geo \<Rightarrow> SkRect \<Rightarrow> rect_acc \<Rightarrow> bool" where
  "rect_keeps sk gm K a \<longleftrightarrow> lawful_rects sk gm \<and> not_nan K \<and>
     list_all (\<lambda>x. inside (box x) K) (acc_rect a # saved_rects a)"

lemma rect_keeps_accumulate: "rect_keeps sk gm K a \<Longrightarrow> within K r \<Longrightarrow> rect_keeps sk gm K (rect_accumulate r a)"
  by (auto simp: rect_keeps_def rect_accumulate_alt within_def intro: take_rect_least)

lemma rect_keeps_pop:
  assumes "rect_keeps sk gm K a" "saved_rects a \<noteq> []"
    and "case clip of None \<Rightarrow> within K r | Some c \<Rightarrow> within K r \<or> within K c"
  shows "rect_keeps sk gm K (pop_and_accumulate sk r clip a)"
proof -
  have l: "lawful_rects sk gm" using assms(1) by (simp add: rect_keeps_def)
  have "rect_keeps sk gm K \<lparr>acc_rect = hd (saved_rects a), saved_rects = tl (saved_rects a)\<rparr>"
    using assms(1,2) by (cases "saved_rects a") (auto simp: rect_keeps_def)
  then show ?thesis
    using assms(3) within_intersect [OF l]
    by (auto simp: pop_and_accumulate_def Let_def within_def intro!: rect_keeps_accumulate split: option.splits)
qed

lemma within_bounds: "inside (box a) K \<Longrightarrow> within K (acc_rect_bounds a)"
  by (auto simp: within_def dest: bounds_with_area)

interpretation rect_cull: culled_accumulator "RectBoundsAccumulator sk" K "rect_keeps sk gm K" for sk gm K
proof unfold_locales
  fix a r assume "rect_keeps sk gm K a" "within K r"
  then show "rect_keeps sk gm K (acc_accumulate (RectBoundsAccumulator sk) r a)"
    by (simp add: RectBoundsAccumulator_def rect_keeps_accumulate)
next
  fix a assume "rect_keeps sk gm K a"
  then show "rect_keeps sk gm K (acc_save (RectBoundsAccumulator sk) a)"
    by (simp add: RectBoundsAccumulator_def rect_save_def rect_keeps_def inside_box_new)
next
  fix a assume a: "rect_keeps sk gm K a"
  then have "within K (acc_rect_bounds (acc_rect a))" by (intro within_bounds) (simp add: rect_keeps_def)
  with a show "rect_keeps sk gm K (acc_restore (RectBoundsAccumulator sk) a)"
    by (auto simp: RectBoundsAccumulator_def rect_restore_def intro: rect_keeps_pop)
next
  fix a clip m ok a'
  assume "rect_keeps sk gm K a" "within K clip" "acc_restore_map (RectBoundsAccumulator sk) m (Some clip) a = Inr (ok, a')"
  then show "rect_keeps sk gm K a'"
    by (auto simp: RectBoundsAccumulator_def rect_restore_map_def intro: rect_keeps_pop split: if_splits elim!: bindrE)
qed

text \<open>The offsets of the layers never grow inwards and are within the array.\<close>

definition offsets_ok :: "rtree_acc \<Rightarrow> bool" where
  "offsets_ok a \<longleftrightarrow> sorted_wrt (\<ge>) (length (acc_rects a) # saved_offsets a)"

definition tree_keeps :: "skia \<Rightarrow> geo \<Rightarrow> SkRect \<Rightarrow> rtree_acc \<Rightarrow> bool" where
  "tree_keeps sk gm K a \<longleftrightarrow> lawful_rects sk gm \<and> offsets_ok a \<and> list_all (\<lambda>r. has_area r \<and> inside r K) (acc_rects a)"

lemma map_clip_within:
  assumes "lawful_rects sk gm" "within K c"
  shows "map_clip sk m (Some c) rs = Inr (ok, rs') \<Longrightarrow> list_all (\<lambda>r. has_area r \<and> inside r K) rs'"
proof (induction rs arbitrary: ok rs')
  case (Cons r rs)
  from Cons.prems obtain ok1 r1 ok2 rs2 where
    m: "m r = Inr (ok1, r1)" "map_clip sk m (Some c) rs = Inr (ok2, rs2)"
    and rs': "rs' = (case rect_intersect sk r1 c of Some x \<Rightarrow> x # rs2 | None \<Rightarrow> rs2)"
    by (auto elim!: bindrE)
  show ?case
    using Cons.IH [OF m(2)] within_intersect [OF assms(1), of r1 c] assms(2) rs' by (auto split: option.splits)
qed simp

lemma tree_restore_map_cases:
  assumes "offsets_ok a" "rtree_restore_map sk m clip a = Inr (ok, a')"
  obtains "saved_offsets a = []" "ok" "a' = a"
  | n ns rs where "saved_offsets a = n # ns" "n \<le> length (acc_rects a)"
      "map_clip sk m clip (drop n (acc_rects a)) = Inr (ok, rs)"
      "a' = \<lparr>acc_rects = take n (acc_rects a) @ rs, saved_offsets = ns\<rparr>"
proof (cases "saved_offsets a")
  case Nil
  with assms(2) have "ok" "a' = a" by (simp_all add: rtree_restore_map_def)
  with Nil show ?thesis by (rule that(1))
next
  case (Cons n ns)
  with assms(1) have n: "n \<le> length (acc_rects a)" by (simp add: offsets_ok_def)
  from assms(2) Cons obtain rs where
    "map_clip sk m clip (drop n (acc_rects a)) = Inr (ok, rs)"
    "a' = \<lparr>acc_rects = take n (acc_rects a) @ rs, saved_offsets = ns\<rparr>"
    by (auto simp: rtree_restore_map_def restore_rects_spec [OF order_refl n] elim!: bindrE)
  with Cons n show ?thesis by (intro that(2))
qed

lemma offsets_ok_restore_map:
  assumes "offsets_ok a" "rtree_restore_map sk m clip a = Inr (ok, a')"
  shows "offsets_ok a'"
  using assms by (rule tree_restore_map_cases) (use assms(1) in \<open>auto simp: offsets_ok_def intro: le_trans\<close>)

lemma tree_keeps_restore_map:
  assumes a: "tree_keeps sk gm K a" and clip: "within K clip" and r: "rtree_restore_map sk m (Some clip) a = Inr (ok, a')"
  shows "tree_keeps sk gm K a'"
proof -
  have l: "lawful_rects sk gm" and o: "offsets_ok a" and k: "list_all (\<lambda>r. has_area r \<and> inside r K) (acc_rects a)"
    using a by (simp_all add: tree_keeps_def)
  have "list_all (\<lambda>r. has_area r \<and> inside r K) (acc_rects a')"
    using o r
  proof (cases rule: tree_restore_map_cases)
    case (2 n ns rs)
    have "list_all (\<lambda>r. has_area r \<and> inside r K) (take n (acc_rects a))"
      using k by (auto simp: list_all_iff dest: in_set_takeD)
    with map_clip_within [OF l clip 2(3)] 2(4) show ?thesis by simp
  next
    case 1
    with k show ?thesis by simp
  qed
  with l offsets_ok_restore_map [OF o r] show ?thesis by (simp add: tree_keeps_def)
qed

interpretation tree_cull: culled_accumulator "RTreeBoundsAccumulator sk" K "tree_keeps sk gm K" for sk gm K
proof unfold_locales
  fix a clip m ok a'
  assume "tree_keeps sk gm K a" "within K clip" "acc_restore_map (RTreeBoundsAccumulator sk) m (Some clip) a = Inr (ok, a')"
  then show "tree_keeps sk gm K a'"
    using tree_keeps_restore_map [of sk gm K a clip m ok a'] by (simp add: RTreeBoundsAccumulator_def)
qed (auto simp: RTreeBoundsAccumulator_def rtree_accumulate_def rtree_save_def rtree_restore_def tree_keeps_def
      offsets_ok_def within_def neq_Nil_conv le_Suc_eq)

section \<open>The rectangles lie in the box\<close>

text \<open>
  A function over the rectangles of a layer that grows with its argument, a rectangle that has an area, and
  answers the same for it and one that contains it.
\<close>

definition even_mapper :: "mapper \<Rightarrow> bool" where
  "even_mapper m \<longleftrightarrow> (\<forall>r s p q r' s'. has_area r \<longrightarrow> inside r s \<longrightarrow> m r = Inr (p, r') \<longrightarrow> m s = Inr (q, s') \<longrightarrow> inside r' s' \<and> p = q)"

text \<open>The contract of a pair: what the one keeps, the other covers.\<close>

locale paired_accumulators =
  fixes A :: "'a accumulator" and B :: "'b accumulator" and covers :: "'a \<Rightarrow> 'b \<Rightarrow> bool"
  assumes accumulate_list: "covers a b \<Longrightarrow> list_all (\<lambda>r. has_area r \<longrightarrow> inside r s) rs
      \<Longrightarrow> covers (acc_accumulate A s a) (fold (acc_accumulate B) rs b)"
    and save_both: "covers a b \<Longrightarrow> covers (acc_save A a) (acc_save B b)"
    and restore_both: "covers a b \<Longrightarrow> covers (acc_restore A a) (acc_restore B b)"
    and restore_map_both: "covers a b \<Longrightarrow> even_mapper m \<Longrightarrow> acc_restore_map A m (Some c) a = Inr (p, a') \<Longrightarrow>
      acc_restore_map B m (Some c) b = Inr (q, b') \<Longrightarrow> covers a' b' \<and> (p \<longrightarrow> q)"
    and first_is_box: "\<not> acc_is_rtree A"
    and second_is_tree: "acc_is_rtree B"

fun levels :: "SkRect list \<Rightarrow> nat list \<Rightarrow> SkRect list list" where
  "levels rects [] = [rects]"
| "levels rects (n # ns) = drop n rects # levels (take n rects) ns"

definition holds :: "AccumulationRect \<Rightarrow> SkRect list \<Rightarrow> bool" where
  "holds x rs \<longleftrightarrow> not_nan (box x) \<and> list_all (\<lambda>r. has_area r \<and> inside r (box x)) rs"

definition box_covers :: "skia \<Rightarrow> geo \<Rightarrow> rect_acc \<Rightarrow> rtree_acc \<Rightarrow> bool" where
  "box_covers sk gm a b \<longleftrightarrow> lawful_rects sk gm \<and> offsets_ok b \<and>
     list_all2 holds (acc_rect a # saved_rects a) (levels (acc_rects b) (saved_offsets b))"

lemma rect_levels_append:
  assumes "sorted_wrt (\<ge>) (length rects # ns)"
  shows "levels (rects @ rs) ns = (case levels rects ns of l # ls \<Rightarrow> (l @ rs) # ls)"
  using assms by (cases ns) auto

lemma levels_not_Nil [simp]: "levels rects ns \<noteq> []"
  by (cases ns) auto

lemma levels_cons: "\<exists>l ls. levels rects ns = l # ls"
  by (cases ns) auto

lemma holds_take: "holds x rs \<Longrightarrow> not_nan r \<Longrightarrow> holds (take_rect r x) rs"
  using take_rect_grows [of x r]
  by (auto simp: holds_def list_all_iff intro: inside_trans dest: inside_not_nan)

lemma holds_bounds:
  assumes "holds x (r # rs)"
  shows "has_area (acc_rect_bounds x) \<and> acc_rect_bounds x = box x"
proof -
  have "has_area (box x)" using assms by (auto simp: holds_def dest: inside_area)
  then have "acc_rect_bounds x = box x" by (auto simp: acc_rect_bounds_def box_def has_area_def dest: float_less_le)
  with \<open>has_area (box x)\<close> show ?thesis by simp
qed

lemma box_covers_first:
  assumes "box_covers sk gm a b"
  shows "box_covers sk gm (rect_accumulate r a) b"
  using assms levels_cons [of "acc_rects b" "saved_offsets b"]
  by (auto simp: box_covers_def rect_accumulate_alt intro: holds_take [OF _ has_area_not_nan])

lemma fold_tree_accumulate:
  "fold rtree_accumulate rs b = b\<lparr>acc_rects := acc_rects b @ filter has_area rs\<rparr>"
  by (induction rs arbitrary: b) (auto simp: rtree_accumulate_def)

lemma box_covers_list:
  assumes c: "box_covers sk gm a b" and rs: "list_all (\<lambda>r. has_area r \<longrightarrow> inside r s) rs"
  shows "box_covers sk gm (rect_accumulate s a) (fold rtree_accumulate rs b)"
proof (cases "filter has_area rs = []")
  case True
  with box_covers_first [OF c, of s] show ?thesis by (simp add: fold_tree_accumulate)
next
  case False
  let ?rs = "filter has_area rs"
  have inside: "list_all (\<lambda>r. has_area r \<and> inside r s) ?rs" using rs by (auto simp: list_all_iff)
  with False have s: "has_area s" by (auto simp: list_all_iff filter_empty_conv dest: inside_area)
  obtain l ls where l: "levels (acc_rects b) (saved_offsets b) = l # ls" using levels_cons by blast
  have o: "offsets_ok b" and h: "holds (acc_rect a) l" and ls: "list_all2 holds (saved_rects a) ls"
    and law: "lawful_rects sk gm"
    using c l by (auto simp: box_covers_def)
  have "inside s (box (take_rect s (acc_rect a)))"
    using h s by (intro take_rect_takes) (auto simp: holds_def has_area_not_nan)
  with inside holds_take [OF h has_area_not_nan [OF s]] have "holds (take_rect s (acc_rect a)) (l @ ?rs)"
    by (auto simp: holds_def list_all_iff intro: inside_trans)
  moreover have "levels (acc_rects b @ ?rs) (saved_offsets b) = (l @ ?rs) # ls"
    using rect_levels_append [of "acc_rects b" "saved_offsets b" ?rs] o l by (simp add: offsets_ok_def)
  moreover have "offsets_ok (fold rtree_accumulate rs b)"
    using o by (auto simp: offsets_ok_def fold_tree_accumulate)
  ultimately show ?thesis
    using s ls law by (simp add: box_covers_def rect_accumulate_alt fold_tree_accumulate)
qed

lemma box_covers_save:
  assumes "box_covers sk gm a b"
  shows "box_covers sk gm (rect_save a) (rtree_save b)"
  using assms by (auto simp: box_covers_def rect_save_def rtree_save_def offsets_ok_def holds_def
      intro: inside_not_nan(1) [OF inside_box_new [OF not_nan_empty]])

text \<open>Going back to the surrounding layer, with whatever the inner one has become.\<close>

lemma box_covers_pop:
  assumes c: "box_covers sk gm a b" and n: "saved_offsets b = n # ns"
    and rs: "list_all (\<lambda>r. has_area r \<and> inside r s) rs"
  shows "box_covers sk gm (rect_accumulate s \<lparr>acc_rect = hd (saved_rects a), saved_rects = tl (saved_rects a)\<rparr>)
    \<lparr>acc_rects = take n (acc_rects b) @ rs, saved_offsets = ns\<rparr>"
proof -
  let ?a = "\<lparr>acc_rect = hd (saved_rects a), saved_rects = tl (saved_rects a)\<rparr>"
  let ?b = "\<lparr>acc_rects = take n (acc_rects b), saved_offsets = ns\<rparr>"
  have "box_covers sk gm ?a ?b"
    using c n by (cases "saved_rects a") (auto simp: box_covers_def offsets_ok_def list_all2_Cons2)
  from box_covers_list [OF this, of s rs] rs
  have "box_covers sk gm (rect_accumulate s ?a) (fold rtree_accumulate rs ?b)" by (simp add: list_all_iff)
  moreover have "filter has_area rs = rs" using rs by (simp add: list_all_iff filter_id_conv)
  ultimately show ?thesis by (simp add: fold_tree_accumulate)
qed

lemma box_covers_restore:
  assumes c: "box_covers sk gm a b"
  shows "box_covers sk gm (rect_restore sk a) (rtree_restore b)"
proof (cases "saved_offsets b")
  case Nil
  with c have "saved_rects a = []" by (auto simp: box_covers_def)
  with c Nil show ?thesis by (simp add: rect_restore_def rtree_restore_def)
next
  case (Cons n ns)
  then have h: "holds (acc_rect a) (drop n (acc_rects b))" and ne: "saved_rects a \<noteq> []"
    using c by (auto simp: box_covers_def list_all2_Cons2)
  have "list_all (\<lambda>r. has_area r \<and> inside r (acc_rect_bounds (acc_rect a))) (drop n (acc_rects b))"
  proof (cases "drop n (acc_rects b)")
    case (Cons r rs)
    with h holds_bounds [of "acc_rect a" r rs] show ?thesis by (simp add: holds_def)
  qed simp
  from box_covers_pop [OF c Cons this]
  have "box_covers sk gm (pop_and_accumulate sk (acc_rect_bounds (acc_rect a)) None a)
      \<lparr>acc_rects = acc_rects b, saved_offsets = ns\<rparr>"
    by (simp add: pop_and_accumulate_def)
  also have "\<lparr>acc_rects = acc_rects b, saved_offsets = ns\<rparr> = rtree_restore b"
    using Cons by (cases b) (simp add: rtree_restore_def)
  finally show ?thesis using ne by (simp add: rect_restore_def)
qed

lemma map_clip_box:
  assumes law: "lawful_rects sk gm" and m: "even_mapper m" and s: "m s = Inr (p, s')"
  shows "map_clip sk m (Some c) rs = Inr (q, rs') \<Longrightarrow> list_all (\<lambda>r. has_area r \<and> inside r s) rs \<Longrightarrow>
    list_all (\<lambda>r. has_area r \<and> (\<exists>x. rect_intersect sk s' c = Some x \<and> inside r x)) rs' \<and> (p \<longrightarrow> q)"
proof (induction rs arbitrary: q rs')
  case (Cons r rs)
  from Cons.prems obtain ok1 r1 ok2 rs2 where
    r: "m r = Inr (ok1, r1)" and rest: "map_clip sk m (Some c) rs = Inr (ok2, rs2)" and q: "q \<longleftrightarrow> ok1 \<and> ok2"
    and rs': "rs' = (case rect_intersect sk r1 c of Some x \<Rightarrow> x # rs2 | None \<Rightarrow> rs2)"
    by (auto elim!: bindrE)
  have e: "inside r1 s' \<and> ok1 = p" using m [unfolded even_mapper_def, rule_format, OF _ _ r s] Cons.prems(2) by auto
  have "has_area x \<and> (\<exists>y. rect_intersect sk s' c = Some y \<and> inside x y)" if "rect_intersect sk r1 c = Some x" for x
    using lawful_intersect [OF law that] lawful_intersect_mono [OF law _ that, of s'] e by blast
  with Cons.IH [OF rest] Cons.prems(2) rs' q e show ?case by (auto split: option.splits)
qed simp

lemma box_covers_restore_map:
  assumes c: "box_covers sk gm a b" and m: "even_mapper m"
    and a': "rect_restore_map sk m (Some clip) a = Inr (p, a')" and b': "rtree_restore_map sk m (Some clip) b = Inr (q, b')"
  shows "box_covers sk gm a' b' \<and> (p \<longrightarrow> q)"
proof -
  have law: "lawful_rects sk gm" and o: "offsets_ok b" using c by (simp_all add: box_covers_def)
  from o b' show ?thesis
  proof (cases rule: tree_restore_map_cases)
    case 1
    with c have "saved_rects a = []" by (auto simp: box_covers_def)
    with 1 a' c show ?thesis by (simp add: rect_restore_map_def)
  next
    case (2 n ns rs)
    then have h: "holds (acc_rect a) (drop n (acc_rects b))" and ne: "saved_rects a \<noteq> []"
      using c by (auto simp: box_covers_def list_all2_Cons2)
    let ?s = "acc_rect_bounds (acc_rect a)"
    let ?a = "\<lparr>acc_rect = hd (saved_rects a), saved_rects = tl (saved_rects a)\<rparr>"
    from a' ne obtain s' where s': "m ?s = Inr (p, s')" and a': "a' = pop_and_accumulate sk s' (Some clip) a"
      by (auto simp: rect_restore_map_def elim!: bindrE)
    have "list_all (\<lambda>r. has_area r \<and> inside r ?s) (drop n (acc_rects b))"
    proof (cases "drop n (acc_rects b)")
      case (Cons r rs)
      with h holds_bounds [of "acc_rect a" r rs] show ?thesis by (auto simp: holds_def list_all_iff)
    qed simp
    from map_clip_box [OF law m s' 2(3) this]
    have rs: "list_all (\<lambda>r. has_area r \<and> (\<exists>x. rect_intersect sk s' clip = Some x \<and> inside r x)) rs" and pq: "p \<longrightarrow> q"
      by auto
    show ?thesis
    proof (cases "rect_intersect sk s' clip")
      case None
      with rs have "rs = []" by (cases rs) auto
      with box_covers_pop [OF c 2(1), where rs = "[]" and s = SkRect_MakeEmpty] None a' 2 pq show ?thesis
        by (simp add: pop_and_accumulate_def rect_accumulate_alt)
    next
      case (Some x)
      with rs have "list_all (\<lambda>r. has_area r \<and> inside r x) rs" by (simp add: list_all_iff)
      from box_covers_pop [OF c 2(1) this] Some a' 2 pq show ?thesis by (simp add: pop_and_accumulate_def)
    qed
  qed
qed

interpretation box_tree: paired_accumulators "RectBoundsAccumulator sk" "RTreeBoundsAccumulator sk" "box_covers sk gm"
  for sk gm
proof unfold_locales
  fix a b m c p q a' b'
  assume "box_covers sk gm a b" "even_mapper m" "acc_restore_map (RectBoundsAccumulator sk) m (Some c) a = Inr (p, a')"
    "acc_restore_map (RTreeBoundsAccumulator sk) m (Some c) b = Inr (q, b')"
  then show "box_covers sk gm a' b' \<and> (p \<longrightarrow> q)"
    using box_covers_restore_map [of sk gm a b m c p a' q b']
    by (simp add: RectBoundsAccumulator_def RTreeBoundsAccumulator_def)
qed (simp_all add: RectBoundsAccumulator_def RTreeBoundsAccumulator_def box_covers_list box_covers_save box_covers_restore)

end
