(* ===== verification/Dl_Bounds_Sound.thy ===== *)
theory Dl_Bounds_Sound
  imports Dl_Accumulator_Laws
begin

text \<open>
  What the bounds of a display list are worth: with a rectangle to cull to, nothing found reaches out of it
  and no layer is ever unbounded; and the rectangles of the R-tree lie within the bounds computed for
  the same calls. Both are proved for any accumulators that keep the contracts.
\<close>

section \<open>Culling\<close>

definition clip_within :: "SkRect \<Rightarrow> clip_helper \<Rightarrow> bool" where
  "clip_within K h \<longleftrightarrow> ch_has_clip h \<and> within K (ch_bounds h) \<and>
     list_all (\<lambda>b. within K b \<and> float_le (fLeft b) (fRight b) \<and> float_le (fTop b) (fBottom b)) (ch_saved h)"

lemma within_empty [simp]: "within K SkRect_MakeEmpty"
  by (simp add: within_def)

lemma clip_within_intersect:
  assumes "lawful_rects sk gm" "clip_within K h"
  shows "clip_within K (ch_intersect sk gm m r aa h)"
  using assms(2) within_intersect [OF assms(1)]
  by (auto simp: clip_within_def ch_intersect_def Let_def within_def split: option.splits)

lemma clip_within_save:
  assumes "lawful_rects sk gm" "clip_within K h"
  shows "clip_within K (ch_save gm h)"
  using assms(2) lawful_isEmpty [OF assms(1)] within_empty [of K, unfolded SkRect_MakeEmpty_def]
  by (auto simp: clip_within_def ch_save_def has_area_def SkRect_MakeEmpty_def float_le_refl intro: float_less_le)

lemma clip_within_restore: "clip_within K h \<Longrightarrow> clip_within K (ch_restore h)"
  by (auto simp: clip_within_def ch_restore_def Let_def split: list.splits)

definition within_cull :: "('a \<Rightarrow> bool) \<Rightarrow> SkRect \<Rightarrow> 'a calculator \<Rightarrow> bool" where
  "within_cull keeps K c \<longleftrightarrow> keeps (c_acc c) \<and> clip_within K (c_clip c) \<and>
     list_all (\<lambda>l. \<not> ld_unbounded l) (layer_infos c)"

lemma within_cull_simps [simp]:
  "within_cull keeps K (c_attr sk gm a c) = within_cull keeps K c"
  "within_cull keeps K (on_mh f c) = within_cull keeps K c"
  by (cases a; simp add: within_cull_def c_setBlender_def c_setStrokeWidth_def c_setStrokeMiter_def)
    (simp add: within_cull_def on_mh_def)

lemma within_cull_clip: "within_cull keeps K c \<Longrightarrow> clip_within K (f (c_clip c)) \<Longrightarrow> within_cull keeps K (on_clip f c)"
  by (simp add: within_cull_def on_clip_def)

lemma within_cull_has_clip: "within_cull keeps K c \<Longrightarrow> has_clip c"
  by (simp add: within_cull_def clip_within_def has_clip_def)

context culled_accumulator begin

lemma cull_accumulate: "within_cull keeps K c \<Longrightarrow> within K r \<Longrightarrow> within_cull keeps K (on_acc (acc_accumulate A r) c)"
  by (simp add: within_cull_def on_acc_def accumulate_keeps)

lemma cull_unbounded: "within_cull keeps K c \<Longrightarrow> within_cull keeps K (AccumulateUnbounded A c)"
  unfolding AccumulateUnbounded_def
  by (auto simp: within_cull_has_clip intro!: cull_accumulate) (simp add: within_cull_def clip_within_def c_clip_bounds_def)

lemma cull_bounds:
  assumes "lawful_rects sk gm" "within_cull keeps K c"
  shows "within_cull keeps K (AccumulateBounds sk gm A r c)"
proof -
  have "within K (c_clip_bounds c)" using assms(2) by (simp add: within_cull_def clip_within_def c_clip_bounds_def)
  with assms within_cull_has_clip [OF assms(2)] within_intersect [OF assms(1)] show ?thesis
    by (auto simp: AccumulateBounds_def within_def intro!: cull_accumulate split: option.splits)
qed

lemma cull_op_bounds:
  assumes "lawful_rects sk gm" "within_cull keeps K c" "AccumulateOpBounds sk gm A f r c = Inr c'"
  shows "within_cull keeps K c'"
  using assms cull_bounds cull_unbounded
  by (auto simp: AccumulateOpBounds_def split: option.splits elim!: bindrE)

lemma cull_run_op_bounds:
  assumes "lawful_rects sk gm"
  shows "within_cull keeps K c \<Longrightarrow> run_ops (\<lambda>c r. AccumulateOpBounds sk gm A f r c) c rs = Inr c' \<Longrightarrow> within_cull keeps K c'"
  by (induction rs arbitrary: c) (auto elim!: bindrE dest: cull_op_bounds [OF assms])

lemma cull_draw:
  assumes "lawful_rects sk gm" "within_cull keeps K c" "c_draw sk gm A d c = Inr c'"
  shows "within_cull keeps K c'"
  using assms
  by (cases d)
    (auto simp: cull_unbounded c_drawLine_def c_drawCircle_def c_drawPath_def c_drawPoints_def c_drawImage_def
      c_drawAtlas_def c_drawPicture_def c_drawDisplayList_def Let_def
      split: if_splits PointMode.splits dest: cull_op_bounds cull_run_op_bounds)

lemma cull_save:
  assumes "lawful_rects sk gm" "within_cull keeps K c"
  shows "within_cull keeps K (c_save gm A c)"
  using assms
  by (simp add: within_cull_def c_save_def on_acc_def on_clip_def on_mh_def save_keeps clip_within_save)

lemma cull_push_layer:
  "within_cull keeps K c \<Longrightarrow>
    within_cull keeps K (on_acc (acc_save A) (c\<lparr>layer_infos := \<lparr>ld_filter = f, ld_unbounded = False\<rparr> # layer_infos c\<rparr>))"
  by (simp add: within_cull_def on_acc_def save_keeps)

lemma cull_saveLayer:
  assumes law: "lawful_rects sk gm" and c: "within_cull keeps K c"
  shows "within_cull keeps K (c_saveLayer sk gm A r o1 f c)"
proof -
  have clip: "within_cull keeps K d \<Longrightarrow> within_cull keeps K (on_clip (ch_clipRect sk gm m r' kIntersectClip aa) d)" for d m r' aa
    by (rule within_cull_clip) (auto simp: ch_clipRect_def within_cull_def intro: clip_within_intersect [OF law])
  have saved: "within_cull keeps K (on_clip (ch_save gm) (on_mh mh_save c))"
    using c by (intro within_cull_clip) (auto simp: within_cull_def on_mh_def intro: clip_within_save [OF law])
  show ?thesis
    unfolding c_saveLayer_def Let_def
    by (auto intro!: cull_unbounded clip cull_push_layer saved split: option.splits)
qed

lemma cull_restore:
  assumes c: "within_cull keeps K c" and r: "c_restore gm A c = Inr c'"
  shows "within_cull keeps K c'"
proof (cases "layer_infos c")
  case Nil
  with c r show ?thesis by (simp add: c_restore_def)
next
  case (Cons layer ls)
  show ?thesis
  proof (cases ls)
    case Nil
    with Cons c r show ?thesis by (simp add: c_restore_def)
  next
    case (Cons outer infos)
    let ?c = "on_clip ch_restore (on_mh (mh_restore gm) c)"
    have d: "within_cull keeps K ?c"
      using c by (intro within_cull_clip) (auto simp: within_cull_def on_mh_def intro: clip_within_restore)
    then have clip: "has_clip ?c" "within K (c_clip_bounds ?c)" "keeps (c_acc ?c)"
      by (auto simp: within_cull_has_clip) (simp_all add: within_cull_def clip_within_def c_clip_bounds_def)
    have infos: "layer_infos c = layer # outer # infos" using \<open>layer_infos c = layer # ls\<close> Cons by simp
    have keep: "within_cull keeps K (?c\<lparr>c_acc := a, layer_infos := outer # infos\<rparr>)" if "keeps a" for a
      using d infos that by (simp add: within_cull_def on_clip_def on_mh_def)
    show ?thesis
    proof (cases "ld_filter layer")
      case None
      with r infos keep [OF restore_keeps [OF clip(3)]] show ?thesis
        by (auto simp: c_restore_def Let_def on_acc_def cull_unbounded split: if_splits)
    next
      case (Some f)
      from r infos Some clip(1) obtain ok a where
        a: "acc_restore_map A (layer_mapper gm f (c_m33 ?c)) (Some (c_clip_bounds ?c)) (c_acc ?c) = Inr (ok, a)"
        and c': "c' = (if (if \<not> ok then True else ld_unbounded layer) then AccumulateUnbounded A (?c\<lparr>c_acc := a, layer_infos := outer # infos\<rparr>)
                 else ?c\<lparr>c_acc := a, layer_infos := outer # infos\<rparr>)"
        by (auto simp: c_restore_def Let_def elim!: bindrE)
      from restore_map_keeps [OF clip(3,2) a] keep c' show ?thesis by (auto intro: cull_unbounded)
    qed
  qed
qed

lemma cull_clips:
  assumes "lawful_rects sk gm" "within_cull keeps K c"
  shows "within_cull keeps K (on_clip (ch_clipRect sk gm m r op1 aa) c)"
    "within_cull keeps K (on_clip (ch_clipRRect sk gm m rr op1 aa) c)"
    "within_cull keeps K (on_clip (ch_clipPath sk gm m p op1 aa) c)"
  using assms
  by (auto simp: within_cull_def on_clip_def ch_clipRect_def ch_clipRRect_def ch_clipPath_def
      intro: clip_within_intersect split: SkClipOp.splits)

lemma cull_step:
  assumes "lawful_rects sk gm" "within_cull keeps K c" "c_step sk gm A c call = Inr c'"
  shows "within_cull keeps K c'"
  using assms by (cases call) (auto simp: cull_save cull_saveLayer cull_clips intro: cull_restore cull_draw)

lemma cull_calculate:
  assumes law: "lawful_rects sk gm" and a: "keeps a" and K: "K = (if rect_isEmpty gm cull then SkRect_MakeEmpty else cull)"
    and c: "calculate sk gm A a (Some cull) calls = Inr c"
  shows "within_cull keeps K c"
proof -
  have "within_cull keeps K (calculator_new gm a (Some cull))"
    using a K lawful_isEmpty [OF law]
    by (auto simp: within_cull_def calculator_new_def clip_within_def clip_helper_new_def within_def intro: inside_refl)
  moreover have "guarded_machine (c_step sk gm A) (within_cull keeps K)"
    by unfold_locales (rule cull_step [OF law])
  ultimately show ?thesis using c unfolding calculate_def by (metis guarded_machine.run_inv)
qed

end

text \<open>
  C6: Whatever a display list holds, and whichever of the two accumulators collects it, once the list has a
  rectangle to cull to no layer is ever marked unbounded, the bounding box (if it has an area) lies inside
  that rectangle, and so does every rectangle handed to the R-tree, each of which has an area.
\<close>

theorem cull_rect_bounds_everything:
  assumes "lawful_rects sk gm"
    and "calculate sk gm (RectBoundsAccumulator sk) rect_acc_new (Some cull) calls = Inr c"
    and "calculate sk gm (RTreeBoundsAccumulator sk) rtree_acc_new (Some cull) calls = Inr d"
  shows "list_all (\<lambda>l. \<not> ld_unbounded l) (layer_infos c) \<and> list_all (\<lambda>l. \<not> ld_unbounded l) (layer_infos d) \<and>
    within cull (acc_rect_bounds (acc_rect (c_acc c))) \<and>
    list_all (\<lambda>r. has_area r \<and> inside r cull) (acc_rects (c_acc d))"
proof -
  let ?K = "if rect_isEmpty gm cull then SkRect_MakeEmpty else cull"
  have K: "not_nan ?K" using lawful_isEmpty [OF assms(1)] by (auto dest: has_area_not_nan)
  have to: "inside r cull" if "inside r ?K" "has_area r" for r
    using that by (auto split: if_splits dest: inside_area)
  have "rect_keeps sk gm ?K rect_acc_new"
    using assms(1) K by (simp add: rect_keeps_def rect_acc_new_def inside_box_new)
  from rect_cull.cull_calculate [OF assms(1) this refl assms(2)]
  have c: "within_cull (rect_keeps sk gm ?K) ?K c" .
  have "tree_keeps sk gm ?K rtree_acc_new"
    using assms(1) by (simp add: tree_keeps_def offsets_ok_def rtree_acc_new_def)
  from tree_cull.cull_calculate [OF assms(1) this refl assms(3)]
  have d: "within_cull (tree_keeps sk gm ?K) ?K d" .
  have "within ?K (acc_rect_bounds (acc_rect (c_acc c)))"
    using c by (intro within_bounds) (simp add: within_cull_def rect_keeps_def)
  then have "within cull (acc_rect_bounds (acc_rect (c_acc c)))" using to by (simp add: within_def)
  moreover have "list_all (\<lambda>r. has_area r \<and> inside r cull) (acc_rects (c_acc d))"
    using d to by (auto simp: within_cull_def tree_keeps_def list_all_iff)
  ultimately show ?thesis using c d by (simp add: within_cull_def)
qed

section \<open>The R-tree and the bounds\<close>

text \<open>
  Filters of layers whose output grows with the input, wherever the layer is. A filter need not: an erosion after a
  rotation may give more of a part of its input than of the whole.
\<close>

definition even_filter :: "geo \<Rightarrow> DlImageFilter option \<Rightarrow> bool" where
  "even_filter gm flt \<longleftrightarrow> (case flt of None \<Rightarrow> True | Some f \<Rightarrow> \<forall>m. even_mapper (layer_mapper gm f m))"

text \<open>No other filter is set, and no other list is drawn.\<close>

fun evenly_drawn :: "geo \<Rightarrow> dl_call \<Rightarrow> bool" where
  "evenly_drawn gm (Attr (setImageFilter flt)) = even_filter gm flt"
| "evenly_drawn gm (Draw (drawDisplayList d)) = False"
| "evenly_drawn gm _ = True"

definition even_view :: "geo \<Rightarrow> 'a calculator \<Rightarrow> bool" where
  "even_view gm c \<longleftrightarrow> even_filter gm (c_image_filter c) \<and> list_all (\<lambda>l. even_filter gm (ld_filter l)) (layer_infos c)"

lemma even_view_updates [simp]:
  "even_view gm (on_acc f c) = even_view gm c"
  "even_view gm (on_mh h c) = even_view gm c"
  "even_view gm (on_clip k c) = even_view gm c"
  "even_view gm (c\<lparr>c_acc := a\<rparr>) = even_view gm c"
  by (simp_all add: even_view_def on_acc_def on_mh_def on_clip_def)

lemma even_view_push:
  "even_view gm c \<Longrightarrow> even_filter gm flt \<Longrightarrow> ls = layer_infos c \<Longrightarrow>
    even_view gm (c\<lparr>layer_infos := \<lparr>ld_filter = flt, ld_unbounded = u\<rparr> # ls\<rparr>)"
  by (simp add: even_view_def)

lemma even_view_filter: "even_view gm c \<Longrightarrow> even_filter gm (c_image_filter c)"
  by (simp add: even_view_def)

lemma even_filter_none [simp]: "even_filter gm None"
  by (simp add: even_filter_def)

lemma layer_updates [simp]:
  "layer_infos (on_clip k c) = layer_infos c" "layer_infos (on_mh h c) = layer_infos c"
  "c_image_filter (on_clip k c) = c_image_filter c" "c_image_filter (on_mh h c) = c_image_filter c"
  "c_image_filter (AccumulateUnbounded A c) = c_image_filter c"
  by (auto simp: on_clip_def on_mh_def on_acc_def AccumulateUnbounded_def set_unbounded_def split: list.splits)

lemma even_view_save: "even_view gm c \<Longrightarrow> even_view gm (c_save gm' A c)"
  using even_view_push [of gm "on_clip (ch_save gm') (on_mh mh_save c)" None "layer_infos c"] by (simp add: c_save_def)

lemma even_view_unbounded [simp]: "even_view gm (AccumulateUnbounded A c) = even_view gm c"
  by (simp add: AccumulateUnbounded_def) (auto simp: even_view_def set_unbounded_def split: list.splits)

lemma even_view_bounds [simp]: "even_view gm (AccumulateBounds sk gm' A r c) = even_view gm c"
  by (auto simp: AccumulateBounds_def split: option.splits)

lemma even_view_op_bounds: "AccumulateOpBounds sk gm' A f r c = Inr c' \<Longrightarrow> even_view gm c \<Longrightarrow> even_view gm c'"
  by (auto simp: AccumulateOpBounds_def elim!: bindrE split: option.splits)

lemma even_view_draw:
  assumes "c_draw sk gm A d c = Inr c'" and "even_view gm c" and "evenly_drawn gm (Draw d)"
  shows "even_view gm c'"
  using assms
  by (cases d)
    (auto simp: c_drawLine_def c_drawCircle_def c_drawPath_def c_drawPoints_def c_drawImage_def c_drawAtlas_def
      c_drawPicture_def Let_def split: if_splits PointMode.splits dest: even_view_op_bounds)

lemma even_view_restore:
  assumes "c_restore gm A c = Inr c'" and "even_view gm c"
  shows "even_view gm c'"
proof -
  have pop: "even_view gm (d\<lparr>layer_infos := outer # infos\<rparr>)"
    if "even_view gm d" "layer_infos d = l # outer # infos" for d :: "'a calculator" and l outer infos
    using that by (simp add: even_view_def)
  show ?thesis
    using assms
    by (auto simp: c_restore_def Let_def on_acc_def on_mh_def on_clip_def even_view_def elim!: bindrE
        split: list.splits option.splits if_splits)
      (simp_all add: AccumulateUnbounded_def on_acc_def set_unbounded_def)
qed

lemma even_view_step:
  assumes "c_step sk gm A c call = Inr c'" and "even_view gm c" and "evenly_drawn gm call"
  shows "even_view gm c'"
proof (cases call)
  case (Attr a)
  with assms show ?thesis
    by (cases a) (auto simp: even_view_def c_setBlender_def c_setStrokeWidth_def c_setStrokeMiter_def)
next
  case Save
  with assms even_view_save show ?thesis by auto
next
  case (SaveLayer r o1 f)
  with assms show ?thesis
    by (auto simp: c_saveLayer_def Let_def intro!: even_view_push dest: even_view_filter split: option.splits)
next
  case Restore
  with assms even_view_restore show ?thesis by auto
next
  case (Draw d)
  with assms even_view_draw show ?thesis by auto
qed (use assms in auto)

text \<open>Two calculators that differ only in what they have accumulated.\<close>

definition same_view :: "'a calculator \<Rightarrow> 'b calculator \<Rightarrow> bool" where
  "same_view c d \<longleftrightarrow> c_matrix c = c_matrix d \<and> c_clip c = c_clip d \<and> layer_infos c = layer_infos d \<and>
     c_blend_mode c = c_blend_mode d \<and> c_color_filter c = c_color_filter d \<and>
     half_stroke_width c = half_stroke_width d \<and> miter_limit c = miter_limit d \<and> c_style c = c_style d \<and>
     join_is_miter c = join_is_miter d \<and> cap_is_square c = cap_is_square d \<and> c_image_filter c = c_image_filter d \<and>
     c_path_effect c = c_path_effect d \<and> c_mask_filter c = c_mask_filter d"

definition paired :: "('a \<Rightarrow> 'b \<Rightarrow> bool) \<Rightarrow> SkRect \<Rightarrow> 'a calculator \<Rightarrow> 'b calculator \<Rightarrow> bool" where
  "paired covers K c d \<longleftrightarrow> same_view c d \<and> clip_within K (c_clip c) \<and> covers (c_acc c) (c_acc d)"

lemma same_view_adjust: "same_view c d \<Longrightarrow> AdjustBoundsForPaint gm c f r = AdjustBoundsForPaint gm d f r"
proof -
  assume v: "same_view c d"
  then have "stroke_pad gm c = stroke_pad gm d" by (intro ext) (simp add: same_view_def stroke_pad_def)
  moreover have "c_style c = c_style d" "c_path_effect c = c_path_effect d" using v by (simp_all add: same_view_def)
  ultimately have "adjust_geometry gm c = adjust_geometry gm d" by (intro ext) (simp add: adjust_geometry_def cong del: option.case_cong_weak if_weak_cong let_weak_cong)
  moreover have "adjust_mask gm c = adjust_mask gm d" using v by (intro ext) (simp add: same_view_def adjust_mask_def cong del: option.case_cong_weak if_weak_cong let_weak_cong)
  moreover have "c_image_filter c = c_image_filter d" using v by (simp add: same_view_def)
  ultimately show ?thesis by (simp add: AdjustBoundsForPaint_def cong del: option.case_cong_weak if_weak_cong let_weak_cong)
qed

lemma same_view_clip:
  "same_view c d \<Longrightarrow> has_clip c = has_clip d" "same_view c d \<Longrightarrow> c_clip_bounds c = c_clip_bounds d"
  "same_view c d \<Longrightarrow> c_m33 c = c_m33 d"
  by (simp_all add: same_view_def has_clip_def c_clip_bounds_def c_m33_def)

lemma same_view_updates:
  "same_view c d \<Longrightarrow> same_view (on_acc f c) (on_acc g d)"
  "same_view c d \<Longrightarrow> same_view (on_mh h c) (on_mh h d)"
  "same_view c d \<Longrightarrow> same_view (on_clip k c) (on_clip k d)"
  "same_view c d \<Longrightarrow> same_view (c_attr sk gm a c) (c_attr sk gm a d)"
  "same_view c d \<Longrightarrow> same_view (c\<lparr>layer_infos := ls\<rparr>) (d\<lparr>layer_infos := ls\<rparr>)"
  by (cases a; simp add: same_view_def on_acc_def on_mh_def on_clip_def c_setBlender_def c_setStrokeWidth_def c_setStrokeMiter_def)+

lemma paired_has_clip: "paired covers K c d \<Longrightarrow> has_clip c \<and> has_clip d"
  by (auto simp: paired_def clip_within_def has_clip_def same_view_def)

lemma list_op_bounds: "AccumulateOpBounds sk gm B kDrawDisplayListFlags r d = Inr (AccumulateBounds sk gm B r d)"
proof -
  have k: "kDrawDisplayListFlags = Inr kIgnoresPaint" and i: "ignores_paint kIgnoresPaint" by code_simp+
  show ?thesis unfolding AccumulateOpBounds_def AdjustBoundsForPaint_def k by (simp add: i)
qed

context paired_accumulators begin

lemma pair_accumulate:
  "paired covers K c d \<Longrightarrow> list_all (\<lambda>r. has_area r \<longrightarrow> inside r s) rs \<Longrightarrow>
    paired covers K (on_acc (acc_accumulate A s) c) (on_acc (fold (acc_accumulate B) rs) d)"
  by (simp add: paired_def same_view_updates accumulate_list) (simp add: on_acc_def accumulate_list)

lemma pair_accumulate_same:
  "paired covers K c d \<Longrightarrow> paired covers K (on_acc (acc_accumulate A s) c) (on_acc (acc_accumulate B s) d)"
  using pair_accumulate [of K c d s "[s]"] by (simp add: inside_refl)

lemma pair_unbounded: "paired covers K c d \<Longrightarrow> paired covers K (AccumulateUnbounded A c) (AccumulateUnbounded B d)"
  by (simp add: AccumulateUnbounded_def paired_has_clip)
    (metis paired_def pair_accumulate_same same_view_clip(2))

lemma pair_unbounded_first: "paired covers K c d \<Longrightarrow> paired covers K (AccumulateUnbounded A c) d"
  using pair_accumulate [of K c d "c_clip_bounds c" "[]"]
  by (simp add: AccumulateUnbounded_def paired_has_clip) (simp add: on_acc_def)

lemma pair_bounds:
  "paired covers K c d \<Longrightarrow> paired covers K (AccumulateBounds sk gm A r c) (AccumulateBounds sk gm B r d)"
  using same_view_clip [of c d]
  by (auto simp: AccumulateBounds_def paired_has_clip paired_def split: option.splits
      intro!: pair_accumulate_same [unfolded paired_def])

lemma pair_op_bounds:
  assumes "paired covers K c d" "AccumulateOpBounds sk gm A f r c = Inr c'" "AccumulateOpBounds sk gm B f r d = Inr d'"
  shows "paired covers K c' d'"
  using assms same_view_adjust [of c d gm _ r]
  by (auto simp: AccumulateOpBounds_def paired_def [of covers K c d] elim!: bindrE split: option.splits
      intro!: pair_bounds [OF assms(1)] pair_unbounded [OF assms(1)])

lemma pair_draw:
  assumes "evenly_drawn gm (Draw op1)" and p: "paired covers K c d"
    and "c_draw sk gm A op1 c = Inr c'" "c_draw sk gm B op1 d = Inr d'"
  shows "paired covers K c' d'"
proof -
  have "c_m33 c = c_m33 d" using p by (auto simp: paired_def same_view_clip)
  with assms show ?thesis
    by (cases op1)
      (auto simp: c_drawLine_def c_drawCircle_def c_drawPath_def c_drawPoints_def c_drawImage_def
        c_drawAtlas_def c_drawPicture_def Let_def
        split: if_splits PointMode.splits dest: pair_op_bounds [OF p] intro: pair_unbounded [OF p])
qed

lemma pair_push:
  assumes "paired covers K c d"
  shows "paired covers K (on_acc (acc_save A) (c\<lparr>layer_infos := l # layer_infos c\<rparr>))
    (on_acc (acc_save B) (d\<lparr>layer_infos := l # layer_infos d\<rparr>))"
  using assms by (auto simp: paired_def same_view_def on_acc_def save_both)

lemma pair_clip:
  assumes "paired covers K c d" "clip_within K (f (c_clip c))"
  shows "paired covers K (on_clip f c) (on_clip f d)"
  using assms by (simp add: paired_def same_view_updates) (simp add: on_clip_def)

lemma pair_matrix: "paired covers K c d \<Longrightarrow> paired covers K (on_mh f c) (on_mh f d)"
  by (simp add: paired_def same_view_updates) (simp add: on_mh_def)

lemma pair_saved:
  assumes "lawful_rects sk gm" "paired covers K c d"
  shows "paired covers K (on_clip (ch_save gm) (on_mh mh_save c)) (on_clip (ch_save gm) (on_mh mh_save d))"
  using assms by (intro pair_clip pair_matrix) (auto simp: paired_def on_mh_def intro: clip_within_save)

lemma pair_save:
  assumes "lawful_rects sk gm" "paired covers K c d"
  shows "paired covers K (c_save gm A c) (c_save gm B d)"
  using pair_push [OF pair_saved [OF assms]] by (simp add: c_save_def on_clip_def on_mh_def)

lemma pair_clips:
  assumes "lawful_rects sk gm" "paired covers K c d"
  shows "paired covers K (on_clip (ch_clipRect sk gm m r op1 aa) c) (on_clip (ch_clipRect sk gm m r op1 aa) d)"
    "paired covers K (on_clip (ch_clipRRect sk gm m rr op1 aa) c) (on_clip (ch_clipRRect sk gm m rr op1 aa) d)"
    "paired covers K (on_clip (ch_clipPath sk gm m p op1 aa) c) (on_clip (ch_clipPath sk gm m p op1 aa) d)"
proof -
  have h: "clip_within K (c_clip c)" using assms(2) by (simp add: paired_def)
  have clip: "paired covers K (on_clip f c) (on_clip f d)"
    if "\<exists>r'. f (c_clip c) = ch_intersect sk gm m r' aa (c_clip c) \<or> f (c_clip c) = c_clip c" for f
    using that h clip_within_intersect [OF assms(1) h] by (intro pair_clip [OF assms(2)]) auto
  show "paired covers K (on_clip (ch_clipRect sk gm m r op1 aa) c) (on_clip (ch_clipRect sk gm m r op1 aa) d)"
    "paired covers K (on_clip (ch_clipRRect sk gm m rr op1 aa) c) (on_clip (ch_clipRRect sk gm m rr op1 aa) d)"
    "paired covers K (on_clip (ch_clipPath sk gm m p op1 aa) c) (on_clip (ch_clipPath sk gm m p op1 aa) d)"
    by (rule clip, cases op1, auto simp: ch_clipRect_def ch_clipRRect_def ch_clipPath_def)+
qed

lemma pair_saveLayer:
  assumes law: "lawful_rects sk gm" and p: "paired covers K c d"
  shows "paired covers K (c_saveLayer sk gm A r o1 f c) (c_saveLayer sk gm B r o1 f d)"
proof -
  have s: "paired covers K (on_clip (ch_save gm) (on_mh mh_save c)) (on_clip (ch_save gm) (on_mh mh_save d))"
    by (rule pair_saved [OF law p])
  have nops: "paint_nops_on_transparency gm c = paint_nops_on_transparency gm d" if "paired covers K c d" for c d
    using that by (auto simp: paired_def same_view_def paint_nops_on_transparency_def)
  have flt: "c_image_filter c = c_image_filter d" "c_m33 c = c_m33 d" if "paired covers K c d" for c d
    using that by (auto simp: paired_def same_view_def c_m33_def)
  have flood: "paired covers K (if q then AccumulateUnbounded A c else c) (if q then AccumulateUnbounded B d else d)"
    if "paired covers K c d" for c d q
    using that by (simp add: pair_unbounded)
  have push: "paired covers K (on_acc (acc_save A) (c\<lparr>layer_infos := \<lparr>ld_filter = c_image_filter c, ld_unbounded = False\<rparr> # layer_infos c\<rparr>))
      (on_acc (acc_save B) (d\<lparr>layer_infos := \<lparr>ld_filter = c_image_filter d, ld_unbounded = False\<rparr> # layer_infos d\<rparr>))"
    if "paired covers K c d" for c d
    using pair_push [OF that] flt(1) [OF that] by simp
  have bounds: "paired covers K
      (case r of None \<Rightarrow> c | Some r \<Rightarrow> on_clip (ch_clipRect sk gm (c_m33 c) r kIntersectClip False) c)
      (case r of None \<Rightarrow> d | Some r \<Rightarrow> on_clip (ch_clipRect sk gm (c_m33 d) r kIntersectClip False) d)"
    if "paired covers K c d" for c d
    using that flt(2) [OF that] by (simp add: pair_clips(1) [OF law] split: option.splits)
  show ?thesis
    unfolding c_saveLayer_def Let_def
    by (cases "renders_with_attributes o1")
      (simp_all only: if_True if_False nops [OF s] simp_thms, (intro flood bounds push pair_push s)+)
qed

lemma pair_restore:
  assumes g: "even_view gm c" and p: "paired covers K c d"
    and c': "c_restore gm A c = Inr c'" and d': "c_restore gm B d = Inr d'"
  shows "paired covers K c' d'"
proof (cases "\<exists>layer outer infos. layer_infos c = layer # outer # infos")
  case False
  have "layer_infos d = layer_infos c" using p by (simp add: paired_def same_view_def)
  with False p c' d' show ?thesis by (auto simp: c_restore_def split: list.splits)
next
  case True
  then obtain layer outer infos where infos: "layer_infos c = layer # outer # infos" "layer_infos d = layer # outer # infos"
    using p by (auto simp: paired_def same_view_def)
  let ?r = "\<lambda>c. on_clip ch_restore (on_mh (mh_restore gm) c)"
  let ?c = "?r c" and ?d = "on_clip ch_restore (on_mh (mh_restore gm) d)"
  have q: "paired covers K ?c ?d"
    using p by (intro pair_clip pair_matrix) (auto simp: paired_def on_mh_def intro: clip_within_restore)
  have keep: "paired covers K (?c\<lparr>c_acc := a, layer_infos := outer # infos\<rparr>) (?d\<lparr>c_acc := b, layer_infos := outer # infos\<rparr>)"
    if "covers a b" for a b
    using q that by (auto simp: paired_def same_view_def)
  have v: "same_view ?c ?d" and cov: "covers (c_acc ?c) (c_acc ?d)" and hc: "has_clip ?c" "has_clip ?d"
    using q paired_has_clip [OF q] by (auto simp: paired_def)
  show ?thesis
  proof (cases "ld_filter layer")
    case None
    from keep [OF restore_both [OF cov]] c' d' infos None show ?thesis
      by (auto simp: c_restore_def Let_def on_acc_def pair_unbounded split: if_splits)
  next
    case (Some f)
    let ?m = "layer_mapper gm f (c_m33 ?d)" and ?clip = "c_clip_bounds ?d"
    from c' infos Some hc same_view_clip [OF v] obtain ok a where
      a: "acc_restore_map A ?m (Some ?clip) (c_acc ?c) = Inr (ok, a)"
      and c': "c' = (if \<not> ok \<or> ld_unbounded layer then AccumulateUnbounded A (?c\<lparr>c_acc := a, layer_infos := outer # infos\<rparr>)
               else ?c\<lparr>c_acc := a, layer_infos := outer # infos\<rparr>)"
      by (auto simp: c_restore_def Let_def elim!: bindrE)
    from d' infos Some hc obtain ok' b where
      b: "acc_restore_map B ?m (Some ?clip) (c_acc ?d) = Inr (ok', b)"
      and d': "d' = (if \<not> ok' \<or> ld_unbounded layer then AccumulateUnbounded B (?d\<lparr>c_acc := b, layer_infos := outer # infos\<rparr>)
               else ?d\<lparr>c_acc := b, layer_infos := outer # infos\<rparr>)"
      by (auto simp: c_restore_def Let_def elim!: bindrE)
    have "even_mapper ?m" using g infos Some by (simp add: even_view_def even_filter_def)
    from restore_map_both [OF cov this a b] have "covers a b \<and> (ok \<longrightarrow> ok')" .
    with keep [of a b] c' d' show ?thesis by (auto simp: pair_unbounded pair_unbounded_first)
  qed
qed

lemma pair_step:
  assumes "lawful_rects sk gm" "even_view gm c" "evenly_drawn gm call" and p: "paired covers K c d"
    and "c_step sk gm A c call = Inr c'" "c_step sk gm B d call = Inr d'"
  shows "paired covers K c' d'"
proof -
  have "c_m33 c = c_m33 d" using p by (auto simp: paired_def same_view_clip)
  moreover have "paired covers K (c_attr sk gm a c) (c_attr sk gm a d)" for a
    using p by (cases a; simp add: paired_def same_view_def c_setBlender_def c_setStrokeWidth_def c_setStrokeMiter_def)
  ultimately show ?thesis
    using assms
    by (cases call)
      (auto simp: pair_save pair_saveLayer pair_matrix pair_clips intro: pair_restore pair_draw)
qed

lemma pair_calculate:
  assumes law: "lawful_rects sk gm" and g: "list_all (evenly_drawn gm) calls" and ab: "covers a b"
    and c: "calculate sk gm A a (Some cull) calls = Inr c" and d: "calculate sk gm B b (Some cull) calls = Inr d"
  shows "covers (c_acc c) (c_acc d)"
proof -
  let ?K = "if rect_isEmpty gm cull then SkRect_MakeEmpty else cull"
  have run: "paired covers ?K c d \<Longrightarrow> even_view gm c \<Longrightarrow> list_all (evenly_drawn gm) calls \<Longrightarrow>
      run_ops (c_step sk gm A) c calls = Inr c' \<Longrightarrow> run_ops (c_step sk gm B) d calls = Inr d' \<Longrightarrow> paired covers ?K c' d'"
    for c d c' d' calls
  proof (induction calls arbitrary: c d)
    case (Cons call calls)
    from Cons.prems(4,5) obtain c1 d1 where s: "c_step sk gm A c call = Inr c1" "c_step sk gm B d call = Inr d1"
      "run_ops (c_step sk gm A) c1 calls = Inr c'" "run_ops (c_step sk gm B) d1 calls = Inr d'"
      by (auto elim!: bindrE)
    from Cons.prems(3) have e: "evenly_drawn gm call" "list_all (evenly_drawn gm) calls" by simp_all
    show ?case
      using Cons.IH [OF pair_step [OF law Cons.prems(2) e(1) Cons.prems(1) s(1,2)] even_view_step [OF s(1) Cons.prems(2) e(1)] e(2) s(3,4)] .
  qed simp
  have "paired covers ?K (calculator_new gm a (Some cull)) (calculator_new gm b (Some cull))"
    using ab lawful_isEmpty [OF law]
    by (auto simp: paired_def same_view_def calculator_new_def clip_within_def clip_helper_new_def within_def
        intro: inside_refl)
  moreover have "even_view gm (calculator_new gm a (Some cull))"
    by (simp add: even_view_def even_filter_def calculator_new_def)
  ultimately show ?thesis using run g c d unfolding calculate_def paired_def by blast
qed

end

text \<open>
  C7: The rectangles with which a display list is searched lie within the bounds reported for it: for the
  same list, each rectangle of \<open>ComputeRTree\<close> is inside the rectangle of \<open>ComputeBounds\<close>, although the one
  keeps every operation apart and runs the filter of a layer over each rectangle of the layer in place, and the
  other only ever handles bounding boxes. The list may draw no other list, and the image filters that its records set
  must answer for a rectangle within another with a rectangle within the other's (or for neither); with other filters it
  is not so.
\<close>

theorem rtree_rects_lie_in_the_bounds:
  assumes "lawful_rects sk gm" and "list_all (evenly_drawn gm) (Dispatch dl)"
    and "ComputeBounds sk gm dl = Inr bounds" and "ComputeRTree sk gm dl = Inr rects"
  shows "list_all (\<lambda>r. has_area r \<and> inside r bounds) rects"
proof -
  from assms(3) obtain c where
    c: "calculate sk gm (RectBoundsAccumulator sk) rect_acc_new (Some (dl_bounds_cull dl)) (Dispatch dl) = Inr c"
    and bounds: "saved_rects (c_acc c) = []" "bounds = acc_rect_bounds (acc_rect (c_acc c))"
    by (auto simp: ComputeBounds_def rect_bounds_def res_simps elim!: bindrE)
  from assms(4) obtain d where
    d: "calculate sk gm (RTreeBoundsAccumulator sk) rtree_acc_new (Some (dl_bounds_cull dl)) (Dispatch dl) = Inr d"
    and rects: "rects = acc_rects (c_acc d)" "saved_offsets (c_acc d) = []"
    by (auto simp: ComputeRTree_def res_simps elim!: bindrE)
  have "box_covers sk gm rect_acc_new rtree_acc_new"
    using assms(1) inside_not_nan(1) [OF inside_box_new [OF not_nan_empty]]
    by (simp add: box_covers_def offsets_ok_def rect_acc_new_def rtree_acc_new_def holds_def)
  from box_tree.pair_calculate [OF assms(1,2) this c d]
  have h: "holds (acc_rect (c_acc c)) rects"
    using bounds rects by (simp add: box_covers_def)
  show ?thesis
  proof (cases rects)
    case (Cons r rs)
    with h holds_bounds [of "acc_rect (c_acc c)" r rs] bounds(2) show ?thesis by (simp add: holds_def)
  qed simp
qed

end
