(* ===== verification/Dl_Balance.thy ===== *)
theory Dl_Balance
  imports Dl_Safety
begin

text \<open>
  Saves and restores balance in every list that the builder records: the records nest as deep as there are layers on
  its stack whose save is recorded, and \<open>Build\<close> restores them all.
\<close>

fun depth_after :: "nat \<Rightarrow> dl_call \<Rightarrow> nat" where
  "depth_after n Save = Suc n"
| "depth_after n (SaveLayer r o1 f) = Suc n"
| "depth_after n Restore = n - 1"
| "depth_after n _ = n"

definition depth_of :: "(dl_op \<times> nat) list \<Rightarrow> nat" where
  "depth_of st = foldl depth_after 0 (map (\<lambda>x. dispatch (fst x)) st)"

definition opened :: "layer list \<Rightarrow> nat" where
  "opened ls = length (filter (\<lambda>l. \<not> has_deferred_save_op l) ls)"

text \<open>The layer of the surface is at the bottom of the stack, and it has no save.\<close>

definition balanced :: "builder \<Rightarrow> bool" where
  "balanced b \<longleftrightarrow> layer_stack b \<noteq> [] \<and> \<not> has_deferred_save_op (last (layer_stack b)) \<and>
     Suc (depth_of (storage b)) = opened (layer_stack b)"

lemma depth_of_snoc: "depth_of (st @ [(x, n)]) = depth_after (depth_of st) (dispatch x)"
  by (simp add: depth_of_def)

lemma opened_simps [simp]: "opened [] = 0" "opened (l # ls) = (if has_deferred_save_op l then opened ls else Suc (opened ls))"
  by (simp_all add: opened_def)

lemma opened_pos: "ls \<noteq> [] \<Longrightarrow> \<not> has_deferred_save_op (last ls) \<Longrightarrow> 0 < opened ls"
  by (induction ls) (auto split: if_splits)

lemma depth_flat: "set_distribute x = None \<Longrightarrow> x \<noteq> SaveOp \<Longrightarrow> x \<noteq> RestoreOp \<Longrightarrow> depth_after n (dispatch x) = n"
  by (cases x) auto

lemma depth_after_distribute: "set_distribute x = Some y \<Longrightarrow> depth_after n (dispatch y) = depth_after n (dispatch x)"
  by (cases x rule: set_distribute.cases) auto

lemma depth_patch:
  "patch_at off st = Inr st' \<Longrightarrow> foldl depth_after n (map (\<lambda>x. dispatch (fst x)) st') = foldl depth_after n (map (\<lambda>x. dispatch (fst x)) st)"
proof (induction off st arbitrary: st' n rule: patch_at.induct)
  case (2 off x m rest)
  show ?case
  proof (cases "off = 0")
    case True
    with "2.prems" show ?thesis by (auto simp: depth_after_distribute split: option.splits)
  next
    case False
    with "2.prems" obtain r where r: "\<not> off < m" "patch_at (off - m) rest = Inr r" "st' = (x, m) # r"
      by (auto simp: bindr_eq_Inr split: if_splits)
    from "2.IH" [OF False r(1,2)] r(3) show ?thesis by simp
  qed
qed simp

lemma push_parts:
  assumes "push sk x inc b = Inr b'"
  shows "storage b' = storage b @ [(x, op_size sk x)]" "layer_stack b' = layer_stack b"
  by (subst push_Inr(1) [OF assms], simp)+

lemma balanced_push:
  assumes "push sk x inc b = Inr b'" and "balanced b" and "\<And>n. depth_after n (dispatch x) = n"
  shows "balanced b'"
  using assms(2,3) by (simp add: balanced_def push_parts [OF assms(1)] depth_of_snoc)

definition keeps_save :: "(layer \<Rightarrow> layer) \<Rightarrow> bool" where
  "keeps_save g \<longleftrightarrow> (\<forall>l. has_deferred_save_op (g l) = has_deferred_save_op l)"

lemma balanced_on_layer: "keeps_save g \<Longrightarrow> balanced (on_layer g b) = balanced b"
  by (cases "layer_stack b") (auto simp: balanced_def on_layer_def keeps_save_def)

lemma keeps_save_marks [simp]: "keeps_save mark_incompatible" "keeps_save add_compatible_op"
  by (simp_all add: keeps_save_def mark_incompatible_def add_compatible_op_def)

lemma balanced_frames [simp]:
  "balanced (UpdateLayerOpacityCompatibility v b) = balanced b"
  "balanced (CheckLayerOpacityCompatibility w b) = balanced b"
  "balanced (UpdateCurrentOpacityCompatibility b) = balanced b"
  "balanced (with_attrs a b) = balanced b"
  "balanced (on_paint h b) = balanced b"
  by (simp_all add: CheckLayerOpacityCompatibility_def UpdateLayerOpacityCompatibility_def balanced_on_layer)
    (simp_all add: balanced_def UpdateCurrentOpacityCompatibility_def with_attrs_def on_paint_def)

section \<open>The calls\<close>

lemma balanced_attr_push: "push sk (AttrOp a) inc b = Inr b' \<Longrightarrow> balanced b \<Longrightarrow> balanced b'"
  by (rule balanced_push) auto

lemma balanced_attr:
  assumes "attr_step sk a b = Inr b'" and "balanced b"
  shows "balanced b'"
proof (cases "color_color_source a")
  case False
  with assms show ?thesis
    by (auto simp: attr_step_eq push_attrs_def elim!: bindrE split: if_splits dest!: balanced_attr_push)
next
  case True
  then obtain c where "a = setColorSource (Some (ColorColorSource c))"
    by (cases a rule: color_color_source.cases) auto
  with assms(1) have "b' = b \<or> (\<exists>f g. b' = on_paint f (on_paint g b)) \<or>
      (\<exists>f g h x. push sk (AttrOp x) 0 (on_paint f (on_paint g (on_paint h b))) = Inr b')"
    by (auto simp: do_setColorSource_def if_different_def onSetColorSource_def do_setColor_def onSetColor_def push_attr_def
        Let_def elim!: bindrE split: if_splits) (drule sym [of _ b'], blast)
  then show ?thesis
    using assms(2) balanced_attr_push [of sk _ 0 _ b'] by (elim disjE exE) simp_all
qed

lemma balanced_deferred:
  assumes "checkForDeferredSave sk b = Inr b'" and "balanced b"
  shows "balanced b'"
proof (cases "has_deferred_save_op (current_layer b)")
  case True
  from assms(2) obtain l ls where st: "layer_stack b = l # ls" by (cases "layer_stack b") (auto simp: balanced_def)
  with True have "has_deferred_save_op l" by (simp add: current_layer_def)
  with assms(2) st have ls: "ls \<noteq> []" by (auto simp: balanced_def)
  from True assms(1) obtain b1 where p: "push sk SaveOp 1 b = Inr b1" and
    b': "b' = on_layer (\<lambda>l. l\<lparr>has_deferred_save_op := False\<rparr>) b1"
    by (auto simp: checkForDeferredSave_def elim!: bindrE)
  show ?thesis
    using assms(2) st ls \<open>has_deferred_save_op l\<close>
    by (simp add: b' balanced_def on_layer_def push_parts [OF p] depth_of_snoc)
next
  case False
  with assms show ?thesis by (simp add: checkForDeferredSave_def)
qed

lemma balanced_flushing:
  assumes "builder_step sk b c = Inr b'" and "balanced b" and "flushing c"
  shows "balanced b'"
  using flush_calls [OF assms(3), of sk]
proof (unfold flush_call_def, elim disjE exE conjE)
  fix x inc g
  assume r: "recorded sk x inc g" and e: "\<forall>b. builder_step sk b c = push_flushed sk x inc g b"
  then obtain b1 b2 where "checkForDeferredSave sk b = Inr b1" "push sk x inc b1 = Inr b2" "b' = on_layer g b2"
    using assms(1) by (auto simp: push_flushed_def elim!: bindrE)
  moreover have "keeps_save g" "\<And>n. depth_after n (dispatch x) = n"
    using r by (auto simp: recorded_def keeps_flags_def keeps_save_def depth_flat)
  ultimately show ?thesis
    using balanced_push [of sk x inc b1 b2] balanced_deferred [of sk b b1] assms(2) by (simp add: balanced_on_layer)
qed (use assms in simp)

lemma balanced_leave:
  assumes "leave_layer l b = Inr b'" shows "balanced b' = balanced b"
  using assms
  by (auto simp: leave_layer_def balanced_on_layer elim!: bindrE split: if_splits)
    (auto simp: balanced_def depth_of_def depth_patch)

lemma balanced_restore:
  assumes "restore sk b = Inr b'" and "balanced b"
  shows "balanced b'"
proof (cases "length (layer_stack b) > 1")
  case True
  then obtain l ls where st: "layer_stack b = l # ls" "ls \<noteq> []" by (cases "layer_stack b") auto
  with assms(2) have pos: "0 < opened ls" by (intro opened_pos) (auto simp: balanced_def)
  from True assms(1) obtain b1 where
    b1: "(if \<not> has_deferred_save_op l then push sk RestoreOp 1 b else Inr b) = Inr b1"
    and b': "leave_layer (hd (layer_stack b1)) (b1\<lparr>layer_stack := tl (layer_stack b1)\<rparr>) = Inr b'"
    by (auto simp: restore_def current_layer_def st elim!: bindrE)
  have "balanced (b1\<lparr>layer_stack := tl (layer_stack b1)\<rparr>)"
  proof (cases "has_deferred_save_op l")
    case True
    with b1 assms(2) st show ?thesis by (auto simp: balanced_def)
  next
    case False
    with b1 have p: "push sk RestoreOp 1 b = Inr b1" by simp
    from False assms(2) st pos show ?thesis by (simp add: balanced_def push_parts [OF p] depth_of_snoc)
  qed
  with balanced_leave [OF b'] show ?thesis by simp
next
  case False
  with assms show ?thesis by (simp add: restore_def)
qed

lemma balanced_saveLayer:
  assumes "saveLayer sk r opts f b = Inr b'" and "balanced b"
  shows "balanced b'"
proof -
  let ?x = "layer_record r (without_optimizations opts) f"
  from assms(1) obtain b1 where p: "push sk ?x 1 b = Inr b1" and
    b': "balanced b' = balanced (push_layer (used b) True
      (CheckLayerOpacityCompatibility (renders_with_attributes (without_optimizations opts)) b1))"
    unfolding saveLayer_def Let_def by (elim bindrE) (fastforce split: if_splits)
  have d: "depth_after n (dispatch ?x) = Suc n" for n
    by (cases r; cases f; simp add: layer_record_def)
  have s: "storage (CheckLayerOpacityCompatibility v b1) = storage b1"
    "opened (layer_stack (CheckLayerOpacityCompatibility v b1)) = opened (layer_stack b1)"
    "layer_stack (CheckLayerOpacityCompatibility v b1) \<noteq> [] \<longleftrightarrow> layer_stack b1 \<noteq> []"
    "layer_stack b1 \<noteq> [] \<Longrightarrow> has_deferred_save_op (last (layer_stack (CheckLayerOpacityCompatibility v b1))) = has_deferred_save_op (last (layer_stack b1))" for v
    by (auto simp: CheckLayerOpacityCompatibility_def UpdateLayerOpacityCompatibility_def on_layer_def mark_incompatible_def
        add_compatible_op_def split: list.splits)
  have "balanced (push_layer n True (CheckLayerOpacityCompatibility v b1))" for n v
    using assms(2) s
    by (simp add: balanced_def push_layer_def LayerInfo_def push_parts [OF p] depth_of_snoc d)
  with b' show ?thesis by auto
qed

lemma balanced_draw:
  assumes "draw_step sk d b = Inr b'" and "balanced b"
  shows "balanced b'"
proof -
  have nested: "balanced (count_nested sk x c) = balanced c" for x c
    by (cases x; simp add: balanced_def)
  have flat: "depth_after n (dispatch (DrawOp x)) = n" for n x by simp
  have push: "balanced b'" if "push_draw sk x (draw_effect sk x) b = Inr b'" for x
  proof -
    from that obtain b1 where p: "push sk (DrawOp x) 1 b = Inr b1" and b': "b' = draw_effect sk x b1"
      by (auto simp: push_draw_def elim!: bindrE)
    from balanced_push [OF p assms(2) flat] show ?thesis by (simp add: b' draw_effect_def nested)
  qed
  show ?thesis using assms(1) unfolding draw_step_eq by (auto elim!: bindrE intro: push)
qed

lemma balanced_step:
  assumes "builder_step sk b c = Inr b'" and "balanced b"
  shows "balanced b'"
proof (cases "flushing c")
  case True
  with assms balanced_flushing show ?thesis by blast
next
  case False
  have "balanced (save b)" if "balanced b" for b
    using that by (simp add: balanced_def save_def push_layer_def on_layer_def LayerInfo_def)
  with False assms show ?thesis
    by (cases c) (auto dest: balanced_attr balanced_saveLayer balanced_restore balanced_draw)
qed

lemma balanced_loop: "restore_loop sk n k b = Inr b' \<Longrightarrow> balanced b \<Longrightarrow> balanced b'"
  by (induction n arbitrary: b) (auto elim!: bindrE split: if_splits dest: balanced_restore)

section \<open>Whole recordings\<close>

lemma layers_on_layer [simp]: "length (layer_stack (on_layer g b)) = length (layer_stack b)"
  by (simp add: on_layer_def split: list.splits)

lemma restored_height: "restore sk b = Inr b' \<Longrightarrow> length (layer_stack b') = max 1 (length (layer_stack b) - 1) \<or> layer_stack b = []"
  by (cases "layer_stack b") (auto simp: max_def Suc_le_eq restore_def leave_layer_def dest!: push_parts(2) elim!: bindrE split: if_splits)

lemma loop_height:
  "restore_loop sk n 1 b = Inr b' \<Longrightarrow> layer_stack b \<noteq> [] \<Longrightarrow> length (layer_stack b) \<le> Suc n \<Longrightarrow> length (layer_stack b') = 1"
proof (induction n arbitrary: b)
  case (Suc n)
  show ?case
  proof (cases "length (layer_stack b) > 1")
    case True
    with Suc.prems(1) obtain b1 where r: "restore sk b = Inr b1" "restore_loop sk n 1 b1 = Inr b'" by (auto elim!: bindrE)
    from restored_height [OF r(1)] True Suc.prems(3) have "layer_stack b1 \<noteq> []" "length (layer_stack b1) \<le> Suc n" by auto
    from Suc.IH [OF r(2) this] show ?thesis .
  next
    case False
    with Suc.prems show ?thesis by (cases "layer_stack b") auto
  qed
next
  case 0
  then show ?case by (cases "layer_stack b") auto
qed

lemma recorded_depth:
  assumes "record_calls sk cull calls = Inr dl"
  shows "foldl depth_after 0 (Dispatch dl) = 0"
proof -
  from assms obtain b b' where b: "run_ops (builder_step sk) (DisplayListBuilder cull) calls = Inr b"
    and b': "restore_loop sk (length (layer_stack b)) 1 b = Inr b'" and dl: "dl_storage dl = storage b'"
    unfolding record_calls_eq by (auto elim!: bindrE)
  have "balanced (DisplayListBuilder cull)" by (simp add: balanced_def DisplayListBuilder_def LayerInfo_def depth_of_def)
  moreover have "run_ops (builder_step sk) b0 cs = Inr b1 \<Longrightarrow> balanced b0 \<Longrightarrow> balanced b1" for b0 b1 cs
    by (induction cs arbitrary: b0) (auto elim!: bindrE dest: balanced_step)
  ultimately have "balanced b" using b by blast
  from balanced_loop [OF b' this] have "balanced b'" .
  moreover have "length (layer_stack b') = 1"
    using loop_height [OF b'] \<open>balanced b\<close> by (simp add: balanced_def)
  then obtain l where "layer_stack b' = [l]" by (auto simp: length_Suc_conv)
  ultimately have "depth_of (storage b') = 0" by (auto simp: balanced_def split: if_splits)
  then show ?thesis by (simp add: Dispatch_def dl depth_of_def comp_def)
qed

end
