(* ===== verification/Dl_Bounds_Total.thy ===== *)
theory Dl_Bounds_Total
  imports Dl_Bounds_Sound Dl_Balance
begin

text \<open>
  The calculator on the lists that the builder records: every save is restored at the end, so that the checks
  of \<open>is_unbounded\<close> and of the accumulators pass, and when the image filters answer nothing else can fail.
\<close>

section \<open>The depth of the accumulators\<close>

locale layered_accumulator =
  fixes A :: "'a accumulator" and depth :: "'a \<Rightarrow> nat"
  assumes depth_accumulate: "depth (acc_accumulate A r a) = depth a"
    and depth_save: "depth (acc_save A a) = Suc (depth a)"
    and depth_restore: "depth (acc_restore A a) = depth a - 1"
    and depth_restore_map: "(\<And>r. \<exists>x. m r = Inr x) \<Longrightarrow>
      \<exists>p a'. acc_restore_map A m clip a = Inr (p, a') \<and> depth a' = depth a - 1"

interpretation rect_depth: layered_accumulator "RectBoundsAccumulator sk" "\<lambda>a. length (saved_rects a)" for sk
proof
  fix m :: mapper and clip and a :: rect_acc
  assume m: "\<And>r. \<exists>x. m r = Inr x"
  obtain p r where "m (acc_rect_bounds (acc_rect a)) = Inr (p, r)" using m by fastforce
  then show "\<exists>p a'. acc_restore_map (RectBoundsAccumulator sk) m clip a = Inr (p, a') \<and>
      length (saved_rects a') = length (saved_rects a) - 1"
    by (auto simp: RectBoundsAccumulator_def rect_restore_map_def pop_and_accumulate_def rect_accumulate_def Let_def
        split: option.splits)
qed (auto simp: RectBoundsAccumulator_def rect_accumulate_def rect_save_def rect_restore_def pop_and_accumulate_def Let_def)

lemma restore_rects_answers:
  assumes m: "\<And>r. \<exists>x. m r = Inr x"
  shows "\<exists>x. restore_rects sk m clip i k ok rs = Inr x"
proof (induction "length rs - i" arbitrary: i k ok rs)
  case (Suc n)
  obtain p r where "m (rs ! i) = Inr (p, r)" using m by fastforce
  with Suc(1) [of _ "Suc i"] Suc(2) show ?case
    by (subst restore_rects.simps) (auto simp: Let_def split: option.splits)
qed (subst restore_rects.simps; simp)

interpretation tree_depth: layered_accumulator "RTreeBoundsAccumulator sk" "\<lambda>a. length (saved_offsets a)" for sk
proof
  fix m :: mapper and clip and a :: rtree_acc
  assume m: "\<And>r. \<exists>x. m r = Inr x"
  show "\<exists>p a'. acc_restore_map (RTreeBoundsAccumulator sk) m clip a = Inr (p, a') \<and>
      length (saved_offsets a') = length (saved_offsets a) - 1"
  proof (cases "saved_offsets a")
    case Nil
    then show ?thesis by (auto simp: RTreeBoundsAccumulator_def rtree_restore_map_def)
  next
    case (Cons i rest)
    obtain p rs where "restore_rects sk m clip i i True (acc_rects a) = Inr (p, rs)"
      using restore_rects_answers [where m = m and sk = sk and clip = clip and i = i and k = i and ok = True and rs = "acc_rects a"] m
      by auto
    with Cons show ?thesis by (simp add: RTreeBoundsAccumulator_def rtree_restore_map_def)
  qed
qed (auto simp: RTreeBoundsAccumulator_def rtree_accumulate_def rtree_save_def rtree_restore_def)

section \<open>Image filters that answer\<close>

text \<open>
  A filter answers unless one of its checks fails (the inversion of a matrix that has no inverse) or it is a local-matrix
  filter without a filter, which leaves its output unset.
\<close>

definition answers :: "geo \<Rightarrow> DlImageFilter option \<Rightarrow> bool" where
  "answers gm flt \<longleftrightarrow> (case flt of None \<Rightarrow> True | Some f \<Rightarrow> \<forall>m r. \<exists>x. layer_mapper gm f m r = Inr x)"

lemma answers_none [simp]: "answers gm None"
  by (simp add: answers_def)

fun filters_answer :: "geo \<Rightarrow> dl_call \<Rightarrow> bool" where
  "filters_answer gm (Attr (setImageFilter flt)) = answers gm flt"
| "filters_answer gm _ = True"

text \<open>As deep as the canvas, and with no other filter anywhere.\<close>

definition plain :: "geo \<Rightarrow> ('a \<Rightarrow> nat) \<Rightarrow> nat \<Rightarrow> 'a calculator \<Rightarrow> bool" where
  "plain gm depth n c \<longleftrightarrow> length (layer_infos c) = Suc n \<and> depth (c_acc c) = n \<and> answers gm (c_image_filter c) \<and>
     list_all (\<lambda>l. answers gm (ld_filter l)) (layer_infos c)"

lemma plain_simps [simp]:
  "plain gm depth n (on_mh f c) = plain gm depth n c"
  "plain gm depth n (on_clip g c) = plain gm depth n c"
  by (simp_all add: plain_def on_mh_def on_clip_def)

lemma plain_attr: "filters_answer gm (Attr a) \<Longrightarrow> plain gm depth n c \<Longrightarrow> plain gm depth n (c_attr sk gm a c)"
  by (cases a) (auto simp: plain_def c_setBlender_def c_setStrokeWidth_def c_setStrokeMiter_def
      elim: filters_answer.elims split: option.splits)

lemmas op_flags_all = op_flags_exist [unfolded op_flags_def, simplified]

context layered_accumulator begin

lemma plain_accumulate: "plain gm depth n c \<Longrightarrow> plain gm depth n (on_acc (acc_accumulate A r) c)"
  by (simp add: plain_def on_acc_def depth_accumulate)

lemma plain_unbounded: "plain gm depth n c \<Longrightarrow> plain gm depth n (AccumulateUnbounded A c)"
  by (auto simp: AccumulateUnbounded_def plain_accumulate)
    (auto simp: plain_def set_unbounded_def split: list.splits)

lemma plain_bounds: "plain gm depth n c \<Longrightarrow> plain gm depth n (AccumulateBounds sk gm A r c)"
  by (auto simp: AccumulateBounds_def plain_accumulate split: option.splits)

lemma plain_op_bounds:
  assumes "plain gm depth n c" "\<not> isl f"
  shows "\<exists>c'. AccumulateOpBounds sk gm A f r c = Inr c' \<and> plain gm depth n c'"
  using assms by (cases f) (auto simp: AccumulateOpBounds_def plain_bounds plain_unbounded split: option.splits)

lemma plain_list:
  "plain gm depth n c \<Longrightarrow> \<exists>c'. run_ops (\<lambda>c r. AccumulateOpBounds sk gm A kDrawDisplayListFlags r c) c rs = Inr c' \<and> plain gm depth n c'"
  by (induction rs arbitrary: c) (auto simp: list_op_bounds plain_bounds)

lemma plain_draw:
  assumes "plain gm depth n c"
  shows "\<exists>c'. c_draw sk gm A d c = Inr c' \<and> plain gm depth n c'"
  using assms op_flags_all plain_list [OF assms] plain_op_bounds [OF assms]
  by (cases d)
    (auto simp: plain_unbounded c_drawLine_def c_drawCircle_def c_drawPath_def c_drawPoints_def c_drawImage_def
      c_drawAtlas_def c_drawPicture_def c_drawDisplayList_def Let_def split: PointMode.splits)

lemma plain_save: "plain gm depth n c \<Longrightarrow> plain gm depth (Suc n) (c_save gm A c)"
  by (simp add: plain_def c_save_def on_acc_def on_clip_def on_mh_def depth_save)

lemma plain_push:
  "plain gm depth n c \<Longrightarrow> answers gm flt \<Longrightarrow> ls = layer_infos c \<Longrightarrow>
    plain gm depth (Suc n) (on_acc (acc_save A) (c\<lparr>layer_infos := \<lparr>ld_filter = flt, ld_unbounded = u\<rparr> # ls\<rparr>))"
  by (simp add: plain_def on_acc_def depth_save)

lemma plain_filter: "plain gm depth n c \<Longrightarrow> answers gm (c_image_filter c)"
  by (simp add: plain_def)

lemma plain_saveLayer:
  assumes "plain gm depth n c"
  shows "plain gm depth (Suc n) (c_saveLayer sk gm A r o1 f c)"
  using assms
  by (auto simp: c_saveLayer_def Let_def intro!: plain_unbounded plain_push dest: plain_filter split: option.splits)

lemma plain_restore:
  assumes "plain gm depth n c"
  shows "\<exists>c'. c_restore gm A c = Inr c' \<and> plain gm depth (n - 1) c'"
proof (cases n)
  case 0
  with assms show ?thesis by (auto simp: c_restore_def plain_def length_Suc_conv)
next
  case (Suc m)
  with assms obtain layer outer infos where infos: "layer_infos c = layer # outer # infos"
    by (auto simp: plain_def length_Suc_conv)
  let ?c = "on_clip ch_restore (on_mh (mh_restore gm) c)"
  have acc: "c_acc ?c = c_acc c" by (simp add: on_clip_def on_mh_def)
  have pop: "plain gm depth m (?c\<lparr>c_acc := a, layer_infos := outer # infos\<rparr>)" if "depth a = m" for a
    using assms infos Suc that by (simp add: plain_def)
  have flt: "answers gm (ld_filter layer)" using assms infos by (simp add: plain_def)
  show ?thesis
  proof (cases "ld_filter layer")
    case None
    have "depth (acc_restore A (c_acc c)) = m" using assms Suc by (simp add: plain_def depth_restore)
    from pop [OF this] None infos Suc show ?thesis
      by (auto simp: c_restore_def Let_def on_acc_def acc plain_unbounded)
  next
    case (Some f)
    then have "\<And>r. \<exists>x. layer_mapper gm f (c_m33 ?c) r = Inr x" using flt by (simp add: answers_def)
    from depth_restore_map [where m = "layer_mapper gm f (c_m33 ?c)" and a = "c_acc c" and
        clip = "if has_clip ?c then Some (c_clip_bounds ?c) else None"] this obtain p a where
      a: "acc_restore_map A (layer_mapper gm f (c_m33 ?c)) (if has_clip ?c then Some (c_clip_bounds ?c) else None) (c_acc c) = Inr (p, a)"
      and d: "depth a = depth (c_acc c) - 1" by auto
    from d assms Suc have "depth a = m" by (simp add: plain_def)
    from pop [OF this] Some infos Suc a show ?thesis
      by (auto simp: c_restore_def Let_def acc plain_unbounded)
  qed
qed

lemma plain_step:
  assumes "plain gm depth n c" "filters_answer gm call"
  shows "\<exists>c'. c_step sk gm A c call = Inr c' \<and> plain gm depth (depth_after n call) c'"
  using assms plain_attr [of gm _ depth n c]
  by (cases call) (auto simp: plain_save plain_saveLayer plain_restore plain_draw simp del: One_nat_def)

lemma plain_run:
  "plain gm depth n c \<Longrightarrow> list_all (filters_answer gm) calls \<Longrightarrow>
    \<exists>c'. run_ops (c_step sk gm A) c calls = Inr c' \<and> plain gm depth (foldl depth_after n calls) c'"
proof (induction calls arbitrary: n c)
  case (Cons call calls)
  from Cons.prems plain_step [of gm n c call sk] obtain c1 where
    "c_step sk gm A c call = Inr c1" "plain gm depth (depth_after n call) c1" by auto
  with Cons show ?case by simp
qed simp

end

section \<open>Recorded lists\<close>

lemma balanced_lists_are_computed:
  assumes d: "foldl depth_after 0 (Dispatch dl) = 0" and f: "list_all (filters_answer gm) (Dispatch dl)"
  shows "\<exists>bounds rects. ComputeBounds sk gm dl = Inr bounds \<and> ComputeRTree sk gm dl = Inr rects"
proof -
  have "plain gm (\<lambda>a. length (saved_rects a)) 0 (calculator_new gm rect_acc_new (Some (dl_bounds_cull dl)))"
    by (simp add: plain_def calculator_new_def rect_acc_new_def)
  from rect_depth.plain_run [OF this f, of sk] d obtain c where
    c: "calculate sk gm (RectBoundsAccumulator sk) rect_acc_new (Some (dl_bounds_cull dl)) (Dispatch dl) = Inr c"
      "plain gm (\<lambda>a. length (saved_rects a)) 0 c"
    by (auto simp: calculate_def)
  have "plain gm (\<lambda>a. length (saved_offsets a)) 0 (calculator_new gm rtree_acc_new (Some (dl_bounds_cull dl)))"
    by (simp add: plain_def calculator_new_def rtree_acc_new_def)
  from tree_depth.plain_run [OF this f, of sk] d obtain t where
    t: "calculate sk gm (RTreeBoundsAccumulator sk) rtree_acc_new (Some (dl_bounds_cull dl)) (Dispatch dl) = Inr t"
      "plain gm (\<lambda>a. length (saved_offsets a)) 0 t"
    by (auto simp: calculate_def)
  from c t show ?thesis
    by (auto simp: ComputeBounds_def ComputeRTree_def is_unbounded_def rect_bounds_def plain_def)
qed

text \<open>
  C8: The bounds of a recorded list are always computed. Whatever is recorded, if every image filter that a record sets
  answers, both \<open>ComputeBounds\<close> and \<open>ComputeRTree\<close> return: no check fails, because the builder leaves
  every save of the list with its restore, and the flags of every operation are well formed. (A filter that does not answer
  is one whose own check fails, or a local-matrix filter without a filter in it, which leaves its output unset.)
\<close>

theorem bounds_of_recorded_lists_are_computed:
  assumes "record_calls sk cull calls = Inr dl" and "list_all (filters_answer gm) (Dispatch dl)"
  shows "\<exists>bounds rects. ComputeBounds sk gm dl = Inr bounds \<and> ComputeRTree sk gm dl = Inr rects"
  by (rule balanced_lists_are_computed [OF recorded_depth [OF assms(1)] assms(2)])

end
