(* ===== verification/Dl_Bounds_Cases.thy ===== *)
theory Dl_Bounds_Cases
  imports Dl_Bounds_Total
begin

text \<open>
  The bounds calculator on concrete lists: witnesses of its theorems, with a stand-in for Skia whose matrices
  leave rectangles as they are, and two lists on which the calculator and its surroundings disagree.
\<close>

section \<open>A stand-in for Skia's rectangles\<close>

definition float_min :: "SkScalar \<Rightarrow> SkScalar \<Rightarrow> SkScalar" where
  "float_min a b = (if float_less b a then b else a)"

definition demo_intersect :: "SkRect \<Rightarrow> SkRect \<Rightarrow> SkRect option" where
  "demo_intersect a b =
     (let r = \<lparr>fLeft = float_max (fLeft a) (fLeft b), fTop = float_max (fTop a) (fTop b),
               fRight = float_min (fRight a) (fRight b), fBottom = float_min (fBottom a) (fBottom b)\<rparr> in
      if has_area r \<and> inside r a \<and> inside r b then Some r else None)"

definition bounds_skia :: skia where
  "bounds_skia = demo_skia\<lparr>rect_intersect := demo_intersect, isInverseFillType := (\<lambda>p. p = 1), path_getBounds := (\<lambda>p. demo_rect)\<rparr>"

definition irect_of :: "SkRect \<Rightarrow> SkIRect" where
  "irect_of r = (signed_magnitude (fLeft r), signed_magnitude (fTop r), signed_magnitude (fRight r), signed_magnitude (fBottom r))"

definition bounds_geo :: geo where
  "bounds_geo = \<lparr>f_add = (\<lambda>x y. x), f_sub = (\<lambda>x y. x), f_mul = (\<lambda>x y. x), f_abs = id, f_floor = (\<lambda>_. 0), f_ceil = (\<lambda>_. 0),
     f_int = (\<lambda>_. 0), rect_isEmpty = (\<lambda>r. \<not> has_area r), rect_isSorted = (\<lambda>_. True), makeSorted = id,
     makeOutset = (\<lambda>r x y. r), makeInset = (\<lambda>r x y. r), makeOffset = (\<lambda>r x y. r),
     irect_makeOutset = (\<lambda>i x y. i), irect_makeInset = (\<lambda>i x y. i),
     rect_of_irect = (\<lambda>i. SkRect_MakeEmpty), irect_roundOut = irect_of, asM33 = (\<lambda>m. m), m33_mapRect = (\<lambda>m r. r),
     m33_invert = Some, m33_Concat = (\<lambda>m n. m), m33_isIdentity = (\<lambda>m. True), m33_isTranslate = (\<lambda>m. True),
     m33_isScaleTranslate = (\<lambda>m. True), m33_isFinite = (\<lambda>m. True), m33_hasPerspective = (\<lambda>m. False),
     colors_transparent = (\<lambda>f. False), filter_canComputeFastBounds = (\<lambda>k. True), filter_computeFastBounds = (\<lambda>k r. r),
     filter_filterBounds = (\<lambda>k i m d. i), effect_fastBounds = (\<lambda>k. Some), mask_fastBounds = (\<lambda>k. Some),
     shadow_localBounds = (\<lambda>m p z. None), vertices_bounds = (\<lambda>v. demo_rect), picture_cullRect = (\<lambda>p. demo_rect),
     blob_bounds = (\<lambda>b. demo_rect), toQuad = (\<lambda>x w h. []), list_bounds = (\<lambda>d. demo_rect), list_rects = (\<lambda>d r. [])\<rparr>"

lemma float_max_least: "float_le a c \<Longrightarrow> float_le b c \<Longrightarrow> float_le (float_max a b) c"
  by (simp add: float_max_def)

lemma float_min_greatest: "float_le c a \<Longrightarrow> float_le c b \<Longrightarrow> float_le c (float_min a b)"
  by (simp add: float_min_def)

lemma float_max_ge: "\<not> float_is_nan a \<Longrightarrow> \<not> float_is_nan b \<Longrightarrow> float_le a (float_max a b) \<and> float_le b (float_max a b)"
  by (auto simp: float_max_def float_le_refl float_less_le intro: float_not_less_le)

lemma float_min_le: "\<not> float_is_nan a \<Longrightarrow> \<not> float_is_nan b \<Longrightarrow> float_le (float_min a b) a \<and> float_le (float_min a b) b"
  by (auto simp: float_min_def float_le_refl float_less_le intro: float_not_less_le)

lemma demo_intersect_greatest:
  assumes "has_area x" "inside x a" "inside x b"
  shows "\<exists>r. demo_intersect a b = Some r \<and> inside x r"
proof -
  let ?r = "\<lparr>fLeft = float_max (fLeft a) (fLeft b), fTop = float_max (fTop a) (fTop b),
     fRight = float_min (fRight a) (fRight b), fBottom = float_min (fBottom a) (fBottom b)\<rparr>"
  have x: "inside x ?r" using assms(2,3) by (simp add: inside_def float_max_least float_min_greatest)
  have n: "not_nan a" "not_nan b" using assms(2,3) inside_not_nan by blast+
  then have "inside ?r a" "inside ?r b" by (simp_all add: inside_def not_nan_def float_max_ge float_min_le)
  with x inside_area [OF assms(1) x] show ?thesis by (simp add: demo_intersect_def)
qed

lemma bounds_lawful: "lawful_rects bounds_skia bounds_geo"
  using demo_intersect_greatest
  by (auto simp: lawful_rects_def bounds_skia_def bounds_geo_def demo_intersect_def Let_def split: if_splits)

section \<open>Witnesses\<close>

definition demo_cull :: SkRect where
  "demo_cull = \<lparr>fLeft = 0, fTop = 0, fRight = float_four, fBottom = float_four\<rparr>"

definition bounds_calls :: "dl_call list" where
  "bounds_calls = [Save, ClipRect demo_rect kIntersectClip False, Draw (drawRect demo_cull), Restore,
     Draw (drawRect \<lparr>fLeft = float_one, fTop = 0, fRight = float_four, fBottom = float_one\<rparr>)]"

lemma demo_magnitudes [simp]:
  "signed_magnitude (0 :: SkScalar) = 0" "signed_magnitude float_one = 0x3F800000" "signed_magnitude float_four = 0x40800000"
  by (simp_all add: signed_magnitude_def float_one_def float_four_def Let_def bit_simps)

lemma demo_not_nan [simp]: "\<not> float_is_nan float_one" "\<not> float_is_nan float_four"
  by code_simp+

lemma demo_values:
  "has_area demo_rect" "has_area demo_cull" "demo_intersect demo_cull demo_rect = Some demo_rect"
  by (simp_all add: has_area_def demo_rect_def demo_cull_def float_less_def demo_intersect_def float_max_def float_min_def
      inside_def float_le_def)

lemma demo_box:
  "acc_rect_bounds (accumulate_xy (fRight demo_rect) (fBottom demo_rect)
     (accumulate_xy (fLeft demo_rect) (fTop demo_rect) AccumulationRect_new)) = demo_rect"
  by (simp add: accumulate_xy_def AccumulationRect_new_def acc_rect_bounds_def demo_rect_def float_less_def float_le_def
      magnitude_inf)

theorem cull_rect_bounds_everything_witness:
  "\<exists>c d. calculate bounds_skia bounds_geo (RectBoundsAccumulator bounds_skia) rect_acc_new (Some demo_cull) bounds_calls = Inr c \<and>
     calculate bounds_skia bounds_geo (RTreeBoundsAccumulator bounds_skia) rtree_acc_new (Some demo_cull) bounds_calls = Inr d \<and>
     within demo_cull (acc_rect_bounds (acc_rect (c_acc c))) \<and> list_all (\<lambda>r. has_area r \<and> inside r demo_cull) (acc_rects (c_acc d))"
proof -
  have f: "list_all (filters_answer bounds_geo) bounds_calls" by (simp add: bounds_calls_def)
  have "plain bounds_geo (\<lambda>a. length (saved_rects a)) 0 (calculator_new bounds_geo rect_acc_new (Some demo_cull))"
    by (simp add: plain_def calculator_new_def rect_acc_new_def)
  from rect_depth.plain_run [OF this f, of bounds_skia] obtain c where
    c: "calculate bounds_skia bounds_geo (RectBoundsAccumulator bounds_skia) rect_acc_new (Some demo_cull) bounds_calls = Inr c"
    by (auto simp: calculate_def)
  have "plain bounds_geo (\<lambda>a. length (saved_offsets a)) 0 (calculator_new bounds_geo rtree_acc_new (Some demo_cull))"
    by (simp add: plain_def calculator_new_def rtree_acc_new_def)
  from tree_depth.plain_run [OF this f, of bounds_skia] obtain d where
    d: "calculate bounds_skia bounds_geo (RTreeBoundsAccumulator bounds_skia) rtree_acc_new (Some demo_cull) bounds_calls = Inr d"
    by (auto simp: calculate_def)
  from cull_rect_bounds_everything [OF bounds_lawful c d] c d show ?thesis by blast
qed

definition demo_list :: "dl_op list \<Rightarrow> display_list" where
  "demo_list ops = \<lparr>dl_storage = map (\<lambda>x. (x, 8)) ops, dl_byte_count = 0, dl_op_count = 0, dl_nested_byte_count = 0,
     dl_nested_op_count = 0, dl_bounds_cull = demo_cull, can_apply_group_opacity = False\<rparr>"

text \<open>A layer with a color filter over a rectangle that is clipped, and an oval outside of it.\<close>

definition demo_ops :: "dl_op list" where
  "demo_ops = [AttrOp (SetSharedImageFilterOp (ColorFilterImageFilter None)),
     SaveLayerOp \<lparr>renders_with_attributes = True, can_distribute_opacity = False\<rparr>, AttrOp ClearImageFilterOp,
     ClipIntersectRectOp demo_rect False, DrawOp (DrawRectOp demo_cull), RestoreOp, DrawOp (DrawOvalOp demo_rect)]"

lemma color_filter_even: "even_filter bounds_geo (Some (ColorFilterImageFilter flt))"
proof -
  have e: "inside SkRect_MakeEmpty SkRect_MakeEmpty" by (simp add: inside_def SkRect_MakeEmpty_def float_le_refl)
  show ?thesis
    by (auto simp: even_filter_def even_mapper_def layer_mapper_def Let_def bounds_geo_def e elim!: bindrE split: if_splits)
qed

lemma color_filter_answers: "answers bounds_geo (Some (ColorFilterImageFilter flt))"
  by (simp add: answers_def layer_mapper_def Let_def)

theorem rtree_rects_lie_in_the_bounds_witness:
  "\<exists>bounds rects. ComputeBounds bounds_skia bounds_geo (demo_list demo_ops) = Inr bounds \<and>
     ComputeRTree bounds_skia bounds_geo (demo_list demo_ops) = Inr rects \<and> list_all (\<lambda>r. has_area r \<and> inside r bounds) rects"
proof -
  have calls: "Dispatch (demo_list demo_ops) =
      [Attr (setImageFilter (Some (ColorFilterImageFilter None))),
       SaveLayer None \<lparr>renders_with_attributes = True, can_distribute_opacity = False\<rparr> None, Attr (setImageFilter None),
       ClipRect demo_rect kIntersectClip False, Draw (drawRect demo_cull), Restore, Draw (drawOval demo_rect)]"
    by (simp add: Dispatch_def demo_list_def demo_ops_def)
  have "foldl depth_after 0 (Dispatch (demo_list demo_ops)) = 0" "list_all (filters_answer bounds_geo) (Dispatch (demo_list demo_ops))"
    by (simp_all add: calls color_filter_answers)
  from balanced_lists_are_computed [OF this, of bounds_skia] obtain bounds rects where
    b: "ComputeBounds bounds_skia bounds_geo (demo_list demo_ops) = Inr bounds"
      "ComputeRTree bounds_skia bounds_geo (demo_list demo_ops) = Inr rects" by blast
  have "list_all (evenly_drawn bounds_geo) (Dispatch (demo_list demo_ops))" by (simp add: calls color_filter_even)
  from rtree_rects_lie_in_the_bounds [OF bounds_lawful this b] b show ?thesis by blast
qed

lemma painted_recorded:
  "\<exists>dl. record_calls demo_skia demo_rect [Save, Draw drawPaint, Restore] = Inr dl \<and> list_all (filters_answer bounds_geo) (Dispatch dl)"
  by (simp add: record_calls_def Build_def DisplayListBuilder_def save_def do_drawPaint_def push_draw_def push_def op_size_def
      SkAlignPtr_def demo_skia_def DL_BUILDER_PAGE_def restore_def leave_layer_def push_layer_def Let_def Dispatch_def
      LayerInfo_def current_layer_def on_layer_def CheckLayerOpacityCompatibility_def UpdateLayerOpacityCompatibility_def
      add_compatible_op_def mark_incompatible_def)

theorem bounds_of_recorded_lists_are_computed_witness:
  "\<exists>dl bounds rects. record_calls demo_skia demo_rect [Save, Draw drawPaint, Restore] = Inr dl \<and>
     ComputeBounds demo_skia bounds_geo dl = Inr bounds \<and> ComputeRTree demo_skia bounds_geo dl = Inr rects"
proof -
  obtain dl where dl: "record_calls demo_skia demo_rect [Save, Draw drawPaint, Restore] = Inr dl"
    "list_all (filters_answer bounds_geo) (Dispatch dl)"
    using painted_recorded by blast
  from bounds_of_recorded_lists_are_computed [OF dl] dl(1) show ?thesis by auto
qed

section \<open>A clip to the outside of a path\<close>

text \<open>
  A clip to a path with an inverse fill, which covers everything outside the path, leaves the clip
  rectangle of the builder as it is, but the bounds calculator intersects its own with the rectangle
  around the path.
\<close>

lemma inverse_path_clip_loses_the_bounds:
  "isInverseFillType bounds_skia 1 \<and> path_getBounds bounds_skia 1 = demo_rect \<and> inside demo_rect demo_cull \<and>
   (\<exists>b. builder_step bounds_skia (DisplayListBuilder demo_cull) (ClipPath 1 kIntersectClip False) = Inr b \<and>
     clip_bounds (current_layer b) = demo_cull) \<and>
   ComputeBounds bounds_skia bounds_geo (demo_list [ClipIntersectPathOp 1 False, DrawOp DrawPaintOp]) = Inr demo_rect"
proof -
  have "\<exists>b. builder_step bounds_skia (DisplayListBuilder demo_cull) (ClipPath 1 kIntersectClip False) = Inr b \<and>
      clip_bounds (current_layer b) = demo_cull"
    by (simp add: clipPath_def push_path_clip_def push_clip_def checkForDeferredSave_def bounds_skia_def DisplayListBuilder_def push_def op_size_def
      SkAlignPtr_def demo_skia_def DL_BUILDER_PAGE_def Let_def LayerInfo_def current_layer_def)
  moreover have "ComputeBounds bounds_skia bounds_geo (demo_list [ClipIntersectPathOp 1 False, DrawOp DrawPaintOp]) = Inr demo_rect"
    using demo_values demo_box
    by (simp add: ComputeBounds_def calculate_def calculator_new_def clip_helper_new_def matrix_helper_new_def demo_list_def
      Dispatch_def ch_clipPath_def ch_intersect_def bounds_skia_def bounds_geo_def on_clip_def AccumulateUnbounded_def
      has_clip_def c_clip_bounds_def on_acc_def RectBoundsAccumulator_def rect_accumulate_def is_unbounded_def rect_bounds_def
      rect_acc_new_def Let_def)
  ultimately show ?thesis
    by (simp add: bounds_skia_def inside_def demo_rect_def demo_cull_def float_le_def)
qed

section \<open>Layers\<close>

text \<open>
  A layer in which nothing is drawn has no rectangle, but the bounding box of nothing is the rectangle (0, 0, 0,
  0): that is what its filter is run on, and a blur or a dilation of it has an area.
\<close>

lemma empty_layer_is_mapped:
  "saved_rects a \<noteq> [] \<Longrightarrow> acc_rect a = AccumulationRect_new \<Longrightarrow>
   rect_restore_map sk mapper clip a =
     bindr (mapper SkRect_MakeEmpty) (\<lambda>(success, r). Inr (success, pop_and_accumulate sk r clip a))"
  by (simp add: rect_restore_map_def acc_rect_bounds_def AccumulationRect_new_def float_le_def magnitude_inf)

lemma empty_tree_layer_is_not_mapped:
  "saved_offsets a = length (acc_rects a) # os \<Longrightarrow>
   rtree_restore_map sk mapper clip a = Inr (True, a\<lparr>saved_offsets := os\<rparr>)"
  by (cases a) (simp add: rtree_restore_map_def restore_rects.simps)

text \<open>A local-matrix filter without a filter in it leaves the output unset that the calculator then reads.\<close>

lemma layer_mapper_undefined: "leaves_output_unset f \<Longrightarrow> layer_mapper gm f matrix input = Inl Undefined"
  by (simp add: layer_mapper_def map_device_bounds_unset)

end
