(* ===== verification/Flow_Mutators.thy ===== *)
theory Flow_Mutators
  imports Dl_Filter_Bounds
begin

text \<open>
  \<open>flow/embedded_views.h\<close> and \<open>.cc\<close>: the mutators that a platform view is shown under, the stack of them, and the
  parameters with which a view is handed to the embedder. The record \<open>flow_geo\<close> adds to the geometry of Skia what
  the layers of a frame call: joining and comparing rectangles, rounding, and colors.
\<close>

section \<open>More of Skia's geometry\<close>

record flow_geo = geo +
  rect_join :: "SkRect \<Rightarrow> SkRect \<Rightarrow> SkRect"
  rect_intersects :: "SkRect \<Rightarrow> SkRect \<Rightarrow> bool"
  roundToScalar :: "SkScalar \<Rightarrow> SkScalar"
  irect_round :: "SkRect \<Rightarrow> SkIRect"
  irect_isEmpty :: "SkIRect \<Rightarrow> bool"
  roundToAlpha :: "SkScalar \<Rightarrow> 32 word"
  alphaToFloat :: "32 word \<Rightarrow> SkScalar"
  m33_maps_to_rect :: "SkMatrix \<Rightarrow> bool"
  m33_preConcat :: "SkMatrix \<Rightarrow> SkMatrix \<Rightarrow> SkMatrix"
  m33_preTranslate :: "SkScalar \<Rightarrow> SkScalar \<Rightarrow> SkMatrix \<Rightarrow> SkMatrix"
  m33_preScale :: "SkScalar \<Rightarrow> SkScalar \<Rightarrow> SkMatrix \<Rightarrow> SkMatrix"
  m33_preSkew :: "SkScalar \<Rightarrow> SkScalar \<Rightarrow> SkMatrix \<Rightarrow> SkMatrix"
  m33_preRotate :: "SkScalar \<Rightarrow> SkMatrix \<Rightarrow> SkMatrix"
  path_eq :: "SkPath \<Rightarrow> SkPath \<Rightarrow> bool"
  rrect_eq :: "SkRRect \<Rightarrow> SkRRect \<Rightarrow> bool"
  path_transformed_bounds :: "SkMatrix \<Rightarrow> SkRect \<Rightarrow> SkRect"

definition rect_eq :: "SkRect \<Rightarrow> SkRect \<Rightarrow> bool" where
  "rect_eq r s \<longleftrightarrow> float_eq (fLeft r) (fLeft s) \<and> float_eq (fTop r) (fTop s) \<and> float_eq (fRight r) (fRight s) \<and>
     float_eq (fBottom r) (fBottom s)"

definition SkMatrix_I :: SkMatrix where
  "SkMatrix_I = [float_one, 0, 0,  0, float_one, 0,  0, 0, float_one]"

definition SkMatrix_Translate :: "SkScalar \<Rightarrow> SkScalar \<Rightarrow> SkMatrix" where
  "SkMatrix_Translate x y = [float_one, 0, x,  0, float_one, y,  0, 0, float_one]"

section \<open>Mutators\<close>

(* map: flow/embedded_views.h 40 60 ImageFilterMutation *)
datatype image_filter_mutation = ImageFilterMutation (mutation_filter: "DlImageFilter ptr") (mutation_rect: SkRect)

text \<open>A null filter is dereferenced by the comparison.\<close>

(* map: flow/embedded_views.h 49 51 ImageFilterMutation::operator== *)
fun filter_mutation_eq :: "image_filter_mutation \<Rightarrow> image_filter_mutation \<Rightarrow> bool res" where
  "filter_mutation_eq (ImageFilterMutation f r) (ImageFilterMutation g s) = (case (f, g) of
     (Some (i, x), Some (j, y)) \<Rightarrow> andr (image_filter_eq x y) (Inr (rect_eq r s))
   | _ \<Rightarrow> Inl Undefined)"

text \<open>The type of a mutator and the member of the union that goes with it.\<close>

(* map: flow/embedded_views.h 68 167 Mutator *)
datatype mutator =
    ClipRectMutator SkRect
  | ClipRRectMutator SkRRect
  | ClipPathMutator SkPath
  | TransformMutator SkMatrix
  | OpacityMutator int
  | BackdropFilterMutator image_filter_mutation

(* map: flow/embedded_views.h 120 140 Mutator::operator== *)
fun mutator_eq :: "flow_geo \<Rightarrow> mutator \<Rightarrow> mutator \<Rightarrow> bool res" where
  "mutator_eq gm (ClipRectMutator r) (ClipRectMutator s) = Inr (rect_eq r s)"
| "mutator_eq gm (ClipRRectMutator r) (ClipRRectMutator s) = Inr (rrect_eq gm r s)"
| "mutator_eq gm (ClipPathMutator p) (ClipPathMutator q) = Inr (path_eq gm p q)"
| "mutator_eq gm (TransformMutator m) (TransformMutator n) = Inr (matrix_eq m n)"
| "mutator_eq gm (OpacityMutator a) (OpacityMutator b) = Inr (a = b)"
| "mutator_eq gm (BackdropFilterMutator f) (BackdropFilterMutator g) = filter_mutation_eq f g"
| "mutator_eq gm _ _ = Inr False"

(* map: flow/embedded_views.h 144 146 Mutator::IsClipType *)
fun IsClipType :: "mutator \<Rightarrow> bool" where
  "IsClipType (ClipRectMutator r) = True"
| "IsClipType (ClipRRectMutator r) = True"
| "IsClipType (ClipPathMutator p) = True"
| "IsClipType _ = False"

section \<open>The stack of mutators\<close>

text \<open>The vector; its first element is the mutator furthest from the view. The pushes append to it.\<close>

type_synonym mutators_stack = "mutator list"

definition PushMutator :: "mutator \<Rightarrow> mutators_stack \<Rightarrow> mutators_stack" where
  "PushMutator m ms = ms @ [m]"

(* map: flow/embedded_views.cc fn MutatorsStack::PushClipRect( *)
definition PushClipRect :: "SkRect \<Rightarrow> mutators_stack \<Rightarrow> mutators_stack" where
  "PushClipRect r = PushMutator (ClipRectMutator r)"

(* map: flow/embedded_views.cc fn MutatorsStack::PushClipRRect( *)
definition PushClipRRect :: "SkRRect \<Rightarrow> mutators_stack \<Rightarrow> mutators_stack" where
  "PushClipRRect r = PushMutator (ClipRRectMutator r)"

(* map: flow/embedded_views.cc fn MutatorsStack::PushClipPath( *)
definition PushClipPath :: "SkPath \<Rightarrow> mutators_stack \<Rightarrow> mutators_stack" where
  "PushClipPath p = PushMutator (ClipPathMutator p)"

(* map: flow/embedded_views.cc fn MutatorsStack::PushTransform( *)
definition PushTransform :: "SkMatrix \<Rightarrow> mutators_stack \<Rightarrow> mutators_stack" where
  "PushTransform m = PushMutator (TransformMutator m)"

(* map: flow/embedded_views.cc fn MutatorsStack::PushOpacity( *)
definition PushOpacity :: "int \<Rightarrow> mutators_stack \<Rightarrow> mutators_stack" where
  "PushOpacity a = PushMutator (OpacityMutator a)"

(* map: flow/embedded_views.cc fn MutatorsStack::PushBackdropFilter( *)
definition PushBackdropFilter :: "DlImageFilter ptr \<Rightarrow> SkRect \<Rightarrow> mutators_stack \<Rightarrow> mutators_stack" where
  "PushBackdropFilter f r = PushMutator (BackdropFilterMutator (ImageFilterMutation f r))"

(* map: flow/embedded_views.cc fn MutatorsStack::Pop( *)
definition PopMutator :: "mutators_stack \<Rightarrow> mutators_stack res" where
  "PopMutator ms = (if ms = [] then Inl Undefined else Inr (butlast ms))"

(* map: flow/embedded_views.cc fn MutatorsStack::PopTo( *)
function PopTo :: "nat \<Rightarrow> mutators_stack \<Rightarrow> mutators_stack" where
  "PopTo n ms = (if n < length ms then PopTo n (butlast ms) else ms)"
  by pat_completeness auto
termination by (relation "measure (length \<circ> snd)") auto

declare PopTo.simps [simp del]

(* map: flow/embedded_views.h 217 227 MutatorsStack::operator== *)
fun mutators_eq :: "flow_geo \<Rightarrow> mutators_stack \<Rightarrow> mutators_stack \<Rightarrow> bool res" where
  "mutators_eq gm [] [] = Inr True"
| "mutators_eq gm (m # ms) (n # ns) =
     (if length ms \<noteq> length ns then Inr False
      else bindr (mutator_eq gm m n) (\<lambda>same. if \<not> same then Inr False else mutators_eq gm ms ns))"
| "mutators_eq gm _ _ = Inr False"

lemma PopTo_take: "PopTo n ms = take n ms"
  by (induction n ms rule: PopTo.induct) (subst PopTo.simps, auto simp: butlast_conv_take)

section \<open>The parameters of an embedded view\<close>

(* map: flow/embedded_views.h 253 309 EmbeddedViewParams *)
record embedded_view_params =
  view_matrix :: SkMatrix
  size_points :: SkPoint
  mutatorsStack :: mutators_stack
  finalBoundingRect :: SkRect
  display_list_enabled :: bool

definition rect_of_size :: "SkPoint \<Rightarrow> SkRect" where
  "rect_of_size s = \<lparr>fLeft = 0, fTop = 0, fRight = fst s, fBottom = snd s\<rparr>"

(* map: flow/embedded_views.h 257 270 EmbeddedViewParams::EmbeddedViewParams *)
definition EmbeddedViewParams :: "flow_geo \<Rightarrow> SkMatrix \<Rightarrow> SkPoint \<Rightarrow> mutators_stack \<Rightarrow> bool \<Rightarrow> embedded_view_params" where
  "EmbeddedViewParams gm m size_pt ms dl =
     \<lparr>view_matrix = m, size_points = size_pt, mutatorsStack = ms,
      finalBoundingRect = path_transformed_bounds gm m (rect_of_size size_pt), display_list_enabled = dl\<rparr>"

(* map: flow/embedded_views.h 287 290 EmbeddedViewParams::PushImageFilter *)
definition PushImageFilter :: "DlImageFilter ptr \<Rightarrow> SkRect \<Rightarrow> embedded_view_params \<Rightarrow> embedded_view_params" where
  "PushImageFilter f r v = v\<lparr>mutatorsStack := PushBackdropFilter f r (mutatorsStack v)\<rparr>"

(* map: flow/embedded_views.h 296 301 EmbeddedViewParams::operator== *)
definition view_params_eq :: "flow_geo \<Rightarrow> embedded_view_params \<Rightarrow> embedded_view_params \<Rightarrow> bool res" where
  "view_params_eq gm v w =
     andr (Inr (point_eq (size_points v) (size_points w)))
     (andr (mutators_eq gm (mutatorsStack v) (mutatorsStack w))
     (andr (Inr (rect_eq (finalBoundingRect v) (finalBoundingRect w)))
       (Inr (matrix_eq (view_matrix v) (view_matrix w)))))"

end
