(* ===== verification/Dl_Clip_Tracker.thy ===== *)
theory Dl_Clip_Tracker
  imports Flow_Mutators
begin

text \<open>
  \<open>display_list/display_list_matrix_clip_tracker.h\<close> and \<open>.cc\<close>: a stack of transforms, kept as 3x3 matrices as long as
  that is possible, each with a rectangle of the device around the clip. Content outside of the
  rectangle need not be drawn.
\<close>

section \<open>Matrices\<close>

definition rc :: "SkM44 \<Rightarrow> nat \<Rightarrow> nat \<Rightarrow> SkScalar" where
  "rc m r c = m ! (4 * r + c)"

definition m44_of_m33 :: "SkMatrix \<Rightarrow> SkM44" where
  "m44_of_m33 m =
     [m ! 0, m ! 1, 0, m ! 2,  m ! 3, m ! 4, 0, m ! 5,  0, 0, float_one, 0,  m ! 6, m ! 7, 0, m ! 8]"

(* map: display_list/display_list_matrix_clip_tracker.cc 94 101 is_3x3 *)
definition is_3x3 :: "SkM44 \<Rightarrow> bool" where
  "is_3x3 m \<longleftrightarrow>
     float_eq (rc m 0 2) 0 \<and> float_eq (rc m 1 2) 0 \<and> float_eq (rc m 2 0) 0 \<and> float_eq (rc m 2 1) 0 \<and>
     float_eq (rc m 2 2) float_one \<and> float_eq (rc m 2 3) 0 \<and> float_eq (rc m 3 2) 0"

section \<open>The data of one level\<close>

(* map: display_list/display_list_matrix_clip_tracker.h 54 86 DisplayListMatrixClipTracker::Data *)
datatype tracker_data = Data3x3 SkMatrix (tracker_cull: SkRect) | Data4x4 SkM44 (tracker_cull: SkRect)

definition with_cull :: "SkRect \<Rightarrow> tracker_data \<Rightarrow> tracker_data" where
  "with_cull r d = (case d of Data3x3 m c \<Rightarrow> Data3x3 m r | Data4x4 m c \<Rightarrow> Data4x4 m r)"

(* map: display_list/display_list_matrix_clip_tracker.cc 21 21 Data4x4::is_4x4 *)
fun is_4x4 :: "tracker_data \<Rightarrow> bool" where
  "is_4x4 (Data3x3 m r) = False"
| "is_4x4 (Data4x4 m r) = True"

(* map: display_list/display_list_matrix_clip_tracker.cc 64 64 Data3x3::matrix_3x3 *)
fun data_matrix_3x3 :: "flow_geo \<Rightarrow> tracker_data \<Rightarrow> SkMatrix" where
  "data_matrix_3x3 gm (Data3x3 m r) = m"
| "data_matrix_3x3 gm (Data4x4 m r) = asM33 gm m"

(* map: display_list/display_list_matrix_clip_tracker.cc 65 65 Data3x3::matrix_4x4 *)
fun data_matrix_4x4 :: "tracker_data \<Rightarrow> SkM44" where
  "data_matrix_4x4 (Data3x3 m r) = m44_of_m33 m"
| "data_matrix_4x4 (Data4x4 m r) = m"

(* map: display_list/display_list_matrix_clip_tracker.cc fn Data4x4::has_perspective( *)
fun has_perspective :: "flow_geo \<Rightarrow> tracker_data \<Rightarrow> bool" where
  "has_perspective gm (Data3x3 m r) = m33_hasPerspective gm m"
| "has_perspective gm (Data4x4 m r) \<longleftrightarrow>
     \<not> float_eq (rc m 3 0) 0 \<or> \<not> float_eq (rc m 3 1) 0 \<or> \<not> float_eq (rc m 3 2) 0 \<or> \<not> float_eq (rc m 3 3) float_one"

text \<open>The flag says whether the matrix keeps rectangles rectangles.\<close>

(* map: display_list/display_list_matrix_clip_tracker.cc 86 88 Data3x3::map_rect *)
definition map_rect :: "flow_geo \<Rightarrow> SkRect \<Rightarrow> tracker_data \<Rightarrow> bool \<times> SkRect" where
  "map_rect gm r d = (let m = data_matrix_3x3 gm d in (m33_maps_to_rect gm m, m33_mapRect gm m r))"

(* map: display_list/display_list_matrix_clip_tracker.cc fn Data3x3::local_cull_rect( *)
definition data_local_cull_rect :: "flow_geo \<Rightarrow> tracker_data \<Rightarrow> SkRect" where
  "data_local_cull_rect gm d =
     (if rect_isEmpty gm (tracker_cull d) then tracker_cull d
      else case m33_invert gm (data_matrix_3x3 gm d) of
        None \<Rightarrow> SkRect_MakeEmpty
      | Some im \<Rightarrow> if has_perspective gm d then kMaxCullRect else m33_mapRect gm im (tracker_cull d))"

(* map: display_list/display_list_matrix_clip_tracker.cc fn DisplayListMatrixClipTracker::Data::content_culled( *)
definition data_content_culled :: "flow_geo \<Rightarrow> SkRect \<Rightarrow> tracker_data \<Rightarrow> bool" where
  "data_content_culled gm content d =
     (if rect_isEmpty gm (tracker_cull d) \<or> rect_isEmpty gm content then True
      else if has_perspective gm d then False
      else \<not> rect_intersects gm (snd (map_rect gm content d)) (tracker_cull d))"

definition data_map :: "(SkMatrix \<Rightarrow> SkMatrix) \<Rightarrow> (SkM44 \<Rightarrow> SkM44) \<Rightarrow> tracker_data \<Rightarrow> tracker_data" where
  "data_map f g d = (case d of Data3x3 m r \<Rightarrow> Data3x3 (f m) r | Data4x4 m r \<Rightarrow> Data4x4 (g m) r)"

(* map: display_list/display_list_matrix_clip_tracker.cc 68 70 Data3x3::translate *)
definition data_translate :: "skia \<Rightarrow> flow_geo \<Rightarrow> SkScalar \<Rightarrow> SkScalar \<Rightarrow> tracker_data \<Rightarrow> tracker_data" where
  "data_translate sk gm x y = data_map (m33_preTranslate gm x y) (preTranslate sk x y)"

(* map: display_list/display_list_matrix_clip_tracker.cc 71 71 Data3x3::scale *)
definition data_scale :: "skia \<Rightarrow> flow_geo \<Rightarrow> SkScalar \<Rightarrow> SkScalar \<Rightarrow> tracker_data \<Rightarrow> tracker_data" where
  "data_scale sk gm x y = data_map (m33_preScale gm x y) (preScale sk x y)"

(* map: display_list/display_list_matrix_clip_tracker.cc 72 72 Data3x3::skew *)
definition data_skew :: "skia \<Rightarrow> flow_geo \<Rightarrow> SkScalar \<Rightarrow> SkScalar \<Rightarrow> tracker_data \<Rightarrow> tracker_data" where
  "data_skew sk gm x y = data_map (m33_preSkew gm x y) (\<lambda>m. preConcat sk m (SkewMatrix sk x y))"

(* map: display_list/display_list_matrix_clip_tracker.cc 73 73 Data3x3::rotate *)
definition data_rotate :: "skia \<Rightarrow> flow_geo \<Rightarrow> SkScalar \<Rightarrow> tracker_data \<Rightarrow> tracker_data" where
  "data_rotate sk gm a = data_map (m33_preRotate gm a) (\<lambda>m. preConcat sk m (RotateDeg sk a))"

(* map: display_list/display_list_matrix_clip_tracker.cc 74 74 Data3x3::transform *)
definition data_transform33 :: "skia \<Rightarrow> flow_geo \<Rightarrow> SkMatrix \<Rightarrow> tracker_data \<Rightarrow> tracker_data" where
  "data_transform33 sk gm n = data_map (\<lambda>m. m33_preConcat gm m n) (\<lambda>m. preConcat sk m (m44_of_m33 n))"

(* map: display_list/display_list_matrix_clip_tracker.cc 78 78 Data3x3::setTransform *)
definition data_setTransform33 :: "SkMatrix \<Rightarrow> tracker_data \<Rightarrow> tracker_data" where
  "data_setTransform33 n = data_map (\<lambda>_. n) (\<lambda>_. m44_of_m33 n)"

(* map: display_list/display_list_matrix_clip_tracker.cc 82 82 Data3x3::setIdentity *)
definition data_setIdentity :: "tracker_data \<Rightarrow> tracker_data" where
  "data_setIdentity = data_map (\<lambda>_. SkMatrix_I) (\<lambda>_. SkM44_identity)"

text \<open>A 3x3 level must have been turned into a 4x4 one before.\<close>

(* map: display_list/display_list_matrix_clip_tracker.cc 75 77 Data3x3::transform *)
fun data_transform44 :: "skia \<Rightarrow> SkM44 \<Rightarrow> tracker_data \<Rightarrow> tracker_data res" where
  "data_transform44 sk n (Data3x3 m r) = Inl Check_Failed"
| "data_transform44 sk n (Data4x4 m r) = Inr (Data4x4 (preConcat sk m n) r)"

(* map: display_list/display_list_matrix_clip_tracker.cc 79 81 Data3x3::setTransform *)
fun data_setTransform44 :: "SkM44 \<Rightarrow> tracker_data \<Rightarrow> tracker_data res" where
  "data_setTransform44 n (Data3x3 m r) = Inl Check_Failed"
| "data_setTransform44 n (Data4x4 m r) = Inr (Data4x4 n r)"

section \<open>Clipping\<close>

definition float_minimum :: "SkScalar \<Rightarrow> SkScalar \<Rightarrow> SkScalar" where
  "float_minimum a b = (if float_less b a then b else a)"

text \<open>
  \<open>clip_difference\<close> takes away a rectangle of the device that spans the width or the height of the cull
  rectangle.
\<close>

(* map: display_list/display_list_matrix_clip_tracker.cc 255 283 DisplayListMatrixClipTracker::Data::clipBounds *)
definition clip_difference :: "SkRect \<Rightarrow> SkRect \<Rightarrow> SkRect" where
  "clip_difference rect cull =
     (if float_le (fLeft rect) (fLeft cull) \<and> float_le (fRight cull) (fRight rect) then
        let top = float_max (fBottom rect) (fTop cull);
            btm = float_minimum (fTop rect) (fBottom cull) in
        if float_less top btm then cull\<lparr>fTop := top, fBottom := btm\<rparr> else SkRect_MakeEmpty
      else if float_le (fTop rect) (fTop cull) \<and> float_le (fBottom cull) (fBottom rect) then
        let lft = float_max (fRight rect) (fLeft cull);
            rgt = float_minimum (fLeft rect) (fRight cull) in
        if float_less lft rgt then cull\<lparr>fLeft := lft, fRight := rgt\<rparr> else SkRect_MakeEmpty
      else cull)"

(* map: display_list/display_list_matrix_clip_tracker.cc fn DisplayListMatrixClipTracker::Data::clipBounds( *)
definition clipBounds :: "skia \<Rightarrow> flow_geo \<Rightarrow> SkRect \<Rightarrow> SkClipOp \<Rightarrow> bool \<Rightarrow> tracker_data \<Rightarrow> tracker_data" where
  "clipBounds sk gm clip clip_op is_aa d =
     (if rect_isEmpty gm (tracker_cull d) then d
      else if has_perspective gm d then d
      else case clip_op of
        kIntersectClip \<Rightarrow>
          if rect_isEmpty gm clip then with_cull SkRect_MakeEmpty d
          else
            let r = snd (map_rect gm clip d); r = (if is_aa then roundOut sk r else r) in
            with_cull (case rect_intersect sk (tracker_cull d) r of Some c \<Rightarrow> c | None \<Rightarrow> SkRect_MakeEmpty) d
      | kDifferenceClip \<Rightarrow>
          if rect_isEmpty gm clip \<or> \<not> rect_intersects gm clip (tracker_cull d) then d
          else
            let (stays_rect, r) = map_rect gm clip d in
            if \<not> stays_rect then d
            else if is_aa then
              let rounded = irect_round gm r in
              if irect_isEmpty gm rounded then d
              else with_cull (clip_difference (rect_of_irect gm rounded) (tracker_cull d)) d
            else with_cull (clip_difference r (tracker_cull d)) d)"

section \<open>The tracker\<close>

text \<open>The levels, the current one first.\<close>

(* map: display_list/display_list_matrix_clip_tracker.h 90 91 DisplayListMatrixClipTracker *)
type_synonym tracker = "tracker_data list"

(* map: display_list/display_list_matrix_clip_tracker.cc 103 108 DisplayListMatrixClipTracker::DisplayListMatrixClipTracker *)
definition tracker_new :: "SkRect \<Rightarrow> SkMatrix \<Rightarrow> tracker" where
  "tracker_new r m = [Data3x3 m r]"

(* map: display_list/display_list_matrix_clip_tracker.cc 110 119 DisplayListMatrixClipTracker::DisplayListMatrixClipTracker *)
definition tracker_new44 :: "flow_geo \<Rightarrow> SkRect \<Rightarrow> SkM44 \<Rightarrow> tracker" where
  "tracker_new44 gm r m = [if is_3x3 m then Data3x3 (asM33 gm m) r else Data4x4 m r]"

(* map: display_list/display_list_matrix_clip_tracker.cc fn DisplayListMatrixClipTracker::save( *)
fun tracker_save :: "tracker \<Rightarrow> tracker res" where
  "tracker_save [] = Inl Undefined"
| "tracker_save (d # ds) = Inr (d # d # ds)"

text \<open>Restoring the last level leaves the current one dangling.\<close>

(* map: display_list/display_list_matrix_clip_tracker.cc fn DisplayListMatrixClipTracker::restore( *)
fun tracker_restore :: "tracker \<Rightarrow> tracker res" where
  "tracker_restore (d # e # ds) = Inr (e # ds)"
| "tracker_restore _ = Inl Undefined"

(* map: display_list/display_list_matrix_clip_tracker.cc fn DisplayListMatrixClipTracker::restoreToCount( *)
fun tracker_restore_loop :: "nat \<Rightarrow> tracker \<Rightarrow> tracker" where
  "tracker_restore_loop n (d # ds) = (if n < Suc (length ds) then tracker_restore_loop n ds else d # ds)"
| "tracker_restore_loop n [] = []"

definition tracker_restoreToCount :: "int \<Rightarrow> tracker \<Rightarrow> tracker res" where
  "tracker_restoreToCount n t =
     bindr (ensure DCheck_Failed (n \<le> int (length t))) (\<lambda>_. Inr (tracker_restore_loop (nat (max n 1)) t))"

definition on_current :: "(tracker_data \<Rightarrow> tracker_data) \<Rightarrow> tracker \<Rightarrow> tracker res" where
  "on_current f t = (case t of [] \<Rightarrow> Inl Undefined | d # ds \<Rightarrow> Inr (f d # ds))"

text \<open>A 4x4 matrix that is not a 3x3 one turns the level into a 4x4 level first.\<close>

definition upgraded :: "tracker_data \<Rightarrow> tracker_data" where
  "upgraded d = Data4x4 (data_matrix_4x4 d) (tracker_cull d)"

(* map: display_list/display_list_matrix_clip_tracker.cc fn DisplayListMatrixClipTracker::transform( *)
definition tracker_transform44 :: "skia \<Rightarrow> flow_geo \<Rightarrow> SkM44 \<Rightarrow> tracker \<Rightarrow> tracker res" where
  "tracker_transform44 sk gm m t = (case t of
     [] \<Rightarrow> Inl Undefined
   | d # ds \<Rightarrow>
       if \<not> is_4x4 d \<and> is_3x3 m then Inr (data_transform33 sk gm (asM33 gm m) d # ds)
       else bindr (data_transform44 sk m (if \<not> is_4x4 d then upgraded d else d)) (\<lambda>d. Inr (d # ds)))"

(* map: display_list/display_list_matrix_clip_tracker.cc fn DisplayListMatrixClipTracker::setTransform( *)
definition tracker_setTransform44 :: "flow_geo \<Rightarrow> SkM44 \<Rightarrow> tracker \<Rightarrow> tracker res" where
  "tracker_setTransform44 gm m t = (case t of
     [] \<Rightarrow> Inl Undefined
   | d # ds \<Rightarrow>
       if \<not> is_4x4 d \<and> is_3x3 m then Inr (data_setTransform33 (asM33 gm m) d # ds)
       else bindr (data_setTransform44 m (if \<not> is_4x4 d then upgraded d else d)) (\<lambda>d. Inr (d # ds)))"

(* map: display_list/display_list_matrix_clip_tracker.cc fn DisplayListMatrixClipTracker::clipRRect( *)
definition tracker_clipRRect :: "skia \<Rightarrow> flow_geo \<Rightarrow> SkRRect \<Rightarrow> SkClipOp \<Rightarrow> bool \<Rightarrow> tracker \<Rightarrow> tracker res" where
  "tracker_clipRRect sk gm r clip_op is_aa t =
     (if clip_op = kDifferenceClip \<and> \<not> rrect_isRect sk r then Inr t
      else on_current (clipBounds sk gm (rrect_getBounds sk r) clip_op is_aa) t)"

(* map: display_list/display_list_matrix_clip_tracker.cc fn DisplayListMatrixClipTracker::clipPath( *)
definition tracker_clipPath :: "skia \<Rightarrow> flow_geo \<Rightarrow> SkPath \<Rightarrow> SkClipOp \<Rightarrow> bool \<Rightarrow> tracker \<Rightarrow> tracker res" where
  "tracker_clipPath sk gm p clip_op is_aa t = (case clip_op of
     kIntersectClip \<Rightarrow> on_current (clipBounds sk gm (path_getBounds sk p) clip_op is_aa) t
   | kDifferenceClip \<Rightarrow> (case path_isRect sk p of
         None \<Rightarrow> Inr t
       | Some r \<Rightarrow> on_current (clipBounds sk gm r clip_op is_aa) t))"

end
