(* ===== verification/Flow_State_Stack.thy ===== *)
theory Flow_State_Stack
  imports Dl_Clip_Tracker
begin

text \<open>
  \<open>flow/layers/layer_state_stack.h\<close> and \<open>.cc\<close>: the state that the layers of a frame inherit while they are visited.
  Transforms and clips go to a delegate at once; opacity, color filter and image filter are outstanding
  until a layer renders with them or a \<open>saveLayer\<close> does. The entries of the stack undo themselves when the scope
  of a \<open>MutatorContext\<close> or of an \<open>AutoRestore\<close> ends, and can be replayed into another delegate.
\<close>

section \<open>Rendering attributes\<close>

(* map: flow/layers/layer_state_stack.h 402 430 LayerStateStack::RenderingAttributes *)
record rendering_attributes =
  save_layer_bounds :: SkRect
  ra_opacity :: SkScalar
  ra_color_filter :: "DlColorFilter ptr"
  ra_image_filter :: "DlImageFilter ptr"

definition no_attributes :: rendering_attributes where
  "no_attributes =
     \<lparr>save_layer_bounds = \<lparr>fLeft = 0, fTop = 0, fRight = 0, fBottom = 0\<rparr>, ra_opacity = float_one, ra_color_filter = None,
      ra_image_filter = None\<rparr>"

(* map: flow/layers/layer_state_stack.h 424 429 LayerStateStack::RenderingAttributes::operator== *)
definition attributes_eq :: "rendering_attributes \<Rightarrow> rendering_attributes \<Rightarrow> bool res" where
  "attributes_eq a b =
     andr (Inr (rect_eq (save_layer_bounds a) (save_layer_bounds b)))
     (andr (Inr (float_eq (ra_opacity a) (ra_opacity b)))
     (andr (Equals color_filter_eq (ra_color_filter a) (ra_color_filter b))
       (Equals image_filter_eq (ra_image_filter a) (ra_image_filter b))))"

definition pointee :: "'a ptr \<Rightarrow> 'a option" where
  "pointee p = map_option snd p"

text \<open>Filling a paint; the pointer returned is null when nothing needs a paint.\<close>

(* map: display_list/display_list_paint.h 96 103 DlPaint::setOpacity *)
definition paint_setOpacity :: "flow_geo \<Rightarrow> SkScalar \<Rightarrow> DlPaint \<Rightarrow> DlPaint" where
  "paint_setOpacity gm x p =
     p\<lparr>paint_color := push_bit 24 (roundToAlpha gm x AND 0xFF) OR (paint_color p AND 0x00FFFFFF)\<rparr>"

(* map: flow/layers/layer_state_stack.cc 586 608 LayerStateStack::RenderingAttributes::fill *)
definition fill_paint :: "flow_geo \<Rightarrow> rendering_attributes \<Rightarrow> DlBlendMode \<Rightarrow> DlPaint \<Rightarrow> DlPaint \<times> bool" where
  "fill_paint gm a mode p =
     (let translucent = float_less (ra_opacity a) float_one;
          p = paint_setOpacity gm (if translucent then float_max (ra_opacity a) 0 else float_one) p;
          p = p\<lparr>colorFilter := pointee (ra_color_filter a)\<rparr>;
          p = p\<lparr>imageFilter := pointee (ra_image_filter a)\<rparr>;
          p = p\<lparr>blendMode := mode\<rparr> in
      (p, translucent \<or> ra_color_filter a \<noteq> None \<or> ra_image_filter a \<noteq> None \<or> mode \<noteq> kSrcOver))"

text \<open>The same for a paint of Skia, of which only what is filled in is kept.\<close>

record sk_paint =
  sk_alphaf :: SkScalar
  sk_colorFilter :: "DlColorFilter option"
  sk_imageFilter :: "DlImageFilter option"
  sk_blendMode :: DlBlendMode

(* map: flow/layers/layer_state_stack.cc 558 584 LayerStateStack::RenderingAttributes::fill *)
definition fill_sk_paint :: "rendering_attributes \<Rightarrow> DlBlendMode \<Rightarrow> sk_paint option" where
  "fill_sk_paint a mode =
     (let translucent = float_less (ra_opacity a) float_one in
      if translucent \<or> ra_color_filter a \<noteq> None \<or> ra_image_filter a \<noteq> None \<or> mode \<noteq> kSrcOver
      then Some \<lparr>sk_alphaf = (if translucent then float_max (ra_opacity a) 0 else float_one),
                 sk_colorFilter = pointee (ra_color_filter a), sk_imageFilter = pointee (ra_image_filter a), sk_blendMode = mode\<rparr>
      else None)"

section \<open>The delegate\<close>

text \<open>
  The calls that change a delegate, and the interface: those calls, the queries and the end of its use. A
  delegate is the state of everything that can be delegated to, with the one in force; \<open>delegate_canvas\<close> and
  \<open>delegate_builder\<close> are the addresses of the canvas and the builder, if it has one.
\<close>

(* map: flow/layers/layer_state_stack.h 482 497 LayerStateStack::Delegate *)
datatype delegate_call =
    DSave
  | DSaveLayer SkRect rendering_attributes DlBlendMode "DlImageFilter ptr"
  | DRestore
  | DTranslate SkScalar SkScalar
  | DTransformM44 SkM44
  | DTransform SkMatrix
  | DIntegralTransform
  | DClipRect SkRect bool
  | DClipRRect SkRRect bool
  | DClipPath SkPath bool
  | DCheckerboard SkRect

(* map: flow/layers/layer_state_stack.h 461 498 LayerStateStack::Delegate *)
record 'd delegate =
  delegate_call :: "delegate_call \<Rightarrow> 'd \<Rightarrow> 'd res"
  decommission :: "'d \<Rightarrow> 'd res"
  dummy_delegate :: "'d \<Rightarrow> 'd"
  delegate_canvas :: "'d \<Rightarrow> nat option"
  delegate_builder :: "'d \<Rightarrow> nat option"
  local_cull_rect :: "'d \<Rightarrow> SkRect res"
  device_cull_rect :: "'d \<Rightarrow> SkRect res"
  matrix_4x4 :: "'d \<Rightarrow> SkM44 res"
  matrix_3x3 :: "'d \<Rightarrow> SkMatrix res"
  content_culled :: "SkRect \<Rightarrow> 'd \<Rightarrow> bool res"

section \<open>The entries of the stack\<close>

(* map: flow/layers/layer_state_stack.h 432 445 LayerStateStack::StateEntry *)
datatype state_entry =
    SaveEntry
  | SaveLayerEntry SkRect DlBlendMode rendering_attributes
  | OpacityEntry SkRect SkScalar SkScalar SkRect
  | ImageFilterEntry SkRect "DlImageFilter ptr" "DlImageFilter ptr" SkRect
  | ColorFilterEntry SkRect "DlColorFilter ptr" "DlColorFilter ptr" SkRect
  | BackdropFilterEntry SkRect "DlImageFilter ptr" DlBlendMode rendering_attributes
  | TranslateEntry SkScalar SkScalar
  | TransformMatrixEntry SkMatrix
  | TransformM44Entry SkM44
  | IntegralTransformEntry
  | ClipRectEntry SkRect bool
  | ClipRRectEntry SkRRect bool
  | ClipPathEntry SkPath bool

(* map: flow/layers/layer_state_stack.h 504 509 LayerStateStack *)
record 'd state_stack =
  entries :: "state_entry list"
  the_delegate :: 'd
  outstanding :: rendering_attributes
  checkerboard :: bool

definition tell :: "'d delegate \<Rightarrow> delegate_call \<Rightarrow> 'd state_stack \<Rightarrow> 'd state_stack res" where
  "tell D c s = bindr (delegate_call D c (the_delegate s)) (\<lambda>d. Inr (s\<lparr>the_delegate := d\<rparr>))"

definition tell_layer ::
  "'d delegate \<Rightarrow> SkRect \<Rightarrow> DlBlendMode \<Rightarrow> DlImageFilter ptr \<Rightarrow> 'd state_stack \<Rightarrow> 'd state_stack res" where
  "tell_layer D bounds mode backdrop s =
     bindr (tell D (DSaveLayer bounds (outstanding s) mode backdrop) s) (\<lambda>s. Inr (s\<lparr>outstanding := no_attributes\<rparr>))"

definition end_layer :: "'d delegate \<Rightarrow> SkRect \<Rightarrow> rendering_attributes \<Rightarrow> 'd state_stack \<Rightarrow> 'd state_stack res" where
  "end_layer D bounds old s =
     bindr (if checkerboard s then tell D (DCheckerboard bounds) s else Inr s) (\<lambda>s.
     bindr (tell D DRestore s) (\<lambda>s. Inr (s\<lparr>outstanding := old\<rparr>)))"

(* map: flow/layers/layer_state_stack.cc 262 413 StateEntry::apply *)
fun apply_entry :: "flow_geo \<Rightarrow> 'd delegate \<Rightarrow> state_entry \<Rightarrow> 'd state_stack \<Rightarrow> 'd state_stack res" where
  "apply_entry gm D SaveEntry s = tell D DSave s"
| "apply_entry gm D (SaveLayerEntry b m old) s = tell_layer D b m None s"
| "apply_entry gm D (OpacityEntry b x ox ob) s =
     Inr (s\<lparr>outstanding := (outstanding s)\<lparr>save_layer_bounds := b, ra_opacity := f_mul gm (ra_opacity (outstanding s)) x\<rparr>\<rparr>)"
| "apply_entry gm D (ImageFilterEntry b f of' ob) s =
     Inr (s\<lparr>outstanding := (outstanding s)\<lparr>save_layer_bounds := b, ra_image_filter := f\<rparr>\<rparr>)"
| "apply_entry gm D (ColorFilterEntry b f of' ob) s =
     Inr (s\<lparr>outstanding := (outstanding s)\<lparr>save_layer_bounds := b, ra_color_filter := f\<rparr>\<rparr>)"
| "apply_entry gm D (BackdropFilterEntry b f m old) s = tell_layer D b m f s"
| "apply_entry gm D (TranslateEntry x y) s = tell D (DTranslate x y) s"
| "apply_entry gm D (TransformMatrixEntry m) s = tell D (DTransform m) s"
| "apply_entry gm D (TransformM44Entry m) s = tell D (DTransformM44 m) s"
| "apply_entry gm D IntegralTransformEntry s = tell D DIntegralTransform s"
| "apply_entry gm D (ClipRectEntry r aa) s = tell D (DClipRect r aa) s"
| "apply_entry gm D (ClipRRectEntry r aa) s = tell D (DClipRRect r aa) s"
| "apply_entry gm D (ClipPathEntry p aa) s = tell D (DClipPath p aa) s"

text \<open>A backdrop filter is not applied again in another delegate, but the layer for it is.\<close>

(* map: flow/layers/layer_state_stack.cc 415 424 BackdropFilterEntry::reapply *)
definition reapply_entry :: "flow_geo \<Rightarrow> 'd delegate \<Rightarrow> state_entry \<Rightarrow> 'd state_stack \<Rightarrow> 'd state_stack res" where
  "reapply_entry gm D e s = (case e of
     BackdropFilterEntry b f m old \<Rightarrow> apply_entry gm D (SaveLayerEntry b m old) s
   | _ \<Rightarrow> apply_entry gm D e s)"

(* map: flow/layers/layer_state_stack.cc 268 358 StateEntry::restore *)
fun restore_entry :: "'d delegate \<Rightarrow> state_entry \<Rightarrow> 'd state_stack \<Rightarrow> 'd state_stack res" where
  "restore_entry D SaveEntry s = tell D DRestore s"
| "restore_entry D (SaveLayerEntry b m old) s = end_layer D b old s"
| "restore_entry D (OpacityEntry b x ox ob) s =
     Inr (s\<lparr>outstanding := (outstanding s)\<lparr>save_layer_bounds := ob, ra_opacity := ox\<rparr>\<rparr>)"
| "restore_entry D (ImageFilterEntry b f of' ob) s =
     Inr (s\<lparr>outstanding := (outstanding s)\<lparr>save_layer_bounds := ob, ra_image_filter := of'\<rparr>\<rparr>)"
| "restore_entry D (ColorFilterEntry b f of' ob) s =
     Inr (s\<lparr>outstanding := (outstanding s)\<lparr>save_layer_bounds := ob, ra_color_filter := of'\<rparr>\<rparr>)"
| "restore_entry D (BackdropFilterEntry b f m old) s = end_layer D b old s"
| "restore_entry D _ s = Inr s"

(* map: flow/layers/layer_state_stack.cc 431 552 StateEntry::update_mutators *)
fun update_mutators :: "flow_geo \<Rightarrow> state_entry \<Rightarrow> mutators_stack \<Rightarrow> mutators_stack" where
  "update_mutators gm (OpacityEntry b x ox ob) ms = PushOpacity (uint (roundToAlpha gm x)) ms"
| "update_mutators gm (TranslateEntry x y) ms = PushTransform (SkMatrix_Translate x y) ms"
| "update_mutators gm (TransformMatrixEntry m) ms = PushTransform m ms"
| "update_mutators gm (TransformM44Entry m) ms = PushTransform (asM33 gm m) ms"
| "update_mutators gm (ClipRectEntry r aa) ms = PushClipRect r ms"
| "update_mutators gm (ClipRRectEntry r aa) ms = PushClipRRect r ms"
| "update_mutators gm (ClipPathEntry p aa) ms = PushClipPath p ms"
| "update_mutators gm _ ms = ms"

section \<open>The stack\<close>

(* map: flow/layers/layer_state_stack.cc 701 701 LayerStateStack::LayerStateStack *)
definition state_stack_new :: "'d \<Rightarrow> 'd state_stack" where
  "state_stack_new d = \<lparr>entries = [], the_delegate = d, outstanding = no_attributes, checkerboard = False\<rparr>"

definition push_entry :: "flow_geo \<Rightarrow> 'd delegate \<Rightarrow> state_entry \<Rightarrow> 'd state_stack \<Rightarrow> 'd state_stack res" where
  "push_entry gm D e s = apply_entry gm D e (s\<lparr>entries := entries s @ [e]\<rparr>)"

fun reapply_entries :: "flow_geo \<Rightarrow> 'd delegate \<Rightarrow> state_entry list \<Rightarrow> 'd state_stack \<Rightarrow> 'd state_stack res" where
  "reapply_entries gm D [] s = Inr s"
| "reapply_entries gm D (e # es) s = bindr (reapply_entry gm D e s) (reapply_entries gm D es)"

(* map: flow/layers/layer_state_stack.cc 746 758 LayerStateStack::reapply_all *)
definition reapply_all :: "flow_geo \<Rightarrow> 'd delegate \<Rightarrow> 'd state_stack \<Rightarrow> 'd state_stack res" where
  "reapply_all gm D s =
     bindr (reapply_entries gm D (entries s) (s\<lparr>outstanding := no_attributes\<rparr>)) (\<lambda>s'.
     bindr (attributes_eq (outstanding s) (outstanding s')) (\<lambda>same.
     bindr (ensure DCheck_Failed same) (\<lambda>_. Inr s')))"

(* map: flow/layers/layer_state_stack.cc 703 706 LayerStateStack::clear_delegate *)
definition clear_delegate :: "'d delegate \<Rightarrow> 'd state_stack \<Rightarrow> 'd state_stack res" where
  "clear_delegate D s = bindr (decommission D (the_delegate s)) (\<lambda>d. Inr (s\<lparr>the_delegate := dummy_delegate D d\<rparr>))"

text \<open>\<open>mk c\<close> is the delegate for the canvas or the builder at address \<open>c\<close>.\<close>

(* map: flow/layers/layer_state_stack.cc 708 719 LayerStateStack::set_delegate *)
definition set_delegate_canvas ::
  "flow_geo \<Rightarrow> 'd delegate \<Rightarrow> (nat \<Rightarrow> 'd \<Rightarrow> 'd) \<Rightarrow> nat option \<Rightarrow> 'd state_stack \<Rightarrow> 'd state_stack res" where
  "set_delegate_canvas gm D mk canvas s =
     (if canvas = delegate_canvas D (the_delegate s) then Inr s
      else bindr (clear_delegate D s) (\<lambda>s. case canvas of
        None \<Rightarrow> Inr s
      | Some c \<Rightarrow> reapply_all gm D (s\<lparr>the_delegate := mk c (the_delegate s)\<rparr>)))"

(* map: flow/layers/layer_state_stack.cc 721 732 LayerStateStack::set_delegate *)
definition set_delegate_builder ::
  "flow_geo \<Rightarrow> 'd delegate \<Rightarrow> (nat \<Rightarrow> 'd \<Rightarrow> 'd) \<Rightarrow> nat option \<Rightarrow> 'd state_stack \<Rightarrow> 'd state_stack res" where
  "set_delegate_builder gm D mk builder s =
     (if builder = delegate_builder D (the_delegate s) then Inr s
      else bindr (clear_delegate D s) (\<lambda>s. case builder of
        None \<Rightarrow> Inr s
      | Some c \<Rightarrow> reapply_all gm D (s\<lparr>the_delegate := mk c (the_delegate s)\<rparr>)))"

text \<open>A preroll delegate takes the place of the current one without clearing it.\<close>

(* map: flow/layers/layer_state_stack.cc 740 744 LayerStateStack::set_preroll_delegate *)
definition set_preroll_delegate ::
  "flow_geo \<Rightarrow> 'd delegate \<Rightarrow> ('d \<Rightarrow> 'd) \<Rightarrow> 'd state_stack \<Rightarrow> 'd state_stack res" where
  "set_preroll_delegate gm D mk s = reapply_all gm D (s\<lparr>the_delegate := mk (the_delegate s)\<rparr>)"

(* map: flow/layers/layer_state_stack.cc 760 764 LayerStateStack::fill *)
definition fill_mutators :: "flow_geo \<Rightarrow> 'd state_stack \<Rightarrow> mutators_stack \<Rightarrow> mutators_stack" where
  "fill_mutators gm s ms = foldl (\<lambda>ms e. update_mutators gm e ms) ms (entries s)"

(* map: flow/layers/layer_state_stack.cc 766 771 LayerStateStack::restore_to_count *)
function restore_to_count :: "'d delegate \<Rightarrow> nat \<Rightarrow> 'd state_stack \<Rightarrow> 'd state_stack res" where
  "restore_to_count D n s =
     (if n < length (entries s) then
        bindr (restore_entry D (last (entries s)) s) (\<lambda>s'.
        restore_to_count D n (s'\<lparr>entries := butlast (entries s)\<rparr>))
      else Inr s)"
  by pat_completeness auto
termination by (relation "measure (\<lambda>(D, n, s). length (entries s))") auto

declare restore_to_count.simps [simp del]

section \<open>Saving\<close>

(* map: flow/layers/layer_state_stack.cc 858 861 LayerStateStack::do_save *)
definition do_save :: "flow_geo \<Rightarrow> 'd delegate \<Rightarrow> 'd state_stack \<Rightarrow> 'd state_stack res" where
  "do_save gm D s = push_entry gm D SaveEntry s"

(* map: flow/layers/layer_state_stack.cc 863 867 LayerStateStack::save_layer *)
definition save_layer :: "flow_geo \<Rightarrow> 'd delegate \<Rightarrow> SkRect \<Rightarrow> 'd state_stack \<Rightarrow> 'd state_stack res" where
  "save_layer gm D bounds s = push_entry gm D (SaveLayerEntry bounds kSrcOver (outstanding s)) s"

definition kCallerCanApplyOpacity :: "32 word" where "kCallerCanApplyOpacity = 0x1"
definition kCallerCanApplyColorFilter :: "32 word" where "kCallerCanApplyColorFilter = 0x2"
definition kCallerCanApplyImageFilter :: "32 word" where "kCallerCanApplyImageFilter = 0x4"

(* map: flow/layers/layer_state_stack.h 257 262 LayerStateStack::kCallerCanApplyAnything *)
definition kCallerCanApplyAnything :: "32 word" where
  "kCallerCanApplyAnything = kCallerCanApplyOpacity OR kCallerCanApplyColorFilter OR kCallerCanApplyImageFilter"

(* map: flow/layers/layer_state_stack.cc 842 856 LayerStateStack::needs_save_layer *)
definition needs_save_layer :: "32 word \<Rightarrow> 'd state_stack \<Rightarrow> bool" where
  "needs_save_layer can s \<longleftrightarrow>
     float_less (ra_opacity (outstanding s)) float_one \<and> can AND kCallerCanApplyOpacity = 0 \<or>
     ra_image_filter (outstanding s) \<noteq> None \<and> can AND kCallerCanApplyImageFilter = 0 \<or>
     ra_color_filter (outstanding s) \<noteq> None \<and> can AND kCallerCanApplyColorFilter = 0"

definition save_outstanding :: "flow_geo \<Rightarrow> 'd delegate \<Rightarrow> 'd state_stack \<Rightarrow> 'd state_stack res" where
  "save_outstanding gm D s = save_layer gm D (save_layer_bounds (outstanding s)) s"

(* map: flow/layers/layer_state_stack.cc 869 876 LayerStateStack::maybe_save_layer_for_transform *)
definition maybe_save_layer_for_transform :: "flow_geo \<Rightarrow> 'd delegate \<Rightarrow> bool \<Rightarrow> 'd state_stack \<Rightarrow> 'd state_stack res" where
  "maybe_save_layer_for_transform gm D save_needed s =
     (if ra_image_filter (outstanding s) \<noteq> None then save_outstanding gm D s
      else if save_needed then do_save gm D s else Inr s)"

(* map: flow/layers/layer_state_stack.cc 878 887 LayerStateStack::maybe_save_layer_for_clip *)
definition maybe_save_layer_for_clip :: "flow_geo \<Rightarrow> 'd delegate \<Rightarrow> bool \<Rightarrow> 'd state_stack \<Rightarrow> 'd state_stack res" where
  "maybe_save_layer_for_clip gm D save_needed s =
     (if ra_image_filter (outstanding s) \<noteq> None then save_outstanding gm D s
      else if save_needed then do_save gm D s else Inr s)"

(* map: flow/layers/layer_state_stack.cc 889 893 LayerStateStack::maybe_save_layer *)
definition maybe_save_layer_flags :: "flow_geo \<Rightarrow> 'd delegate \<Rightarrow> 32 word \<Rightarrow> 'd state_stack \<Rightarrow> 'd state_stack res" where
  "maybe_save_layer_flags gm D can s = (if needs_save_layer can s then save_outstanding gm D s else Inr s)"

(* map: flow/layers/layer_state_stack.cc 895 899 LayerStateStack::maybe_save_layer *)
definition maybe_save_layer_opacity :: "flow_geo \<Rightarrow> 'd delegate \<Rightarrow> 'd state_stack \<Rightarrow> 'd state_stack res" where
  "maybe_save_layer_opacity gm D s =
     (if ra_image_filter (outstanding s) \<noteq> None then save_outstanding gm D s else Inr s)"

text \<open>
  Opacity commutes with the gamma filters and with a matrix that neither moves transparent black nor mixes
  alpha into the colors; no other filter says that it commutes.
\<close>

(* map: display_list/display_list_color_filter.h 158 162 DlMatrixColorFilter::can_commute_with_opacity *)
fun can_commute_with_opacity :: "DlColorFilter \<Rightarrow> bool" where
  "can_commute_with_opacity (MatrixColorFilter m) \<longleftrightarrow>
     float_eq (m ! 3) 0 \<and> float_eq (m ! 8) 0 \<and> float_eq (m ! 13) 0 \<and>
     float_eq (m ! 15) 0 \<and> float_eq (m ! 16) 0 \<and> float_eq (m ! 17) 0 \<and>
     (float_le 0 (m ! 18) \<and> float_le (m ! 18) float_one) \<and> float_eq (m ! 19) 0"
| "can_commute_with_opacity SrgbToLinearGammaColorFilter = True"
| "can_commute_with_opacity LinearToSrgbGammaColorFilter = True"
| "can_commute_with_opacity _ = False"

(* map: flow/layers/layer_state_stack.cc 901 909 LayerStateStack::maybe_save_layer *)
definition maybe_save_layer_color ::
  "flow_geo \<Rightarrow> 'd delegate \<Rightarrow> DlColorFilter \<Rightarrow> 'd state_stack \<Rightarrow> 'd state_stack res" where
  "maybe_save_layer_color gm D f s =
     (if ra_color_filter (outstanding s) \<noteq> None \<or> ra_image_filter (outstanding s) \<noteq> None \<or>
         float_less (ra_opacity (outstanding s)) float_one \<and> \<not> can_commute_with_opacity f
      then save_outstanding gm D s else Inr s)"

(* map: flow/layers/layer_state_stack.cc 911 917 LayerStateStack::maybe_save_layer *)
definition maybe_save_layer_image :: "flow_geo \<Rightarrow> 'd delegate \<Rightarrow> 'd state_stack \<Rightarrow> 'd state_stack res" where
  "maybe_save_layer_image gm D s =
     (if ra_image_filter (outstanding s) \<noteq> None then save_outstanding gm D s else Inr s)"

section \<open>Pushing\<close>

(* map: flow/layers/layer_state_stack.cc 773 778 LayerStateStack::push_opacity *)
definition push_opacity :: "flow_geo \<Rightarrow> 'd delegate \<Rightarrow> SkRect \<Rightarrow> SkScalar \<Rightarrow> 'd state_stack \<Rightarrow> 'd state_stack res" where
  "push_opacity gm D bounds x s =
     bindr (maybe_save_layer_opacity gm D s) (\<lambda>s.
     push_entry gm D (OpacityEntry bounds x (ra_opacity (outstanding s)) (save_layer_bounds (outstanding s))) s)"

(* map: flow/layers/layer_state_stack.cc 780 787 LayerStateStack::push_color_filter *)
definition push_color_filter ::
  "flow_geo \<Rightarrow> 'd delegate \<Rightarrow> SkRect \<Rightarrow> nat \<times> DlColorFilter \<Rightarrow> 'd state_stack \<Rightarrow> 'd state_stack res" where
  "push_color_filter gm D bounds f s =
     bindr (maybe_save_layer_color gm D (snd f) s) (\<lambda>s.
     push_entry gm D (ColorFilterEntry bounds (Some f) (ra_color_filter (outstanding s)) (save_layer_bounds (outstanding s))) s)"

(* map: flow/layers/layer_state_stack.cc 789 796 LayerStateStack::push_image_filter *)
definition push_image_filter ::
  "flow_geo \<Rightarrow> 'd delegate \<Rightarrow> SkRect \<Rightarrow> nat \<times> DlImageFilter \<Rightarrow> 'd state_stack \<Rightarrow> 'd state_stack res" where
  "push_image_filter gm D bounds f s =
     bindr (maybe_save_layer_image gm D s) (\<lambda>s.
     push_entry gm D (ImageFilterEntry bounds (Some f) (ra_image_filter (outstanding s)) (save_layer_bounds (outstanding s))) s)"

(* map: flow/layers/layer_state_stack.cc 798 805 LayerStateStack::push_backdrop *)
definition push_backdrop ::
  "flow_geo \<Rightarrow> 'd delegate \<Rightarrow> SkRect \<Rightarrow> DlImageFilter ptr \<Rightarrow> DlBlendMode \<Rightarrow> 'd state_stack \<Rightarrow> 'd state_stack res" where
  "push_backdrop gm D bounds f mode s = push_entry gm D (BackdropFilterEntry bounds f mode (outstanding s)) s"

section \<open>Mutator contexts\<close>

text \<open>The methods of a mutator context work on the stack and on the flag that a save is still needed.\<close>

(* map: flow/layers/layer_state_stack.h 184 255 LayerStateStack::MutatorContext *)
type_synonym 'd mutator_context = "bool \<times> 'd state_stack"

(* map: flow/layers/layer_state_stack.cc 616 618 MutatorContext::saveLayer *)
definition mutator_saveLayer :: "flow_geo \<Rightarrow> 'd delegate \<Rightarrow> SkRect \<Rightarrow> 'd mutator_context \<Rightarrow> 'd mutator_context res" where
  "mutator_saveLayer gm D bounds = (\<lambda>(needed, s). bindr (save_layer gm D bounds s) (\<lambda>s. Inr (needed, s)))"

(* map: flow/layers/layer_state_stack.cc 620 624 MutatorContext::applyOpacity *)
definition applyOpacity :: "flow_geo \<Rightarrow> 'd delegate \<Rightarrow> SkRect \<Rightarrow> SkScalar \<Rightarrow> 'd mutator_context \<Rightarrow> 'd mutator_context res" where
  "applyOpacity gm D bounds x = (\<lambda>(needed, s).
     if float_less x float_one then bindr (push_opacity gm D bounds x s) (\<lambda>s. Inr (needed, s)) else Inr (needed, s))"

(* map: flow/layers/layer_state_stack.cc 626 632 MutatorContext::applyImageFilter *)
definition applyImageFilter ::
  "flow_geo \<Rightarrow> 'd delegate \<Rightarrow> SkRect \<Rightarrow> DlImageFilter ptr \<Rightarrow> 'd mutator_context \<Rightarrow> 'd mutator_context res" where
  "applyImageFilter gm D bounds f = (\<lambda>(needed, s). case f of
     None \<Rightarrow> Inr (needed, s) | Some f \<Rightarrow> bindr (push_image_filter gm D bounds f s) (\<lambda>s. Inr (needed, s)))"

(* map: flow/layers/layer_state_stack.cc 634 640 MutatorContext::applyColorFilter *)
definition applyColorFilter ::
  "flow_geo \<Rightarrow> 'd delegate \<Rightarrow> SkRect \<Rightarrow> DlColorFilter ptr \<Rightarrow> 'd mutator_context \<Rightarrow> 'd mutator_context res" where
  "applyColorFilter gm D bounds f = (\<lambda>(needed, s). case f of
     None \<Rightarrow> Inr (needed, s) | Some f \<Rightarrow> bindr (push_color_filter gm D bounds f s) (\<lambda>s. Inr (needed, s)))"

(* map: flow/layers/layer_state_stack.cc 642 647 MutatorContext::applyBackdropFilter *)
definition applyBackdropFilter ::
  "flow_geo \<Rightarrow> 'd delegate \<Rightarrow> SkRect \<Rightarrow> DlImageFilter ptr \<Rightarrow> DlBlendMode \<Rightarrow> 'd mutator_context \<Rightarrow> 'd mutator_context res" where
  "applyBackdropFilter gm D bounds f mode = (\<lambda>(needed, s). bindr (push_backdrop gm D bounds f mode s) (\<lambda>s. Inr (needed, s)))"

definition push_transform_entry :: "flow_geo \<Rightarrow> 'd delegate \<Rightarrow> state_entry \<Rightarrow> 'd mutator_context \<Rightarrow> 'd mutator_context res" where
  "push_transform_entry gm D e = (\<lambda>(needed, s).
     bindr (maybe_save_layer_for_transform gm D needed s) (\<lambda>s. bindr (push_entry gm D e s) (\<lambda>s. Inr (False, s))))"

definition push_clip_entry :: "flow_geo \<Rightarrow> 'd delegate \<Rightarrow> state_entry \<Rightarrow> 'd mutator_context \<Rightarrow> 'd mutator_context res" where
  "push_clip_entry gm D e = (\<lambda>(needed, s).
     bindr (maybe_save_layer_for_clip gm D needed s) (\<lambda>s. bindr (push_entry gm D e s) (\<lambda>s. Inr (False, s))))"

(* map: flow/layers/layer_state_stack.cc 649 655 MutatorContext::translate *)
definition mutator_translate ::
  "flow_geo \<Rightarrow> 'd delegate \<Rightarrow> SkScalar \<Rightarrow> SkScalar \<Rightarrow> 'd mutator_context \<Rightarrow> 'd mutator_context res" where
  "mutator_translate gm D x y c =
     (if \<not> (float_eq x 0 \<and> float_eq y 0) then push_transform_entry gm D (TranslateEntry x y) c else Inr c)"

(* map: flow/layers/layer_state_stack.cc 657 665 MutatorContext::transform *)
definition mutator_transform :: "flow_geo \<Rightarrow> 'd delegate \<Rightarrow> SkMatrix \<Rightarrow> 'd mutator_context \<Rightarrow> 'd mutator_context res" where
  "mutator_transform gm D m c =
     (if m33_isTranslate gm m then mutator_translate gm D (m ! 2) (m ! 5) c
      else if \<not> m33_isIdentity gm m then push_transform_entry gm D (TransformMatrixEntry m) c
      else Inr c)"

(* map: flow/layers/layer_state_stack.cc 667 671 MutatorContext::transform *)
definition mutator_transform44 :: "flow_geo \<Rightarrow> 'd delegate \<Rightarrow> SkM44 \<Rightarrow> 'd mutator_context \<Rightarrow> 'd mutator_context res" where
  "mutator_transform44 gm D m = push_transform_entry gm D (TransformM44Entry m)"

(* map: flow/layers/layer_state_stack.cc 673 677 MutatorContext::integralTransform *)
definition mutator_integralTransform :: "flow_geo \<Rightarrow> 'd delegate \<Rightarrow> 'd mutator_context \<Rightarrow> 'd mutator_context res" where
  "mutator_integralTransform gm D = push_transform_entry gm D IntegralTransformEntry"

(* map: flow/layers/layer_state_stack.cc 679 683 MutatorContext::clipRect *)
definition mutator_clipRect :: "flow_geo \<Rightarrow> 'd delegate \<Rightarrow> SkRect \<Rightarrow> bool \<Rightarrow> 'd mutator_context \<Rightarrow> 'd mutator_context res" where
  "mutator_clipRect gm D r aa = push_clip_entry gm D (ClipRectEntry r aa)"

(* map: flow/layers/layer_state_stack.cc 685 689 MutatorContext::clipRRect *)
definition mutator_clipRRect :: "flow_geo \<Rightarrow> 'd delegate \<Rightarrow> SkRRect \<Rightarrow> bool \<Rightarrow> 'd mutator_context \<Rightarrow> 'd mutator_context res" where
  "mutator_clipRRect gm D r aa = push_clip_entry gm D (ClipRRectEntry r aa)"

(* map: flow/layers/layer_state_stack.cc 691 695 MutatorContext::clipPath *)
definition mutator_clipPath :: "flow_geo \<Rightarrow> 'd delegate \<Rightarrow> SkPath \<Rightarrow> bool \<Rightarrow> 'd mutator_context \<Rightarrow> 'd mutator_context res" where
  "mutator_clipPath gm D p aa = push_clip_entry gm D (ClipPathEntry p aa)"

section \<open>Scopes\<close>

text \<open>
  What happens in the scope of a mutator context or of \<open>applyState\<close>; on leaving it the stack is restored to the
  count that it had on entry.
\<close>

definition in_scope ::
  "'d delegate \<Rightarrow> ('d state_stack \<Rightarrow> ('r \<times> 'd state_stack) res) \<Rightarrow> 'd state_stack \<Rightarrow> ('r \<times> 'd state_stack) res" where
  "in_scope D body s =
     bindr (body s) (\<lambda>(r, s'). bindr (restore_to_count D (length (entries s)) s') (\<lambda>s''. Inr (r, s'')))"

(* map: flow/layers/layer_state_stack.h 165 186 LayerStateStack::AutoRestore::AutoRestore *)
definition applyState :: "flow_geo \<Rightarrow> 'd delegate \<Rightarrow> SkRect \<Rightarrow> 32 word \<Rightarrow> 'd state_stack \<Rightarrow> 'd state_stack res" where
  "applyState gm D bounds can s = (if needs_save_layer can s then save_layer gm D bounds s else Inr s)"

(* map: flow/layers/layer_state_stack.h 336 336 LayerStateStack::painting_is_nop *)
definition painting_is_nop :: "'d state_stack \<Rightarrow> bool" where
  "painting_is_nop s \<longleftrightarrow> float_le (ra_opacity (outstanding s)) 0"

end
