(* ===== verification/Flow_Delegates.thy ===== *)
theory Flow_Delegates
  imports Flow_State_Stack
begin

text \<open>
  The delegates of \<open>flow/layers/layer_state_stack.cc\<close>: none, a canvas of Skia, a display list builder, and the tracker
  of transforms and clips that is used during \<open>Preroll\<close>; with \<open>RasterCacheUtil\<close> of \<open>flow/raster_cache_util.h\<close>, which aligns
  a transform to the pixels, and the checkerboard of \<open>flow/paint_utils.cc\<close>. Skia's canvas is a parameter.
\<close>

section \<open>Transforms aligned to pixels\<close>

(* map: flow/raster_cache_util.h 80 90 RasterCacheUtil::GetIntegralTransCTM *)
definition GetIntegralTransCTM33 :: "flow_geo \<Rightarrow> SkMatrix \<Rightarrow> SkMatrix" where
  "GetIntegralTransCTM33 gm ctm =
     (if \<not> m33_isScaleTranslate gm ctm then ctm
      else ctm[2 := roundToScalar gm (ctm ! 2), 5 := roundToScalar gm (ctm ! 5)])"

(* map: flow/raster_cache_util.h 105 130 RasterCacheUtil::GetIntegralTransCTM *)
definition GetIntegralTransCTM44 :: "flow_geo \<Rightarrow> SkM44 \<Rightarrow> SkM44" where
  "GetIntegralTransCTM44 gm ctm =
     (if \<not> float_eq (rc ctm 0 1) 0 \<or> \<not> float_eq (rc ctm 0 2) 0 then ctm
      else if \<not> float_eq (rc ctm 1 0) 0 \<or> \<not> float_eq (rc ctm 1 2) 0 then ctm
      else if \<not> float_eq (rc ctm 3 0) 0 \<or> \<not> float_eq (rc ctm 3 1) 0 \<or> \<not> float_eq (rc ctm 3 2) 0 \<or>
              \<not> float_eq (rc ctm 3 3) float_one then ctm
      else ctm[3 := roundToScalar gm (rc ctm 0 3), 7 := roundToScalar gm (rc ctm 1 3)])"

(* map: flow/raster_cache_util.h 38 51 RasterCacheUtil::CanRasterizeRect *)
definition CanRasterizeRect :: "skia \<Rightarrow> flow_geo \<Rightarrow> SkRect \<Rightarrow> bool" where
  "CanRasterizeRect sk gm r = (if rect_isEmpty gm r then False else if \<not> rect_isFinite sk r then False else True)"

(* map: flow/raster_cache_util.h 53 57 RasterCacheUtil::GetDeviceBounds *)
definition GetDeviceBounds :: "flow_geo \<Rightarrow> SkRect \<Rightarrow> SkMatrix \<Rightarrow> SkRect" where
  "GetDeviceBounds gm r ctm = m33_mapRect gm ctm r"

(* map: flow/raster_cache_util.h 59 65 RasterCacheUtil::GetRoundedOutDeviceBounds *)
definition GetRoundedOutDeviceBounds :: "skia \<Rightarrow> flow_geo \<Rightarrow> SkRect \<Rightarrow> SkMatrix \<Rightarrow> SkRect" where
  "GetRoundedOutDeviceBounds sk gm r ctm = roundOut sk (m33_mapRect gm ctm r)"

section \<open>Skia's canvas\<close>

record 'c sk_canvas =
  sc_getSaveCount :: "'c \<Rightarrow> int"
  sc_restoreToCount :: "int \<Rightarrow> 'c \<Rightarrow> 'c"
  sc_getLocalClipBounds :: "'c \<Rightarrow> SkRect"
  sc_getDeviceClipBounds :: "'c \<Rightarrow> SkIRect"
  sc_getLocalToDevice :: "'c \<Rightarrow> SkM44"
  sc_quickReject :: "SkRect \<Rightarrow> 'c \<Rightarrow> bool"
  sc_save :: "'c \<Rightarrow> 'c"
  sc_saveLayer :: "SkRect \<Rightarrow> sk_paint option \<Rightarrow> DlImageFilter option \<Rightarrow> 'c \<Rightarrow> 'c"
  sc_restore :: "'c \<Rightarrow> 'c"
  sc_translate :: "SkScalar \<Rightarrow> SkScalar \<Rightarrow> 'c \<Rightarrow> 'c"
  sc_concat44 :: "SkM44 \<Rightarrow> 'c \<Rightarrow> 'c"
  sc_concat :: "SkMatrix \<Rightarrow> 'c \<Rightarrow> 'c"
  sc_setMatrix :: "SkM44 \<Rightarrow> 'c \<Rightarrow> 'c"
  sc_clipRect :: "SkRect \<Rightarrow> bool \<Rightarrow> 'c \<Rightarrow> 'c"
  sc_clipRRect :: "SkRRect \<Rightarrow> bool \<Rightarrow> 'c \<Rightarrow> 'c"
  sc_clipPath :: "SkPath \<Rightarrow> bool \<Rightarrow> 'c \<Rightarrow> 'c"
  sc_checkerboard :: "SkRect \<Rightarrow> 'c \<Rightarrow> 'c"

section \<open>The calls of a canvas, a builder and a tracker\<close>

text \<open>A checkerboard has a random color and a shader of Skia: both are parameters.\<close>

(* map: flow/paint_utils.cc 64 87 DrawCheckerboard *)
definition builder_checkerboard :: "skia \<Rightarrow> DlColor \<Rightarrow> DlColorSource \<Rightarrow> SkRect \<Rightarrow> builder \<Rightarrow> builder res" where
  "builder_checkerboard sk color shader r b =
     bindr (clipRect sk r kIntersectClip False (save b)) (\<lambda>b.
     bindr (drawPaint_paint sk (DlPaint_default\<lparr>colorSource := Some shader\<rparr>) b) (\<lambda>b.
     bindr (restore sk b) (\<lambda>b.
     drawRect_paint sk r (DlPaint_default\<lparr>strokeWidth := 0x41000000, paint_color := (color AND 0x00FFFFFF) OR 0xFF000000,
       drawStyle := kStroke\<rparr>) b)))"

(* map: flow/layers/layer_state_stack.cc 161 193 DlBuilderDelegate *)
fun builder_delegate_call ::
  "skia \<Rightarrow> flow_geo \<Rightarrow> DlColor \<times> DlColorSource \<Rightarrow> delegate_call \<Rightarrow> builder \<Rightarrow> builder res" where
  "builder_delegate_call sk gm cb DSave b = Inr (save b)"
| "builder_delegate_call sk gm cb (DSaveLayer bounds attributes mode backdrop) b =
     (case fill_paint gm attributes mode DlPaint_default of (p, needed) \<Rightarrow>
        saveLayer_paint sk (Some bounds) (if needed then Some p else None) (pointee backdrop) b)"
| "builder_delegate_call sk gm cb DRestore b = restore sk b"
| "builder_delegate_call sk gm cb (DTranslate x y) b = translate sk x y b"
| "builder_delegate_call sk gm cb (DTransformM44 m) b = transformFullPerspective sk m b"
| "builder_delegate_call sk gm cb (DTransform m) b = transformFullPerspective sk (m44_of_m33 m) b"
| "builder_delegate_call sk gm cb DIntegralTransform b =
     (let m = GetIntegralTransCTM44 gm (layer_matrix (current_layer b)) in
      bindr (transformReset sk b) (transformFullPerspective sk m))"
| "builder_delegate_call sk gm cb (DClipRect r aa) b = clipRect sk r kIntersectClip aa b"
| "builder_delegate_call sk gm cb (DClipRRect r aa) b = clipRRect sk r kIntersectClip aa b"
| "builder_delegate_call sk gm cb (DClipPath p aa) b = clipPath sk p kIntersectClip aa b"
| "builder_delegate_call sk gm cb (DCheckerboard r) b = builder_checkerboard sk (fst cb) (snd cb) r b"

(* map: flow/layers/layer_state_stack.cc 97 128 SkCanvasDelegate *)
fun canvas_delegate_call :: "flow_geo \<Rightarrow> 'c sk_canvas \<Rightarrow> delegate_call \<Rightarrow> 'c \<Rightarrow> 'c" where
  "canvas_delegate_call gm K DSave c = sc_save K c"
| "canvas_delegate_call gm K (DSaveLayer bounds attributes mode backdrop) c =
     sc_saveLayer K bounds (fill_sk_paint attributes mode) (pointee backdrop) c"
| "canvas_delegate_call gm K DRestore c = sc_restore K c"
| "canvas_delegate_call gm K (DTranslate x y) c = sc_translate K x y c"
| "canvas_delegate_call gm K (DTransformM44 m) c = sc_concat44 K m c"
| "canvas_delegate_call gm K (DTransform m) c = sc_concat K m c"
| "canvas_delegate_call gm K DIntegralTransform c =
     sc_setMatrix K (GetIntegralTransCTM44 gm (sc_getLocalToDevice K c)) c"
| "canvas_delegate_call gm K (DClipRect r aa) c = sc_clipRect K r aa c"
| "canvas_delegate_call gm K (DClipRRect r aa) c = sc_clipRRect K r aa c"
| "canvas_delegate_call gm K (DClipPath p aa) c = sc_clipPath K p aa c"
| "canvas_delegate_call gm K (DCheckerboard r) c = sc_checkerboard K r c"

(* map: flow/layers/layer_state_stack.cc 234 242 PrerollDelegate::integralTransform *)
definition tracker_integral :: "flow_geo \<Rightarrow> tracker \<Rightarrow> tracker res" where
  "tracker_integral gm t = (case t of
     [] \<Rightarrow> Inl Undefined
   | d # ds \<Rightarrow>
       if is_4x4 d then tracker_setTransform44 gm (GetIntegralTransCTM44 gm (data_matrix_4x4 d)) t
       else on_current (data_setTransform33 (GetIntegralTransCTM33 gm (data_matrix_3x3 gm d))) t)"

(* map: flow/layers/layer_state_stack.cc 218 252 PrerollDelegate *)
fun tracker_delegate_call :: "skia \<Rightarrow> flow_geo \<Rightarrow> delegate_call \<Rightarrow> tracker \<Rightarrow> tracker res" where
  "tracker_delegate_call sk gm DSave t = tracker_save t"
| "tracker_delegate_call sk gm (DSaveLayer bounds attributes mode backdrop) t = tracker_save t"
| "tracker_delegate_call sk gm DRestore t = tracker_restore t"
| "tracker_delegate_call sk gm (DTranslate x y) t = on_current (data_translate sk gm x y) t"
| "tracker_delegate_call sk gm (DTransformM44 m) t = tracker_transform44 sk gm m t"
| "tracker_delegate_call sk gm (DTransform m) t = on_current (data_transform33 sk gm m) t"
| "tracker_delegate_call sk gm DIntegralTransform t = tracker_integral gm t"
| "tracker_delegate_call sk gm (DClipRect r aa) t = on_current (clipBounds sk gm r kIntersectClip aa) t"
| "tracker_delegate_call sk gm (DClipRRect r aa) t = tracker_clipRRect sk gm r kIntersectClip aa t"
| "tracker_delegate_call sk gm (DClipPath p aa) t = tracker_clipPath sk gm p kIntersectClip aa t"
| "tracker_delegate_call sk gm (DCheckerboard r) t = Inr t"

section \<open>The delegate in force\<close>

text \<open>
  All canvases and builders, by address, and which of them is delegated to; a canvas and a builder with the
  depth that they had when they became the delegate.
\<close>

(* map: flow/layers/layer_state_stack.h 507 507 LayerStateStack::delegate_ *)
datatype active_delegate =
    DummyDelegate
  | SkCanvasDelegate nat int
  | DlBuilderDelegate nat int
  | PrerollDelegate tracker

record 'c delegates =
  active :: active_delegate
  canvases :: "nat \<Rightarrow> 'c"
  builders :: "nat \<Rightarrow> builder"

definition on_builder :: "nat \<Rightarrow> (builder \<Rightarrow> builder res) \<Rightarrow> 'c delegates \<Rightarrow> 'c delegates res" where
  "on_builder a f w = bindr (f (builders w a)) (\<lambda>b. Inr (w\<lparr>builders := (builders w)(a := b)\<rparr>))"

definition on_canvas :: "nat \<Rightarrow> ('c \<Rightarrow> 'c) \<Rightarrow> 'c delegates \<Rightarrow> 'c delegates" where
  "on_canvas a f w = w\<lparr>canvases := (canvases w)(a := f (canvases w a))\<rparr>"

definition engine_call ::
  "skia \<Rightarrow> flow_geo \<Rightarrow> 'c sk_canvas \<Rightarrow> DlColor \<times> DlColorSource \<Rightarrow> delegate_call \<Rightarrow> 'c delegates \<Rightarrow> 'c delegates res" where
  "engine_call sk gm K cb call w = (case active w of
     DummyDelegate \<Rightarrow> Inr w
   | SkCanvasDelegate a n \<Rightarrow> Inr (on_canvas a (canvas_delegate_call gm K call) w)
   | DlBuilderDelegate a n \<Rightarrow> on_builder a (builder_delegate_call sk gm cb call) w
   | PrerollDelegate t \<Rightarrow> bindr (tracker_delegate_call sk gm call t) (\<lambda>t. Inr (w\<lparr>active := PrerollDelegate t\<rparr>)))"

(* map: flow/layers/layer_state_stack.cc 80 80 SkCanvasDelegate::decommission *)
definition engine_decommission :: "skia \<Rightarrow> 'c sk_canvas \<Rightarrow> 'c delegates \<Rightarrow> 'c delegates res" where
  "engine_decommission sk K w = (case active w of
     SkCanvasDelegate a n \<Rightarrow> Inr (on_canvas a (sc_restoreToCount K n) w)
   | DlBuilderDelegate a n \<Rightarrow> on_builder a (restoreToCount sk n) w
   | _ \<Rightarrow> Inr w)"

text \<open>A query of the dummy delegate fails its check.\<close>

definition ask ::
  "('c \<Rightarrow> 'r) \<Rightarrow> (builder \<Rightarrow> 'r) \<Rightarrow> (tracker_data \<Rightarrow> 'r) \<Rightarrow> 'c delegates \<Rightarrow> 'r res" where
  "ask f g h w = (case active w of
     DummyDelegate \<Rightarrow> Inl DCheck_Failed
   | SkCanvasDelegate a n \<Rightarrow> Inr (f (canvases w a))
   | DlBuilderDelegate a n \<Rightarrow> Inr (g (builders w a))
   | PrerollDelegate t \<Rightarrow> (case t of [] \<Rightarrow> Inl Undefined | d # ds \<Rightarrow> Inr (h d)))"

(* map: flow/layers/layer_state_stack.cc 24 73 DummyDelegate *)
definition engine_delegate ::
  "skia \<Rightarrow> flow_geo \<Rightarrow> 'c sk_canvas \<Rightarrow> DlColor \<times> DlColorSource \<Rightarrow> 'c delegates delegate" where
  "engine_delegate sk gm K cb =
     \<lparr>delegate_call = engine_call sk gm K cb,
      decommission = engine_decommission sk K,
      dummy_delegate = (\<lambda>w. w\<lparr>active := DummyDelegate\<rparr>),
      delegate_canvas = (\<lambda>w. case active w of SkCanvasDelegate a n \<Rightarrow> Some a | _ \<Rightarrow> None),
      delegate_builder = (\<lambda>w. case active w of DlBuilderDelegate a n \<Rightarrow> Some a | _ \<Rightarrow> None),
      local_cull_rect = ask (sc_getLocalClipBounds K) (getLocalClipBounds sk) (data_local_cull_rect gm),
      device_cull_rect = ask (\<lambda>c. rect_of_irect gm (sc_getDeviceClipBounds K c)) (\<lambda>b. clip_bounds (current_layer b)) tracker_cull,
      matrix_4x4 = ask (sc_getLocalToDevice K) (\<lambda>b. layer_matrix (current_layer b)) data_matrix_4x4,
      matrix_3x3 = ask (\<lambda>c. asM33 gm (sc_getLocalToDevice K c)) (\<lambda>b. asM33 gm (layer_matrix (current_layer b))) (data_matrix_3x3 gm),
      content_culled = (\<lambda>r. ask (sc_quickReject K r) (quickReject sk (rect_isEmpty gm) (rect_intersects gm) r)
        (data_content_culled gm r))\<rparr>"

text \<open>The delegates made for a canvas, a builder and a preroll.\<close>

(* map: flow/layers/layer_state_stack.cc 77 78 SkCanvasDelegate::SkCanvasDelegate *)
definition delegate_for_canvas :: "'c sk_canvas \<Rightarrow> nat \<Rightarrow> 'c delegates \<Rightarrow> 'c delegates" where
  "delegate_for_canvas K a w = w\<lparr>active := SkCanvasDelegate a (sc_getSaveCount K (canvases w a))\<rparr>"

(* map: flow/layers/layer_state_stack.cc 139 140 DlBuilderDelegate::DlBuilderDelegate *)
definition delegate_for_builder :: "nat \<Rightarrow> 'c delegates \<Rightarrow> 'c delegates" where
  "delegate_for_builder a w = w\<lparr>active := DlBuilderDelegate a (int (length (layer_stack (builders w a))))\<rparr>"

(* map: flow/layers/layer_state_stack.cc 203 204 PrerollDelegate::PrerollDelegate *)
definition delegate_for_preroll :: "SkRect \<Rightarrow> SkMatrix \<Rightarrow> 'c delegates \<Rightarrow> 'c delegates" where
  "delegate_for_preroll r m w = w\<lparr>active := PrerollDelegate (tracker_new r m)\<rparr>"

end
