(* ===== verification/Flow_Raster_Cache.thy ===== *)
theory Flow_Raster_Cache
  imports Flow_Delegates
begin

text \<open>
  \<open>flow/raster_cache_key.h\<close> and \<open>flow/raster_cache.h\<close> with \<open>.cc\<close>: rasterized layers and display lists, kept from frame to
  frame. An entry is looked up by what it shows and the matrix it is shown under, less its translation. What was
  not met in a frame is evicted in it; only so many display lists are rasterized in one frame. Images are of a
  type of their own, made by Skia.
\<close>

section \<open>Keys\<close>

(* map: flow/raster_cache_key.h 21 21 RasterCacheKeyType *)
datatype RasterCacheKeyType = kLayerKey | kDisplayListKey | kLayerChildrenKey

(* map: flow/raster_cache_key.h 23 40 RasterCacheKeyID *)
datatype raster_key_id =
  RasterCacheKeyID (key_unique_id: "64 word") (key_type: RasterCacheKeyType) (key_child_ids: "raster_key_id list")

text \<open>\<open>h\<close> and \<open>ht\<close> are the \<open>std::hash\<close> of a number and of a type of keys.\<close>

(* map: fml/hash_combine.h 13 15 HashCombineSeed *)
definition HashCombineSeed :: "64 word \<Rightarrow> 64 word \<Rightarrow> 64 word" where
  "HashCombineSeed hash seed = seed XOR (hash + 0x9e3779b9 + push_bit 6 seed + drop_bit 2 seed)"

(* map: flow/raster_cache_key.h 45 57 RasterCacheKeyID::GetHash *)
fun GetHash :: "(64 word \<Rightarrow> 64 word) \<Rightarrow> (RasterCacheKeyType \<Rightarrow> 64 word) \<Rightarrow> raster_key_id \<Rightarrow> 64 word" where
  "GetHash h ht (RasterCacheKeyID u t cs) =
     fold (\<lambda>c seed. HashCombineSeed (h (GetHash h ht c)) seed) cs
       (HashCombineSeed (ht t) (HashCombineSeed (h u) 0xdabbad00))"

(* map: flow/raster_cache_key.h 59 62 RasterCacheKeyID::operator== *)
fun key_id_eq :: "(64 word \<Rightarrow> 64 word) \<Rightarrow> (RasterCacheKeyType \<Rightarrow> 64 word) \<Rightarrow> raster_key_id \<Rightarrow> raster_key_id \<Rightarrow> bool" where
  "key_id_eq h ht (RasterCacheKeyID u t cs) (RasterCacheKeyID v t' ds) \<longleftrightarrow>
     u = v \<and> t = t' \<and> GetHash h ht (RasterCacheKeyID u t cs) = GetHash h ht (RasterCacheKeyID v t' ds) \<and>
     list_all2 (key_id_eq h ht) cs ds"

(* map: flow/raster_cache_key.h 75 75 RasterCacheKeyKind *)
datatype RasterCacheKeyKind = kLayerMetrics | kDisplayListMetrics

(* map: flow/raster_cache_key.h 77 127 RasterCacheKey *)
record raster_key =
  key_id :: raster_key_id
  key_matrix :: SkMatrix

(* map: flow/raster_cache_key.h 84 88 RasterCacheKey::RasterCacheKey *)
definition RasterCacheKey :: "raster_key_id \<Rightarrow> SkMatrix \<Rightarrow> raster_key" where
  "RasterCacheKey i ctm = \<lparr>key_id = i, key_matrix = ctm[2 := 0, 5 := 0]\<rparr>"

(* map: flow/raster_cache_key.h 93 101 RasterCacheKey::kind *)
definition key_kind :: "raster_key \<Rightarrow> RasterCacheKeyKind" where
  "key_kind k = (case key_type (key_id k) of
     kDisplayListKey \<Rightarrow> kDisplayListMetrics | kLayerKey \<Rightarrow> kLayerMetrics | kLayerChildrenKey \<Rightarrow> kLayerMetrics)"

text \<open>Equality of the identifiers is that of the data, whatever the hashes are; the matrices compare as floats.\<close>

(* map: flow/raster_cache_key.h 109 114 RasterCacheKey::Equal *)
definition raster_key_eq ::
  "(64 word \<Rightarrow> 64 word) \<times> (RasterCacheKeyType \<Rightarrow> 64 word) \<Rightarrow> raster_key \<Rightarrow> raster_key \<Rightarrow> bool" where
  "raster_key_eq H k l \<longleftrightarrow> key_id_eq (fst H) (snd H) (key_id k) (key_id l) \<and> matrix_eq (key_matrix k) (key_matrix l)"

lemma key_id_eq_iff: "key_id_eq h ht i j \<longleftrightarrow> i = j"
proof (induction i arbitrary: j)
  case (RasterCacheKeyID u t cs)
  obtain v t' ds where j: "j = RasterCacheKeyID v t' ds" by (cases j)
  have "list_all2 (key_id_eq h ht) cs ds \<longleftrightarrow> cs = ds"
    using RasterCacheKeyID.IH
  proof (induction cs arbitrary: ds)
    case (Cons c cs)
    then show ?case by (cases ds) auto
  qed auto
  with j show ?case by auto
qed

section \<open>Entries\<close>

(* map: flow/raster_cache.h 30 52 RasterCacheResult *)
record 'i raster_result =
  result_image :: "'i option"
  result_logical_rect :: SkRect

record 'i image_ops =
  image_byte_size :: "'i \<Rightarrow> 64 word"
  image_fits :: "SkRect \<Rightarrow> 'i \<Rightarrow> bool"

(* map: flow/raster_cache.h 44 46 RasterCacheResult::image_bytes *)
definition image_bytes :: "'i image_ops \<Rightarrow> 'i raster_result \<Rightarrow> 64 word" where
  "image_bytes I r = (case result_image r of Some i \<Rightarrow> image_byte_size I i | None \<Rightarrow> 0)"

(* map: flow/raster_cache.h 59 89 RasterCacheMetrics *)
record raster_metrics =
  eviction_count :: "64 word"
  eviction_bytes :: "64 word"
  in_use_count :: "64 word"
  in_use_bytes :: "64 word"

definition no_metrics :: raster_metrics where
  "no_metrics = \<lparr>eviction_count = 0, eviction_bytes = 0, in_use_count = 0, in_use_bytes = 0\<rparr>"

(* map: flow/raster_cache.h 244 249 RasterCache::Entry *)
record 'i cache_entry =
  encountered_this_frame :: bool
  visible_this_frame :: bool
  accesses_since_visible :: nat
  entry_image :: "'i raster_result option"

definition new_entry :: "'i cache_entry" where
  "new_entry = \<lparr>encountered_this_frame = False, visible_this_frame = False, accesses_since_visible = 0, entry_image = None\<rparr>"

text \<open>The map, in the order in which the entries were made, and the hashes it uses.\<close>

(* map: flow/raster_cache.h 255 261 RasterCache *)
record 'i raster_cache =
  access_threshold :: nat
  display_list_cache_limit :: nat
  display_list_cached_this_frame :: nat
  layer_metrics :: raster_metrics
  picture_metrics :: raster_metrics
  cache_map :: "(raster_key \<times> 'i cache_entry) list"
  checkerboard_images :: bool
  cache_hashes :: "(64 word \<Rightarrow> 64 word) \<times> (RasterCacheKeyType \<Rightarrow> 64 word)"

(* map: flow/raster_cache.cc 45 49 RasterCache::RasterCache *)
definition raster_cache_new :: "nat \<Rightarrow> nat \<Rightarrow> (64 word \<Rightarrow> 64 word) \<times> (RasterCacheKeyType \<Rightarrow> 64 word) \<Rightarrow> 'i raster_cache" where
  "raster_cache_new threshold limit H =
     \<lparr>access_threshold = threshold, display_list_cache_limit = limit, display_list_cached_this_frame = 0,
      layer_metrics = no_metrics, picture_metrics = no_metrics, cache_map = [], checkerboard_images = False,
      cache_hashes = H\<rparr>"

definition lookup_entry :: "(raster_key \<Rightarrow> bool) \<Rightarrow> (raster_key \<times> 'i cache_entry) list \<Rightarrow> 'i cache_entry option" where
  "lookup_entry p m = map_option snd (find (\<lambda>e. p (fst e)) m)"

text \<open>What \<open>cache_[key]\<close> refers to is changed by \<open>f\<close>; it is made when it is not there.\<close>

fun update_entry ::
  "(raster_key \<Rightarrow> bool) \<Rightarrow> raster_key \<Rightarrow> ('i cache_entry \<Rightarrow> 'i cache_entry) \<Rightarrow> (raster_key \<times> 'i cache_entry) list \<Rightarrow>
   (raster_key \<times> 'i cache_entry) list" where
  "update_entry p k f [] = [(k, f new_entry)]"
| "update_entry p k f ((l, e) # m) = (if p l then (l, f e) # m else (l, e) # update_entry p k f m)"

definition finds :: "'i raster_cache \<Rightarrow> raster_key \<Rightarrow> raster_key \<Rightarrow> bool" where
  "finds c k l \<longleftrightarrow> raster_key_eq (cache_hashes c) l k"

definition entry_at :: "raster_key \<Rightarrow> 'i raster_cache \<Rightarrow> 'i cache_entry option" where
  "entry_at k c = lookup_entry (finds c k) (cache_map c)"

definition on_entry :: "raster_key \<Rightarrow> ('i cache_entry \<Rightarrow> 'i cache_entry) \<Rightarrow> 'i raster_cache \<Rightarrow> 'i raster_cache" where
  "on_entry k f c = c\<lparr>cache_map := update_entry (finds c k) k f (cache_map c)\<rparr>"

definition entry_or_new :: "raster_key \<Rightarrow> 'i raster_cache \<Rightarrow> 'i cache_entry" where
  "entry_or_new k c = (case entry_at k c of Some e \<Rightarrow> e | None \<Rightarrow> new_entry)"

section \<open>Operations\<close>

(* map: flow/raster_cache.cc 112 123 RasterCache::MarkSeen *)
definition MarkSeen ::
  "raster_key_id \<Rightarrow> SkMatrix \<Rightarrow> bool \<Rightarrow> 'i raster_cache \<Rightarrow> (nat \<times> bool) \<times> 'i raster_cache" where
  "MarkSeen i m visible c =
     (let k = RasterCacheKey i m;
          seen = (\<lambda>e. let e = e\<lparr>encountered_this_frame := True\<rparr>; e = e\<lparr>visible_this_frame := visible\<rparr> in
            if visible \<or> accesses_since_visible e > 0
            then e\<lparr>accesses_since_visible := accesses_since_visible e + 1\<rparr> else e);
          e = seen (entry_or_new k c) in
      ((accesses_since_visible e, entry_image e \<noteq> None), on_entry k seen c))"

(* map: flow/raster_cache.cc 125 133 RasterCache::GetAccessCount *)
definition GetAccessCount :: "raster_key_id \<Rightarrow> SkMatrix \<Rightarrow> 'i raster_cache \<Rightarrow> int" where
  "GetAccessCount i m c = (case entry_at (RasterCacheKey i m) c of
     Some e \<Rightarrow> int (accesses_since_visible e) | None \<Rightarrow> -1)"

(* map: flow/raster_cache.cc 135 142 RasterCache::HasEntry *)
definition HasEntry :: "raster_key_id \<Rightarrow> SkMatrix \<Rightarrow> 'i raster_cache \<Rightarrow> bool" where
  "HasEntry i m c \<longleftrightarrow> entry_at (RasterCacheKey i m) c \<noteq> None"

text \<open>\<open>rasterized\<close> is what \<open>Rasterize\<close> gives, which is called only when there is no image.\<close>

(* map: flow/raster_cache.cc 88 110 RasterCache::UpdateCacheEntry *)
definition UpdateCacheEntry ::
  "raster_key_id \<Rightarrow> SkMatrix \<Rightarrow> 'i raster_result option \<Rightarrow> 'i raster_cache \<Rightarrow> bool \<times> 'i raster_cache" where
  "UpdateCacheEntry i m rasterized c =
     (let k = RasterCacheKey i m; e = entry_or_new k c; c = on_entry k (\<lambda>e. e) c in
      if entry_image e = None then
        (let c = on_entry k (\<lambda>e. e\<lparr>entry_image := rasterized\<rparr>) c in
         if rasterized \<noteq> None then
           (True, if key_type i = kDisplayListKey
                  then c\<lparr>display_list_cached_this_frame := display_list_cached_this_frame c + 1\<rparr> else c)
         else (False, c))
      else (True, c))"

text \<open>The image that is drawn, if there is one.\<close>

(* map: flow/raster_cache.cc 144 160 RasterCache::Draw *)
definition cached_image :: "raster_key_id \<Rightarrow> SkMatrix \<Rightarrow> 'i raster_cache \<Rightarrow> 'i raster_result option" where
  "cached_image i total_matrix c = (case entry_at (RasterCacheKey i total_matrix) c of
     None \<Rightarrow> None | Some e \<Rightarrow> entry_image e)"

(* map: flow/raster_cache.cc 162 166 RasterCache::BeginFrame *)
definition cache_BeginFrame :: "'i raster_cache \<Rightarrow> 'i raster_cache" where
  "cache_BeginFrame c = c\<lparr>display_list_cached_this_frame := 0, picture_metrics := no_metrics, layer_metrics := no_metrics\<rparr>"

(* map: flow/raster_cache.cc 283 290 RasterCache::GetMetricsForKind *)
definition on_metrics :: "RasterCacheKeyKind \<Rightarrow> (raster_metrics \<Rightarrow> raster_metrics) \<Rightarrow> 'i raster_cache \<Rightarrow> 'i raster_cache" where
  "on_metrics k f c = (case k of
     kDisplayListMetrics \<Rightarrow> c\<lparr>picture_metrics := f (picture_metrics c)\<rparr>
   | kLayerMetrics \<Rightarrow> c\<lparr>layer_metrics := f (layer_metrics c)\<rparr>)"

definition add_use :: "64 word \<Rightarrow> raster_metrics \<Rightarrow> raster_metrics" where
  "add_use n m = m\<lparr>in_use_count := in_use_count m + 1, in_use_bytes := in_use_bytes m + n\<rparr>"

definition add_eviction :: "64 word \<Rightarrow> raster_metrics \<Rightarrow> raster_metrics" where
  "add_eviction n m = m\<lparr>eviction_count := eviction_count m + 1, eviction_bytes := eviction_bytes m + n\<rparr>"

definition count_image ::
  "'i image_ops \<Rightarrow> (64 word \<Rightarrow> raster_metrics \<Rightarrow> raster_metrics) \<Rightarrow> raster_key \<times> 'i cache_entry \<Rightarrow> 'i raster_cache \<Rightarrow> 'i raster_cache" where
  "count_image I f = (\<lambda>(k, e) c. case entry_image e of
     Some r \<Rightarrow> on_metrics (key_kind k) (f (image_bytes I r)) c | None \<Rightarrow> c)"

fun update_metrics_loop ::
  "'i image_ops \<Rightarrow> (raster_key \<times> 'i cache_entry) list \<Rightarrow> 'i raster_cache \<Rightarrow> 'i raster_cache res" where
  "update_metrics_loop I [] c = Inr c"
| "update_metrics_loop I ((k, e) # m) c =
     bindr (ensure DCheck_Failed (encountered_this_frame e)) (\<lambda>_. update_metrics_loop I m (count_image I add_use (k, e) c))"

(* map: flow/raster_cache.cc 168 179 RasterCache::UpdateMetrics *)
definition UpdateMetrics :: "'i image_ops \<Rightarrow> 'i raster_cache \<Rightarrow> 'i raster_cache res" where
  "UpdateMetrics I c =
     bindr (update_metrics_loop I (cache_map c) c) (\<lambda>c.
     Inr (c\<lparr>cache_map := map (\<lambda>(k, e). (k, e\<lparr>encountered_this_frame := False\<rparr>)) (cache_map c)\<rparr>))"

(* map: flow/raster_cache.cc 181 199 RasterCache::EvictUnusedCacheEntries *)
definition EvictUnusedCacheEntries :: "'i image_ops \<Rightarrow> 'i raster_cache \<Rightarrow> 'i raster_cache" where
  "EvictUnusedCacheEntries I c =
     (let dead = filter (\<lambda>(k, e). \<not> encountered_this_frame e) (cache_map c);
          c = fold (count_image I add_eviction) dead c in
      c\<lparr>cache_map := filter (\<lambda>(k, e). encountered_this_frame e) (cache_map c)\<rparr>)"

(* map: flow/raster_cache.cc 201 204 RasterCache::EndFrame *)
definition EndFrame :: "'i image_ops \<Rightarrow> 'i raster_cache \<Rightarrow> 'i raster_cache res" where
  "EndFrame I c = UpdateMetrics I c"

(* map: flow/raster_cache.cc 206 210 RasterCache::Clear *)
definition cache_Clear :: "'i raster_cache \<Rightarrow> 'i raster_cache" where
  "cache_Clear c = c\<lparr>cache_map := [], picture_metrics := no_metrics, layer_metrics := no_metrics\<rparr>"

(* map: flow/raster_cache.cc 236 246 RasterCache::SetCheckboardCacheImages *)
definition SetCheckboardCacheImages :: "bool \<Rightarrow> 'i raster_cache \<Rightarrow> 'i raster_cache" where
  "SetCheckboardCacheImages v c =
     (if checkerboard_images c = v then c else cache_Clear (c\<lparr>checkerboard_images := v\<rparr>))"

(* map: flow/raster_cache.h 212 216 RasterCache::GenerateNewCacheInThisFrame *)
definition GenerateNewCacheInThisFrame :: "'i raster_cache \<Rightarrow> bool" where
  "GenerateNewCacheInThisFrame c \<longleftrightarrow>
     access_threshold c \<noteq> 0 \<and> display_list_cached_this_frame c < display_list_cache_limit c"

(* map: flow/raster_cache.cc 212 214 RasterCache::GetCachedEntriesCount *)
definition GetCachedEntriesCount :: "'i raster_cache \<Rightarrow> nat" where
  "GetCachedEntriesCount c = length (cache_map c)"

(* map: flow/raster_cache.cc 216 224 RasterCache::GetLayerCachedEntriesCount *)
definition GetLayerCachedEntriesCount :: "'i raster_cache \<Rightarrow> nat" where
  "GetLayerCachedEntriesCount c = length (filter (\<lambda>(k, e). key_kind k = kLayerMetrics) (cache_map c))"

(* map: flow/raster_cache.cc 226 234 RasterCache::GetPictureCachedEntriesCount *)
definition GetPictureCachedEntriesCount :: "'i raster_cache \<Rightarrow> nat" where
  "GetPictureCachedEntriesCount c = length (filter (\<lambda>(k, e). key_kind k = kDisplayListMetrics) (cache_map c))"

definition estimate_bytes :: "'i image_ops \<Rightarrow> RasterCacheKeyKind \<Rightarrow> 'i raster_cache \<Rightarrow> 64 word" where
  "estimate_bytes I kind c =
     fold (\<lambda>(k, e) n. case entry_image e of
       Some r \<Rightarrow> if key_kind k = kind then n + image_bytes I r else n | None \<Rightarrow> n) (cache_map c) 0"

(* map: flow/raster_cache.cc 261 270 RasterCache::EstimateLayerCacheByteSize *)
definition EstimateLayerCacheByteSize :: "'i image_ops \<Rightarrow> 'i raster_cache \<Rightarrow> 64 word" where
  "EstimateLayerCacheByteSize I = estimate_bytes I kLayerMetrics"

(* map: flow/raster_cache.cc 272 281 RasterCache::EstimatePictureCacheByteSize *)
definition EstimatePictureCacheByteSize :: "'i image_ops \<Rightarrow> 'i raster_cache \<Rightarrow> 64 word" where
  "EstimatePictureCacheByteSize I = estimate_bytes I kDisplayListMetrics"

end
