(* ===== verification/Flow_Layer_Tree.thy ===== *)
theory Flow_Layer_Tree
  imports Flow_Raster_Cache
begin

text \<open>
  The layers of \<open>flow/layers/\<close>: what each kind of layer holds, what \<open>Preroll\<close> leaves in it, and the raster cache
  items of \<open>flow/raster_cache_item.h\<close>, \<open>flow/layers/layer_raster_cache_item.cc\<close> and
  \<open>flow/layers/display_list_raster_cache_item.cc\<close>, which are kept by the id of the layer that owns them.
\<close>

section \<open>Layers\<close>

(* map: flow/layers/layer.h 50 50 Clip *)
datatype clip_behavior = ClipNone | hardEdge | antiAlias | antiAliasWithSaveLayer

text \<open>A recorded display list, as far as a layer asks for it.\<close>

record picture =
  pic_list :: dl_ref
  pic_unique_id :: "64 word"
  pic_bounds :: SkRect
  pic_op_count :: nat
  pic_bytes :: nat
  pic_content :: sk_ref

text \<open>
  The classes of layers with their members: transform; alpha and offset; filters; clip shapes; shader, mask
  rectangle and blend mode; color, shadow color, elevation, path and clip; offset, display list and the
  hints for the cache; offset, size and id of a texture or a view; options.
\<close>

(* map: flow/layers/display_list_layer.h 52 58 DisplayListLayer *)
datatype layer_kind =
    ContainerLayer
  | TransformLayer SkMatrix
  | OpacityLayer "8 word" SkPoint
  | ColorFilterLayer "DlColorFilter ptr"
  | ImageFilterLayer "DlImageFilter ptr" SkPoint
  | BackdropFilterLayer "DlImageFilter ptr" DlBlendMode
  | ClipRectLayer SkRect clip_behavior
  | ClipRRectLayer SkRRect clip_behavior
  | ClipPathLayer SkPath clip_behavior
  | ShaderMaskLayer "DlColorSource ptr" SkRect DlBlendMode
  | PhysicalShapeLayer DlColor DlColor SkScalar SkPath clip_behavior
  | DisplayListLayer SkPoint "picture option" bool bool
  | TextureLayer SkPoint SkPoint "64 word" bool DlImageSampling
  | PlatformViewLayer SkPoint SkPoint "64 word"
  | PerformanceOverlayLayer "64 word"

(* map: flow/layers/layer.h 267 270 Layer *)
record layer_info =
  unique_id :: "64 word"
  original_layer_id :: "64 word"
  paint_bounds :: SkRect
  subtree_has_platform_view :: bool
  child_paint_bounds :: SkRect
  children_renderable_state_flags :: "32 word"
  children_can_accept_opacity :: bool
  transformed_filter :: "DlImageFilter ptr"

(* map: flow/layers/layer.cc 12 16 Layer::Layer *)
definition new_layer_info :: "64 word \<Rightarrow> layer_info" where
  "new_layer_info i =
     \<lparr>unique_id = i, original_layer_id = i, paint_bounds = SkRect_MakeEmpty, subtree_has_platform_view = False,
      child_paint_bounds = SkRect_MakeEmpty, children_renderable_state_flags = 0, children_can_accept_opacity = False,
      transformed_filter = None\<rparr>"

(* map: flow/layers/container_layer.h 50 56 ContainerLayer *)
datatype scene_layer = SceneLayer (the_info: layer_info) (the_kind: layer_kind) (children: "scene_layer list")

text \<open>The id 0 is skipped when the counter wraps around.\<close>

(* map: flow/layers/layer.cc 20 27 Layer::NextUniqueID *)
definition NextUniqueID :: "64 word \<Rightarrow> 64 word \<times> 64 word" where
  "NextUniqueID next_id = (if next_id \<noteq> 0 then (next_id, next_id + 1) else (next_id + 1, next_id + 2))"

(* map: flow/layers/layer.h 141 143 Layer::AssignOldLayer *)
definition AssignOldLayer :: "scene_layer \<Rightarrow> layer_info \<Rightarrow> layer_info" where
  "AssignOldLayer old i = i\<lparr>original_layer_id := original_layer_id (the_info old)\<rparr>"

(* map: flow/layers/transform_layer.cc 11 27 TransformLayer::TransformLayer *)
definition new_transform_layer :: "flow_geo \<Rightarrow> SkMatrix \<Rightarrow> layer_kind res" where
  "new_transform_layer gm m =
     bindr (ensure DCheck_Failed (m33_isFinite gm m)) (\<lambda>_.
     Inr (TransformLayer (if m33_isFinite gm m then m else SkMatrix_I)))"

fun is_container :: "layer_kind \<Rightarrow> bool" where
  "is_container (DisplayListLayer off d c w) = False"
| "is_container (TextureLayer off sz i f s) = False"
| "is_container (PlatformViewLayer off sz i) = False"
| "is_container (PerformanceOverlayLayer o1) = False"
| "is_container _ = True"

(* map: flow/layers/clip_shape_layer.h 103 105 ClipShapeLayer::UsesSaveLayer *)
definition UsesSaveLayer :: "clip_behavior \<Rightarrow> bool" where
  "UsesSaveLayer c \<longleftrightarrow> c = antiAliasWithSaveLayer"

text \<open>The key by which a layer is cached, and those of the children together.\<close>

(* map: flow/layers/layer.h 253 255 Layer::caching_key_id *)
definition caching_key_id :: "scene_layer \<Rightarrow> raster_key_id res" where
  "caching_key_id l = (case the_kind l of
     DisplayListLayer off d c w \<Rightarrow> (case d of
         Some p \<Rightarrow> Inr (RasterCacheKeyID (pic_unique_id p) kDisplayListKey []) | None \<Rightarrow> Inl Undefined)
   | _ \<Rightarrow> Inr (RasterCacheKeyID (unique_id (the_info l)) kLayerKey []))"

fun all_of :: "('a \<Rightarrow> 'b res) \<Rightarrow> 'a list \<Rightarrow> 'b list res" where
  "all_of f [] = Inr []"
| "all_of f (x # xs) = bindr (f x) (\<lambda>y. bindr (all_of f xs) (\<lambda>ys. Inr (y # ys)))"

(* map: flow/raster_cache_key.cc 14 27 RasterCacheKeyID::LayerChildrenIds *)
definition LayerChildrenIds :: "layer_kind \<Rightarrow> scene_layer list \<Rightarrow> raster_key_id list option res" where
  "LayerChildrenIds k ls =
     bindr (ensure DCheck_Failed (is_container k)) (\<lambda>_.
     if ls = [] then Inr None else bindr (all_of caching_key_id ls) (\<lambda>ids. Inr (Some ids)))"

section \<open>Raster cache items\<close>

(* map: flow/raster_cache_item.h 29 33 RasterCacheItem::CacheState *)
datatype CacheState = kNone | kCurrent | kChildren

text \<open>A layer item uses \<open>layer_children_id\<close> to \<open>num_cache_attempts\<close>, a display list item \<open>transformation_matrix\<close>.\<close>

(* map: flow/raster_cache_item.h 72 75 RasterCacheItem *)
record cache_item =
  item_key :: raster_key_id
  cache_state :: CacheState
  item_matrix :: SkMatrix
  child_items :: nat
  layer_children_id :: "raster_key_id option"
  layer_cached_threshold :: int
  can_cache_children :: bool
  num_cache_attempts :: int
  transformation_matrix :: SkMatrix

(* map: flow/layers/layer_raster_cache_item.cc 12 21 LayerRasterCacheItem::LayerRasterCacheItem *)
definition LayerRasterCacheItem :: "64 word \<Rightarrow> int \<Rightarrow> bool \<Rightarrow> cache_item" where
  "LayerRasterCacheItem i threshold can =
     \<lparr>item_key = RasterCacheKeyID i kLayerKey [], cache_state = kNone, item_matrix = [], child_items = 0,
      layer_children_id = None, layer_cached_threshold = threshold, can_cache_children = can,
      num_cache_attempts = 1, transformation_matrix = []\<rparr>"

(* map: flow/layers/display_list_raster_cache_item.cc 48 59 DisplayListRasterCacheItem::DisplayListRasterCacheItem *)
definition DisplayListRasterCacheItem :: "picture \<Rightarrow> cache_item" where
  "DisplayListRasterCacheItem p =
     \<lparr>item_key = RasterCacheKeyID (pic_unique_id p) kDisplayListKey [], cache_state = kCurrent, item_matrix = [],
      child_items = 0, layer_children_id = None, layer_cached_threshold = 1, can_cache_children = False,
      num_cache_attempts = 1, transformation_matrix = []\<rparr>"

(* map: flow/raster_cache_util.h 36 36 RasterCacheUtil::kMinimumRendersBeforeCachingFilterLayer *)
definition kMinimumRendersBeforeCachingFilterLayer :: int where
  "kMinimumRendersBeforeCachingFilterLayer = 3"

text \<open>The item that a layer makes for itself; other layers have none.\<close>

(* map: flow/layers/cacheable_layer.cc 32 36 CacheableContainerLayer::CacheableContainerLayer *)
definition new_cache_item :: "64 word \<Rightarrow> layer_kind \<Rightarrow> cache_item option" where
  "new_cache_item i k = (case k of
     OpacityLayer a off \<Rightarrow> Some (LayerRasterCacheItem i (2 ^ 31 - 1) True)
   | ColorFilterLayer f \<Rightarrow> Some (LayerRasterCacheItem i kMinimumRendersBeforeCachingFilterLayer True)
   | ImageFilterLayer f off \<Rightarrow> Some (LayerRasterCacheItem i kMinimumRendersBeforeCachingFilterLayer False)
   | ShaderMaskLayer c r m \<Rightarrow> Some (LayerRasterCacheItem i kMinimumRendersBeforeCachingFilterLayer False)
   | ClipRectLayer r c \<Rightarrow> Some (LayerRasterCacheItem i kMinimumRendersBeforeCachingFilterLayer False)
   | ClipRRectLayer r c \<Rightarrow> Some (LayerRasterCacheItem i kMinimumRendersBeforeCachingFilterLayer False)
   | ClipPathLayer p c \<Rightarrow> Some (LayerRasterCacheItem i kMinimumRendersBeforeCachingFilterLayer False)
   | DisplayListLayer off d c w \<Rightarrow> map_option DisplayListRasterCacheItem d
   | _ \<Rightarrow> None)"

section \<open>The context of a preroll\<close>

text \<open>What the context does not change: Skia, the delegate, the device, and how complex a display list is.\<close>

record 'd flow_env =
  e_sk :: skia
  e_gm :: flow_geo
  e_D :: "'d delegate"
  frame_device_pixel_ratio :: SkScalar
  double_opacity :: "8 word \<Rightarrow> SkScalar"
  complex_enough :: "picture \<Rightarrow> bool"
  fresh_address :: nat
  unset_irect :: SkIRect
  has_view_embedder :: bool
  uses_display_list :: bool

datatype embedder_call =
    PrerollCompositeEmbeddedView "32 word" embedded_view_params
  | PushVisitedPlatformView "32 word"
  | PushFilterToVisitedPlatformViews "DlImageFilter ptr" SkRect

(* map: flow/layers/layer.h 52 90 PrerollContext *)
record ('d, 'i) preroll_context =
  pc_cache :: "'i raster_cache option"
  pc_stack :: "'d state_stack"
  surface_needs_readback :: bool
  has_platform_view :: bool
  has_texture_layer :: bool
  renderable_state_flags :: "32 word"
  raster_cached_entries :: "64 word list option"
  cache_items :: "64 word \<Rightarrow> cache_item"
  embedder_calls :: "embedder_call list"

definition on_item :: "64 word \<Rightarrow> (cache_item \<Rightarrow> cache_item) \<Rightarrow> ('d, 'i) preroll_context \<Rightarrow> ('d, 'i) preroll_context" where
  "on_item i f c = c\<lparr>cache_items := (cache_items c)(i := f (cache_items c i))\<rparr>"

text \<open>Registering an item with the frame.\<close>

(* map: flow/layers/layer_raster_cache_item.cc 23 31 LayerRasterCacheItem::PrerollSetup *)
definition layer_PrerollSetup :: "64 word \<Rightarrow> SkMatrix \<Rightarrow> ('d, 'i) preroll_context \<Rightarrow> ('d, 'i) preroll_context" where
  "layer_PrerollSetup i m c =
     (let c = on_item i (\<lambda>t. t\<lparr>cache_state := kNone\<rparr>) c in
      case (pc_cache c, raster_cached_entries c) of
        (Some cache, Some es) \<Rightarrow>
          on_item i (\<lambda>t. t\<lparr>child_items := length es + 1, item_matrix := m\<rparr>)
            (c\<lparr>raster_cached_entries := Some (es @ [i])\<rparr>)
      | _ \<Rightarrow> c)"

definition mark_seen ::
  "raster_key_id \<Rightarrow> SkMatrix \<Rightarrow> bool \<Rightarrow> ('d, 'i) preroll_context \<Rightarrow> ((nat \<times> bool) \<times> ('d, 'i) preroll_context) res" where
  "mark_seen i m visible c = (case pc_cache c of
     Some cache \<Rightarrow> Inr (fst (MarkSeen i m visible cache), c\<lparr>pc_cache := Some (snd (MarkSeen i m visible cache))\<rparr>)
   | None \<Rightarrow> Inl Undefined)"

text \<open>A layer is cached itself once it has been met often enough, before that perhaps its children are.\<close>

(* map: flow/layers/layer_raster_cache_item.cc 41 75 LayerRasterCacheItem::PrerollFinalize *)
definition layer_PrerollFinalize ::
  "'d flow_env \<Rightarrow> scene_layer \<Rightarrow> ('d, 'i) preroll_context \<Rightarrow> ('d, 'i) preroll_context res" where
  "layer_PrerollFinalize E l c =
     (let i = unique_id (the_info l) in
      case (pc_cache c, raster_cached_entries c) of
        (Some cache, Some es) \<Rightarrow>
          bindr (if has_platform_view c \<or> has_texture_layer c then Inr True
                 else content_culled (e_D E) (paint_bounds (the_info l)) (the_delegate (pc_stack c))) (\<lambda>leave.
          if leave then Inr c
          else
            let c = on_item i (\<lambda>t. t\<lparr>child_items := length es - child_items t\<rparr>) c; t = cache_items c i in
            if num_cache_attempts t \<ge> layer_cached_threshold t then
              bindr (mark_seen (item_key t) (item_matrix t) True (on_item i (\<lambda>t. t\<lparr>cache_state := kCurrent\<rparr>) c)) (\<lambda>r. Inr (snd r))
            else
              let c = on_item i (\<lambda>t. t\<lparr>num_cache_attempts := num_cache_attempts t + 1\<rparr>) c in
              if can_cache_children t then
                bindr (case layer_children_id t of
                    Some k \<Rightarrow> Inr (Some k)
                  | None \<Rightarrow> bindr (LayerChildrenIds (the_kind l) (children l)) (\<lambda>ids. Inr (case ids of
                      Some ks \<Rightarrow> Some (RasterCacheKeyID 0 kLayerChildrenKey ks) | None \<Rightarrow> None))) (\<lambda>key.
                case key of
                  None \<Rightarrow> Inr c
                | Some k \<Rightarrow>
                    bindr (mark_seen k (item_matrix t) True
                      (on_item i (\<lambda>t. t\<lparr>layer_children_id := Some k, cache_state := kChildren\<rparr>) c)) (\<lambda>r. Inr (snd r)))
              else Inr c)
      | _ \<Rightarrow> Inr c)"

(* map: flow/layers/display_list_raster_cache_item.cc 20 46 IsDisplayListWorthRasterizing *)
definition IsDisplayListWorthRasterizing :: "'d flow_env \<Rightarrow> picture \<Rightarrow> bool \<Rightarrow> bool \<Rightarrow> bool" where
  "IsDisplayListWorthRasterizing E p will_change is_complex =
     (if will_change then False
      else if \<not> CanRasterizeRect (e_sk E) (e_gm E) (pic_bounds p) then False
      else if is_complex then True
      else complex_enough E p)"

(* map: flow/layers/display_list_raster_cache_item.cc 70 97 DisplayListRasterCacheItem::PrerollSetup *)
definition list_PrerollSetup ::
  "'d flow_env \<Rightarrow> 64 word \<Rightarrow> picture \<Rightarrow> SkPoint \<Rightarrow> bool \<Rightarrow> bool \<Rightarrow> SkMatrix \<Rightarrow> ('d, 'i) preroll_context \<Rightarrow> ('d, 'i) preroll_context" where
  "list_PrerollSetup E i p off is_complex will_change m c =
     (let c = on_item i (\<lambda>t. t\<lparr>cache_state := kNone\<rparr>) c in
      if \<not> IsDisplayListWorthRasterizing E p will_change is_complex then c
      else
        let tm = m33_preTranslate (e_gm E) (fst off) (snd off) m;
            c = on_item i (\<lambda>t. t\<lparr>transformation_matrix := tm\<rparr>) c in
        if m33_invert (e_gm E) tm = None then c
        else case (pc_cache c, raster_cached_entries c) of
          (Some cache, Some es) \<Rightarrow>
            on_item i (\<lambda>t. t\<lparr>cache_state := kCurrent\<rparr>) (c\<lparr>raster_cached_entries := Some (es @ [i])\<rparr>)
        | _ \<Rightarrow> c)"

definition offset_bounds :: "flow_geo \<Rightarrow> picture \<Rightarrow> SkPoint \<Rightarrow> SkRect" where
  "offset_bounds gm p off = makeOffset gm (pic_bounds p) (fst off) (snd off)"

text \<open>The display list is marked under the matrix \<open>m\<close> without its offset.\<close>

(* map: flow/layers/display_list_raster_cache_item.cc 99 125 DisplayListRasterCacheItem::PrerollFinalize *)
definition list_PrerollFinalize ::
  "'d flow_env \<Rightarrow> 64 word \<Rightarrow> picture \<Rightarrow> SkPoint \<Rightarrow> SkMatrix \<Rightarrow> ('d, 'i) preroll_context \<Rightarrow> ('d, 'i) preroll_context res" where
  "list_PrerollFinalize E i p off m c = (case (pc_cache c, raster_cached_entries c) of
     (Some cache, Some es) \<Rightarrow>
       if cache_state (cache_items c i) = kNone then Inr c
       else
         bindr (content_culled (e_D E) (offset_bounds (e_gm E) p off) (the_delegate (pc_stack c))) (\<lambda>culled.
         bindr (mark_seen (item_key (cache_items c i)) m (\<not> culled) c) (\<lambda>((accesses, has_image), c).
         if culled \<or> accesses \<le> access_threshold cache then Inr (on_item i (\<lambda>t. t\<lparr>cache_state := kNone\<rparr>) c)
         else
           let c = (if has_image then
                      c\<lparr>renderable_state_flags := renderable_state_flags c OR kCallerCanApplyOpacity\<rparr> else c) in
           Inr (on_item i (\<lambda>t. t\<lparr>cache_state := kCurrent\<rparr>) c)))
   | _ \<Rightarrow> Inr c)"

end
