(* ===== verification/Flow_Preroll.thy ===== *)
theory Flow_Preroll
  imports Flow_Layer_Tree Dl_Bounds
begin

text \<open>
  The \<open>Preroll\<close> of every layer of \<open>flow/layers/\<close>: from the leaves up it finds the bounds of what is painted, whether
  there are platform views and textures, and which attributes a layer can apply itself; it also registers
  what may be cached. \<open>kids\<close> is the preroll of the children one after the other.
\<close>

section \<open>Scopes\<close>

type_synonym ('d, 'i) prerolled = "(scene_layer \<times> ('d, 'i) preroll_context) res"

text \<open>What happens while a mutator context is alive; on leaving the state stack is restored.\<close>

definition in_mutator ::
  "'d flow_env \<Rightarrow> ('d mutator_context \<Rightarrow> 'd mutator_context res) \<Rightarrow>
   (('d, 'i) preroll_context \<Rightarrow> ('r \<times> ('d, 'i) preroll_context) res) \<Rightarrow> ('d, 'i) preroll_context \<Rightarrow>
   ('r \<times> ('d, 'i) preroll_context) res" where
  "in_mutator E f body c =
     bindr (f (True, pc_stack c)) (\<lambda>(n, s).
     bindr (body (c\<lparr>pc_stack := s\<rparr>)) (\<lambda>(r, c').
     bindr (restore_to_count (e_D E) (length (entries (pc_stack c))) (pc_stack c')) (\<lambda>s'.
     Inr (r, c'\<lparr>pc_stack := s'\<rparr>))))"

(* map: flow/layers/layer.cc 29 55 Layer::AutoPrerollSaveLayerState *)
definition with_save_layer_state ::
  "bool \<Rightarrow> bool \<Rightarrow> (('d, 'i) preroll_context \<Rightarrow> ('r \<times> ('d, 'i) preroll_context) res) \<Rightarrow> ('d, 'i) preroll_context \<Rightarrow>
   ('r \<times> ('d, 'i) preroll_context) res" where
  "with_save_layer_state is_active itself body c =
     (if is_active then
        bindr (body (c\<lparr>surface_needs_readback := False\<rparr>)) (\<lambda>(r, c').
        Inr (r, c'\<lparr>surface_needs_readback := surface_needs_readback c \<or> itself\<rparr>))
      else body c)"

text \<open>The body says with its layer whether the item stays with the cache.\<close>

(* map: flow/layers/cacheable_layer.cc 11 30 AutoCache *)
definition with_cache ::
  "'d flow_env \<Rightarrow> bool \<Rightarrow> 64 word \<Rightarrow> (('d, 'i) preroll_context \<Rightarrow> ((scene_layer \<times> bool) \<times> ('d, 'i) preroll_context) res) \<Rightarrow>
   ('d, 'i) preroll_context \<Rightarrow> ('d, 'i) prerolled" where
  "with_cache E has_item i body c =
     bindr (matrix_3x3 (e_D E) (the_delegate (pc_stack c))) (\<lambda>m.
     let enabled = has_item \<and> pc_cache c \<noteq> None in
     bindr (body (if enabled then layer_PrerollSetup i m c else c)) (\<lambda>((l, stays), c).
     bindr (if enabled \<and> stays then layer_PrerollFinalize E l c else Inr c) (\<lambda>c. Inr (l, c))))"

section \<open>Children\<close>

(* map: flow/layers/container_layer.cc 122 127 safe_intersection_test *)
definition safe_intersection_test :: "flow_geo \<Rightarrow> SkRect \<Rightarrow> SkRect \<Rightarrow> bool" where
  "safe_intersection_test gm r s = (if rect_isEmpty gm r \<or> rect_isEmpty gm s then False else rect_intersects gm r s)"

text \<open>
  The flags that all children support are gathered in a variable of type \<open>bool\<close>, which \<open>&=\<close> turns into a number
  and back.
\<close>

definition bool_and :: "bool \<Rightarrow> 32 word \<Rightarrow> bool" where
  "bool_and b flags \<longleftrightarrow> of_bool b AND flags \<noteq> 0"

record children_state =
  all_renderable :: bool
  bounds_so_far :: SkRect
  child_platform_view :: bool
  child_texture_layer :: bool

(* map: flow/layers/container_layer.cc 153 165 ContainerLayer::PrerollChildren:loop *)
definition after_child :: "'d flow_env \<Rightarrow> scene_layer \<Rightarrow> ('d, 'i) preroll_context \<Rightarrow> children_state \<Rightarrow> children_state" where
  "after_child E l c st =
     (let st = st\<lparr>all_renderable := bool_and (all_renderable st) (renderable_state_flags c)\<rparr>;
          b = paint_bounds (the_info l);
          st = (if safe_intersection_test (e_gm E) (bounds_so_far st) b then st\<lparr>all_renderable := False\<rparr> else st);
          st = st\<lparr>bounds_so_far := rect_join (e_gm E) (bounds_so_far st) b\<rparr>;
          st = st\<lparr>child_platform_view := child_platform_view st \<or> has_platform_view c\<rparr> in
      st\<lparr>child_texture_layer := child_texture_layer st \<or> has_texture_layer c\<rparr>)"

type_synonym ('d, 'i) kids =
  "children_state \<Rightarrow> ('d, 'i) preroll_context \<Rightarrow> ((scene_layer list \<times> children_state) \<times> ('d, 'i) preroll_context) res"

(* map: flow/layers/container_layer.cc 129 174 ContainerLayer::PrerollChildren *)
definition PrerollChildren ::
  "('d, 'i) kids \<Rightarrow> layer_info \<Rightarrow> SkRect \<Rightarrow> ('d, 'i) preroll_context \<Rightarrow>
   ((layer_info \<times> scene_layer list \<times> SkRect) \<times> ('d, 'i) preroll_context) res" where
  "PrerollChildren kids i bounds c =
     bindr (ensure DCheck_Failed (\<not> has_platform_view c)) (\<lambda>_.
     bindr (ensure DCheck_Failed (\<not> has_texture_layer c)) (\<lambda>_.
     bindr (kids \<lparr>all_renderable = kCallerCanApplyAnything \<noteq> 0, bounds_so_far = bounds,
         child_platform_view = False, child_texture_layer = False\<rparr> c) (\<lambda>((ls, st), c).
     Inr ((i\<lparr>subtree_has_platform_view := child_platform_view st,
             children_renderable_state_flags := of_bool (all_renderable st),
             child_paint_bounds := bounds_so_far st\<rparr>, ls, bounds_so_far st),
          c\<lparr>has_platform_view := child_platform_view st, has_texture_layer := child_texture_layer st,
            renderable_state_flags := of_bool (all_renderable st)\<rparr>))))"

(* map: flow/layers/layer.h 132 135 Layer::kSaveLayerRenderFlags *)
definition kSaveLayerRenderFlags :: "32 word" where
  "kSaveLayerRenderFlags = kCallerCanApplyOpacity OR kCallerCanApplyColorFilter OR kCallerCanApplyImageFilter"

(* map: flow/layers/container_layer.cc 110 114 ContainerLayer::Preroll *)
definition container_Preroll ::
  "('d, 'i) kids \<Rightarrow> layer_info \<Rightarrow> layer_kind \<Rightarrow> ('d, 'i) preroll_context \<Rightarrow> ('d, 'i) prerolled" where
  "container_Preroll kids i k c =
     bindr (PrerollChildren kids i SkRect_MakeEmpty c) (\<lambda>((i, ls, bounds), c).
     Inr (SceneLayer (i\<lparr>paint_bounds := bounds\<rparr>) k ls, c))"

definition can_render :: "32 word \<Rightarrow> ('d, 'i) preroll_context \<Rightarrow> ('d, 'i) preroll_context" where
  "can_render flags c = c\<lparr>renderable_state_flags := flags\<rparr>"

definition kept_in_cache :: "('d, 'i) prerolled \<Rightarrow> ((scene_layer \<times> bool) \<times> ('d, 'i) preroll_context) res" where
  "kept_in_cache r = bindr r (\<lambda>(l, c). Inr ((l, True), c))"

section \<open>The layers with children\<close>

(* map: flow/layers/transform_layer.cc 43 52 TransformLayer::Preroll *)
definition transform_Preroll ::
  "'d flow_env \<Rightarrow> ('d, 'i) kids \<Rightarrow> layer_info \<Rightarrow> SkMatrix \<Rightarrow> ('d, 'i) preroll_context \<Rightarrow> ('d, 'i) prerolled" where
  "transform_Preroll E kids i m =
     in_mutator E (mutator_transform (e_gm E) (e_D E) m) (\<lambda>c.
       bindr (PrerollChildren kids i SkRect_MakeEmpty c) (\<lambda>((i, ls, bounds), c).
       Inr (SceneLayer (i\<lparr>paint_bounds := m33_mapRect (e_gm E) m bounds\<rparr>) (TransformLayer m) ls, c)))"

text \<open>The opacity of an alpha as \<open>DlColor::toOpacity\<close> gives it.\<close>

definition toOpacity :: "flow_geo \<Rightarrow> 8 word \<Rightarrow> SkScalar" where
  "toOpacity gm a = alphaToFloat gm (ucast a)"

(* map: flow/layers/opacity_layer.cc 39 69 OpacityLayer::Preroll *)
definition opacity_Preroll ::
  "'d flow_env \<Rightarrow> ('d, 'i) kids \<Rightarrow> bool \<Rightarrow> layer_info \<Rightarrow> 8 word \<Rightarrow> SkPoint \<Rightarrow> ('d, 'i) preroll_context \<Rightarrow> ('d, 'i) prerolled" where
  "opacity_Preroll E kids childless i alpha off c =
     bindr (ensure DCheck_Failed (\<not> childless)) (\<lambda>_.
     in_mutator E
       (\<lambda>mc. bindr (mutator_translate (e_gm E) (e_D E) (fst off) (snd off) mc)
         (applyOpacity (e_gm E) (e_D E) SkRect_MakeEmpty (toOpacity (e_gm E) alpha)))
       (with_cache E True (unique_id i) (with_save_layer_state True False (\<lambda>c.
         bindr (container_Preroll kids i (OpacityLayer alpha off) c) (\<lambda>(l, c).
         let accept = renderable_state_flags c AND kCallerCanApplyOpacity \<noteq> 0;
             c = can_render (renderable_state_flags c OR kCallerCanApplyOpacity) c;
             j = the_info l in
         Inr ((SceneLayer (j\<lparr>children_can_accept_opacity := accept,
             paint_bounds := makeOffset (e_gm E) (paint_bounds j) (fst off) (snd off)\<rparr>) (the_kind l) (children l), \<not> accept), c)))))
       c)"

(* map: flow/layers/color_filter_layer.cc 40 63 ColorFilterLayer::Preroll *)
definition color_filter_Preroll ::
  "'d flow_env \<Rightarrow> ('d, 'i) kids \<Rightarrow> layer_info \<Rightarrow> DlColorFilter ptr \<Rightarrow> ('d, 'i) preroll_context \<Rightarrow> ('d, 'i) prerolled" where
  "color_filter_Preroll E kids i f =
     with_save_layer_state True False (with_cache E True (unique_id i) (\<lambda>c.
       kept_in_cache (bindr (container_Preroll kids i (ColorFilterLayer f) c) (\<lambda>(l, c).
       Inr (l, case f of
         Some g \<Rightarrow> can_render (if can_commute_with_opacity (snd g) then kCallerCanApplyOpacity else 0) c
       | None \<Rightarrow> c)))))"

(* map: flow/layers/image_filter_layer.cc 71 95 ImageFilterLayer::Preroll:filter *)
definition image_filter_bounds ::
  "'d flow_env \<Rightarrow> layer_info \<Rightarrow> DlImageFilter \<Rightarrow> SkPoint \<Rightarrow> SkRect \<Rightarrow> ('d, 'i) preroll_context \<Rightarrow>
   (layer_info \<times> ('d, 'i) preroll_context) res" where
  "image_filter_bounds E i f off child_bounds c =
     (let gm = e_gm E; c = can_render (kCallerCanApplyOpacity OR kCallerCanApplyColorFilter) c in
      bindr (map_device_bounds (geo.truncate gm) f (irect_roundOut gm child_bounds) SkMatrix_I (unset_irect E)) (\<lambda>(_, out).
      let i = i\<lparr>paint_bounds := makeOffset gm (rect_of_irect gm out) (fst off) (snd off)\<rparr>;
          c = on_item (unique_id i) (\<lambda>t. t\<lparr>can_cache_children := False\<rparr>) c in
      bindr (matrix_3x3 (e_D E) (the_delegate (pc_stack c))) (\<lambda>m.
      bindr (makeWithLocalMatrix (geo.truncate gm) (fresh_address E) m f) (\<lambda>g.
      Inr (i\<lparr>transformed_filter := map_option (Pair (fresh_address E)) g\<rparr>,
           if g = None then c else on_item (unique_id i) (\<lambda>t. t\<lparr>can_cache_children := True\<rparr>) c)))))"

(* map: flow/layers/image_filter_layer.cc 52 96 ImageFilterLayer::Preroll *)
definition image_filter_Preroll ::
  "'d flow_env \<Rightarrow> ('d, 'i) kids \<Rightarrow> layer_info \<Rightarrow> DlImageFilter ptr \<Rightarrow> SkPoint \<Rightarrow> ('d, 'i) preroll_context \<Rightarrow> ('d, 'i) prerolled" where
  "image_filter_Preroll E kids i f off =
     in_mutator E (mutator_translate (e_gm E) (e_D E) (fst off) (snd off))
       (with_save_layer_state True False (with_cache E True (unique_id i) (\<lambda>c.
         bindr (PrerollChildren kids i SkRect_MakeEmpty c) (\<lambda>((i, ls, child_bounds), c).
         case f of
           None \<Rightarrow> Inr ((SceneLayer (i\<lparr>paint_bounds := child_bounds\<rparr>) (ImageFilterLayer f off) ls, True), c)
         | Some g \<Rightarrow> bindr (image_filter_bounds E i (snd g) off child_bounds c) (\<lambda>(i, c).
             Inr ((SceneLayer i (ImageFilterLayer f off) ls, True), c))))))"

(* map: flow/layers/backdrop_filter_layer.cc 42 54 BackdropFilterLayer::Preroll *)
definition backdrop_filter_Preroll ::
  "'d flow_env \<Rightarrow> ('d, 'i) kids \<Rightarrow> layer_info \<Rightarrow> DlImageFilter ptr \<Rightarrow> DlBlendMode \<Rightarrow> ('d, 'i) preroll_context \<Rightarrow> ('d, 'i) prerolled" where
  "backdrop_filter_Preroll E kids i f mode =
     with_save_layer_state True (f \<noteq> None) (\<lambda>c.
       bindr (if has_view_embedder E then
                bindr (local_cull_rect (e_D E) (the_delegate (pc_stack c))) (\<lambda>r.
                Inr (c\<lparr>embedder_calls := embedder_calls c @ [PushFilterToVisitedPlatformViews f r]\<rparr>))
              else Inr c) (\<lambda>c.
       bindr (PrerollChildren kids i SkRect_MakeEmpty c) (\<lambda>((i, ls, bounds), c).
       bindr (local_cull_rect (e_D E) (the_delegate (pc_stack c))) (\<lambda>r.
       Inr (SceneLayer (i\<lparr>paint_bounds := rect_join (e_gm E) bounds r\<rparr>) (BackdropFilterLayer f mode) ls,
            can_render kSaveLayerRenderFlags c)))))"

(* map: flow/layers/clip_shape_layer.h 45 74 ClipShapeLayer::Preroll *)
definition clip_Preroll ::
  "'d flow_env \<Rightarrow> ('d, 'i) kids \<Rightarrow> layer_info \<Rightarrow> layer_kind \<Rightarrow> bool \<Rightarrow> SkRect \<Rightarrow>
   ('d mutator_context \<Rightarrow> 'd mutator_context res) \<Rightarrow> ('d, 'i) preroll_context \<Rightarrow> ('d, 'i) prerolled" where
  "clip_Preroll E kids i k uses_save_layer shape_bounds apply_clip =
     with_cache E uses_save_layer (unique_id i) (with_save_layer_state uses_save_layer False (in_mutator E apply_clip (\<lambda>c.
       bindr (PrerollChildren kids i SkRect_MakeEmpty c) (\<lambda>((i, ls, bounds), c).
       Inr ((SceneLayer (i\<lparr>paint_bounds :=
             (case rect_intersect (e_sk E) bounds shape_bounds of Some r \<Rightarrow> r | None \<Rightarrow> SkRect_MakeEmpty)\<rparr>) k ls, True),
            if uses_save_layer then can_render kSaveLayerRenderFlags c else c)))))"

(* map: flow/layers/shader_mask_layer.cc 38 48 ShaderMaskLayer::Preroll *)
definition shader_mask_Preroll ::
  "'d flow_env \<Rightarrow> ('d, 'i) kids \<Rightarrow> layer_info \<Rightarrow> layer_kind \<Rightarrow> ('d, 'i) preroll_context \<Rightarrow> ('d, 'i) prerolled" where
  "shader_mask_Preroll E kids i k =
     with_save_layer_state True False (with_cache E True (unique_id i) (\<lambda>c.
       kept_in_cache (bindr (container_Preroll kids i k c) (\<lambda>(l, c). Inr (l, can_render kSaveLayerRenderFlags c)))))"

(* map: flow/layers/physical_shape_layer.cc 53 78 PhysicalShapeLayer::Preroll *)
definition physical_shape_Preroll ::
  "'d flow_env \<Rightarrow> ('d, 'i) kids \<Rightarrow> layer_info \<Rightarrow> layer_kind \<Rightarrow> SkScalar \<Rightarrow> SkPath \<Rightarrow> clip_behavior \<Rightarrow>
   ('d, 'i) preroll_context \<Rightarrow> ('d, 'i) prerolled" where
  "physical_shape_Preroll E kids i k elevation path clip =
     with_save_layer_state (UsesSaveLayer clip) False (\<lambda>c.
       bindr (PrerollChildren kids i SkRect_MakeEmpty c) (\<lambda>((i, ls, child_bounds), c).
       let c = can_render (if UsesSaveLayer clip then kSaveLayerRenderFlags else 0) c in
       bindr (if float_eq elevation 0 then Inr (path_getBounds (e_sk E) path)
              else bindr (matrix_3x3 (e_D E) (the_delegate (pc_stack c))) (\<lambda>m. 
                Inr (ComputeShadowBounds (e_sk E) (geo.truncate (e_gm E)) path elevation (frame_device_pixel_ratio E) m))) (\<lambda>bounds.
       let bounds = (if clip = ClipNone then rect_join (e_gm E) bounds child_bounds else bounds) in
       Inr (SceneLayer (i\<lparr>paint_bounds := bounds\<rparr>) k ls, c))))"

section \<open>The layers without\<close>

(* map: flow/layers/display_list_layer.cc 98 107 DisplayListLayer::Preroll *)
definition display_list_Preroll ::
  "'d flow_env \<Rightarrow> layer_info \<Rightarrow> SkPoint \<Rightarrow> picture \<Rightarrow> bool \<Rightarrow> bool \<Rightarrow> ('d, 'i) preroll_context \<Rightarrow> (layer_info \<times> ('d, 'i) preroll_context) res" where
  "display_list_Preroll E i off p is_complex will_change c =
     bindr (matrix_3x3 (e_D E) (the_delegate (pc_stack c))) (\<lambda>m.
     let c = (if pc_cache c \<noteq> None then list_PrerollSetup E (unique_id i) p off is_complex will_change m c else c);
         c = (if dl_can_apply_group_opacity (pic_list p) then can_render kCallerCanApplyOpacity c else c) in
     bindr (if pc_cache c \<noteq> None then list_PrerollFinalize E (unique_id i) p off m c else Inr c) (\<lambda>c.
     Inr (i\<lparr>paint_bounds := offset_bounds (e_gm E) p off\<rparr>, c)))"

definition rect_at :: "flow_geo \<Rightarrow> SkPoint \<Rightarrow> SkPoint \<Rightarrow> SkRect" where
  "rect_at gm off sz =
     \<lparr>fLeft = fst off, fTop = snd off, fRight = f_add gm (fst off) (fst sz), fBottom = f_add gm (snd off) (snd sz)\<rparr>"

(* map: flow/layers/texture_layer.cc 43 48 TextureLayer::Preroll *)
definition texture_Preroll ::
  "'d flow_env \<Rightarrow> layer_info \<Rightarrow> SkPoint \<Rightarrow> SkPoint \<Rightarrow> ('d, 'i) preroll_context \<Rightarrow> layer_info \<times> ('d, 'i) preroll_context" where
  "texture_Preroll E i off sz c =
     (i\<lparr>paint_bounds := rect_at (e_gm E) off sz\<rparr>,
      can_render kCallerCanApplyOpacity (c\<lparr>has_texture_layer := True\<rparr>))"

text \<open>The embedder takes the id of a view as an \<open>int\<close>.\<close>

(* map: flow/layers/platform_view_layer.cc 14 34 PlatformViewLayer::Preroll *)
definition platform_view_Preroll ::
  "'d flow_env \<Rightarrow> layer_info \<Rightarrow> SkPoint \<Rightarrow> SkPoint \<Rightarrow> 64 word \<Rightarrow> ('d, 'i) preroll_context \<Rightarrow> (layer_info \<times> ('d, 'i) preroll_context) res" where
  "platform_view_Preroll E i off sz view_id c =
     (let i = i\<lparr>paint_bounds := rect_at (e_gm E) off sz\<rparr> in
      if \<not> has_view_embedder E then Inr (i, c)
      else
        let c = c\<lparr>has_platform_view := True\<rparr>; i = i\<lparr>subtree_has_platform_view := True\<rparr>;
            mutators = fill_mutators (e_gm E) (pc_stack c) [] in
        bindr (matrix_3x3 (e_D E) (the_delegate (pc_stack c))) (\<lambda>m.
        Inr (i, c\<lparr>embedder_calls := embedder_calls c @
          [PrerollCompositeEmbeddedView (ucast view_id) (EmbeddedViewParams (e_gm E) m sz mutators (uses_display_list E)),
           PushVisitedPlatformView (ucast view_id)]\<rparr>)))"

section \<open>All layers\<close>

definition leaf :: "layer_kind \<Rightarrow> scene_layer list \<Rightarrow> (layer_info \<times> ('d, 'i) preroll_context) res \<Rightarrow> ('d, 'i) prerolled" where
  "leaf k ls r = bindr r (\<lambda>(i, c). Inr (SceneLayer i k ls, c))"

definition preroll_layer ::
  "'d flow_env \<Rightarrow> layer_info \<Rightarrow> layer_kind \<Rightarrow> scene_layer list \<Rightarrow> ('d, 'i) kids \<Rightarrow> ('d, 'i) preroll_context \<Rightarrow> ('d, 'i) prerolled" where
  "preroll_layer E i k ls kids c = (case k of
     ContainerLayer \<Rightarrow> container_Preroll kids i k c
   | TransformLayer m \<Rightarrow> transform_Preroll E kids i m c
   | OpacityLayer a off \<Rightarrow> opacity_Preroll E kids (ls = []) i a off c
   | ColorFilterLayer f \<Rightarrow> color_filter_Preroll E kids i f c
   | ImageFilterLayer f off \<Rightarrow> image_filter_Preroll E kids i f off c
   | BackdropFilterLayer f mode \<Rightarrow> backdrop_filter_Preroll E kids i f mode c
   | ClipRectLayer r b \<Rightarrow>
       clip_Preroll E kids i k (UsesSaveLayer b) r (mutator_clipRect (e_gm E) (e_D E) r (b \<noteq> hardEdge)) c
   | ClipRRectLayer r b \<Rightarrow>
       clip_Preroll E kids i k (UsesSaveLayer b) (rrect_getBounds (e_sk E) r) (mutator_clipRRect (e_gm E) (e_D E) r (b \<noteq> hardEdge)) c
   | ClipPathLayer p b \<Rightarrow>
       clip_Preroll E kids i k (UsesSaveLayer b) (path_getBounds (e_sk E) p) (mutator_clipPath (e_gm E) (e_D E) p (b \<noteq> hardEdge)) c
   | ShaderMaskLayer s r m \<Rightarrow> shader_mask_Preroll E kids i k c
   | PhysicalShapeLayer col sh el p b \<Rightarrow> physical_shape_Preroll E kids i k el p b c
   | DisplayListLayer off d cx w \<Rightarrow> (case d of
       None \<Rightarrow> Inl Undefined | Some p \<Rightarrow> leaf k ls (display_list_Preroll E i off p cx w c))
   | TextureLayer off sz t f s \<Rightarrow> leaf k ls (Inr (texture_Preroll E i off sz c))
   | PlatformViewLayer off sz v \<Rightarrow> leaf k ls (platform_view_Preroll E i off sz v c)
   | PerformanceOverlayLayer o1 \<Rightarrow> Inr (SceneLayer i k ls, c))"

fun Preroll :: "'d flow_env \<Rightarrow> scene_layer \<Rightarrow> ('d, 'i) preroll_context \<Rightarrow> ('d, 'i) prerolled"
  and preroll_each :: "'d flow_env \<Rightarrow> scene_layer list \<Rightarrow> ('d, 'i) kids" where
  "Preroll E (SceneLayer i k ls) = preroll_layer E i k ls (preroll_each E ls)"
| "preroll_each E [] = (\<lambda>st c. Inr (([], st), c))"
| "preroll_each E (l # ls) = (\<lambda>st c.
     bindr (Preroll E l (c\<lparr>has_platform_view := False, has_texture_layer := False, renderable_state_flags := 0\<rparr>)) (\<lambda>(l, c).
     bindr (preroll_each E ls (after_child E l c st) c) (\<lambda>((ls, st), c). Inr ((l # ls, st), c))))"

text \<open>The context of a frame, and the preroll of a whole tree: whether the surface has to be read back.\<close>

definition preroll_context_new ::
  "'d state_stack \<Rightarrow> 'i raster_cache option \<Rightarrow> 64 word list option \<Rightarrow> (64 word \<Rightarrow> cache_item) \<Rightarrow> ('d, 'i) preroll_context" where
  "preroll_context_new s cache es items =
     \<lparr>pc_cache = cache, pc_stack = s, surface_needs_readback = False, has_platform_view = False,
      has_texture_layer = False, renderable_state_flags = 0, raster_cached_entries = es, cache_items = items,
      embedder_calls = []\<rparr>"

(* map: flow/layers/layer_tree.cc 35 75 LayerTree::Preroll *)
definition tree_Preroll ::
  "'d flow_env \<Rightarrow> ('d \<Rightarrow> 'd) \<Rightarrow> 'd \<Rightarrow> 'i raster_cache \<Rightarrow> (64 word \<Rightarrow> cache_item) \<Rightarrow> bool \<Rightarrow> bool \<Rightarrow> scene_layer option \<Rightarrow>
   (bool \<times> (scene_layer \<times> ('d, 'i) preroll_context) option) res" where
  "tree_Preroll E mk d cache items checkered ignore_cache root = (case root of
     None \<Rightarrow> Inr (False, None)
   | Some l \<Rightarrow>
       let cache = SetCheckboardCacheImages checkered cache in
       bindr (set_preroll_delegate (e_gm E) (e_D E) mk (state_stack_new d)) (\<lambda>s.
       bindr (Preroll E l (preroll_context_new s (if ignore_cache then None else Some cache) (Some []) items)) (\<lambda>(l, c).
       Inr (surface_needs_readback c, Some (l, c)))))"

end
