(* ===== verification/Flow_Paint.thy ===== *)
theory Flow_Paint
  imports Flow_Preroll
begin

text \<open>
  The \<open>Paint\<close> of every layer of \<open>flow/layers/\<close>, the rasterizing of what is cached (\<open>flow/raster_cache.cc\<close> and the items)
  and the passes of \<open>flow/layers/layer_tree.cc\<close>. What is drawn goes to a canvas of Skia or to a builder, each known
  by an address; the drawing itself is a parameter.
\<close>

section \<open>What is drawn\<close>

datatype 'i canvas_draw =
    CanvasRenderTo picture SkScalar
  | CanvasDrawImage 'i SkScalar SkScalar "sk_paint option"
  | CanvasDrawShadow SkPath DlColor SkScalar bool SkScalar
  | CanvasDrawPath SkPath DlColor
  | CanvasDrawPaint DlColor
  | CanvasMaskRect SkPoint SkRect DlBlendMode "DlColorSource option"
  | CanvasVisualize bool SkRect
  | CanvasStatistics bool SkScalar SkScalar
  | CanvasClear
  | CanvasTranslate SkScalar SkScalar
  | CanvasConcat SkMatrix
  | CanvasCheckerboard SkRect

datatype builder_draw =
    BuilderDrawDisplayList dl_ref
  | BuilderTranslate SkScalar SkScalar
  | BuilderDrawRect SkRect DlPaint

text \<open>
  \<open>texture_paint\<close> is \<open>Texture::Paint\<close>, which gets the canvas, the builder and both paints; \<open>composite_view\<close> is the canvas
  and the builder that the embedder gives for what follows a platform view. \<open>resume_delegate d d'\<close> is \<open>d'\<close>, delegating to
  what \<open>d\<close> delegates to.
\<close>

record ('d, 'i) painter =
  canvas_op :: "nat \<Rightarrow> 'i canvas_draw \<Rightarrow> 'd \<Rightarrow> 'd res"
  builder_op :: "nat \<Rightarrow> builder_draw \<Rightarrow> 'd \<Rightarrow> 'd res"
  total_matrix :: "nat \<Rightarrow> 'd \<Rightarrow> SkMatrix"
  texture_paint :: "64 word \<Rightarrow> (nat option \<times> nat option \<Rightarrow> sk_paint option \<times> DlPaint option \<Rightarrow> SkRect \<Rightarrow> bool \<Rightarrow> DlImageSampling \<Rightarrow> 'd \<Rightarrow> 'd res) option"
  composite_view :: "32 word \<Rightarrow> nat option \<times> nat option"
  canvas_delegate :: "nat \<Rightarrow> 'd \<Rightarrow> 'd"
  builder_delegate :: "nat \<Rightarrow> 'd \<Rightarrow> 'd"
  make_surface :: "SkRect \<Rightarrow> 'd \<Rightarrow> (nat \<times> 'd) option"
  makeImageSnapshot :: "nat \<Rightarrow> 'd \<Rightarrow> 'i option"
  resume_delegate :: "'d \<Rightarrow> 'd \<Rightarrow> 'd"
  image_ops_of :: "'i image_ops"

(* map: flow/layers/layer.h 92 123 PaintContext *)
record ('d, 'i) paint_context =
  pt_stack :: "'d state_stack"
  pt_canvas :: "nat option"
  pt_builder :: "nat option"
  pt_cache :: "'i raster_cache option"
  pt_items :: "64 word \<Rightarrow> cache_item"

type_synonym ('d, 'i) painted = "('d, 'i) paint_context res"

definition with_delegate :: "('d \<Rightarrow> 'd res) \<Rightarrow> ('d, 'i) paint_context \<Rightarrow> ('d, 'i) painted" where
  "with_delegate f c =
     bindr (f (the_delegate (pt_stack c))) (\<lambda>d. Inr (c\<lparr>pt_stack := (pt_stack c)\<lparr>the_delegate := d\<rparr>\<rparr>))"

definition draw_canvas :: "('d, 'i) painter \<Rightarrow> 'i canvas_draw \<Rightarrow> ('d, 'i) paint_context \<Rightarrow> ('d, 'i) painted" where
  "draw_canvas P x c = (case pt_canvas c of
     None \<Rightarrow> Inl Undefined | Some a \<Rightarrow> with_delegate (canvas_op P a x) c)"

definition draw_builder :: "('d, 'i) painter \<Rightarrow> nat \<Rightarrow> builder_draw \<Rightarrow> ('d, 'i) paint_context \<Rightarrow> ('d, 'i) painted" where
  "draw_builder P a x = with_delegate (builder_op P a x)"

text \<open>A scope of the state stack, and a mutator used within one.\<close>

definition paint_scope ::
  "'d flow_env \<Rightarrow> (bool \<times> ('d, 'i) paint_context \<Rightarrow> ('d, 'i) painted) \<Rightarrow> ('d, 'i) paint_context \<Rightarrow> ('d, 'i) painted" where
  "paint_scope E body c =
     bindr (body (True, c)) (\<lambda>c'.
     bindr (restore_to_count (e_D E) (length (entries (pt_stack c))) (pt_stack c')) (\<lambda>s.
     Inr (c'\<lparr>pt_stack := s\<rparr>)))"

definition mutator ::
  "('d mutator_context \<Rightarrow> 'd mutator_context res) \<Rightarrow> bool \<times> ('d, 'i) paint_context \<Rightarrow> (bool \<times> ('d, 'i) paint_context) res" where
  "mutator f = (\<lambda>(n, c). bindr (f (n, pt_stack c)) (\<lambda>(n, s). Inr (n, c\<lparr>pt_stack := s\<rparr>)))"

definition mutator_if ::
  "bool \<Rightarrow> ('d mutator_context \<Rightarrow> 'd mutator_context res) \<Rightarrow> bool \<times> ('d, 'i) paint_context \<Rightarrow> (bool \<times> ('d, 'i) paint_context) res" where
  "mutator_if b f m = (if b then mutator f m else Inr m)"

text \<open>If the first draws from the cache, the layer is done.\<close>

definition or_else ::
  "(bool \<times> ('d, 'i) paint_context) res \<Rightarrow> (('d, 'i) paint_context \<Rightarrow> ('d, 'i) painted) \<Rightarrow> ('d, 'i) painted" where
  "or_else r f = bindr r (\<lambda>(drawn, c). if drawn then Inr c else f c)"

section \<open>Drawing from the cache\<close>

definition sk_fill :: "('d, 'i) paint_context \<Rightarrow> sk_paint option" where
  "sk_fill c = fill_sk_paint (outstanding (pt_stack c)) kSrcOver"

(* map: flow/raster_cache.cc 31 43 RasterCacheResult::draw *)
definition result_draw ::
  "'d flow_env \<Rightarrow> ('d, 'i) painter \<Rightarrow> 'i raster_result \<Rightarrow> nat \<Rightarrow> sk_paint option \<Rightarrow> ('d, 'i) paint_context \<Rightarrow> ('d, 'i) painted" where
  "result_draw E P r a p c =
     (let m = GetIntegralTransCTM33 (e_gm E) (total_matrix P a (the_delegate (pt_stack c)));
          bounds = GetRoundedOutDeviceBounds (e_sk E) (e_gm E) (result_logical_rect r) m in
      case result_image r of
        None \<Rightarrow> Inl Undefined
      | Some i \<Rightarrow>
          bindr (ensure DCheck_Failed (image_fits (image_ops_of P) bounds i)) (\<lambda>_.
          with_delegate (canvas_op P a (CanvasDrawImage i (fLeft bounds) (fTop bounds) p)) c))"

definition draw_cached ::
  "'d flow_env \<Rightarrow> ('d, 'i) painter \<Rightarrow> raster_key_id \<Rightarrow> 'i raster_cache \<Rightarrow> nat \<Rightarrow> sk_paint option \<Rightarrow> ('d, 'i) paint_context \<Rightarrow>
   (bool \<times> ('d, 'i) paint_context) res" where
  "draw_cached E P key cache a p c =
     (case cached_image key (total_matrix P a (the_delegate (pt_stack c))) cache of
        None \<Rightarrow> Inr (False, c)
      | Some r \<Rightarrow> bindr (result_draw E P r a p c) (\<lambda>c. Inr (True, c)))"

(* map: flow/layers/layer_raster_cache_item.cc 174 191 LayerRasterCacheItem::Draw *)
definition layer_item_Draw ::
  "'d flow_env \<Rightarrow> ('d, 'i) painter \<Rightarrow> 64 word \<Rightarrow> sk_paint option \<Rightarrow> ('d, 'i) paint_context \<Rightarrow> (bool \<times> ('d, 'i) paint_context) res" where
  "layer_item_Draw E P i p c = (case (pt_cache c, pt_canvas c) of
     (Some cache, Some a) \<Rightarrow>
       (let t = pt_items c i in case cache_state t of
          kNone \<Rightarrow> Inr (False, c)
        | kCurrent \<Rightarrow> draw_cached E P (item_key t) cache a p c
        | kChildren \<Rightarrow> (case layer_children_id t of
            None \<Rightarrow> Inl Bad_Variant_Access | Some k \<Rightarrow> draw_cached E P k cache a p c))
   | _ \<Rightarrow> Inr (False, c))"

(* map: flow/layers/display_list_raster_cache_item.cc 132 142 DisplayListRasterCacheItem::Draw *)
definition list_item_Draw ::
  "'d flow_env \<Rightarrow> ('d, 'i) painter \<Rightarrow> 64 word \<Rightarrow> sk_paint option \<Rightarrow> ('d, 'i) paint_context \<Rightarrow> (bool \<times> ('d, 'i) paint_context) res" where
  "list_item_Draw E P i p c = (case (pt_cache c, pt_canvas c) of
     (Some cache, Some a) \<Rightarrow>
       if cache_state (pt_items c i) = kCurrent then draw_cached E P (item_key (pt_items c i)) cache a p c
       else Inr (False, c)
   | _ \<Rightarrow> Inr (False, c))"

(* map: flow/layers/layer_raster_cache_item.h 52 52 LayerRasterCacheItem::IsCacheChildren *)
definition IsCacheChildren :: "64 word \<Rightarrow> ('d, 'i) paint_context \<Rightarrow> bool" where
  "IsCacheChildren i c \<longleftrightarrow> cache_state (pt_items c i) = kChildren"

section \<open>Children\<close>

(* map: flow/layers/layer.h 232 245 Layer::needs_painting *)
definition needs_painting :: "'d flow_env \<Rightarrow> layer_info \<Rightarrow> ('d, 'i) paint_context \<Rightarrow> bool res" where
  "needs_painting E i c =
     (if subtree_has_platform_view i then Inr True
      else if painting_is_nop (pt_stack c) then Inr False
      else bindr (content_culled (e_D E) (paint_bounds i) (the_delegate (pt_stack c))) (\<lambda>culled. Inr (\<not> culled)))"

type_synonym ('d, 'i) painter_of_children = "('d, 'i) paint_context \<Rightarrow> ('d, 'i) painted"

(* map: flow/layers/container_layer.cc 176 195 ContainerLayer::PaintChildren *)
definition PaintChildren ::
  "'d flow_env \<Rightarrow> ('d, 'i) painter_of_children \<Rightarrow> layer_info \<Rightarrow> ('d, 'i) paint_context \<Rightarrow> ('d, 'i) painted" where
  "PaintChildren E kids i =
     paint_scope E (\<lambda>(n, c).
       bindr (applyState (e_gm E) (e_D E) (child_paint_bounds i) (children_renderable_state_flags i) (pt_stack c)) (\<lambda>s.
       kids (c\<lparr>pt_stack := s\<rparr>)))"

section \<open>The layers with children\<close>

(* map: flow/layers/transform_layer.cc 54 61 TransformLayer::Paint *)
definition transform_Paint ::
  "'d flow_env \<Rightarrow> ('d, 'i) painter_of_children \<Rightarrow> layer_info \<Rightarrow> SkMatrix \<Rightarrow> ('d, 'i) paint_context \<Rightarrow> ('d, 'i) painted" where
  "transform_Paint E kids i m =
     paint_scope E (\<lambda>mc. bindr (mutator (mutator_transform (e_gm E) (e_D E) m) mc) (\<lambda>(n, c). PaintChildren E kids i c))"

(* map: flow/layers/opacity_layer.cc 71 91 OpacityLayer::Paint *)
definition opacity_Paint ::
  "'d flow_env \<Rightarrow> ('d, 'i) painter \<Rightarrow> ('d, 'i) painter_of_children \<Rightarrow> layer_info \<Rightarrow> 8 word \<Rightarrow> SkPoint \<Rightarrow>
   ('d, 'i) paint_context \<Rightarrow> ('d, 'i) painted" where
  "opacity_Paint E P kids i alpha off =
     paint_scope E (\<lambda>mc.
       bindr (mutator (mutator_translate (e_gm E) (e_D E) (fst off) (snd off)) mc) (\<lambda>mc.
       bindr (mutator_if (pt_cache (snd mc) \<noteq> None) (mutator_integralTransform (e_gm E) (e_D E)) mc) (\<lambda>mc.
       bindr (mutator (applyOpacity (e_gm E) (e_D E) (child_paint_bounds i) (double_opacity E alpha)) mc) (\<lambda>(n, c).
       or_else (if \<not> children_can_accept_opacity i then layer_item_Draw E P (unique_id i) (sk_fill c) c else Inr (False, c))
         (PaintChildren E kids i)))))"

(* map: flow/layers/color_filter_layer.cc 65 99 ColorFilterLayer::Paint *)
definition color_filter_Paint ::
  "'d flow_env \<Rightarrow> ('d, 'i) painter \<Rightarrow> ('d, 'i) painter_of_children \<Rightarrow> layer_info \<Rightarrow> DlColorFilter ptr \<Rightarrow>
   ('d, 'i) paint_context \<Rightarrow> ('d, 'i) painted" where
  "color_filter_Paint E P kids i f =
     paint_scope E (\<lambda>mc.
       bindr (mutator_if (pt_cache (snd mc) \<noteq> None) (mutator_integralTransform (e_gm E) (e_D E)) mc) (\<lambda>(n, c).
       or_else (if pt_cache c \<noteq> None \<and> \<not> IsCacheChildren (unique_id i) c
                then layer_item_Draw E P (unique_id i) (sk_fill c) c else Inr (False, c)) (\<lambda>c.
       bindr (mutator (applyColorFilter (e_gm E) (e_D E) (paint_bounds i) f) (n, c)) (\<lambda>(n, c).
       or_else (if pt_cache c \<noteq> None \<and> IsCacheChildren (unique_id i) c
                then layer_item_Draw E P (unique_id i) (sk_fill c) c else Inr (False, c))
         (PaintChildren E kids i)))))"

text \<open>The children drawn from the cache get the filter for the device; the paint is that of the outstanding attributes.\<close>

definition filtered_fill :: "DlImageFilter ptr \<Rightarrow> ('d, 'i) paint_context \<Rightarrow> sk_paint" where
  "filtered_fill f c = (case sk_fill c of
     Some p \<Rightarrow> p\<lparr>sk_imageFilter := pointee f\<rparr>
   | None \<Rightarrow> \<lparr>sk_alphaf = float_one, sk_colorFilter = None, sk_imageFilter = pointee f, sk_blendMode = kSrcOver\<rparr>)"

(* map: flow/layers/image_filter_layer.cc 98 139 ImageFilterLayer::Paint *)
definition image_filter_Paint ::
  "'d flow_env \<Rightarrow> ('d, 'i) painter \<Rightarrow> ('d, 'i) painter_of_children \<Rightarrow> layer_info \<Rightarrow> DlImageFilter ptr \<Rightarrow> SkPoint \<Rightarrow>
   ('d, 'i) paint_context \<Rightarrow> ('d, 'i) painted" where
  "image_filter_Paint E P kids i f off =
     paint_scope E (\<lambda>(n, c).
       or_else (if pt_cache c \<noteq> None \<and> \<not> IsCacheChildren (unique_id i) c
                then layer_item_Draw E P (unique_id i) (sk_fill c) c else Inr (False, c)) (\<lambda>c.
       bindr (mutator (mutator_translate (e_gm E) (e_D E) (fst off) (snd off)) (n, c)) (\<lambda>mc.
       bindr (mutator_if (pt_cache (snd mc) \<noteq> None) (mutator_integralTransform (e_gm E) (e_D E)) mc) (\<lambda>(n, c).
       or_else (if pt_cache c \<noteq> None \<and> IsCacheChildren (unique_id i) c
                then bindr (ensure DCheck_Failed (transformed_filter i \<noteq> None)) (\<lambda>_.
                  layer_item_Draw E P (unique_id i) (Some (filtered_fill (transformed_filter i) c)) c)
                else Inr (False, c)) (\<lambda>c.
       bindr (mutator (applyImageFilter (e_gm E) (e_D E) (child_paint_bounds i) f) (n, c)) (\<lambda>(n, c).
       PaintChildren E kids i c))))))"

(* map: flow/layers/backdrop_filter_layer.cc 56 63 BackdropFilterLayer::Paint *)
definition backdrop_filter_Paint ::
  "'d flow_env \<Rightarrow> ('d, 'i) painter_of_children \<Rightarrow> layer_info \<Rightarrow> DlImageFilter ptr \<Rightarrow> DlBlendMode \<Rightarrow>
   ('d, 'i) paint_context \<Rightarrow> ('d, 'i) painted" where
  "backdrop_filter_Paint E kids i f mode =
     paint_scope E (\<lambda>mc.
       bindr (mutator (applyBackdropFilter (e_gm E) (e_D E) (paint_bounds i) f mode) mc) (\<lambda>(n, c). PaintChildren E kids i c))"

(* map: flow/layers/clip_shape_layer.h 76 101 ClipShapeLayer::Paint *)
definition clip_Paint ::
  "'d flow_env \<Rightarrow> ('d, 'i) painter \<Rightarrow> ('d, 'i) painter_of_children \<Rightarrow> layer_info \<Rightarrow> bool \<Rightarrow>
   ('d mutator_context \<Rightarrow> 'd mutator_context res) \<Rightarrow> ('d, 'i) paint_context \<Rightarrow> ('d, 'i) painted" where
  "clip_Paint E P kids i uses_save_layer apply_clip =
     paint_scope E (\<lambda>mc.
       bindr (mutator apply_clip mc) (\<lambda>mc.
       if \<not> uses_save_layer then PaintChildren E kids i (snd mc)
       else
         bindr (mutator_if (pt_cache (snd mc) \<noteq> None) (mutator_integralTransform (e_gm E) (e_D E)) mc) (\<lambda>(n, c).
         or_else (if pt_cache c \<noteq> None then
             bindr (applyState (e_gm E) (e_D E) (paint_bounds i) kCallerCanApplyOpacity (pt_stack c)) (\<lambda>s.
             bindr (layer_item_Draw E P (unique_id i) (sk_fill (c\<lparr>pt_stack := s\<rparr>)) (c\<lparr>pt_stack := s\<rparr>)) (\<lambda>(drawn, c').
             bindr (restore_to_count (e_D E) (length (entries (pt_stack c))) (pt_stack c')) (\<lambda>s'.
             Inr (drawn, c'\<lparr>pt_stack := s'\<rparr>))))
           else Inr (False, c)) (\<lambda>c.
         bindr (mutator (mutator_saveLayer (e_gm E) (e_D E) (paint_bounds i)) (n, c)) (\<lambda>(n, c).
         PaintChildren E kids i c)))))"

definition mask_paint :: "DlBlendMode \<Rightarrow> DlColorSource ptr \<Rightarrow> DlPaint" where
  "mask_paint mode s =
     (let p = DlPaint_default\<lparr>blendMode := mode\<rparr> in case s of None \<Rightarrow> p | Some x \<Rightarrow> p\<lparr>colorSource := Some (snd x)\<rparr>)"

(* map: flow/layers/shader_mask_layer.cc 50 87 ShaderMaskLayer::Paint *)
definition shader_mask_Paint ::
  "'d flow_env \<Rightarrow> ('d, 'i) painter \<Rightarrow> ('d, 'i) painter_of_children \<Rightarrow> layer_info \<Rightarrow> DlColorSource ptr \<Rightarrow> SkRect \<Rightarrow> DlBlendMode \<Rightarrow>
   ('d, 'i) paint_context \<Rightarrow> ('d, 'i) painted" where
  "shader_mask_Paint E P kids i source r mode =
     paint_scope E (\<lambda>mc.
       bindr (mutator_if (pt_cache (snd mc) \<noteq> None) (mutator_integralTransform (e_gm E) (e_D E)) mc) (\<lambda>(n, c).
       or_else (if pt_cache c \<noteq> None then layer_item_Draw E P (unique_id i) (sk_fill c) c else Inr (False, c)) (\<lambda>c.
       let shader_rect = \<lparr>fLeft = 0, fTop = 0, fRight = f_sub (e_gm E) (fRight r) (fLeft r),
             fBottom = f_sub (e_gm E) (fBottom r) (fTop r)\<rparr> in
       bindr (mutator (mutator_saveLayer (e_gm E) (e_D E) (paint_bounds i)) (n, c)) (\<lambda>(n, c).
       bindr (PaintChildren E kids i c) (\<lambda>c'.
       case pt_builder c of
         Some b \<Rightarrow> (case pt_builder c' of
             None \<Rightarrow> Inl Undefined
           | Some b' \<Rightarrow>
               bindr (draw_builder P b' (BuilderTranslate (fLeft r) (fTop r)) c')
                 (draw_builder P b' (BuilderDrawRect shader_rect (mask_paint mode source))))
       | None \<Rightarrow> draw_canvas P (CanvasMaskRect (fLeft r, fTop r) shader_rect mode (pointee source)) c')))))"

(* map: flow/layers/physical_shape_layer.cc 80 123 PhysicalShapeLayer::Paint *)
definition physical_shape_Paint ::
  "'d flow_env \<Rightarrow> ('d, 'i) painter \<Rightarrow> ('d, 'i) painter_of_children \<Rightarrow> layer_info \<Rightarrow> DlColor \<Rightarrow> DlColor \<Rightarrow> SkScalar \<Rightarrow> SkPath \<Rightarrow>
   clip_behavior \<Rightarrow> ('d, 'i) paint_context \<Rightarrow> ('d, 'i) painted" where
  "physical_shape_Paint E P kids i col shadow elevation path clip c =
     bindr (if float_eq elevation 0 then Inr c
            else draw_canvas P (CanvasDrawShadow path shadow elevation (drop_bit 24 col AND 0xFF \<noteq> 0xFF)
              (frame_device_pixel_ratio E)) c) (\<lambda>c.
     bindr (if clip \<noteq> antiAliasWithSaveLayer then draw_canvas P (CanvasDrawPath path col) c else Inr c)
     (paint_scope E (\<lambda>mc.
       let clip_path = (\<lambda>aa. mutator (mutator_clipPath (e_gm E) (e_D E) path aa)) in
       bindr (case clip of
           hardEdge \<Rightarrow> clip_path False mc
         | antiAlias \<Rightarrow> clip_path True mc
         | antiAliasWithSaveLayer \<Rightarrow>
             bindr (clip_path True mc) (mutator (mutator_saveLayer (e_gm E) (e_D E) (paint_bounds i)))
         | ClipNone \<Rightarrow> Inr mc) (\<lambda>(n, c).
       bindr (if UsesSaveLayer clip then draw_canvas P (CanvasDrawPaint col) c else Inr c) (PaintChildren E kids i)))))"

section \<open>The layers without\<close>

text \<open>A display list that cannot take a group opacity must not be asked to.\<close>

(* map: display_list/display_list.cc 196 200 DisplayList::RenderTo *)
definition RenderTo :: "('d, 'i) painter \<Rightarrow> picture \<Rightarrow> SkScalar \<Rightarrow> ('d, 'i) paint_context \<Rightarrow> ('d, 'i) painted" where
  "RenderTo P p opacity c =
     bindr (ensure DCheck_Failed (dl_can_apply_group_opacity (pic_list p) \<or> float_le float_one opacity)) (\<lambda>_.
     draw_canvas P (CanvasRenderTo p opacity) c)"

(* map: flow/layers/display_list_layer.cc 109 168 DisplayListLayer::Paint *)
definition display_list_Paint ::
  "'d flow_env \<Rightarrow> ('d, 'i) painter \<Rightarrow> layer_info \<Rightarrow> SkPoint \<Rightarrow> picture \<Rightarrow> ('d, 'i) paint_context \<Rightarrow> ('d, 'i) painted" where
  "display_list_Paint E P i off p =
     paint_scope E (\<lambda>mc.
       bindr (mutator (mutator_translate (e_gm E) (e_D E) (fst off) (snd off)) mc) (\<lambda>mc.
       bindr (mutator_if (pt_cache (snd mc) \<noteq> None) (mutator_integralTransform (e_gm E) (e_D E)) mc) (\<lambda>(n, c).
       or_else (if pt_cache c \<noteq> None then list_item_Draw E P (unique_id i) (sk_fill c) c else Inr (False, c)) (\<lambda>c.
       let opacity = ra_opacity (outstanding (pt_stack c)) in
       case pt_builder c of
         Some b \<Rightarrow> paint_scope E (\<lambda>(n, c).
           bindr (applyState (e_gm E) (e_D E) (pic_bounds p) 0 (pt_stack c)) (\<lambda>s.
           draw_builder P b (BuilderDrawDisplayList (pic_list p)) (c\<lparr>pt_stack := s\<rparr>))) c
       | None \<Rightarrow> RenderTo P p opacity c))))"

(* map: flow/layers/texture_layer.cc 50 72 TextureLayer::Paint *)
definition texture_Paint ::
  "'d flow_env \<Rightarrow> ('d, 'i) painter \<Rightarrow> layer_info \<Rightarrow> 64 word \<Rightarrow> bool \<Rightarrow> DlImageSampling \<Rightarrow> ('d, 'i) paint_context \<Rightarrow>
   ('d, 'i) painted" where
  "texture_Paint E P i t freeze sampling c = (case texture_paint P t of
     None \<Rightarrow> Inr c
   | Some paint \<Rightarrow>
       (case fill_paint (e_gm E) (outstanding (pt_stack c)) kSrcOver DlPaint_default of (p, needed) \<Rightarrow>
          with_delegate (paint (pt_canvas c, pt_builder c) (sk_fill c, if needed then Some p else None)
            (paint_bounds i) freeze sampling) c))"

text \<open>After a platform view everything is painted on what the embedder says.\<close>

(* map: flow/layers/platform_view_layer.cc 36 51 PlatformViewLayer::Paint *)
definition platform_view_Paint ::
  "'d flow_env \<Rightarrow> ('d, 'i) painter \<Rightarrow> 64 word \<Rightarrow> ('d, 'i) paint_context \<Rightarrow> ('d, 'i) painted" where
  "platform_view_Paint E P view_id c =
     (if \<not> has_view_embedder E then Inr c
      else
        let (canvas, builder) = composite_view P (ucast view_id); c = c\<lparr>pt_canvas := canvas, pt_builder := builder\<rparr> in
        bindr (if builder \<noteq> None then set_delegate_builder (e_gm E) (e_D E) (builder_delegate P) builder (pt_stack c)
               else set_delegate_canvas (e_gm E) (e_D E) (canvas_delegate P) canvas (pt_stack c)) (\<lambda>s.
        Inr (c\<lparr>pt_stack := s\<rparr>)))"

(* map: flow/layers/performance_overlay_layer.h 18 18 kDisplayRasterizerStatistics *)
definition kDisplayRasterizerStatistics :: "64 word" where "kDisplayRasterizerStatistics = 1"
(* map: flow/layers/performance_overlay_layer.h 19 19 kVisualizeRasterizerStatistics *)
definition kVisualizeRasterizerStatistics :: "64 word" where "kVisualizeRasterizerStatistics = 2"
(* map: flow/layers/performance_overlay_layer.h 20 20 kDisplayEngineStatistics *)
definition kDisplayEngineStatistics :: "64 word" where "kDisplayEngineStatistics = 4"
(* map: flow/layers/performance_overlay_layer.h 21 21 kVisualizeEngineStatistics *)
definition kVisualizeEngineStatistics :: "64 word" where "kVisualizeEngineStatistics = 8"

definition float_of_nat :: "flow_geo \<Rightarrow> nat \<Rightarrow> SkScalar" where
  "float_of_nat gm n = f_int gm (int n)"

text \<open>The first argument of what is drawn tells the times of the rasterizer from those of the engine.\<close>

(* map: flow/layers/performance_overlay_layer.cc 17 42 VisualizeStopWatch *)
definition VisualizeStopWatch ::
  "flow_geo \<Rightarrow> ('d, 'i) painter \<Rightarrow> bool \<Rightarrow> SkScalar \<Rightarrow> SkScalar \<Rightarrow> SkScalar \<Rightarrow> SkScalar \<Rightarrow> bool \<Rightarrow> bool \<Rightarrow>
   ('d, 'i) paint_context \<Rightarrow> ('d, 'i) painted" where
  "VisualizeStopWatch gm P raster x y width height show_graph show_labels c =
     bindr (if show_graph then draw_canvas P (CanvasVisualize raster
              \<lparr>fLeft = x, fTop = y, fRight = f_add gm x width, fBottom = f_add gm y height\<rparr>) c else Inr c) (\<lambda>c.
     if show_labels then draw_canvas P (CanvasStatistics raster (f_add gm x (float_of_nat gm 8))
       (f_add gm (f_add gm y height) (f_int gm (-10)))) c else Inr c)"

(* map: flow/layers/performance_overlay_layer.cc 89 110 PerformanceOverlayLayer::Paint *)
definition performance_overlay_Paint ::
  "'d flow_env \<Rightarrow> ('d, 'i) painter \<Rightarrow> layer_info \<Rightarrow> 64 word \<Rightarrow> ('d, 'i) paint_context \<Rightarrow> ('d, 'i) painted" where
  "performance_overlay_Paint E P i options c =
     (if options = 0 then Inr c
      else
        let gm = e_gm E; b = paint_bounds i; padding = float_of_nat gm 8;
            x = f_add gm (fLeft b) padding; y = f_add gm (fTop b) padding;
            width = f_sub gm (f_sub gm (fRight b) (fLeft b)) (float_of_nat gm 16);
            height = f_mul gm (f_sub gm (fBottom b) (fTop b)) 0x3F000000 in
        paint_scope E (\<lambda>(n, c).
          bindr (VisualizeStopWatch gm P True x y width (f_sub gm height padding)
            (options AND kVisualizeRasterizerStatistics \<noteq> 0) (options AND kDisplayRasterizerStatistics \<noteq> 0) c)
            (VisualizeStopWatch gm P False x (f_add gm y height) width (f_sub gm height padding)
              (options AND kVisualizeEngineStatistics \<noteq> 0) (options AND kDisplayEngineStatistics \<noteq> 0))) c)"

section \<open>All layers\<close>

text \<open>Each checks first that it has to be painted, platform views, overlays apart.\<close>

fun checks_painting :: "layer_kind \<Rightarrow> bool" where
  "checks_painting (PlatformViewLayer off sz v) = False"
| "checks_painting (PerformanceOverlayLayer o1) = False"
| "checks_painting _ = True"

definition paint_layer ::
  "'d flow_env \<Rightarrow> ('d, 'i) painter \<Rightarrow> layer_info \<Rightarrow> layer_kind \<Rightarrow> ('d, 'i) painter_of_children \<Rightarrow> ('d, 'i) paint_context \<Rightarrow>
   ('d, 'i) painted" where
  "paint_layer E P i k kids c =
     bindr (if checks_painting k then needs_painting E i c else Inr True) (\<lambda>needed.
     bindr (ensure DCheck_Failed needed) (\<lambda>_.
     case k of
       ContainerLayer \<Rightarrow> PaintChildren E kids i c
     | TransformLayer m \<Rightarrow> transform_Paint E kids i m c
     | OpacityLayer a off \<Rightarrow> opacity_Paint E P kids i a off c
     | ColorFilterLayer f \<Rightarrow> color_filter_Paint E P kids i f c
     | ImageFilterLayer f off \<Rightarrow> image_filter_Paint E P kids i f off c
     | BackdropFilterLayer f mode \<Rightarrow> backdrop_filter_Paint E kids i f mode c
     | ClipRectLayer r b \<Rightarrow> clip_Paint E P kids i (UsesSaveLayer b) (mutator_clipRect (e_gm E) (e_D E) r (b \<noteq> hardEdge)) c
     | ClipRRectLayer r b \<Rightarrow> clip_Paint E P kids i (UsesSaveLayer b) (mutator_clipRRect (e_gm E) (e_D E) r (b \<noteq> hardEdge)) c
     | ClipPathLayer p b \<Rightarrow> clip_Paint E P kids i (UsesSaveLayer b) (mutator_clipPath (e_gm E) (e_D E) p (b \<noteq> hardEdge)) c
     | ShaderMaskLayer s r m \<Rightarrow> shader_mask_Paint E P kids i s r m c
     | PhysicalShapeLayer col sh el p b \<Rightarrow> physical_shape_Paint E P kids i col sh el p b c
     | DisplayListLayer off d cx w \<Rightarrow> (case d of None \<Rightarrow> Inl DCheck_Failed | Some p \<Rightarrow> display_list_Paint E P i off p c)
     | TextureLayer off sz t fr s \<Rightarrow> texture_Paint E P i t fr s c
     | PlatformViewLayer off sz v \<Rightarrow> platform_view_Paint E P v c
     | PerformanceOverlayLayer o1 \<Rightarrow> performance_overlay_Paint E P i o1 c))"

fun Paint :: "'d flow_env \<Rightarrow> ('d, 'i) painter \<Rightarrow> scene_layer \<Rightarrow> ('d, 'i) painter_of_children"
  and paint_each :: "'d flow_env \<Rightarrow> ('d, 'i) painter \<Rightarrow> scene_layer list \<Rightarrow> ('d, 'i) painter_of_children" where
  "Paint E P (SceneLayer i k ls) = paint_layer E P i k (paint_each E P ls)"
| "paint_each E P [] = Inr"
| "paint_each E P (l # ls) = (\<lambda>c.
     bindr (needs_painting E (the_info l) c) (\<lambda>needed.
     bindr (if needed then Paint E P l c else Inr c) (paint_each E P ls)))"

definition paint_if_needed :: "'d flow_env \<Rightarrow> ('d, 'i) painter \<Rightarrow> scene_layer \<Rightarrow> ('d, 'i) painter_of_children" where
  "paint_if_needed E P l c =
     bindr (needs_painting E (the_info l) c) (\<lambda>needed. if needed then Paint E P l c else Inr c)"

section \<open>Filling the cache\<close>

(* map: flow/layers/layer_raster_cache_item.cc 101 138 Rasterize *)
definition rasterize_layer ::
  "'d flow_env \<Rightarrow> ('d, 'i) painter \<Rightarrow> CacheState \<Rightarrow> scene_layer \<Rightarrow> ('d, 'i) paint_context \<Rightarrow> nat \<Rightarrow> 'd \<Rightarrow> 'd res" where
  "rasterize_layer E P state l pc a d =
     bindr (ensure DCheck_Failed (state \<noteq> kNone)) (\<lambda>_.
     bindr (set_delegate_canvas (e_gm E) (e_D E) (canvas_delegate P) (Some a) (state_stack_new d)) (\<lambda>s.
     let c = pc\<lparr>pt_stack := s\<lparr>checkerboard := checkerboard (pt_stack pc)\<rparr>, pt_canvas := Some a, pt_builder := None\<rparr> in
     bindr (case state of
         kCurrent \<Rightarrow>
           bindr (needs_painting E (the_info l) c) (\<lambda>needed. bindr (ensure DCheck_Failed needed) (\<lambda>_. Paint E P l c))
       | _ \<Rightarrow>
           bindr (ensure DCheck_Failed (is_container (the_kind l))) (\<lambda>_.
           PaintChildren E (paint_each E P (children l)) (the_info l) c)) (\<lambda>c'.
     Inr (resume_delegate P d (the_delegate (pt_stack c'))))))"

definition float_negate :: "SkScalar \<Rightarrow> SkScalar" where
  "float_negate x = x XOR 0x80000000"

definition then_draw :: "('d, 'i) painter \<Rightarrow> nat \<Rightarrow> 'i canvas_draw \<Rightarrow> 'd res \<Rightarrow> 'd res" where
  "then_draw P a x r = bindr r (canvas_op P a x)"

(* map: flow/raster_cache.cc 52 86 RasterCache::Rasterize *)
definition cache_Rasterize ::
  "'d flow_env \<Rightarrow> ('d, 'i) painter \<Rightarrow> SkMatrix \<Rightarrow> SkRect \<Rightarrow> (nat \<Rightarrow> 'd \<Rightarrow> 'd res) \<Rightarrow> bool \<Rightarrow> 'd \<Rightarrow>
   ('i raster_result option \<times> 'd) res" where
  "cache_Rasterize E P ctm logical_rect draw_function checkered d =
     (let m = GetIntegralTransCTM33 (e_gm E) ctm;
          dest = GetRoundedOutDeviceBounds (e_sk E) (e_gm E) logical_rect m in
      case make_surface P dest d of
        None \<Rightarrow> Inr (None, d)
      | Some (a, d) \<Rightarrow>
          bindr (then_draw P a (CanvasConcat m) (then_draw P a
            (CanvasTranslate (float_negate (fLeft dest)) (float_negate (fTop dest))) (canvas_op P a CanvasClear d))) (\<lambda>d.
          bindr (draw_function a d) (\<lambda>d.
          bindr (if checkered then canvas_op P a (CanvasCheckerboard logical_rect) d else Inr d) (\<lambda>d.
          Inr (Some \<lparr>result_image = makeImageSnapshot P a d, result_logical_rect = logical_rect\<rparr>, d)))))"

text \<open>\<open>UpdateCacheEntry\<close> with the rasterizing that it asks for when there is no image yet.\<close>

definition fill_entry ::
  "'d flow_env \<Rightarrow> ('d, 'i) painter \<Rightarrow> raster_key_id \<Rightarrow> SkMatrix \<Rightarrow> SkRect \<Rightarrow> (nat \<Rightarrow> 'd \<Rightarrow> 'd res) \<Rightarrow> 'i raster_cache \<Rightarrow>
   ('d, 'i) paint_context \<Rightarrow> (bool \<times> ('d, 'i) paint_context) res" where
  "fill_entry E P key m rect draw_function cache c =
     bindr (if entry_image (entry_or_new (RasterCacheKey key m) cache) = None
            then cache_Rasterize E P m rect draw_function (checkerboard_images cache) (the_delegate (pt_stack c))
            else Inr (None, the_delegate (pt_stack c))) (\<lambda>(r, d).
     case UpdateCacheEntry key m r cache of (filled, cache) \<Rightarrow>
       Inr (filled, c\<lparr>pt_cache := Some cache, pt_stack := (pt_stack c)\<lparr>the_delegate := d\<rparr>\<rparr>))"

(* map: flow/layers/layer_raster_cache_item.cc 142 167 LayerRasterCacheItem::TryToPrepareRasterCache *)
definition layer_TryToPrepare ::
  "'d flow_env \<Rightarrow> ('d, 'i) painter \<Rightarrow> scene_layer \<Rightarrow> bool \<Rightarrow> ('d, 'i) paint_context \<Rightarrow> (bool \<times> ('d, 'i) paint_context) res" where
  "layer_TryToPrepare E P l parent_cached c = (case pt_cache c of
     None \<Rightarrow> Inr (False, c)
   | Some cache \<Rightarrow>
       if parent_cached then Inr (False, c)
       else
         let t = pt_items c (unique_id (the_info l));
             render = rasterize_layer E P (cache_state t) l c in
         case cache_state t of
           kNone \<Rightarrow> Inr (False, c)
         | kCurrent \<Rightarrow> fill_entry E P (item_key t) (item_matrix t) (paint_bounds (the_info l)) render cache c
         | kChildren \<Rightarrow>
             bindr (ensure DCheck_Failed (is_container (the_kind l))) (\<lambda>_.
             case layer_children_id t of
               None \<Rightarrow> Inl Bad_Variant_Access
             | Some k \<Rightarrow> fill_entry E P k (item_matrix t) (child_paint_bounds (the_info l)) render cache c))"

text \<open>The list is rasterized under its matrix with the offset, but entered for the bounds with the offset too.\<close>

(* map: flow/layers/display_list_raster_cache_item.cc 146 174 DisplayListRasterCacheItem::TryToPrepareRasterCache *)
definition list_TryToPrepare ::
  "'d flow_env \<Rightarrow> ('d, 'i) painter \<Rightarrow> 64 word \<Rightarrow> picture \<Rightarrow> SkPoint \<Rightarrow> bool \<Rightarrow> ('d, 'i) paint_context \<Rightarrow>
   (bool \<times> ('d, 'i) paint_context) res" where
  "list_TryToPrepare E P i p off parent_cached c =
     (let t = pt_items c i in case pt_cache c of
        None \<Rightarrow> Inr (False, c)
      | Some cache \<Rightarrow>
          if cache_state t = kNone \<or> parent_cached \<or> \<not> GenerateNewCacheInThisFrame cache then Inr (False, c)
          else fill_entry E P (item_key t) (transformation_matrix t) (offset_bounds (e_gm E) p off)
            (\<lambda>a. canvas_op P a (CanvasRenderTo p float_one)) cache c)"

fun find_layer :: "64 word \<Rightarrow> scene_layer \<Rightarrow> scene_layer option"
  and find_in :: "64 word \<Rightarrow> scene_layer list \<Rightarrow> scene_layer option" where
  "find_layer u (SceneLayer i k ls) = (if unique_id i = u then Some (SceneLayer i k ls) else find_in u ls)"
| "find_in u [] = None"
| "find_in u (l # ls) = (case find_layer u l of Some x \<Rightarrow> Some x | None \<Rightarrow> find_in u ls)"

text \<open>The item registered under an id belongs to the layer of the tree with that id.\<close>

definition TryToPrepare ::
  "'d flow_env \<Rightarrow> ('d, 'i) painter \<Rightarrow> scene_layer \<Rightarrow> 64 word \<Rightarrow> bool \<Rightarrow> ('d, 'i) paint_context \<Rightarrow> (bool \<times> ('d, 'i) paint_context) res" where
  "TryToPrepare E P root u parent_cached c = (case find_layer u root of
     None \<Rightarrow> Inl Undefined
   | Some l \<Rightarrow> (case the_kind l of
       DisplayListLayer off (Some p) cx w \<Rightarrow> list_TryToPrepare E P u p off parent_cached c
     | _ \<Rightarrow> layer_TryToPrepare E P l parent_cached c))"

fun touch_children ::
  "'d flow_env \<Rightarrow> ('d, 'i) painter \<Rightarrow> scene_layer \<Rightarrow> 64 word list \<Rightarrow> nat list \<Rightarrow> ('d, 'i) paint_context \<Rightarrow> ('d, 'i) painted" where
  "touch_children E P root es [] c = Inr c"
| "touch_children E P root es (j # js) c =
     (if j < length es then
        bindr (if cache_state (pt_items c (es ! j)) \<noteq> kNone then TryToPrepare E P root (es ! j) True c else Inr (False, c))
          (\<lambda>(_, c). touch_children E P root es js c)
      else Inl Undefined)"

(* map: flow/layers/layer_tree.cc 77 103 LayerTree::TryToRasterCache *)
function TryToRasterCache ::
  "'d flow_env \<Rightarrow> ('d, 'i) painter \<Rightarrow> scene_layer \<Rightarrow> 64 word list \<Rightarrow> nat \<Rightarrow> ('d, 'i) paint_context \<Rightarrow> ('d, 'i) painted" where
  "TryToRasterCache E P root es i c =
     (if i < length es then
        let t = pt_items c (es ! i) in
        if cache_state t \<noteq> kNone then
          bindr (TryToPrepare E P root (es ! i) False c) (\<lambda>(cached, c).
          if cached then
            bindr (touch_children E P root es (map (\<lambda>j. i + j + 1) [0..<child_items t]) c) (\<lambda>c.
            TryToRasterCache E P root es (i + (child_items t + 1)) c)
          else TryToRasterCache E P root es (i + 1) c)
        else TryToRasterCache E P root es (i + 1) c
      else Inr c)"
  by pat_completeness auto
termination by (relation "measure (\<lambda>(E, P, root, es, i, c). length es - i)") auto

declare TryToRasterCache.simps [simp del]

section \<open>A frame\<close>

(* map: flow/layers/layer_tree.cc 105 163 LayerTree::Paint *)
definition tree_Paint ::
  "'d flow_env \<Rightarrow> ('d, 'i) painter \<Rightarrow> bool \<Rightarrow> nat option \<Rightarrow> nat option \<Rightarrow> 'i raster_cache option \<Rightarrow>
   (64 word \<Rightarrow> cache_item) \<Rightarrow> 64 word list \<Rightarrow> scene_layer option \<Rightarrow> 'd \<Rightarrow> ('d \<times> 'i raster_cache option) res" where
  "tree_Paint E P checkered canvas builder cache items es root d = (case root of
     None \<Rightarrow> Inr (d, cache)
   | Some l \<Rightarrow>
       let s = (state_stack_new d)\<lparr>checkerboard := checkered\<rparr> in
       bindr (if builder \<noteq> None then set_delegate_builder (e_gm E) (e_D E) (builder_delegate P) builder s
              else set_delegate_canvas (e_gm E) (e_D E) (canvas_delegate P) canvas s) (\<lambda>s.
       let c = \<lparr>pt_stack = s, pt_canvas = canvas, pt_builder = builder, pt_cache = cache, pt_items = items\<rparr> in
       bindr (case cache of
           None \<Rightarrow> Inr c
         | Some r \<Rightarrow> TryToRasterCache E P l es 0 (c\<lparr>pt_cache := Some (EvictUnusedCacheEntries (image_ops_of P) r)\<rparr>)) (\<lambda>c.
       bindr (paint_if_needed E P l c) (\<lambda>c.
       Inr (the_delegate (pt_stack c), pt_cache c)))))"

text \<open>
  A tree flattened into a display list, without a cache and an embedder; \<open>recorder\<close> is the address of the recording
  builder, which is its canvas too.
\<close>

(* map: flow/layers/layer_tree.cc 165 225 LayerTree::Flatten *)
definition Flatten ::
  "'d flow_env \<Rightarrow> ('d, 'i) painter \<Rightarrow> ('d \<Rightarrow> 'd) \<Rightarrow> nat \<Rightarrow> (64 word \<Rightarrow> cache_item) \<Rightarrow> scene_layer option \<Rightarrow> 'd \<Rightarrow> 'd res" where
  "Flatten E P mk recorder items root d =
     (let E = E\<lparr>has_view_embedder := False\<rparr> in
      bindr (set_preroll_delegate (e_gm E) (e_D E) mk (state_stack_new d)) (\<lambda>ps.
      bindr (set_delegate_builder (e_gm E) (e_D E) (builder_delegate P) (Some recorder) (state_stack_new d)) (\<lambda>s.
      case root of
        None \<Rightarrow> Inr (the_delegate s)
      | Some l \<Rightarrow>
          bindr (Preroll E l (preroll_context_new ps None None items)) (\<lambda>(l, pc).
          bindr (paint_if_needed E P l \<lparr>pt_stack = s, pt_canvas = Some recorder, pt_builder = Some recorder,
            pt_cache = None, pt_items = cache_items pc\<rparr>) (\<lambda>c.
          Inr (the_delegate (pt_stack c)))))))"

end
