(* ===== verification/Flow_Stack_Laws.thy ===== *)
theory Flow_Stack_Laws
  imports Flow_Delegates "HOL-Library.Sublist"
begin

text \<open>
  What the layer state stack keeps: the outstanding attributes are a function of the entries, every entry saved
  the attributes in force before it, and so leaving a scope brings back what was outstanding on entry. For a
  delegate whose saves and restores nest (the locale \<open>scoped_delegate\<close>, interpreted on the builder and on the
  tracker) leaving a scope brings back its transform and clip too.
\<close>

named_theorems stack_kept \<open>operations that keep the well-formedness of the stack\<close>

section \<open>The attributes as a function of the entries\<close>

fun entry_attributes :: "flow_geo \<Rightarrow> state_entry \<Rightarrow> rendering_attributes \<Rightarrow> rendering_attributes" where
  "entry_attributes gm (SaveLayerEntry b m old) a = no_attributes"
| "entry_attributes gm (BackdropFilterEntry b f m old) a = no_attributes"
| "entry_attributes gm (OpacityEntry b x ox ob) a = a\<lparr>save_layer_bounds := b, ra_opacity := f_mul gm (ra_opacity a) x\<rparr>"
| "entry_attributes gm (ImageFilterEntry b f of' ob) a = a\<lparr>save_layer_bounds := b, ra_image_filter := f\<rparr>"
| "entry_attributes gm (ColorFilterEntry b f of' ob) a = a\<lparr>save_layer_bounds := b, ra_color_filter := f\<rparr>"
| "entry_attributes gm _ a = a"

fun entry_saved :: "state_entry \<Rightarrow> rendering_attributes \<Rightarrow> bool" where
  "entry_saved (SaveLayerEntry b m old) a \<longleftrightarrow> old = a"
| "entry_saved (BackdropFilterEntry b f m old) a \<longleftrightarrow> old = a"
| "entry_saved (OpacityEntry b x ox ob) a \<longleftrightarrow> ox = ra_opacity a \<and> ob = save_layer_bounds a"
| "entry_saved (ImageFilterEntry b f of' ob) a \<longleftrightarrow> of' = ra_image_filter a \<and> ob = save_layer_bounds a"
| "entry_saved (ColorFilterEntry b f of' ob) a \<longleftrightarrow> of' = ra_color_filter a \<and> ob = save_layer_bounds a"
| "entry_saved _ a \<longleftrightarrow> True"

definition attributes_of :: "flow_geo \<Rightarrow> state_entry list \<Rightarrow> rendering_attributes" where
  "attributes_of gm es = fold (entry_attributes gm) es no_attributes"

fun entries_saved :: "flow_geo \<Rightarrow> rendering_attributes \<Rightarrow> state_entry list \<Rightarrow> bool" where
  "entries_saved gm a [] \<longleftrightarrow> True"
| "entries_saved gm a (e # es) \<longleftrightarrow> entry_saved e a \<and> entries_saved gm (entry_attributes gm e a) es"

definition stack_ok :: "flow_geo \<Rightarrow> 'd state_stack \<Rightarrow> bool" where
  "stack_ok gm s \<longleftrightarrow> entries_saved gm no_attributes (entries s) \<and> outstanding s = attributes_of gm (entries s)"

lemma stack_ok_new: "stack_ok gm (state_stack_new d)"
  by (simp add: stack_ok_def state_stack_new_def attributes_of_def)

lemma attributes_of_snoc [simp]:
  "attributes_of gm (es @ [e]) = entry_attributes gm e (attributes_of gm es)"
  by (simp add: attributes_of_def)

lemma entries_saved_append:
  "entries_saved gm a (es @ fs) \<longleftrightarrow> entries_saved gm a es \<and> entries_saved gm (fold (entry_attributes gm) es a) fs"
  by (induction es arbitrary: a) auto

lemma entries_saved_snoc [simp]:
  "entries_saved gm no_attributes (es @ [e]) \<longleftrightarrow>
     entries_saved gm no_attributes es \<and> entry_saved e (attributes_of gm es)"
  by (simp add: entries_saved_append attributes_of_def)

section \<open>One entry\<close>

lemma tell_state:
  assumes "tell D c s = Inr s'"
  shows "entries s' = entries s \<and> outstanding s' = outstanding s \<and> checkerboard s' = checkerboard s \<and>
    delegate_call D c (the_delegate s) = Inr (the_delegate s')"
  using assms by (auto simp: tell_def res_simps)

lemma tell_layer_state:
  assumes "tell_layer D b m f s = Inr s'"
  shows "entries s' = entries s \<and> outstanding s' = no_attributes \<and> checkerboard s' = checkerboard s \<and>
    delegate_call D (DSaveLayer b (outstanding s) m f) (the_delegate s) = Inr (the_delegate s')"
  using assms by (auto simp: tell_layer_def res_simps dest!: tell_state)

lemma apply_entry_state:
  assumes "apply_entry gm D e s = Inr s'"
  shows "entries s' = entries s \<and> outstanding s' = entry_attributes gm e (outstanding s) \<and>
    checkerboard s' = checkerboard s"
  using assms by (cases e) (auto dest!: tell_state tell_layer_state)

lemma end_layer_state:
  assumes "end_layer D b old s = Inr s'"
  shows "entries s' = entries s \<and> outstanding s' = old \<and> checkerboard s' = checkerboard s"
  using assms by (auto simp: end_layer_def res_simps dest!: tell_state split: if_splits)

lemma restore_entry_state:
  assumes "restore_entry D e s = Inr s'" and "outstanding s = entry_attributes gm e a" and "entry_saved e a"
  shows "entries s' = entries s \<and> outstanding s' = a \<and> checkerboard s' = checkerboard s"
  using assms by (cases e) (auto dest!: tell_state end_layer_state)

lemma push_entry_entries:
  assumes "push_entry gm D e s = Inr s'"
  shows "entries s' = entries s @ [e] \<and> outstanding s' = entry_attributes gm e (outstanding s)"
  using assms by (auto simp: push_entry_def dest!: apply_entry_state)

lemma push_entry_ok:
  assumes "push_entry gm D e s = Inr s'" and "stack_ok gm s" and "entry_saved e (outstanding s)"
  shows "stack_ok gm s'"
  using push_entry_entries [OF assms(1)] assms(2, 3) by (simp add: stack_ok_def)

section \<open>Leaving a scope\<close>

lemma restore_to_count_ok:
  assumes "restore_to_count D n s = Inr s'" and "stack_ok gm s"
  shows "stack_ok gm s' \<and> entries s' = take n (entries s)"
  using assms
proof (induction D n s rule: restore_to_count.induct)
  case (1 D n s)
  show ?case
  proof (cases "n < length (entries s)")
    case False
    with 1 show ?thesis by (simp add: restore_to_count.simps [of D n s])
  next
    case True
    then have es: "entries s = butlast (entries s) @ [last (entries s)]"
      by (metis append_butlast_last_id less_nat_zero_code list.size(3))
    obtain t where t: "restore_entry D (last (entries s)) s = Inr t"
      and r: "restore_to_count D n (t\<lparr>entries := butlast (entries s)\<rparr>) = Inr s'"
      using "1.prems"(1) True by (auto simp: restore_to_count.simps [of D n s] res_simps)
    let ?e = "last (entries s)" and ?es = "butlast (entries s)"
    have ok: "entries_saved gm no_attributes ?es" "entry_saved ?e (attributes_of gm ?es)"
      "outstanding s = entry_attributes gm ?e (attributes_of gm ?es)"
      using "1.prems"(2) es unfolding stack_ok_def by (metis entries_saved_snoc attributes_of_snoc)+
    have "stack_ok gm (t\<lparr>entries := ?es\<rparr>)"
      using restore_entry_state [OF t ok(3, 2)] ok(1) by (simp add: stack_ok_def)
    then have "stack_ok gm s' \<and> entries s' = take n ?es"
      using "1.IH" [OF True t r] by simp
    with True show ?thesis by (auto simp: take_butlast)
  qed
qed

lemma in_scope_ok:
  assumes "in_scope D body s = Inr (r, s')" and "stack_ok gm s"
    and body: "\<And>t. body s = Inr (r, t) \<Longrightarrow> stack_ok gm t \<and> prefix (entries s) (entries t)"
  shows "entries s' = entries s \<and> outstanding s' = outstanding s \<and> stack_ok gm s'"
proof -
  obtain t where t: "body s = Inr (r, t)" and r: "restore_to_count D (length (entries s)) t = Inr s'"
    using assms(1) by (auto simp: in_scope_def res_simps)
  have "stack_ok gm s'" and "entries s' = take (length (entries s)) (entries t)"
    using restore_to_count_ok [OF r] body [OF t] by auto
  moreover obtain fs where "entries t = entries s @ fs" using body [OF t] by (auto simp: prefix_def)
  ultimately show ?thesis using assms(2) by (simp add: stack_ok_def)
qed


section \<open>Mutators\<close>

fun is_geometry :: "state_entry \<Rightarrow> bool" where
  "is_geometry (TranslateEntry x y) = True"
| "is_geometry (TransformMatrixEntry m) = True"
| "is_geometry (TransformM44Entry m) = True"
| "is_geometry IntegralTransformEntry = True"
| "is_geometry (ClipRectEntry r aa) = True"
| "is_geometry (ClipRRectEntry r aa) = True"
| "is_geometry (ClipPathEntry p aa) = True"
| "is_geometry _ = False"

fun is_save :: "state_entry \<Rightarrow> bool" where
  "is_save SaveEntry = True"
| "is_save (SaveLayerEntry b m old) = True"
| "is_save (BackdropFilterEntry b f m old) = True"
| "is_save _ = False"

lemma geometric_entry [simp]: "is_geometry e \<Longrightarrow> entry_saved e a \<and> \<not> is_save e"
  by (cases e) auto

text \<open>
  The pattern of every mutator: transforms and clips are pushed once a save has been pushed in the same
  context, anything else at any time. What pushing keeps in this pattern all methods keep.
\<close>

locale mutation_invariant =
  fixes gm :: flow_geo
    and D :: "'d delegate"
    and P :: "bool \<Rightarrow> 'd state_stack \<Rightarrow> bool"
  assumes push_attribute: "P n s \<Longrightarrow> \<not> is_geometry e \<Longrightarrow> entry_saved e (outstanding s) \<Longrightarrow> push_entry gm D e s = Inr s' \<Longrightarrow> P n s'"
    and push_save: "P n s \<Longrightarrow> is_save e \<Longrightarrow> entry_saved e (outstanding s) \<Longrightarrow> push_entry gm D e s = Inr s' \<Longrightarrow> P False s'"
    and push_geometric: "P False s \<Longrightarrow> is_geometry e \<Longrightarrow> push_entry gm D e s = Inr s' \<Longrightarrow> P False s'"
begin

lemma save_layer_keeps: "P n s \<Longrightarrow> save_layer gm D b s = Inr s' \<Longrightarrow> P n s' \<and> P False s'"
  unfolding save_layer_def using push_attribute push_save by (metis is_save.simps(2) entry_saved.simps(1) is_geometry.simps(9))

lemma do_save_keeps: "P n s \<Longrightarrow> do_save gm D s = Inr s' \<Longrightarrow> P n s' \<and> P False s'"
  unfolding do_save_def using push_attribute push_save by (metis is_save.simps(1) entry_saved.simps(6) is_geometry.simps(8))

lemma maybe_save_keeps:
  "P n s \<Longrightarrow> maybe_save_layer_flags gm D can s = Inr s' \<Longrightarrow> P n s'"
  "P n s \<Longrightarrow> maybe_save_layer_opacity gm D s = Inr s' \<Longrightarrow> P n s'"
  "P n s \<Longrightarrow> maybe_save_layer_color gm D cf s = Inr s' \<Longrightarrow> P n s'"
  "P n s \<Longrightarrow> maybe_save_layer_image gm D s = Inr s' \<Longrightarrow> P n s'"
  "P n s \<Longrightarrow> applyState gm D b can s = Inr s' \<Longrightarrow> P n s'"
  by (auto simp: maybe_save_layer_flags_def maybe_save_layer_opacity_def maybe_save_layer_color_def
      maybe_save_layer_image_def applyState_def save_outstanding_def split: if_splits dest: save_layer_keeps)

lemma maybe_save_geometric_keeps:
  "P n s \<Longrightarrow> maybe_save_layer_for_transform gm D n s = Inr s' \<Longrightarrow> P False s'"
  "P n s \<Longrightarrow> maybe_save_layer_for_clip gm D n s = Inr s' \<Longrightarrow> P False s'"
  by (auto simp: maybe_save_layer_for_transform_def maybe_save_layer_for_clip_def save_outstanding_def
      split: if_splits dest: save_layer_keeps do_save_keeps)

lemma push_attributes_keeps:
  "P n s \<Longrightarrow> push_opacity gm D b x s = Inr s' \<Longrightarrow> P n s'"
  "P n s \<Longrightarrow> push_color_filter gm D b cf s = Inr s' \<Longrightarrow> P n s'"
  "P n s \<Longrightarrow> push_image_filter gm D b f s = Inr s' \<Longrightarrow> P n s'"
  "P n s \<Longrightarrow> push_backdrop gm D b bf m s = Inr s' \<Longrightarrow> P n s'"
  by (auto simp: push_opacity_def push_color_filter_def push_image_filter_def push_backdrop_def bindr_eq_Inr
      dest: maybe_save_keeps push_attribute [rotated 3])

lemma push_geometry_keeps:
  assumes "P n s" and "is_geometry e"
  shows "push_transform_entry gm D e (n, s) = Inr (n', s') \<Longrightarrow> P n' s'"
    and "push_clip_entry gm D e (n, s) = Inr (n', s') \<Longrightarrow> P n' s'"
  using assms
  by (auto simp: push_transform_entry_def push_clip_entry_def bindr_eq_Inr
      dest: maybe_save_geometric_keeps push_geometric [rotated 2])

lemma geometry_keeps:
  assumes "P n s"
  shows "mutator_translate gm D x y (n, s) = Inr (n', s') \<Longrightarrow> P n' s'"
    and "mutator_transform gm D m (n, s) = Inr (n', s') \<Longrightarrow> P n' s'"
    and "mutator_transform44 gm D m44 (n, s) = Inr (n', s') \<Longrightarrow> P n' s'"
    and "mutator_integralTransform gm D (n, s) = Inr (n', s') \<Longrightarrow> P n' s'"
    and "mutator_clipRect gm D r aa (n, s) = Inr (n', s') \<Longrightarrow> P n' s'"
    and "mutator_clipRRect gm D rr aa (n, s) = Inr (n', s') \<Longrightarrow> P n' s'"
    and "mutator_clipPath gm D p aa (n, s) = Inr (n', s') \<Longrightarrow> P n' s'"
proof -
  show t: "mutator_translate gm D x y (n, s) = Inr (n', s') \<Longrightarrow> P n' s'" for x y
    using assms by (auto simp: mutator_translate_def split: if_splits dest: push_geometry_keeps [rotated 2])
  show "mutator_transform gm D m (n, s) = Inr (n', s') \<Longrightarrow> P n' s'"
    using assms by (auto simp: mutator_transform_def split: if_splits dest: push_geometry_keeps [rotated 2] t)
qed (use assms in \<open>auto simp: mutator_transform44_def mutator_integralTransform_def mutator_clipRect_def
    mutator_clipRRect_def mutator_clipPath_def dest: push_geometry_keeps [rotated 2]\<close>)

lemma attributes_keeps:
  assumes "P n s"
  shows "mutator_saveLayer gm D b (n, s) = Inr (n', s') \<Longrightarrow> P n' s'"
    and "applyOpacity gm D b x (n, s) = Inr (n', s') \<Longrightarrow> P n' s'"
    and "applyImageFilter gm D b f (n, s) = Inr (n', s') \<Longrightarrow> P n' s'"
    and "applyColorFilter gm D b cf (n, s) = Inr (n', s') \<Longrightarrow> P n' s'"
    and "applyBackdropFilter gm D b bf m (n, s) = Inr (n', s') \<Longrightarrow> P n' s'"
  using assms
  by (auto simp: mutator_saveLayer_def applyOpacity_def applyImageFilter_def applyColorFilter_def
      applyBackdropFilter_def bindr_eq_Inr split: if_splits option.splits
      dest: save_layer_keeps push_attributes_keeps)

end

text \<open>The methods of a mutator context as data.\<close>

datatype mutation =
    MutateSaveLayer SkRect
  | ApplyOpacity SkRect SkScalar
  | ApplyImageFilter SkRect "DlImageFilter ptr"
  | ApplyColorFilter SkRect "DlColorFilter ptr"
  | ApplyBackdropFilter SkRect "DlImageFilter ptr" DlBlendMode
  | MutateTranslate SkScalar SkScalar
  | MutateTransform SkMatrix
  | MutateTransformFull SkM44
  | MutateIntegralTransform
  | MutateClipRect SkRect bool
  | MutateClipRRect SkRRect bool
  | MutateClipPath SkPath bool

fun mutate :: "flow_geo \<Rightarrow> 'd delegate \<Rightarrow> 'd mutator_context \<Rightarrow> mutation \<Rightarrow> 'd mutator_context res" where
  "mutate gm D c (MutateSaveLayer b) = mutator_saveLayer gm D b c"
| "mutate gm D c (ApplyOpacity b x) = applyOpacity gm D b x c"
| "mutate gm D c (ApplyImageFilter b f) = applyImageFilter gm D b f c"
| "mutate gm D c (ApplyColorFilter b f) = applyColorFilter gm D b f c"
| "mutate gm D c (ApplyBackdropFilter b f m) = applyBackdropFilter gm D b f m c"
| "mutate gm D c (MutateTranslate x y) = mutator_translate gm D x y c"
| "mutate gm D c (MutateTransform m) = mutator_transform gm D m c"
| "mutate gm D c (MutateTransformFull m) = mutator_transform44 gm D m c"
| "mutate gm D c MutateIntegralTransform = mutator_integralTransform gm D c"
| "mutate gm D c (MutateClipRect r aa) = mutator_clipRect gm D r aa c"
| "mutate gm D c (MutateClipRRect r aa) = mutator_clipRRect gm D r aa c"
| "mutate gm D c (MutateClipPath p aa) = mutator_clipPath gm D p aa c"

context mutation_invariant
begin

lemma mutate_keeps: "P n s \<Longrightarrow> mutate gm D (n, s) m = Inr (n', s') \<Longrightarrow> P n' s'"
  by (cases m) (auto dest: geometry_keeps attributes_keeps)

end

sublocale mutation_invariant \<subseteq> mutating: guarded_machine "mutate gm D" "\<lambda>(n, s). P n s"
  by unfold_locales (auto dest: mutate_keeps)

text \<open>The first such invariant: the stack is well formed and has grown since the scope began.\<close>

interpretation well_formed: mutation_invariant gm D "\<lambda>n s. stack_ok gm s \<and> prefix es (entries s)" for gm D es
  by unfold_locales (auto dest: push_entry_ok push_entry_entries)

section \<open>Delegates whose saves nest\<close>

definition save_depth :: "state_entry list \<Rightarrow> nat" where
  "save_depth es = length (filter is_save es)"

fun geometry_call :: "delegate_call \<Rightarrow> bool" where
  "geometry_call (DTranslate x y) = True"
| "geometry_call (DTransformM44 m) = True"
| "geometry_call (DTransform m) = True"
| "geometry_call DIntegralTransform = True"
| "geometry_call (DClipRect r aa) = True"
| "geometry_call (DClipRRect r aa) = True"
| "geometry_call (DClipPath p aa) = True"
| "geometry_call _ = False"

text \<open>\<open>view\<close> is the stack of transforms and clips of the delegate, the current one first.\<close>

locale scoped_delegate =
  fixes D :: "'d delegate"
    and view :: "'d \<Rightarrow> 'v list"
  assumes save_pushes: "delegate_call D DSave d = Inr d' \<Longrightarrow> view d \<noteq> [] \<Longrightarrow> \<exists>x. view d' = x # view d"
    and layer_pushes: "delegate_call D (DSaveLayer b a m f) d = Inr d' \<Longrightarrow> view d \<noteq> [] \<Longrightarrow> \<exists>x. view d' = x # view d"
    and restore_pops: "delegate_call D DRestore d = Inr d' \<Longrightarrow> view d = x # v \<Longrightarrow> v \<noteq> [] \<Longrightarrow> view d' = v"
    and geometry_local: "delegate_call D c d = Inr d' \<Longrightarrow> geometry_call c \<Longrightarrow> view d = x # v \<Longrightarrow> \<exists>y. view d' = y # v"
    and checkerboard_keeps: "delegate_call D (DCheckerboard r) d = Inr d' \<Longrightarrow> view d \<noteq> [] \<Longrightarrow> view d' = view d"
begin

definition in_view :: "state_entry list \<Rightarrow> 'v list \<Rightarrow> bool \<Rightarrow> 'd state_stack \<Rightarrow> bool" where
  "in_view es v n s \<longleftrightarrow> v \<noteq> [] \<and> (\<exists>fs us. entries s = es @ fs \<and> view (the_delegate s) = us @ v \<and>
     length us = save_depth fs \<and> (\<not> n \<longrightarrow> us \<noteq> []))"

lemma in_viewI:
  "v \<noteq> [] \<Longrightarrow> entries s = es @ fs \<Longrightarrow> view (the_delegate s) = us @ v \<Longrightarrow> length us = save_depth fs \<Longrightarrow> n \<or> us \<noteq> [] \<Longrightarrow>
   in_view es v n s"
  by (auto simp: in_view_def)

lemma in_viewE:
  assumes "in_view es v n s"
  obtains fs us where "v \<noteq> []" "entries s = es @ fs" "view (the_delegate s) = us @ v" "length us = save_depth fs"
    "n \<or> us \<noteq> []"
  using assms by (auto simp: in_view_def)

lemma push_save_view:
  assumes "push_entry gm D e s = Inr s'" and "is_save e" and "view (the_delegate s) \<noteq> []"
  shows "\<exists>x. view (the_delegate s') = x # view (the_delegate s)"
  using assms
  by (cases e) (auto simp: push_entry_def dest!: tell_state tell_layer_state dest: save_pushes layer_pushes)

lemma push_plain_view:
  assumes "push_entry gm D e s = Inr s'" and "\<not> is_save e" and "\<not> is_geometry e"
  shows "the_delegate s' = the_delegate s"
  using assms by (cases e) (auto simp: push_entry_def)

lemma push_geometric_view:
  assumes "push_entry gm D e s = Inr s'" and "is_geometry e" and "view (the_delegate s) = x # v"
  shows "\<exists>y. view (the_delegate s') = y # v"
  using assms by (cases e) (auto simp: push_entry_def dest!: tell_state dest: geometry_local [rotated 2])

lemma in_view_push:
  assumes v: "in_view es v n s" and p: "push_entry gm D e s = Inr s'" and e: "\<not> is_geometry e \<or> \<not> n"
  shows "in_view es v (n \<and> \<not> is_save e) s'"
proof -
  from v obtain fs us where *: "v \<noteq> []" "entries s = es @ fs" "view (the_delegate s) = us @ v"
    "length us = save_depth fs" "n \<or> us \<noteq> []"
    by (rule in_viewE)
  have es: "entries s' = es @ (fs @ [e])" using push_entry_entries [OF p] *(2) by simp
  show ?thesis
  proof (cases "is_save e")
    case True
    then obtain x where "view (the_delegate s') = (x # us) @ v" using push_save_view [OF p] * by force
    with True es * show ?thesis by (intro in_viewI [of v s' es "fs @ [e]" "x # us"]) (auto simp: save_depth_def)
  next
    case False
    have "\<exists>ws. view (the_delegate s') = ws @ v \<and> length ws = length us"
    proof (cases "is_geometry e")
      case True
      with e *(5) obtain u us' where us: "us = u # us'" by (cases us) auto
      with *(3) have "view (the_delegate s) = u # us' @ v" by simp
      then obtain y where "view (the_delegate s') = y # us' @ v" using push_geometric_view [OF p True] by blast
      with us show ?thesis by (intro exI [of _ "y # us'"]) simp
    next
      case False
      with \<open>\<not> is_save e\<close> show ?thesis using push_plain_view [OF p] *(3) by auto
    qed
    then obtain ws where "view (the_delegate s') = ws @ v" "length ws = length us" by blast
    with False es * show ?thesis
      by (intro in_viewI [of v s' es "fs @ [e]" ws]) (auto simp: save_depth_def)
  qed
qed

lemma in_view_weaken: "in_view es v n s \<Longrightarrow> \<not> n \<or> m \<Longrightarrow> in_view es v m s"
  by (auto simp: in_view_def)

text \<open>Leaving the scope pops what was pushed in it.\<close>

lemma end_layer_view:
  assumes "end_layer D b old s = Inr s'" and "view (the_delegate s) = x # v" and "v \<noteq> []"
  shows "view (the_delegate s') = v"
  using assms
  by (auto simp: end_layer_def res_simps split: if_splits dest!: tell_state checkerboard_keeps dest: restore_pops)

lemma restore_entry_view:
  assumes "restore_entry D e s = Inr s'" and "view (the_delegate s) = us @ v" and "v \<noteq> []"
    and "if is_save e then us \<noteq> [] else True"
  shows "\<exists>ws. view (the_delegate s') = ws @ v \<and> length us = (if is_save e then Suc (length ws) else length ws)"
proof (cases "is_save e")
  case True
  with assms(4) obtain u ws where us: "us = u # ws" by (cases us) auto
  with assms(2) have "view (the_delegate s) = u # (ws @ v)" by simp
  with assms(1,3) True have "view (the_delegate s') = ws @ v"
    by (cases e) (auto dest!: tell_state dest: restore_pops end_layer_view)
  with True us show ?thesis by auto
next
  case False
  with assms(1) have "the_delegate s' = the_delegate s" by (cases e) auto
  with False assms(2) show ?thesis by auto
qed

lemma restore_to_count_view:
  assumes "restore_to_count D n s = Inr s'" and "n = length es" and "entries s = es @ fs"
    and "view (the_delegate s) = us @ v" and "length us = save_depth fs" and "v \<noteq> []"
  shows "view (the_delegate s') = v"
  using assms
proof (induction fs arbitrary: s us rule: rev_induct)
  case Nil
  then show ?case by (simp add: restore_to_count.simps [of D "length es" s] save_depth_def)
next
  case (snoc f fs)
  have n: "n < length (entries s)" "last (entries s) = f" "butlast (entries s) = es @ fs"
    using snoc.prems(2, 3) by (simp_all add: butlast_append)
  obtain t where t: "restore_entry D f s = Inr t"
    and r: "restore_to_count D n (t\<lparr>entries := es @ fs\<rparr>) = Inr s'"
    using snoc.prems(1) n by (subst (asm) restore_to_count.simps) (auto simp: res_simps)
  obtain ws where ws: "view (the_delegate t) = ws @ v" "length us = (if is_save f then Suc (length ws) else length ws)"
    using restore_entry_view [OF t snoc.prems(4, 6)] snoc.prems(5)
    by (cases us) (auto simp: save_depth_def split: if_splits)
  show ?case
    using snoc.IH [OF r snoc.prems(2), of ws] ws snoc.prems(5, 6) by (auto simp: save_depth_def split: if_splits)
qed

text \<open>What holds in the scope opened in the state \<open>s0\<close>, and what holds again when it is left.\<close>

definition scoped :: "flow_geo \<Rightarrow> 'd state_stack \<Rightarrow> bool \<Rightarrow> 'd state_stack \<Rightarrow> bool" where
  "scoped gm s0 n s \<longleftrightarrow> stack_ok gm s \<and> prefix (entries s0) (entries s) \<and>
     in_view (entries s0) (view (the_delegate s0)) n s"

definition balanced :: "flow_geo \<Rightarrow> 'd state_stack \<Rightarrow> 'd state_stack \<Rightarrow> bool" where
  "balanced gm s s' \<longleftrightarrow> stack_ok gm s' \<and> entries s' = entries s \<and> outstanding s' = outstanding s \<and>
     view (the_delegate s') = view (the_delegate s)"

lemma scoped_start: "stack_ok gm s \<Longrightarrow> view (the_delegate s) \<noteq> [] \<Longrightarrow> scoped gm s True s"
  unfolding scoped_def by (auto simp: save_depth_def intro: in_viewI [of _ _ _ "[]" "[]"])

lemma scoped_nonempty: "scoped gm s0 n s \<Longrightarrow> view (the_delegate s) \<noteq> []"
  by (auto simp: scoped_def in_view_def)

lemma scoped_ok: "scoped gm s0 n s \<Longrightarrow> stack_ok gm s"
  by (simp add: scoped_def)

lemma scoped_balanced: "scoped gm s0 n s \<Longrightarrow> balanced gm s s' \<Longrightarrow> scoped gm s0 n s'"
  by (auto simp: scoped_def balanced_def in_view_def)

lemma scoped_top:
  assumes "scoped gm s0 False s" and "view (the_delegate s) = x # v" and "view (the_delegate s') = y # v"
    and "entries s' = entries s" and "outstanding s' = outstanding s"
  shows "scoped gm s0 False s'"
proof -
  from assms(1) have "in_view (entries s0) (view (the_delegate s0)) False s" by (simp add: scoped_def)
  then obtain fs us where *: "view (the_delegate s0) \<noteq> []" "entries s = entries s0 @ fs"
    "view (the_delegate s) = us @ view (the_delegate s0)" "length us = save_depth fs" "us \<noteq> []"
    by (auto elim: in_viewE)
  then obtain us' where "us = x # us'" using assms(2) by (cases us) auto
  with * assms show ?thesis
    by (auto simp: scoped_def stack_ok_def intro!: in_viewI [of _ _ _ fs "y # us'"])
qed

lemma scoped_end:
  assumes "restore_to_count D (length (entries s)) t = Inr s'" and "scoped gm s n t" and "stack_ok gm s"
  shows "balanced gm s s'"
proof -
  have t: "stack_ok gm t" "prefix (entries s) (entries t)" "in_view (entries s) (view (the_delegate s)) n t"
    using assms(2) by (simp_all add: scoped_def)
  have "stack_ok gm s' \<and> entries s' = take (length (entries s)) (entries t)"
    using restore_to_count_ok [OF assms(1) t(1)] .
  moreover from t(2) have "take (length (entries s)) (entries t) = entries s" by (auto simp: prefix_def)
  moreover from t(3) obtain fs us where "view (the_delegate s) \<noteq> []" "entries t = entries s @ fs"
    "view (the_delegate t) = us @ view (the_delegate s)" "length us = save_depth fs"
    by (rule in_viewE)
  then have "view (the_delegate s') = view (the_delegate s)" using restore_to_count_view [OF assms(1)] by blast
  ultimately show ?thesis using assms(3) by (simp add: balanced_def stack_ok_def)
qed

end

sublocale scoped_delegate \<subseteq> viewing: mutation_invariant gm D "in_view es v" for gm es v
  by unfold_locales (auto dest: in_view_push intro: in_view_weaken)

sublocale scoped_delegate \<subseteq> scope: mutation_invariant gm D "scoped gm s0" for gm s0
proof
  fix n s e s'
  show "scoped gm s0 n s'" if "scoped gm s0 n s" "\<not> is_geometry e" "entry_saved e (outstanding s)" "push_entry gm D e s = Inr s'"
    using that by (auto simp: scoped_def dest: push_entry_ok push_entry_entries viewing.push_attribute)
  show "scoped gm s0 False s'" if "scoped gm s0 n s" "is_save e" "entry_saved e (outstanding s)" "push_entry gm D e s = Inr s'"
    using that by (auto simp: scoped_def dest: push_entry_ok push_entry_entries viewing.push_save)
  show "scoped gm s0 False s'" if "scoped gm s0 False s" "is_geometry e" "push_entry gm D e s = Inr s'"
    using that by (auto simp: scoped_def dest: push_entry_ok push_entry_entries viewing.push_geometric)
qed

section \<open>Another delegate\<close>

text \<open>
  A new delegate is told the entries again. The attributes come out as they were, so that the check at the end
  only fails when they do not compare equal to themselves (a number that is not one).
\<close>

lemma reapply_entry_state:
  assumes "reapply_entry gm D e s = Inr s'"
  shows "entries s' = entries s \<and> outstanding s' = entry_attributes gm e (outstanding s) \<and> checkerboard s' = checkerboard s"
  using assms by (cases e) (auto simp: reapply_entry_def dest!: apply_entry_state tell_state tell_layer_state)

lemma reapply_entries_state:
  assumes "reapply_entries gm D es s = Inr s'"
  shows "entries s' = entries s \<and> outstanding s' = fold (entry_attributes gm) es (outstanding s) \<and>
    checkerboard s' = checkerboard s"
  using assms by (induction es arbitrary: s) (auto simp: bindr_eq_Inr dest!: reapply_entry_state)

lemma reapply_all_eq:
  assumes "stack_ok gm s" and "attributes_eq (outstanding s) (outstanding s) = Inr True"
  shows "reapply_all gm D s = reapply_entries gm D (entries s) (s\<lparr>outstanding := no_attributes\<rparr>)"
proof (cases "reapply_entries gm D (entries s) (s\<lparr>outstanding := no_attributes\<rparr>)")
  case (Inr s')
  then have "outstanding s' = outstanding s"
    using assms(1) by (auto simp: stack_ok_def attributes_of_def dest: reapply_entries_state)
  with Inr assms(2) show ?thesis by (simp add: reapply_all_def)
qed (simp add: reapply_all_def)

lemma reapply_all_state:
  assumes "reapply_all gm D s = Inr s'" and "stack_ok gm s"
  shows "stack_ok gm s' \<and> entries s' = entries s \<and> outstanding s' = outstanding s \<and> checkerboard s' = checkerboard s"
  using assms by (auto simp: reapply_all_def bindr_eq_Inr stack_ok_def attributes_of_def dest!: reapply_entries_state)

lemma set_delegate_state:
  assumes "stack_ok gm s"
  shows "set_delegate_canvas gm D mk c s = Inr s' \<Longrightarrow> stack_ok gm s' \<and> entries s' = entries s \<and> outstanding s' = outstanding s"
    and "set_delegate_builder gm D mk c s = Inr s' \<Longrightarrow> stack_ok gm s' \<and> entries s' = entries s \<and> outstanding s' = outstanding s"
    and "set_preroll_delegate gm D mk' s = Inr s' \<Longrightarrow> stack_ok gm s' \<and> entries s' = entries s \<and> outstanding s' = outstanding s"
  using assms
  by (auto simp: set_delegate_canvas_def set_delegate_builder_def set_preroll_delegate_def clear_delegate_def bindr_eq_Inr
      stack_ok_def split: if_splits option.splits dest!: reapply_all_state [where gm = gm])

end
