(* ===== verification/Flow_Delegate_Laws.thy ===== *)
theory Flow_Delegate_Laws
  imports Flow_Stack_Laws Dl_Attr_Steps
begin

text \<open>
  The builder and the tracker are delegates whose saves nest: the stack of transforms and clips of a builder is
  only touched by the calls that are meant to, neither by attributes nor by what is drawn.
\<close>

section \<open>The transforms and clips of a builder\<close>

definition geometry :: "builder \<Rightarrow> (SkM44 \<times> SkRect) list" where
  "geometry b = map (\<lambda>l. (layer_matrix l, clip_bounds l)) (layer_stack b)"

definition keeps_geometry :: "(builder \<Rightarrow> builder res) \<Rightarrow> bool" where
  "keeps_geometry f \<longleftrightarrow> (\<forall>b b'. f b = Inr b' \<longrightarrow> geometry b' = geometry b)"

lemma keeps_geometryD: "keeps_geometry f \<Longrightarrow> f b = Inr b' \<Longrightarrow> geometry b' = geometry b"
  by (simp add: keeps_geometry_def)

lemma geometry_push:
  assumes "push sk x n b = Inr b'"
  shows "geometry b' = geometry b"
proof -
  have "layer_stack b' = layer_stack b" by (subst push_Inr(1) [OF assms]) simp
  then show ?thesis by (simp add: geometry_def)
qed

lemma geometry_on_layer:
  "(\<And>l. layer_matrix (f l) = layer_matrix l \<and> clip_bounds (f l) = clip_bounds l) \<Longrightarrow> geometry (on_layer f b) = geometry b"
  by (simp add: geometry_def on_layer_def split: list.split)

lemma geometry_updates [simp]:
  "geometry (b\<lparr>current := p\<rparr>) = geometry b"
  "geometry (b\<lparr>current_blender := k\<rparr>) = geometry b"
  "geometry (b\<lparr>storage := st\<rparr>) = geometry b"
  "geometry (b\<lparr>current_opacity_compatibility := oc\<rparr>) = geometry b"
  by (simp_all add: geometry_def)

lemma geometry_opacity [simp]:
  "geometry (UpdateLayerOpacityCompatibility v b) = geometry b"
  "geometry (CheckLayerOpacityCompatibility v b) = geometry b"
  "geometry (UpdateCurrentOpacityCompatibility b) = geometry b"
  by (simp_all add: UpdateLayerOpacityCompatibility_def CheckLayerOpacityCompatibility_def
      UpdateCurrentOpacityCompatibility_def geometry_on_layer mark_incompatible_def add_compatible_op_def)

lemma keeps_geometry_seq: "list_all keeps_geometry fs \<Longrightarrow> keeps_geometry (seq_ops fs)"
  by (induction fs) (auto simp: keeps_geometry_def bindr_eq_Inr)

lemma keeps_geometry_attr: "keeps_geometry (attr_step sk a)"
proof (cases "color_color_source a")
  case True
  then obtain c where "a = setColorSource (Some (ColorColorSource c))" by (auto elim: color_color_source.elims)
  then show ?thesis
    by (auto simp: keeps_geometry_def setter_defs bindr_eq_Inr Let_def split: if_splits dest!: geometry_push)
next
  case False
  then show ?thesis
    by (auto simp: keeps_geometry_def attr_step_eq push_attrs_def with_attrs_def bindr_eq_Inr split: if_splits
        dest!: geometry_push)
qed

lemma keeps_geometry_paint: "keeps_geometry (setAttributesFromDlPaint sk p f)"
proof -
  have only: "keeps_geometry g \<Longrightarrow> keeps_geometry (only_if c g)" for c g
    by (simp add: keeps_geometry_def only_if_def)
  have attr: "keeps_geometry (\<lambda>b. attr_step sk a b)" for a using keeps_geometry_attr by simp
  have set: "keeps_geometry (do_setAntiAlias sk v1)" "keeps_geometry (do_setDither sk v2)"
    "keeps_geometry (do_setStyle sk v3)" "keeps_geometry (do_setColor sk v4)" "keeps_geometry (do_setStrokeWidth sk v5)"
    "keeps_geometry (do_setStrokeMiter sk v6)" "keeps_geometry (do_setStrokeCap sk v7)"
    "keeps_geometry (do_setStrokeJoin sk v8)" "keeps_geometry (do_setColorSource sk v9)"
    "keeps_geometry (do_setColorFilter sk v10)" "keeps_geometry (do_setInvertColors sk v11)"
    "keeps_geometry (do_setBlendMode sk v12)" "keeps_geometry (do_setPathEffect sk v13)"
    "keeps_geometry (do_setMaskFilter sk v14)" "keeps_geometry (do_setImageFilter sk v15)"
    for v1 v2 v3 v4 v5 v6 v7 v8 v9 v10 v11 v12 v13 v14 v15
    using attr [of "setAntiAlias v1"] attr [of "setDither v2"] attr [of "setStyle v3"] attr [of "setColor v4"]
      attr [of "setStrokeWidth v5"] attr [of "setStrokeMiter v6"] attr [of "setStrokeCap v7"] attr [of "setStrokeJoin v8"]
      attr [of "setColorSource v9"] attr [of "setColorFilter v10"] attr [of "setInvertColors v11"]
      attr [of "setBlendMode v12"] attr [of "setPathEffect v13"] attr [of "setMaskFilter v14"] attr [of "setImageFilter v15"]
    by (simp_all add: keeps_geometry_def)
  show ?thesis
    unfolding setAttributesFromDlPaint_def
    by (intro keeps_geometry_seq) (simp add: only set keeps_geometry_seq)
qed

section \<open>The calls of the builder\<close>

lemma geometry_deferred: "checkForDeferredSave sk b = Inr b' \<Longrightarrow> geometry b' = geometry b"
  by (auto simp: checkForDeferredSave_def bindr_eq_Inr geometry_on_layer split: if_splits dest!: geometry_push)

definition on_head :: "('a list \<Rightarrow> 'a list \<Rightarrow> bool)" where
  "on_head xs ys \<longleftrightarrow> (case xs of [] \<Rightarrow> ys = [] | x # v \<Rightarrow> \<exists>y. ys = y # v)"

lemma geometry_head_layer: "on_head (geometry b) (geometry (on_layer f b))"
  by (auto simp: on_head_def geometry_def on_layer_def split: list.split)

lemma on_head_refl [simp]: "on_head v v"
  by (simp add: on_head_def split: list.split)

lemma geometry_transform:
  assumes "push_transform sk x n f b = Inr b'"
  shows "on_head (geometry b) (geometry b')"
proof -
  obtain b1 b2 where "checkForDeferredSave sk b = Inr b1" "push sk x n b1 = Inr b2" "b' = on_matrix f b2"
    using assms by (auto simp: push_transform_def bindr_eq_Inr)
  then have "geometry b2 = geometry b" "b' = on_layer (\<lambda>l. l\<lparr>layer_matrix := f (layer_matrix l)\<rparr>) b2"
    using geometry_deferred geometry_push by (simp_all add: on_matrix_def)
  then show ?thesis using geometry_head_layer [of b2] by simp
qed

lemma geometry_clip:
  assumes "push_clip sk x r b = Inr b'"
  shows "on_head (geometry b) (geometry b')"
proof -
  obtain b1 b2 where "checkForDeferredSave sk b = Inr b1" "push sk x 1 b1 = Inr b2"
    and b': "b' = (case r of None \<Rightarrow> b2 | Some r \<Rightarrow> intersect sk r b2)"
    using assms by (auto simp: push_clip_def bindr_eq_Inr)
  then have "geometry b2 = geometry b" using geometry_deferred geometry_push by simp
  then show ?thesis using geometry_head_layer [of b2] b' by (cases r) (simp_all add: intersect_def)
qed

lemma geometry_local_calls:
  "translate sk x y b = Inr b' \<Longrightarrow> on_head (geometry b) (geometry b')"
  "transformFullPerspective sk m b = Inr b' \<Longrightarrow> on_head (geometry b) (geometry b')"
  "transformReset sk b = Inr b' \<Longrightarrow> on_head (geometry b) (geometry b')"
  "clipRect sk r c aa b = Inr b' \<Longrightarrow> on_head (geometry b) (geometry b')"
  by (auto simp: translate_def transformFullPerspective_def transform2DAffine_def transformReset_def clipRect_def
      split: if_splits SkClipOp.splits dest: geometry_transform geometry_clip)

lemma geometry_clipRRect: "clipRRect sk r c aa b = Inr b' \<Longrightarrow> on_head (geometry b) (geometry b')"
  by (auto simp: clipRRect_def split: if_splits SkClipOp.splits dest: geometry_local_calls geometry_clip)

lemma geometry_clipPath: "clipPath sk p c aa b = Inr b' \<Longrightarrow> on_head (geometry b) (geometry b')"
  by (auto simp: clipPath_def push_path_clip_def split: if_splits SkClipOp.splits option.splits
      dest: geometry_local_calls geometry_clipRRect geometry_clip)

lemma geometry_push_layer: "geometry b \<noteq> [] \<Longrightarrow> geometry (push_layer n hl b) = hd (geometry b) # geometry b"
  by (cases "layer_stack b") (auto simp: geometry_def push_layer_def LayerInfo_def current_layer_def)

lemma geometry_save: "geometry b \<noteq> [] \<Longrightarrow> geometry (save b) = hd (geometry b) # geometry b"
  by (simp add: save_def geometry_on_layer geometry_push_layer)

lemma geometry_saveLayer:
  "saveLayer sk r opts f b = Inr b' \<Longrightarrow> geometry b \<noteq> [] \<Longrightarrow> geometry b' = hd (geometry b) # geometry b"
  by (auto simp: saveLayer_def Let_def bindr_eq_Inr geometry_push_layer split: if_splits dest!: geometry_push)

lemma geometry_saveLayer_paint:
  "saveLayer_paint sk r p f b = Inr b' \<Longrightarrow> geometry b \<noteq> [] \<Longrightarrow> geometry b' = hd (geometry b) # geometry b"
  by (auto simp: saveLayer_paint_def bindr_eq_Inr split: option.splits
      dest!: geometry_saveLayer dest: keeps_geometryD [OF keeps_geometry_paint])

lemma geometry_restore:
  assumes "restore sk b = Inr b'"
  shows "geometry b' = (if length (geometry b) > 1 then tl (geometry b) else geometry b)"
proof (cases "length (layer_stack b) > 1")
  case True
  then obtain b1 where b1: "geometry b1 = geometry b" "leave_layer (hd (layer_stack b1)) (b1\<lparr>layer_stack := tl (layer_stack b1)\<rparr>) = Inr b'"
    using assms by (auto simp: restore_def bindr_eq_Inr split: if_splits dest: geometry_push)
  have "geometry b' = geometry (b1\<lparr>layer_stack := tl (layer_stack b1)\<rparr>)"
    using b1(2) by (auto simp: leave_layer_def bindr_eq_Inr geometry_on_layer mark_incompatible_def add_compatible_op_def
        split: if_splits)
  also have "\<dots> = tl (geometry b1)" by (simp add: geometry_def map_tl)
  finally show ?thesis using True b1(1) by (simp add: geometry_def)
next
  case False
  then show ?thesis using assms by (simp add: restore_def geometry_def)
qed

section \<open>The delegate in force\<close>

lemma builder_checkerboard_geometry:
  assumes "builder_checkerboard sk color shader r b = Inr b'" and "geometry b \<noteq> []"
  shows "geometry b' = geometry b"
proof -
  obtain b1 b2 b3 where 1: "clipRect sk r kIntersectClip False (save b) = Inr b1"
    and 2: "drawPaint_paint sk (DlPaint_default\<lparr>colorSource := Some shader\<rparr>) b1 = Inr b2"
    and 3: "restore sk b2 = Inr b3"
    and 4: "drawRect_paint sk r (DlPaint_default\<lparr>strokeWidth := 0x41000000, paint_color := (color AND 0x00FFFFFF) OR 0xFF000000,
       drawStyle := kStroke\<rparr>) b3 = Inr b'"
    using assms(1) unfolding builder_checkerboard_def bindr_eq_Inr by blast
  have paint: "geometry c' = geometry c" if "with_paint sk fl p (\<lambda>b. push_draw sk d (CheckLayerOpacityCompatibility True) b) c = Inr c'" for fl p d c c'
    using that keeps_geometryD [OF keeps_geometry_paint]
    by (auto simp: with_paint_def push_draw_def bindr_eq_Inr dest!: geometry_push)
  have "geometry b2 = geometry b1" using 2 paint by (simp add: drawPaint_paint_def do_drawPaint_def [abs_def])
  moreover have "geometry b' = geometry b3" using 4 paint by (simp add: drawRect_paint_def do_drawRect_def [abs_def])
  moreover have "\<exists>y. geometry b1 = y # geometry b"
    using geometry_local_calls(4) [OF 1] geometry_save [OF assms(2)] by (simp add: on_head_def)
  ultimately show ?thesis using geometry_restore [OF 3] assms(2) by auto
qed

datatype view_level = BuilderLevel "SkM44 \<times> SkRect" | TrackerLevel tracker_data

definition engine_view :: "'c delegates \<Rightarrow> view_level list" where
  "engine_view w = (case active w of
     DlBuilderDelegate a n \<Rightarrow> map BuilderLevel (geometry (builders w a))
   | PrerollDelegate t \<Rightarrow> map TrackerLevel t
   | _ \<Rightarrow> [])"

lemma engine_call_view:
  assumes "engine_call sk gm K cb c w = Inr w'" and "engine_view w \<noteq> []"
  obtains (Builder) a n b where "active w = DlBuilderDelegate a n" "builder_delegate_call sk gm cb c (builders w a) = Inr b"
      "engine_view w = map BuilderLevel (geometry (builders w a))" "engine_view w' = map BuilderLevel (geometry b)"
    | (Tracker) t t' where "active w = PrerollDelegate t" "tracker_delegate_call sk gm c t = Inr t'"
      "engine_view w = map TrackerLevel t" "engine_view w' = map TrackerLevel t'"
  using assms by (cases "active w") (auto simp: engine_view_def engine_call_def on_builder_def bindr_eq_Inr)

lemma builder_geometry_call:
  assumes "builder_delegate_call sk gm cb c b = Inr b'" and "geometry_call c"
  shows "on_head (geometry b) (geometry b')"
proof (cases c)
  case DIntegralTransform
  then obtain b1 where "transformReset sk b = Inr b1"
    "transformFullPerspective sk (GetIntegralTransCTM44 gm (layer_matrix (current_layer b))) b1 = Inr b'"
    using assms(1) by (auto simp: Let_def bindr_eq_Inr)
  then have "on_head (geometry b) (geometry b1)" "on_head (geometry b1) (geometry b')"
    using geometry_local_calls by blast+
  then show ?thesis by (auto simp: on_head_def split: list.splits)
qed (use assms in \<open>auto dest: geometry_local_calls geometry_clipRRect geometry_clipPath\<close>)

lemma on_current_head: "on_current f t = Inr t' \<Longrightarrow> on_head t t'"
  by (auto simp: on_current_def on_head_def split: list.splits)

lemma tracker_geometry_call:
  assumes "tracker_delegate_call sk gm c t = Inr t'" and "geometry_call c"
  shows "on_head t t'"
proof (cases c)
  case (DTransformM44 m)
  then show ?thesis using assms
    by (auto simp: tracker_transform44_def on_head_def bindr_eq_Inr split: list.splits if_splits)
next
  case DIntegralTransform
  then show ?thesis using assms
    by (auto simp: tracker_integral_def tracker_setTransform44_def on_current_def on_head_def bindr_eq_Inr
        split: list.splits if_splits)
qed (use assms in \<open>auto simp: tracker_clipRRect_def tracker_clipPath_def split: if_splits SkClipOp.splits option.splits dest: on_current_head\<close>)

lemma tracker_save_pushes: "tracker_save t = Inr t' \<Longrightarrow> \<exists>x. t' = x # t"
  by (cases t) auto

lemma tracker_restore_pops: "tracker_restore t = Inr t' \<Longrightarrow> t' = tl t \<and> length t > 1"
  by (cases t rule: tracker_restore.cases) auto

lemma on_head_map: "on_head xs ys \<Longrightarrow> map h xs = x # v \<Longrightarrow> \<exists>y. map h ys = y # v"
  by (cases xs) (auto simp: on_head_def)

lemma engine_call_delegate: "delegate_call (engine_delegate sk gm K cb) = engine_call sk gm K cb"
  by (simp add: engine_delegate_def)

interpretation engine: scoped_delegate "engine_delegate sk gm K cb" engine_view for sk gm K cb
proof (unfold_locales, unfold engine_call_delegate)
  fix d d' :: "'a delegates" and x v b a m f c r
  let ?call = "engine_call sk gm K cb"
  show "\<exists>x. engine_view d' = x # engine_view d" if call: "?call DSave d = Inr d'" "engine_view d \<noteq> []"
    using call by (rule engine_call_view) (use call(2) in \<open>auto simp: geometry_save dest: tracker_save_pushes\<close>)
  show "\<exists>x. engine_view d' = x # engine_view d" if call: "?call (DSaveLayer b a m f) d = Inr d'" "engine_view d \<noteq> []"
    using call
    by (rule engine_call_view)
      (use call(2) in \<open>auto split: prod.splits dest: tracker_save_pushes dest!: geometry_saveLayer_paint\<close>)
  show "engine_view d' = v" if call: "?call DRestore d = Inr d'" "engine_view d = x # v" and "v \<noteq> []"
  proof -
    from call(2) have "engine_view d \<noteq> []" by simp
    with call(1) show ?thesis
    proof (rule engine_call_view)
      fix a n b assume *: "builder_delegate_call sk gm cb DRestore (builders d a) = Inr b"
        "engine_view d = map BuilderLevel (geometry (builders d a))" "engine_view d' = map BuilderLevel (geometry b)"
      with call(2) have v: "v = map BuilderLevel (tl (geometry (builders d a)))" by (auto simp: map_tl)
      with \<open>v \<noteq> []\<close> have "length (geometry (builders d a)) > 1" by (cases "geometry (builders d a)") auto
      with * v geometry_restore [of sk "builders d a" b] show ?thesis by simp
    next
      fix t t' assume "tracker_delegate_call sk gm DRestore t = Inr t'" "engine_view d = map TrackerLevel t"
        "engine_view d' = map TrackerLevel t'"
      with call(2) show ?thesis by (auto simp: map_tl dest!: tracker_restore_pops)
    qed
  qed
  show "\<exists>y. engine_view d' = y # v" if call: "?call c d = Inr d'" "geometry_call c" "engine_view d = x # v"
  proof -
    from call(3) have "engine_view d \<noteq> []" by simp
    with call(1) show ?thesis
      by (rule engine_call_view)
        (use call in \<open>auto dest!: builder_geometry_call tracker_geometry_call intro: on_head_map\<close>)
  qed
  show "engine_view d' = engine_view d" if call: "?call (DCheckerboard r) d = Inr d'" "engine_view d \<noteq> []"
    using call by (rule engine_call_view) (use call(2) in \<open>auto dest: builder_checkerboard_geometry\<close>)
qed

end
