(* ===== verification/Flow_Layer_Laws.thy ===== *)
theory Flow_Layer_Laws
  imports Flow_Paint Flow_Delegate_Laws
begin

text \<open>
  Visiting a layer tree leaves the state stack as it was: after the \<open>Preroll\<close> or the \<open>Paint\<close> of any layer the entries, the
  outstanding attributes, and the transforms and clips of the delegate are those of before.
\<close>

section \<open>Steps that leave the stack as it was\<close>

locale flow_visits = scoped_delegate D view for D :: "'d delegate" and view :: "'d \<Rightarrow> 'v list" +
  fixes E :: "'d flow_env"
  assumes env_delegate [simp]: "e_D E = D"
begin

definition ready :: "'d state_stack \<Rightarrow> bool" where
  "ready s \<longleftrightarrow> stack_ok (e_gm E) s \<and> view (the_delegate s) \<noteq> []"

definition steady :: "(('d, 'i) preroll_context \<Rightarrow> ('r \<times> ('d, 'i) preroll_context) res) \<Rightarrow> bool" where
  "steady f \<longleftrightarrow> (\<forall>c r c'. f c = Inr (r, c') \<longrightarrow> ready (pc_stack c) \<longrightarrow> balanced (e_gm E) (pc_stack c) (pc_stack c'))"

lemma ready_balanced: "ready s \<Longrightarrow> balanced (e_gm E) s s' \<Longrightarrow> ready s'"
  by (simp add: ready_def balanced_def)

lemma balanced_refl: "ready s \<Longrightarrow> balanced (e_gm E) s s"
  by (simp add: ready_def balanced_def)

lemma balanced_trans: "balanced gm s t \<Longrightarrow> balanced gm t u \<Longrightarrow> balanced gm s u"
  by (simp add: balanced_def)

lemma steadyI:
  "(\<And>c r c'. f c = Inr (r, c') \<Longrightarrow> ready (pc_stack c) \<Longrightarrow> balanced (e_gm E) (pc_stack c) (pc_stack c')) \<Longrightarrow> steady f"
  by (simp add: steady_def)

lemma steadyD: "steady f \<Longrightarrow> f c = Inr (r, c') \<Longrightarrow> ready (pc_stack c) \<Longrightarrow> balanced (e_gm E) (pc_stack c) (pc_stack c')"
  by (simp add: steady_def)

lemma steady_fail: "steady (\<lambda>c. Inl e)"
  by (simp add: steady_def)

lemma steady_return: "(\<And>c. pc_stack (h c) = pc_stack c) \<Longrightarrow> steady (\<lambda>c. Inr (g c, h c))"
  by (simp add: steady_def balanced_refl)

lemma steady_update: "steady f \<Longrightarrow> (\<And>c. pc_stack (h c) = pc_stack c) \<Longrightarrow> steady (\<lambda>c. f (h c))"
  unfolding steady_def by metis

lemma steady_bind:
  assumes "steady f" and "\<And>r. steady (g r)"
  shows "steady (\<lambda>c. bindr (f c) (\<lambda>(r, c). g r c))"
proof (rule steadyI)
  fix c r c' assume *: "bindr (f c) (\<lambda>(r, c). g r c) = Inr (r, c')" "ready (pc_stack c)"
  then obtain x d where d: "f c = Inr (x, d)" "g x d = Inr (r, c')" by (auto simp: bindr_eq_Inr)
  have "balanced (e_gm E) (pc_stack c) (pc_stack d)" by (rule steadyD [OF assms(1) d(1) *(2)])
  moreover from this have "balanced (e_gm E) (pc_stack d) (pc_stack c')"
    using steadyD [OF assms(2) d(2)] ready_balanced *(2) by blast
  ultimately show "balanced (e_gm E) (pc_stack c) (pc_stack c')" by (rule balanced_trans)
qed

lemma steady_ask: "(\<And>x. steady (g x)) \<Longrightarrow> steady (\<lambda>c. bindr (q c) (\<lambda>x. g x c))"
  unfolding steady_def by (auto simp: bindr_eq_Inr)

lemma steady_if: "(\<And>c. b c \<Longrightarrow> steady f) \<Longrightarrow> (\<And>c. \<not> b c \<Longrightarrow> steady g) \<Longrightarrow> steady (\<lambda>c. if b c then f c else g c)"
  unfolding steady_def by (auto split: if_splits)

definition keeps_scope :: "('d mutator_context \<Rightarrow> 'd mutator_context res) \<Rightarrow> bool" where
  "keeps_scope f \<longleftrightarrow> (\<forall>s0 n s n' s'. scoped (e_gm E) s0 n s \<longrightarrow> f (n, s) = Inr (n', s') \<longrightarrow> scoped (e_gm E) s0 n' s')"

lemma keeps_scope_mutators:
  "keeps_scope (mutator_saveLayer (e_gm E) D b)"
  "keeps_scope (applyOpacity (e_gm E) D b x)"
  "keeps_scope (applyImageFilter (e_gm E) D b f)"
  "keeps_scope (applyColorFilter (e_gm E) D b cf)"
  "keeps_scope (applyBackdropFilter (e_gm E) D b bf m)"
  "keeps_scope (mutator_translate (e_gm E) D tx ty)"
  "keeps_scope (mutator_transform (e_gm E) D m33)"
  "keeps_scope (mutator_integralTransform (e_gm E) D)"
  "keeps_scope (mutator_clipRect (e_gm E) D r aa)"
  "keeps_scope (mutator_clipRRect (e_gm E) D rr aa)"
  "keeps_scope (mutator_clipPath (e_gm E) D p aa)"
  unfolding keeps_scope_def by (blast dest: scope.attributes_keeps scope.geometry_keeps)+

lemma keeps_scope_seq: "keeps_scope f \<Longrightarrow> keeps_scope g \<Longrightarrow> keeps_scope (\<lambda>mc. bindr (f mc) g)"
  unfolding keeps_scope_def bindr_eq_Inr by (metis surj_pair)

section \<open>Preroll\<close>

lemma steady_in_mutator:
  assumes f: "keeps_scope f" and body: "steady body"
  shows "steady (in_mutator E f body)"
proof (rule steadyI)
  fix c r c' assume *: "in_mutator E f body c = Inr (r, c')" "ready (pc_stack c)"
  then obtain n s d s' where 1: "f (True, pc_stack c) = Inr (n, s)" and 2: "body (c\<lparr>pc_stack := s\<rparr>) = Inr (r, d)"
    and 3: "restore_to_count D (length (entries (pc_stack c))) (pc_stack d) = Inr s'" and c': "c' = d\<lparr>pc_stack := s'\<rparr>"
    by (auto simp: in_mutator_def bindr_eq_Inr)
  from *(2) have ok: "stack_ok (e_gm E) (pc_stack c)" and ne: "view (the_delegate (pc_stack c)) \<noteq> []"
    by (simp_all add: ready_def)
  have s: "scoped (e_gm E) (pc_stack c) n s"
    using f scoped_start [OF ok ne] 1 by (auto simp: keeps_scope_def)
  then have "ready s" by (simp add: ready_def scoped_ok scoped_nonempty)
  then have "balanced (e_gm E) s (pc_stack d)" using steadyD [OF body 2] by simp
  then have "scoped (e_gm E) (pc_stack c) n (pc_stack d)" by (rule scoped_balanced [OF s])
  then show "balanced (e_gm E) (pc_stack c) (pc_stack c')" using scoped_end [OF 3 _ ok] c' by simp
qed

lemma steady_save_layer_state: "steady body \<Longrightarrow> steady (with_save_layer_state a b body)"
  unfolding steady_def with_save_layer_state_def by (fastforce simp: bindr_eq_Inr split: if_splits)

lemma on_item_stack [simp]: "pc_stack (on_item i f c) = pc_stack c"
  by (simp add: on_item_def)

lemma can_render_stack [simp]: "pc_stack (can_render f c) = pc_stack c"
  by (simp add: can_render_def)

lemma setup_stack [simp]:
  "pc_stack (layer_PrerollSetup i m c) = pc_stack c"
  "pc_stack (list_PrerollSetup E' i p off cx w m c) = pc_stack c"
  by (simp_all add: layer_PrerollSetup_def list_PrerollSetup_def Let_def split: option.split)

lemma mark_seen_stack: "mark_seen i m v c = Inr (r, c') \<Longrightarrow> pc_stack c' = pc_stack c"
  by (auto simp: mark_seen_def split: option.splits)

lemma finalize_stack:
  "layer_PrerollFinalize E' l c = Inr c' \<Longrightarrow> pc_stack c' = pc_stack c"
  "list_PrerollFinalize E' i p off m c = Inr c' \<Longrightarrow> pc_stack c' = pc_stack c"
  by (auto simp: layer_PrerollFinalize_def list_PrerollFinalize_def Let_def bindr_eq_Inr
      split: option.splits if_splits dest!: mark_seen_stack)

lemma steady_cache:
  assumes "steady body"
  shows "steady (with_cache E use i body)"
proof (rule steadyI)
  fix c r c' assume *: "with_cache E use i body c = Inr (r, c')" "ready (pc_stack c)"
  then obtain m l stays d where b: "body (if use \<and> pc_cache c \<noteq> None then layer_PrerollSetup i m c else c) = Inr ((l, stays), d)"
    and e: "(if (use \<and> pc_cache c \<noteq> None) \<and> stays then layer_PrerollFinalize E l d else Inr d) = Inr c'"
    by (auto simp: with_cache_def Let_def bindr_eq_Inr)
  have "pc_stack c' = pc_stack d" using e by (auto split: if_splits dest: finalize_stack)
  moreover have "balanced (e_gm E) (pc_stack c) (pc_stack d)"
    using steadyD [OF assms b] *(2) by (cases "use \<and> pc_cache c \<noteq> None") auto
  ultimately show "balanced (e_gm E) (pc_stack c) (pc_stack c')" by simp
qed

definition steady_kids :: "('d, 'i) kids \<Rightarrow> bool" where
  "steady_kids kids \<longleftrightarrow> (\<forall>st. steady (kids st))"

lemma steady_children:
  assumes "steady_kids kids"
  shows "steady (PrerollChildren kids i b)"
  using assms unfolding steady_kids_def steady_def PrerollChildren_def
  by (fastforce simp: bindr_eq_Inr)

lemma steady_container:
  assumes "steady_kids kids"
  shows "steady (container_Preroll kids i k)"
  using steady_children [OF assms] unfolding steady_def container_Preroll_def
  by (fastforce simp: bindr_eq_Inr)

lemma steady_after:
  assumes "steady f"
    and "\<And>x c r c'. h (x, c) = Inr (r, c') \<Longrightarrow> pc_stack c' = pc_stack c"
  shows "steady (\<lambda>c. bindr (f c) h)"
  using assms(1) unfolding steady_def
  by (auto simp: bindr_eq_Inr dest!: assms(2))

lemma image_filter_bounds_stack: "image_filter_bounds E' i f off b c = Inr (i', c') \<Longrightarrow> pc_stack c' = pc_stack c"
  by (auto simp: image_filter_bounds_def Let_def bindr_eq_Inr split: if_splits)

lemma steady_embedder:
  assumes "steady f" and "\<And>c c'. h c = Inr c' \<Longrightarrow> pc_stack c' = pc_stack c"
  shows "steady (\<lambda>c. bindr (h c) f)"
  using assms unfolding steady_def by (auto simp: bindr_eq_Inr) metis

lemma steady_layers:
  assumes kids: "steady_kids kids"
  shows "steady (transform_Preroll E kids i m)"
    and "steady (opacity_Preroll E kids childless i al off)"
    and "steady (color_filter_Preroll E kids i cf)"
    and "steady (image_filter_Preroll E kids i f off)"
    and "steady (backdrop_filter_Preroll E kids i f bm)"
    and "keeps_scope apply_clip \<Longrightarrow> steady (clip_Preroll E kids i k u r apply_clip)"
    and "steady (shader_mask_Preroll E kids i k)"
    and "steady (physical_shape_Preroll E kids i k el p cl)"
proof -
  show "steady (transform_Preroll E kids i m)"
    unfolding transform_Preroll_def env_delegate
    by (intro steady_in_mutator keeps_scope_mutators steady_after [OF steady_children [OF kids]]) auto
  have "steady (\<lambda>c. bindr (ensure DCheck_Failed (\<not> childless)) (\<lambda>_. in_mutator E
       (\<lambda>mc. bindr (mutator_translate (e_gm E) D (fst off) (snd off) mc) (applyOpacity (e_gm E) D SkRect_MakeEmpty (toOpacity (e_gm E) al)))
       (with_cache E True (unique_id i) (with_save_layer_state True False (\<lambda>c.
         bindr (container_Preroll kids i (OpacityLayer al off) c) (\<lambda>(l, c).
         let accept = renderable_state_flags c AND kCallerCanApplyOpacity \<noteq> 0;
             c = can_render (renderable_state_flags c OR kCallerCanApplyOpacity) c;
             j = the_info l in
         Inr ((SceneLayer (j\<lparr>children_can_accept_opacity := accept,
             paint_bounds := makeOffset (e_gm E) (paint_bounds j) (fst off) (snd off)\<rparr>) (the_kind l) (children l), \<not> accept), c))))) c))"
    by (intro steady_ask steady_in_mutator keeps_scope_seq keeps_scope_mutators steady_cache steady_save_layer_state
        steady_after [OF steady_container [OF kids]]) (auto simp: Let_def)
  then show "steady (opacity_Preroll E kids childless i al off)"
    by (simp add: opacity_Preroll_def [abs_def] cong del: let_weak_cong)
  show "steady (color_filter_Preroll E kids i cf)"
    unfolding color_filter_Preroll_def kept_in_cache_def bindr_assoc
    by (intro steady_save_layer_state steady_cache steady_after [OF steady_container [OF kids]])
      (auto split: option.splits)
  show "steady (image_filter_Preroll E kids i f off)"
    unfolding image_filter_Preroll_def env_delegate
    by (intro steady_in_mutator keeps_scope_mutators steady_save_layer_state steady_cache
        steady_after [OF steady_children [OF kids]])
      (auto simp: bindr_eq_Inr split: option.splits dest: image_filter_bounds_stack)
  show "steady (backdrop_filter_Preroll E kids i f bm)"
    unfolding backdrop_filter_Preroll_def
    by (intro steady_save_layer_state steady_embedder steady_after [OF steady_children [OF kids]])
      (auto simp: bindr_eq_Inr split: if_splits)
  show "steady (clip_Preroll E kids i k u r apply_clip)" if "keeps_scope apply_clip"
    unfolding clip_Preroll_def
    by (intro steady_in_mutator that steady_save_layer_state steady_cache steady_after [OF steady_children [OF kids]]) auto
  show "steady (shader_mask_Preroll E kids i k)"
    unfolding shader_mask_Preroll_def kept_in_cache_def bindr_assoc
    by (intro steady_save_layer_state steady_cache steady_after [OF steady_container [OF kids]]) auto
  show "steady (physical_shape_Preroll E kids i k el p cl)"
    unfolding physical_shape_Preroll_def
    by (intro steady_save_layer_state steady_after [OF steady_children [OF kids]])
      (auto simp: Let_def bindr_eq_Inr split: if_splits)
qed

lemma steady_leaves:
  "steady (\<lambda>c. leaf k ls (display_list_Preroll E i off p cx w c))"
  "steady (\<lambda>c. leaf k ls (Inr (texture_Preroll E i off sz c)))"
  "steady (\<lambda>c. leaf k ls (platform_view_Preroll E i off sz v c))"
  by (auto simp: steady_def leaf_def display_list_Preroll_def texture_Preroll_def platform_view_Preroll_def Let_def
      bindr_eq_Inr split: if_splits dest!: finalize_stack intro: balanced_refl)

lemma steady_layer:
  assumes "steady_kids kids"
  shows "steady (preroll_layer E i k ls kids)"
proof (cases k)
  case (DisplayListLayer off d cx w)
  then show ?thesis by (cases d) (simp_all add: preroll_layer_def [abs_def] steady_leaves steady_fail)
qed (use assms in \<open>simp_all add: preroll_layer_def [abs_def] steady_layers steady_container keeps_scope_mutators
    steady_leaves steady_return\<close>)

lemma steady_each:
  assumes "\<And>l. l \<in> set ls \<Longrightarrow> steady (Preroll E l :: ('d, 'i) preroll_context \<Rightarrow> ('d, 'i) prerolled)"
  shows "steady_kids (preroll_each E ls :: ('d, 'i) kids)"
  using assms
proof (induction ls)
  case (Cons l ls)
  have "steady (\<lambda>c. bindr (Preroll E l (c\<lparr>has_platform_view := False, has_texture_layer := False, renderable_state_flags := 0\<rparr>)) (\<lambda>(l, c).
     bindr (preroll_each E ls (after_child E l c st) c) (\<lambda>((ls, st), c). Inr ((l # ls, st), c :: ('d, 'i) preroll_context))))" for st
  proof (rule steady_bind)
    show "steady (\<lambda>c. Preroll E l (c\<lparr>has_platform_view := False, has_texture_layer := False, renderable_state_flags := 0\<rparr>)
        :: ('d, 'i) prerolled)"
      by (rule steady_update [where f = "Preroll E l"]) (use Cons.prems in auto)
  next
    fix r
    show "steady (\<lambda>c. bindr (preroll_each E ls (after_child E r c st) c) (\<lambda>((ls, st), c). Inr ((r # ls, st), c :: ('d, 'i) preroll_context)))"
    proof (rule steadyI)
      fix c x c' assume *: "bindr (preroll_each E ls (after_child E r c st) c) (\<lambda>((ls, st), c). Inr ((r # ls, st), c)) = Inr (x, c')"
        "ready (pc_stack (c :: ('d, 'i) preroll_context))"
      from *(1) obtain z where z: "preroll_each E ls (after_child E r c st) c = Inr z"
        and "(\<lambda>((ls, st), c). Inr ((r # ls, st), c)) z = (Inr (x, c') :: _ res)"
        by (elim bindrE)
      then obtain y where y: "z = (y, c')" by (cases z) auto
      have "steady (preroll_each E ls (after_child E r c st) :: ('d, 'i) preroll_context \<Rightarrow> _)"
        using Cons.IH Cons.prems by (simp add: steady_kids_def)
      then show "balanced (e_gm E) (pc_stack c) (pc_stack c')"
        using z [unfolded y] *(2) unfolding steady_def by blast
    qed
  qed
  then show ?case by (simp add: steady_kids_def)
qed (simp add: steady_kids_def steady_return)

lemma preroll_steady: "steady (Preroll E l :: ('d, 'i) preroll_context \<Rightarrow> ('d, 'i) prerolled)"
proof (induction l)
  case (SceneLayer i k ls)
  then show ?case by (simp add: steady_layer steady_each)
qed

end

section \<open>Paint\<close>

text \<open>What is drawn leaves the transforms and clips alone, a shader mask apart, which moves within its own layer.\<close>

fun moves_canvas :: "'i canvas_draw \<Rightarrow> bool" where
  "moves_canvas (CanvasMaskRect o1 r m s) = True"
| "moves_canvas (CanvasTranslate x y) = True"
| "moves_canvas (CanvasConcat m) = True"
| "moves_canvas _ = False"

fun moves_builder :: "builder_draw \<Rightarrow> bool" where
  "moves_builder (BuilderTranslate x y) = True"
| "moves_builder _ = False"

locale flow_painting = flow_visits D view E for D :: "'d delegate" and view :: "'d \<Rightarrow> 'v list" and E :: "'d flow_env" +
  fixes P :: "('d, 'i) painter"
  assumes canvas_keeps: "canvas_op P a x d = Inr d' \<Longrightarrow> \<not> moves_canvas x \<Longrightarrow> view d \<noteq> [] \<Longrightarrow> view d' = view d"
    and canvas_moves: "canvas_op P a x d = Inr d' \<Longrightarrow> view d = y # v \<Longrightarrow> \<exists>z. view d' = z # v"
    and builder_keeps: "builder_op P a w d = Inr d' \<Longrightarrow> \<not> moves_builder w \<Longrightarrow> view d \<noteq> [] \<Longrightarrow> view d' = view d"
    and builder_moves: "builder_op P a w d = Inr d' \<Longrightarrow> view d = y # v \<Longrightarrow> \<exists>z. view d' = z # v"
    and texture_keeps: "texture_paint P t = Some f \<Longrightarrow> f cb ps r fr s d = Inr d' \<Longrightarrow> view d \<noteq> [] \<Longrightarrow> view d' = view d"
    and no_embedder: "\<not> has_view_embedder E"
begin

definition same_targets :: "('d, 'i) paint_context \<Rightarrow> ('d, 'i) paint_context \<Rightarrow> bool" where
  "same_targets c c' \<longleftrightarrow> pt_canvas c' = pt_canvas c \<and> pt_builder c' = pt_builder c \<and> pt_cache c' = pt_cache c \<and>
     pt_items c' = pt_items c"

definition calm :: "('d, 'i) painter_of_children \<Rightarrow> bool" where
  "calm f \<longleftrightarrow> (\<forall>c c'. f c = Inr c' \<longrightarrow> ready (pt_stack c) \<longrightarrow> balanced (e_gm E) (pt_stack c) (pt_stack c') \<and> same_targets c c')"

lemma calmI:
  "(\<And>c c'. f c = Inr c' \<Longrightarrow> ready (pt_stack c) \<Longrightarrow> balanced (e_gm E) (pt_stack c) (pt_stack c') \<and> same_targets c c') \<Longrightarrow> calm f"
  by (simp add: calm_def)

lemma calmD: "calm f \<Longrightarrow> f c = Inr c' \<Longrightarrow> ready (pt_stack c) \<Longrightarrow> balanced (e_gm E) (pt_stack c) (pt_stack c') \<and> same_targets c c'"
  by (simp add: calm_def)

lemma same_targets_refl [simp]: "same_targets c c"
  by (simp add: same_targets_def)

lemma same_targets_trans: "same_targets c d \<Longrightarrow> same_targets d e \<Longrightarrow> same_targets c e"
  by (simp add: same_targets_def)

lemma calm_Inr: "calm Inr"
  by (simp add: calm_def balanced_refl)

lemma calm_bind: "calm f \<Longrightarrow> calm g \<Longrightarrow> calm (\<lambda>c. bindr (f c) g)"
  by (rule calmI) (auto simp: bindr_eq_Inr dest!: calmD intro: balanced_trans same_targets_trans ready_balanced)

text \<open>Within a scope: \<open>inside c0 m\<close> says that the scope was opened in \<open>c0\<close>.\<close>

definition inside :: "('d, 'i) paint_context \<Rightarrow> bool \<Rightarrow> ('d, 'i) paint_context \<Rightarrow> bool" where
  "inside c0 n c \<longleftrightarrow> scoped (e_gm E) (pt_stack c0) n (pt_stack c) \<and> same_targets c0 c"

definition stays_inside :: "(bool \<times> ('d, 'i) paint_context \<Rightarrow> ('d, 'i) painted) \<Rightarrow> bool" where
  "stays_inside body \<longleftrightarrow> (\<forall>c0 n c c'. inside c0 n c \<longrightarrow> body (n, c) = Inr c' \<longrightarrow> (\<exists>m. inside c0 m c'))"

lemma inside_ready: "inside c0 n c \<Longrightarrow> ready (pt_stack c)"
  by (auto simp: inside_def ready_def dest: scoped_ok scoped_nonempty)

lemma inside_calm: "inside c0 n c \<Longrightarrow> calm f \<Longrightarrow> f c = Inr c' \<Longrightarrow> inside c0 n c'"
  using calmD [OF _ _ inside_ready] unfolding inside_def
  by (meson scoped_balanced same_targets_trans)

lemma inside_mutator:
  "inside c0 n c \<Longrightarrow> keeps_scope f \<Longrightarrow> mutator f (n, c) = Inr (n', c') \<Longrightarrow> inside c0 n' c'"
  by (auto simp: inside_def keeps_scope_def mutator_def bindr_eq_Inr same_targets_def)

lemma inside_mutator_if:
  "inside c0 n c \<Longrightarrow> keeps_scope f \<Longrightarrow> mutator_if b f (n, c) = Inr (n', c') \<Longrightarrow> inside c0 n' c'"
  by (auto simp: mutator_if_def split: if_splits intro: inside_mutator)

lemma calm_scope:
  assumes "stays_inside body"
  shows "calm (paint_scope E body)"
proof (rule calmI)
  fix c c' assume *: "paint_scope E body c = Inr c'" "ready (pt_stack c)"
  then obtain d s where d: "body (True, c) = Inr d"
    and s: "restore_to_count D (length (entries (pt_stack c))) (pt_stack d) = Inr s" and c': "c' = d\<lparr>pt_stack := s\<rparr>"
    by (auto simp: paint_scope_def bindr_eq_Inr)
  from *(2) have ok: "stack_ok (e_gm E) (pt_stack c)" by (simp add: ready_def)
  have "inside c True c" using *(2) by (simp add: inside_def ready_def scoped_start)
  then obtain m where "inside c m d" using assms d unfolding stays_inside_def by blast
  then show "balanced (e_gm E) (pt_stack c) (pt_stack c') \<and> same_targets c c'"
    using scoped_end [OF s _ ok] c' by (auto simp: inside_def same_targets_def)
qed

text \<open>What is drawn, and what is drawn from the cache.\<close>

definition draws_calmly :: "(('d, 'i) paint_context \<Rightarrow> (bool \<times> ('d, 'i) paint_context) res) \<Rightarrow> bool" where
  "draws_calmly f \<longleftrightarrow> (\<forall>c b c'. f c = Inr (b, c') \<longrightarrow> ready (pt_stack c) \<longrightarrow>
     balanced (e_gm E) (pt_stack c) (pt_stack c') \<and> same_targets c c')"

lemma balanced_delegate:
  "ready s \<Longrightarrow> view d = view (the_delegate s) \<Longrightarrow> balanced (e_gm E) s (s\<lparr>the_delegate := d\<rparr>)"
  by (simp add: ready_def balanced_def stack_ok_def)

lemma calm_with_delegate:
  assumes "\<And>d d'. f d = Inr d' \<Longrightarrow> view d \<noteq> [] \<Longrightarrow> view d' = view d"
  shows "calm (with_delegate f)"
  by (rule calmI)
    (auto simp: with_delegate_def bindr_eq_Inr same_targets_def ready_def dest!: assms intro!: balanced_delegate [unfolded ready_def])

lemma calm_canvas: "\<not> moves_canvas x \<Longrightarrow> calm (draw_canvas P x)"
  using calm_with_delegate [of "canvas_op P a x" for a] canvas_keeps
  unfolding draw_canvas_def calm_def by (auto split: option.splits)

lemma calm_builder: "\<not> moves_builder x \<Longrightarrow> calm (draw_builder P a x)"
  using calm_with_delegate [of "builder_op P a x"] builder_keeps by (auto simp: draw_builder_def)

lemma calm_texture: "texture_paint P t = Some f \<Longrightarrow> calm (with_delegate (f cb ps r fr s))"
  by (rule calm_with_delegate) (rule texture_keeps)

lemma draws_draw_cachedD:
  assumes "draw_cached E P k h a p c = Inr (b, c')" and "ready (pt_stack c)"
  shows "balanced (e_gm E) (pt_stack c) (pt_stack c') \<and> same_targets c c'"
proof (cases "c' = c")
  case False
  with assms(1) obtain i x y where "with_delegate (canvas_op P a (CanvasDrawImage i x y p)) c = Inr c'"
    by (auto simp: draw_cached_def result_draw_def Let_def bindr_eq_Inr split: option.splits)
  moreover have "calm (with_delegate (canvas_op P a (CanvasDrawImage i x y p)))"
    by (rule calm_with_delegate) (rule canvas_keeps, auto)
  ultimately show ?thesis using assms(2) calmD by blast
qed (use assms in \<open>simp add: balanced_refl\<close>)

lemma layer_item_draws:
  "layer_item_Draw E P u p c = Inr (b, c') \<Longrightarrow> ready (pt_stack c) \<Longrightarrow>
   balanced (e_gm E) (pt_stack c) (pt_stack c') \<and> same_targets c c'"
  by (auto simp: layer_item_Draw_def Let_def balanced_refl split: option.splits CacheState.splits
      dest: draws_draw_cachedD)

lemma list_item_draws:
  "list_item_Draw E P u p c = Inr (b, c') \<Longrightarrow> ready (pt_stack c) \<Longrightarrow>
   balanced (e_gm E) (pt_stack c) (pt_stack c') \<and> same_targets c c'"
  by (auto simp: list_item_Draw_def balanced_refl split: option.splits if_splits dest: draws_draw_cachedD)

lemma draws_items:
  "draws_calmly (\<lambda>c. if b c then layer_item_Draw E P u (p c) c else Inr (False, c))"
  "draws_calmly (\<lambda>c. if b c then list_item_Draw E P u (p c) c else Inr (False, c))"
  "draws_calmly (\<lambda>c. if b c then bindr (ensure e g) (\<lambda>_. layer_item_Draw E P u (p c) c) else Inr (False, c))"
  unfolding draws_calmly_def
  by (auto simp: bindr_eq_Inr balanced_refl split: if_splits dest: layer_item_draws list_item_draws)

text \<open>Bodies of scopes.\<close>

lemma stays_insideI:
  "(\<And>c0 n c c'. inside c0 n c \<Longrightarrow> body (n, c) = Inr c' \<Longrightarrow> \<exists>m. inside c0 m c') \<Longrightarrow> stays_inside body"
  by (simp add: stays_inside_def)

lemma stays_insideD: "stays_inside body \<Longrightarrow> inside c0 n c \<Longrightarrow> body (n, c) = Inr c' \<Longrightarrow> \<exists>m. inside c0 m c'"
  unfolding stays_inside_def by blast

lemma stays_calm: "calm f \<Longrightarrow> stays_inside (\<lambda>(n, c). f c)"
  by (rule stays_insideI) (auto dest: inside_calm)

lemma stays_then_mutator:
  "keeps_scope f \<Longrightarrow> stays_inside body \<Longrightarrow> stays_inside (\<lambda>mc. bindr (mutator f mc) body)"
  by (rule stays_insideI) (auto simp: bindr_eq_Inr dest: inside_mutator stays_insideD)

lemma stays_then_mutator_if:
  "keeps_scope f \<Longrightarrow> stays_inside body \<Longrightarrow> stays_inside (\<lambda>mc. bindr (mutator_if (b mc) f mc) body)"
  by (rule stays_insideI) (auto simp: bindr_eq_Inr dest: inside_mutator_if stays_insideD)

lemma stays_then_mutator_pair:
  "keeps_scope f \<Longrightarrow> stays_inside body \<Longrightarrow> stays_inside (\<lambda>(n, c). bindr (mutator f (n, c)) body)"
  using stays_then_mutator [of f body] by (simp add: case_prod_unfold)

lemma inside_draws:
  "inside c0 n c \<Longrightarrow> draws_calmly f \<Longrightarrow> f c = Inr (b, c') \<Longrightarrow> inside c0 n c'"
  using inside_ready [of c0 n c] unfolding inside_def draws_calmly_def
  by (meson scoped_balanced same_targets_trans)

lemma stays_or_else:
  assumes "draws_calmly f" and "stays_inside (case_prod body)"
  shows "stays_inside (\<lambda>(n, c). or_else (f c) (body n))"
proof (rule stays_insideI)
  fix c0 n c c' assume *: "inside c0 n c" "(case (n, c) of (n, c) \<Rightarrow> or_else (f c) (body n)) = Inr c'"
  then obtain b d where d: "f c = Inr (b, d)" "(if b then Inr d else body n d) = Inr c'"
    by (auto simp: or_else_def bindr_eq_Inr)
  have "inside c0 n d" by (rule inside_draws [OF *(1) assms(1) d(1)])
  then show "\<exists>m. inside c0 m c'" using d(2) stays_insideD [OF assms(2), of c0 n d c'] by (auto split: if_splits)
qed

text \<open>The layers.\<close>

lemma calm_children:
  assumes "calm kids"
  shows "calm (PaintChildren E kids i)"
proof -
  have "stays_inside (\<lambda>(n, c). bindr (applyState (e_gm E) D b cf (pt_stack c)) (\<lambda>s. kids (c\<lparr>pt_stack := s\<rparr>)))" for b cf
  proof (rule stays_insideI)
    fix c0 n c c'
    assume *: "inside c0 n c" "(case (n, c) of (n, c) \<Rightarrow> bindr (applyState (e_gm E) D b cf (pt_stack c)) (\<lambda>s. kids (c\<lparr>pt_stack := s\<rparr>))) = Inr c'"
    then obtain s where s: "applyState (e_gm E) D b cf (pt_stack c) = Inr s" "kids (c\<lparr>pt_stack := s\<rparr>) = Inr c'"
      by (auto simp: bindr_eq_Inr)
    have "\<exists>m. scoped (e_gm E) (pt_stack c0) m s"
      using scope.maybe_save_keeps(5) [of "e_gm E" "pt_stack c0" n "pt_stack c" b cf s] *(1) s(1) by (auto simp: inside_def)
    then obtain m where "inside c0 m (c\<lparr>pt_stack := s\<rparr>)" using *(1) by (auto simp: inside_def same_targets_def)
    then show "\<exists>m. inside c0 m c'" using inside_calm [OF _ assms s(2)] by blast
  qed
  then show ?thesis unfolding PaintChildren_def env_delegate by (rule calm_scope)
qed

lemmas stays_rules = stays_then_mutator stays_then_mutator_if stays_then_mutator_pair stays_calm stays_or_else
  keeps_scope_mutators draws_items

lemma calm_layers:
  assumes kids: "calm kids"
  shows "calm (transform_Paint E kids i m)"
    and "calm (opacity_Paint E P kids i al off)"
    and "calm (color_filter_Paint E P kids i cf)"
    and "calm (image_filter_Paint E P kids i f off)"
    and "calm (backdrop_filter_Paint E kids i f bm)"
proof -
  note ch = calm_children [OF kids]
  show "calm (transform_Paint E kids i m)"
    unfolding transform_Paint_def env_delegate by (intro calm_scope stays_rules ch)
  show "calm (opacity_Paint E P kids i al off)"
    unfolding opacity_Paint_def env_delegate by (intro calm_scope stays_rules ch)
  show "calm (color_filter_Paint E P kids i cf)"
    unfolding color_filter_Paint_def env_delegate by (intro calm_scope stays_rules ch)
  show "calm (image_filter_Paint E P kids i f off)"
    unfolding image_filter_Paint_def env_delegate by (intro calm_scope stays_rules ch)
  show "calm (backdrop_filter_Paint E kids i f bm)"
    unfolding backdrop_filter_Paint_def env_delegate by (intro calm_scope stays_rules ch)
qed

lemma draws_clip:
  "draws_calmly (\<lambda>c. if b c then
     bindr (applyState (e_gm E) D r can (pt_stack c)) (\<lambda>s.
     bindr (layer_item_Draw E P u (p (c\<lparr>pt_stack := s\<rparr>)) (c\<lparr>pt_stack := s\<rparr>)) (\<lambda>(drawn, c').
     bindr (restore_to_count D (length (entries (pt_stack c))) (pt_stack c')) (\<lambda>s'. Inr (drawn, c'\<lparr>pt_stack := s'\<rparr>))))
   else Inr (False, c))" (is "draws_calmly ?f")
proof -
  have "balanced (e_gm E) (pt_stack c) (pt_stack c') \<and> same_targets c c'"
    if f: "?f c = Inr (d, c')" and r: "ready (pt_stack c)" for c d c'
  proof (cases "b c")
    case True
    with f obtain s drawn c1 s' where 1: "applyState (e_gm E) D r can (pt_stack c) = Inr s"
      and 2: "layer_item_Draw E P u (p (c\<lparr>pt_stack := s\<rparr>)) (c\<lparr>pt_stack := s\<rparr>) = Inr (drawn, c1)"
      and 3: "restore_to_count D (length (entries (pt_stack c))) (pt_stack c1) = Inr s'" and c': "c' = c1\<lparr>pt_stack := s'\<rparr>"
      by (auto simp: bindr_eq_Inr)
    from r have ok: "stack_ok (e_gm E) (pt_stack c)" and "view (the_delegate (pt_stack c)) \<noteq> []"
      by (simp_all add: ready_def)
    then have s: "scoped (e_gm E) (pt_stack c) True s"
      using scope.maybe_save_keeps(5) [OF scoped_start 1] by blast
    then have "ready s" by (simp add: ready_def scoped_ok scoped_nonempty)
    then have "balanced (e_gm E) s (pt_stack c1) \<and> same_targets (c\<lparr>pt_stack := s\<rparr>) c1"
      using layer_item_draws [OF 2] by simp
    moreover from this have "scoped (e_gm E) (pt_stack c) True (pt_stack c1)" using scoped_balanced [OF s] by blast
    ultimately show ?thesis using scoped_end [OF 3 _ ok] c' by (auto simp: same_targets_def)
  qed (use f r in \<open>simp add: balanced_refl\<close>)
  then show ?thesis unfolding draws_calmly_def by blast
qed

lemma calm_clip:
  assumes kids: "calm kids" and "keeps_scope apply_clip"
  shows "calm (clip_Paint E P kids i u apply_clip)"
proof (cases u)
  case False
  then show ?thesis
    unfolding clip_Paint_def env_delegate
    using calm_scope [OF stays_then_mutator [OF assms(2) stays_calm [OF calm_children [OF kids, of i]]]]
    by (simp add: case_prod_unfold cong del: if_weak_cong)
next
  case True
  have "calm (paint_scope E (\<lambda>mc.
       bindr (mutator apply_clip mc) (\<lambda>mc.
         bindr (mutator_if (pt_cache (snd mc) \<noteq> None) (mutator_integralTransform (e_gm E) D) mc) (\<lambda>(n, c).
         or_else (if pt_cache c \<noteq> None then
             bindr (applyState (e_gm E) D (paint_bounds i) kCallerCanApplyOpacity (pt_stack c)) (\<lambda>s.
             bindr (layer_item_Draw E P (unique_id i) (sk_fill (c\<lparr>pt_stack := s\<rparr>)) (c\<lparr>pt_stack := s\<rparr>)) (\<lambda>(drawn, c').
             bindr (restore_to_count D (length (entries (pt_stack c))) (pt_stack c')) (\<lambda>s'.
             Inr (drawn, c'\<lparr>pt_stack := s'\<rparr>))))
           else Inr (False, c)) (\<lambda>c.
         bindr (mutator (mutator_saveLayer (e_gm E) D (paint_bounds i)) (n, c)) (\<lambda>(n, c).
         PaintChildren E kids i c))))))"
    by (intro calm_scope stays_rules calm_children kids assms draws_clip)
  with True show ?thesis unfolding clip_Paint_def env_delegate by simp
qed

lemma inside_saveLayer:
  "inside c0 n c \<Longrightarrow> mutator (mutator_saveLayer (e_gm E) D b) (n, c) = Inr (n', c') \<Longrightarrow> inside c0 False c'"
  by (auto simp: inside_def mutator_def mutator_saveLayer_def bindr_eq_Inr same_targets_def dest: scope.save_layer_keeps)

text \<open>The mask moves within the layer that has just been saved.\<close>

lemma inside_moves:
  assumes c: "inside c0 False c" and w: "with_delegate f c = Inr c'"
    and f: "\<And>d d' y v. f d = Inr d' \<Longrightarrow> view d = y # v \<Longrightarrow> \<exists>z. view d' = z # v"
  shows "inside c0 False c'"
proof -
  from w obtain d where d: "f (the_delegate (pt_stack c)) = Inr d" "c' = c\<lparr>pt_stack := (pt_stack c)\<lparr>the_delegate := d\<rparr>\<rparr>"
    by (auto simp: with_delegate_def bindr_eq_Inr)
  obtain y v where yv: "view (the_delegate (pt_stack c)) = y # v"
    using c scoped_nonempty unfolding inside_def by (metis list.exhaust)
  then obtain z where "view d = z # v" using f [OF d(1)] by blast
  with c yv d(2) show ?thesis by (auto simp: inside_def same_targets_def intro: scoped_top)
qed

lemma inside_draw_moves:
  "inside c0 False c \<Longrightarrow> draw_builder P a x c = Inr c' \<Longrightarrow> inside c0 False c'"
  "inside c0 False c \<Longrightarrow> draw_canvas P y c = Inr c' \<Longrightarrow> inside c0 False c'"
  unfolding draw_builder_def draw_canvas_def
  by (auto split: option.splits intro: inside_moves builder_moves canvas_moves)

definition draw_mask :: "SkRect \<Rightarrow> SkRect \<Rightarrow> DlBlendMode \<Rightarrow> DlColorSource ptr \<Rightarrow> nat option \<Rightarrow> ('d, 'i) paint_context \<Rightarrow>
    ('d, 'i) painted" where
  "draw_mask r sr mode src was c = (case was of
       Some b \<Rightarrow> (case pt_builder c of
           None \<Rightarrow> Inl Undefined
         | Some b \<Rightarrow>
             bindr (draw_builder P b (BuilderTranslate (fLeft r) (fTop r)) c)
               (draw_builder P b (BuilderDrawRect sr (mask_paint mode src))))
     | None \<Rightarrow> draw_canvas P (CanvasMaskRect (fLeft r, fTop r) sr mode (pointee src)) c)"

lemma inside_mask:
  assumes c: "inside c0 False c" and d: "draw_mask r sr mode src was c = Inr c'"
  shows "inside c0 False c'"
proof (cases was)
  case None
  with d show ?thesis unfolding draw_mask_def by (simp add: inside_draw_moves(2) [OF c])
next
  case (Some b)
  with d obtain a where d: "bindr (draw_builder P a (BuilderTranslate (fLeft r) (fTop r)) c)
      (draw_builder P a (BuilderDrawRect sr (mask_paint mode src))) = Inr c'"
    unfolding draw_mask_def by (auto split: option.splits)
  then obtain c1 where "draw_builder P a (BuilderTranslate (fLeft r) (fTop r)) c = Inr c1"
    "draw_builder P a (BuilderDrawRect sr (mask_paint mode src)) c1 = Inr c'" by (elim bindrE)
  then show ?thesis by (metis inside_draw_moves(1) c)
qed

lemma stays_mask:
  assumes "calm kids"
  shows "stays_inside (\<lambda>(n, c). bindr (mutator (mutator_saveLayer (e_gm E) D b) (n, c)) (\<lambda>(n, c).
    bindr (PaintChildren E kids i c) (draw_mask r sr mode src (pt_builder c))))"
proof (rule stays_insideI, simp only: prod.case)
  fix c0 n c c' assume *: "inside c0 n c" "bindr (mutator (mutator_saveLayer (e_gm E) D b) (n, c)) (\<lambda>(n, c).
    bindr (PaintChildren E kids i c) (draw_mask r sr mode src (pt_builder c))) = Inr c'"
  from *(2) obtain z where z: "mutator (mutator_saveLayer (e_gm E) D b) (n, c) = Inr z"
    and "(\<lambda>(n, c). bindr (PaintChildren E kids i c) (draw_mask r sr mode src (pt_builder c))) z = Inr c'"
    by (rule bindrE)
  moreover obtain m c1 where "z = (m, c1)" by (cases z)
  ultimately have 1: "mutator (mutator_saveLayer (e_gm E) D b) (n, c) = Inr (m, c1)"
    and "bindr (PaintChildren E kids i c1) (draw_mask r sr mode src (pt_builder c1)) = Inr c'" by simp_all
  from this(2) obtain c2 where 2: "PaintChildren E kids i c1 = Inr c2" "draw_mask r sr mode src (pt_builder c1) c2 = Inr c'"
    by (rule bindrE)
  show "\<exists>m. inside c0 m c'"
    using inside_mask [OF inside_calm [OF inside_saveLayer [OF *(1) 1] calm_children [OF assms] 2(1)] 2(2)] ..
qed

lemma calm_shader_mask:
  assumes kids: "calm kids"
  shows "calm (shader_mask_Paint E P kids i src r mode)"
  unfolding shader_mask_Paint_def env_delegate Let_def
  by (fold draw_mask_def, intro calm_scope stays_rules stays_mask kids)

lemma calm_if: "calm f \<Longrightarrow> calm g \<Longrightarrow> calm (\<lambda>c. if b then f c else g c)"
  by (cases b) simp_all

lemma calm_then: "calm f \<Longrightarrow> calm g \<Longrightarrow> calm (\<lambda>c. bindr (f c) (\<lambda>c. g c))"
  by (rule calm_bind)

lemma calm_physical_shape:
  assumes kids: "calm kids"
  shows "calm (physical_shape_Paint E P kids i col sh el p clip)"
proof -
  let ?clip = "\<lambda>aa. mutator (mutator_clipPath (e_gm E) D p aa)"
  have inner: "stays_inside (\<lambda>(n, c). bindr (if UsesSaveLayer clip then draw_canvas P (CanvasDrawPaint col) c else Inr c)
      (PaintChildren E kids i))"
    by (intro stays_calm calm_bind calm_if calm_canvas calm_Inr calm_children kids) simp
  have scope: "calm (paint_scope E (\<lambda>mc. let clip_path = ?clip in
       bindr (case clip of
           hardEdge \<Rightarrow> clip_path False mc
         | antiAlias \<Rightarrow> clip_path True mc
         | antiAliasWithSaveLayer \<Rightarrow> bindr (clip_path True mc) (mutator (mutator_saveLayer (e_gm E) D (paint_bounds i)))
         | ClipNone \<Rightarrow> Inr mc) (\<lambda>(n, c).
       bindr (if UsesSaveLayer clip then draw_canvas P (CanvasDrawPaint col) c else Inr c) (PaintChildren E kids i))))"
    using inner stays_then_mutator [OF _ inner] stays_then_mutator [OF _ stays_then_mutator [OF _ inner]]
    by (intro calm_scope) (cases clip; simp add: keeps_scope_mutators bindr_assoc cong del: if_weak_cong)
  show ?thesis unfolding physical_shape_Paint_def env_delegate
    by (intro calm_then calm_if calm_canvas calm_Inr scope) simp_all
qed

lemma calm_render: "calm (RenderTo P p x)"
  using calm_canvas [of "CanvasRenderTo p x"] unfolding RenderTo_def calm_def by (simp add: bindr_eq_Inr)

lemma calm_list:
  "calm (paint_scope E (\<lambda>(n, c). bindr (applyState (e_gm E) D r 0 (pt_stack c)) (\<lambda>s.
     draw_builder P b (BuilderDrawDisplayList p) (c\<lparr>pt_stack := s\<rparr>))))"
proof (intro calm_scope stays_insideI, simp only: prod.case)
  fix c0 n c c' assume c: "inside c0 n c" and "bindr (applyState (e_gm E) D r 0 (pt_stack c)) (\<lambda>s.
     draw_builder P b (BuilderDrawDisplayList p) (c\<lparr>pt_stack := s\<rparr>)) = Inr c'"
  then obtain s where s: "applyState (e_gm E) D r 0 (pt_stack c) = Inr s"
    "draw_builder P b (BuilderDrawDisplayList p) (c\<lparr>pt_stack := s\<rparr>) = Inr c'"
    by (auto simp: bindr_eq_Inr)
  have "inside c0 n (c\<lparr>pt_stack := s\<rparr>)"
    using scope.maybe_save_keeps(5) [OF _ s(1), of "pt_stack c0" n] c by (simp add: inside_def same_targets_def)
  then show "\<exists>m. inside c0 m c'" using inside_calm [OF _ calm_builder s(2)] by auto
qed

lemma calm_leaves:
  "calm (display_list_Paint E P i off p)"
  "calm (texture_Paint E P i t fr s)"
  "calm (platform_view_Paint E P v)"
  "calm (performance_overlay_Paint E P i o1)"
proof -
  have pick: "calm (\<lambda>c. let x = ra_opacity (outstanding (pt_stack c)) in
      case pt_builder c of Some b \<Rightarrow> f b c | None \<Rightarrow> RenderTo P p x c)" if "\<And>b. calm (f b)" for f p
    using that calm_render unfolding calm_def by (auto simp: Let_def split: option.splits)
  show "calm (display_list_Paint E P i off p)"
    unfolding display_list_Paint_def env_delegate
    by (intro calm_scope stays_rules pick calm_list)
  show "calm (texture_Paint E P i t fr s)"
    using calm_texture [of t] calm_Inr unfolding texture_Paint_def calm_def
    by (auto split: option.splits prod.splits)
  show "calm (platform_view_Paint E P v)"
    using calm_Inr no_embedder by (simp add: platform_view_Paint_def [abs_def])
  have watch: "calm (VisualizeStopWatch gm P a x y w h b1 b2)" for gm a x y w h b1 b2
    unfolding VisualizeStopWatch_def by (intro calm_bind calm_if calm_canvas calm_Inr) simp_all
  show "calm (performance_overlay_Paint E P i o1)"
    unfolding performance_overlay_Paint_def Let_def
    by (intro calm_if calm_Inr calm_scope stays_calm calm_bind watch)
qed

lemma calm_when: "calm f \<Longrightarrow> calm (\<lambda>c. bindr (q c) (\<lambda>b. bindr (ensure e b) (\<lambda>_. f c)))"
  unfolding calm_def bindr_eq_Inr ensure_eq_Inr by blast

lemma calm_layer:
  assumes "calm kids"
  shows "calm (paint_layer E P i k kids)"
proof -
  have "calm (\<lambda>c. case k of
       ContainerLayer \<Rightarrow> PaintChildren E kids i c
     | TransformLayer m \<Rightarrow> transform_Paint E kids i m c
     | OpacityLayer a off \<Rightarrow> opacity_Paint E P kids i a off c
     | ColorFilterLayer f \<Rightarrow> color_filter_Paint E P kids i f c
     | ImageFilterLayer f off \<Rightarrow> image_filter_Paint E P kids i f off c
     | BackdropFilterLayer f mode \<Rightarrow> backdrop_filter_Paint E kids i f mode c
     | ClipRectLayer r b \<Rightarrow> clip_Paint E P kids i (UsesSaveLayer b) (mutator_clipRect (e_gm E) (e_D E) r (b \<noteq> hardEdge)) c
     | ClipRRectLayer r b \<Rightarrow> clip_Paint E P kids i (UsesSaveLayer b) (mutator_clipRRect (e_gm E) (e_D E) r (b \<noteq> hardEdge)) c
     | ClipPathLayer p b \<Rightarrow> clip_Paint E P kids i (UsesSaveLayer b) (mutator_clipPath (e_gm E) (e_D E) p (b \<noteq> hardEdge)) c
     | ShaderMaskLayer s r m \<Rightarrow> shader_mask_Paint E P kids i s r m c
     | PhysicalShapeLayer col sh el p b \<Rightarrow> physical_shape_Paint E P kids i col sh el p b c
     | DisplayListLayer off d cx w \<Rightarrow> (case d of None \<Rightarrow> Inl DCheck_Failed | Some p \<Rightarrow> display_list_Paint E P i off p c)
     | TextureLayer off sz t fr s \<Rightarrow> texture_Paint E P i t fr s c
     | PlatformViewLayer off sz v \<Rightarrow> platform_view_Paint E P v c
     | PerformanceOverlayLayer o1 \<Rightarrow> performance_overlay_Paint E P i o1 c)" (is "calm ?f")
  proof (cases k)
    case (DisplayListLayer off d cx w)
    then show ?thesis by (cases d) (simp_all add: calm_leaves, simp add: calm_def)
  qed (simp_all add: calm_children calm_layers calm_clip calm_shader_mask calm_physical_shape calm_leaves
      keeps_scope_mutators assms)
  then show ?thesis unfolding paint_layer_def [abs_def] by (rule calm_when)
qed

lemma calm_ask: "(\<And>b. calm (f b)) \<Longrightarrow> calm (\<lambda>c. bindr (q c) (\<lambda>b. f b c))"
  unfolding calm_def bindr_eq_Inr by blast

lemma calm_each:
  assumes "\<And>l. l \<in> set ls \<Longrightarrow> calm (Paint E P l)"
  shows "calm (paint_each E P ls)"
  using assms
proof (induction ls)
  case (Cons l ls)
  show ?case unfolding paint_each.simps
    by (intro calm_ask calm_bind calm_if calm_Inr Cons) (use Cons.prems in auto)
qed (simp add: calm_Inr)

lemma paint_calm: "calm (Paint E P l)"
proof (induction l)
  case (SceneLayer i k ls)
  then show ?case by (simp add: calm_layer calm_each)
qed

end

end
