(* ===== verification/Flow_Sharing.thy ===== *)
theory Flow_Sharing
  imports Flow_Paint Flow_Stack_Laws
begin

text \<open>
  Which attributes a layer hands down to its children instead of saving a layer for them: never a filter, and an
  opacity only when every child can apply it and no two children overlap.
\<close>

section \<open>Children that share an opacity\<close>

fun layers_of :: "scene_layer \<Rightarrow> scene_layer list" where
  "layers_of (SceneLayer i k ls) = SceneLayer i k ls # (if is_container k then concat (map layers_of ls) else [])"

definition opacity_flag :: "32 word \<Rightarrow> bool" where
  "opacity_flag f \<longleftrightarrow> f AND kCallerCanApplyOpacity \<noteq> 0"

definition takes_group_opacity :: "scene_layer \<Rightarrow> bool" where
  "takes_group_opacity l = (case the_kind l of
     ContainerLayer \<Rightarrow> opacity_flag (children_renderable_state_flags (the_info l))
   | TransformLayer m \<Rightarrow> opacity_flag (children_renderable_state_flags (the_info l))
   | ColorFilterLayer f \<Rightarrow> (case f of
       None \<Rightarrow> opacity_flag (children_renderable_state_flags (the_info l)) | Some g \<Rightarrow> can_commute_with_opacity (snd g))
   | ImageFilterLayer f off \<Rightarrow> f \<noteq> None \<or> opacity_flag (children_renderable_state_flags (the_info l))
   | ClipRectLayer r b \<Rightarrow> UsesSaveLayer b \<or> opacity_flag (children_renderable_state_flags (the_info l))
   | ClipRRectLayer r b \<Rightarrow> UsesSaveLayer b \<or> opacity_flag (children_renderable_state_flags (the_info l))
   | ClipPathLayer p b \<Rightarrow> UsesSaveLayer b \<or> opacity_flag (children_renderable_state_flags (the_info l))
   | PhysicalShapeLayer col sh el p b \<Rightarrow> UsesSaveLayer b
   | DisplayListLayer off d cx w \<Rightarrow> (case d of None \<Rightarrow> False | Some p \<Rightarrow> dl_can_apply_group_opacity (pic_list p))
   | PlatformViewLayer off sz v \<Rightarrow> False
   | PerformanceOverlayLayer o1 \<Rightarrow> False
   | _ \<Rightarrow> True)"





fun clear_of :: "flow_geo \<Rightarrow> SkRect \<Rightarrow> scene_layer list \<Rightarrow> bool" where
  "clear_of gm b [] = True"
| "clear_of gm b (l # ls) \<longleftrightarrow> \<not> safe_intersection_test gm b (paint_bounds (the_info l)) \<and>
     clear_of gm (rect_join gm b (paint_bounds (the_info l))) ls"



section \<open>What a prerolled layer reports\<close>

definition shared_by :: "flow_geo \<Rightarrow> scene_layer list \<Rightarrow> 32 word \<Rightarrow> bool" where
  "shared_by gm ls f \<longleftrightarrow>
     f = 0 \<or> f = kCallerCanApplyOpacity \<and> list_all takes_group_opacity ls \<and> clear_of gm SkRect_MakeEmpty ls"

definition flags_sound :: "flow_geo \<Rightarrow> scene_layer \<Rightarrow> bool" where
  "flags_sound gm l \<longleftrightarrow> shared_by gm (children l) (children_renderable_state_flags (the_info l))"

definition all_sound :: "flow_geo \<Rightarrow> scene_layer \<Rightarrow> bool" where
  "all_sound gm l = list_all (\<lambda>x. is_container (the_kind x) \<longrightarrow> flags_sound gm x) (layers_of l)"









lemma all_sound_SceneLayer [simp]:
  "all_sound gm (SceneLayer i k ls) \<longleftrightarrow>
     (is_container k \<longrightarrow> flags_sound gm (SceneLayer i k ls) \<and> list_all (all_sound gm) ls)"
  by (auto simp: all_sound_def list_all_iff)




lemma flag_simps [simp]: "\<not> opacity_flag 0" "opacity_flag kCallerCanApplyOpacity" "opacity_flag kSaveLayerRenderFlags"
  by (simp_all add: opacity_flag_def kCallerCanApplyOpacity_def kSaveLayerRenderFlags_def kCallerCanApplyColorFilter_def
      kCallerCanApplyImageFilter_def)














section \<open>What is handed down\<close>





end
