(* ===== verification/Flow_Engine.thy ===== *)
theory Flow_Engine
  imports Flow_Layer_Laws Flow_Sharing Dl_Replay Dl_Safety
begin

text \<open>
  The layers painted on the builders and canvases of the engine: the painter draws a display list, a rectangle or a
  translation through the builder's own calls, and textures as a list of draw calls.
\<close>

section \<open>Drawing on a builder\<close>





definition engine_env :: "skia \<Rightarrow> flow_geo \<Rightarrow> 'c sk_canvas \<Rightarrow> DlColor \<times> DlColorSource \<Rightarrow> 'c delegates flow_env \<Rightarrow> 'c delegates flow_env" where
  "engine_env sk gm K cb E = E\<lparr>e_sk := sk, e_gm := gm, e_D := engine_delegate sk gm K cb\<rparr>"

section \<open>What is drawn leaves the transforms and clips alone\<close>




lemma engine_view_on_canvas [simp]: "engine_view (on_canvas a f w) = engine_view w"
  by (simp add: engine_view_def on_canvas_def split: active_delegate.split)




section \<open>The engine visits and paints layers as the locales ask\<close>

interpretation engine_visits: flow_visits "engine_delegate sk gm K cb" engine_view "engine_env sk gm K cb E"
  for sk gm K cb E
  by unfold_locales (simp add: engine_env_def)


section \<open>A concrete frame\<close>

text \<open>A stand-in for Skia's geometry whose rectangles are joined and compared as Skia does it.\<close>

definition rect_area :: "SkRect \<Rightarrow> bool" where
  "rect_area r \<longleftrightarrow> float_less (fLeft r) (fRight r) \<and> float_less (fTop r) (fBottom r)"

definition hull :: "SkRect \<Rightarrow> SkRect \<Rightarrow> SkRect" where
  "hull a b =
     (let least = (\<lambda>x y. if float_less y x then y else x); greatest = (\<lambda>x y. if float_less x y then y else x) in
      if \<not> rect_area b then a else if \<not> rect_area a then b
      else \<lparr>fLeft = least (fLeft a) (fLeft b), fTop = least (fTop a) (fTop b),
            fRight = greatest (fRight a) (fRight b), fBottom = greatest (fBottom a) (fBottom b)\<rparr>)"

definition meets :: "SkRect \<Rightarrow> SkRect \<Rightarrow> bool" where
  "meets a b \<longleftrightarrow> float_less (fLeft a) (fRight b) \<and> float_less (fLeft b) (fRight a) \<and>
     float_less (fTop a) (fBottom b) \<and> float_less (fTop b) (fBottom a)"

definition demo_flow_geo :: flow_geo where
  "demo_flow_geo = \<lparr>f_add = (\<lambda>x y. if x = 0 then y else x), f_sub = (\<lambda>x y. x), f_mul = (\<lambda>x y. y), f_abs = id,
     f_floor = (\<lambda>_. 0), f_ceil = (\<lambda>_. 0), f_int = (\<lambda>_. 0), rect_isEmpty = (\<lambda>r. \<not> rect_area r),
     rect_isSorted = (\<lambda>_. True), makeSorted = id,
     makeOutset = (\<lambda>r x y. r), makeInset = (\<lambda>r x y. r), makeOffset = (\<lambda>r x y. r),
     irect_makeOutset = (\<lambda>i x y. i), irect_makeInset = (\<lambda>i x y. i),
     rect_of_irect = (\<lambda>i. SkRect_MakeEmpty), irect_roundOut = (\<lambda>r. (0, 0, 1, 1)), asM33 = (\<lambda>m. SkMatrix_I),
     m33_mapRect = (\<lambda>m r. r),
     m33_invert = Some, m33_Concat = (\<lambda>m n. m), m33_isIdentity = (\<lambda>m. False), m33_isTranslate = (\<lambda>m. True),
     m33_isScaleTranslate = (\<lambda>m. True), m33_isFinite = (\<lambda>m. True), m33_hasPerspective = (\<lambda>m. False),
     colors_transparent = (\<lambda>f. False), filter_canComputeFastBounds = (\<lambda>k. True), filter_computeFastBounds = (\<lambda>k r. r),
     filter_filterBounds = (\<lambda>k i m d. i), effect_fastBounds = (\<lambda>k. Some), mask_fastBounds = (\<lambda>k. Some),
     shadow_localBounds = (\<lambda>m p z. None), vertices_bounds = (\<lambda>v. demo_rect), picture_cullRect = (\<lambda>p. demo_rect),
     blob_bounds = (\<lambda>b. demo_rect), toQuad = (\<lambda>x w h. []), list_bounds = (\<lambda>d. demo_rect), list_rects = (\<lambda>d r. []),
     rect_join = hull, rect_intersects = meets, roundToScalar = id, irect_round = (\<lambda>r. (0, 0, 1, 1)),
     irect_isEmpty = (\<lambda>i. False), roundToAlpha = (\<lambda>x. 128), alphaToFloat = (\<lambda>a. 0x3F000000),
     m33_maps_to_rect = (\<lambda>m. True), m33_preConcat = (\<lambda>m n. n), m33_preTranslate = (\<lambda>x y m. m[2 := x, 5 := y]),
     m33_preScale = (\<lambda>x y m. m), m33_preSkew = (\<lambda>x y m. m), m33_preRotate = (\<lambda>d m. m),
     path_eq = (\<lambda>p q. p = q), rrect_eq = (\<lambda>p q. p = q), path_transformed_bounds = (\<lambda>m r. r)\<rparr>"

definition demo_canvas :: "unit sk_canvas" where
  "demo_canvas = \<lparr>sc_getSaveCount = (\<lambda>_. 1), sc_restoreToCount = (\<lambda>_ c. c), sc_getLocalClipBounds = (\<lambda>_. demo_rect),
     sc_getDeviceClipBounds = (\<lambda>_. (0, 0, 1, 1)), sc_getLocalToDevice = (\<lambda>_. SkM44_identity), sc_quickReject = (\<lambda>_ _. False),
     sc_save = id, sc_saveLayer = (\<lambda>_ _ _. id), sc_restore = id, sc_translate = (\<lambda>_ _. id), sc_concat44 = (\<lambda>_. id),
     sc_concat = (\<lambda>_. id), sc_setMatrix = (\<lambda>_. id), sc_clipRect = (\<lambda>_ _. id), sc_clipRRect = (\<lambda>_ _. id),
     sc_clipPath = (\<lambda>_ _. id), sc_checkerboard = (\<lambda>_. id)\<rparr>"

definition demo_shader :: "DlColor \<times> DlColorSource" where
  "demo_shader = (0, ColorColorSource 0)"

definition demo_flow_env :: "unit delegates flow_env" where
  "demo_flow_env = \<lparr>e_sk = demo_skia, e_gm = demo_flow_geo, e_D = engine_delegate demo_skia demo_flow_geo demo_canvas demo_shader,
     frame_device_pixel_ratio = float_one, double_opacity = (\<lambda>a. 0x3F000000), complex_enough = (\<lambda>p. False),
     fresh_address = 0, unset_irect = (0, 0, 0, 0), has_view_embedder = False, uses_display_list = True\<rparr>"

definition demo_texture :: "64 word \<Rightarrow> scene_layer" where
  "demo_texture i = SceneLayer (new_layer_info i) (TextureLayer (0, 0) (float_one, float_one) 1 False kSamplingLinear) []"

text \<open>A translucent layer of a translated texture and one more that overlaps it, under a clip.\<close>

definition demo_layers :: scene_layer where
  "demo_layers = SceneLayer (new_layer_info 1) (ClipRectLayer demo_rect antiAlias)
     [SceneLayer (new_layer_info 2) (OpacityLayer 128 (0, 0))
        [SceneLayer (new_layer_info 3) (TransformLayer (SkMatrix_Translate float_one 0)) [demo_texture 4], demo_texture 5]]"

definition demo_delegates :: "unit delegates" where
  "demo_delegates = \<lparr>active = PrerollDelegate (tracker_new demo_rect SkMatrix_I), canvases = (\<lambda>_. ()),
     builders = (\<lambda>_. DisplayListBuilder demo_rect)\<rparr>"

definition demo_context :: "(unit delegates, unit) preroll_context" where
  "demo_context = preroll_context_new (state_stack_new demo_delegates) None None (\<lambda>_. undefined)"

lemma signed_magnitude_code [code]:
  "signed_magnitude (d :: 'a::len word) =
     (let m = uint (take_bit (LENGTH('a) - 1) d) in if bit d (LENGTH('a) - 1) then - m else m)"
  by (simp add: signed_magnitude_def)

lemma demo_floats: "float_less 0 float_one" "\<not> float_less 0 0" "\<not> float_less float_one 0" "\<not> float_less float_one float_one"
  "float_less 0x3F000000 float_one" "\<not> float_le float_one 0" "\<not> float_le 0x3F000000 0" "SkScalarIsFinite 0" "SkScalarIsFinite float_one" "float_le 0 float_one" "float_eq 0 0" "\<not> float_eq float_one 0"
  by code_simp+

lemma restore_to_count_step:
  "n < length (entries s) \<Longrightarrow> restore_to_count D n s =
     bindr (restore_entry D (last (entries s)) s) (\<lambda>s'. restore_to_count D n (s'\<lparr>entries := butlast (entries s)\<rparr>))"
  "\<not> n < length (entries s) \<Longrightarrow> restore_to_count D n s = Inr s"
  by (simp_all add: restore_to_count.simps [of D n s])

lemma demo_geo:
  "f_add demo_flow_geo = (\<lambda>x y. if x = 0 then y else x)" "f_mul demo_flow_geo = (\<lambda>x y. y)"
  "rect_isEmpty demo_flow_geo = (\<lambda>r. \<not> rect_area r)" "makeOffset demo_flow_geo = (\<lambda>r x y. r)"
  "asM33 demo_flow_geo = (\<lambda>m. SkMatrix_I)" "m33_mapRect demo_flow_geo = (\<lambda>m r. r)" "m33_invert demo_flow_geo = Some"
  "m33_isTranslate demo_flow_geo = (\<lambda>m. True)" "m33_hasPerspective demo_flow_geo = (\<lambda>m. False)"
  "rect_join demo_flow_geo = hull" "rect_intersects demo_flow_geo = meets" "m33_maps_to_rect demo_flow_geo = (\<lambda>m. True)"
  "m33_preTranslate demo_flow_geo = (\<lambda>x y m. m[2 := x, 5 := y])" "alphaToFloat demo_flow_geo = (\<lambda>a. 0x3F000000)"
  "rect_intersect demo_skia = (\<lambda>r s. Some s)" "roundOut demo_skia = id"
  by (simp_all add: demo_flow_geo_def demo_skia_def)

lemma demo_flow_env_simps:
  "e_sk demo_flow_env = demo_skia" "e_gm demo_flow_env = demo_flow_geo"
  "e_D demo_flow_env = engine_delegate demo_skia demo_flow_geo demo_canvas demo_shader"
  "has_view_embedder demo_flow_env = False" "double_opacity demo_flow_env = (\<lambda>a. 0x3F000000)"
  by (simp_all add: demo_flow_env_def)

lemma engine_delegate_simps:
  "delegate_call (engine_delegate sk gm K cb) = engine_call sk gm K cb"
  "matrix_3x3 (engine_delegate sk gm K cb) =
     ask (\<lambda>c. asM33 gm (sc_getLocalToDevice K c)) (\<lambda>b. asM33 gm (layer_matrix (current_layer b))) (data_matrix_3x3 gm)"
  "content_culled (engine_delegate sk gm K cb) r = ask (sc_quickReject K r) (quickReject sk (rect_isEmpty gm) (rect_intersects gm) r)
     (data_content_culled gm r)"
  by (simp_all add: engine_delegate_def)

lemmas demo_defs = demo_geo demo_flow_env_simps engine_delegate_simps demo_layers_def demo_texture_def demo_delegates_def
  demo_context_def demo_rect_def new_layer_info_def preroll_context_new_def state_stack_new_def

lemmas preroll_defs = preroll_layer_def container_Preroll_def transform_Preroll_def opacity_Preroll_def clip_Preroll_def
  PrerollChildren_def with_cache_def with_save_layer_state_def in_mutator_def leaf_def texture_Preroll_def after_child_def
  can_render_def rect_at_def safe_intersection_test_def bool_and_def kCallerCanApplyOpacity_def kCallerCanApplyAnything_def
  kCallerCanApplyColorFilter_def kCallerCanApplyImageFilter_def UsesSaveLayer_def toOpacity_def SkRect_MakeEmpty_def

lemmas stack_defs = mutator_clipRect_def mutator_transform_def mutator_translate_def applyOpacity_def push_opacity_def
  push_clip_entry_def push_transform_entry_def maybe_save_layer_for_clip_def maybe_save_layer_for_transform_def
  maybe_save_layer_opacity_def do_save_def push_entry_def tell_def engine_call_def end_layer_def no_attributes_def

lemmas tracker_defs = ask_def on_current_def clipBounds_def with_cull_def map_rect_def data_translate_def data_map_def
  tracker_new_def rect_area_def hull_def meets_def data_content_culled_def SkMatrix_Translate_def SkMatrix_I_def

lemma demo_prerolled: "\<exists>r c'. Preroll demo_flow_env demo_layers demo_context = Inr (r, c')"
  by (simp add: demo_defs preroll_defs stack_defs tracker_defs restore_to_count_step Let_def demo_floats cong: bindr_weak_cong)

section \<open>Visiting a tree leaves the state stack as it was\<close>

lemma engine_env_id [simp]: "engine_env demo_skia demo_flow_geo demo_canvas demo_shader demo_flow_env = demo_flow_env"
  by (simp add: engine_env_def demo_flow_env_def)

text \<open>
  C38: \<open>Preroll\<close> of any tree of layers, whenever it returns without failing a check, leaves the layer state stack as it
  found it: the same entries are on the stack, the same attributes are outstanding, and the builder or tracker that is
  delegated to has the transforms and clips, with all those it has saved, that it had before. Two things are assumed of
  the start: the stack delegates to a builder or to the tracker of preroll (\<open>engine_view\<close> is not empty; a canvas of Skia
  is not code of this repository), and the attributes of the stack are those that its entries account for (\<open>stack_ok\<close>,
  which holds of a new stack and is shown to hold again at the end).
\<close>

theorem preroll_leaves_the_state_stack_as_it_was:
  assumes "Preroll (engine_env sk gm K cb E) l c = Inr (l', c')"
    and "stack_ok gm (pc_stack c)" and "engine_view (the_delegate (pc_stack c)) \<noteq> []"
  shows "entries (pc_stack c') = entries (pc_stack c) \<and> outstanding (pc_stack c') = outstanding (pc_stack c) \<and>
    engine_view (the_delegate (pc_stack c')) = engine_view (the_delegate (pc_stack c)) \<and> stack_ok gm (pc_stack c')"
proof -
  have gm: "e_gm (engine_env sk gm K cb E) = gm" by (simp add: engine_env_def)
  then have "engine_visits.ready sk gm K cb E (pc_stack c)" using assms(2,3) by (simp add: engine_visits.ready_def)
  from engine_visits.steadyD [OF engine_visits.preroll_steady assms(1) this] show ?thesis
    by (simp add: engine.balanced_def gm)
qed

theorem preroll_leaves_the_state_stack_as_it_was_witness:
  "\<exists>r c'. Preroll demo_flow_env demo_layers demo_context = Inr (r, c') \<and> entries (pc_stack c') = [] \<and>
     engine_view (the_delegate (pc_stack c')) = engine_view demo_delegates"
proof -
  obtain r c' where *: "Preroll demo_flow_env demo_layers demo_context = Inr (r, c')" using demo_prerolled by blast
  have "stack_ok demo_flow_geo (pc_stack demo_context)" "engine_view (the_delegate (pc_stack demo_context)) \<noteq> []"
    by (simp_all add: demo_context_def preroll_context_new_def stack_ok_new)
      (simp add: state_stack_new_def demo_delegates_def engine_view_def tracker_new_def)
  from preroll_leaves_the_state_stack_as_it_was [OF _ this, of demo_skia demo_canvas demo_shader demo_flow_env demo_layers r c'] *
  show ?thesis by (intro exI [of _ r] exI [of _ c']) (simp add: demo_context_def preroll_context_new_def state_stack_new_def)
qed



















section \<open>What is handed down in the concrete frame\<close>







end
