(* ===== verification/Spec2Isabelle.thy ===== *)
theory Spec2Isabelle
  imports Fml_Mergers Fml_Message_Loop Pointer_Converter Shell_Dispatcher Shell_Animator Text_Input Codec_Methods
    Win_Key_Sync Win_Key_Manager Flow_Rtree Dl_Simulation Dl_Rebuild Dl_Opacity Dl_Bounds_Cases Flow_Engine
begin

text \<open>
  The Flutter engine: models and proofs for the parts of its C++ code that carry logic of their own. The
  paths below are relative to the root of the repository.

  \<^bold>\<open>Parts and theories.\<close>

  \<^item> \<open>Prelude\<close>: the result type, faults, ordered maps and sets, and the locales \<open>guarded_machine\<close> and
    \<open>total_machine\<close> (an invariant kept by a run of operations) that the state machines below interpret.
  \<^item> \<open>Fml_Task_Source\<close>, \<open>Fml_Task_Queues\<close>, \<open>Fml_Message_Loop\<close>, \<open>Fml_Mergers\<close>: \<open>fml/task_source.cc\<close>,
    \<open>fml/message_loop_task_queues.cc\<close>, \<open>fml/message_loop_impl.cc\<close>, \<open>fml/task_runner.cc\<close>,
    \<open>fml/shared_thread_merger.cc\<close>, \<open>fml/raster_thread_merger.cc\<close>. A task queue holds a heap of delayed tasks
    (a multiset in the specification); queues may be merged, and the lemmas show that the queue of a thread
    that owns others serves their tasks in the order of target time and of registration, that merging and
    unmerging keep the ownership relation consistent, and that a merger's leases agree with it.
  \<^item> \<open>Ieee_Double\<close>, \<open>Pointer_Data\<close>, \<open>Pointer_Converter\<close>: \<open>lib/ui/window/pointer_data.h\<close> and
    \<open>pointer_data_packet_converter.cc\<close>. The converter is a step function on the states of the devices; its
    output follows the life cycle add, hover or down, move, up, remove that the framework relies on.
  \<^item> \<open>Flow_Frame_Timings\<close>: \<open>flow/frame_timings.cc\<close>, the recorder that accepts the phases of a frame in order.
  \<^item> \<open>Shell_Pipeline\<close>: \<open>shell/common/pipeline.h\<close> and \<open>fml/synchronization/semaphore.cc\<close>, whole operations
    and operations cut at their atomic sections, interleaved with those of \<open>Rasterizer::Draw\<close>, its resubmission
    included.
  \<^item> \<open>Shell_Vsync\<close>, \<open>Shell_Dispatcher\<close>, \<open>Shell_Animator\<close>: \<open>shell/common/vsync_waiter.cc\<close>,
    \<open>pointer_data_dispatcher.cc\<close>, \<open>animator.cc\<close>. The dispatcher and the animator run on the model of the
    waiter; the animator also uses the pipeline and the recorder.
  \<^item> \<open>Text_Utf16\<close>, \<open>Text_Input\<close>: \<open>shell/platform/common/text_input_model.cc\<close> and the texts it edits.
  \<^item> \<open>Codec_Streams\<close>, \<open>Codec_Standard\<close>, \<open>Codec_Roundtrip\<close>, \<open>Codec_Methods\<close>: the message codecs and channels of
    \<open>shell/platform/common/client_wrapper\<close>: what is written is read back, for values and for method calls
    with their answers, and reading ends on any input.
  \<^item> \<open>Win_Key_Embedder\<close>, \<open>Win_Key_Legal\<close>, \<open>Win_Key_Sync\<close>, \<open>Win_Key_Manager\<close>: the keyboard of
    \<open>shell/platform/windows\<close>. The manager forms key events from Win32 messages and hands them out one at a
    time; the embedder handler turns them into events that go down, repeat and go up in turn.
  \<^item> \<open>Flow_Rtree\<close>: \<open>display_list/display_list_rtree.cc\<close>, the query for the rectangles that were drawn.
  \<^item> \<open>Dl_Attributes\<close>, \<open>Dl_Flags\<close>, \<open>Dl_Ops\<close>: the attributes of \<open>display_list\<close> with their comparisons, the flags that
    say which attributes an operation uses, and the records of a list with the calls they make.
  \<^item> \<open>Dl_Builder\<close>, \<open>Dl_Recording\<close>: \<open>display_list/display_list_builder.cc\<close> and \<open>DisplayList::Dispatch\<close>. The builder
    records attribute changes, layers, transforms, clips and drawing calls into a storage of records with
    their sizes in bytes; a stack of layers holds saves not recorded yet and what is known about opacity.
  \<^item> \<open>Dl_Memory\<close>, \<open>Dl_Attr_Steps\<close>, \<open>Dl_Replay\<close>, \<open>Dl_Safety\<close>: lemmas on those operations, and that recording fails only at
    a check and writes only records of layers. \<open>Dl_Balance\<close>: saves and restores balance in every recorded list.
  \<^item> \<open>Dl_Canvas\<close>, \<open>Dl_Simulation\<close>: what the calls mean on a canvas, and that a recorded list draws what the calls
    draw. \<open>Dl_Rebuild\<close>: a list is its own recording. \<open>Dl_Opacity\<close>: what a list says about opacity is exact.
  \<^item> \<open>Dl_Accumulators\<close>, \<open>Dl_Filter_Bounds\<close>, \<open>Dl_Bounds\<close>: \<open>display_list/display_list_utils.cc\<close>, the calculator of the bounds
    of a list. It replays the list with a matrix helper and a clip helper, asks filters and path effects
    for the bounds of what they draw, and hands rectangles to one of two accumulators, the bounding box or
    the rectangles of the R-tree, through a record of operations.
  \<^item> \<open>Dl_Accumulator_Laws\<close>, \<open>Dl_Bounds_Sound\<close>, \<open>Dl_Bounds_Total\<close>, \<open>Dl_Bounds_Cases\<close>: the locales \<open>culled_accumulator\<close>,
    \<open>paired_accumulators\<close> and \<open>layered_accumulator\<close> state what the calculator needs of its accumulators and
    are interpreted on both; nothing found reaches out of the rectangle to cull to, the rectangles of
    the R-tree lie in the bounds when the filters are even (a larger input has a larger output) and no other list
    is drawn, and the bounds of recorded lists are computed when the filters answer.
  \<^item> \<open>Flow_Mutators\<close>, \<open>Dl_Clip_Tracker\<close>, \<open>Flow_State_Stack\<close>, \<open>Flow_Delegates\<close>: \<open>flow/layers/layer_state_stack.cc\<close> and what
    it uses (the mutators of \<open>flow/embedded_views.cc\<close>, \<open>display_list/display_list_matrix_clip_tracker.cc\<close>). The stack
    holds an entry for every save, transform, clip and attribute that the layers on the way to the one visited
    have made, and passes them on to a delegate: a builder, the tracker of preroll, a canvas of Skia or none.
  \<^item> \<open>Flow_Stack_Laws\<close>, \<open>Flow_Delegate_Laws\<close>: leaving a scope of the stack brings back the attributes, and for a
    delegate that meets the locale \<open>scoped_delegate\<close> (interpreted on the builder and on the tracker) the
    transforms and clips.
  \<^item> \<open>Flow_Raster_Cache\<close>: \<open>flow/raster_cache.cc\<close> and its keys. \<open>Flow_Layer_Tree\<close>, \<open>Flow_Preroll\<close>, \<open>Flow_Paint\<close>: the layers of
    \<open>flow/layers\<close>, each visited twice in a frame, once to find bounds and what the children can apply, once to
    paint; \<open>Paint\<close> and \<open>Preroll\<close> follow the tree structurally.
  \<^item> \<open>Flow_Layer_Laws\<close>, \<open>Flow_Sharing\<close>, \<open>Flow_Engine\<close>: both visits leave the state stack as it was (the locales
    \<open>flow_visits\<close> and \<open>flow_painting\<close>, interpreted on the engine's delegates and on what draws with them), and a layer hands down only
    attributes that its children can apply.

  \<^bold>\<open>Reading the models.\<close> A definition has the name of the function it translates; a comment above it names
  the source lines. The build is a debug build: a failed \<open>FML_DCHECK\<close> or \<open>assert\<close> is the value
  \<open>Inl DCheck_Failed\<close>, a failed \<open>FML_CHECK\<close> is \<open>Inl Check_Failed\<close>, an exception or an access out of range its own fault.
  State is a record that each operation takes and returns. Calls that leave a component (waking a thread,
  posting a task, sending a reply) are entries of a log in its state or a list of actions. Mutexes make an
  operation atomic; where a method leaves the mutex in between, its parts are steps of their own.

  \<^bold>\<open>Recursion.\<close> Loops over data are structural. The reader of the standard codec carries fuel, the depth of
  nesting; the number of bytes left plus one is enough for every input (\<open>reading_any_bytes_ends\<close>). The loop
  that flushes tasks is a \<open>partial_function\<close>, as the tasks it runs may register tasks for ever.

  \<^bold>\<open>Parameters.\<close> Code that is not under \<open>src/\<close> is an argument: subtraction of floating-point numbers, the
  conversion between UTF-8 and UTF-16, clock readings, the effect of a closure, the handlers of channels,
  and what the display list builder calls of Skia (the record \<open>skia\<close>: matrices, rectangles, paths). The predicate
  \<open>lawful\<close> states what is relied on there: translating by nothing, scaling by one and the like leave a matrix
  as it is. For the layers, \<open>flow_geo\<close> holds Skia's geometry, \<open>sk_canvas\<close> a canvas of Skia, and \<open>painter\<close> what textures,
  shadows, pictures and off-screen surfaces draw.

  \<^bold>\<open>Limits.\<close> Where a model is coarser than the code: \<open>lawful\<close> is the documented meaning of those calls, which the
  floating-point code meets up to rounding (a rotation by many full circles, an entry of minus zero). Sizes of records are
  natural numbers, and the product in \<open>drawAtlas\<close> does not wrap. Two objects that are compared as attributes are at
  different addresses. The number of requests to pause secondary task sources is unbounded, an \<open>int\<close> in the
  code. \<open>MergeWithLease\<close> is atomic, although each merger instance has a mutex of its own. \<open>arg_ok\<close> states what the
  callers of the text input model owe; in a run the other calls are skipped. \<open>key_step\<close> states two of the four rules of
  \<open>embedder.h\<close>. \<open>canvas_step\<close> is a specification that ignores transforms that are not finite and normalises
  shapes as the builder does. \<open>bounds_geo\<close>, \<open>demo_skia\<close> and \<open>demo_flow_geo\<close> are stand-ins for Skia in witnesses only. The operations of
  the animator and a whole \<open>Draw\<close> of the rasterizer are atomic in \<open>Shell_Animator\<close>; their interleaving within the
  pipeline is that of \<open>Shell_Pipeline\<close>.

  \<^bold>\<open>Not modelled.\<close> The shell, engine and rasterizer but for their use of the pipeline; the Dart bindings; the
  diffing of layers; the renderer, which works on graphics APIs; the
  platform embeddings; the system calls of \<open>fml\<close>; the web engine, tools and vendored code.
\<close>

end
